(* ===== verification/Prelude.thy ===== *)
theory Prelude
  imports Main "HOL-Library.Word" "HOL-Library.Signed_Division"
begin

text \<open>
  Shared vocabulary of the development: bytes and C buffers, C's fixed-width integers as
  \<^typ>\<open>int\<close> with the wrap-around written out, truncating division, the negated \<^verbatim>\<open>errno\<close> values,
  and the loop that every byte-driven parser of the firmware runs.
\<close>

unbundle bit_operations_syntax

section \<open>Bytes and (pointer, length) arguments\<close>

type_synonym byte = "8 word"

text \<open>
  A C argument pair \<^verbatim>\<open>(const uint8_t *data, size_t length)\<close>. A valid pointer is the list of the
  bytes it designates; a NULL pointer still comes with the length the caller passed.
\<close>

datatype cbuf = Null nat | Buf "byte list"

fun buf_len :: "cbuf \<Rightarrow> nat" where
  "buf_len (Null n) = n"
| "buf_len (Buf xs) = length xs"

fun is_null :: "cbuf \<Rightarrow> bool" where
  "is_null (Null n) = True"
| "is_null (Buf xs) = False"

fun buf_bytes :: "cbuf \<Rightarrow> byte list" where
  "buf_bytes (Null n) = []"
| "buf_bytes (Buf xs) = xs"

section \<open>C integers\<close>

text \<open>
  \<open>wrap_u w\<close> and \<open>wrap_s w\<close> reduce a mathematical integer to the \<open>w\<close>-bit unsigned and the
  two's complement signed value. A signed result out of range is undefined in ISO C; the target's
  value is the wrapped one, which is what these functions give, and the theorems that depend on it
  either bound the operands or say so.
\<close>

definition wrap_u :: "nat \<Rightarrow> int \<Rightarrow> int" where
  "wrap_u w x = x mod 2 ^ w"

definition wrap_s :: "nat \<Rightarrow> int \<Rightarrow> int" where
  "wrap_s w x = (x + 2 ^ (w - 1)) mod 2 ^ w - 2 ^ (w - 1)"

abbreviation u8 :: "int \<Rightarrow> int" where "u8 \<equiv> wrap_u 8"
abbreviation u16 :: "int \<Rightarrow> int" where "u16 \<equiv> wrap_u 16"
abbreviation u32 :: "int \<Rightarrow> int" where "u32 \<equiv> wrap_u 32"
abbreviation u64 :: "int \<Rightarrow> int" where "u64 \<equiv> wrap_u 64"
abbreviation i8 :: "int \<Rightarrow> int" where "i8 \<equiv> wrap_s 8"
abbreviation i16 :: "int \<Rightarrow> int" where "i16 \<equiv> wrap_s 16"
abbreviation i32 :: "int \<Rightarrow> int" where "i32 \<equiv> wrap_s 32"
abbreviation i64 :: "int \<Rightarrow> int" where "i64 \<equiv> wrap_s 64"

definition in_u :: "nat \<Rightarrow> int \<Rightarrow> bool" where
  "in_u w x \<longleftrightarrow> 0 \<le> x \<and> x < 2 ^ w"

definition in_s :: "nat \<Rightarrow> int \<Rightarrow> bool" where
  "in_s w x \<longleftrightarrow> - (2 ^ (w - 1)) \<le> x \<and> x < 2 ^ (w - 1)"

definition INT32_MAX :: int where "INT32_MAX = 2147483647"
definition INT32_MIN :: int where "INT32_MIN = -2147483648"
definition UINT64_MAX :: int where "UINT64_MAX = 18446744073709551615"

text \<open>C's \<^verbatim>\<open>/\<close> truncates toward zero.\<close>

definition cdiv :: "int \<Rightarrow> int \<Rightarrow> int" where
  "cdiv a b = a sdiv b"

section \<open>Status codes\<close>

definition OK :: int where "OK = 0"
definition EINTR :: int where "EINTR = 4"
definition EIO :: int where "EIO = 5"
definition EBADF :: int where "EBADF = 9"
definition EAGAIN :: int where "EAGAIN = 11"
definition EACCES :: int where "EACCES = 13"
definition EFAULT :: int where "EFAULT = 14"
definition EBUSY :: int where "EBUSY = 16"
definition ENODEV :: int where "ENODEV = 19"
definition EINVAL :: int where "EINVAL = 22"
definition ENOTTY :: int where "ENOTTY = 25"
definition ERANGE :: int where "ERANGE = 34"
definition EDEADLK :: int where "EDEADLK = 35"
definition ENODATA :: int where "ENODATA = 61"
definition EPROTO :: int where "EPROTO = 71"
definition EBADMSG :: int where "EBADMSG = 74"
definition EOVERFLOW :: int where "EOVERFLOW = 75"
definition EILSEQ :: int where "EILSEQ = 84"
definition EMSGSIZE :: int where "EMSGSIZE = 90"
definition ENOTSUP :: int where "ENOTSUP = 95"
definition ENOBUFS :: int where "ENOBUFS = 105"
definition ETIMEDOUT :: int where "ETIMEDOUT = 110"
definition EALREADY :: int where "EALREADY = 114"

section \<open>The byte loop\<close>

text \<open>
  \<^verbatim>\<open>for (i = 0; i < length; ++i) { ... if (status) return status; ... } return 0;\<close>
  The parser's step consumes one byte and either returns a nonzero status, which ends the
  loop, or lets it continue in the new state.
\<close>

fun feed_loop :: "('b \<Rightarrow> 's \<Rightarrow> int \<times> 's) \<Rightarrow> 'b list \<Rightarrow> 's \<Rightarrow> int \<times> 's" where
  "feed_loop step [] s = (0, s)"
| "feed_loop step (b # bs) s =
     (case step b s of (rc, s') \<Rightarrow> if rc \<noteq> 0 then (rc, s') else feed_loop step bs s')"

section \<open>Lemmas\<close>

named_theorems c_arith
named_theorems errno_defs

lemmas [errno_defs] = OK_def EINTR_def EACCES_def EFAULT_def ENOTTY_def EDEADLK_def ENODATA_def EBADMSG_def EILSEQ_def
  ENOTSUP_def ETIMEDOUT_def EALREADY_def EIO_def EBADF_def EAGAIN_def EBUSY_def ENODEV_def EINVAL_def ERANGE_def
  EPROTO_def EOVERFLOW_def EMSGSIZE_def ENOBUFS_def

lemma wrap_u_id [c_arith]: "0 \<le> x \<Longrightarrow> x < 2 ^ w \<Longrightarrow> wrap_u w x = x"
  by (simp add: wrap_u_def)

lemma wrap_s_id [c_arith]:
  assumes "0 < w" "- (2 ^ (w - 1)) \<le> x" "x < 2 ^ (w - 1)"
  shows "wrap_s w x = x"
proof -
  have p: "(2::int) ^ w = 2 * 2 ^ (w - 1)"
    using assms(1) by (metis Suc_pred' power_Suc)
  have "(x + 2 ^ (w - 1)) mod 2 ^ w = x + 2 ^ (w - 1)"
    using assms(2,3) by (intro mod_pos_pos_trivial) (simp_all add: p)
  then show ?thesis by (simp add: wrap_s_def)
qed

lemma wrap_u_range: "0 \<le> wrap_u w x" "wrap_u w x < 2 ^ w"
  by (simp_all add: wrap_u_def)

lemma wrap_s_range:
  assumes "0 < w"
  shows "- (2 ^ (w - 1)) \<le> wrap_s w x" "wrap_s w x < 2 ^ (w - 1)"
proof -
  have p: "(2::int) ^ w = 2 * 2 ^ (w - 1)"
    using assms by (metis Suc_pred' power_Suc)
  have b: "0 \<le> (x + 2 ^ (w - 1)) mod 2 ^ w" "(x + 2 ^ (w - 1)) mod 2 ^ w < 2 ^ w"
    by simp_all
  show "- (2 ^ (w - 1)) \<le> wrap_s w x" using b by (simp add: wrap_s_def)
  show "wrap_s w x < 2 ^ (w - 1)" using b p by (simp add: wrap_s_def)
qed

lemma in_u_wrap [simp]: "in_u w (wrap_u w x)"
  by (simp add: in_u_def wrap_u_range)

lemma in_s_wrap [simp]: "0 < w \<Longrightarrow> in_s w (wrap_s w x)"
  using wrap_s_range [of w x] by (simp add: in_s_def)

lemma wrap_u_in [simp]: "in_u w x \<Longrightarrow> wrap_u w x = x"
  by (simp add: in_u_def c_arith)

lemma wrap_s_in [simp]: "0 < w \<Longrightarrow> in_s w x \<Longrightarrow> wrap_s w x = x"
  by (simp add: in_s_def c_arith)

lemma i32_id: "-2147483648 \<le> x \<Longrightarrow> x \<le> 2147483647 \<Longrightarrow> i32 x = x"
  by (rule wrap_s_id) simp_all

lemma i64_id: "-9223372036854775808 \<le> x \<Longrightarrow> x \<le> 9223372036854775807 \<Longrightarrow> i64 x = x"
  by (rule wrap_s_id) simp_all

lemma u64_id: "0 \<le> x \<Longrightarrow> x \<le> 18446744073709551615 \<Longrightarrow> u64 x = x"
  by (rule wrap_u_id) simp_all

lemma u32_id: "0 \<le> x \<Longrightarrow> x \<le> 4294967295 \<Longrightarrow> u32 x = x"
  by (rule wrap_u_id) simp_all

lemma u8_id: "0 \<le> x \<Longrightarrow> x \<le> 255 \<Longrightarrow> u8 x = x"
  by (rule wrap_u_id) simp_all

lemma i32_range: "-2147483648 \<le> i32 x" "i32 x \<le> 2147483647"
  using wrap_s_range [of 32 x] by simp_all

lemma i64_range: "-9223372036854775808 \<le> i64 x" "i64 x \<le> 9223372036854775807"
  using wrap_s_range [of 64 x] by simp_all

lemma wrap_s_diff: "wrap_s w (h - wrap_s w (h - a)) = wrap_s w a"
proof -
  have "(h - ((h - a + 2 ^ (w - 1)) mod 2 ^ w - 2 ^ (w - 1)) + 2 ^ (w - 1)) mod 2 ^ w =
      (h + 2 ^ (w - 1) + 2 ^ (w - 1) - (h - a + 2 ^ (w - 1)) mod 2 ^ w) mod (2 ^ w :: int)"
    by (simp add: algebra_simps)
  also have "\<dots> = (h + 2 ^ (w - 1) + 2 ^ (w - 1) - (h - a + 2 ^ (w - 1))) mod 2 ^ w"
    by (rule mod_diff_right_eq)
  finally show ?thesis by (simp add: wrap_s_def algebra_simps)
qed

lemma int_mult_div_le: "0 < b \<Longrightarrow> (a div b) * b \<le> (a :: int)"
proof -
  assume "0 < b"
  then have "0 \<le> a mod b" by simp
  then show ?thesis by (simp add: minus_mod_eq_div_mult [symmetric])
qed

lemma int_le_div_iff: "0 < b \<Longrightarrow> q \<le> a div b \<longleftrightarrow> q * b \<le> (a :: int)"
proof
  assume b: "0 < b" and "q \<le> a div b"
  then have "q * b \<le> (a div b) * b" by (simp add: mult_right_mono)
  then show "q * b \<le> a" using int_mult_div_le [OF b, of a] by simp
next
  assume b: "0 < b" and "q * b \<le> a"
  then have "(q * b) div b \<le> a div b" by (intro zdiv_mono1)
  then show "q \<le> a div b" using b by simp
qed

lemma int_div_less_iff: "0 < b \<Longrightarrow> a div b < q \<longleftrightarrow> (a :: int) < q * b"
  using int_le_div_iff [of b q a] by linarith

lemma cdiv_nonneg: "0 \<le> a \<Longrightarrow> 0 < b \<Longrightarrow> cdiv a b = a div b"
  by (simp add: cdiv_def signed_divide_int_def sgn_if)

lemma cdiv_neg: "a < 0 \<Longrightarrow> 0 < b \<Longrightarrow> cdiv a b = - ((- a) div b)"
  by (simp add: cdiv_def signed_divide_int_def sgn_if)

lemma cdiv_0 [simp]: "cdiv 0 b = 0"
  by (simp add: cdiv_def signed_divide_int_def)

lemma cdiv_mult_self: "0 < b \<Longrightarrow> cdiv (a * b) b = a"
  by (cases "0 \<le> a") (simp_all add: cdiv_nonneg cdiv_neg mult_neg_pos flip: mult_minus_left)

lemma cdiv_bounds:
  assumes "0 < b"
  shows "\<bar>cdiv a b\<bar> \<le> \<bar>a\<bar> div b"
  using assms by (cases "0 \<le> a") (simp_all add: cdiv_nonneg cdiv_neg pos_imp_zdiv_nonneg_iff)

lemma feed_loop_append:
  "feed_loop step (xs @ ys) s =
     (case feed_loop step xs s of (rc, s') \<Rightarrow> if rc \<noteq> 0 then (rc, s') else feed_loop step ys s')"
  by (induction xs arbitrary: s) (simp_all split: prod.splits)

lemma feed_loop_append_ok:
  "feed_loop step xs s = (0, s') \<Longrightarrow> feed_loop step (xs @ ys) s = feed_loop step ys s'"
  by (simp add: feed_loop_append)

lemma feed_loop_Cons_ok:
  "step b s = (0, s') \<Longrightarrow> feed_loop step (b # bs) s = feed_loop step bs s'"
  by simp

section \<open>The interface of a byte-driven parser\<close>

text \<open>
  What a client of a byte-driven parser relies on: every step keeps the parser's representation
  invariant, whatever byte arrives. The laws of the loop follow once and for all.
\<close>

locale byte_parser =
  fixes step :: "'b \<Rightarrow> 's \<Rightarrow> int \<times> 's"
    and inv :: "'s \<Rightarrow> bool"
  assumes step_inv: "inv s \<Longrightarrow> inv (snd (step b s))"
begin

lemma feed_inv: "inv s \<Longrightarrow> inv (snd (feed_loop step bs s))"
proof (induction bs arbitrary: s)
  case Nil
  then show ?case by simp
next
  case (Cons b bs)
  obtain rc s' where st: "step b s = (rc, s')" by (cases "step b s")
  have "inv s'" using step_inv [OF Cons.prems, of b] st by simp
  then show ?case using Cons.IH st by simp
qed

lemma feed_run_inv:
  "inv s \<Longrightarrow> inv (fold (\<lambda>chunk t. snd (feed_loop step chunk t)) chunks s)"
  by (induction chunks arbitrary: s) (simp_all add: feed_inv)

end

section \<open>The interface of a system that holds a condition\<close>

text \<open>
  A system that is ticked by its environment and answers each tick with an output. Once a held condition
  is reached, every later tick keeps it and answers with a safe output.
\<close>

fun run_outputs :: "('e \<Rightarrow> 's \<Rightarrow> 'o \<times> 's) \<Rightarrow> 'e list \<Rightarrow> 's \<Rightarrow> 'o list" where
  "run_outputs tick [] s = []"
| "run_outputs tick (e # es) s = (case tick e s of (out, s') \<Rightarrow> out # run_outputs tick es s')"

locale held_system =
  fixes tick :: "'e \<Rightarrow> 's \<Rightarrow> 'o \<times> 's"
    and held :: "'s \<Rightarrow> bool"
    and safe :: "'o \<Rightarrow> bool"
  assumes held_tick: "held s \<Longrightarrow> held (snd (tick e s)) \<and> safe (fst (tick e s))"
begin

lemma outputs_safe: "held s \<Longrightarrow> list_all safe (run_outputs tick es s)"
proof (induction es arbitrary: s)
  case (Cons e es)
  obtain out s' where t: "tick e s = (out, s')" by (cases "tick e s")
  then show ?case using held_tick [OF Cons.prems, of e] Cons.IH [of s'] by simp
qed simp

lemma held_run: "held s \<Longrightarrow> held (fold (\<lambda>e t. snd (tick e t)) es s)"
  by (induction es arbitrary: s) (simp_all add: held_tick)

end

end
