(* ===== verification/Spike_Codec.thy ===== *)
theory Spike_Codec
  imports Prelude
begin

text \<open>
  The SPIKE message codec, \<^verbatim>\<open>protocol/c/spike_codec.c\<close>: the three-delimiter COBS variant, the
  XOR layer and the frame delimiters, and the streaming deframer that keeps a low-priority and a
  high-priority frame apart. Destination buffers are modelled by the prefix written so far, so an
  \<^verbatim>\<open>out\<close> counter is the length of that prefix and a capacity test compares it with the capacity.
\<close>

section \<open>Constants\<close>

definition BW_CODEC_OK :: int where "BW_CODEC_OK = 0"
definition BW_CODEC_INVALID :: int where "BW_CODEC_INVALID = -1"
definition BW_CODEC_NO_SPACE :: int where "BW_CODEC_NO_SPACE = -2"

definition BW_DELIMITER_END :: byte where "BW_DELIMITER_END = 2"
definition BW_XOR :: byte where "BW_XOR = 3"
definition BW_BLOCK_MAX :: nat where "BW_BLOCK_MAX = 84"
definition BW_SPIKE_STREAM_MAX_FRAME :: nat where "BW_SPIKE_STREAM_MAX_FRAME = 1026"

section \<open>COBS\<close>

text \<open>The loop of \<^verbatim>\<open>bw_cobs_encode\<close>: remaining source, written prefix, \<^verbatim>\<open>code_index\<close>, \<^verbatim>\<open>block\<close>.\<close>

fun cobs_encode_loop :: "nat \<Rightarrow> byte list \<Rightarrow> byte list \<Rightarrow> nat \<Rightarrow> nat \<Rightarrow> int + byte list" where
  "cobs_encode_loop capacity [] dst code_index block =
     Inr (dst[code_index := of_nat (block + 2)])"
| "cobs_encode_loop capacity (b # src) dst code_index block =
     (if b \<le> 2 then
        let dst1 = dst[code_index := of_nat (block + 2 + unat b * BW_BLOCK_MAX)] in
        if length dst1 \<ge> capacity then Inl BW_CODEC_NO_SPACE
        else cobs_encode_loop capacity src (dst1 @ [0xff]) (length dst1) 1
      else if length dst \<ge> capacity then Inl BW_CODEC_NO_SPACE
      else
        let dst1 = dst @ [b]; block1 = block + 1 in
        if block1 > BW_BLOCK_MAX then
          if length dst1 \<ge> capacity then Inl BW_CODEC_NO_SPACE
          else cobs_encode_loop capacity src (dst1 @ [0xff]) (length dst1) 1
        else cobs_encode_loop capacity src dst1 code_index block1)"

definition bw_cobs_encode :: "cbuf \<Rightarrow> nat \<Rightarrow> int + byte list" where
  "bw_cobs_encode src capacity =
     (if capacity < 1 \<or> (buf_len src > 0 \<and> is_null src) then Inl BW_CODEC_NO_SPACE
      else cobs_encode_loop capacity (buf_bytes src) [0xff] 0 1)"

text \<open>The loop of \<^verbatim>\<open>bw_cobs_decode\<close>: unread source and written prefix.\<close>

function cobs_decode_loop :: "nat \<Rightarrow> byte list \<Rightarrow> byte list \<Rightarrow> int + byte list" where
  "cobs_decode_loop capacity [] dst = Inr dst"
| "cobs_decode_loop capacity (code # src) dst =
     (if code \<le> 2 then Inl BW_CODEC_INVALID
      else
        let adjusted = unat code - 3;
            delimiter = (if code = 0xff then None else Some (adjusted div BW_BLOCK_MAX));
            block = (if code = 0xff then BW_BLOCK_MAX else adjusted mod BW_BLOCK_MAX) in
        if (case delimiter of None \<Rightarrow> False | Some d \<Rightarrow> d > 2) then Inl BW_CODEC_INVALID
        else if block > length src then Inl BW_CODEC_INVALID
        else if length dst + block + (if delimiter \<noteq> None \<and> block < length src then 1 else 0)
                > capacity then Inl BW_CODEC_NO_SPACE
        else cobs_decode_loop capacity (drop block src)
               (dst @ take block src @
                (case delimiter of
                   None \<Rightarrow> []
                 | Some d \<Rightarrow> if block < length src then [of_nat d] else [])))"
  by pat_completeness auto
termination
  by (relation "measure (\<lambda>(capacity, src, dst). length src)") auto

definition bw_cobs_decode :: "byte list \<Rightarrow> nat \<Rightarrow> int + byte list" where
  "bw_cobs_decode src capacity =
     (if src = [] then Inl BW_CODEC_INVALID else cobs_decode_loop capacity src [])"

section \<open>Frames\<close>

definition bw_spike_pack :: "cbuf \<Rightarrow> bool \<Rightarrow> nat \<Rightarrow> int + byte list" where
  "bw_spike_pack payload high_priority frame_capacity =
     (let start = (if high_priority then 1 else 0) in
      if frame_capacity < start + 2 then Inl BW_CODEC_NO_SPACE
      else case bw_cobs_encode payload (frame_capacity - start - 1) of
             Inl status \<Rightarrow> Inl status
           | Inr encoded \<Rightarrow>
               Inr ((if high_priority then [1] else []) @
                    map (\<lambda>x. x XOR BW_XOR) encoded @ [BW_DELIMITER_END]))"

definition bw_spike_unpack :: "cbuf \<Rightarrow> nat \<Rightarrow> int + byte list" where
  "bw_spike_unpack frame payload_capacity =
     (let bytes = buf_bytes frame in
      if is_null frame \<or> buf_len frame < 2 \<or> last bytes \<noteq> BW_DELIMITER_END
      then Inl BW_CODEC_INVALID
      else
        let start = (if hd bytes = 1 then 1 else 0);
            encoded = butlast (drop start bytes) in
        if length encoded = 0 \<or> length encoded > 1024 then Inl BW_CODEC_INVALID
        else if (\<exists>x \<in> set encoded. x = 1 \<or> x = 2 \<or> x = 3) then Inl BW_CODEC_INVALID
        else bw_cobs_decode (map (\<lambda>x. x XOR BW_XOR) encoded) payload_capacity)"

section \<open>The stream\<close>

text \<open>\<open>ss_low\<close> and \<open>ss_high\<close> are \<^verbatim>\<open>low[0..low_len)\<close> and \<^verbatim>\<open>high[0..high_len)\<close>.\<close>

record bw_spike_stream =
  ss_low :: "byte list"
  ss_high :: "byte list"
  ss_high_active :: bool

text \<open>
  A message callback sees the payload and its priority and acts on the caller's context; a nonzero
  result ends the feed.
\<close>

type_synonym 'c message_cb = "byte list \<Rightarrow> bool \<Rightarrow> 'c \<Rightarrow> int \<times> 'c"

definition bw_spike_stream_reset :: "bw_spike_stream \<Rightarrow> bw_spike_stream" where
  "bw_spike_stream_reset s = s\<lparr>ss_low := [], ss_high := [], ss_high_active := False\<rparr>"

text \<open>The body of the loop of \<^verbatim>\<open>bw_spike_stream_feed\<close>.\<close>

definition bw_spike_stream_byte ::
    "'c message_cb \<Rightarrow> byte \<Rightarrow> bw_spike_stream \<times> 'c \<Rightarrow> int \<times> (bw_spike_stream \<times> 'c)" where
  "bw_spike_stream_byte cb b = (\<lambda>(s, c).
     if b = 1 then (0, (s\<lparr>ss_high := [], ss_high_active := True\<rparr>, c))
     else
       let hi = ss_high_active s; frame = (if hi then ss_high s else ss_low s) in
       if b = BW_DELIMITER_END then
         if frame \<noteq> [] then
           let s1 = (if hi then s\<lparr>ss_high := [], ss_high_active := False\<rparr>
                     else s\<lparr>ss_low := []\<rparr>) in
           case bw_spike_unpack (Buf (frame @ [BW_DELIMITER_END])) BW_SPIKE_STREAM_MAX_FRAME of
             Inl status \<Rightarrow> (status, (bw_spike_stream_reset s1, c))
           | Inr payload \<Rightarrow> (case cb payload hi c of (status, c') \<Rightarrow> (status, (s1, c')))
         else (0, (if hi then s\<lparr>ss_high_active := False\<rparr> else s, c))
       else if b = BW_XOR \<or> length frame \<ge> BW_SPIKE_STREAM_MAX_FRAME - 1 then
         (if b = BW_XOR then BW_CODEC_INVALID else BW_CODEC_NO_SPACE,
          (bw_spike_stream_reset s, c))
       else (0, (if hi then s\<lparr>ss_high := frame @ [b]\<rparr> else s\<lparr>ss_low := frame @ [b]\<rparr>, c)))"

definition bw_spike_stream_feed ::
    "'c message_cb option \<Rightarrow> cbuf \<Rightarrow> bw_spike_stream \<times> 'c \<Rightarrow> int \<times> (bw_spike_stream \<times> 'c)" where
  "bw_spike_stream_feed callback data sc =
     (case callback of
        None \<Rightarrow> (BW_CODEC_INVALID, sc)
      | Some cb \<Rightarrow>
          if is_null data \<and> buf_len data > 0 then (BW_CODEC_INVALID, sc)
          else feed_loop (bw_spike_stream_byte cb) (buf_bytes data) sc)"

section \<open>The encoding as a specification\<close>

text \<open>
  The same encoding without buffers: \<open>blk\<close> holds the bytes of the block being collected. A block
  closes at a delimiter byte, whose value its code carries, or when it is full.
\<close>

fun cobs_blocks :: "byte list \<Rightarrow> byte list \<Rightarrow> byte list" where
  "cobs_blocks blk [] = of_nat (length blk + 3) # blk"
| "cobs_blocks blk (b # src) =
     (if b \<le> 2 then of_nat (length blk + 3 + unat b * 84) # blk @ cobs_blocks [] src
      else if length blk + 1 = 84 then 0xff # blk @ b # cobs_blocks [] src
      else cobs_blocks (blk @ [b]) src)"

definition open_block :: "byte list \<Rightarrow> bool" where
  "open_block blk \<longleftrightarrow> length blk < 84 \<and> (\<forall>x \<in> set blk. 2 < x)"

lemma open_block_Nil [simp]: "open_block []"
  by (simp add: open_block_def)

lemma open_block_snoc:
  "open_block blk \<Longrightarrow> \<not> b \<le> 2 \<Longrightarrow> length blk + 1 \<noteq> 84 \<Longrightarrow> open_block (blk @ [b])"
  by (auto simp: open_block_def)

lemma cobs_blocks_length_ge: "length blk + 1 \<le> length (cobs_blocks blk src)"
  by (induction blk src rule: cobs_blocks.induct) auto

lemma cobs_blocks_nonempty [simp]: "cobs_blocks blk src \<noteq> []"
  using cobs_blocks_length_ge [of blk src] by auto

text \<open>The loop computes exactly this encoding, and fails exactly when it does not fit.\<close>

lemma cobs_encode_loop_blocks:
  assumes "length blk < 84" and "length pre + 1 + length blk \<le> capacity"
  shows "cobs_encode_loop capacity src (pre @ 0xff # blk) (length pre) (length blk + 1) =
     (if length pre + length (cobs_blocks blk src) \<le> capacity
      then Inr (pre @ cobs_blocks blk src) else Inl BW_CODEC_NO_SPACE)"
  using assms
proof (induction src arbitrary: pre blk)
  case Nil
  then show ?case by (simp add: ac_simps)
next
  case (Cons b src)
  show ?case
  proof (cases "b \<le> 2")
    case True
    let ?pre = "pre @ of_nat (length blk + 3 + unat b * 84) # blk"
    show ?thesis
      using True Cons.prems Cons.IH [of "[]" ?pre] cobs_blocks_length_ge [of "[]" src]
      by (simp add: Let_def BW_BLOCK_MAX_def ac_simps)
  next
    case False
    let ?pre = "pre @ 0xff # blk @ [b]"
    show ?thesis
      using False Cons.prems Cons.IH [of "[]" ?pre] Cons.IH [of "blk @ [b]" pre]
        cobs_blocks_length_ge [of "[]" src] cobs_blocks_length_ge [of "blk @ [b]" src]
      by (simp add: Let_def BW_BLOCK_MAX_def ac_simps)
  qed
qed

lemma bw_cobs_encode_blocks:
  "bw_cobs_encode (Buf src) capacity =
     (if length (cobs_blocks [] src) \<le> capacity then Inr (cobs_blocks [] src)
      else Inl BW_CODEC_NO_SPACE)"
  using cobs_encode_loop_blocks [of "[]" "[]" capacity src] cobs_blocks_length_ge [of "[]" src]
  by (simp add: bw_cobs_encode_def)

text \<open>Decoding inverts it, again with the exact capacity condition.\<close>

lemma unat_code: "k < 256 \<Longrightarrow> unat (of_nat k :: byte) = k"
  by (simp add: unat_of_nat)

lemma code_not_small: "3 \<le> k \<Longrightarrow> k < 256 \<Longrightarrow> \<not> (of_nat k :: byte) \<le> 2"
  by (simp add: word_le_nat_alt unat_code)

lemma code_not_full: "k < 255 \<Longrightarrow> (of_nat k :: byte) \<noteq> 0xff"
proof
  assume "k < 255" "(of_nat k :: byte) = 0xff"
  then have "unat (of_nat k :: byte) = 255" by simp
  then show False using \<open>k < 255\<close> by (simp add: unat_code)
qed

lemma delimiter_byte: "b \<le> 2 \<Longrightarrow> unat (b :: byte) \<le> 2"
  by (simp add: word_le_nat_alt)

lemma cobs_decode_block:
  assumes "length blk < 84" and "d \<le> 2"
  shows "cobs_decode_loop capacity (of_nat (length blk + 3 + d * 84) # blk @ src) dst =
     (if length dst + length blk + (if src = [] then 0 else 1) > capacity
      then Inl BW_CODEC_NO_SPACE
      else cobs_decode_loop capacity src (dst @ blk @ (if src = [] then [] else [of_nat d])))"
proof -
  let ?k = "length blk + 3 + d * 84"
  have k: "?k < 255" "3 \<le> ?k" using assms by simp_all
  have "(length blk + d * 84) div 84 = d" "(length blk + d * 84) mod 84 = length blk"
    using assms(1) by simp_all
  then show ?thesis
    using k assms(2) code_not_small [of ?k] code_not_full [of ?k] unat_code [of ?k]
    by (simp add: Let_def BW_BLOCK_MAX_def)
qed

lemma cobs_decode_full:
  assumes "length blk = 84"
  shows "cobs_decode_loop capacity (0xff # blk @ src) dst =
     (if length dst + 84 > capacity then Inl BW_CODEC_NO_SPACE
      else cobs_decode_loop capacity src (dst @ blk))"
  using assms by (simp add: Let_def BW_BLOCK_MAX_def)

lemma cobs_decode_blocks:
  assumes "length blk < 84"
  shows "cobs_decode_loop capacity (cobs_blocks blk src) dst =
     (if length dst + length blk + length src \<le> capacity then Inr (dst @ blk @ src)
      else Inl BW_CODEC_NO_SPACE)"
  using assms
proof (induction src arbitrary: blk dst)
  case Nil
  show ?case using cobs_decode_block [OF Nil, of 0 capacity "[]" dst] by simp
next
  case (Cons b src)
  show ?case
  proof (cases "b \<le> 2")
    case True
    show ?thesis
      using True cobs_decode_block [OF Cons.prems delimiter_byte [OF True],
          of capacity "cobs_blocks [] src" dst] Cons.IH [of "[]"]
      by simp
  next
    case False
    then show ?thesis
      using Cons.prems Cons.IH [of "[]"] Cons.IH [of "blk @ [b]"]
        cobs_decode_full [of "blk @ [b]" capacity "cobs_blocks [] src" dst]
      by simp
  qed
qed

lemma bw_cobs_decode_blocks:
  "bw_cobs_decode (cobs_blocks [] src) capacity =
     (if length src \<le> capacity then Inr src else Inl BW_CODEC_NO_SPACE)"
  by (simp add: bw_cobs_decode_def cobs_decode_blocks)

section \<open>Frames: round trip, size and delimiter freedom\<close>

lemma xor3_cancel [simp]: "(x XOR BW_XOR) XOR BW_XOR = x"
  by (simp add: BW_XOR_def xor.assoc)

lemma xor3_eq_iff: "x XOR BW_XOR = y \<longleftrightarrow> x = y XOR BW_XOR"
  using xor3_cancel by metis

lemma xor3_delimiters: "2 < x \<Longrightarrow> x XOR BW_XOR \<notin> {1, 2, 3}"
  by (auto simp: xor3_eq_iff) (auto simp: BW_XOR_def)

lemma code_above_2: "3 \<le> k \<Longrightarrow> k < 256 \<Longrightarrow> 2 < (of_nat k :: byte)"
  using code_not_small not_le by blast

lemma cobs_blocks_bytes:
  "open_block blk \<Longrightarrow> x \<in> set (cobs_blocks blk src) \<Longrightarrow> 2 < x"
proof (induction src arbitrary: blk)
  case Nil
  then show ?case using code_above_2 [of "length blk + 3"] by (auto simp: open_block_def)
next
  case (Cons b src)
  show ?case
  proof (cases "b \<le> 2")
    case True
    then show ?thesis
      using Cons.prems Cons.IH [of "[]"] code_above_2 [of "length blk + 3 + unat b * 84"]
        delimiter_byte [OF True] by (auto simp: open_block_def)
  next
    case False
    then show ?thesis
      using Cons.prems Cons.IH [of "[]"] Cons.IH [of "blk @ [b]"] open_block_snoc [of blk b]
      by (auto simp: open_block_def split: if_splits)
  qed
qed

lemma cobs_blocks_length_le:
  "length blk < 84 \<Longrightarrow>
   length (cobs_blocks blk src) \<le> 1 + (length blk + length src) + (length blk + length src) div 84"
proof (induction src arbitrary: blk)
  case Nil
  then show ?case by simp
next
  case (Cons b src)
  have mono: "length src div 84 \<le> (length blk + Suc (length src)) div 84"
    by (intro div_le_mono) simp
  show ?case
    using Cons.prems Cons.IH [of "[]"] Cons.IH [of "blk @ [b]"] mono by (auto split: if_splits)
qed

lemma cobs_blocks_length_src: "length blk + length src + 1 \<le> length (cobs_blocks blk src)"
  by (induction blk src rule: cobs_blocks.induct) auto

definition frame_body :: "byte list \<Rightarrow> byte list" where
  "frame_body p = map (\<lambda>x. x XOR BW_XOR) (cobs_blocks [] p)"

lemma frame_body_nonempty [simp]: "frame_body p \<noteq> []"
  by (simp add: frame_body_def)

lemma frame_body_length: "length (frame_body p) = length (cobs_blocks [] p)"
  by (simp add: frame_body_def)

lemma frame_body_length_ge: "Suc (length p) \<le> length (frame_body p)"
  using cobs_blocks_length_src [of "[]" p] by (simp add: frame_body_length)

lemma frame_body_plain: "x \<in> set (frame_body p) \<Longrightarrow> x \<noteq> 1 \<and> x \<noteq> 2 \<and> x \<noteq> 3"
  using xor3_delimiters cobs_blocks_bytes [of "[]" _ p] by (fastforce simp: frame_body_def)

lemma bw_spike_pack_eq:
  "bw_spike_pack (Buf p) hp capacity =
     (if (if hp then 1 else 0) + length (frame_body p) + 1 \<le> capacity
      then Inr ((if hp then [1] else []) @ frame_body p @ [BW_DELIMITER_END])
      else Inl BW_CODEC_NO_SPACE)"
  using frame_body_length_ge [of p]
  by (auto simp: bw_spike_pack_def bw_cobs_encode_blocks frame_body_def Let_def)

lemma bw_spike_unpack_body:
  "bw_spike_unpack (Buf ((if hp then [1] else []) @ frame_body p @ [BW_DELIMITER_END])) capacity =
     (if length (frame_body p) > 1024 then Inl BW_CODEC_INVALID
      else if length p \<le> capacity then Inr p else Inl BW_CODEC_NO_SPACE)"
proof -
  have hd: "hd (frame_body p @ [BW_DELIMITER_END]) \<noteq> 1"
    using frame_body_plain [of "hd (frame_body p)" p] by simp
  have dec: "map (\<lambda>x. x XOR BW_XOR) (frame_body p) = cobs_blocks [] p"
    by (simp add: frame_body_def o_def)
  show ?thesis
    using hd dec frame_body_plain [of _ p] frame_body_length_ge [of p]
    by (auto simp: bw_spike_unpack_def Let_def bw_cobs_decode_blocks butlast_append)
qed

lemma cobs_decode_loop_length:
  "cobs_decode_loop capacity src dst = Inr p \<Longrightarrow> length dst \<le> capacity \<Longrightarrow> length p \<le> capacity"
proof (induction capacity src dst rule: cobs_decode_loop.induct)
  case (2 capacity code src dst)
  then show ?case by (auto simp: Let_def split: if_splits option.splits)
qed simp



text \<open>
  Fact. The frame of an \<open>n\<close>-byte payload is never longer than \<open>n + n div 84 + 2\<close> bytes, one more at
  high priority; a buffer of that size is always enough for \<^verbatim>\<open>bw_spike_pack\<close> to succeed; and inside
  the frame only the last byte is the end delimiter and only a leading priority mark is 1.
\<close>
theorem spike_pack_total_and_delimited:
  assumes "length payload + length payload div 84 + 2 + (if hp then 1 else 0) \<le> capacity"
  shows "\<exists>body. bw_spike_pack (Buf payload) hp capacity =
             Inr ((if hp then [1] else []) @ body @ [BW_DELIMITER_END]) \<and>
           length body \<le> length payload + length payload div 84 + 1 \<and>
           (\<forall>x \<in> set body. x \<noteq> 1 \<and> x \<noteq> 2 \<and> x \<noteq> 3)"
proof (intro exI conjI)
  have len: "length (frame_body payload) \<le> length payload + length payload div 84 + 1"
    using cobs_blocks_length_le [of "[]" payload] by (simp add: frame_body_length)
  show "bw_spike_pack (Buf payload) hp capacity =
      Inr ((if hp then [1] else []) @ frame_body payload @ [BW_DELIMITER_END])"
    using assms len by (simp add: bw_spike_pack_eq)
  show "length (frame_body payload) \<le> length payload + length payload div 84 + 1" by (rule len)
  show "\<forall>x \<in> set (frame_body payload). x \<noteq> 1 \<and> x \<noteq> 2 \<and> x \<noteq> 3"
    using frame_body_plain by blast
qed

theorem spike_pack_total_and_delimited_witness:
  "\<exists>body. bw_spike_pack (Buf [5, 0]) False 4 = Inr (body @ [BW_DELIMITER_END]) \<and>
     length body \<le> 3 \<and> (\<forall>x \<in> set body. x \<noteq> 1 \<and> x \<noteq> 2 \<and> x \<noteq> 3)"
  using spike_pack_total_and_delimited [of "[5, 0]" False 4] by (simp add: numeral_3_eq_3)

text \<open>
  Fact. Memory safety of the receiver against arbitrary input: whatever bytes arrive, a successful
  \<^verbatim>\<open>bw_spike_unpack\<close> never writes more than the capacity it was given.
\<close>
theorem spike_unpack_bounded:
  assumes "bw_spike_unpack frame capacity = Inr payload"
  shows "length payload \<le> capacity"
  using assms cobs_decode_loop_length [of capacity _ "[]" payload]
  by (auto simp: bw_spike_unpack_def bw_cobs_decode_def Let_def split: if_splits)

theorem spike_unpack_bounded_witness:
  "bw_spike_unpack (Buf [91, 4, 2]) 1 = Inr [7] \<and> length [7 :: byte] \<le> 1"
proof -
  have u: "bw_spike_unpack (Buf [91, 4, 2]) 1 = Inr [7]" by code_simp
  show ?thesis using u spike_unpack_bounded [OF u] by simp
qed

section \<open>The stream\<close>

definition stream_ok :: "bw_spike_stream \<Rightarrow> bool" where
  "stream_ok s \<longleftrightarrow> length (ss_low s) \<le> BW_SPIKE_STREAM_MAX_FRAME - 1 \<and>
     length (ss_high s) \<le> BW_SPIKE_STREAM_MAX_FRAME - 1"

lemma stream_byte_ok:
  "stream_ok s \<Longrightarrow> stream_ok (fst (snd (bw_spike_stream_byte cb b (s, c))))"
  by (auto simp: bw_spike_stream_byte_def bw_spike_stream_reset_def stream_ok_def Let_def
      split: sum.splits prod.splits)

interpretation spike_stream: byte_parser "bw_spike_stream_byte cb" "\<lambda>(s, c). stream_ok s" for cb
proof unfold_locales
  fix sc :: "bw_spike_stream \<times> 'a" and b
  assume "case sc of (s, c) \<Rightarrow> stream_ok s"
  then show "case snd (bw_spike_stream_byte cb b sc) of (s, c) \<Rightarrow> stream_ok s"
    using stream_byte_ok [of "fst sc" cb b "snd sc"] by (simp add: case_prod_beta)
qed

lemma stream_collect_low:
  assumes "\<not> ss_high_active s" and "\<forall>x \<in> set xs. x \<noteq> 1 \<and> x \<noteq> 2 \<and> x \<noteq> 3"
    and "length (ss_low s) + length xs < BW_SPIKE_STREAM_MAX_FRAME"
  shows "feed_loop (bw_spike_stream_byte cb) xs (s, c) = (0, (s\<lparr>ss_low := ss_low s @ xs\<rparr>, c))"
  using assms
proof (induction xs arbitrary: s)
  case (Cons x xs)
  have "bw_spike_stream_byte cb x (s, c) = (0, (s\<lparr>ss_low := ss_low s @ [x]\<rparr>, c))"
    using Cons.prems
    by (simp add: bw_spike_stream_byte_def Let_def BW_DELIMITER_END_def BW_XOR_def
        BW_SPIKE_STREAM_MAX_FRAME_def)
  then show ?case using Cons.prems Cons.IH [of "s\<lparr>ss_low := ss_low s @ [x]\<rparr>"] by simp
qed simp

lemma stream_collect_high:
  assumes "ss_high_active s" and "\<forall>x \<in> set xs. x \<noteq> 1 \<and> x \<noteq> 2 \<and> x \<noteq> 3"
    and "length (ss_high s) + length xs < BW_SPIKE_STREAM_MAX_FRAME"
  shows "feed_loop (bw_spike_stream_byte cb) xs (s, c) = (0, (s\<lparr>ss_high := ss_high s @ xs\<rparr>, c))"
  using assms
proof (induction xs arbitrary: s)
  case (Cons x xs)
  have "bw_spike_stream_byte cb x (s, c) = (0, (s\<lparr>ss_high := ss_high s @ [x]\<rparr>, c))"
    using Cons.prems
    by (simp add: bw_spike_stream_byte_def Let_def BW_DELIMITER_END_def BW_XOR_def
        BW_SPIKE_STREAM_MAX_FRAME_def)
  then show ?case using Cons.prems Cons.IH [of "s\<lparr>ss_high := ss_high s @ [x]\<rparr>"] by simp
qed simp

lemma stream_close_low:
  assumes "\<not> ss_high_active s" and "ss_low s = frame_body p" and "length (frame_body p) \<le> 1024"
  shows "bw_spike_stream_byte cb BW_DELIMITER_END (s, c) =
     (case cb p False c of (status, c') \<Rightarrow> (status, (s\<lparr>ss_low := []\<rparr>, c')))"
  using assms bw_spike_unpack_body [of False p BW_SPIKE_STREAM_MAX_FRAME]
    frame_body_length_ge [of p]
  by (simp add: bw_spike_stream_byte_def Let_def BW_DELIMITER_END_def
      BW_SPIKE_STREAM_MAX_FRAME_def)

lemma stream_close_high:
  assumes "ss_high_active s" and "ss_high s = frame_body p" and "length (frame_body p) \<le> 1024"
  shows "bw_spike_stream_byte cb BW_DELIMITER_END (s, c) =
     (case cb p True c of (status, c') \<Rightarrow>
        (status, (s\<lparr>ss_high := [], ss_high_active := False\<rparr>, c')))"
  using assms bw_spike_unpack_body [of False p BW_SPIKE_STREAM_MAX_FRAME]
    frame_body_length_ge [of p]
  by (simp add: bw_spike_stream_byte_def Let_def BW_DELIMITER_END_def
      BW_SPIKE_STREAM_MAX_FRAME_def)

lemma stream_high_frame:
  assumes "\<not> ss_high_active s" and "length (frame_body q) \<le> 1024" and "cb q True c = (0, c')"
  shows "feed_loop (bw_spike_stream_byte cb) (1 # frame_body q @ [BW_DELIMITER_END]) (s, c) =
     (0, (s\<lparr>ss_high := []\<rparr>, c'))"
proof -
  let ?s1 = "s\<lparr>ss_high := [], ss_high_active := True\<rparr>"
  let ?s2 = "?s1\<lparr>ss_high := frame_body q\<rparr>"
  have one: "bw_spike_stream_byte cb 1 (s, c) = (0, (?s1, c))"
    by (simp add: bw_spike_stream_byte_def)
  have body: "feed_loop (bw_spike_stream_byte cb) (frame_body q) (?s1, c) = (0, (?s2, c))"
    using stream_collect_high [of ?s1 "frame_body q" cb c] frame_body_plain assms(2)
    by (fastforce simp: BW_SPIKE_STREAM_MAX_FRAME_def)
  have fin: "bw_spike_stream_byte cb BW_DELIMITER_END (?s2, c) =
      (0, (s\<lparr>ss_high := []\<rparr>, c'))"
    using stream_close_high [of ?s2 q cb c] assms by simp
  show ?thesis using one fin by (simp add: feed_loop_append_ok [OF body])
qed

lemma stream_low_frame:
  assumes "\<not> ss_high_active s" and "ss_low s = []" and "length (frame_body p) \<le> 1024"
    and "cb p False c = (0, c')"
  shows "feed_loop (bw_spike_stream_byte cb) (frame_body p @ [BW_DELIMITER_END]) (s, c) =
     (0, (s, c'))"
proof -
  let ?s1 = "s\<lparr>ss_low := frame_body p\<rparr>"
  have body: "feed_loop (bw_spike_stream_byte cb) (frame_body p) (s, c) = (0, (?s1, c))"
    using stream_collect_low [of s "frame_body p" cb c] frame_body_plain assms(1-3)
    by (fastforce simp: BW_SPIKE_STREAM_MAX_FRAME_def)
  have "s\<lparr>ss_low := []\<rparr> = s" using assms(2) by simp
  then show ?thesis
    using stream_close_low [of ?s1 p cb c] assms by (simp add: feed_loop_append_ok [OF body])
qed

lemma stream_frame:
  assumes "ss_low s = []" and "ss_high s = []" and "\<not> ss_high_active s"
    and "length (frame_body p) \<le> 1024" and "cb p hp c = (0, c')"
  shows "feed_loop (bw_spike_stream_byte cb)
     ((if hp then [1] else []) @ frame_body p @ [BW_DELIMITER_END]) (s, c) = (0, (s, c'))"
proof -
  have "s\<lparr>ss_high := []\<rparr> = s" using assms(2) by simp
  then show ?thesis
    using stream_low_frame [of s p cb c c'] stream_high_frame [of s p cb c c'] assms
    by (cases hp) (simp_all del: feed_loop.simps)
qed

lemma packed_low:
  "bw_spike_pack (Buf p) False capacity = Inr f \<Longrightarrow> f = frame_body p @ [BW_DELIMITER_END]"
  by (simp add: bw_spike_pack_eq split: if_splits)

lemma packed_high:
  "bw_spike_pack (Buf p) True capacity = Inr f \<Longrightarrow> f = 1 # frame_body p @ [BW_DELIMITER_END]"
  by (simp add: bw_spike_pack_eq split: if_splits)

text \<open>
  C38. Preemption: a packed high-priority frame may arrive anywhere inside a packed low-priority
  frame, before its last byte. The stream then delivers the high-priority message first, flagged as
  such, and after it the low-priority message, both intact, and is empty again.
\<close>
theorem spike_stream_preemption:
  assumes "bw_spike_pack (Buf p) False cap1 = Inr (f1 @ f2)" and "length (f1 @ f2) \<le> 1025"
    and "bw_spike_pack (Buf q) True cap2 = Inr h" and "length h \<le> 1026"
    and "f2 \<noteq> []" and "ss_low s = []" and "\<not> ss_high_active s"
    and "cb q True c = (0, c1)" and "cb p False c1 = (0, c2)"
  shows "bw_spike_stream_feed (Some cb) (Buf (f1 @ h @ f2)) (s, c) =
     (0, (s\<lparr>ss_low := [], ss_high := []\<rparr>, c2))"
proof -
  let ?D = BW_DELIMITER_END
  obtain g where g: "f2 = g @ [?D]" and fg: "frame_body p = f1 @ g"
    using packed_low [OF assms(1)] assms(5)
    by (metis append_butlast_last_id append_eq_append_conv append_assoc last_append last_snoc
        butlast_append butlast_snoc)
  have plain: "\<forall>x \<in> set (f1 @ g). x \<noteq> 1 \<and> x \<noteq> 2 \<and> x \<noteq> 3"
    using frame_body_plain fg by metis
  have len: "length f1 + length g \<le> 1024" using assms(2) g by simp
  let ?s1 = "s\<lparr>ss_low := f1\<rparr>"
  let ?s2 = "?s1\<lparr>ss_high := []\<rparr>"
  let ?s3 = "?s2\<lparr>ss_low := f1 @ g\<rparr>"
  have a: "feed_loop (bw_spike_stream_byte cb) f1 (s, c) = (0, (?s1, c))"
    using stream_collect_low [of s f1 cb c] plain len assms(6,7)
    by (simp add: BW_SPIKE_STREAM_MAX_FRAME_def)
  have b: "feed_loop (bw_spike_stream_byte cb) h (?s1, c) = (0, (?s2, c1))"
    using stream_high_frame [of ?s1 q cb c c1] packed_high [OF assms(3)] assms(4,7,8) by simp
  have d: "feed_loop (bw_spike_stream_byte cb) g (?s2, c1) = (0, (?s3, c1))"
    using stream_collect_low [of ?s2 g cb c1] plain len assms(7)
    by (simp add: BW_SPIKE_STREAM_MAX_FRAME_def)
  have e: "bw_spike_stream_byte cb ?D (?s3, c1) = (0, (s\<lparr>ss_low := [], ss_high := []\<rparr>, c2))"
    using stream_close_low [of ?s3 p cb c1] fg len assms(7,9) by simp
  have "feed_loop (bw_spike_stream_byte cb) (f1 @ h @ g @ [?D]) (s, c) =
      feed_loop (bw_spike_stream_byte cb) [?D] (?s3, c1)"
    by (simp only: feed_loop_append_ok [OF a] feed_loop_append_ok [OF b]
        feed_loop_append_ok [OF d])
  then show ?thesis using e by (simp add: bw_spike_stream_feed_def g)
qed

theorem spike_stream_preemption_witness:
  "bw_spike_stream_feed (Some (\<lambda>m hp log. (0, log @ [(m, hp)])))
     (Buf ([91] @ [1, 7, 5, 2] @ [4, 0, 2]))
     (\<lparr>ss_low = [], ss_high = [], ss_high_active = False\<rparr>, []) =
   (0, (\<lparr>ss_low = [], ss_high = [], ss_high_active = False\<rparr>, [([6], True), ([7, 1], False)]))"
proof -
  have low: "bw_spike_pack (Buf [7, 1]) False 9 = Inr ([91] @ [4, 0, 2])" by code_simp
  have high: "bw_spike_pack (Buf [6]) True 9 = Inr [1, 7, 5, 2]" by code_simp
  show ?thesis
    using spike_stream_preemption [OF low _ high, of
        "\<lparr>ss_low = [], ss_high = [], ss_high_active = False\<rparr>"
        "\<lambda>m hp log. (0, log @ [(m, hp)])" "[]" "[([6], True)]" "[([6], True), ([7, 1], False)]"]
    by simp
qed

text \<open>
  Fact. Neither frame buffer of the stream is ever overrun: from an empty stream, any sequence of
  feeds of any bytes, with any callback, leaves both collected prefixes at most 1025 bytes long, so
  that the delimiter the deframer appends still lands inside the 1026-byte array.
\<close>
theorem spike_stream_never_overruns:
  "stream_ok (fst (fold (\<lambda>chunk t. snd (bw_spike_stream_feed (Some cb) (Buf chunk) t)) chunks
     (\<lparr>ss_low = [], ss_high = [], ss_high_active = False\<rparr>, c)))"
  using spike_stream.feed_run_inv [of "(\<lparr>ss_low = [], ss_high = [], ss_high_active = False\<rparr>, c)"
      cb chunks]
  by (simp add: bw_spike_stream_feed_def stream_ok_def case_prod_beta)

end
