(* ===== verification/Hub_Protocol.thy ===== *)
theory Hub_Protocol
  imports Spike_Codec
begin

text \<open>
  The hub's message layer, \<^verbatim>\<open>bluetooth/daemon/hub_protocol.c\<close> and \<^verbatim>\<open>daemon_transport.c\<close>: line
  records on the Classic link, SPIKE frames on the BLE link, one callback for both. The callback
  is the caller's; it acts on a context of type \<^typ>\<open>'c\<close> and its nonzero result ends a feed. The
  transport below (\<^verbatim>\<open>brickwright_hub_transport_send\<close>) is an argument of the sending side.
\<close>

section \<open>State\<close>

datatype brickwright_protocol_kind =
  BRICKWRIGHT_PROTOCOL_CLASSIC_RECORD | BRICKWRIGHT_PROTOCOL_BLE_MESSAGE

datatype brickwright_hub_link = BRICKWRIGHT_HUB_LINK_CLASSIC | BRICKWRIGHT_HUB_LINK_BLE

definition BRICKWRIGHT_CLASSIC_RECORD_MAX :: nat where
  "BRICKWRIGHT_CLASSIC_RECORD_MAX = 1024"

type_synonym 'c protocol_cb =
  "brickwright_protocol_kind \<Rightarrow> byte list \<Rightarrow> bool \<Rightarrow> 'c \<Rightarrow> int \<times> 'c"

text \<open>\<open>hp_classic\<close> is \<^verbatim>\<open>classic[0..classic_length)\<close>.\<close>

record brickwright_hub_protocol =
  hp_ble :: bw_spike_stream
  hp_classic :: "byte list"
  hp_classic_drop :: bool

section \<open>Receiving\<close>

definition receive_ble :: "'c protocol_cb \<Rightarrow> 'c message_cb" where
  "receive_ble callback payload high_priority c =
     callback BRICKWRIGHT_PROTOCOL_BLE_MESSAGE payload high_priority c"

definition brickwright_hub_protocol_init :: brickwright_hub_protocol where
  "brickwright_hub_protocol_init =
     \<lparr>hp_ble = \<lparr>ss_low = [], ss_high = [], ss_high_active = False\<rparr>,
      hp_classic = [], hp_classic_drop = False\<rparr>"

definition brickwright_hub_protocol_reset ::
    "brickwright_hub_protocol \<Rightarrow> brickwright_hub_protocol" where
  "brickwright_hub_protocol_reset p =
     p\<lparr>hp_classic := [], hp_classic_drop := False, hp_ble := bw_spike_stream_reset (hp_ble p)\<rparr>"

text \<open>
  The body of the loop of \<^verbatim>\<open>brickwright_hub_protocol_feed_classic\<close>; the first component of the
  state is the local \<^verbatim>\<open>result\<close>.
\<close>

definition classic_byte ::
    "'c protocol_cb \<Rightarrow> byte \<Rightarrow> int \<times> brickwright_hub_protocol \<times> 'c \<Rightarrow>
     int \<times> (int \<times> brickwright_hub_protocol \<times> 'c)" where
  "classic_byte callback b = (\<lambda>(result, p, c).
     if b = 13 \<or> b = 10 then
       if hp_classic_drop p then
         (0, (- EMSGSIZE, p\<lparr>hp_classic_drop := False, hp_classic := []\<rparr>, c))
       else if hp_classic p \<noteq> [] then
         (case callback BRICKWRIGHT_PROTOCOL_CLASSIC_RECORD (hp_classic p) False c of
            (status, c') \<Rightarrow> (status, (result, p\<lparr>hp_classic := []\<rparr>, c')))
       else (0, (result, p, c))
     else if b = 3 \<and> hp_classic p = [] then
       (case callback BRICKWRIGHT_PROTOCOL_CLASSIC_RECORD [b] True c of
          (status, c') \<Rightarrow> (status, (result, p, c')))
     else if \<not> hp_classic_drop p then
       if length (hp_classic p) = BRICKWRIGHT_CLASSIC_RECORD_MAX then
         (0, (result, p\<lparr>hp_classic_drop := True\<rparr>, c))
       else (0, (result, p\<lparr>hp_classic := hp_classic p @ [b]\<rparr>, c))
     else (0, (result, p, c)))"

definition brickwright_hub_protocol_feed_classic ::
    "'c protocol_cb option \<Rightarrow> cbuf \<Rightarrow> brickwright_hub_protocol \<times> 'c \<Rightarrow>
     int \<times> (brickwright_hub_protocol \<times> 'c)" where
  "brickwright_hub_protocol_feed_classic callback data pc =
     (case callback of
        None \<Rightarrow> (- EINVAL, pc)
      | Some cb \<Rightarrow>
          if is_null data \<and> buf_len data > 0 then (- EINVAL, pc)
          else case feed_loop (classic_byte cb) (buf_bytes data) (0, pc) of
                 (rc, (result, pc')) \<Rightarrow> (if rc \<noteq> 0 then rc else result, pc'))"

definition brickwright_hub_protocol_feed_ble ::
    "'c protocol_cb option \<Rightarrow> cbuf \<Rightarrow> brickwright_hub_protocol \<times> 'c \<Rightarrow>
     int \<times> (brickwright_hub_protocol \<times> 'c)" where
  "brickwright_hub_protocol_feed_ble callback data = (\<lambda>(p, c).
     case callback of
       None \<Rightarrow> (- EINVAL, (p, c))
     | Some cb \<Rightarrow>
         (case bw_spike_stream_feed (Some (receive_ble cb)) data (hp_ble p, c) of
            (rc, (s, c')) \<Rightarrow> (rc, (p\<lparr>hp_ble := s\<rparr>, c'))))"

section \<open>The daemon's transport\<close>

text \<open>
  \<^verbatim>\<open>receive_bytes\<close> discards the parser's status; the single \<^verbatim>\<open>protocol\<close> object of
  \<^verbatim>\<open>daemon_transport.c\<close> is the state.
\<close>

definition receive_bytes ::
    "'c protocol_cb option \<Rightarrow> brickwright_hub_link \<Rightarrow> cbuf \<Rightarrow> brickwright_hub_protocol \<times> 'c \<Rightarrow>
     brickwright_hub_protocol \<times> 'c" where
  "receive_bytes callback link data pc =
     (if link = BRICKWRIGHT_HUB_LINK_CLASSIC
      then snd (brickwright_hub_protocol_feed_classic callback data pc)
      else snd (brickwright_hub_protocol_feed_ble callback data pc))"

text \<open>
  \<^verbatim>\<open>brickwright_daemon_transport_init\<close>: without a callback nothing happens; otherwise the protocol
  is cleared and \<^verbatim>\<open>receive_bytes\<close> is handed to the transport, whose result is returned.
\<close>

definition brickwright_daemon_transport_init ::
    "('t \<Rightarrow> int \<times> 't) \<Rightarrow> bool \<Rightarrow> brickwright_hub_protocol \<times> 't \<Rightarrow>
     int \<times> (brickwright_hub_protocol \<times> 't)" where
  "brickwright_daemon_transport_init hub_register callback_given = (\<lambda>(p, t).
     if \<not> callback_given then (- EINVAL, (p, t))
     else case hub_register t of (rc, t') \<Rightarrow> (rc, (brickwright_hub_protocol_init, t')))"

definition brickwright_daemon_transport_reset ::
    "brickwright_hub_protocol \<Rightarrow> brickwright_hub_protocol" where
  "brickwright_daemon_transport_reset p = brickwright_hub_protocol_reset p"

type_synonym 't hub_send = "brickwright_hub_link \<Rightarrow> byte list \<Rightarrow> 't \<Rightarrow> int \<times> 't"

definition brickwright_daemon_transport_send ::
    "'t hub_send \<Rightarrow> brickwright_protocol_kind \<Rightarrow> cbuf \<Rightarrow> bool \<Rightarrow> 't \<Rightarrow> int \<times> 't" where
  "brickwright_daemon_transport_send hub_send kind data high_priority t =
     (if (is_null data \<and> buf_len data > 0) \<or> buf_len data > BW_SPIKE_STREAM_MAX_FRAME
      then (- EINVAL, t)
      else case kind of
        BRICKWRIGHT_PROTOCOL_BLE_MESSAGE \<Rightarrow>
          (case bw_spike_pack data high_priority (BW_SPIKE_STREAM_MAX_FRAME + 3) of
             Inr frame \<Rightarrow> hub_send BRICKWRIGHT_HUB_LINK_BLE frame t
           | Inl status \<Rightarrow> (- EMSGSIZE, t))
      | BRICKWRIGHT_PROTOCOL_CLASSIC_RECORD \<Rightarrow>
          if buf_len data > BRICKWRIGHT_CLASSIC_RECORD_MAX then (- EMSGSIZE, t)
          else hub_send BRICKWRIGHT_HUB_LINK_CLASSIC (buf_bytes data @ [13, 10]) t)"

section \<open>Classic records\<close>

definition protocol_ok :: "brickwright_hub_protocol \<Rightarrow> bool" where
  "protocol_ok p \<longleftrightarrow> stream_ok (hp_ble p) \<and> length (hp_classic p) \<le> BRICKWRIGHT_CLASSIC_RECORD_MAX \<and>
     (hp_classic_drop p \<longrightarrow> length (hp_classic p) = BRICKWRIGHT_CLASSIC_RECORD_MAX)"

lemma protocol_ok_init [simp]: "protocol_ok brickwright_hub_protocol_init"
  by (simp add: protocol_ok_def brickwright_hub_protocol_init_def stream_ok_def)

lemma protocol_ok_reset: "protocol_ok (brickwright_hub_protocol_reset p)"
  by (simp add: protocol_ok_def brickwright_hub_protocol_reset_def stream_ok_def
      bw_spike_stream_reset_def)

lemma classic_byte_ok:
  assumes "protocol_ok p"
  shows "protocol_ok (fst (snd (snd (classic_byte cb b (r, p, c)))))"
  using assms by (auto simp: classic_byte_def protocol_ok_def split: prod.splits)

interpretation classic_parser: byte_parser "classic_byte cb" "\<lambda>(r, p, c). protocol_ok p" for cb
proof unfold_locales
  fix st :: "int \<times> brickwright_hub_protocol \<times> 'a" and b
  assume "case st of (r, p, c) \<Rightarrow> protocol_ok p"
  then show "case snd (classic_byte cb b st) of (r, p, c) \<Rightarrow> protocol_ok p"
    using classic_byte_ok [of "fst (snd st)" cb b "fst st" "snd (snd st)"]
    by (simp add: case_prod_beta)
qed

lemma feed_classic_ok:
  "protocol_ok p \<Longrightarrow>
   protocol_ok (fst (snd (brickwright_hub_protocol_feed_classic callback data (p, c))))"
  using classic_parser.feed_inv [of "(0, p, c)" _ "buf_bytes data"]
  by (auto simp: brickwright_hub_protocol_feed_classic_def case_prod_beta split: option.split)

lemma feed_ble_ok:
  assumes "protocol_ok p"
  shows "protocol_ok (fst (snd (brickwright_hub_protocol_feed_ble callback data (p, c))))"
proof -
  have "stream_ok (fst (snd (bw_spike_stream_feed (Some cb) data (hp_ble p, c))))" for cb
    using assms spike_stream.feed_inv [of "(hp_ble p, c)" cb "buf_bytes data"]
    by (simp add: bw_spike_stream_feed_def protocol_ok_def case_prod_beta)
  then show ?thesis
    using assms
    by (auto simp: brickwright_hub_protocol_feed_ble_def protocol_ok_def case_prod_beta
        split: option.split)
qed

lemma classic_collect:
  assumes "\<not> hp_classic_drop p" and "13 \<notin> set xs" and "10 \<notin> set xs"
    and "hp_classic p = [] \<longrightarrow> xs \<noteq> [] \<longrightarrow> hd xs \<noteq> 3"
    and "length (hp_classic p) + length xs \<le> BRICKWRIGHT_CLASSIC_RECORD_MAX"
  shows "feed_loop (classic_byte cb) xs (r, p, c) =
     (0, (r, p\<lparr>hp_classic := hp_classic p @ xs\<rparr>, c))"
  using assms
proof (induction xs arbitrary: p)
  case (Cons x xs)
  have "classic_byte cb x (r, p, c) = (0, (r, p\<lparr>hp_classic := hp_classic p @ [x]\<rparr>, c))"
    using Cons.prems by (auto simp: classic_byte_def)
  then show ?case using Cons.prems Cons.IH [of "p\<lparr>hp_classic := hp_classic p @ [x]\<rparr>"] by simp
qed simp

lemma classic_record_delivered:
  assumes "hp_classic p = []" and "\<not> hp_classic_drop p"
    and "d \<noteq> []" and "13 \<notin> set d" and "10 \<notin> set d" and "hd d \<noteq> 3"
    and "length d \<le> BRICKWRIGHT_CLASSIC_RECORD_MAX"
    and "cb BRICKWRIGHT_PROTOCOL_CLASSIC_RECORD d False c = (0, c')"
  shows "feed_loop (classic_byte cb) (d @ [13, 10]) (r, p, c) = (0, (r, p, c'))"
proof -
  let ?p1 = "p\<lparr>hp_classic := d\<rparr>"
  have a: "feed_loop (classic_byte cb) d (r, p, c) = (0, (r, ?p1, c))"
    using classic_collect [of p d cb r c] assms by simp
  have same: "p\<lparr>hp_classic := []\<rparr> = p" using assms(1) by simp
  show ?thesis
    using assms same by (simp add: feed_loop_append_ok [OF a] classic_byte_def)
qed

lemma classic_skip:
  assumes "hp_classic_drop p" and "hp_classic p \<noteq> []" and "13 \<notin> set xs" and "10 \<notin> set xs"
  shows "feed_loop (classic_byte cb) xs (r, p, c) = (0, (r, p, c))"
  using assms by (induction xs) (auto simp: classic_byte_def)



text \<open>
  Fact. An overlong Classic record is dropped as a whole: once more than 1024 bytes arrive without a
  line end, no callback is made for any part of them, the line end that finally comes is answered
  with \<^verbatim>\<open>-EMSGSIZE\<close>, and the parser is empty and ready again.
\<close>
theorem classic_overlong_record_dropped:
  assumes "hp_classic p = []" and "\<not> hp_classic_drop p"
    and "length d > BRICKWRIGHT_CLASSIC_RECORD_MAX"
    and "13 \<notin> set d" and "10 \<notin> set d" and "hd d \<noteq> 3"
  shows "brickwright_hub_protocol_feed_classic (Some cb) (Buf (d @ [10])) (p, c) =
     (- EMSGSIZE, (p, c))"
proof -
  let ?n = BRICKWRIGHT_CLASSIC_RECORD_MAX
  define xs x ys where "xs = take ?n d" and "x = d ! ?n" and "ys = drop (Suc ?n) d"
  have d: "d = xs @ x # ys"
    using assms(3) by (simp add: xs_def x_def ys_def id_take_nth_drop)
  have len: "length xs = ?n" using assms(3) by (simp add: xs_def)
  then have ne: "xs \<noteq> []" by (auto simp: BRICKWRIGHT_CLASSIC_RECORD_MAX_def)
  then have h: "hd xs \<noteq> 3" using assms(6) d by simp
  let ?p1 = "p\<lparr>hp_classic := xs\<rparr>"
  let ?p2 = "?p1\<lparr>hp_classic_drop := True\<rparr>"
  have a: "feed_loop (classic_byte cb) xs (0, p, c) = (0, (0, ?p1, c))"
    using classic_collect [of p xs cb 0 c] assms len h d by simp
  have b: "classic_byte cb x (0, ?p1, c) = (0, (0, ?p2, c))"
    using assms ne len d by (simp add: classic_byte_def)
  have e: "feed_loop (classic_byte cb) ys (0, ?p2, c) = (0, (0, ?p2, c))"
    using classic_skip [of ?p2 ys cb 0 c] ne assms d by simp
  have f: "classic_byte cb 10 (0, ?p2, c) = (0, (- EMSGSIZE, p, c))"
    using assms(1,2) by (simp add: classic_byte_def)
  have "feed_loop (classic_byte cb) (d @ [10]) (0, p, c) = (0, (- EMSGSIZE, p, c))"
    using b e f by (simp add: d feed_loop_append_ok [OF a] feed_loop_append_ok [OF e])
  then show ?thesis by (simp add: brickwright_hub_protocol_feed_classic_def)
qed

theorem classic_overlong_record_dropped_witness:
  "brickwright_hub_protocol_feed_classic (Some (\<lambda>k m h n. (0, Suc n)))
     (Buf (replicate 1025 65 @ [10])) (brickwright_hub_protocol_init, 0) =
   (- EMSGSIZE, (brickwright_hub_protocol_init, 0))"
  using classic_overlong_record_dropped [of brickwright_hub_protocol_init "replicate 1025 65"
      "\<lambda>k m h n. (0, Suc n)" 0]
  by (simp add: brickwright_hub_protocol_init_def BRICKWRIGHT_CLASSIC_RECORD_MAX_def
      hd_replicate)

text \<open>
  Fact. Segmentation does not matter: as long as the callback accepts every message, the Classic
  parser ends in the same state and makes the same callbacks however the incoming bytes are cut
  into buffers.
\<close>
theorem classic_feed_segmentation:
  assumes "\<And>k m h c. fst (cb k m h c) = 0"
  shows "snd (brickwright_hub_protocol_feed_classic (Some cb) (Buf (concat chunks)) pc) =
     fold (\<lambda>chunk t. snd (brickwright_hub_protocol_feed_classic (Some cb) (Buf chunk) t)) chunks pc"
proof -
  let ?f = "feed_loop (classic_byte cb)"
  have zero: "fst (classic_byte cb b st) = 0" for b st
    using assms by (auto simp: classic_byte_def case_prod_beta)
  have rc: "fst (?f xs st) = 0" for xs st
  proof (induction xs arbitrary: st)
    case (Cons b xs)
    then show ?case using zero [of b st] by (cases "classic_byte cb b st") simp
  qed simp
  have res: "snd (snd (classic_byte cb b (r, q))) = snd (snd (classic_byte cb b (r', q)))" for b r r' q
    by (auto simp: classic_byte_def case_prod_beta split: prod.splits)
  have indep: "snd (snd (?f xs (r, q))) = snd (snd (?f xs (r', q)))" for xs r r' q
  proof (induction xs arbitrary: r r' q)
    case (Cons b xs)
    obtain r1 q1 where 1: "classic_byte cb b (r, q) = (0, (r1, q1))"
      using zero [of b "(r, q)"] by (metis prod.collapse)
    obtain r2 q2 where 2: "classic_byte cb b (r', q) = (0, (r2, q2))"
      using zero [of b "(r', q)"] by (metis prod.collapse)
    have "q1 = q2" using res [of b r q r'] 1 2 by simp
    then show ?case using 1 2 Cons.IH [of r1 q1 r2] by simp
  qed simp
  have feed: "snd (brickwright_hub_protocol_feed_classic (Some cb) (Buf xs) q) =
      snd (snd (?f xs (0, q)))" for xs q
    by (simp add: brickwright_hub_protocol_feed_classic_def case_prod_beta)
  show ?thesis
  proof (induction chunks arbitrary: pc)
    case Nil
    then show ?case by (simp add: feed)
  next
    case (Cons x xs)
    obtain r q where q: "?f x (0, pc) = (0, (r, q))"
      using rc [of x "(0, pc)"] by (metis prod.collapse)
    have "snd (snd (?f (x @ concat xs) (0, pc))) = snd (snd (?f (concat xs) (0, q)))"
      using indep [of "concat xs" r q 0] by (simp add: feed_loop_append_ok [OF q])
    then show ?case using Cons.IH [of q] q by (simp add: feed)
  qed
qed

theorem classic_feed_segmentation_witness:
  "snd (brickwright_hub_protocol_feed_classic (Some (\<lambda>k m h log. (0, log @ [m])))
      (Buf (concat [[72, 105], [10, 66], [13]])) (brickwright_hub_protocol_init, [])) =
   (brickwright_hub_protocol_init, [[72, 105], [66]]) \<and>
   fold (\<lambda>chunk t. snd (brickwright_hub_protocol_feed_classic
      (Some (\<lambda>k m h log. (0, log @ [m]))) (Buf chunk) t)) [[72, 105], [10, 66], [13]]
      (brickwright_hub_protocol_init, []) = (brickwright_hub_protocol_init, [[72, 105], [66]])"
proof -
  have "snd (brickwright_hub_protocol_feed_classic (Some (\<lambda>k m h log. (0, log @ [m])))
      (Buf (concat [[72, 105], [10, 66], [13]])) (brickwright_hub_protocol_init, [])) =
    (brickwright_hub_protocol_init, [[72, 105], [66]])"
    by (simp add: brickwright_hub_protocol_feed_classic_def classic_byte_def
        brickwright_hub_protocol_init_def BRICKWRIGHT_CLASSIC_RECORD_MAX_def)
  then show ?thesis
    using classic_feed_segmentation [of "\<lambda>k m h log. (0, log @ [m])"
        "[[72, 105], [10, 66], [13]]" "(brickwright_hub_protocol_init, [])"]
    by simp
qed

end
