(* ===== verification/H4.thy ===== *)
theory H4
  imports Prelude
begin

text \<open>
  The HCI UART deframer, \<^verbatim>\<open>bluetooth/zephyr_compat/src/h4.c\<close>: one type byte, a header whose length
  depends on the type, a payload whose length the header gives. The packet buffer is modelled by
  the prefix received, so \<^verbatim>\<open>used\<close> is its length.
\<close>

section \<open>State and operations\<close>

definition BRICKWRIGHT_H4_MAX_PACKET :: nat where "BRICKWRIGHT_H4_MAX_PACKET = 2048"

record brickwright_h4 =
  h4_type :: byte
  h4_header_length :: nat
  h4_expected :: nat
  h4_packet :: "byte list"

type_synonym 'c packet_cb = "byte \<Rightarrow> byte list \<Rightarrow> 'c \<Rightarrow> int \<times> 'c"

definition header_length :: "byte \<Rightarrow> nat" where
  "header_length t =
     (if t = 1 then 3 else if t = 4 then 2 else if t = 2 then 4 else if t = 3 then 3 else 0)"

definition payload_length :: "byte \<Rightarrow> byte list \<Rightarrow> nat" where
  "payload_length t packet =
     (if t = 1 then unat (packet ! 2)
      else if t = 4 then unat (packet ! 1)
      else if t = 2 then unat (packet ! 2) OR push_bit 8 (unat (packet ! 3))
      else unat (packet ! 2))"

definition h4_reset :: "brickwright_h4 \<Rightarrow> brickwright_h4" where
  "h4_reset h = h\<lparr>h4_type := 0, h4_header_length := 0, h4_packet := [], h4_expected := 0\<rparr>"

definition brickwright_h4_init :: brickwright_h4 where
  "brickwright_h4_init =
     \<lparr>h4_type = 0, h4_header_length = 0, h4_expected = 0, h4_packet = []\<rparr>"

text \<open>The body of the loop of \<^verbatim>\<open>brickwright_h4_feed\<close>.\<close>

definition h4_byte :: "'c packet_cb \<Rightarrow> byte \<Rightarrow> brickwright_h4 \<times> 'c \<Rightarrow> int \<times> (brickwright_h4 \<times> 'c)" where
  "h4_byte receive b = (\<lambda>(h, c).
     if h4_type h = 0 then
       let h1 = h\<lparr>h4_header_length := header_length b\<rparr> in
       if h4_header_length h1 = 0 then (- EPROTO, (h1, c))
       else (0, (h1\<lparr>h4_type := b\<rparr>, c))
     else
       let h1 = h\<lparr>h4_packet := h4_packet h @ [b]\<rparr>;
           h2 = (if h4_expected h1 = 0 \<and> length (h4_packet h1) = h4_header_length h1
                 then h1\<lparr>h4_expected := h4_header_length h1 + payload_length (h4_type h1) (h4_packet h1)\<rparr>
                 else h1) in
       if h4_expected h1 = 0 \<and> length (h4_packet h1) = h4_header_length h1 \<and>
          h4_expected h2 > BRICKWRIGHT_H4_MAX_PACKET
       then (- EMSGSIZE, (h4_reset h2, c))
       else if h4_expected h2 \<noteq> 0 \<and> length (h4_packet h2) = h4_expected h2 then
         (case receive (h4_type h2) (h4_packet h2) c of
            (result, c') \<Rightarrow> (result, (h4_reset h2, c')))
       else (0, (h2, c)))"

definition brickwright_h4_feed ::
    "'c packet_cb option \<Rightarrow> cbuf \<Rightarrow> brickwright_h4 \<times> 'c \<Rightarrow> int \<times> (brickwright_h4 \<times> 'c)" where
  "brickwright_h4_feed receive data hc =
     (case receive of
        None \<Rightarrow> (- EINVAL, hc)
      | Some r \<Rightarrow>
          if is_null data \<and> buf_len data > 0 then (- EINVAL, hc)
          else feed_loop (h4_byte r) (buf_bytes data) hc)"

section \<open>Invariant\<close>

text \<open>
  Between packets nothing is buffered. Inside a packet, either the header is incomplete or the
  expected length is known, fits the buffer, and has not been reached.
\<close>

definition h4_ok :: "brickwright_h4 \<Rightarrow> bool" where
  "h4_ok h \<longleftrightarrow>
     (if h4_type h = 0 then h4_packet h = [] \<and> h4_expected h = 0
      else h4_header_length h = header_length (h4_type h) \<and> header_length (h4_type h) \<noteq> 0 \<and>
        (if h4_expected h = 0 then length (h4_packet h) < header_length (h4_type h)
         else h4_expected h \<le> BRICKWRIGHT_H4_MAX_PACKET \<and>
           header_length (h4_type h) \<le> length (h4_packet h) \<and>
           length (h4_packet h) < h4_expected h))"

lemma header_length_le: "header_length t \<le> 4"
  by (simp add: header_length_def)

lemma header_length_0: "header_length 0 = 0"
  by (simp add: header_length_def)

lemma h4_ok_init [simp]: "h4_ok brickwright_h4_init"
  by (simp add: h4_ok_def brickwright_h4_init_def)

lemma h4_ok_reset [simp]: "h4_ok (h4_reset h)"
  by (simp add: h4_ok_def h4_reset_def)

lemma h4_byte_ok: "h4_ok h \<Longrightarrow> h4_ok (fst (snd (h4_byte receive b (h, c))))"
  by (auto simp: h4_byte_def Let_def h4_ok_def h4_reset_def header_length_0 split: prod.splits if_splits)

interpretation h4_parser: byte_parser "h4_byte receive" "\<lambda>(h, c). h4_ok h" for receive
proof unfold_locales
  fix hc :: "brickwright_h4 \<times> 'a" and b
  assume "case hc of (h, c) \<Rightarrow> h4_ok h"
  then show "case snd (h4_byte receive b hc) of (h, c) \<Rightarrow> h4_ok h"
    using h4_byte_ok [of "fst hc" receive b "snd hc"] by (simp add: case_prod_beta)
qed

section \<open>Deframing\<close>

definition h4_well_formed :: "byte \<Rightarrow> byte list \<Rightarrow> bool" where
  "h4_well_formed t packet \<longleftrightarrow> header_length t \<noteq> 0 \<and> header_length t \<le> length packet \<and>
     length packet = header_length t + payload_length t (take (header_length t) packet) \<and>
     length packet \<le> BRICKWRIGHT_H4_MAX_PACKET"

text \<open>What the deframer holds after the type byte and a proper prefix of the packet.\<close>

definition h4_partial :: "byte \<Rightarrow> nat \<Rightarrow> byte list \<Rightarrow> brickwright_h4" where
  "h4_partial t n xs =
     \<lparr>h4_type = t, h4_header_length = header_length t,
      h4_expected = (if header_length t \<le> length xs then n else 0), h4_packet = xs\<rparr>"

lemma h4_packet_step:
  assumes "h4_well_formed t packet" and "packet = xs @ b # ys"
  shows "h4_byte receive b (h4_partial t (length packet) xs, c) =
     (if ys = [] then (case receive t packet c of (rc, c') \<Rightarrow> (rc, (brickwright_h4_init, c')))
      else (0, (h4_partial t (length packet) (xs @ [b]), c)))"
proof -
  have t: "t \<noteq> 0" using assms(1) by (auto simp: h4_well_formed_def header_length_0)
  have len: "length packet = length xs + 1 + length ys" using assms(2) by simp
  have pl: "header_length t + payload_length t (xs @ [b]) = length packet"
    if "Suc (length xs) = header_length t"
  proof -
    have "take (header_length t) packet = xs @ [b]" using assms(2) that [symmetric] by simp
    then show ?thesis using assms(1) by (simp add: h4_well_formed_def)
  qed
  have w: "header_length t \<noteq> 0" "header_length t \<le> length packet"
    "length packet \<le> BRICKWRIGHT_H4_MAX_PACKET"
    using assms(1) by (simp_all add: h4_well_formed_def)
  have fin: "packet = xs @ [b]" if "ys = []" using assms(2) that by simp
  consider "Suc (length xs) < header_length t" | "Suc (length xs) = header_length t"
    | "header_length t \<le> length xs"
    by linarith
  then show ?thesis
  proof cases
    case 1
    then have "ys \<noteq> []" using w len by auto
    then show ?thesis using 1 t by (simp add: h4_byte_def h4_partial_def Let_def)
  next
    case 2
    then show ?thesis
      using pl [OF 2] t w len fin
      by (cases "ys = []")
        (simp_all add: h4_byte_def h4_partial_def h4_reset_def brickwright_h4_init_def Let_def)
  next
    case 3
    then show ?thesis
      using t w len fin
      by (cases "ys = []")
        (simp_all add: h4_byte_def h4_partial_def h4_reset_def brickwright_h4_init_def Let_def)
  qed
qed

lemma h4_packet_run:
  assumes "h4_well_formed t packet" and "packet = xs @ ys" and "ys \<noteq> []"
    and "receive t packet c = (0, c')"
  shows "feed_loop (h4_byte receive) ys (h4_partial t (length packet) xs, c) =
     (0, (brickwright_h4_init, c'))"
  using assms(2,3)
proof (induction ys arbitrary: xs)
  case (Cons b ys)
  show ?case
    using h4_packet_step [OF assms(1) Cons.prems(1), of receive c] Cons.IH [of "xs @ [b]"]
      Cons.prems(1) assms(4)
    by (cases "ys = []") simp_all
qed simp

lemma h4_frame:
  assumes "h4_well_formed t packet" and "receive t packet c = (0, c')"
  shows "feed_loop (h4_byte receive) (t # packet) (brickwright_h4_init, c) =
     (0, (brickwright_h4_init, c'))"
proof -
  have ne: "packet \<noteq> []" "header_length t \<noteq> 0"
    using assms(1) by (auto simp: h4_well_formed_def)
  have "h4_byte receive t (brickwright_h4_init, c) = (0, (h4_partial t (length packet) [], c))"
    using ne by (simp add: h4_byte_def brickwright_h4_init_def h4_partial_def Let_def)
  then show ?thesis using h4_packet_run [OF assms(1), of "[]" packet receive c c'] ne assms(2) by simp
qed

text \<open>
  C40. Deframing is exact: a byte stream that is the concatenation of well-formed HCI packets, each
  preceded by its type byte, is delivered packet by packet, in order, each exactly once and byte
  for byte, and leaves the deframer idle; this holds however the stream is cut into reads.
\<close>
theorem h4_stream_delivered:
  assumes "\<forall>(t, packet) \<in> set packets. h4_well_formed t packet"
    and "concat chunks = concat (map (\<lambda>(t, packet). t # packet) packets)"
  shows "fold (\<lambda>chunk hc. snd (brickwright_h4_feed (Some (\<lambda>t p log. (0, log @ [(t, p)]))) (Buf chunk) hc))
     chunks (brickwright_h4_init, log) = (brickwright_h4_init, log @ packets)"
proof -
  let ?r = "\<lambda>t p log. (0::int, log @ [(t, p)])"
  let ?f = "feed_loop (h4_byte ?r)"
  have run: "?f (concat (map (\<lambda>(t, packet). t # packet) ps)) (brickwright_h4_init, l) =
      (0, (brickwright_h4_init, l @ ps))" if "\<forall>(t, packet) \<in> set ps. h4_well_formed t packet" for ps l
    using that
  proof (induction ps arbitrary: l)
    case (Cons p ps)
    obtain t packet where p: "p = (t, packet)" by (cases p)
    have "?f (t # packet) (brickwright_h4_init, l) = (0, (brickwright_h4_init, l @ [p]))"
      using h4_frame [of t packet ?r l] Cons.prems p by simp
    from feed_loop_append_ok [OF this, of "concat (map (\<lambda>(t, packet). t # packet) ps)"]
    show ?case using Cons p by simp
  qed simp
  have chunked: "fst (?f (concat cs) hc) = 0 \<Longrightarrow>
      fold (\<lambda>chunk hc. snd (?f chunk hc)) cs hc = snd (?f (concat cs) hc)" for cs hc
  proof (induction cs arbitrary: hc)
    case (Cons x xs)
    obtain rc hc' where x: "?f x hc = (rc, hc')" by (cases "?f x hc")
    with Cons.prems have "rc = 0" by (auto simp: feed_loop_append split: if_splits)
    with Cons x show ?case by (simp add: feed_loop_append_ok)
  qed simp
  show ?thesis
    using run [OF assms(1), of log] chunked [of chunks "(brickwright_h4_init, log)"] assms(2)
    by (simp add: brickwright_h4_feed_def)
qed

theorem h4_stream_delivered_witness:
  "fold (\<lambda>chunk hc. snd (brickwright_h4_feed (Some (\<lambda>t p log. (0, log @ [(t, p)]))) (Buf chunk) hc))
     [[4, 14], [1, 9, 2, 1, 0, 1], [0, 7]] (brickwright_h4_init, []) =
   (brickwright_h4_init, [(4, [14, 1, 9]), (2, [1, 0, 1, 0, 7])])"
  using h4_stream_delivered [of "[(4, [14, 1, 9]), (2, [1, 0, 1, 0, 7])]"
      "[[4, 14], [1, 9, 2, 1, 0, 1], [0, 7]]" "[]"]
  by (simp add: h4_well_formed_def header_length_def payload_length_def
      BRICKWRIGHT_H4_MAX_PACKET_def)

text \<open>A receiver that reads the stream chunk by chunk.\<close>

definition h4_run :: "'c packet_cb \<Rightarrow> byte list list \<Rightarrow> 'c \<Rightarrow> brickwright_h4" where
  "h4_run receive chunks c = fst (fold
     (\<lambda>chunk hc. snd (brickwright_h4_feed (Some receive) (Buf chunk) hc)) chunks
     (brickwright_h4_init, c))"

text \<open>
  Fact. The 2048-byte packet buffer is never overrun, whatever bytes arrive and whatever the packet
  callback answers: after any sequence of reads the deframer is either between packets and holds
  nothing, or holds fewer bytes than the buffer.
\<close>
theorem h4_buffer_bounded:
  "if h4_type (h4_run receive chunks c) = 0 then h4_packet (h4_run receive chunks c) = []
   else length (h4_packet (h4_run receive chunks c)) < BRICKWRIGHT_H4_MAX_PACKET"
proof -
  have "h4_ok (h4_run receive chunks c)"
    using h4_parser.feed_run_inv [of "(brickwright_h4_init, c)" receive chunks]
    by (simp add: h4_run_def brickwright_h4_feed_def case_prod_beta)
  then show ?thesis
    using header_length_le [of "h4_type (h4_run receive chunks c)"]
    by (auto simp: h4_ok_def BRICKWRIGHT_H4_MAX_PACKET_def split: if_splits)
qed

end
