(* ===== verification/Ehcill.thy ===== *)
theory Ehcill
  imports H4
begin

text \<open>
  The controller's low-power link, \<^verbatim>\<open>bluetooth/zephyr_compat/src/ehcill.c\<close>: four control bytes
  between HCI packets put the link to sleep and wake it; frames sent while it is not awake wait in
  a 4096-byte buffer. The UART write callback and the packet callback act on a shared context of
  type \<^typ>\<open>'c\<close>.
\<close>

section \<open>State\<close>

definition BRICKWRIGHT_EHCILL_SLEEP_IND :: byte where "BRICKWRIGHT_EHCILL_SLEEP_IND = 0x30"
definition BRICKWRIGHT_EHCILL_SLEEP_ACK :: byte where "BRICKWRIGHT_EHCILL_SLEEP_ACK = 0x31"
definition BRICKWRIGHT_EHCILL_WAKE_IND :: byte where "BRICKWRIGHT_EHCILL_WAKE_IND = 0x32"
definition BRICKWRIGHT_EHCILL_WAKE_ACK :: byte where "BRICKWRIGHT_EHCILL_WAKE_ACK = 0x33"
definition BRICKWRIGHT_EHCILL_PENDING_MAX :: nat where "BRICKWRIGHT_EHCILL_PENDING_MAX = 4096"

datatype brickwright_ehcill_state =
  BRICKWRIGHT_EHCILL_AWAKE | BRICKWRIGHT_EHCILL_ASLEEP | BRICKWRIGHT_EHCILL_WAKING

text \<open>\<open>eh_pending\<close> is \<^verbatim>\<open>pending[0..pending_length)\<close>.\<close>

record brickwright_ehcill =
  eh_state :: brickwright_ehcill_state
  eh_pending :: "byte list"

type_synonym 'c write_cb = "byte list \<Rightarrow> 'c \<Rightarrow> int \<times> 'c"
type_synonym 'c link_state = "brickwright_ehcill \<times> brickwright_h4 \<times> 'c"

section \<open>Operations\<close>

definition write_control :: "'c write_cb \<Rightarrow> byte \<Rightarrow> 'c \<Rightarrow> int \<times> 'c" where
  "write_control write control c = write [control] c"

definition wake :: "'c write_cb \<Rightarrow> brickwright_ehcill \<times> 'c \<Rightarrow> int \<times> (brickwright_ehcill \<times> 'c)" where
  "wake write = (\<lambda>(e, c).
     if eh_pending e = [] then (0, (e\<lparr>eh_state := BRICKWRIGHT_EHCILL_AWAKE\<rparr>, c))
     else case write (eh_pending e) c of
            (result, c') \<Rightarrow>
              (result,
               (if result = 0 then e\<lparr>eh_pending := [], eh_state := BRICKWRIGHT_EHCILL_AWAKE\<rparr> else e, c')))"

definition brickwright_ehcill_init :: brickwright_ehcill where
  "brickwright_ehcill_init = \<lparr>eh_state = BRICKWRIGHT_EHCILL_AWAKE, eh_pending = []\<rparr>"

text \<open>The body of the loop of \<^verbatim>\<open>brickwright_ehcill_feed\<close>.\<close>

definition ehcill_byte ::
    "'c write_cb \<Rightarrow> 'c packet_cb option \<Rightarrow> byte \<Rightarrow> 'c link_state \<Rightarrow> int \<times> 'c link_state" where
  "ehcill_byte write receive v = (\<lambda>(e, h, c).
     if h4_type h = 0 \<and> v \<ge> BRICKWRIGHT_EHCILL_SLEEP_IND \<and> v \<le> BRICKWRIGHT_EHCILL_WAKE_ACK then
       if v = BRICKWRIGHT_EHCILL_SLEEP_IND then
         if eh_state e = BRICKWRIGHT_EHCILL_WAKING then (- EPROTO, (e, h, c))
         else case write_control write BRICKWRIGHT_EHCILL_SLEEP_ACK c of
                (result, c') \<Rightarrow>
                  (result, (if result = 0 then e\<lparr>eh_state := BRICKWRIGHT_EHCILL_ASLEEP\<rparr> else e, h, c'))
       else if v = BRICKWRIGHT_EHCILL_SLEEP_ACK then (- EPROTO, (e, h, c))
       else if v = BRICKWRIGHT_EHCILL_WAKE_IND then
         case write_control write BRICKWRIGHT_EHCILL_WAKE_ACK c of
           (result, c') \<Rightarrow>
             if result = 0 then
               case wake write (e, c') of (result', (e', c'')) \<Rightarrow> (result', (e', h, c''))
             else (result, (e, h, c'))
       else
         if eh_state e = BRICKWRIGHT_EHCILL_AWAKE then (0, (e, h, c))
         else if eh_state e \<noteq> BRICKWRIGHT_EHCILL_WAKING then (- EPROTO, (e, h, c))
         else case wake write (e, c) of (result, (e', c')) \<Rightarrow> (result, (e', h, c'))
     else case brickwright_h4_feed receive (Buf [v]) (h, c) of
            (result, (h', c')) \<Rightarrow> (result, (e, h', c')))"

definition brickwright_ehcill_feed ::
    "'c write_cb option \<Rightarrow> 'c packet_cb option \<Rightarrow> cbuf \<Rightarrow> 'c link_state \<Rightarrow> int \<times> 'c link_state" where
  "brickwright_ehcill_feed write receive data st =
     (case write of
        None \<Rightarrow> (- EINVAL, st)
      | Some w \<Rightarrow>
          if is_null data \<and> buf_len data > 0 then (- EINVAL, st)
          else feed_loop (ehcill_byte w receive) (buf_bytes data) st)"

definition brickwright_ehcill_send ::
    "'c write_cb option \<Rightarrow> cbuf \<Rightarrow> brickwright_ehcill \<times> 'c \<Rightarrow> int \<times> (brickwright_ehcill \<times> 'c)" where
  "brickwright_ehcill_send write frame = (\<lambda>(e, c).
     case write of
       None \<Rightarrow> (- EINVAL, (e, c))
     | Some w \<Rightarrow>
         if (is_null frame \<and> buf_len frame > 0) \<or> buf_len frame = 0 then (- EINVAL, (e, c))
         else if eh_state e = BRICKWRIGHT_EHCILL_AWAKE then
           case w (buf_bytes frame) c of (result, c') \<Rightarrow> (result, (e, c'))
         else if buf_len frame > BRICKWRIGHT_EHCILL_PENDING_MAX - length (eh_pending e)
         then (- ENOBUFS, (e, c))
         else
           let e1 = e\<lparr>eh_pending := eh_pending e @ buf_bytes frame\<rparr> in
           if eh_state e1 = BRICKWRIGHT_EHCILL_ASLEEP then
             case write_control w BRICKWRIGHT_EHCILL_WAKE_IND c of
               (result, c') \<Rightarrow>
                 if result \<noteq> 0
                 then (result,
                       (e1\<lparr>eh_pending := take (length (eh_pending e1) - buf_len frame) (eh_pending e1)\<rparr>, c'))
                 else (0, (e1\<lparr>eh_state := BRICKWRIGHT_EHCILL_WAKING\<rparr>, c'))
           else (0, (e1, c)))"

definition brickwright_ehcill_awake :: "brickwright_ehcill \<Rightarrow> bool" where
  "brickwright_ehcill_awake e \<longleftrightarrow> eh_state e = BRICKWRIGHT_EHCILL_AWAKE"

definition brickwright_ehcill_abort :: "brickwright_ehcill \<Rightarrow> brickwright_ehcill" where
  "brickwright_ehcill_abort e = e\<lparr>eh_pending := [], eh_state := BRICKWRIGHT_EHCILL_ASLEEP\<rparr>"

lemmas ehcill_controls = BRICKWRIGHT_EHCILL_SLEEP_IND_def BRICKWRIGHT_EHCILL_SLEEP_ACK_def
  BRICKWRIGHT_EHCILL_WAKE_IND_def BRICKWRIGHT_EHCILL_WAKE_ACK_def

section \<open>Invariant\<close>

text \<open>Frames wait only while a wake-up is under way, and never more than the buffer holds.\<close>

definition ehcill_ok :: "brickwright_ehcill \<Rightarrow> bool" where
  "ehcill_ok e \<longleftrightarrow> length (eh_pending e) \<le> BRICKWRIGHT_EHCILL_PENDING_MAX \<and>
     (eh_state e \<noteq> BRICKWRIGHT_EHCILL_WAKING \<longrightarrow> eh_pending e = [])"

lemma ehcill_ok_init [simp]: "ehcill_ok brickwright_ehcill_init"
  by (simp add: ehcill_ok_def brickwright_ehcill_init_def)

lemma ehcill_ok_abort [simp]: "ehcill_ok (brickwright_ehcill_abort e)"
  by (simp add: ehcill_ok_def brickwright_ehcill_abort_def)

lemma wake_ok: "ehcill_ok e \<Longrightarrow> ehcill_ok (fst (snd (wake write (e, c))))"
  by (auto simp: wake_def ehcill_ok_def split: prod.splits)

lemma ehcill_byte_ok:
  "ehcill_ok e \<Longrightarrow> ehcill_ok (fst (snd (ehcill_byte write receive v (e, h, c))))"
  using wake_ok [of e "write"]
  by (fastforce simp: ehcill_byte_def case_prod_beta ehcill_ok_def)

lemma ehcill_send_ok:
  "ehcill_ok e \<Longrightarrow> ehcill_ok (fst (snd (brickwright_ehcill_send write frame (e, c))))"
  by (cases frame; cases "eh_state e")
    (auto simp: brickwright_ehcill_send_def ehcill_ok_def Let_def split: prod.splits option.splits)

interpretation ehcill_parser: byte_parser "ehcill_byte wr rd" "\<lambda>(e, h, c). ehcill_ok e" for wr rd
proof unfold_locales
  fix st :: "'a link_state" and b
  assume "case st of (e, h, c) \<Rightarrow> ehcill_ok e"
  then show "case snd (ehcill_byte wr rd b st) of (e, h, c) \<Rightarrow> ehcill_ok e"
    using ehcill_byte_ok [of "fst st" wr rd b "fst (snd st)" "snd (snd st)"]
    by (simp add: case_prod_beta)
qed

section \<open>No frame is lost, duplicated or reordered\<close>

text \<open>
  A run of the link: the host sends frames and the controller's bytes arrive. \<open>accepted\<close> collects
  the frames whose send returned 0.
\<close>

datatype link_op = Send "byte list" | Arrive "byte list"

fun link_run ::
    "'c write_cb \<Rightarrow> 'c packet_cb \<Rightarrow> link_op list \<Rightarrow> byte list \<Rightarrow> 'c link_state \<Rightarrow> byte list \<times> 'c link_state" where
  "link_run write receive [] accepted st = (accepted, st)"
| "link_run write receive (Send f # ops) accepted (e, h, c) =
     (case brickwright_ehcill_send (Some write) (Buf f) (e, c) of
        (rc, (e', c')) \<Rightarrow>
          link_run write receive ops (if rc = 0 then accepted @ f else accepted) (e', h, c'))"
| "link_run write receive (Arrive bs # ops) accepted st =
     link_run write receive ops accepted (snd (brickwright_ehcill_feed (Some write) (Some receive) (Buf bs) st))"

text \<open>
  What the UART saw, apart from the control bytes: the writes that do not start with one of the
  four control values. HCI frames start with their packet type, 1 to 4.
\<close>

definition is_control :: "byte list \<Rightarrow> bool" where
  "is_control w \<longleftrightarrow> w \<noteq> [] \<and> hd w \<ge> BRICKWRIGHT_EHCILL_SLEEP_IND \<and> hd w \<le> BRICKWRIGHT_EHCILL_WAKE_ACK"

definition data_written :: "byte list list \<Rightarrow> byte list" where
  "data_written ws = concat (filter (\<lambda>w. \<not> is_control w) ws)"

fun hci_op :: "link_op \<Rightarrow> bool" where
  "hci_op (Send f) = (f = [] \<or> hd f \<in> {1, 2, 3, 4})"
| "hci_op (Arrive bs) = True"

text \<open>
  \<open>writer_logs write wlog\<close>: a successful write appends its bytes to the log of the UART, a failed
  one leaves the log alone. \<open>reader_keeps receive wlog\<close>: the packet callback does not write.
\<close>

definition writer_logs :: "'c write_cb \<Rightarrow> ('c \<Rightarrow> byte list list) \<Rightarrow> bool" where
  "writer_logs write wlog \<longleftrightarrow>
     (\<forall>w c. wlog (snd (write w c)) = (if fst (write w c) = 0 then wlog c @ [w] else wlog c))"

definition reader_keeps :: "'c packet_cb \<Rightarrow> ('c \<Rightarrow> byte list list) \<Rightarrow> bool" where
  "reader_keeps receive wlog \<longleftrightarrow> (\<forall>t p c. wlog (snd (receive t p c)) = wlog c)"

lemma data_written_append [simp]:
  "data_written (ws @ [w]) = (if is_control w then data_written ws else data_written ws @ w)"
  by (simp add: data_written_def)

lemma control_is_control [simp]:
  "is_control [BRICKWRIGHT_EHCILL_SLEEP_ACK]" "is_control [BRICKWRIGHT_EHCILL_WAKE_ACK]"
  "is_control [BRICKWRIGHT_EHCILL_WAKE_IND]"
  by (simp_all add: is_control_def ehcill_controls)

lemma hci_not_control: "f \<noteq> [] \<Longrightarrow> hd f \<in> {1, 2, 3, 4} \<Longrightarrow> \<not> is_control f"
  by (auto simp: is_control_def ehcill_controls word_le_nat_alt)

text \<open>The books balance: written plus waiting is what was accepted, and waiting bytes are frames.\<close>

definition balanced :: "('c \<Rightarrow> byte list list) \<Rightarrow> byte list \<Rightarrow> brickwright_ehcill \<Rightarrow> 'c \<Rightarrow> bool" where
  "balanced wlog accepted e c \<longleftrightarrow> ehcill_ok e \<and>
     data_written (wlog c) @ eh_pending e = accepted \<and>
     (eh_pending e \<noteq> [] \<longrightarrow> hd (eh_pending e) \<in> {1, 2, 3, 4})"

lemma wake_balanced:
  assumes "writer_logs write wlog" and "balanced wlog accepted e c"
  shows "balanced wlog accepted (fst (snd (wake write (e, c)))) (snd (snd (wake write (e, c))))"
proof (cases "eh_pending e = []")
  case True
  then show ?thesis using assms(2) by (simp add: wake_def balanced_def ehcill_ok_def)
next
  case False
  then have "\<not> is_control (eh_pending e)"
    using assms(2) hci_not_control by (auto simp: balanced_def)
  moreover have "wlog (snd (write (eh_pending e) c)) =
      (if fst (write (eh_pending e) c) = 0 then wlog c @ [eh_pending e] else wlog c)"
    using assms(1) by (simp add: writer_logs_def)
  ultimately show ?thesis
    using assms(2) False by (auto simp: wake_def balanced_def ehcill_ok_def split: prod.splits)
qed

lemma control_balanced:
  assumes "writer_logs write wlog" and "balanced wlog accepted e c" and "is_control [v]"
  shows "balanced wlog accepted e (snd (write_control write v c))"
proof -
  have "data_written (wlog (snd (write [v] c))) = data_written (wlog c)"
    using assms(1,3) by (simp add: writer_logs_def)
  then show ?thesis using assms(2) by (simp add: balanced_def write_control_def)
qed

lemma h4_byte_keeps:
  "reader_keeps receive wlog \<Longrightarrow> wlog (snd (snd (h4_byte receive b (h, c)))) = wlog c"
  by (auto simp: h4_byte_def Let_def reader_keeps_def case_prod_beta)

lemma h4_feed_single: "brickwright_h4_feed (Some receive) (Buf [v]) hc = h4_byte receive v hc"
  by (simp add: brickwright_h4_feed_def split: prod.split)

lemma ehcill_byte_balanced:
  assumes "writer_logs write wlog" and "reader_keeps receive wlog" and "balanced wlog accepted e c"
  shows "case snd (ehcill_byte write (Some receive) v (e, h, c)) of
     (e', h', c') \<Rightarrow> balanced wlog accepted e' c'"
proof -
  have sleep: "balanced wlog accepted (e\<lparr>eh_state := BRICKWRIGHT_EHCILL_ASLEEP\<rparr>) c'"
    if "eh_state e \<noteq> BRICKWRIGHT_EHCILL_WAKING" "balanced wlog accepted e c'" for c'
    using that by (auto simp: balanced_def ehcill_ok_def)
  have h4: "balanced wlog accepted e (snd (snd (h4_byte receive v (h, c))))"
    using h4_byte_keeps [OF assms(2), of v h c] assms(3) by (simp add: balanced_def)
  note facts = control_balanced [OF assms(1,3)] wake_balanced [OF assms(1)]
  show ?thesis
    using assms(3) sleep h4 facts(1) [of BRICKWRIGHT_EHCILL_SLEEP_ACK]
      facts(1) [of BRICKWRIGHT_EHCILL_WAKE_ACK]
      facts(2) [of accepted e c]
      facts(2) [of accepted e "snd (write_control write BRICKWRIGHT_EHCILL_WAKE_ACK c)"]
    by (auto simp: ehcill_byte_def h4_feed_single case_prod_beta)
qed

lemma feed_balanced:
  assumes "writer_logs write wlog" and "reader_keeps receive wlog" and "balanced wlog accepted e c"
  shows "case snd (feed_loop (ehcill_byte write (Some receive)) bs (e, h, c)) of
     (e', h', c') \<Rightarrow> balanced wlog accepted e' c'"
  using assms(3)
proof (induction bs arbitrary: e h c)
  case (Cons b bs)
  obtain rc e1 h1 c1 where st: "ehcill_byte write (Some receive) b (e, h, c) = (rc, (e1, h1, c1))"
    by (metis prod_cases4)
  have "balanced wlog accepted e1 c1"
    using ehcill_byte_balanced [OF assms(1,2) Cons.prems, of b h] st by simp
  then show ?case using Cons.IH [of e1 c1 h1] st by simp
qed simp

lemma send_balanced:
  assumes "writer_logs write wlog" and "balanced wlog accepted e c" and "f = [] \<or> hd f \<in> {1, 2, 3, 4}"
  shows "case brickwright_ehcill_send (Some write) (Buf f) (e, c) of
     (rc, (e', c')) \<Rightarrow> balanced wlog (if rc = 0 then accepted @ f else accepted) e' c'"
proof (cases "f = []")
  case True
  then show ?thesis using assms(2) by (simp add: brickwright_ehcill_send_def errno_defs)
next
  case False
  have ok: "ehcill_ok (fst (snd (brickwright_ehcill_send (Some write) (Buf f) (e, c))))"
    using assms(2) by (simp add: ehcill_send_ok balanced_def)
  have nc: "\<not> is_control f" using False assms(3) hci_not_control by blast
  have w: "wlog (snd (write x c)) = (if fst (write x c) = 0 then wlog c @ [x] else wlog c)" for x
    using assms(1) by (simp add: writer_logs_def)
  show ?thesis
    using assms(2,3) False nc w [of f] w [of "[BRICKWRIGHT_EHCILL_WAKE_IND]"] ok
    by (cases "eh_state e")
      (auto simp: brickwright_ehcill_send_def balanced_def Let_def write_control_def ehcill_ok_def
        errno_defs case_prod_beta hd_append)
qed

lemma link_run_balanced:
  assumes "writer_logs write wlog" and "reader_keeps receive wlog"
  shows "\<forall>x \<in> set ops. hci_op x \<Longrightarrow> balanced wlog accepted e c \<Longrightarrow>
     (case link_run write receive ops accepted (e, h, c) of
        (accepted', (e', h', c')) \<Rightarrow> balanced wlog accepted' e' c')"
proof (induction ops arbitrary: accepted e h c)
  case (Cons x ops)
  show ?case
  proof (cases x)
    case (Send f)
    obtain rc e1 c1 where s: "brickwright_ehcill_send (Some write) (Buf f) (e, c) = (rc, (e1, c1))"
      by (metis prod_cases3)
    have "balanced wlog (if rc = 0 then accepted @ f else accepted) e1 c1"
      using send_balanced [OF assms(1) Cons.prems(2), of f] s Cons.prems(1) Send by simp
    then show ?thesis
      using Cons.IH [of "if rc = 0 then accepted @ f else accepted" e1 c1 h] Cons.prems(1) s Send
      by simp
  next
    case (Arrive bs)
    obtain e1 h1 c1 where f: "snd (feed_loop (ehcill_byte write (Some receive)) bs (e, h, c)) = (e1, h1, c1)"
      by (metis prod_cases3)
    have "balanced wlog accepted e1 c1"
      using feed_balanced [OF assms Cons.prems(2), of bs h] f by simp
    then show ?thesis
      using Cons.IH [of accepted e1 c1 h1] Cons.prems(1) f Arrive
      by (simp add: brickwright_ehcill_feed_def)
  qed
qed simp

text \<open>
  C3. Whatever the host sends and whatever bytes the controller answers, through any number of
  sleeps, wake-ups and failed writes: the HCI data on the UART followed by the bytes still waiting
  is exactly the concatenation of the frames whose send was accepted. Nothing accepted is lost,
  duplicated or reordered, and whenever the link is awake or asleep nothing is waiting, so that
  everything accepted is on the wire.
\<close>
theorem ehcill_no_loss:
  assumes "writer_logs write wlog" and "reader_keeps receive wlog"
    and "\<forall>x \<in> set ops. hci_op x" and "wlog c = []"
    and "link_run write receive ops [] (brickwright_ehcill_init, brickwright_h4_init, c) =
      (accepted, (e, h, c'))"
  shows "data_written (wlog c') @ eh_pending e = accepted \<and>
    (eh_state e = BRICKWRIGHT_EHCILL_WAKING \<or> data_written (wlog c') = accepted)"
proof -
  have "balanced wlog [] brickwright_ehcill_init c"
    using assms(4) by (simp add: balanced_def data_written_def brickwright_ehcill_init_def ehcill_ok_def)
  then have "balanced wlog accepted e c'"
    using link_run_balanced [OF assms(1,2,3), of "[]" brickwright_ehcill_init c brickwright_h4_init]
      assms(5) by simp
  then show ?thesis by (auto simp: balanced_def ehcill_ok_def)
qed

theorem ehcill_no_loss_witness:
  "link_run (\<lambda>w log. (0, log @ [w])) (\<lambda>t p log. (0, log))
     [Send [1, 9], Arrive [0x30], Send [1, 3], Send [2, 7], Arrive [0x33]] []
     (brickwright_ehcill_init, brickwright_h4_init, []) =
   ([1, 9, 1, 3, 2, 7], (brickwright_ehcill_init, brickwright_h4_init,
     [[1, 9], [0x31], [0x32], [1, 3, 2, 7]])) \<and>
   data_written [[1, 9], [0x31], [0x32], [1, 3, 2, 7]] = [1, 9, 1, 3, 2, 7]"
proof -
  let ?w = "\<lambda>w log. (0, log @ [w])" and ?r = "\<lambda>t p log. (0, log)"
  let ?ops = "[Send [1, 9], Arrive [0x30], Send [1, 3], Send [2, 7], Arrive [0x33]]"
  have run: "link_run ?w ?r ?ops [] (brickwright_ehcill_init, brickwright_h4_init, []) =
    ([1, 9, 1, 3, 2, 7], (brickwright_ehcill_init, brickwright_h4_init,
      [[1, 9], [0x31], [0x32], [1, 3, 2, 7]]))"
    by (simp add: brickwright_ehcill_send_def brickwright_ehcill_feed_def ehcill_byte_def
        brickwright_ehcill_init_def brickwright_h4_init_def ehcill_controls write_control_def
        wake_def BRICKWRIGHT_EHCILL_PENDING_MAX_def Let_def)
  have w: "writer_logs ?w (\<lambda>log. log)" and r: "reader_keeps ?r (\<lambda>log. log)"
    by (simp_all add: writer_logs_def reader_keeps_def)
  show ?thesis
    using run ehcill_no_loss [OF w r _ _ run] by (simp add: brickwright_ehcill_init_def)
qed

end
