(* ===== verification/Db_Motor.thy ===== *)
theory Db_Motor
  imports Prelude
begin

text \<open>
  Motor access of the drivebase, \<^verbatim>\<open>apps/drivebase/drivebase_motor.c\<close>: draining encoder samples, issuing
  duty, coast and brake, and the recovery of a lost port. The operating system is the environment: each
  operation takes the outcome of its system calls (a descriptor or a negated error number, the samples
  returned by \<^verbatim>\<open>read\<close>) as an argument and returns the command it issues. The theorems show which sample a
  drain may deliver, that a mirrored motor stays consistent, and that a failed reclaim leaves a side
  unable to drive.
\<close>

section \<open>Samples\<close>

record lump_sample_s =
  ls_timestamp :: int
  ls_seq :: int
  ls_generation :: int
  ls_port :: int
  ls_type_id :: int
  ls_mode_id :: int
  ls_data_type :: int
  ls_num_values :: int
  ls_len :: int
  ls_raw :: "byte list"

record db_motor_sample_s =
  ms_timestamp_us :: int
  ms_seq :: int
  ms_generation :: int
  ms_raw_value :: int
  ms_mode_id :: int
  ms_data_type :: int
  ms_num_values :: int
  ms_port_idx :: int
  ms_type_id :: int
  ms_len :: int

text \<open>The first element of the payload union in its four views (little-endian, IEEE single).\<close>

definition raw_u :: "nat \<Rightarrow> byte list \<Rightarrow> int" where
  "raw_u n bs = foldr (\<lambda>b acc. uint b + 256 * acc) (take n bs) 0"

definition f32_to_i32 :: "int \<Rightarrow> int" where
  "f32_to_i32 bits =
     (let sgn = (if bits div 2 ^ 31 = 0 then 1 else - 1);
          e = bits div 2 ^ 23 mod 256; m = bits mod 2 ^ 23;
          mag = (if e = 0 then 0
                 else if e \<ge> 150 then (2 ^ 23 + m) * 2 ^ nat (e - 150)
                 else (2 ^ 23 + m) div 2 ^ nat (150 - e)) in
      i32 (sgn * mag))"

definition sample_value :: "lump_sample_s \<Rightarrow> int" where
  "sample_value s =
     (if ls_data_type s = 0 then i8 (raw_u 1 (ls_raw s))
      else if ls_data_type s = 1 then i16 (raw_u 2 (ls_raw s))
      else if ls_data_type s = 2 then i32 (raw_u 4 (ls_raw s))
      else if ls_data_type s = 3 then f32_to_i32 (raw_u 4 (ls_raw s))
      else 0)"

section \<open>State\<close>

definition DB_LPF2_TYPE_SPIKE_MEDIUM_MOTOR :: int where "DB_LPF2_TYPE_SPIKE_MEDIUM_MOTOR = 48"
definition DB_MOTOR_POS_MODE :: int where "DB_MOTOR_POS_MODE = 2"
definition DB_DRAIN_BATCH :: nat where "DB_DRAIN_BATCH = 16"
definition DB_MOTOR_DRAIN_DISCONNECTED :: int where "DB_MOTOR_DRAIN_DISCONNECTED = 1"
definition DB_MOTOR_PROBE_TIMEOUT_US :: int where "DB_MOTOR_PROBE_TIMEOUT_US = 10000000"

datatype db_side_e = DB_SIDE_LEFT | DB_SIDE_RIGHT

record db_motor_side_s =
  m_fd :: int
  m_claimed :: bool
  m_port_idx :: int
  m_last_consumed_seq :: int
  m_have_last_seq :: bool

record db_motor_module =
  g_motor_left :: db_motor_side_s
  g_motor_right :: db_motor_side_s
  g_initialised :: bool
  reclaim_left :: bool
  reclaim_right :: bool
  g_motor_io_frozen :: bool
  g_rt_idle :: bool
  cfg_invert_left :: bool

text \<open>What the operating system answers while a port is opened.\<close>

record os_open =
  oo_open :: int
  oo_claim :: int
  oo_info :: int
  oo_type_id :: int
  oo_port :: int

text \<open>What the module asks the motor driver to do.\<close>

datatype motor_cmd = Set_Pwm db_side_e int | Motor_Coast db_side_e | Motor_Brake db_side_e

definition motor_of :: "db_side_e \<Rightarrow> db_motor_module \<Rightarrow> db_motor_side_s" where
  "motor_of side g = (case side of DB_SIDE_LEFT \<Rightarrow> g_motor_left g | DB_SIDE_RIGHT \<Rightarrow> g_motor_right g)"

definition set_motor :: "db_side_e \<Rightarrow> db_motor_side_s \<Rightarrow> db_motor_module \<Rightarrow> db_motor_module" where
  "set_motor side m g =
     (case side of DB_SIDE_LEFT \<Rightarrow> g\<lparr>g_motor_left := m\<rparr> | DB_SIDE_RIGHT \<Rightarrow> g\<lparr>g_motor_right := m\<rparr>)"

definition db_side_sign :: "db_motor_module \<Rightarrow> db_side_e \<Rightarrow> int" where
  "db_side_sign g side = (if side = DB_SIDE_LEFT then (if cfg_invert_left g then - 1 else 1) else 1)"

section \<open>Opening and closing\<close>

definition close_one :: "db_motor_side_s \<Rightarrow> db_motor_side_s" where
  "close_one m =
     \<lparr>m_fd = (if m_fd m \<ge> 0 then - 1 else m_fd m), m_claimed = False, m_port_idx = 255,
      m_last_consumed_seq = 0, m_have_last_seq = False\<rparr>"

definition open_one :: "os_open \<Rightarrow> db_motor_side_s \<Rightarrow> int \<times> db_motor_side_s" where
  "open_one os m =
     (if oo_open os < 0 then (oo_open os, m\<lparr>m_fd := - 1\<rparr>)
      else
        let m1 = m\<lparr>m_fd := oo_open os\<rparr> in
        if oo_claim os < 0 then (oo_claim os, close_one m1)
        else
          let m2 = m1\<lparr>m_claimed := True\<rparr> in
          if oo_info os < 0 then (oo_info os, close_one m2)
          else if oo_type_id os \<noteq> DB_LPF2_TYPE_SPIKE_MEDIUM_MOTOR then (- ENODEV, close_one m2)
          else (0, m2\<lparr>m_port_idx := oo_port os\<rparr>))"

definition ENOENT :: int where "ENOENT = 2"
definition EALREADY :: int where "EALREADY = 114"
definition ENODATA :: int where "ENODATA = 61"

text \<open>
  The probe loop: each attempt comes with the clock read after it. \<open>None\<close> stands for a loop that is still
  waiting when the listed attempts are used up.
\<close>

fun open_one_with_retry ::
    "(os_open \<times> int) list \<Rightarrow> int \<Rightarrow> db_motor_side_s \<Rightarrow> (int \<times> db_motor_side_s) option" where
  "open_one_with_retry [] deadline_us m = None"
| "open_one_with_retry ((os, now_us) # rest) deadline_us m =
     (case open_one os m of (ret, m') \<Rightarrow>
        if ret = 0 then Some (0, m')
        else if ret \<noteq> - ENODEV \<and> ret \<noteq> - ENOENT \<and> ret \<noteq> - EBUSY then Some (ret, m')
        else if now_us \<ge> deadline_us then Some (ret, m')
        else open_one_with_retry rest deadline_us m')"

definition drivebase_motor_init ::
    "int \<Rightarrow> (os_open \<times> int) list \<Rightarrow> (os_open \<times> int) list \<Rightarrow> db_motor_module \<Rightarrow> (int \<times> db_motor_module) option" where
  "drivebase_motor_init now_us tries_l tries_r g =
     (if g_initialised g then Some (- EALREADY, g)
      else
        let g1 = g\<lparr>reclaim_left := False, reclaim_right := False, g_motor_io_frozen := False, g_rt_idle := False\<rparr>;
            deadline = now_us + DB_MOTOR_PROBE_TIMEOUT_US in
        case open_one_with_retry tries_l deadline (g_motor_left g1) of
          None \<Rightarrow> None
        | Some (ret, ml) \<Rightarrow>
            let g2 = g1\<lparr>g_motor_left := ml\<rparr> in
            if ret < 0 then Some (ret, g2)
            else
              (case open_one_with_retry tries_r deadline (g_motor_right g2) of
                 None \<Rightarrow> None
               | Some (ret', mr) \<Rightarrow>
                   let g3 = g2\<lparr>g_motor_right := mr\<rparr> in
                   if ret' < 0 then Some (ret', g3\<lparr>g_motor_left := close_one ml\<rparr>)
                   else Some (0, g3\<lparr>g_initialised := True\<rparr>)))"

definition drivebase_motor_deinit :: "db_motor_module \<Rightarrow> db_motor_module" where
  "drivebase_motor_deinit g =
     (if \<not> g_initialised g then g
      else g\<lparr>g_motor_left := close_one (g_motor_left g), g_motor_right := close_one (g_motor_right g),
             g_initialised := False, reclaim_left := False, reclaim_right := False,
             g_motor_io_frozen := False, g_rt_idle := False\<rparr>)"

definition drivebase_motor_is_initialised :: "db_motor_module \<Rightarrow> bool" where
  "drivebase_motor_is_initialised g = g_initialised g"

definition drivebase_motor_port_idx :: "db_side_e \<Rightarrow> db_motor_module \<Rightarrow> int" where
  "drivebase_motor_port_idx side g =
     (if \<not> g_initialised g then - ENODEV else m_port_idx (motor_of side g))"

section \<open>Recovery flags\<close>

definition drivebase_motor_request_reclaim :: "db_side_e \<Rightarrow> db_motor_module \<Rightarrow> db_motor_module" where
  "drivebase_motor_request_reclaim side g =
     (case side of DB_SIDE_LEFT \<Rightarrow> g\<lparr>reclaim_left := True\<rparr> | DB_SIDE_RIGHT \<Rightarrow> g\<lparr>reclaim_right := True\<rparr>)"

definition drivebase_motor_reclaim_pending :: "db_motor_module \<Rightarrow> int" where
  "drivebase_motor_reclaim_pending g =
     (if reclaim_left g then 1 else 0) + (if reclaim_right g then 2 else 0)"

definition drivebase_motor_clear_reclaim :: "db_side_e \<Rightarrow> db_motor_module \<Rightarrow> db_motor_module" where
  "drivebase_motor_clear_reclaim side g =
     (case side of DB_SIDE_LEFT \<Rightarrow> g\<lparr>reclaim_left := False\<rparr> | DB_SIDE_RIGHT \<Rightarrow> g\<lparr>reclaim_right := False\<rparr>)"

definition drivebase_motor_set_io_frozen :: "bool \<Rightarrow> db_motor_module \<Rightarrow> db_motor_module" where
  "drivebase_motor_set_io_frozen v g = g\<lparr>g_motor_io_frozen := v\<rparr>"

definition drivebase_motor_set_rt_idle :: "bool \<Rightarrow> db_motor_module \<Rightarrow> db_motor_module" where
  "drivebase_motor_set_rt_idle v g = g\<lparr>g_rt_idle := v\<rparr>"

section \<open>Draining\<close>

text \<open>The scan over the batch: whether a disconnect sentinel was seen, and the newest position sample.\<close>

fun drain_scan :: "lump_sample_s list \<Rightarrow> bool \<times> lump_sample_s option \<Rightarrow> bool \<times> lump_sample_s option" where
  "drain_scan [] acc = acc"
| "drain_scan (s # ss) (saw, latest) =
     (if ls_len s = 0 then drain_scan ss (if ls_type_id s = 0 then True else saw, latest)
      else if ls_mode_id s = DB_MOTOR_POS_MODE then drain_scan ss (saw, Some s)
      else drain_scan ss (saw, latest))"

text \<open>
  \<open>rd\<close> is the outcome of \<^verbatim>\<open>read\<close>: \<open>Inl\<close> the error number, or \<open>Inr\<close> the samples, at most the batch size.
\<close>

definition drivebase_motor_drain ::
    "int + lump_sample_s list \<Rightarrow> db_side_e \<Rightarrow> db_motor_module \<Rightarrow> int \<times> db_motor_sample_s option \<times> db_motor_module" where
  "drivebase_motor_drain rd side g =
     (if \<not> g_initialised g then (- EINVAL, None, g)
      else
        case rd of
          Inl err \<Rightarrow> (if err = EAGAIN \<or> err = ENODATA then - EAGAIN else - err, None, g)
        | Inr ss \<Rightarrow>
            let batch = take DB_DRAIN_BATCH ss in
            if batch = [] then (- EAGAIN, None, g)
            else
              (case drain_scan batch (False, None) of (saw_disconnect, latest) \<Rightarrow>
                 if saw_disconnect
                 then (DB_MOTOR_DRAIN_DISCONNECTED, None, drivebase_motor_request_reclaim side g)
                 else
                   case latest of
                     None \<Rightarrow> (- EAGAIN, None, g)
                   | Some s \<Rightarrow>
                       (0,
                        Some \<lparr>ms_timestamp_us = ls_timestamp s, ms_seq = ls_seq s,
                              ms_generation = ls_generation s,
                              ms_raw_value = i32 (sample_value s * db_side_sign g side),
                              ms_mode_id = ls_mode_id s, ms_data_type = ls_data_type s,
                              ms_num_values = ls_num_values s, ms_port_idx = ls_port s,
                              ms_type_id = ls_type_id s, ms_len = ls_len s\<rparr>,
                        set_motor side
                          ((motor_of side g)\<lparr>m_last_consumed_seq := ls_seq s, m_have_last_seq := True\<rparr>) g)))"

section \<open>Actuation\<close>

text \<open>\<open>ioc\<close> is the result of the \<^verbatim>\<open>ioctl\<close>: zero, or a negated error number.\<close>

definition drivebase_motor_set_duty ::
    "int \<Rightarrow> db_side_e \<Rightarrow> int \<Rightarrow> db_motor_module \<Rightarrow> int \<times> motor_cmd list \<times> db_motor_module" where
  "drivebase_motor_set_duty ioc side duty g =
     (if \<not> g_initialised g then (- ENODEV, [], g)
      else
        let s0 = i32 (i16 duty * db_side_sign g side);
            s1 = (if s0 > 10000 then 10000 else s0);
            signed_duty = (if s1 < - 10000 then - 10000 else s1);
            cmds = [Set_Pwm side (i16 signed_duty)] in
        if ioc < 0 then (ioc, cmds, drivebase_motor_request_reclaim side g) else (0, cmds, g))"

definition drivebase_motor_coast ::
    "int \<Rightarrow> db_side_e \<Rightarrow> db_motor_module \<Rightarrow> int \<times> motor_cmd list \<times> db_motor_module" where
  "drivebase_motor_coast ioc side g =
     (if \<not> g_initialised g then (- ENODEV, [], g)
      else if ioc < 0 then (ioc, [Motor_Coast side], drivebase_motor_request_reclaim side g)
      else (0, [Motor_Coast side], g))"

definition drivebase_motor_brake ::
    "int \<Rightarrow> db_side_e \<Rightarrow> db_motor_module \<Rightarrow> int \<times> motor_cmd list \<times> db_motor_module" where
  "drivebase_motor_brake ioc side g =
     (if \<not> g_initialised g then (- ENODEV, [], g)
      else if ioc < 0 then (ioc, [Motor_Brake side], drivebase_motor_request_reclaim side g)
      else (0, [Motor_Brake side], g))"

definition drivebase_motor_select_mode :: "int \<Rightarrow> db_side_e \<Rightarrow> int \<Rightarrow> db_motor_module \<Rightarrow> int" where
  "drivebase_motor_select_mode ioc side mode g =
     (if \<not> g_initialised g then - ENODEV else if ioc < 0 then ioc else 0)"

definition drivebase_motor_reclaim ::
    "os_open \<Rightarrow> int \<Rightarrow> db_side_e \<Rightarrow> db_motor_module \<Rightarrow> int \<times> db_motor_module" where
  "drivebase_motor_reclaim os sel side g =
     (if \<not> g_initialised g then (- ENODEV, g)
      else
        case open_one os (close_one (motor_of side g)) of (rc, m) \<Rightarrow>
          if rc < 0 then (rc, set_motor side m g)
          else
            let rc' = drivebase_motor_select_mode sel side 2 g in
            if rc' < 0 then (rc', set_motor side (close_one m) g)
            else (0, set_motor side m g))"

section \<open>What a drain delivers\<close>

definition is_disconnect :: "lump_sample_s \<Rightarrow> bool" where
  "is_disconnect s \<longleftrightarrow> ls_len s = 0 \<and> ls_type_id s = 0"

definition is_position :: "lump_sample_s \<Rightarrow> bool" where
  "is_position s \<longleftrightarrow> ls_len s \<noteq> 0 \<and> ls_mode_id s = DB_MOTOR_POS_MODE"

lemma drain_scan_spec:
  "drain_scan ss (saw, latest) =
     (saw \<or> list_ex is_disconnect ss,
      if filter is_position ss = [] then latest else Some (last (filter is_position ss)))"
  by (induction ss arbitrary: saw latest) (auto simp: is_disconnect_def is_position_def)

text \<open>
  Fact. A drain delivers the newest position sample of the batch and nothing else: if the batch contains a
  disconnect sentinel, no sample is delivered and recovery is requested for this side; frames of other
  modes and zero-length sentinels are never delivered; without a position sample the caller is told to
  try again; and the value carries the side's mounting sign.
\<close>

theorem motor_drain_newest_position:
  assumes "g_initialised g"
  shows "let batch = take DB_DRAIN_BATCH ss; pos = filter is_position batch;
             (rc, out, g') = drivebase_motor_drain (Inr ss) side g in
     if list_ex is_disconnect batch then
       rc = DB_MOTOR_DRAIN_DISCONNECTED \<and> out = None \<and> g' = drivebase_motor_request_reclaim side g
     else if pos = [] then rc = - EAGAIN \<and> out = None \<and> g' = g
     else rc = 0 \<and>
       map_option ms_raw_value out = Some (i32 (sample_value (last pos) * db_side_sign g side)) \<and>
       map_option ms_timestamp_us out = Some (ls_timestamp (last pos)) \<and>
       m_last_consumed_seq (motor_of side g') = ls_seq (last pos) \<and> reclaim_left g' = reclaim_left g \<and>
       reclaim_right g' = reclaim_right g"
  using assms
  by (cases side) (auto simp: drivebase_motor_drain_def drain_scan_spec Let_def set_motor_def motor_of_def)

definition demo_sample :: "int \<Rightarrow> int \<Rightarrow> byte list \<Rightarrow> lump_sample_s" where
  "demo_sample t mode bs =
     \<lparr>ls_timestamp = t, ls_seq = t, ls_generation = 1, ls_port = 0, ls_type_id = 48, ls_mode_id = mode,
      ls_data_type = 2, ls_num_values = 1, ls_len = 4, ls_raw = bs\<rparr>"

definition demo_motors :: db_motor_module where
  "demo_motors =
     \<lparr>g_motor_left = \<lparr>m_fd = 3, m_claimed = True, m_port_idx = 0, m_last_consumed_seq = 0, m_have_last_seq = False\<rparr>,
      g_motor_right = \<lparr>m_fd = 4, m_claimed = True, m_port_idx = 1, m_last_consumed_seq = 0, m_have_last_seq = False\<rparr>,
      g_initialised = True, reclaim_left = False, reclaim_right = False, g_motor_io_frozen = False,
      g_rt_idle = False, cfg_invert_left = True\<rparr>"

theorem motor_drain_newest_position_witness:
  "let (rc, out, g') = drivebase_motor_drain
         (Inr [demo_sample 1 2 [210, 0, 0, 0], demo_sample 2 2 [211, 0, 0, 0], demo_sample 3 1 [9, 9, 9, 9]])
         DB_SIDE_LEFT demo_motors in
   rc = 0 \<and> map_option ms_raw_value out = Some (- 211) \<and> map_option ms_timestamp_us out = Some 2"
  using motor_drain_newest_position [of demo_motors
      "[demo_sample 1 2 [210, 0, 0, 0], demo_sample 2 2 [211, 0, 0, 0], demo_sample 3 1 [9, 9, 9, 9]]"
      DB_SIDE_LEFT]
  by (simp add: demo_motors_def demo_sample_def is_position_def is_disconnect_def DB_MOTOR_POS_MODE_def
      DB_DRAIN_BATCH_def sample_value_def raw_u_def db_side_sign_def i32_id split: prod.splits)

section \<open>Recovery and actuation\<close>

text \<open>
  Fact. A reclaim is fail-safe: if it fails at any step (opening, claiming, identifying the device or
  selecting the encoder mode) the side ends with no open descriptor and no claim, and if it succeeds the
  side is claimed on an open descriptor of a medium motor. The other side is never touched.
\<close>

theorem motor_reclaim_fail_safe:
  assumes "g_initialised g"
  shows "let (rc, g') = drivebase_motor_reclaim os sel side g; m = motor_of side g';
             other = (if side = DB_SIDE_LEFT then DB_SIDE_RIGHT else DB_SIDE_LEFT) in
     motor_of other g' = motor_of other g \<and>
     (if rc = 0 then 0 \<le> m_fd m \<and> m_claimed m \<and> oo_type_id os = DB_LPF2_TYPE_SPIKE_MEDIUM_MOTOR
      else rc < 0 \<and> m_fd m < 0 \<and> \<not> m_claimed m)"
  using assms
  by (cases side)
    (auto simp: drivebase_motor_reclaim_def open_one_def close_one_def drivebase_motor_select_mode_def
      set_motor_def motor_of_def Let_def errno_defs split: prod.splits if_splits)

theorem motor_reclaim_fail_safe_witness:
  "let (rc, g') = drivebase_motor_reclaim
         \<lparr>oo_open = 5, oo_claim = 0, oo_info = 0, oo_type_id = 48, oo_port = 0\<rparr> (- 5) DB_SIDE_LEFT demo_motors in
   rc < 0 \<and> m_fd (motor_of DB_SIDE_LEFT g') < 0 \<and> m_fd (motor_of DB_SIDE_RIGHT g') = 4"
  using motor_reclaim_fail_safe [of demo_motors
      "\<lparr>oo_open = 5, oo_claim = 0, oo_info = 0, oo_type_id = 48, oo_port = 0\<rparr>" "- 5" DB_SIDE_LEFT]
  by (simp add: demo_motors_def drivebase_motor_reclaim_def open_one_def close_one_def
      drivebase_motor_select_mode_def set_motor_def motor_of_def DB_LPF2_TYPE_SPIKE_MEDIUM_MOTOR_def
      split: prod.splits)

lemma set_duty_cases:
  assumes "g_initialised g"
  shows "\<exists>d. drivebase_motor_set_duty ioc side duty g =
      (if ioc < 0 then ioc else 0, [Set_Pwm side d],
       if ioc < 0 then drivebase_motor_request_reclaim side g else g) \<and> \<bar>d\<bar> \<le> 10000 \<and>
      (\<bar>duty\<bar> \<le> 10000 \<longrightarrow> d = duty * db_side_sign g side)"
proof -
  have i16_id: "i16 x = x" if "\<bar>x\<bar> \<le> 10000" for x :: int
    using that by (intro wrap_s_id) auto
  let ?s0 = "i32 (i16 duty * db_side_sign g side)"
  let ?s = "if (if ?s0 > 10000 then 10000 else ?s0) < - 10000 then - 10000
            else (if ?s0 > 10000 then 10000 else ?s0)"
  have b: "\<bar>?s\<bar> \<le> 10000" by auto
  have "?s = duty * db_side_sign g side" if "\<bar>duty\<bar> \<le> 10000"
  proof -
    have "\<bar>duty * db_side_sign g side\<bar> \<le> 10000" using that by (simp add: db_side_sign_def)
    then have "- 10000 \<le> duty * db_side_sign g side" "duty * db_side_sign g side \<le> 10000" by linarith+
    then show ?thesis using that by (simp add: i16_id i32_id)
  qed
  then show ?thesis
    using assms b i16_id [OF b] by (intro exI [of _ ?s]) (simp add: drivebase_motor_set_duty_def Let_def)
qed

end
