(* ===== verification/Db_Observer.thy ===== *)
theory Db_Observer
  imports Prelude
begin

text \<open>
  The speed estimator and stall detector of one motor, \<^verbatim>\<open>apps/drivebase/drivebase_observer.c\<close>. The ring
  of samples is a list of fixed length written in place; the theorems show that it always holds the
  newest accepted samples in order, that the adaptive slope is exact on uniform motion, that the
  estimate never lies inside the zero band, and when a stall is reported.
\<close>

section \<open>State\<close>

definition DB_OBSERVER_RING_DEPTH :: nat where "DB_OBSERVER_RING_DEPTH = 128"
definition DB_OBSERVER_DEFAULT_MS :: int where "DB_OBSERVER_DEFAULT_MS = 30"
definition DB_OBSERVER_LSB_MDEG :: int where "DB_OBSERVER_LSB_MDEG = 1000"
definition DB_OBSERVER_MIN_LSB_COUNT :: int where "DB_OBSERVER_MIN_LSB_COUNT = 3"
definition DB_OBSERVER_V_HYST_LOW_MDEGPS :: int where "DB_OBSERVER_V_HYST_LOW_MDEGPS = 30000"
definition DB_OBSERVER_V_HYST_HIGH_MDEGPS :: int where "DB_OBSERVER_V_HYST_HIGH_MDEGPS = 60000"

record db_observer_sample_s =
  sm_t_us :: int
  sm_x_mdeg :: int

record db_observer_s =
  ob_ring :: "db_observer_sample_s list"
  ob_head :: nat
  ob_count :: nat
  v_est_mdegps :: int
  min_window_us :: int
  ob_primed :: bool
  snapped_to_zero :: bool
  ob_stall_low_speed_mdegps :: int
  ob_stall_min_duty :: int
  ob_stall_window_ms :: int
  stall_streak_ms :: int
  stalled :: bool

section \<open>Velocity estimate\<close>

definition abs_i64 :: "int \<Rightarrow> int" where
  "abs_i64 v = (if v < 0 then i64 (- v) else v)"

definition abs_i32 :: "int \<Rightarrow> int" where
  "abs_i32 v = (if v < 0 then i32 (- v) else v)"

definition newest_slot :: "db_observer_s \<Rightarrow> nat" where
  "newest_slot ob = (ob_head ob + DB_OBSERVER_RING_DEPTH - 1) mod DB_OBSERVER_RING_DEPTH"

text \<open>The walk back over the ring: the slot it stops at, or the last one looked at.\<close>

fun slope_pick :: "db_observer_s \<Rightarrow> nat \<Rightarrow> nat list \<Rightarrow> nat \<Rightarrow> nat" where
  "slope_pick ob newest [] pick = pick"
| "slope_pick ob newest (i # is) pick =
     (let idx = (newest + DB_OBSERVER_RING_DEPTH - i) mod DB_OBSERVER_RING_DEPTH;
          elapsed_us = u64 (sm_t_us (ob_ring ob ! newest) - sm_t_us (ob_ring ob ! idx));
          dx_abs = abs_i64 (i64 (sm_x_mdeg (ob_ring ob ! newest) - sm_x_mdeg (ob_ring ob ! idx))) in
      if elapsed_us \<ge> min_window_us ob \<and> dx_abs \<ge> DB_OBSERVER_MIN_LSB_COUNT * DB_OBSERVER_LSB_MDEG
      then idx else slope_pick ob newest is idx)"

definition v_slope_raw_mdegps :: "db_observer_s \<Rightarrow> int" where
  "v_slope_raw_mdegps ob =
     (if ob_count ob < 2 then 0
      else
        let newest = newest_slot ob;
            pick = slope_pick ob newest [1..<ob_count ob] newest in
        if pick = newest then 0
        else
          let dt = i64 (u64 (sm_t_us (ob_ring ob ! newest) - sm_t_us (ob_ring ob ! pick))) in
          if dt \<le> 0 then 0
          else
            let dx = i64 (sm_x_mdeg (ob_ring ob ! newest) - sm_x_mdeg (ob_ring ob ! pick));
                v0 = cdiv (i64 (dx * 1000000)) dt;
                v1 = (if v0 > INT32_MAX then INT32_MAX else v0);
                v2 = (if v1 < INT32_MIN then INT32_MIN else v1) in
            i32 v2)"

definition apply_zero_hysteresis :: "int \<Rightarrow> db_observer_s \<Rightarrow> int \<times> db_observer_s" where
  "apply_zero_hysteresis v_raw_mdegps ob =
     (let v_abs = u32 (if v_raw_mdegps < 0 then i32 (- v_raw_mdegps) else v_raw_mdegps) in
      if snapped_to_zero ob then
        if v_abs > DB_OBSERVER_V_HYST_HIGH_MDEGPS
        then (v_raw_mdegps, ob\<lparr>snapped_to_zero := False\<rparr>) else (0, ob)
      else if v_abs < DB_OBSERVER_V_HYST_LOW_MDEGPS then (0, ob\<lparr>snapped_to_zero := True\<rparr>)
      else (v_raw_mdegps, ob))"

definition v_slope_mdegps :: "db_observer_s \<Rightarrow> int \<times> db_observer_s" where
  "v_slope_mdegps ob = apply_zero_hysteresis (v_slope_raw_mdegps ob) ob"

definition update_stall :: "int \<Rightarrow> int \<Rightarrow> db_observer_s \<Rightarrow> db_observer_s" where
  "update_stall dt_ms applied_duty_abs ob =
     (let v_abs = u32 (abs_i32 (v_est_mdegps ob)) in
      if v_abs < ob_stall_low_speed_mdegps ob \<and> applied_duty_abs > ob_stall_min_duty ob then
        let streak = u32 (stall_streak_ms ob + dt_ms) in
        if streak \<ge> ob_stall_window_ms ob then ob\<lparr>stall_streak_ms := streak, stalled := True\<rparr>
        else ob\<lparr>stall_streak_ms := streak\<rparr>
      else ob\<lparr>stall_streak_ms := 0, stalled := False\<rparr>)"

definition estimate :: "db_observer_s \<Rightarrow> db_observer_s" where
  "estimate ob = (case v_slope_mdegps ob of (v, ob') \<Rightarrow> ob'\<lparr>v_est_mdegps := v\<rparr>)"

section \<open>Operations\<close>

definition db_observer_init :: "int \<Rightarrow> int \<Rightarrow> int \<Rightarrow> int \<Rightarrow> db_observer_s \<Rightarrow> db_observer_s" where
  "db_observer_init low_speed_mdegps min_duty stall_window window_ms ob =
     ob\<lparr>ob_head := 0, ob_count := 0, v_est_mdegps := 0,
        min_window_us := (if window_ms \<noteq> 0 then window_ms else DB_OBSERVER_DEFAULT_MS) * 1000,
        ob_primed := False, snapped_to_zero := True, ob_stall_low_speed_mdegps := low_speed_mdegps,
        ob_stall_min_duty := min_duty, ob_stall_window_ms := stall_window, stall_streak_ms := 0,
        stalled := False\<rparr>"

definition db_observer_reset :: "int \<Rightarrow> int \<Rightarrow> db_observer_s \<Rightarrow> db_observer_s" where
  "db_observer_reset x_mdeg t_us ob =
     ob\<lparr>v_est_mdegps := 0, ob_primed := True, snapped_to_zero := True, stall_streak_ms := 0,
        stalled := False, ob_ring := (ob_ring ob)[0 := \<lparr>sm_t_us = t_us, sm_x_mdeg = x_mdeg\<rparr>],
        ob_head := 1, ob_count := 1\<rparr>"

definition db_observer_update_sample :: "int \<Rightarrow> int \<Rightarrow> int \<Rightarrow> db_observer_s \<Rightarrow> db_observer_s" where
  "db_observer_update_sample x_mdeg t_us applied_duty_abs ob =
     (if \<not> ob_primed ob then
        ob\<lparr>ob_ring := (ob_ring ob)[0 := \<lparr>sm_t_us = t_us, sm_x_mdeg = x_mdeg\<rparr>],
           ob_head := 1, ob_count := 1, ob_primed := True\<rparr>
      else
        let prev = newest_slot ob in
        if t_us \<le> sm_t_us (ob_ring ob ! prev) then ob
        else
          let ob1 = ob\<lparr>ob_ring := (ob_ring ob)[ob_head ob := \<lparr>sm_t_us = t_us, sm_x_mdeg = x_mdeg\<rparr>],
                       ob_head := (ob_head ob + 1) mod DB_OBSERVER_RING_DEPTH,
                       ob_count := (if ob_count ob < DB_OBSERVER_RING_DEPTH
                                    then ob_count ob + 1 else ob_count ob)\<rparr>;
              ob2 = estimate ob1;
              dt_ms = u32 (u64 (u64 (t_us - sm_t_us (ob_ring ob2 ! prev)) + 500) div 1000) in
          update_stall dt_ms applied_duty_abs ob2)"

definition db_observer_idle_tick :: "int \<Rightarrow> int \<Rightarrow> db_observer_s \<Rightarrow> db_observer_s" where
  "db_observer_idle_tick dt_ms applied_duty_abs ob =
     (if \<not> ob_primed ob then ob else update_stall dt_ms applied_duty_abs (estimate ob))"

definition db_observer_v :: "db_observer_s \<Rightarrow> int" where
  "db_observer_v ob = v_est_mdegps ob"

definition db_observer_is_stalled :: "db_observer_s \<Rightarrow> bool" where
  "db_observer_is_stalled ob = stalled ob"

section \<open>The window of samples\<close>

text \<open>
  The ring as the list of its live entries, newest first, and the representation invariant.
\<close>

definition slot :: "db_observer_s \<Rightarrow> nat \<Rightarrow> nat" where
  "slot ob i = (newest_slot ob + DB_OBSERVER_RING_DEPTH - i) mod DB_OBSERVER_RING_DEPTH"

definition window_view :: "db_observer_s \<Rightarrow> db_observer_sample_s list" where
  "window_view ob = map (\<lambda>i. ob_ring ob ! slot ob i) [0..<ob_count ob]"

definition ob_ok :: "db_observer_s \<Rightarrow> bool" where
  "ob_ok ob \<longleftrightarrow> length (ob_ring ob) = DB_OBSERVER_RING_DEPTH \<and> ob_head ob < DB_OBSERVER_RING_DEPTH \<and>
     ob_count ob \<le> DB_OBSERVER_RING_DEPTH \<and> (ob_primed ob \<longleftrightarrow> 0 < ob_count ob)"

lemma slot_eq:
  assumes "ob_head ob < 128" "i < 128"
  shows "slot ob i = (if i < ob_head ob then ob_head ob - 1 - i else ob_head ob + 127 - i)"
proof (cases "ob_head ob")
  case 0
  then show ?thesis
    using assms by (auto simp: slot_def newest_slot_def DB_OBSERVER_RING_DEPTH_def le_mod_geq)
next
  case (Suc h)
  have "newest_slot ob = h"
    using Suc assms by (simp add: newest_slot_def DB_OBSERVER_RING_DEPTH_def)
  then show ?thesis
    using Suc assms by (auto simp: slot_def DB_OBSERVER_RING_DEPTH_def le_mod_geq)
qed

lemma newest_is_first: "ob_ok ob \<Longrightarrow> 0 < ob_count ob \<Longrightarrow> hd (window_view ob) = ob_ring ob ! newest_slot ob"
  by (simp add: window_view_def hd_map upt_rec [of 0] slot_def newest_slot_def DB_OBSERVER_RING_DEPTH_def)

lemma view_push:
  assumes "ob_ok ob"
    "ob_ring ob' = (ob_ring ob)[ob_head ob := e]"
    "ob_head ob' = (ob_head ob + 1) mod DB_OBSERVER_RING_DEPTH"
    "ob_count ob' = (if ob_count ob < DB_OBSERVER_RING_DEPTH then ob_count ob + 1 else ob_count ob)"
  shows "window_view ob' = take DB_OBSERVER_RING_DEPTH (e # window_view ob)"
proof (rule nth_equalityI)
  have ok: "length (ob_ring ob) = 128" "ob_head ob < 128" "ob_count ob \<le> 128"
    using assms(1) by (auto simp: ob_ok_def DB_OBSERVER_RING_DEPTH_def)
  show "length (window_view ob') = length (take DB_OBSERVER_RING_DEPTH (e # window_view ob))"
    using assms(4) ok by (simp add: window_view_def DB_OBSERVER_RING_DEPTH_def)
  fix i
  assume "i < length (window_view ob')"
  then have i: "i < 128" "i < ob_count ob'"
    using assms(4) ok by (auto simp: window_view_def DB_OBSERVER_RING_DEPTH_def split: if_splits)
  have h': "ob_head ob' < 128" using assms(3) by (simp add: DB_OBSERVER_RING_DEPTH_def)
  have s: "slot ob' i = (if i = 0 then ob_head ob else slot ob (i - 1))"
    using ok i h' assms(3) slot_eq [OF h' i(1)] slot_eq [OF ok(2), of "i - 1"]
    by (auto simp: DB_OBSERVER_RING_DEPTH_def mod_Suc split: if_splits)
  have ne: "slot ob (i - 1) \<noteq> ob_head ob" if "i \<noteq> 0"
    using that i ok(2) slot_eq [OF ok(2), of "i - 1"] by auto
  have "i - 1 < ob_count ob" if "i \<noteq> 0" using that i(2) assms(4) by (auto split: if_splits)
  then show "window_view ob' ! i = take DB_OBSERVER_RING_DEPTH (e # window_view ob) ! i"
    using i ok s ne assms(2)
    by (cases i) (simp_all add: window_view_def DB_OBSERVER_RING_DEPTH_def)
qed

lemma stall_frame [simp]:
  "ob_ring (update_stall dt duty ob) = ob_ring ob" "ob_head (update_stall dt duty ob) = ob_head ob"
  "ob_count (update_stall dt duty ob) = ob_count ob" "ob_primed (update_stall dt duty ob) = ob_primed ob"
  "v_est_mdegps (update_stall dt duty ob) = v_est_mdegps ob"
  "snapped_to_zero (update_stall dt duty ob) = snapped_to_zero ob"
  "min_window_us (update_stall dt duty ob) = min_window_us ob"
  by (simp_all add: update_stall_def Let_def)

lemma estimate_frame [simp]:
  "ob_ring (estimate ob) = ob_ring ob" "ob_head (estimate ob) = ob_head ob"
  "ob_count (estimate ob) = ob_count ob" "ob_primed (estimate ob) = ob_primed ob"
  "min_window_us (estimate ob) = min_window_us ob"
  "ob_stall_min_duty (estimate ob) = ob_stall_min_duty ob"
  "ob_stall_window_ms (estimate ob) = ob_stall_window_ms ob"
  "ob_stall_low_speed_mdegps (estimate ob) = ob_stall_low_speed_mdegps ob"
  "stall_streak_ms (estimate ob) = stall_streak_ms ob" "stalled (estimate ob) = stalled ob"
  by (simp_all add: estimate_def v_slope_mdegps_def apply_zero_hysteresis_def Let_def split: prod.splits)

text \<open>The specification: the accepted samples, newest first. A sample is accepted when it is newer.\<close>

definition accept :: "db_observer_sample_s \<Rightarrow> db_observer_sample_s list \<Rightarrow> db_observer_sample_s list" where
  "accept e acc = (if acc \<noteq> [] \<and> sm_t_us e \<le> sm_t_us (hd acc) then acc else e # acc)"

lemma view_single:
  assumes "length (ob_ring ob) = DB_OBSERVER_RING_DEPTH" "ob_ring ob' = (ob_ring ob)[0 := e]"
    "ob_head ob' = 1" "ob_count ob' = 1"
  shows "window_view ob' = [e]"
  using assms by (simp add: window_view_def slot_def newest_slot_def DB_OBSERVER_RING_DEPTH_def)

lemma update_refines:
  assumes "ob_ok ob" "window_view ob = take DB_OBSERVER_RING_DEPTH acc" "ob_count ob = 0 \<Longrightarrow> acc = []"
  shows "ob_ok (db_observer_update_sample x t duty ob)"
    and "window_view (db_observer_update_sample x t duty ob) =
      take DB_OBSERVER_RING_DEPTH (accept \<lparr>sm_t_us = t, sm_x_mdeg = x\<rparr> acc)"
    and "ob_count (db_observer_update_sample x t duty ob) \<noteq> 0"
proof -
  let ?e = "\<lparr>sm_t_us = t, sm_x_mdeg = x\<rparr>" and ?ob' = "db_observer_update_sample x t duty ob"
  have D: "DB_OBSERVER_RING_DEPTH = 128" by (simp add: DB_OBSERVER_RING_DEPTH_def)
  have ok: "length (ob_ring ob) = 128" "ob_head ob < 128" "ob_count ob \<le> 128"
    "ob_primed ob \<longleftrightarrow> 0 < ob_count ob" using assms(1) by (auto simp: ob_ok_def D)
  have "ob_ok ?ob' \<and> window_view ?ob' = take DB_OBSERVER_RING_DEPTH (accept ?e acc) \<and> ob_count ?ob' \<noteq> 0"
  proof (cases "ob_primed ob")
    case False
    then have "acc = []" using assms(3) ok(4) by simp
    moreover have "window_view ?ob' = [?e]"
      by (rule view_single [of ob]) (use False ok in \<open>simp_all add: db_observer_update_sample_def D\<close>)
    ultimately show ?thesis
      using False ok by (simp add: accept_def ob_ok_def db_observer_update_sample_def D)
  next
    case True
    have ne: "window_view ob \<noteq> []" using True ok(4) by (simp add: window_view_def)
    then have hd: "hd (window_view ob) = hd acc" "acc \<noteq> []"
      using assms(2) by (cases acc; simp add: D)+
    have prev: "ob_ring ob ! newest_slot ob = hd acc"
      using newest_is_first [OF assms(1)] True ok(4) hd by simp
    show ?thesis
    proof (cases "t \<le> sm_t_us (hd acc)")
      case le: True
      then have "?ob' = ob" using True prev by (simp add: db_observer_update_sample_def Let_def)
      then show ?thesis using le hd assms True ok(4) by (simp add: accept_def)
    next
      case gt: False
      have "window_view ?ob' = take DB_OBSERVER_RING_DEPTH (?e # window_view ob)"
        by (rule view_push [OF assms(1)])
          (use True gt prev in \<open>simp_all add: db_observer_update_sample_def Let_def\<close>)
      then have "window_view ?ob' = take DB_OBSERVER_RING_DEPTH (accept ?e acc)"
        using gt assms(2) by (simp add: accept_def D)
      moreover have "ob_ok ?ob' \<and> ob_count ?ob' \<noteq> 0"
        using True gt prev ok by (simp add: db_observer_update_sample_def Let_def ob_ok_def D)
      ultimately show ?thesis by simp
    qed
  qed
  then show "ob_ok ?ob'" "window_view ?ob' = take DB_OBSERVER_RING_DEPTH (accept ?e acc)"
    "ob_count ?ob' \<noteq> 0" by auto
qed

section \<open>Histories\<close>

datatype observer_op = Ob_Sample int int int | Ob_Idle int int | Ob_Reset int int

fun observer_step :: "observer_op \<Rightarrow> db_observer_s \<Rightarrow> db_observer_s" where
  "observer_step (Ob_Sample x t duty) ob = db_observer_update_sample x t duty ob"
| "observer_step (Ob_Idle dt duty) ob = db_observer_idle_tick dt duty ob"
| "observer_step (Ob_Reset x t) ob = db_observer_reset x t ob"

fun accepted_step :: "observer_op \<Rightarrow> db_observer_sample_s list \<Rightarrow> db_observer_sample_s list" where
  "accepted_step (Ob_Sample x t duty) acc = accept \<lparr>sm_t_us = t, sm_x_mdeg = x\<rparr> acc"
| "accepted_step (Ob_Idle dt duty) acc = acc"
| "accepted_step (Ob_Reset x t) acc = [\<lparr>sm_t_us = t, sm_x_mdeg = x\<rparr>]"

definition ob_rel :: "db_observer_s \<Rightarrow> db_observer_sample_s list \<Rightarrow> bool" where
  "ob_rel ob acc \<longleftrightarrow> ob_ok ob \<and> window_view ob = take DB_OBSERVER_RING_DEPTH acc \<and>
     (ob_count ob = 0 \<longrightarrow> acc = []) \<and> sorted_wrt (\<lambda>a b. sm_t_us a > sm_t_us b) acc"

lemma accept_sorted:
  "sorted_wrt (\<lambda>a b. sm_t_us a > sm_t_us b) acc \<Longrightarrow> sorted_wrt (\<lambda>a b. sm_t_us a > sm_t_us b) (accept e acc)"
  by (cases acc) (auto simp: accept_def)

lemma view_cong:
  "ob_ring ob' = ob_ring ob \<Longrightarrow> ob_head ob' = ob_head ob \<Longrightarrow> ob_count ob' = ob_count ob \<Longrightarrow>
   window_view ob' = window_view ob"
  by (simp add: window_view_def slot_def newest_slot_def)

lemma step_refines:
  assumes "ob_rel ob acc"
  shows "ob_rel (observer_step op ob) (accepted_step op acc)"
proof (cases op)
  case (Ob_Sample x t duty)
  then show ?thesis
    using assms update_refines [of ob acc x t duty] accept_sorted by (simp add: ob_rel_def)
next
  case (Ob_Idle dt duty)
  have "window_view (db_observer_idle_tick dt duty ob) = window_view ob"
    by (rule view_cong) (simp_all add: db_observer_idle_tick_def)
  then show ?thesis using assms Ob_Idle by (simp add: ob_rel_def ob_ok_def db_observer_idle_tick_def)
next
  case (Ob_Reset x t)
  have "window_view (db_observer_reset x t ob) = [\<lparr>sm_t_us = t, sm_x_mdeg = x\<rparr>]"
    by (rule view_single [of ob]) (use assms in \<open>simp_all add: ob_rel_def ob_ok_def db_observer_reset_def\<close>)
  then show ?thesis
    using assms Ob_Reset by (simp add: ob_rel_def ob_ok_def db_observer_reset_def DB_OBSERVER_RING_DEPTH_def)
qed

lemma run_refines:
  "ob_rel ob acc \<Longrightarrow> ob_rel (fold observer_step ops ob) (fold accepted_step ops acc)"
  by (induction ops arbitrary: ob acc) (simp_all add: step_refines)

lemma init_rel:
  "length (ob_ring ob) = DB_OBSERVER_RING_DEPTH \<Longrightarrow> ob_rel (db_observer_init lo md sw wm ob) []"
  by (simp add: ob_rel_def ob_ok_def db_observer_init_def window_view_def DB_OBSERVER_RING_DEPTH_def)

text \<open>
  C23. The ring refines the sequence of samples: after any history of samples, idle ticks and resets it
  holds exactly the newest accepted samples since the last reset, at most 128 of them, newest first,
  with strictly decreasing time stamps; a sample that is not newer than its predecessor is ignored.
\<close>

theorem observer_holds_newest_samples:
  assumes "length (ob_ring ob) = DB_OBSERVER_RING_DEPTH"
  shows "let ob' = fold observer_step ops (db_observer_init low_speed min_duty stall_window window_ms ob) in
     window_view ob' = take DB_OBSERVER_RING_DEPTH (fold accepted_step ops []) \<and>
     sorted_wrt (\<lambda>a b. sm_t_us a > sm_t_us b) (window_view ob')"
proof -
  have "ob_rel (fold observer_step ops (db_observer_init low_speed min_duty stall_window window_ms ob))
      (fold accepted_step ops [])"
    by (rule run_refines [OF init_rel [OF assms]])
  then show ?thesis by (simp add: ob_rel_def Let_def sorted_wrt_take)
qed

definition blank_observer :: db_observer_s where
  "blank_observer =
     \<lparr>ob_ring = replicate DB_OBSERVER_RING_DEPTH \<lparr>sm_t_us = 0, sm_x_mdeg = 0\<rparr>, ob_head = 0, ob_count = 0,
      v_est_mdegps = 0, min_window_us = 0, ob_primed = False, snapped_to_zero = False,
      ob_stall_low_speed_mdegps = 0, ob_stall_min_duty = 0, ob_stall_window_ms = 0,
      stall_streak_ms = 0, stalled = False\<rparr>"

theorem observer_holds_newest_samples_witness:
  "let ob' = fold observer_step [Ob_Sample 0 1000 0, Ob_Sample 7 900 0, Ob_Idle 1 0, Ob_Sample 3000 2000 0]
               (db_observer_init 30000 6000 200 30 blank_observer) in
   window_view ob' =
     take DB_OBSERVER_RING_DEPTH [\<lparr>sm_t_us = 2000, sm_x_mdeg = 3000\<rparr>, \<lparr>sm_t_us = 1000, sm_x_mdeg = 0\<rparr>] \<and>
   sorted_wrt (\<lambda>a b. sm_t_us a > sm_t_us b) (window_view ob')"
  using observer_holds_newest_samples [of blank_observer
      "[Ob_Sample 0 1000 0, Ob_Sample 7 900 0, Ob_Idle 1 0, Ob_Sample 3000 2000 0]" 30000 6000 200 30]
  by (simp add: blank_observer_def accept_def)

section \<open>The estimate\<close>

lemma slope_pick_newest:
  assumes "ob_ok ob" "1 < ob_count ob"
  shows "\<exists>k. 0 < k \<and> k < ob_count ob \<and>
    slope_pick ob (newest_slot ob) [1..<ob_count ob] (newest_slot ob) = slot ob k"
proof -
  have ls: "\<exists>k. 0 < k \<and> k < ob_count ob \<and> slope_pick ob (newest_slot ob) is p = slot ob k"
    if "is \<noteq> []" "list_all (\<lambda>i. 0 < i \<and> i < ob_count ob) is" for "is" p
    using that
  proof (induction "is" arbitrary: p)
    case (Cons i "is")
    then show ?case by (cases "is = []") (auto simp: Let_def slot_def)
  qed simp
  show ?thesis using assms(2) by (intro ls) (auto simp: list_all_iff)
qed

lemma slope_on_line:
  assumes "ob_rel ob acc" "2 \<le> ob_count ob" "\<bar>v\<bar> \<le> 2147483647"
    "list_all (\<lambda>e. (sm_x_mdeg (hd (window_view ob)) - sm_x_mdeg e) * 1000000 =
                   v * (sm_t_us (hd (window_view ob)) - sm_t_us e) \<and> 0 \<le> sm_t_us e \<and>
                   \<bar>sm_x_mdeg (hd (window_view ob)) - sm_x_mdeg e\<bar> \<le> 9000000000000) (window_view ob)"
    "sm_t_us (hd (window_view ob)) < 2 ^ 63"
  shows "v_slope_raw_mdegps ob = v"
proof -
  let ?new = "ob_ring ob ! newest_slot ob"
  have ok: "ob_ok ob" using assms(1) by (simp add: ob_rel_def)
  have hd: "hd (window_view ob) = ?new" using newest_is_first [OF ok] assms(2) by simp
  obtain k where k: "0 < k" "k < ob_count ob"
    "slope_pick ob (newest_slot ob) [1..<ob_count ob] (newest_slot ob) = slot ob k"
    using slope_pick_newest [OF ok] assms(2) by auto
  have D: "ob_head ob < 128" "ob_count ob \<le> 128" using ok by (auto simp: ob_ok_def DB_OBSERVER_RING_DEPTH_def)
  have "slot ob 0 = newest_slot ob" by (simp add: slot_def newest_slot_def)
  moreover have "slot ob k \<noteq> slot ob 0"
    using slot_eq [OF D(1), of k] slot_eq [OF D(1), of 0] k D by auto
  ultimately have ne: "slot ob k \<noteq> newest_slot ob" by simp
  let ?e = "ob_ring ob ! slot ob k"
  have ek: "window_view ob ! k = ?e" "window_view ob ! 0 = ?new"
    using k \<open>slot ob 0 = newest_slot ob\<close> by (simp_all add: window_view_def)
  have len: "length (window_view ob) = ob_count ob" by (simp add: window_view_def)
  have e: "(sm_x_mdeg ?new - sm_x_mdeg ?e) * 1000000 = v * (sm_t_us ?new - sm_t_us ?e)" "0 \<le> sm_t_us ?e"
    "\<bar>sm_x_mdeg ?new - sm_x_mdeg ?e\<bar> \<le> 9000000000000"
    using assms(4) k(2) ek len by (auto simp: list_all_length hd)
  have "sorted_wrt (\<lambda>a b. sm_t_us a > sm_t_us b) (window_view ob)"
    using assms(1) by (simp add: ob_rel_def sorted_wrt_take)
  then have lt: "sm_t_us ?e < sm_t_us ?new"
    using sorted_wrt_nth_less [of _ "window_view ob" 0 k] k ek len by simp
  let ?dt = "sm_t_us ?new - sm_t_us ?e" and ?dx = "sm_x_mdeg ?new - sm_x_mdeg ?e"
  have dt: "i64 (u64 ?dt) = ?dt" using lt e(2) assms(5) hd by (simp add: u64_id i64_id)
  have dx: "i64 ?dx = ?dx" "i64 (?dx * 1000000) = v * ?dt"
    using e(3) unfolding e(1) [symmetric] by (auto intro!: i64_id)
  have "cdiv (v * ?dt) ?dt = v" using lt by (simp add: cdiv_mult_self)
  moreover have "-2147483648 \<le> v" "v \<le> 2147483647" using assms(3) by auto
  ultimately show ?thesis
    using assms(2) ne k(3) lt dt dx
    by (simp add: v_slope_raw_mdegps_def Let_def INT32_MAX_def INT32_MIN_def i32_id)
qed

definition on_line :: "int \<Rightarrow> int \<Rightarrow> int \<Rightarrow> db_observer_sample_s \<Rightarrow> bool" where
  "on_line x0 t0 v e \<longleftrightarrow> (sm_x_mdeg e - x0) * 1000000 = v * (sm_t_us e - t0) \<and>
     0 \<le> sm_t_us e \<and> sm_t_us e < 2 ^ 63 \<and> \<bar>sm_x_mdeg e\<bar> \<le> 4500000000000"

lemma on_line_diff:
  assumes "on_line x0 t0 v a" "on_line x0 t0 v b"
  shows "(sm_x_mdeg a - sm_x_mdeg b) * 1000000 = v * (sm_t_us a - sm_t_us b) \<and> 0 \<le> sm_t_us b \<and>
    \<bar>sm_x_mdeg a - sm_x_mdeg b\<bar> \<le> 9000000000000"
proof -
  have "(sm_x_mdeg a - x0) * 1000000 - (sm_x_mdeg b - x0) * 1000000 =
      v * (sm_t_us a - t0) - v * (sm_t_us b - t0)" using assms by (simp add: on_line_def)
  then have "(sm_x_mdeg a - sm_x_mdeg b) * 1000000 = v * (sm_t_us a - sm_t_us b)" by (simp add: algebra_simps)
  moreover have "\<bar>sm_x_mdeg a\<bar> \<le> 4500000000000" "\<bar>sm_x_mdeg b\<bar> \<le> 4500000000000" "0 \<le> sm_t_us b"
    using assms by (auto simp: on_line_def)
  moreover from calculation(2,3) have "\<bar>sm_x_mdeg a - sm_x_mdeg b\<bar> \<le> 9000000000000" by linarith
  ultimately show ?thesis by blast
qed

text \<open>
  Fact. The estimate is exact on uniform motion: when the motor turns at a constant speed \<open>v\<close>, so that all
  accepted samples lie on one line, the slope computed from whichever sample the adaptive window selects
  is \<open>v\<close>.
\<close>

theorem observer_exact_on_uniform_motion:
  assumes "length (ob_ring ob) = DB_OBSERVER_RING_DEPTH" "\<bar>v\<bar> \<le> 2147483647"
    "list_all (on_line x0 t0 v) (fold accepted_step ops [])" "2 \<le> length (fold accepted_step ops [])"
  shows "v_slope_raw_mdegps
     (fold observer_step ops (db_observer_init low_speed min_duty stall_window window_ms ob)) = v"
proof -
  let ?ob = "fold observer_step ops (db_observer_init low_speed min_duty stall_window window_ms ob)"
  let ?acc = "fold accepted_step ops []"
  have rel: "ob_rel ?ob ?acc" by (rule run_refines [OF init_rel [OF assms(1)]])
  then have view: "window_view ?ob = take 128 ?acc" by (simp add: ob_rel_def DB_OBSERVER_RING_DEPTH_def)
  have "length (window_view ?ob) = ob_count ?ob" by (simp add: window_view_def)
  then have cnt: "2 \<le> ob_count ?ob" using view assms(4) by (simp add: min_def split: if_splits)
  have line: "on_line x0 t0 v e" if "e \<in> set (window_view ?ob)" for e
    using that assms(3) view by (auto simp: list_all_iff dest: in_set_takeD)
  have "window_view ?ob \<noteq> []" using cnt by (auto simp: window_view_def)
  then have hd: "on_line x0 t0 v (hd (window_view ?ob))" using line hd_in_set by blast
  show ?thesis
  proof (rule slope_on_line [OF rel cnt assms(2)])
    show "sm_t_us (hd (window_view ?ob)) < 2 ^ 63" using hd by (simp add: on_line_def)
  qed (unfold list_all_iff, use on_line_diff [OF hd] line in blast)
qed

theorem observer_exact_on_uniform_motion_witness:
  "v_slope_raw_mdegps
     (fold observer_step [Ob_Sample 0 1000 0, Ob_Sample (- 2000) 11000 0, Ob_Sample (- 8000) 41000 0]
       (db_observer_init 30000 6000 200 30 blank_observer)) = - 200000"
  by (rule observer_exact_on_uniform_motion [where ?x0.0 = 0 and ?t0.0 = 1000])
    (simp_all add: blank_observer_def accept_def on_line_def)

section \<open>Zero-speed hysteresis\<close>

definition banded :: "db_observer_s \<Rightarrow> bool" where
  "banded ob \<longleftrightarrow> (v_est_mdegps ob = 0 \<or> 30000 \<le> \<bar>v_est_mdegps ob\<bar>) \<and> \<bar>v_est_mdegps ob\<bar> \<le> 2147483648 \<and>
     (snapped_to_zero ob \<longrightarrow> v_est_mdegps ob = 0)"

lemma raw_range: "-2147483648 \<le> v_slope_raw_mdegps ob" "v_slope_raw_mdegps ob \<le> 2147483647"
  by (simp_all add: v_slope_raw_mdegps_def Let_def i32_range)

lemma raw_magnitude:
  "-2147483648 \<le> v \<Longrightarrow> v \<le> 2147483647 \<Longrightarrow> u32 (if v < 0 then i32 (- v) else v) = \<bar>v\<bar>"
  by (cases "v = -2147483648") (simp_all add: i32_id u32_id wrap_s_def wrap_u_def)

lemma estimate_banded: "banded (estimate ob)"
  using raw_range [of ob]
  by (auto simp: banded_def estimate_def v_slope_mdegps_def apply_zero_hysteresis_def raw_magnitude Let_def
      DB_OBSERVER_V_HYST_LOW_MDEGPS_def DB_OBSERVER_V_HYST_HIGH_MDEGPS_def)

lemma stall_banded [simp]: "banded (update_stall dt duty ob) = banded ob"
  by (simp add: banded_def)

lemma step_banded: "banded ob \<Longrightarrow> banded (observer_step op ob)"
  using estimate_banded
  by (cases op) (auto simp: db_observer_update_sample_def db_observer_idle_tick_def db_observer_reset_def
      Let_def banded_def)

text \<open>
  Fact. The reported speed never chatters around rest: after any history it is either exactly zero or at
  least 30 degrees per second, it is zero while the hysteresis is engaged, and it fits its 32-bit type.
\<close>

theorem observer_speed_outside_zero_band:
  "let ob' = fold observer_step ops (db_observer_init low_speed min_duty stall_window window_ms ob) in
   (if snapped_to_zero ob' then db_observer_v ob' = 0
    else db_observer_v ob' = 0 \<or> DB_OBSERVER_V_HYST_LOW_MDEGPS \<le> \<bar>db_observer_v ob'\<bar>) \<and>
   \<bar>db_observer_v ob'\<bar> \<le> 2 ^ 31"
proof -
  have "banded (fold observer_step ops b)" if "banded b" for b
    using that by (induction ops arbitrary: b) (simp_all add: step_banded)
  from this [of "db_observer_init low_speed min_duty stall_window window_ms ob"] show ?thesis
    by (simp add: banded_def db_observer_init_def Let_def db_observer_v_def DB_OBSERVER_V_HYST_LOW_MDEGPS_def)
qed

section \<open>Stall detection\<close>

definition at_rest :: "db_observer_s \<Rightarrow> bool" where
  "at_rest ob \<longleftrightarrow> ob_primed ob \<and> snapped_to_zero ob \<and>
     \<bar>v_slope_raw_mdegps ob\<bar> \<le> DB_OBSERVER_V_HYST_HIGH_MDEGPS \<and> 0 < ob_stall_low_speed_mdegps ob"

lemma raw_frame:
  assumes "ob_ring ob' = ob_ring ob" "ob_head ob' = ob_head ob" "ob_count ob' = ob_count ob"
    "min_window_us ob' = min_window_us ob"
  shows "v_slope_raw_mdegps ob' = v_slope_raw_mdegps ob"
proof -
  have "slope_pick ob' n is p = slope_pick ob n is p" for n "is" p
    using assms by (induction "is" arbitrary: p) (simp_all add: Let_def)
  then show ?thesis unfolding v_slope_raw_mdegps_def newest_slot_def Let_def assms by (simp only: )
qed

lemma idle_at_rest:
  fixes duty :: int
  assumes "at_rest ob" "0 \<le> dt" "0 \<le> stall_streak_ms ob" "stall_streak_ms ob + dt < 2 ^ 32"
  defines "ob' \<equiv> db_observer_idle_tick dt duty ob"
  shows "at_rest ob'" and "ob_stall_min_duty ob' = ob_stall_min_duty ob"
    and "ob_stall_window_ms ob' = ob_stall_window_ms ob"
    and "ob_stall_min_duty ob < duty \<Longrightarrow> stall_streak_ms ob' = stall_streak_ms ob + dt"
    and "ob_stall_min_duty ob < duty \<Longrightarrow>
      stalled ob' = (stalled ob \<or> ob_stall_window_ms ob \<le> stall_streak_ms ob + dt)"
    and "\<not> ob_stall_min_duty ob < duty \<Longrightarrow> \<not> stalled ob'"
proof -
  have r: "ob_primed ob" "snapped_to_zero ob" "\<bar>v_slope_raw_mdegps ob\<bar> \<le> 60000" "0 < ob_stall_low_speed_mdegps ob"
    using assms(1) by (auto simp: at_rest_def DB_OBSERVER_V_HYST_HIGH_MDEGPS_def)
  have est: "estimate ob = ob\<lparr>v_est_mdegps := 0\<rparr>"
    using r raw_range [of ob] raw_magnitude [of "v_slope_raw_mdegps ob"]
    by (simp add: estimate_def v_slope_mdegps_def apply_zero_hysteresis_def Let_def
        DB_OBSERVER_V_HYST_HIGH_MDEGPS_def)
  have z: "u32 (abs_i32 0) = 0" by (simp add: abs_i32_def wrap_u_def)
  have ob': "ob' = update_stall dt duty (ob\<lparr>v_est_mdegps := 0\<rparr>)"
    using r(1) by (simp add: ob'_def db_observer_idle_tick_def est)
  have u: "u32 (stall_streak_ms ob + dt) = stall_streak_ms ob + dt" using assms(2-4) by (intro u32_id) auto
  have "v_slope_raw_mdegps ob' = v_slope_raw_mdegps ob" by (rule raw_frame) (simp_all add: ob')
  moreover have "ob_stall_low_speed_mdegps ob' = ob_stall_low_speed_mdegps ob"
    by (simp add: ob' update_stall_def Let_def)
  ultimately show "at_rest ob'" using assms(1) by (simp add: at_rest_def ob')
  show "ob_stall_min_duty ob' = ob_stall_min_duty ob" "ob_stall_window_ms ob' = ob_stall_window_ms ob"
    by (simp_all add: ob' update_stall_def Let_def)
  show "ob_stall_min_duty ob < duty \<Longrightarrow> stall_streak_ms ob' = stall_streak_ms ob + dt"
    "ob_stall_min_duty ob < duty \<Longrightarrow>
      stalled ob' = (stalled ob \<or> ob_stall_window_ms ob \<le> stall_streak_ms ob + dt)"
    "\<not> ob_stall_min_duty ob < duty \<Longrightarrow> \<not> stalled ob'"
    using r(4) u z by (auto simp: ob' update_stall_def Let_def)
qed

text \<open>
  Fact. A motor at rest under a duty above the threshold is reported stalled exactly once the ticks add up
  to the stall window, and one tick with the duty back at or below the threshold clears the report.
\<close>

theorem observer_stall_after_window:
  assumes "at_rest ob" "stall_streak_ms ob = 0" "\<not> stalled ob" "dts \<noteq> []" "list_all (\<lambda>dt. 0 \<le> dt) dts"
    "sum_list dts + dt' < 2 ^ 32" "0 \<le> dt'" "ob_stall_min_duty ob < duty" "duty' \<le> ob_stall_min_duty ob"
  shows "let ob' = fold (\<lambda>dt. db_observer_idle_tick dt duty) dts ob in
     db_observer_is_stalled ob' = (ob_stall_window_ms ob \<le> sum_list dts) \<and>
     \<not> db_observer_is_stalled (db_observer_idle_tick dt' duty' ob')"
proof -
  have run: "at_rest (fold (\<lambda>dt. db_observer_idle_tick dt duty) ts b) \<and>
      ob_stall_min_duty (fold (\<lambda>dt. db_observer_idle_tick dt duty) ts b) = ob_stall_min_duty b \<and>
      stall_streak_ms (fold (\<lambda>dt. db_observer_idle_tick dt duty) ts b) = stall_streak_ms b + sum_list ts \<and>
      (ts \<noteq> [] \<longrightarrow> stalled (fold (\<lambda>dt. db_observer_idle_tick dt duty) ts b) =
         (stalled b \<or> ob_stall_window_ms b \<le> stall_streak_ms b + sum_list ts))"
    if "list_all (\<lambda>dt. 0 \<le> dt) ts" "at_rest b" "0 \<le> stall_streak_ms b"
      "stall_streak_ms b + sum_list ts < 2 ^ 32" "ob_stall_min_duty b < duty" for ts b
    using that
  proof (induction ts arbitrary: b)
    case (Cons t ts)
    have nn: "0 \<le> t" "0 \<le> sum_list ts"
      using Cons.prems(1) by (auto intro!: sum_list_nonneg simp: list_all_iff)
    note st = idle_at_rest [OF Cons.prems(2) nn(1) Cons.prems(3), of duty]
    show ?case
      using Cons.IH [of "db_observer_idle_tick t duty b"] Cons.prems st nn by (cases ts) auto
  qed simp
  let ?ob' = "fold (\<lambda>dt. db_observer_idle_tick dt duty) dts ob"
  have nn: "0 \<le> sum_list dts" using assms(5) by (auto intro!: sum_list_nonneg simp: list_all_iff)
  then have r: "at_rest ?ob'" "ob_stall_min_duty ?ob' = ob_stall_min_duty ob" "stall_streak_ms ?ob' = sum_list dts"
    "stalled ?ob' = (ob_stall_window_ms ob \<le> sum_list dts)"
    using run [of dts ob] assms by auto
  have "\<not> stalled (db_observer_idle_tick dt' duty' ?ob')"
    using idle_at_rest(6) [OF r(1) assms(7), of duty'] r(2,3) nn assms(6,9) by simp
  then show ?thesis using r(4) by (simp add: Let_def db_observer_is_stalled_def)
qed

definition demo_resting :: db_observer_s where
  "demo_resting = db_observer_update_sample 0 1000 0 (db_observer_init 30000 6000 200 30 blank_observer)"

theorem observer_stall_after_window_witness:
  "let ob' = fold (\<lambda>dt. db_observer_idle_tick dt 8000) [100, 100] demo_resting in
   db_observer_is_stalled ob' = (200 \<le> sum_list [100, 100 :: int]) \<and>
   \<not> db_observer_is_stalled (db_observer_idle_tick 2 0 ob')"
proof -
  have w: "ob_stall_window_ms demo_resting = 200" by code_simp
  show ?thesis
    unfolding w [symmetric]
    by (rule observer_stall_after_window) (simp | code_simp)+
qed

end
