(* ===== verification/Db_Angle.thy ===== *)
theory Db_Angle
  imports Prelude
begin

text \<open>
  Angle and length conversions of the drivebase, \<^verbatim>\<open>apps/drivebase/drivebase_angle.h\<close>: motor angles in
  milli-degrees, lengths in millimetres, geometry in micrometres, \<open>\<pi>\<close> as \<open>355 / 113\<close>. The theorems show
  that the rounding division is a nearest-integer division and that converting millimetres to angle
  and back is the identity for every wheel from 10 micrometres to 50 metres.
\<close>

definition DB_PI_NUM :: int where "DB_PI_NUM = 355"
definition DB_PI_DEN :: int where "DB_PI_DEN = 113"

definition db_angle_deg_to_mdeg :: "int \<Rightarrow> int" where
  "db_angle_deg_to_mdeg deg = i64 (deg * 1000)"

definition db_angle_mdeg_to_deg :: "int \<Rightarrow> int" where
  "db_angle_mdeg_to_deg mdeg =
     (if mdeg \<ge> 0 then i32 (cdiv (i64 (mdeg + 500)) 1000) else i32 (cdiv (i64 (mdeg - 500)) 1000))"

definition db_angle_div_round :: "int \<Rightarrow> int \<Rightarrow> int" where
  "db_angle_div_round num den =
     (if num \<ge> 0 then cdiv (i64 (num + cdiv den 2)) den else cdiv (i64 (num - cdiv den 2)) den)"

definition db_angle_mdeg_to_mm :: "int \<Rightarrow> int \<Rightarrow> int" where
  "db_angle_mdeg_to_mm mdeg wheel_d_um =
     (let pi_mdeg = db_angle_div_round (i64 (mdeg * DB_PI_NUM)) DB_PI_DEN;
          num = i64 (pi_mdeg * wheel_d_um) in
      i32 (db_angle_div_round num 360000000))"

definition db_angle_mm_to_mdeg :: "int \<Rightarrow> int \<Rightarrow> int" where
  "db_angle_mm_to_mdeg mm wheel_d_um =
     (if wheel_d_um = 0 then 0
      else
        let pi_mm = db_angle_div_round (i64 (mm * 360000000)) wheel_d_um in
        db_angle_div_round (i64 (pi_mm * DB_PI_DEN)) DB_PI_NUM)"

definition db_angle_mdegps_to_mmps :: "int \<Rightarrow> int \<Rightarrow> int" where
  "db_angle_mdegps_to_mmps mdegps wheel_d_um = db_angle_mdeg_to_mm mdegps wheel_d_um"

definition db_angle_mmps_to_mdegps :: "int \<Rightarrow> int \<Rightarrow> int" where
  "db_angle_mmps_to_mdegps mmps wheel_d_um =
     (let mdeg = db_angle_mm_to_mdeg mmps wheel_d_um in
      if mdeg > INT32_MAX then INT32_MAX
      else if mdeg < INT32_MIN then INT32_MIN
      else i32 mdeg)"

definition db_angle_heading_mdeg_to_state_mdeg :: "int \<Rightarrow> int \<Rightarrow> int \<Rightarrow> int" where
  "db_angle_heading_mdeg_to_state_mdeg heading_mdeg wheel_d_um axle_t_um =
     (if wheel_d_um = 0 then 0 else cdiv (i64 (heading_mdeg * axle_t_um)) wheel_d_um)"

section \<open>Rounding\<close>

text \<open>
  Rounding to nearest: the quotient is off by at most half the divisor. Halves round away from zero,
  so the division is odd in its first argument.
\<close>

lemma div_round_eq:
  assumes "0 < den" "\<bar>num\<bar> + den < 2 ^ 63"
  shows "db_angle_div_round num den =
     (if num \<ge> 0 then (num + den div 2) div den else - ((- num + den div 2) div den))"
proof -
  have "cdiv den 2 = den div 2" using assms(1) by (simp add: cdiv_nonneg)
  moreover have "i64 (num + den div 2) = num + den div 2" if "num \<ge> 0"
    using that assms by (intro i64_id) auto
  moreover have "i64 (num - den div 2) = - (- num + den div 2)" if "num < 0"
    using that assms by (subst i64_id) (auto simp: algebra_simps)
  moreover have "cdiv (num - den div 2) den = - ((- num + den div 2) div den)" if "num < 0"
  proof -
    have "num - den div 2 < 0" using that assms(1) by auto
    then show ?thesis using cdiv_neg [of "num - den div 2" den] assms(1) by simp
  qed
  ultimately show ?thesis using assms(1)
    by (cases "0 \<le> num") (simp_all add: db_angle_div_round_def cdiv_nonneg)
qed

lemma div_half: "0 < den \<Longrightarrow> 2 * (den div 2) \<le> den \<and> den \<le> 2 * (den div 2) + (1::int)"
  by auto

lemma div_round_nearest:
  assumes "0 < den" "\<bar>num\<bar> + den < 2 ^ 63"
  shows "2 * \<bar>num - den * db_angle_div_round num den\<bar> \<le> den"
proof -
  have *: "2 * \<bar>x - den * ((x + den div 2) div den)\<bar> \<le> den" for x
  proof -
    let ?q = "(x + den div 2) div den"
    have "?q * den \<le> x + den div 2" "x + den div 2 < (?q + 1) * den"
      using assms(1) int_mult_div_le [of den "x + den div 2"]
        int_div_less_iff [of den "x + den div 2" "?q + 1"] by simp_all
    then show ?thesis using div_half [OF assms(1)] by (auto simp: algebra_simps abs_if)
  qed
  show ?thesis
    using * [of num] * [of "- num"]
    by (cases "0 \<le> num") (simp_all add: div_round_eq [OF assms] abs_if split: if_splits)
qed

lemma div_round_odd:
  assumes "0 < den" "\<bar>num\<bar> + den < 2 ^ 63"
  shows "db_angle_div_round (- num) den = - db_angle_div_round num den"
proof -
  have "den div 2 div den = 0" using assms(1) by (intro div_pos_pos_trivial) auto
  then show ?thesis using assms by (auto simp: div_round_eq)
qed

text \<open>
  Fact. The rounding division is exact to half a unit and symmetric: whatever the sign of the
  numerator, the error is at most half the divisor, and negating the numerator negates the result.
\<close>

theorem div_round_correct:
  assumes "0 < den" "\<bar>num\<bar> + den < 2 ^ 63"
  shows "2 * \<bar>num - den * db_angle_div_round num den\<bar> \<le> den \<and>
    db_angle_div_round (- num) den = - db_angle_div_round num den"
  using div_round_nearest [OF assms] div_round_odd [OF assms] by blast

theorem div_round_correct_witness:
  "2 * \<bar>(- 7) - 2 * db_angle_div_round (- 7) 2\<bar> \<le> 2 \<and>
   db_angle_div_round (- (- 7)) 2 = - db_angle_div_round (- 7) 2"
  by (rule div_round_correct) simp_all

section \<open>Round trips\<close>

lemma deg_mdeg_deg:
  assumes "in_s 32 deg"
  shows "db_angle_mdeg_to_deg (db_angle_deg_to_mdeg deg) = deg"
proof -
  have b: "-2147483648 \<le> deg" "deg \<le> 2147483647" using assms by (simp_all add: in_s_def)
  then have w: "i64 (deg * 1000) = deg * 1000" "i64 (deg * 1000 + 500) = deg * 1000 + 500"
    "i64 (deg * 1000 - 500) = deg * 1000 - 500" by (auto intro!: i64_id)
  show ?thesis
    using b by (cases "0 \<le> deg")
      (simp_all add: db_angle_mdeg_to_deg_def db_angle_deg_to_mdeg_def w cdiv_nonneg cdiv_neg i32_id)
qed

lemma two_steps:
  fixes p q m :: int
  assumes "2 * \<bar>p * 113 - 355 * m\<bar> \<le> 355" "2 * \<bar>m * 355 - 113 * q\<bar> \<le> 113"
  shows "\<bar>p - q\<bar> \<le> 2"
  using assms by (auto simp: abs_le_iff abs_if split: if_splits)

lemma abs_chain:
  fixes X Q A d :: int
  assumes "\<bar>X - Q\<bar> \<le> 2 * d" "2 * \<bar>A - X\<bar> \<le> d"
  shows "2 * \<bar>Q - A\<bar> \<le> 5 * d"
  using assms by (simp add: abs_if split: if_splits)

lemma nearest_unique:
  fixes Q A d r mm :: int
  assumes "2 * \<bar>Q - A\<bar> \<le> 5 * d" "2 * \<bar>Q - 360000000 * r\<bar> \<le> 360000000"
    "A = mm * 360000000" "d \<le> 50000000"
  shows "r = mm"
  using assms by (auto simp: abs_if split: if_splits)

lemma mm_round_trip_arith:
  fixes A d p m q r mm :: int
  assumes "2 * \<bar>A - d * p\<bar> \<le> d" "2 * \<bar>p * 113 - 355 * m\<bar> \<le> 355" "2 * \<bar>m * 355 - 113 * q\<bar> \<le> 113"
    "2 * \<bar>q * d - 360000000 * r\<bar> \<le> 360000000" "A = mm * 360000000" "0 < d" "d \<le> 50000000"
  shows "r = mm"
proof -
  have "\<bar>p - q\<bar> \<le> 2" using assms(2,3) by (rule two_steps)
  then have "\<bar>(p - q) * d\<bar> \<le> 2 * d" using assms(6) by (simp add: abs_mult)
  then have "\<bar>d * p - q * d\<bar> \<le> 2 * d" by (simp add: algebra_simps)
  then have "2 * \<bar>q * d - A\<bar> \<le> 5 * d" using assms(1) by (rule abs_chain)
  then show ?thesis using assms(4,5,7) by (rule nearest_unique)
qed

text \<open>
  Fact. Millimetres survive the conversion to motor angle and back: for every 32-bit length and every
  wheel diameter from 10 micrometres to 50 metres the two-step fixed-point conversions are mutually
  consistent to the last millimetre, and nothing overflows on the way.
\<close>

theorem mm_mdeg_round_trip:
  assumes "in_s 32 mm" "10 \<le> wheel_d_um" "wheel_d_um \<le> 50000000"
  shows "db_angle_mdeg_to_mm (db_angle_mm_to_mdeg mm wheel_d_um) wheel_d_um = mm"
proof -
  let ?d = wheel_d_um
  have b: "\<bar>mm\<bar> \<le> 2147483648" "-2147483648 \<le> mm" "mm \<le> 2147483647"
    using assms(1) by (auto simp: in_s_def)
  define A where "A = mm * 360000000"
  have A: "i64 (mm * 360000000) = A" "\<bar>A\<bar> \<le> 773094113280000000" using b by (auto simp: A_def i64_id)
  define p where "p = db_angle_div_round A ?d"
  have p: "2 * \<bar>A - ?d * p\<bar> \<le> ?d" unfolding p_def by (rule div_round_nearest) (use assms A in auto)
  then have "2 * \<bar>?d * p\<bar> \<le> 2 * \<bar>A\<bar> + ?d" by (simp add: abs_if split: if_splits)
  moreover have "10 * \<bar>p\<bar> \<le> \<bar>?d * p\<bar>" using assms(2) by (simp add: abs_mult mult_right_mono)
  ultimately have pb: "\<bar>p\<bar> \<le> 77309411330500000" using A(2) assms(3) by linarith
  define m where "m = db_angle_div_round (p * 113) 355"
  have m: "2 * \<bar>p * 113 - 355 * m\<bar> \<le> 355" unfolding m_def by (rule div_round_nearest) (use pb in auto)
  then have mb: "\<bar>m * 355\<bar> \<le> 8735963480346500200" using pb by (simp add: abs_if split: if_splits)
  define q where "q = db_angle_div_round (m * 355) 113"
  have q: "2 * \<bar>m * 355 - 113 * q\<bar> \<le> 113" unfolding q_def by (rule div_round_nearest) (use mb in auto)
  have "\<bar>p - q\<bar> \<le> 2" using m q by (rule two_steps)
  then have "\<bar>(p - q) * ?d\<bar> \<le> 2 * ?d" using assms(2) by (simp add: abs_mult)
  then have "\<bar>?d * p - q * ?d\<bar> \<le> 2 * ?d" by (simp add: algebra_simps)
  then have "2 * \<bar>q * ?d - A\<bar> \<le> 5 * ?d" using p by (rule abs_chain)
  then have nb: "\<bar>q * ?d\<bar> \<le> 773094113480000000"
    using A(2) assms(3) by (simp add: abs_if split: if_splits)
  define r where "r = db_angle_div_round (q * ?d) 360000000"
  have r: "2 * \<bar>q * ?d - 360000000 * r\<bar> \<le> 360000000"
    unfolding r_def by (rule div_round_nearest) (use nb in auto)
  have "r = mm" by (rule mm_round_trip_arith [OF p m q r A_def]) (use assms in auto)
  moreover have "i64 (p * 113) = p * 113" "i64 (m * 355) = m * 355" "i64 (q * ?d) = q * ?d"
    using pb mb nb by (auto intro!: i64_id)
  ultimately show ?thesis using b assms(2)
    by (simp add: db_angle_mdeg_to_mm_def db_angle_mm_to_mdeg_def Let_def A DB_PI_NUM_def DB_PI_DEN_def
        p_def [symmetric] m_def [symmetric] q_def [symmetric] r_def [symmetric] i32_id)
qed

theorem mm_mdeg_round_trip_witness:
  "db_angle_mdeg_to_mm (db_angle_mm_to_mdeg (- 300) 56000) 56000 = - 300"
  by (rule mm_mdeg_round_trip) (simp_all add: in_s_def)

end
