(* ===== verification/Db_Settings.thy ===== *)
theory Db_Settings
  imports Db_Angle
begin

text \<open>
  Tunables of the drivebase, \<^verbatim>\<open>apps/drivebase/drivebase_settings.c\<close> and its header. The file's globals
  are the fields of one record; every setter is a function from that record to a result code and a
  new record. A pointer returned by an accessor is modelled by reading the pointed-to global, since
  each accessor always returns the address of the same global for an axis. The invariant
  \<open>settings_ok\<close> is what the rest of the drivebase relies on; the theorems show that no
  sequence of operations breaks it, that a frozen store does not change, and that a reset brings back
  the captured defaults.
\<close>

section \<open>Types\<close>

definition DB_AXIS_DISTANCE :: int where "DB_AXIS_DISTANCE = 0"
definition DB_AXIS_HEADING :: int where "DB_AXIS_HEADING = 1"
definition DB_AXIS_NUM :: int where "DB_AXIS_NUM = 2"

record db_servo_gains_s =
  kp_pos :: int
  ki_pos :: int
  kd_pos :: int
  kp_speed :: int
  ki_speed :: int
  deadband_mdeg :: int
  out_min :: int
  out_max :: int

record db_traj_limits_s =
  v_max_mdegps :: int
  accel_mdegps2 :: int
  decel_mdegps2 :: int

record db_stall_settings_s =
  stall_speed_mdegps :: int
  stall_duty_min :: int
  stall_window_ms :: int

record db_completion_settings_s =
  pos_tolerance_mdeg :: int
  speed_tolerance_mdegps :: int
  smart_continue_window_mdeg :: int
  done_window_ms :: int
  smart_passive_hold_ms :: int

record db_ff_axis_gains_s =
  kV :: int
  kA :: int

record db_ff_motor_friction_s =
  kS :: int
  v_hyst_enter_mdegps :: int
  v_hyst_exit_mdegps :: int
  terminal_breakaway :: int

record db_battery_settings_s =
  nominal_mv :: int
  min_mv :: int

text \<open>
  The tunables proper (what a reset restores), and the whole module state: tunables, computed limits,
  the two scratch buffers of the completion query, the freeze flag and the snapshot of the defaults.
\<close>

record db_tunables =
  g_pid_gains_distance :: db_servo_gains_s
  g_pid_gains_heading :: db_servo_gains_s
  g_stall :: db_stall_settings_s
  g_completion_distance :: db_completion_settings_s
  g_completion_heading :: db_completion_settings_s
  g_ff_axis_gains_distance :: db_ff_axis_gains_s
  g_ff_axis_gains_heading :: db_ff_axis_gains_s
  g_ff_motor_friction :: db_ff_motor_friction_s
  g_battery_settings :: db_battery_settings_s

record db_settings =
  tunables :: db_tunables
  g_distance_limits :: db_traj_limits_s
  g_heading_limits :: db_traj_limits_s
  g_completion_scratch_distance :: db_completion_settings_s
  g_completion_scratch_heading :: db_completion_settings_s
  g_settings_frozen :: bool
  captured :: "db_tunables option"

section \<open>Constants and initial values\<close>

definition DB_COMPLETION_P_DUTY_FLOOR_PCT01 :: int where "DB_COMPLETION_P_DUTY_FLOOR_PCT01 = 400"
definition DB_ENCODER_FLOOR_MDEG :: int where "DB_ENCODER_FLOOR_MDEG = 1000"
definition DB_SMART_CONTINUE_WINDOW_MDEG :: int where "DB_SMART_CONTINUE_WINDOW_MDEG = 6000"
definition DB_KP_POS_DEFAULT :: int where "DB_KP_POS_DEFAULT = 50"
definition DB_OUT_MAX_LIMIT :: int where "DB_OUT_MAX_LIMIT = 10000"
definition DB_KI_LIMIT :: int where "DB_KI_LIMIT = 10000"
definition DB_KP_LIMIT :: int where "DB_KP_LIMIT = 10000"
definition DB_DEADBAND_LIMIT :: int where "DB_DEADBAND_LIMIT = 100000"
definition DB_POS_TOL_LIMIT_MDEG :: int where "DB_POS_TOL_LIMIT_MDEG = 60000"
definition DB_SPEED_TOL_LIMIT_MDEGPS :: int where "DB_SPEED_TOL_LIMIT_MDEGPS = 1000000"
definition DB_DONE_WINDOW_LIMIT_MS :: int where "DB_DONE_WINDOW_LIMIT_MS = 10000"
definition DB_STALL_WINDOW_LIMIT_MS :: int where "DB_STALL_WINDOW_LIMIT_MS = 10000"
definition DB_FF_GAIN_LIMIT :: int where "DB_FF_GAIN_LIMIT = 1000"
definition DB_FF_HYST_LIMIT_MDEGPS :: int where "DB_FF_HYST_LIMIT_MDEGPS = 100000"
definition DB_BREAKAWAY_LIMIT :: int where "DB_BREAKAWAY_LIMIT = 3000"
definition DB_BATTERY_MV_MIN :: int where "DB_BATTERY_MV_MIN = 1"
definition DB_BATTERY_MV_MAX :: int where "DB_BATTERY_MV_MAX = 12000"

named_theorems limit_defs

lemmas [limit_defs] = DB_COMPLETION_P_DUTY_FLOOR_PCT01_def DB_ENCODER_FLOOR_MDEG_def
  DB_SMART_CONTINUE_WINDOW_MDEG_def DB_KP_POS_DEFAULT_def DB_OUT_MAX_LIMIT_def DB_KI_LIMIT_def
  DB_KP_LIMIT_def DB_DEADBAND_LIMIT_def DB_POS_TOL_LIMIT_MDEG_def DB_SPEED_TOL_LIMIT_MDEGPS_def
  DB_DONE_WINDOW_LIMIT_MS_def DB_STALL_WINDOW_LIMIT_MS_def DB_FF_GAIN_LIMIT_def
  DB_FF_HYST_LIMIT_MDEGPS_def DB_BREAKAWAY_LIMIT_def DB_BATTERY_MV_MIN_def DB_BATTERY_MV_MAX_def

definition init_pid_gains_distance :: db_servo_gains_s where
  "init_pid_gains_distance =
     \<lparr>kp_pos = DB_KP_POS_DEFAULT, ki_pos = 5, kd_pos = 0, kp_speed = 5, ki_speed = 0,
      deadband_mdeg = 3000, out_min = - 10000, out_max = 10000\<rparr>"

definition init_pid_gains_heading :: db_servo_gains_s where
  "init_pid_gains_heading =
     \<lparr>kp_pos = DB_KP_POS_DEFAULT, ki_pos = 15, kd_pos = 0, kp_speed = 5, ki_speed = 0,
      deadband_mdeg = 3000, out_min = - 8000, out_max = 8000\<rparr>"

definition init_ff_axis_gains_distance :: db_ff_axis_gains_s where
  "init_ff_axis_gains_distance = \<lparr>kV = 9, kA = 0\<rparr>"

definition init_ff_axis_gains_heading :: db_ff_axis_gains_s where
  "init_ff_axis_gains_heading = \<lparr>kV = 6, kA = 0\<rparr>"

definition init_ff_motor_friction :: db_ff_motor_friction_s where
  "init_ff_motor_friction =
     \<lparr>kS = 700, v_hyst_enter_mdegps = 5000, v_hyst_exit_mdegps = 1000, terminal_breakaway = 2600\<rparr>"

definition init_battery_settings :: db_battery_settings_s where
  "init_battery_settings = \<lparr>nominal_mv = 7200, min_mv = 6000\<rparr>"

definition init_stall :: db_stall_settings_s where
  "init_stall = \<lparr>stall_speed_mdegps = 30000, stall_duty_min = 6000, stall_window_ms = 200\<rparr>"

definition init_completion :: db_completion_settings_s where
  "init_completion =
     \<lparr>pos_tolerance_mdeg = - 1, speed_tolerance_mdegps = 30000, smart_continue_window_mdeg = - 1,
      done_window_ms = 50, smart_passive_hold_ms = 100\<rparr>"

definition init_tunables :: db_tunables where
  "init_tunables =
     \<lparr>g_pid_gains_distance = init_pid_gains_distance, g_pid_gains_heading = init_pid_gains_heading,
      g_stall = init_stall, g_completion_distance = init_completion,
      g_completion_heading = init_completion, g_ff_axis_gains_distance = init_ff_axis_gains_distance,
      g_ff_axis_gains_heading = init_ff_axis_gains_heading,
      g_ff_motor_friction = init_ff_motor_friction, g_battery_settings = init_battery_settings\<rparr>"

definition zero_limits :: db_traj_limits_s where
  "zero_limits = \<lparr>v_max_mdegps = 0, accel_mdegps2 = 0, decel_mdegps2 = 0\<rparr>"

definition zero_completion :: db_completion_settings_s where
  "zero_completion =
     \<lparr>pos_tolerance_mdeg = 0, speed_tolerance_mdegps = 0, smart_continue_window_mdeg = 0,
      done_window_ms = 0, smart_passive_hold_ms = 0\<rparr>"

definition init_settings :: db_settings where
  "init_settings =
     \<lparr>tunables = init_tunables, g_distance_limits = zero_limits, g_heading_limits = zero_limits,
      g_completion_scratch_distance = zero_completion, g_completion_scratch_heading = zero_completion,
      g_settings_frozen = False, captured = None\<rparr>"

lemmas init_defs = init_pid_gains_distance_def init_pid_gains_heading_def
  init_ff_axis_gains_distance_def init_ff_axis_gains_heading_def init_ff_motor_friction_def
  init_battery_settings_def init_stall_def init_completion_def init_tunables_def

section \<open>Queries\<close>

definition recompute_distance :: "int \<Rightarrow> db_settings \<Rightarrow> db_settings" where
  "recompute_distance wheel_d_um s =
     (let v_mmps = i32 (i32 (u32 (wheel_d_um + 500) div 1000) * 4);
          v = db_angle_mmps_to_mdegps v_mmps wheel_d_um in
      s\<lparr>g_distance_limits :=
          \<lparr>v_max_mdegps = v, accel_mdegps2 = i32 (v * 4), decel_mdegps2 = i32 (v * 4)\<rparr>\<rparr>)"

definition recompute_heading :: "int \<Rightarrow> int \<Rightarrow> db_settings \<Rightarrow> db_settings" where
  "recompute_heading wheel_d_um axle_t_um s =
     (let v_drive_mmps = i32 (i32 (u32 (wheel_d_um + 500) div 1000) * 4);
          v_wheel_mdegps = db_angle_mmps_to_mdegps v_drive_mmps wheel_d_um;
          v0 = (if axle_t_um = 0 then 0 else cdiv (i64 (v_wheel_mdegps * wheel_d_um)) axle_t_um);
          v_heading_mdegps = (if v0 > INT32_MAX then INT32_MAX else v0) in
      s\<lparr>g_heading_limits :=
          \<lparr>v_max_mdegps = i32 v_heading_mdegps, accel_mdegps2 = i32 (i64 (v_heading_mdegps * 4)),
           decel_mdegps2 = i32 (i64 (v_heading_mdegps * 4))\<rparr>\<rparr>)"

definition db_settings_pid_gains :: "db_settings \<Rightarrow> int \<Rightarrow> db_servo_gains_s" where
  "db_settings_pid_gains s axis =
     (if axis = DB_AXIS_HEADING then g_pid_gains_heading (tunables s)
      else g_pid_gains_distance (tunables s))"

definition db_settings_ff_axis_gains :: "db_settings \<Rightarrow> int \<Rightarrow> db_ff_axis_gains_s" where
  "db_settings_ff_axis_gains s axis =
     (if axis = DB_AXIS_HEADING then g_ff_axis_gains_heading (tunables s)
      else g_ff_axis_gains_distance (tunables s))"

definition db_settings_ff_motor_friction :: "db_settings \<Rightarrow> db_ff_motor_friction_s" where
  "db_settings_ff_motor_friction s = g_ff_motor_friction (tunables s)"

definition db_settings_battery :: "db_settings \<Rightarrow> db_battery_settings_s" where
  "db_settings_battery s = g_battery_settings (tunables s)"

definition db_settings_servo_gains :: "db_settings \<Rightarrow> db_servo_gains_s" where
  "db_settings_servo_gains s = g_pid_gains_distance (tunables s)"

definition db_settings_distance_limits :: "int \<Rightarrow> db_settings \<Rightarrow> db_traj_limits_s \<times> db_settings" where
  "db_settings_distance_limits wheel_d_um s =
     (let s' = recompute_distance wheel_d_um s in (g_distance_limits s', s'))"

definition db_settings_heading_limits ::
    "int \<Rightarrow> int \<Rightarrow> db_settings \<Rightarrow> db_traj_limits_s \<times> db_settings" where
  "db_settings_heading_limits wheel_d_um axle_t_um s =
     (let s' = recompute_heading wheel_d_um axle_t_um s in (g_heading_limits s', s'))"

definition db_settings_stall :: "db_settings \<Rightarrow> db_stall_settings_s" where
  "db_settings_stall s = g_stall (tunables s)"

definition derive_pos_tolerance_mdeg :: "int \<Rightarrow> int" where
  "derive_pos_tolerance_mdeg kp =
     (let derived = cdiv (DB_COMPLETION_P_DUTY_FLOOR_PCT01 * 1000) kp in
      if derived > DB_ENCODER_FLOOR_MDEG then derived else DB_ENCODER_FLOOR_MDEG)"

definition db_settings_completion_axis ::
    "int \<Rightarrow> db_settings \<Rightarrow> db_completion_settings_s \<times> db_settings" where
  "db_settings_completion_axis axis s =
     (let gains = db_settings_pid_gains s axis;
          src = (if axis = DB_AXIS_HEADING then g_completion_heading (tunables s)
                 else g_completion_distance (tunables s));
          out1 = (if pos_tolerance_mdeg src < 0
                  then src\<lparr>pos_tolerance_mdeg := derive_pos_tolerance_mdeg (kp_pos gains)\<rparr> else src);
          out = (if smart_continue_window_mdeg out1 < 0
                 then out1\<lparr>smart_continue_window_mdeg := DB_SMART_CONTINUE_WINDOW_MDEG\<rparr> else out1) in
      (out,
       if axis = DB_AXIS_HEADING then s\<lparr>g_completion_scratch_heading := out\<rparr>
       else s\<lparr>g_completion_scratch_distance := out\<rparr>))"

definition db_settings_completion :: "db_settings \<Rightarrow> db_completion_settings_s \<times> db_settings" where
  "db_settings_completion s = db_settings_completion_axis DB_AXIS_DISTANCE s"

section \<open>Setters\<close>

text \<open>
  A destination pointer of the C setters is an update function of the tunables here: it applies a
  function to the pointed-to field.
\<close>

definition pid_gains_mut ::
    "int \<Rightarrow> (db_servo_gains_s \<Rightarrow> db_servo_gains_s) \<Rightarrow> db_tunables \<Rightarrow> db_tunables" where
  "pid_gains_mut axis f t =
     (if axis = DB_AXIS_HEADING then t\<lparr>g_pid_gains_heading := f (g_pid_gains_heading t)\<rparr>
      else t\<lparr>g_pid_gains_distance := f (g_pid_gains_distance t)\<rparr>)"

definition comp_mut ::
    "int \<Rightarrow> (db_completion_settings_s \<Rightarrow> db_completion_settings_s) \<Rightarrow> db_tunables \<Rightarrow> db_tunables" where
  "comp_mut axis f t =
     (if axis = DB_AXIS_HEADING then t\<lparr>g_completion_heading := f (g_completion_heading t)\<rparr>
      else t\<lparr>g_completion_distance := f (g_completion_distance t)\<rparr>)"

definition ff_axis_mut ::
    "int \<Rightarrow> (db_ff_axis_gains_s \<Rightarrow> db_ff_axis_gains_s) \<Rightarrow> db_tunables \<Rightarrow> db_tunables" where
  "ff_axis_mut axis f t =
     (if axis = DB_AXIS_HEADING then t\<lparr>g_ff_axis_gains_heading := f (g_ff_axis_gains_heading t)\<rparr>
      else t\<lparr>g_ff_axis_gains_distance := f (g_ff_axis_gains_distance t)\<rparr>)"

definition check_writable :: "db_settings \<Rightarrow> int" where
  "check_writable s = (if g_settings_frozen s then - EBUSY else 0)"

definition store :: "(db_tunables \<Rightarrow> db_tunables) \<Rightarrow> db_settings \<Rightarrow> db_settings" where
  "store f s = s\<lparr>tunables := f (tunables s)\<rparr>"

definition set_in_range_i32 ::
    "(db_tunables \<Rightarrow> db_tunables) \<Rightarrow> int \<Rightarrow> int \<Rightarrow> int \<Rightarrow> db_settings \<Rightarrow> int \<times> db_settings" where
  "set_in_range_i32 dst v lo hi s =
     (let rc = check_writable s in
      if rc < 0 then (rc, s)
      else if v < lo \<or> v > hi then (- EINVAL, s)
      else (0, store dst s))"

definition set_in_range_u32 ::
    "(db_tunables \<Rightarrow> db_tunables) \<Rightarrow> int \<Rightarrow> int \<Rightarrow> db_settings \<Rightarrow> int \<times> db_settings" where
  "set_in_range_u32 dst v hi s =
     (let rc = check_writable s in
      if rc < 0 then (rc, s)
      else if v > hi then (- EINVAL, s)
      else (0, store dst s))"

definition db_settings_set_pid_kp_pos ::
    "int \<Rightarrow> int \<Rightarrow> db_settings \<Rightarrow> int \<times> db_settings" where
  "db_settings_set_pid_kp_pos axis v s =
     (if axis \<ge> DB_AXIS_NUM then (- EINVAL, s)
      else set_in_range_i32 (pid_gains_mut axis (\<lambda>g. g\<lparr>kp_pos := v\<rparr>)) v 1 DB_KP_LIMIT s)"

definition db_settings_set_pid_ki_pos ::
    "int \<Rightarrow> int \<Rightarrow> db_settings \<Rightarrow> int \<times> db_settings" where
  "db_settings_set_pid_ki_pos axis v s =
     (if axis \<ge> DB_AXIS_NUM then (- EINVAL, s)
      else set_in_range_i32 (pid_gains_mut axis (\<lambda>g. g\<lparr>ki_pos := v\<rparr>)) v 0 DB_KI_LIMIT s)"

definition db_settings_set_pid_kd_pos ::
    "int \<Rightarrow> int \<Rightarrow> db_settings \<Rightarrow> int \<times> db_settings" where
  "db_settings_set_pid_kd_pos axis v s =
     (if axis \<ge> DB_AXIS_NUM then (- EINVAL, s)
      else set_in_range_i32 (pid_gains_mut axis (\<lambda>g. g\<lparr>kd_pos := v\<rparr>)) v 0 DB_KP_LIMIT s)"

definition db_settings_set_pid_kp_speed ::
    "int \<Rightarrow> int \<Rightarrow> db_settings \<Rightarrow> int \<times> db_settings" where
  "db_settings_set_pid_kp_speed axis v s =
     (if axis \<ge> DB_AXIS_NUM then (- EINVAL, s)
      else set_in_range_i32 (pid_gains_mut axis (\<lambda>g. g\<lparr>kp_speed := v\<rparr>)) v 0 DB_KP_LIMIT s)"

definition db_settings_set_pid_ki_speed ::
    "int \<Rightarrow> int \<Rightarrow> db_settings \<Rightarrow> int \<times> db_settings" where
  "db_settings_set_pid_ki_speed axis v s =
     (if axis \<ge> DB_AXIS_NUM then (- EINVAL, s)
      else set_in_range_i32 (pid_gains_mut axis (\<lambda>g. g\<lparr>ki_speed := v\<rparr>)) v 0 DB_KI_LIMIT s)"

definition db_settings_set_pid_deadband_mdeg ::
    "int \<Rightarrow> int \<Rightarrow> db_settings \<Rightarrow> int \<times> db_settings" where
  "db_settings_set_pid_deadband_mdeg axis v s =
     (if axis \<ge> DB_AXIS_NUM then (- EINVAL, s)
      else set_in_range_i32 (pid_gains_mut axis (\<lambda>g. g\<lparr>deadband_mdeg := v\<rparr>)) v 0 DB_DEADBAND_LIMIT s)"

definition db_settings_set_pid_out_max :: "int \<Rightarrow> int \<Rightarrow> db_settings \<Rightarrow> int \<times> db_settings" where
  "db_settings_set_pid_out_max axis v s =
     (if axis \<ge> DB_AXIS_NUM then (- EINVAL, s)
      else
        let rc = check_writable s in
        if rc < 0 then (rc, s)
        else if v \<le> 0 \<or> v > DB_OUT_MAX_LIMIT then (- EINVAL, s)
        else (0, store (pid_gains_mut axis (\<lambda>g. g\<lparr>out_max := v, out_min := - v\<rparr>)) s))"

definition db_settings_set_comp_pos_tol_mdeg :: "int \<Rightarrow> int \<Rightarrow> db_settings \<Rightarrow> int \<times> db_settings" where
  "db_settings_set_comp_pos_tol_mdeg axis v s =
     (if axis \<ge> DB_AXIS_NUM then (- EINVAL, s)
      else
        let rc = check_writable s in
        if rc < 0 then (rc, s)
        else if v = - 1 then (0, store (comp_mut axis (\<lambda>c. c\<lparr>pos_tolerance_mdeg := - 1\<rparr>)) s)
        else if v < DB_ENCODER_FLOOR_MDEG \<or> v > DB_POS_TOL_LIMIT_MDEG then (- EINVAL, s)
        else (0, store (comp_mut axis (\<lambda>c. c\<lparr>pos_tolerance_mdeg := v\<rparr>)) s))"

definition db_settings_set_comp_speed_tol_mdegps ::
    "int \<Rightarrow> int \<Rightarrow> db_settings \<Rightarrow> int \<times> db_settings" where
  "db_settings_set_comp_speed_tol_mdegps axis v s =
     (if axis \<ge> DB_AXIS_NUM then (- EINVAL, s)
      else set_in_range_i32 (comp_mut axis (\<lambda>c. c\<lparr>speed_tolerance_mdegps := v\<rparr>)) v 0 DB_SPEED_TOL_LIMIT_MDEGPS s)"

definition db_settings_set_comp_smart_continue_mdeg ::
    "int \<Rightarrow> int \<Rightarrow> db_settings \<Rightarrow> int \<times> db_settings" where
  "db_settings_set_comp_smart_continue_mdeg axis v s =
     (if axis \<ge> DB_AXIS_NUM then (- EINVAL, s)
      else
        let rc = check_writable s in
        if rc < 0 then (rc, s)
        else if v = - 1 then (0, store (comp_mut axis (\<lambda>c. c\<lparr>smart_continue_window_mdeg := - 1\<rparr>)) s)
        else if v < 0 \<or> v > DB_POS_TOL_LIMIT_MDEG then (- EINVAL, s)
        else (0, store (comp_mut axis (\<lambda>c. c\<lparr>smart_continue_window_mdeg := v\<rparr>)) s))"

definition db_settings_set_comp_done_window_ms ::
    "int \<Rightarrow> int \<Rightarrow> db_settings \<Rightarrow> int \<times> db_settings" where
  "db_settings_set_comp_done_window_ms axis v s =
     (if axis \<ge> DB_AXIS_NUM then (- EINVAL, s)
      else set_in_range_u32 (comp_mut axis (\<lambda>c. c\<lparr>done_window_ms := v\<rparr>)) v DB_DONE_WINDOW_LIMIT_MS s)"

definition db_settings_set_comp_smart_passive_hold_ms ::
    "int \<Rightarrow> int \<Rightarrow> db_settings \<Rightarrow> int \<times> db_settings" where
  "db_settings_set_comp_smart_passive_hold_ms axis v s =
     (if axis \<ge> DB_AXIS_NUM then (- EINVAL, s)
      else set_in_range_u32 (comp_mut axis (\<lambda>c. c\<lparr>smart_passive_hold_ms := v\<rparr>)) v DB_DONE_WINDOW_LIMIT_MS s)"

definition db_settings_set_ff_kV ::
    "int \<Rightarrow> int \<Rightarrow> db_settings \<Rightarrow> int \<times> db_settings" where
  "db_settings_set_ff_kV axis v s =
     (if axis \<ge> DB_AXIS_NUM then (- EINVAL, s)
      else set_in_range_i32 (ff_axis_mut axis (\<lambda>g. g\<lparr>kV := v\<rparr>)) v (- DB_FF_GAIN_LIMIT) DB_FF_GAIN_LIMIT s)"

definition db_settings_set_ff_kA ::
    "int \<Rightarrow> int \<Rightarrow> db_settings \<Rightarrow> int \<times> db_settings" where
  "db_settings_set_ff_kA axis v s =
     (if axis \<ge> DB_AXIS_NUM then (- EINVAL, s)
      else set_in_range_i32 (ff_axis_mut axis (\<lambda>g. g\<lparr>kA := v\<rparr>)) v (- DB_FF_GAIN_LIMIT) DB_FF_GAIN_LIMIT s)"

definition db_settings_set_stall_speed_mdegps :: "int \<Rightarrow> db_settings \<Rightarrow> int \<times> db_settings" where
  "db_settings_set_stall_speed_mdegps v s =
     set_in_range_i32 (\<lambda>t. t\<lparr>g_stall := (g_stall t)\<lparr>stall_speed_mdegps := v\<rparr>\<rparr>) v 0 DB_SPEED_TOL_LIMIT_MDEGPS s"

definition db_settings_set_stall_duty_min :: "int \<Rightarrow> db_settings \<Rightarrow> int \<times> db_settings" where
  "db_settings_set_stall_duty_min v s =
     set_in_range_i32 (\<lambda>t. t\<lparr>g_stall := (g_stall t)\<lparr>stall_duty_min := v\<rparr>\<rparr>) v 0 DB_OUT_MAX_LIMIT s"

definition db_settings_set_stall_window_ms :: "int \<Rightarrow> db_settings \<Rightarrow> int \<times> db_settings" where
  "db_settings_set_stall_window_ms v s =
     set_in_range_u32 (\<lambda>t. t\<lparr>g_stall := (g_stall t)\<lparr>stall_window_ms := v\<rparr>\<rparr>) v DB_STALL_WINDOW_LIMIT_MS s"

definition db_settings_set_ff_kS :: "int \<Rightarrow> db_settings \<Rightarrow> int \<times> db_settings" where
  "db_settings_set_ff_kS v s =
     set_in_range_i32 (\<lambda>t. t\<lparr>g_ff_motor_friction := (g_ff_motor_friction t)\<lparr>kS := v\<rparr>\<rparr>) v 0 DB_FF_GAIN_LIMIT s"

definition db_settings_set_ff_v_hyst_enter_mdegps :: "int \<Rightarrow> db_settings \<Rightarrow> int \<times> db_settings" where
  "db_settings_set_ff_v_hyst_enter_mdegps v s =
     set_in_range_i32 (\<lambda>t. t\<lparr>g_ff_motor_friction := (g_ff_motor_friction t)\<lparr>v_hyst_enter_mdegps := v\<rparr>\<rparr>) v 0 DB_FF_HYST_LIMIT_MDEGPS s"

definition db_settings_set_ff_v_hyst_exit_mdegps :: "int \<Rightarrow> db_settings \<Rightarrow> int \<times> db_settings" where
  "db_settings_set_ff_v_hyst_exit_mdegps v s =
     set_in_range_i32 (\<lambda>t. t\<lparr>g_ff_motor_friction := (g_ff_motor_friction t)\<lparr>v_hyst_exit_mdegps := v\<rparr>\<rparr>) v 0 DB_FF_HYST_LIMIT_MDEGPS s"

definition db_settings_set_ff_terminal_breakaway :: "int \<Rightarrow> db_settings \<Rightarrow> int \<times> db_settings" where
  "db_settings_set_ff_terminal_breakaway v s =
     set_in_range_i32 (\<lambda>t. t\<lparr>g_ff_motor_friction := (g_ff_motor_friction t)\<lparr>terminal_breakaway := v\<rparr>\<rparr>) v 0 DB_BREAKAWAY_LIMIT s"

definition db_settings_set_battery_nominal_mv :: "int \<Rightarrow> db_settings \<Rightarrow> int \<times> db_settings" where
  "db_settings_set_battery_nominal_mv v s =
     set_in_range_i32 (\<lambda>t. t\<lparr>g_battery_settings := (g_battery_settings t)\<lparr>nominal_mv := v\<rparr>\<rparr>) v DB_BATTERY_MV_MIN DB_BATTERY_MV_MAX s"

definition db_settings_set_battery_min_mv :: "int \<Rightarrow> db_settings \<Rightarrow> int \<times> db_settings" where
  "db_settings_set_battery_min_mv v s =
     set_in_range_i32 (\<lambda>t. t\<lparr>g_battery_settings := (g_battery_settings t)\<lparr>min_mv := v\<rparr>\<rparr>) v DB_BATTERY_MV_MIN DB_BATTERY_MV_MAX s"

section \<open>Freezing and resetting\<close>

definition db_settings_freeze :: "db_settings \<Rightarrow> db_settings" where
  "db_settings_freeze s = s\<lparr>g_settings_frozen := True\<rparr>"

definition db_settings_is_frozen :: "db_settings \<Rightarrow> bool" where
  "db_settings_is_frozen s = g_settings_frozen s"

definition db_settings_thaw :: "db_settings \<Rightarrow> db_settings" where
  "db_settings_thaw s = s\<lparr>g_settings_frozen := False\<rparr>"

definition db_settings_reset_to_defaults :: "db_settings \<Rightarrow> db_settings" where
  "db_settings_reset_to_defaults s =
     (if g_settings_frozen s then s
      else
        case captured s of
          None \<Rightarrow> s\<lparr>captured := Some (tunables s)\<rparr>
        | Some t \<Rightarrow> s\<lparr>tunables := t\<rparr>)"

section \<open>Histories\<close>

text \<open>
  Every operation of the module as a value, so that a history is a list. \<open>Axis_Set\<close> and \<open>Global_Set\<close>
  name the setters by the key they write.
\<close>

datatype axis_key =
    K_pid_kp_pos
  | K_pid_ki_pos
  | K_pid_kd_pos
  | K_pid_kp_speed
  | K_pid_ki_speed
  | K_pid_deadband_mdeg
  | K_pid_out_max
  | K_comp_pos_tol_mdeg
  | K_comp_speed_tol_mdegps
  | K_comp_smart_continue_mdeg
  | K_comp_done_window_ms
  | K_comp_smart_passive_hold_ms
  | K_ff_kV
  | K_ff_kA

datatype global_key =
    K_stall_speed_mdegps
  | K_stall_duty_min
  | K_stall_window_ms
  | K_ff_kS
  | K_ff_v_hyst_enter_mdegps
  | K_ff_v_hyst_exit_mdegps
  | K_ff_terminal_breakaway
  | K_battery_nominal_mv
  | K_battery_min_mv

fun axis_setter :: "axis_key \<Rightarrow> int \<Rightarrow> int \<Rightarrow> db_settings \<Rightarrow> int \<times> db_settings" where
  "axis_setter K_pid_kp_pos = db_settings_set_pid_kp_pos"
| "axis_setter K_pid_ki_pos = db_settings_set_pid_ki_pos"
| "axis_setter K_pid_kd_pos = db_settings_set_pid_kd_pos"
| "axis_setter K_pid_kp_speed = db_settings_set_pid_kp_speed"
| "axis_setter K_pid_ki_speed = db_settings_set_pid_ki_speed"
| "axis_setter K_pid_deadband_mdeg = db_settings_set_pid_deadband_mdeg"
| "axis_setter K_pid_out_max = db_settings_set_pid_out_max"
| "axis_setter K_comp_pos_tol_mdeg = db_settings_set_comp_pos_tol_mdeg"
| "axis_setter K_comp_speed_tol_mdegps = db_settings_set_comp_speed_tol_mdegps"
| "axis_setter K_comp_smart_continue_mdeg = db_settings_set_comp_smart_continue_mdeg"
| "axis_setter K_comp_done_window_ms = db_settings_set_comp_done_window_ms"
| "axis_setter K_comp_smart_passive_hold_ms = db_settings_set_comp_smart_passive_hold_ms"
| "axis_setter K_ff_kV = db_settings_set_ff_kV"
| "axis_setter K_ff_kA = db_settings_set_ff_kA"

fun global_setter :: "global_key \<Rightarrow> int \<Rightarrow> db_settings \<Rightarrow> int \<times> db_settings" where
  "global_setter K_stall_speed_mdegps = db_settings_set_stall_speed_mdegps"
| "global_setter K_stall_duty_min = db_settings_set_stall_duty_min"
| "global_setter K_stall_window_ms = db_settings_set_stall_window_ms"
| "global_setter K_ff_kS = db_settings_set_ff_kS"
| "global_setter K_ff_v_hyst_enter_mdegps = db_settings_set_ff_v_hyst_enter_mdegps"
| "global_setter K_ff_v_hyst_exit_mdegps = db_settings_set_ff_v_hyst_exit_mdegps"
| "global_setter K_ff_terminal_breakaway = db_settings_set_ff_terminal_breakaway"
| "global_setter K_battery_nominal_mv = db_settings_set_battery_nominal_mv"
| "global_setter K_battery_min_mv = db_settings_set_battery_min_mv"

datatype settings_op =
    Axis_Set axis_key int int
  | Global_Set global_key int
  | Query_Distance_Limits int
  | Query_Heading_Limits int int
  | Query_Completion int
  | Freeze
  | Thaw
  | Reset_To_Defaults

fun settings_step :: "settings_op \<Rightarrow> db_settings \<Rightarrow> db_settings" where
  "settings_step (Axis_Set k axis v) s = snd (axis_setter k axis v s)"
| "settings_step (Global_Set k v) s = snd (global_setter k v s)"
| "settings_step (Query_Distance_Limits w) s = snd (db_settings_distance_limits w s)"
| "settings_step (Query_Heading_Limits w ax) s = snd (db_settings_heading_limits w ax s)"
| "settings_step (Query_Completion axis) s = snd (db_settings_completion_axis axis s)"
| "settings_step Freeze s = db_settings_freeze s"
| "settings_step Thaw s = db_settings_thaw s"
| "settings_step Reset_To_Defaults s = db_settings_reset_to_defaults s"

definition settings_run :: "settings_op list \<Rightarrow> db_settings \<Rightarrow> db_settings" where
  "settings_run ops s = fold settings_step ops s"

lemmas setter_defs =
  db_settings_set_pid_kp_pos_def
  db_settings_set_pid_ki_pos_def
  db_settings_set_pid_kd_pos_def
  db_settings_set_pid_kp_speed_def
  db_settings_set_pid_ki_speed_def
  db_settings_set_pid_deadband_mdeg_def
  db_settings_set_pid_out_max_def
  db_settings_set_comp_pos_tol_mdeg_def
  db_settings_set_comp_speed_tol_mdegps_def
  db_settings_set_comp_smart_continue_mdeg_def
  db_settings_set_comp_done_window_ms_def
  db_settings_set_comp_smart_passive_hold_ms_def
  db_settings_set_ff_kV_def
  db_settings_set_ff_kA_def
  db_settings_set_stall_speed_mdegps_def
  db_settings_set_stall_duty_min_def
  db_settings_set_stall_window_ms_def
  db_settings_set_ff_kS_def
  db_settings_set_ff_v_hyst_enter_mdegps_def
  db_settings_set_ff_v_hyst_exit_mdegps_def
  db_settings_set_ff_terminal_breakaway_def
  db_settings_set_battery_nominal_mv_def
  db_settings_set_battery_min_mv_def

section \<open>The invariant of the tunables\<close>

definition gains_ok :: "db_servo_gains_s \<Rightarrow> bool" where
  "gains_ok g \<longleftrightarrow> 1 \<le> kp_pos g \<and> kp_pos g \<le> 10000 \<and> 0 \<le> ki_pos g \<and> ki_pos g \<le> 10000 \<and>
     0 \<le> kd_pos g \<and> kd_pos g \<le> 10000 \<and> 0 \<le> kp_speed g \<and> kp_speed g \<le> 10000 \<and>
     0 \<le> ki_speed g \<and> ki_speed g \<le> 10000 \<and> 0 \<le> deadband_mdeg g \<and> deadband_mdeg g \<le> 100000 \<and>
     out_min g = - out_max g \<and> 0 < out_max g \<and> out_max g \<le> 10000"

definition comp_ok :: "db_completion_settings_s \<Rightarrow> bool" where
  "comp_ok c \<longleftrightarrow>
     (pos_tolerance_mdeg c = - 1 \<or> 1000 \<le> pos_tolerance_mdeg c \<and> pos_tolerance_mdeg c \<le> 60000) \<and>
     0 \<le> speed_tolerance_mdegps c \<and> speed_tolerance_mdegps c \<le> 1000000 \<and>
     - 1 \<le> smart_continue_window_mdeg c \<and> smart_continue_window_mdeg c \<le> 60000 \<and>
     done_window_ms c \<le> 10000 \<and> smart_passive_hold_ms c \<le> 10000"

definition ff_axis_ok :: "db_ff_axis_gains_s \<Rightarrow> bool" where
  "ff_axis_ok g \<longleftrightarrow> \<bar>kV g\<bar> \<le> 1000 \<and> \<bar>kA g\<bar> \<le> 1000"

definition friction_ok :: "db_ff_motor_friction_s \<Rightarrow> bool" where
  "friction_ok f \<longleftrightarrow> 0 \<le> kS f \<and> kS f \<le> 1000 \<and> 0 \<le> v_hyst_enter_mdegps f \<and>
     v_hyst_enter_mdegps f \<le> 100000 \<and> 0 \<le> v_hyst_exit_mdegps f \<and> v_hyst_exit_mdegps f \<le> 100000 \<and>
     0 \<le> terminal_breakaway f \<and> terminal_breakaway f \<le> 3000"

definition battery_ok :: "db_battery_settings_s \<Rightarrow> bool" where
  "battery_ok b \<longleftrightarrow> 1 \<le> nominal_mv b \<and> nominal_mv b \<le> 12000 \<and> 1 \<le> min_mv b \<and> min_mv b \<le> 12000"

definition stall_ok :: "db_stall_settings_s \<Rightarrow> bool" where
  "stall_ok st \<longleftrightarrow> 0 \<le> stall_speed_mdegps st \<and> stall_speed_mdegps st \<le> 1000000 \<and>
     0 \<le> stall_duty_min st \<and> stall_duty_min st \<le> 10000 \<and> stall_window_ms st \<le> 10000"

definition tunables_ok :: "db_tunables \<Rightarrow> bool" where
  "tunables_ok t \<longleftrightarrow> gains_ok (g_pid_gains_distance t) \<and> gains_ok (g_pid_gains_heading t) \<and>
     stall_ok (g_stall t) \<and> comp_ok (g_completion_distance t) \<and> comp_ok (g_completion_heading t) \<and>
     ff_axis_ok (g_ff_axis_gains_distance t) \<and> ff_axis_ok (g_ff_axis_gains_heading t) \<and>
     friction_ok (g_ff_motor_friction t) \<and> battery_ok (g_battery_settings t)"

definition settings_ok :: "db_settings \<Rightarrow> bool" where
  "settings_ok s \<longleftrightarrow> tunables_ok (tunables s) \<and> pred_option tunables_ok (captured s)"

lemmas ok_defs = tunables_ok_def gains_ok_def comp_ok_def ff_axis_ok_def friction_ok_def battery_ok_def
  stall_ok_def

lemma init_tunables_ok: "tunables_ok init_tunables"
  by (simp add: ok_defs init_defs limit_defs)

text \<open>What a range-checked store does, on every branch.\<close>

lemma set_in_range_cases:
  "set_in_range_i32 dst v lo hi s =
     (if g_settings_frozen s then (- EBUSY, s)
      else if lo \<le> v \<and> v \<le> hi then (0, store dst s) else (- EINVAL, s))"
  "set_in_range_u32 dst v hi s =
     (if g_settings_frozen s then (- EBUSY, s) else if v \<le> hi then (0, store dst s) else (- EINVAL, s))"
  by (auto simp: set_in_range_i32_def set_in_range_u32_def check_writable_def errno_defs)

section \<open>The interface of a guarded store\<close>

text \<open>
  What a client of the settings module relies on: a write either fails and changes nothing or
  succeeds; no write changes a frozen store; the invariant and the captured defaults survive.
\<close>

locale guarded_store =
  fixes put :: "'k \<Rightarrow> int \<Rightarrow> db_settings \<Rightarrow> int \<times> db_settings"
  assumes put_error: "fst (put k v s) \<noteq> 0 \<Longrightarrow> snd (put k v s) = s"
    and put_frozen: "g_settings_frozen s \<Longrightarrow> fst (put k v s) < 0"
    and put_ok: "tunables_ok (tunables s) \<Longrightarrow> tunables_ok (tunables (snd (put k v s)))"
    and put_keeps: "captured (snd (put k v s)) = captured s \<and>
      g_settings_frozen (snd (put k v s)) = g_settings_frozen s"
begin

lemma put_frozen_same: "g_settings_frozen s \<Longrightarrow> snd (put k v s) = s"
  using put_error [of k v s] put_frozen [of s k v] by simp

lemma put_settings_ok: "settings_ok s \<Longrightarrow> settings_ok (snd (put k v s))"
  using put_ok put_keeps by (simp add: settings_ok_def)

end

text \<open>Every setter either fails and changes nothing, or stores a value that keeps the ranges.\<close>

definition sound_write :: "db_settings \<Rightarrow> int \<times> db_settings \<Rightarrow> bool" where
  "sound_write s r \<longleftrightarrow> (fst r < 0 \<and> snd r = s) \<or>
     (fst r = 0 \<and> \<not> g_settings_frozen s \<and>
      (\<exists>f. snd r = store f s \<and> (\<forall>t. tunables_ok t \<longrightarrow> tunables_ok (f t))))"

lemma sound_fail: "e > 0 \<Longrightarrow> sound_write s (- e, s)"
  by (simp add: sound_write_def)

lemma sound_store:
  "\<not> g_settings_frozen s \<Longrightarrow> (\<And>t. tunables_ok t \<Longrightarrow> tunables_ok (f t)) \<Longrightarrow> sound_write s (0, store f s)"
  by (auto simp: sound_write_def)

lemma sound_i32:
  assumes "\<And>t. lo \<le> v \<Longrightarrow> v \<le> hi \<Longrightarrow> tunables_ok t \<Longrightarrow> tunables_ok (dst t)"
  shows "sound_write s (set_in_range_i32 dst v lo hi s)"
  using assms by (auto simp: set_in_range_cases errno_defs intro!: sound_fail sound_store)

lemma sound_u32:
  assumes "\<And>t. v \<le> hi \<Longrightarrow> tunables_ok t \<Longrightarrow> tunables_ok (dst t)"
  shows "sound_write s (set_in_range_u32 dst v hi s)"
  using assms by (auto simp: set_in_range_cases errno_defs intro!: sound_fail sound_store)

lemma pid_gains_mut_ok:
  "tunables_ok t \<Longrightarrow> (\<And>g. gains_ok g \<Longrightarrow> gains_ok (f g)) \<Longrightarrow> tunables_ok (pid_gains_mut axis f t)"
  by (simp add: tunables_ok_def pid_gains_mut_def)

lemma comp_mut_ok:
  "tunables_ok t \<Longrightarrow> (\<And>c. comp_ok c \<Longrightarrow> comp_ok (f c)) \<Longrightarrow> tunables_ok (comp_mut axis f t)"
  by (simp add: tunables_ok_def comp_mut_def)

lemma ff_axis_mut_ok:
  "tunables_ok t \<Longrightarrow> (\<And>g. ff_axis_ok g \<Longrightarrow> ff_axis_ok (f g)) \<Longrightarrow> tunables_ok (ff_axis_mut axis f t)"
  by (simp add: tunables_ok_def ff_axis_mut_def)

lemma sound_if: "(b \<Longrightarrow> sound_write s x) \<Longrightarrow> (\<not> b \<Longrightarrow> sound_write s y) \<Longrightarrow> sound_write s (if b then x else y)"
  by simp

lemma check_writable_neg: "check_writable s < 0 \<longleftrightarrow> g_settings_frozen s"
  by (simp add: check_writable_def errno_defs)

lemma sound_frozen: "g_settings_frozen s \<Longrightarrow> sound_write s (check_writable s, s)"
  by (simp add: check_writable_def errno_defs sound_write_def)

lemma axis_setter_sound: "sound_write s (axis_setter k axis v s)"
  by (cases k; simp only: axis_setter.simps setter_defs Let_def check_writable_neg;
      intro sound_if sound_i32 sound_u32 sound_frozen sound_store pid_gains_mut_ok comp_mut_ok ff_axis_mut_ok;
      simp add: gains_ok_def comp_ok_def ff_axis_ok_def limit_defs EINVAL_def sound_fail)

lemma global_setter_sound: "sound_write s (global_setter k v s)"
  by (cases k; simp only: global_setter.simps setter_defs; intro sound_i32 sound_u32;
      simp add: tunables_ok_def stall_ok_def friction_ok_def battery_ok_def limit_defs)

lemma sound_writeD:
  assumes "sound_write s r"
  shows "fst r \<noteq> 0 \<Longrightarrow> snd r = s" and "g_settings_frozen s \<Longrightarrow> fst r < 0"
    and "tunables_ok (tunables s) \<Longrightarrow> tunables_ok (tunables (snd r))"
    and "captured (snd r) = captured s" and "g_settings_frozen (snd r) = g_settings_frozen s"
  using assms by (auto simp: sound_write_def store_def)

interpretation axis_store: guarded_store "\<lambda>(k, axis). axis_setter k axis"
  using sound_writeD [OF axis_setter_sound] by unfold_locales auto

interpretation global_store: guarded_store global_setter
  using sound_writeD [OF global_setter_sound] by unfold_locales auto

section \<open>Properties of histories\<close>

lemma query_keeps [simp]:
  "tunables (snd (db_settings_distance_limits w s)) = tunables s"
  "captured (snd (db_settings_distance_limits w s)) = captured s"
  "g_settings_frozen (snd (db_settings_distance_limits w s)) = g_settings_frozen s"
  "tunables (snd (db_settings_heading_limits w ax s)) = tunables s"
  "captured (snd (db_settings_heading_limits w ax s)) = captured s"
  "g_settings_frozen (snd (db_settings_heading_limits w ax s)) = g_settings_frozen s"
  "tunables (snd (db_settings_completion_axis axis s)) = tunables s"
  "captured (snd (db_settings_completion_axis axis s)) = captured s"
  "g_settings_frozen (snd (db_settings_completion_axis axis s)) = g_settings_frozen s"
  by (simp_all add: db_settings_distance_limits_def db_settings_heading_limits_def Let_def
      db_settings_completion_axis_def recompute_distance_def recompute_heading_def)

lemmas control_defs = db_settings_freeze_def db_settings_thaw_def db_settings_reset_to_defaults_def

lemma step_ok: "settings_ok s \<Longrightarrow> settings_ok (settings_step op s)"
proof (cases op)
  case (Axis_Set k axis v)
  then show "settings_ok s \<Longrightarrow> ?thesis" using axis_store.put_settings_ok [of s "(k, axis)" v] by simp
next
  case (Global_Set k v)
  then show "settings_ok s \<Longrightarrow> ?thesis" using global_store.put_settings_ok by simp
qed (auto simp: settings_ok_def control_defs split: option.splits)

lemma run_ok: "settings_ok s \<Longrightarrow> settings_ok (settings_run ops s)"
  unfolding settings_run_def by (induction ops arbitrary: s) (simp_all add: step_ok)

lemma reach_ok: "settings_ok (settings_run ops init_settings)"
  by (rule run_ok) (simp add: settings_ok_def init_settings_def init_tunables_ok)

lemma completion_query_bounds:
  fixes axis :: int
  assumes "settings_ok s"
  defines "c \<equiv> fst (db_settings_completion_axis axis s)"
  shows "1000 \<le> pos_tolerance_mdeg c \<and> pos_tolerance_mdeg c \<le> 400000 \<and>
    0 \<le> smart_continue_window_mdeg c \<and> smart_continue_window_mdeg c \<le> 60000"
proof -
  let ?src = "if axis = DB_AXIS_HEADING then g_completion_heading (tunables s)
              else g_completion_distance (tunables s)"
  have g: "1 \<le> kp_pos (db_settings_pid_gains s axis)" and c: "comp_ok ?src"
    using assms(1) by (auto simp: settings_ok_def tunables_ok_def gains_ok_def db_settings_pid_gains_def)
  have "400000 div kp_pos (db_settings_pid_gains s axis) \<le> 400000 div 1"
    using g by (intro zdiv_mono2) auto
  then have "1000 \<le> derive_pos_tolerance_mdeg (kp_pos (db_settings_pid_gains s axis))"
    "derive_pos_tolerance_mdeg (kp_pos (db_settings_pid_gains s axis)) \<le> 400000"
    using g by (simp_all add: derive_pos_tolerance_mdeg_def limit_defs cdiv_nonneg Let_def)
  then show ?thesis using c
    by (auto simp: c_def db_settings_completion_axis_def Let_def comp_ok_def limit_defs)
qed

text \<open>
  C37. Whatever setters, queries, freezes, thaws and resets are performed, in any order and with any
  arguments, the tunables keep their ranges: the proportional gain stays positive, the duty rails
  stay symmetric and within 100 percent, the battery voltages stay positive, and the completion query
  returns a tolerance of at least one encoder step and at most 400 degrees.
\<close>

theorem settings_always_in_range:
  "let s = settings_run ops init_settings; c = fst (db_settings_completion_axis axis s) in
   tunables_ok (tunables s) \<and> 1000 \<le> pos_tolerance_mdeg c \<and> pos_tolerance_mdeg c \<le> 400000 \<and>
   0 \<le> smart_continue_window_mdeg c \<and> smart_continue_window_mdeg c \<le> 60000"
  using reach_ok [of ops] completion_query_bounds [OF reach_ok [of ops], of axis]
  by (simp add: settings_ok_def Let_def)

text \<open>
  The operations of a session between a freeze and the next thaw: setters, queries, resets and
  further freezes.
\<close>

definition no_thaw :: "settings_op \<Rightarrow> bool" where
  "no_thaw op = (op \<noteq> Thaw)"

lemma step_frozen:
  assumes "g_settings_frozen s" "no_thaw op"
  shows "tunables (settings_step op s) = tunables s \<and> g_settings_frozen (settings_step op s)"
proof (cases op)
  case (Axis_Set k axis v)
  then show ?thesis using axis_store.put_frozen_same [of s "(k, axis)" v] assms by simp
next
  case (Global_Set k v)
  then show ?thesis using global_store.put_frozen_same assms by simp
qed (use assms in \<open>auto simp: no_thaw_def control_defs split: option.splits\<close>)

text \<open>
  Fact. A frozen settings store is immutable until it is thawed: no sequence of setters, resets or
  queries changes any tunable, and every setter reports an error.
\<close>

theorem settings_frozen_immutable:
  assumes "list_all no_thaw ops"
  shows "let s' = settings_run ops (db_settings_freeze s) in
     tunables s' = tunables s \<and> g_settings_frozen s' \<and>
     fst (axis_setter ka axis v s') < 0 \<and> fst (global_setter kg v s') < 0"
proof -
  have run: "tunables (fold settings_step ops t) = tunables t \<and> g_settings_frozen (fold settings_step ops t)"
    if "g_settings_frozen t" for t
    using assms that by (induction ops arbitrary: t) (simp_all add: step_frozen)
  have ax: "fst (axis_setter ka axis v t) < 0" and gl: "fst (global_setter kg v t) < 0"
    if "g_settings_frozen t" for t
    using that sound_writeD(2) [OF axis_setter_sound] sound_writeD(2) [OF global_setter_sound] by auto
  show ?thesis
    using run [of "db_settings_freeze s"] ax gl
    by (simp add: settings_run_def Let_def db_settings_freeze_def)
qed

theorem settings_frozen_immutable_witness:
  "let s' = settings_run [Axis_Set K_pid_kp_pos 0 7, Reset_To_Defaults, Global_Set K_ff_kS 0]
              (db_settings_freeze init_settings) in
   tunables s' = tunables init_settings \<and> g_settings_frozen s' \<and>
   fst (axis_setter K_pid_out_max 1 5000 s') < 0 \<and> fst (global_setter K_battery_min_mv 5000 s') < 0"
  by (rule settings_frozen_immutable) (simp add: no_thaw_def)

lemma step_captured:
  assumes "captured s = Some t"
  shows "captured (settings_step op s) = Some t"
proof (cases op)
  case (Axis_Set k axis v)
  then show ?thesis using sound_writeD(4) [OF axis_setter_sound] assms by simp
next
  case (Global_Set k v)
  then show ?thesis using sound_writeD(4) [OF global_setter_sound] assms by simp
qed (use assms in \<open>auto simp: control_defs split: option.splits\<close>)

text \<open>
  Fact. A daemon restart starts from the built-in values: once the defaults have been captured by a
  first reset at start-up, a thaw followed by a reset restores exactly the compiled-in tunables after
  any history of the module.
\<close>

theorem settings_reset_restores_defaults:
  "tunables (db_settings_reset_to_defaults (db_settings_thaw
     (settings_run ops (db_settings_reset_to_defaults init_settings)))) = init_tunables"
proof -
  have "captured (fold settings_step ops s) = Some t" if "captured s = Some t" for s t
    using that by (induction ops arbitrary: s) (simp_all add: step_captured)
  from this [of "db_settings_reset_to_defaults init_settings" init_tunables] show ?thesis
    by (simp add: settings_run_def db_settings_reset_to_defaults_def db_settings_thaw_def init_settings_def)
qed

end
