(* ===== verification/Db_Control.thy ===== *)
theory Db_Control
  imports Db_Settings
begin

text \<open>
  The position/speed controller of one axis, \<^verbatim>\<open>apps/drivebase/drivebase_control.c\<close>: a PID with
  anti-windup, completion judging and the passive latch. The gains and completion thresholds that the
  C input structure points to are fields of the input record here. The theorems bound the output and
  the integrator, characterise when a move counts as done, and show that the passive latch holds.
\<close>

section \<open>Completion modes\<close>

definition DRIVEBASE_ON_COMPLETION_COAST :: int where "DRIVEBASE_ON_COMPLETION_COAST = 0"
definition DRIVEBASE_ON_COMPLETION_BRAKE :: int where "DRIVEBASE_ON_COMPLETION_BRAKE = 1"
definition DRIVEBASE_ON_COMPLETION_HOLD :: int where "DRIVEBASE_ON_COMPLETION_HOLD = 2"
definition DRIVEBASE_ON_COMPLETION_CONTINUE :: int where "DRIVEBASE_ON_COMPLETION_CONTINUE = 3"
definition DRIVEBASE_ON_COMPLETION_COAST_SMART :: int where "DRIVEBASE_ON_COMPLETION_COAST_SMART = 4"
definition DRIVEBASE_ON_COMPLETION_BRAKE_SMART :: int where "DRIVEBASE_ON_COMPLETION_BRAKE_SMART = 5"

named_theorems completion_defs

lemmas [completion_defs] = DRIVEBASE_ON_COMPLETION_COAST_def DRIVEBASE_ON_COMPLETION_BRAKE_def
  DRIVEBASE_ON_COMPLETION_HOLD_def DRIVEBASE_ON_COMPLETION_CONTINUE_def
  DRIVEBASE_ON_COMPLETION_COAST_SMART_def DRIVEBASE_ON_COMPLETION_BRAKE_SMART_def

section \<open>State, input and output\<close>

record db_pid_state_s =
  i_acc :: int
  prev_pos_err_mdeg :: int
  paused :: bool
  output_saturated_high :: bool
  output_saturated_low :: bool
  done_streak_ms :: int
  pid_done :: bool
  smart_hold_streak_ms :: int
  smart_hold_active :: bool
  smart_hold_expired :: bool
  latched_passive_done :: bool
  latched_actuation :: int

record db_pid_input_s =
  in_ref_x_mdeg :: int
  in_ref_v_mdegps :: int
  in_ref_a_mdegps2 :: int
  in_act_x_mdeg :: int
  in_act_v_mdegps :: int
  in_dt_ms :: int
  in_gains :: db_servo_gains_s
  in_completion :: db_completion_settings_s
  in_duty_ff :: int
  in_trajectory_done :: bool
  in_on_completion :: int

record db_pid_output_s =
  po_duty :: int
  po_actuation :: int
  po_done :: bool

definition DB_IACC_SCALE :: int where "DB_IACC_SCALE = 256"

section \<open>Helpers\<close>

definition clamp_i32 :: "int \<Rightarrow> int \<Rightarrow> int \<Rightarrow> int" where
  "clamp_i32 v lo hi = (if v < lo then lo else if v > hi then hi else v)"

definition clamp_i64_to_i32 :: "int \<Rightarrow> int \<Rightarrow> int \<Rightarrow> int" where
  "clamp_i64_to_i32 v lo hi = (if v < lo then lo else if v > hi then hi else i32 v)"

definition abs32 :: "int \<Rightarrow> int" where
  "abs32 v = (if v < 0 then i32 (- v) else v)"

definition should_freeze_integrator ::
    "db_pid_state_s \<Rightarrow> db_servo_gains_s \<Rightarrow> int \<Rightarrow> bool \<Rightarrow> bool \<Rightarrow> bool" where
  "should_freeze_integrator st g pos_err_mdeg sat_high sat_low =
     (if paused st then True
      else if abs32 pos_err_mdeg \<le> deadband_mdeg g then True
      else if sat_high \<and> pos_err_mdeg > 0 then True
      else if sat_low \<and> pos_err_mdeg < 0 then True
      else False)"

section \<open>Operations\<close>

definition db_pid_reset :: "db_pid_state_s \<Rightarrow> db_pid_state_s" where
  "db_pid_reset st =
     \<lparr>i_acc = 0, prev_pos_err_mdeg = 0, paused = False, output_saturated_high = False,
      output_saturated_low = False, done_streak_ms = 0, pid_done = False, smart_hold_streak_ms = 0,
      smart_hold_active = False, smart_hold_expired = False, latched_passive_done = False,
      latched_actuation = 0\<rparr>"

definition db_pid_init :: "db_pid_state_s \<Rightarrow> db_pid_state_s" where
  "db_pid_init st = db_pid_reset st"

definition db_pid_pause :: "bool \<Rightarrow> db_pid_state_s \<Rightarrow> db_pid_state_s" where
  "db_pid_pause p st =
     (if \<not> p then st\<lparr>paused := p, latched_passive_done := False, latched_actuation := 0\<rparr>
      else st\<lparr>paused := p\<rparr>)"

definition db_pid_stop_passive :: "db_pid_state_s \<Rightarrow> db_pid_state_s" where
  "db_pid_stop_passive st = (db_pid_reset st)\<lparr>paused := True, pid_done := True\<rparr>"

text \<open>\<^verbatim>\<open>db_pid_update\<close> follows, in the order of its stages.\<close>

definition pid_pos_err :: "db_pid_input_s \<Rightarrow> int" where
  "pid_pos_err inp =
     (let pos_err_64 = i64 (in_ref_x_mdeg inp - in_act_x_mdeg inp);
          e1 = (if pos_err_64 > INT32_MAX then INT32_MAX else pos_err_64);
          e2 = (if e1 < INT32_MIN then INT32_MIN else e1) in
      i32 e2)"

definition pid_speed_err :: "db_pid_input_s \<Rightarrow> int" where
  "pid_speed_err inp = i32 (in_ref_v_mdegps inp - in_act_v_mdegps inp)"

definition pid_out_unsat :: "db_pid_state_s \<Rightarrow> db_pid_input_s \<Rightarrow> int" where
  "pid_out_unsat st inp =
     (let g = in_gains inp; pos_err = pid_pos_err inp; speed_err = pid_speed_err inp;
          p_term = cdiv (i64 (kp_pos g * pos_err)) 1000;
          d_term = (if in_dt_ms inp > 0
                    then cdiv (i64 (kd_pos g * i32 (pos_err - prev_pos_err_mdeg st))) (in_dt_ms inp)
                    else 0);
          kpv = cdiv (i64 (kp_speed g * speed_err)) 1000 in
      i64 (i64 (i64 (i64 (p_term + d_term) + kpv) + cdiv (i_acc st) DB_IACC_SCALE) + in_duty_ff inp))"

definition pid_integrate :: "db_pid_input_s \<Rightarrow> int \<Rightarrow> int" where
  "pid_integrate inp acc =
     (let g = in_gains inp;
          step1 = cdiv (i64 (i64 (ki_pos g * pid_pos_err inp) * in_dt_ms inp)) 1000;
          acc1 = i64 (acc + step1);
          step2 = cdiv (i64 (i64 (ki_speed g * pid_speed_err inp) * in_dt_ms inp)) 1000;
          acc2 = i64 (acc1 + step2);
          i_clip = i64 (out_max g * DB_IACC_SCALE);
          acc3 = (if acc2 > i_clip then i_clip else acc2) in
      if acc3 < - i_clip then - i_clip else acc3)"

definition pid_track :: "db_pid_state_s \<Rightarrow> db_pid_input_s \<Rightarrow> db_pid_state_s" where
  "pid_track st inp =
     (let g = in_gains inp; pos_err = pid_pos_err inp; out_unsat = pid_out_unsat st inp;
          sat_high = (out_unsat > out_max g); sat_low = (out_unsat < out_min g);
          acc = (if \<not> should_freeze_integrator st g pos_err sat_high sat_low
                 then pid_integrate inp (i_acc st) else i_acc st) in
      st\<lparr>i_acc := acc, prev_pos_err_mdeg := pos_err, output_saturated_high := sat_high,
         output_saturated_low := sat_low\<rparr>)"

definition pid_in_window :: "db_pid_input_s \<Rightarrow> bool" where
  "pid_in_window inp =
     (in_trajectory_done inp \<and>
      abs32 (pid_pos_err inp) \<le> pos_tolerance_mdeg (in_completion inp) \<and>
      abs32 (pid_speed_err inp) \<le> speed_tolerance_mdegps (in_completion inp))"

definition pid_judge :: "db_pid_input_s \<Rightarrow> db_pid_state_s \<Rightarrow> db_pid_state_s" where
  "pid_judge inp st =
     (if pid_in_window inp then
        let streak = u32 (done_streak_ms st + in_dt_ms inp) in
        if streak \<ge> done_window_ms (in_completion inp)
        then st\<lparr>done_streak_ms := streak, pid_done := True\<rparr>
        else st\<lparr>done_streak_ms := streak\<rparr>
      else st\<lparr>done_streak_ms := 0, pid_done := False\<rparr>)"

definition pid_latch :: "int \<Rightarrow> db_pid_state_s \<Rightarrow> db_pid_state_s" where
  "pid_latch act st = (db_pid_pause True st)\<lparr>latched_passive_done := True, latched_actuation := act\<rparr>"

definition pid_smart_hold :: "db_pid_input_s \<Rightarrow> db_pid_state_s \<Rightarrow> db_pid_state_s" where
  "pid_smart_hold inp st =
     (let st1 = (if \<not> smart_hold_active st \<and> \<not> smart_hold_expired st
                 then st\<lparr>smart_hold_active := True, smart_hold_streak_ms := 0\<rparr> else st) in
      if smart_hold_active st1 then
        let streak = u32 (smart_hold_streak_ms st1 + in_dt_ms inp) in
        if streak \<ge> smart_passive_hold_ms (in_completion inp)
        then st1\<lparr>smart_hold_streak_ms := streak, smart_hold_active := False, smart_hold_expired := True\<rparr>
        else st1\<lparr>smart_hold_streak_ms := streak\<rparr>
      else st1)"

definition pid_complete :: "db_pid_input_s \<Rightarrow> int \<Rightarrow> db_pid_state_s \<Rightarrow> int \<times> int \<times> db_pid_state_s" where
  "pid_complete inp duty st =
     (let oc = in_on_completion inp in
      if \<not> pid_done st then (duty, DRIVEBASE_ON_COMPLETION_HOLD, st)
      else if oc = DRIVEBASE_ON_COMPLETION_COAST then
        (0, DRIVEBASE_ON_COMPLETION_COAST, pid_latch DRIVEBASE_ON_COMPLETION_COAST st)
      else if oc = DRIVEBASE_ON_COMPLETION_BRAKE then
        (0, DRIVEBASE_ON_COMPLETION_BRAKE, pid_latch DRIVEBASE_ON_COMPLETION_BRAKE st)
      else if oc = DRIVEBASE_ON_COMPLETION_HOLD then (duty, DRIVEBASE_ON_COMPLETION_HOLD, st)
      else if oc = DRIVEBASE_ON_COMPLETION_CONTINUE then (duty, DRIVEBASE_ON_COMPLETION_HOLD, st)
      else if oc = DRIVEBASE_ON_COMPLETION_COAST_SMART \<or> oc = DRIVEBASE_ON_COMPLETION_BRAKE_SMART then
        let st' = pid_smart_hold inp st in
        if smart_hold_expired st' then
          let act = (if oc = DRIVEBASE_ON_COMPLETION_BRAKE_SMART
                     then DRIVEBASE_ON_COMPLETION_BRAKE else DRIVEBASE_ON_COMPLETION_COAST) in
          (0, act, pid_latch act st')
        else (duty, DRIVEBASE_ON_COMPLETION_HOLD, st')
      else (duty, DRIVEBASE_ON_COMPLETION_HOLD, st))"

definition db_pid_update :: "db_pid_input_s \<Rightarrow> db_pid_state_s \<Rightarrow> db_pid_output_s \<times> db_pid_state_s" where
  "db_pid_update inp st =
     (if latched_passive_done st then
        (\<lparr>po_duty = 0, po_actuation = latched_actuation st, po_done = True\<rparr>, st)
      else
        let g = in_gains inp;
            duty = clamp_i64_to_i32 (pid_out_unsat st inp) (out_min g) (out_max g);
            st1 = pid_judge inp (pid_track st inp) in
        case pid_complete inp duty st1 of (d, act, st2) \<Rightarrow>
          (\<lparr>po_duty = d, po_actuation = act, po_done = pid_done st1\<rparr>, st2))"

section \<open>The interface of a controller with a passive latch\<close>

text \<open>
  What the layers above rely on: once latched, a controller's updates are switched off and do not
  change its state, so it stays off for any sequence of inputs.
\<close>

locale latched_controller =
  fixes update :: "'i \<Rightarrow> 's \<Rightarrow> 'o \<times> 's"
    and latched :: "'s \<Rightarrow> bool"
    and off_output :: "'s \<Rightarrow> 'o"
  assumes latched_update: "latched s \<Longrightarrow> update i s = (off_output s, s)"
begin

lemma latched_run: "latched s \<Longrightarrow> fold (\<lambda>i t. snd (update i t)) is s = s"
  by (induction "is") (simp_all add: latched_update)

lemma latched_outputs:
  "latched s \<Longrightarrow> fst (update i (fold (\<lambda>i t. snd (update i t)) is s)) = off_output s"
  by (simp add: latched_run latched_update)

end

definition pid_off_output :: "db_pid_state_s \<Rightarrow> db_pid_output_s" where
  "pid_off_output st = \<lparr>po_duty = 0, po_actuation = latched_actuation st, po_done = True\<rparr>"

interpretation pid_latch: latched_controller db_pid_update latched_passive_done pid_off_output
  by unfold_locales (simp add: db_pid_update_def pid_off_output_def)

section \<open>Stage lemmas\<close>

lemma track_frame [simp]:
  "paused (pid_track st inp) = paused st" "done_streak_ms (pid_track st inp) = done_streak_ms st"
  "pid_done (pid_track st inp) = pid_done st"
  "smart_hold_active (pid_track st inp) = smart_hold_active st"
  "smart_hold_expired (pid_track st inp) = smart_hold_expired st"
  "latched_passive_done (pid_track st inp) = latched_passive_done st"
  by (simp_all add: pid_track_def Let_def)

lemma judge_frame [simp]:
  "i_acc (pid_judge inp st) = i_acc st"
  "latched_passive_done (pid_judge inp st) = latched_passive_done st"
  "output_saturated_high (pid_judge inp st) = output_saturated_high st"
  "output_saturated_low (pid_judge inp st) = output_saturated_low st"
  by (simp_all add: pid_judge_def Let_def)

lemma latch_frame [simp]:
  "i_acc (pid_latch act st) = i_acc st" "latched_passive_done (pid_latch act st)"
  "latched_actuation (pid_latch act st) = act" "pid_done (pid_latch act st) = pid_done st"
  "output_saturated_high (pid_latch act st) = output_saturated_high st"
  "output_saturated_low (pid_latch act st) = output_saturated_low st"
  by (simp_all add: pid_latch_def db_pid_pause_def)

lemma smart_hold_frame [simp]:
  "i_acc (pid_smart_hold inp st) = i_acc st" "pid_done (pid_smart_hold inp st) = pid_done st"
  "latched_passive_done (pid_smart_hold inp st) = latched_passive_done st"
  "output_saturated_high (pid_smart_hold inp st) = output_saturated_high st"
  "output_saturated_low (pid_smart_hold inp st) = output_saturated_low st"
  "done_streak_ms (pid_smart_hold inp st) = done_streak_ms st"
  by (simp_all add: pid_smart_hold_def Let_def)

definition completion_shape :: "db_pid_input_s \<Rightarrow> int \<Rightarrow> db_pid_state_s \<Rightarrow> int \<times> int \<times> db_pid_state_s \<Rightarrow> bool" where
  "completion_shape inp duty st r \<longleftrightarrow> (\<exists>st'. (st' = st \<or> st' = pid_smart_hold inp st) \<and>
     (r = (duty, DRIVEBASE_ON_COMPLETION_HOLD, st') \<or>
      pid_done st \<and> (\<exists>act. (act = DRIVEBASE_ON_COMPLETION_COAST \<or> act = DRIVEBASE_ON_COMPLETION_BRAKE) \<and>
        r = (0, act, pid_latch act st'))))"

lemma shape_if:
  "(b \<Longrightarrow> completion_shape inp duty st x) \<Longrightarrow> (\<not> b \<Longrightarrow> completion_shape inp duty st y) \<Longrightarrow>
   completion_shape inp duty st (if b then x else y)"
  by simp

lemma shape_hold:
  "completion_shape inp duty st (duty, DRIVEBASE_ON_COMPLETION_HOLD, st)"
  "completion_shape inp duty st (duty, DRIVEBASE_ON_COMPLETION_HOLD, pid_smart_hold inp st)"
  unfolding completion_shape_def by blast+

lemma shape_latch:
  assumes "pid_done st" "act = DRIVEBASE_ON_COMPLETION_COAST \<or> act = DRIVEBASE_ON_COMPLETION_BRAKE"
  shows "completion_shape inp duty st (0, act, pid_latch act st)"
    and "completion_shape inp duty st (0, act, pid_latch act (pid_smart_hold inp st))"
  unfolding completion_shape_def using assms by blast+

lemma complete_shape: "completion_shape inp duty st (pid_complete inp duty st)"
proof -
  have smart: "(if b then DRIVEBASE_ON_COMPLETION_BRAKE else DRIVEBASE_ON_COMPLETION_COAST) = DRIVEBASE_ON_COMPLETION_COAST \<or>
      (if b then DRIVEBASE_ON_COMPLETION_BRAKE else DRIVEBASE_ON_COMPLETION_COAST) = DRIVEBASE_ON_COMPLETION_BRAKE" for b
    by simp
  show ?thesis
    unfolding pid_complete_def Let_def
    by (intro shape_if shape_hold shape_latch smart disjI1 [OF refl] disjI2 [OF refl]) simp_all
qed

lemma complete_cases:
  obtains (active) st' where "pid_complete inp duty st = (duty, DRIVEBASE_ON_COMPLETION_HOLD, st')"
      "i_acc st' = i_acc st" "pid_done st' = pid_done st"
      "latched_passive_done st' = latched_passive_done st"
      "output_saturated_high st' = output_saturated_high st"
      "output_saturated_low st' = output_saturated_low st"
      "done_streak_ms st' = done_streak_ms st"
  | (latching) act st' where "pid_complete inp duty st = (0, act, st')"
      "act = DRIVEBASE_ON_COMPLETION_COAST \<or> act = DRIVEBASE_ON_COMPLETION_BRAKE"
      "latched_passive_done st'" "latched_actuation st' = act" "i_acc st' = i_acc st" "pid_done st"
      "pid_done st' = pid_done st" "output_saturated_high st' = output_saturated_high st"
      "output_saturated_low st' = output_saturated_low st"
proof -
  obtain st' where st': "st' = st \<or> st' = pid_smart_hold inp st"
    "pid_complete inp duty st = (duty, DRIVEBASE_ON_COMPLETION_HOLD, st') \<or>
     pid_done st \<and> (\<exists>act. (act = DRIVEBASE_ON_COMPLETION_COAST \<or> act = DRIVEBASE_ON_COMPLETION_BRAKE) \<and>
       pid_complete inp duty st = (0, act, pid_latch act st'))"
    using complete_shape [of inp duty st] unfolding completion_shape_def by blast
  have fr: "i_acc st' = i_acc st" "pid_done st' = pid_done st"
    "latched_passive_done st' = latched_passive_done st"
    "output_saturated_high st' = output_saturated_high st"
    "output_saturated_low st' = output_saturated_low st" "done_streak_ms st' = done_streak_ms st"
    using st'(1) by auto
  from st'(2) show thesis
  proof
    assume "pid_complete inp duty st = (duty, DRIVEBASE_ON_COMPLETION_HOLD, st')"
    then show thesis by (rule active) (rule fr)+
  next
    assume "pid_done st \<and> (\<exists>act. (act = DRIVEBASE_ON_COMPLETION_COAST \<or> act = DRIVEBASE_ON_COMPLETION_BRAKE) \<and>
       pid_complete inp duty st = (0, act, pid_latch act st'))"
    then obtain act where "pid_done st" "act = DRIVEBASE_ON_COMPLETION_COAST \<or> act = DRIVEBASE_ON_COMPLETION_BRAKE"
      "pid_complete inp duty st = (0, act, pid_latch act st')" by blast
    then show thesis using latching [of act "pid_latch act st'"] fr by simp
  qed
qed

lemma update_cases:
  obtains (latched) "latched_passive_done st" "db_pid_update inp st = (pid_off_output st, st)"
  | (active) st' where "\<not> latched_passive_done st" "db_pid_update inp st =
        (\<lparr>po_duty = clamp_i64_to_i32 (pid_out_unsat st inp) (out_min (in_gains inp)) (out_max (in_gains inp)),
          po_actuation = DRIVEBASE_ON_COMPLETION_HOLD, po_done = pid_done (pid_judge inp (pid_track st inp))\<rparr>, st')"
      "i_acc st' = i_acc (pid_track st inp)" "pid_done st' = pid_done (pid_judge inp (pid_track st inp))"
      "\<not> latched_passive_done st'"
      "output_saturated_high st' = output_saturated_high (pid_track st inp)"
      "output_saturated_low st' = output_saturated_low (pid_track st inp)"
      "done_streak_ms st' = done_streak_ms (pid_judge inp (pid_track st inp))"
  | (latching) act st' where "\<not> latched_passive_done st"
      "db_pid_update inp st = (\<lparr>po_duty = 0, po_actuation = act, po_done = True\<rparr>, st')"
      "act = DRIVEBASE_ON_COMPLETION_COAST \<or> act = DRIVEBASE_ON_COMPLETION_BRAKE"
      "latched_passive_done st'" "latched_actuation st' = act" "i_acc st' = i_acc (pid_track st inp)"
      "pid_done st'" "output_saturated_high st' = output_saturated_high (pid_track st inp)"
      "output_saturated_low st' = output_saturated_low (pid_track st inp)"
proof (cases "latched_passive_done st")
  case True
  then show thesis using that(1) pid_latch.latched_update by blast
next
  case False
  let ?duty = "clamp_i64_to_i32 (pid_out_unsat st inp) (out_min (in_gains inp)) (out_max (in_gains inp))"
  let ?st1 = "pid_judge inp (pid_track st inp)"
  show thesis
  proof (cases rule: complete_cases [of inp ?duty ?st1])
    case (active st')
    then show thesis using that(2) [of st'] False by (simp add: db_pid_update_def Let_def)
  next
    case (latching act st')
    then show thesis using that(3) [of act st'] False by (simp add: db_pid_update_def Let_def)
  qed
qed

section \<open>Bounds\<close>

definition iacc_bounded :: "db_servo_gains_s \<Rightarrow> db_pid_state_s \<Rightarrow> bool" where
  "iacc_bounded g st \<longleftrightarrow> \<bar>i_acc st\<bar> \<le> out_max g * DB_IACC_SCALE"

lemma integrate_bounded:
  assumes "gains_ok (in_gains inp)"
  shows "\<bar>pid_integrate inp acc\<bar> \<le> out_max (in_gains inp) * DB_IACC_SCALE"
proof -
  have "i64 (out_max (in_gains inp) * DB_IACC_SCALE) = out_max (in_gains inp) * DB_IACC_SCALE"
    using assms by (intro i64_id) (auto simp: gains_ok_def DB_IACC_SCALE_def)
  moreover have "0 \<le> out_max (in_gains inp) * DB_IACC_SCALE"
    using assms by (simp add: gains_ok_def DB_IACC_SCALE_def)
  ultimately show ?thesis by (auto simp: pid_integrate_def Let_def)
qed

lemma track_bounded:
  assumes "gains_ok (in_gains inp)" "iacc_bounded (in_gains inp) st"
  shows "iacc_bounded (in_gains inp) (pid_track st inp)"
  using assms integrate_bounded by (simp add: iacc_bounded_def pid_track_def Let_def)

lemma update_bounded:
  assumes "gains_ok (in_gains inp)" "iacc_bounded (in_gains inp) st"
  shows "iacc_bounded (in_gains inp) (snd (db_pid_update inp st))"
  using track_bounded [OF assms] assms(2)
  by (cases rule: update_cases [of st inp]) (simp_all add: iacc_bounded_def)

lemma clamp_range:
  assumes "gains_ok g"
  shows "out_min g \<le> clamp_i64_to_i32 v (out_min g) (out_max g)"
    and "clamp_i64_to_i32 v (out_min g) (out_max g) \<le> out_max g"
  using assms by (auto simp: clamp_i64_to_i32_def gains_ok_def i32_id)

lemma update_duty_range:
  assumes "gains_ok (in_gains inp)"
  shows "out_min (in_gains inp) \<le> po_duty (fst (db_pid_update inp st)) \<and>
    po_duty (fst (db_pid_update inp st)) \<le> out_max (in_gains inp)"
  using clamp_range [OF assms] assms
  by (cases rule: update_cases [of st inp]) (auto simp: pid_off_output_def gains_ok_def)

datatype pid_op = Pid_Update db_pid_input_s | Pid_Pause bool | Pid_Reset | Pid_Stop_Passive

fun pid_step :: "pid_op \<Rightarrow> db_pid_state_s \<Rightarrow> db_pid_state_s" where
  "pid_step (Pid_Update inp) st = snd (db_pid_update inp st)"
| "pid_step (Pid_Pause p) st = db_pid_pause p st"
| "pid_step Pid_Reset st = db_pid_reset st"
| "pid_step Pid_Stop_Passive st = db_pid_stop_passive st"

fun uses_gains :: "db_servo_gains_s \<Rightarrow> pid_op \<Rightarrow> bool" where
  "uses_gains g (Pid_Update inp) = (in_gains inp = g)"
| "uses_gains g _ = True"

lemma pid_step_bounded:
  assumes "gains_ok g" "iacc_bounded g st" "uses_gains g op"
  shows "iacc_bounded g (pid_step op st)"
  using assms update_bounded
  by (cases op) (auto simp: iacc_bounded_def db_pid_pause_def db_pid_reset_def db_pid_stop_passive_def
      gains_ok_def DB_IACC_SCALE_def)

text \<open>
  C16. For the whole life of a controller with valid gains, whatever references, measurements and
  feed-forward it is given (the values may be extreme or even wrap), the duty stays between the rails
  and the integrator never holds more than one full output.
\<close>

theorem pid_duty_and_integrator_bounded:
  assumes "gains_ok g" "list_all (uses_gains g) ops" "in_gains inp = g"
  shows "let st = fold pid_step ops (db_pid_init st0); out = fst (db_pid_update inp st) in
     \<bar>i_acc st\<bar> \<le> out_max g * DB_IACC_SCALE \<and> out_min g \<le> po_duty out \<and> po_duty out \<le> out_max g"
proof -
  have "iacc_bounded g (fold pid_step ops st)" if "iacc_bounded g st" for st
    using assms(2) that by (induction ops arbitrary: st) (simp_all add: pid_step_bounded [OF assms(1)])
  moreover have "iacc_bounded g (db_pid_init st0)"
    using assms(1) by (simp add: iacc_bounded_def db_pid_init_def db_pid_reset_def gains_ok_def DB_IACC_SCALE_def)
  ultimately show ?thesis
    using update_duty_range [of inp] assms by (simp add: Let_def iacc_bounded_def)
qed

definition demo_input :: "int \<Rightarrow> int \<Rightarrow> bool \<Rightarrow> int \<Rightarrow> db_pid_input_s" where
  "demo_input ref act fin oc =
     \<lparr>in_ref_x_mdeg = ref, in_ref_v_mdegps = 0, in_ref_a_mdegps2 = 0, in_act_x_mdeg = act,
      in_act_v_mdegps = 0, in_dt_ms = 2, in_gains = init_pid_gains_distance,
      in_completion = init_completion\<lparr>pos_tolerance_mdeg := 8000\<rparr>, in_duty_ff = 0,
      in_trajectory_done = fin, in_on_completion = oc\<rparr>"

definition demo_near_done :: db_pid_state_s where
  "demo_near_done =
     \<lparr>i_acc = 0, prev_pos_err_mdeg = 0, paused = False, output_saturated_high = False,
      output_saturated_low = False, done_streak_ms = 48, pid_done = False, smart_hold_streak_ms = 0,
      smart_hold_active = False, smart_hold_expired = False, latched_passive_done = False,
      latched_actuation = 0\<rparr>"

lemma init_gains_ok: "gains_ok init_pid_gains_distance"
  using init_tunables_ok by (simp add: tunables_ok_def init_tunables_def)

theorem pid_duty_and_integrator_bounded_witness:
  "let st = fold pid_step [Pid_Update (demo_input 900000000 0 False 2), Pid_Pause False]
              (db_pid_init demo_near_done);
       out = fst (db_pid_update (demo_input (- 900000000) 0 False 2) st) in
   \<bar>i_acc st\<bar> \<le> out_max init_pid_gains_distance * DB_IACC_SCALE \<and>
   out_min init_pid_gains_distance \<le> po_duty out \<and> po_duty out \<le> out_max init_pid_gains_distance"
  by (rule pid_duty_and_integrator_bounded) (simp_all add: init_gains_ok demo_input_def)

section \<open>The passive latch\<close>

lemma update_latches:
  assumes "po_actuation (fst (db_pid_update inp st)) \<noteq> DRIVEBASE_ON_COMPLETION_HOLD"
  shows "latched_passive_done (snd (db_pid_update inp st)) \<and>
    po_duty (fst (db_pid_update inp st)) = 0 \<and>
    latched_actuation (snd (db_pid_update inp st)) = po_actuation (fst (db_pid_update inp st))"
  using assms by (cases rule: update_cases [of st inp]) (auto simp: pid_off_output_def)

text \<open>
  C15. Passive completion is final: an update that asks for anything but holding (coast or brake)
  outputs no duty, and from then on every update, for any sequence of inputs however far the robot is
  pushed away, outputs zero duty with the same actuation and still reports completion.
\<close>

theorem pid_passive_completion_is_final:
  assumes "po_actuation (fst (db_pid_update inp st)) \<noteq> DRIVEBASE_ON_COMPLETION_HOLD"
  shows "let st' = fold (\<lambda>i t. snd (db_pid_update i t)) inps (snd (db_pid_update inp st)) in
     po_duty (fst (db_pid_update inp st)) = 0 \<and>
     fst (db_pid_update inp' st') =
       \<lparr>po_duty = 0, po_actuation = po_actuation (fst (db_pid_update inp st)), po_done = True\<rparr>"
  using update_latches [OF assms] pid_latch.latched_outputs
  by (simp add: Let_def pid_off_output_def)

theorem pid_passive_completion_is_final_witness:
  "let out = fst (db_pid_update (demo_input 100 0 True DRIVEBASE_ON_COMPLETION_BRAKE) demo_near_done);
       st' = fold (\<lambda>i t. snd (db_pid_update i t)) [demo_input 100 90000 True DRIVEBASE_ON_COMPLETION_BRAKE]
               (snd (db_pid_update (demo_input 100 0 True DRIVEBASE_ON_COMPLETION_BRAKE) demo_near_done)) in
   po_duty out = 0 \<and>
   fst (db_pid_update (demo_input 5000000 0 False DRIVEBASE_ON_COMPLETION_HOLD) st') =
     \<lparr>po_duty = 0, po_actuation = po_actuation out, po_done = True\<rparr>"
proof -
  have "po_actuation (fst (db_pid_update (demo_input 100 0 True DRIVEBASE_ON_COMPLETION_BRAKE) demo_near_done))
      \<noteq> DRIVEBASE_ON_COMPLETION_HOLD" by code_simp
  from pid_passive_completion_is_final [OF this] show ?thesis unfolding Let_def .
qed

section \<open>Anti-windup\<close>

lemma cdiv_sign: "0 < b \<Longrightarrow> (0 \<le> a \<longrightarrow> 0 \<le> cdiv a b) \<and> (a \<le> 0 \<longrightarrow> cdiv a b \<le> 0)"
  by (cases "a = 0") (auto simp: cdiv_nonneg cdiv_neg pos_imp_zdiv_nonneg_iff)

lemma pos_err_range: "-2147483648 \<le> pid_pos_err inp" "pid_pos_err inp \<le> 2147483647"
  by (simp_all add: pid_pos_err_def Let_def i32_range)

text \<open>Bounds on one integration step, for ticks of up to 100 seconds.\<close>

lemma integral_step:
  assumes "0 \<le> k" "k \<le> 10000" "\<bar>e\<bar> \<le> 2147483648" "0 \<le> dt" "dt \<le> 100000"
  shows "i64 (i64 (k * e) * dt) = k * e * dt" and "\<bar>k * e * dt\<bar> \<le> 2147483648000000000"
proof -
  have "\<bar>k * e\<bar> \<le> 10000 * 2147483648" unfolding abs_mult using assms by (intro mult_mono) auto
  then have ke: "\<bar>k * e\<bar> \<le> 21474836480000" by simp
  have "\<bar>k * e * dt\<bar> \<le> 21474836480000 * 100000"
    unfolding abs_mult [of "k * e"] using ke assms by (intro mult_mono) auto
  then show b: "\<bar>k * e * dt\<bar> \<le> 2147483648000000000" by simp
  have "i64 (k * e) = k * e" using ke by (intro i64_id) auto
  then show "i64 (i64 (k * e) * dt) = k * e * dt" using b by (simp add: i64_id)
qed

lemma integrate_direction:
  assumes "gains_ok (in_gains inp)" "ki_speed (in_gains inp) = 0" "0 \<le> in_dt_ms inp" "in_dt_ms inp \<le> 100000"
    "\<bar>acc\<bar> \<le> out_max (in_gains inp) * DB_IACC_SCALE"
  shows "pid_pos_err inp \<le> 0 \<Longrightarrow> pid_integrate inp acc \<le> acc"
    and "0 \<le> pid_pos_err inp \<Longrightarrow> acc \<le> pid_integrate inp acc"
proof -
  let ?k = "ki_pos (in_gains inp)" and ?e = "pid_pos_err inp" and ?dt = "in_dt_ms inp"
  let ?clip = "out_max (in_gains inp) * DB_IACC_SCALE"
  have k: "0 \<le> ?k" "?k \<le> 10000" and clip: "0 \<le> ?clip" "?clip \<le> 2560000"
    using assms(1) by (auto simp: gains_ok_def DB_IACC_SCALE_def)
  have e: "\<bar>?e\<bar> \<le> 2147483648" using pos_err_range [of inp] by auto
  note st = integral_step [OF k e assms(3,4)]
  define x where "x = cdiv (?k * ?e * ?dt) 1000"
  have "\<bar>?k * ?e * ?dt\<bar> div 1000 \<le> 2147483648000000000 div 1000" using st(2) by (intro zdiv_mono1) auto
  then have xb: "\<bar>x\<bar> \<le> 2147483648000000" using cdiv_bounds [of 1000 "?k * ?e * ?dt"] by (simp add: x_def)
  have "i64 (acc + x) = acc + x" using xb assms(5) clip by (intro i64_id) auto
  moreover have "i64 ?clip = ?clip" using clip by (intro i64_id) auto
  moreover have "i64 0 = 0" by (rule i64_id) simp_all
  ultimately have eq: "pid_integrate inp acc =
      (let y = (if acc + x > ?clip then ?clip else acc + x) in if y < - ?clip then - ?clip else y)"
    using st(1) by (simp add: pid_integrate_def Let_def assms(2) x_def)
  show "pid_integrate inp acc \<le> acc" if "?e \<le> 0"
  proof -
    have "?k * ?e * ?dt \<le> 0" using that k assms(3) by (simp add: mult_nonneg_nonpos mult_nonpos_nonneg)
    then have "x \<le> 0" using cdiv_sign [of 1000] by (simp add: x_def)
    then show ?thesis unfolding eq using assms(5) by (auto simp: Let_def)
  qed
  show "acc \<le> pid_integrate inp acc" if "0 \<le> ?e"
  proof -
    have "0 \<le> ?k * ?e * ?dt" using that k assms(3) by simp
    then have "0 \<le> x" using cdiv_sign [of 1000] by (simp add: x_def)
    then show ?thesis unfolding eq using assms(5) by (auto simp: Let_def)
  qed
qed

text \<open>
  Fact. No wind-up: while the output is pinned at the upper rail the integrator never grows, and while
  it is pinned at the lower rail it never shrinks, whichever sign the position error has. (With the
  speed integrator off, as in both default gain sets, and ticks of at most 100 seconds.)
\<close>

theorem pid_no_windup:
  assumes "gains_ok (in_gains inp)" "ki_speed (in_gains inp) = 0" "0 \<le> in_dt_ms inp" "in_dt_ms inp \<le> 100000"
    "\<bar>i_acc st\<bar> \<le> out_max (in_gains inp) * DB_IACC_SCALE"
  shows "let st' = snd (db_pid_update inp st) in
     (if \<not> latched_passive_done st \<and> pid_out_unsat st inp > out_max (in_gains inp)
      then i_acc st' \<le> i_acc st else True) \<and>
     (if \<not> latched_passive_done st \<and> pid_out_unsat st inp < out_min (in_gains inp)
      then i_acc st' \<ge> i_acc st else True)"
proof -
  have acc: "i_acc (snd (db_pid_update inp st)) = i_acc (pid_track st inp)" if "\<not> latched_passive_done st"
    using that by (cases rule: update_cases [of st inp]) simp_all
  have "i_acc (pid_track st inp) \<le> i_acc st" if "pid_out_unsat st inp > out_max (in_gains inp)"
    using that integrate_direction(1) [OF assms] by (auto simp: pid_track_def Let_def should_freeze_integrator_def)
  moreover have "i_acc (pid_track st inp) \<ge> i_acc st" if "pid_out_unsat st inp < out_min (in_gains inp)"
    using that integrate_direction(2) [OF assms] by (auto simp: pid_track_def Let_def should_freeze_integrator_def)
  ultimately show ?thesis using acc by (simp add: Let_def)
qed

theorem pid_no_windup_witness:
  "let inp = demo_input 900000000 0 False 2; st = demo_near_done; st' = snd (db_pid_update inp st) in
   pid_out_unsat st inp > out_max (in_gains inp) \<and> i_acc st' \<le> i_acc st"
proof -
  let ?inp = "demo_input 900000000 0 False 2"
  have "pid_out_unsat demo_near_done ?inp > out_max (in_gains ?inp)" by code_simp
  moreover have "i_acc (snd (db_pid_update ?inp demo_near_done)) \<le> i_acc demo_near_done"
    using pid_no_windup [of ?inp demo_near_done] calculation init_gains_ok
    by (simp add: Let_def demo_input_def demo_near_done_def init_pid_gains_distance_def DB_IACC_SCALE_def)
  ultimately show ?thesis by (simp add: Let_def)
qed

section \<open>Completion\<close>

definition holding_input :: "db_completion_settings_s \<Rightarrow> db_pid_input_s \<Rightarrow> bool" where
  "holding_input c inp \<longleftrightarrow> pid_in_window inp \<and> in_completion inp = c \<and>
     in_on_completion inp = DRIVEBASE_ON_COMPLETION_HOLD \<and> 0 \<le> in_dt_ms inp"

definition pid_updates :: "db_pid_input_s list \<Rightarrow> db_pid_state_s \<Rightarrow> db_pid_state_s" where
  "pid_updates inps st = fold (\<lambda>i t. snd (db_pid_update i t)) inps st"

lemma holding_step:
  assumes "holding_input c inp" "\<not> latched_passive_done st" "0 \<le> done_streak_ms st"
    "done_streak_ms st + in_dt_ms inp < 2 ^ 32"
  defines "st' \<equiv> snd (db_pid_update inp st)"
  shows "\<not> latched_passive_done st'" and "done_streak_ms st' = done_streak_ms st + in_dt_ms inp"
    and "pid_done st' = (pid_done st \<or> done_window_ms c \<le> done_streak_ms st + in_dt_ms inp)"
proof -
  have c: "pid_in_window inp" "in_completion inp = c" "in_on_completion inp = 2" "0 \<le> in_dt_ms inp"
    using assms(1) by (auto simp: holding_input_def completion_defs)
  have u: "u32 (done_streak_ms st + in_dt_ms inp) = done_streak_ms st + in_dt_ms inp"
    using assms(3,4) c(4) by (intro u32_id) auto
  have hold: "pid_complete inp duty t = (duty, DRIVEBASE_ON_COMPLETION_HOLD, t)" for duty t
    using c(3) by (simp add: pid_complete_def Let_def completion_defs)
  have "st' = pid_judge inp (pid_track st inp)"
    using assms(2) by (simp add: st'_def db_pid_update_def Let_def hold)
  then show "\<not> latched_passive_done st'" "done_streak_ms st' = done_streak_ms st + in_dt_ms inp"
    "pid_done st' = (pid_done st \<or> done_window_ms c \<le> done_streak_ms st + in_dt_ms inp)"
    using assms(2) c u by (auto simp: pid_judge_def Let_def)
qed

text \<open>
  Fact. A move counts as done exactly when it has stayed inside both tolerances, with its trajectory
  finished, for the configured window: over any run of in-tolerance updates of a holding controller the
  completion flag is the test that the ticks add up to the window, and one update outside the
  tolerances clears the flag and starts the count from zero.
\<close>

theorem pid_done_after_window:
  assumes "list_all (holding_input c) inps" "inps \<noteq> []" "\<not> latched_passive_done st"
    "done_streak_ms st = 0" "\<not> pid_done st" "sum_list (map in_dt_ms inps) < 2 ^ 32"
    "\<not> pid_in_window inp'" "in_on_completion inp' = DRIVEBASE_ON_COMPLETION_HOLD"
  shows "pid_done (pid_updates inps st) = (done_window_ms c \<le> sum_list (map in_dt_ms inps)) \<and>
    \<not> pid_done (pid_updates (inps @ [inp']) st) \<and> done_streak_ms (pid_updates (inps @ [inp']) st) = 0"
proof -
  have run: "\<not> latched_passive_done (pid_updates is t) \<and>
      (is \<noteq> [] \<longrightarrow> pid_done (pid_updates is t) =
         (pid_done t \<or> done_window_ms c \<le> done_streak_ms t + sum_list (map in_dt_ms is)))"
    if "list_all (holding_input c) is" "\<not> latched_passive_done t" "0 \<le> done_streak_ms t"
      "done_streak_ms t + sum_list (map in_dt_ms is) < 2 ^ 32" for "is" t
    using that
  proof (induction "is" arbitrary: t)
    case (Cons i "is")
    have i: "holding_input c i" "0 \<le> in_dt_ms i" using Cons.prems(1) by (auto simp: holding_input_def)
    have nn: "0 \<le> sum_list (map in_dt_ms is)"
      using Cons.prems(1) by (intro sum_list_nonneg) (auto simp: list_all_iff holding_input_def)
    note st = holding_step [OF i(1) Cons.prems(2,3)]
    show ?case
      using Cons.IH [of "snd (db_pid_update i t)"] Cons.prems st i nn
      by (cases "is") (auto simp: pid_updates_def)
  qed (simp add: pid_updates_def)
  have "\<not> pid_done (snd (db_pid_update inp' t)) \<and> done_streak_ms (snd (db_pid_update inp' t)) = 0"
    if "\<not> latched_passive_done t" for t
    using that assms(7,8)
    by (simp add: db_pid_update_def Let_def pid_complete_def pid_judge_def)
  then show ?thesis
    using run [OF assms(1,3)] assms(2,4,5,6) by (simp add: pid_updates_def)
qed

theorem pid_done_after_window_witness:
  "pid_done (pid_updates (replicate 25 (demo_input 5000 0 True DRIVEBASE_ON_COMPLETION_HOLD))
     (db_pid_init demo_near_done)) = (50 \<le> sum_list (map in_dt_ms (replicate 25 (demo_input 5000 0 True 2)))) \<and>
   \<not> pid_done (pid_updates (replicate 25 (demo_input 5000 0 True DRIVEBASE_ON_COMPLETION_HOLD)
      @ [demo_input 9000 0 True DRIVEBASE_ON_COMPLETION_HOLD]) (db_pid_init demo_near_done)) \<and>
   done_streak_ms (pid_updates (replicate 25 (demo_input 5000 0 True DRIVEBASE_ON_COMPLETION_HOLD)
      @ [demo_input 9000 0 True DRIVEBASE_ON_COMPLETION_HOLD]) (db_pid_init demo_near_done)) = 0"
proof -
  let ?i = "demo_input 5000 0 True DRIVEBASE_ON_COMPLETION_HOLD"
  have w: "pid_in_window ?i" "\<not> pid_in_window (demo_input 9000 0 True DRIVEBASE_ON_COMPLETION_HOLD)"
    by code_simp+
  have "pid_done (pid_updates (replicate 25 ?i) (db_pid_init demo_near_done)) =
      (done_window_ms (in_completion ?i) \<le> sum_list (map in_dt_ms (replicate 25 ?i))) \<and>
    \<not> pid_done (pid_updates (replicate 25 ?i @ [demo_input 9000 0 True DRIVEBASE_ON_COMPLETION_HOLD])
       (db_pid_init demo_near_done)) \<and>
    done_streak_ms (pid_updates (replicate 25 ?i @ [demo_input 9000 0 True DRIVEBASE_ON_COMPLETION_HOLD])
       (db_pid_init demo_near_done)) = 0"
    by (rule pid_done_after_window)
      (use w in \<open>simp_all add: sum_list_replicate list_all_iff holding_input_def demo_input_def db_pid_init_def db_pid_reset_def\<close>)
  then show ?thesis by (simp add: demo_input_def init_completion_def)
qed

text \<open>
  Fact. The magnitude helper wraps at the most negative 32-bit value, to which an overlong negative
  position error saturates. So a controller more than \<open>2 ^ 31\<close> milli-degrees past its target counts as
  inside every position tolerance and finishes the move.
\<close>

theorem pid_saturated_error_counts_as_done:
  assumes "in_act_x_mdeg inp - in_ref_x_mdeg inp \<ge> 2 ^ 31"
    "in_act_x_mdeg inp - in_ref_x_mdeg inp < 2 ^ 63"
    "in_ref_v_mdegps inp = in_act_v_mdegps inp" "in_trajectory_done inp"
    "0 \<le> pos_tolerance_mdeg (in_completion inp)" "0 \<le> speed_tolerance_mdegps (in_completion inp)"
    "done_window_ms (in_completion inp) \<le> u32 (done_streak_ms st + in_dt_ms inp)"
  shows "po_done (fst (db_pid_update inp st))"
proof -
  have "i64 (in_ref_x_mdeg inp - in_act_x_mdeg inp) = in_ref_x_mdeg inp - in_act_x_mdeg inp"
    using assms(1,2) by (intro i64_id) auto
  then have "pid_pos_err inp = - 2147483648"
    using assms(1) by (simp add: pid_pos_err_def Let_def INT32_MAX_def INT32_MIN_def i32_id)
  then have "pid_in_window inp"
    using assms(3-6) by (simp add: pid_in_window_def abs32_def pid_speed_err_def wrap_s_def)
  then have "pid_done (pid_judge inp (pid_track st inp))"
    using assms(7) by (simp add: pid_judge_def Let_def)
  then show ?thesis
    by (cases rule: update_cases [of st inp]) (simp_all add: pid_off_output_def)
qed

theorem pid_saturated_error_counts_as_done_witness:
  "po_done (fst (db_pid_update (demo_input 0 3000000000 True DRIVEBASE_ON_COMPLETION_HOLD) demo_near_done))"
  by (rule pid_saturated_error_counts_as_done)
    (simp_all add: demo_input_def demo_near_done_def init_completion_def wrap_u_def)

end
