(* ===== verification/Db_Servo.thy ===== *)
theory Db_Servo
  imports Db_Motor Db_Observer Db_Control
begin

text \<open>
  The per-wheel servo, \<^verbatim>\<open>apps/drivebase/drivebase_servo.c\<close>: it feeds encoder samples through a sanity gate
  into the observer and applies duty or passive actuation to the motor. Operations act on the servo and
  on the motor module; the outcome of the system calls is an argument, as in the motor theory.
\<close>

section \<open>State\<close>

definition DB_RT_TICK_MS_DEFAULT :: int where "DB_RT_TICK_MS_DEFAULT = 2"
definition DB_SERVO_GLITCH_MDEG :: int where "DB_SERVO_GLITCH_MDEG = 5000000"
definition DB_SERVO_AGREE_MDEG :: int where "DB_SERVO_AGREE_MDEG = 100000"
definition DB_SERVO_REBASE_RUN :: nat where "DB_SERVO_REBASE_RUN = 10"

record db_servo_s =
  sv_side :: db_side_e
  sv_tick_ms :: int
  sv_observer :: db_observer_s
  x_actual_mdeg :: int
  v_estimate_mdegps :: int
  t_last_us :: int
  last_applied_duty :: int
  last_actuation :: int
  reject_candidate_mdeg :: int
  candidate_run :: nat

record db_servo_status_s =
  st_act_x_mdeg :: int
  st_act_v_mdegps :: int
  st_applied_duty :: int
  st_actuation :: int
  st_stalled :: bool

section \<open>Operations\<close>

definition clamp_duty :: "int \<Rightarrow> int" where
  "clamp_duty v = (if v > 10000 then 10000 else if v < - 10000 then - 10000 else v)"

definition db_servo_init :: "db_settings \<Rightarrow> db_side_e \<Rightarrow> int \<Rightarrow> db_servo_s \<Rightarrow> db_servo_s" where
  "db_servo_init st side tick_ms s =
     (let stall = db_settings_stall st in
      s\<lparr>sv_side := side, sv_tick_ms := (if tick_ms = 0 then DB_RT_TICK_MS_DEFAULT else tick_ms),
        x_actual_mdeg := 0, v_estimate_mdegps := 0, t_last_us := 0, last_applied_duty := 0,
        last_actuation := DRIVEBASE_ON_COMPLETION_COAST, reject_candidate_mdeg := 0, candidate_run := 0,
        sv_observer := db_observer_init (u32 (stall_speed_mdegps stall)) (u32 (stall_duty_min stall))
                         (Db_Settings.stall_window_ms stall) 30 (sv_observer s)\<rparr>)"

definition db_servo_reset ::
    "int + lump_sample_s list \<Rightarrow> int \<Rightarrow> db_servo_s \<Rightarrow> db_motor_module \<Rightarrow> int \<times> db_servo_s \<times> db_motor_module" where
  "db_servo_reset rd now_us s g =
     (if \<not> drivebase_motor_is_initialised g then (- ENODEV, s, g)
      else
        case drivebase_motor_drain rd (sv_side s) g of (rc, out, g') \<Rightarrow>
          let x = (case out of Some sm \<Rightarrow> if rc = 0 then db_angle_deg_to_mdeg (ms_raw_value sm) else 0
                             | None \<Rightarrow> 0);
              t = (case out of Some sm \<Rightarrow> if rc = 0 then (if ms_timestamp_us sm > now_us then now_us
                                                        else ms_timestamp_us sm) else now_us
                             | None \<Rightarrow> now_us) in
          (0,
           s\<lparr>x_actual_mdeg := x, t_last_us := t, sv_observer := db_observer_reset x t (sv_observer s),
             v_estimate_mdegps := 0, last_applied_duty := 0,
             last_actuation := DRIVEBASE_ON_COMPLETION_COAST, reject_candidate_mdeg := 0, candidate_run := 0\<rparr>,
           g'))"

definition servo_abs :: "int \<Rightarrow> int" where
  "servo_abs d = (if d < 0 then i64 (- d) else d)"

text \<open>The sanity gate for one drained sample.\<close>

definition servo_gate :: "db_motor_sample_s \<Rightarrow> int \<Rightarrow> db_servo_s \<Rightarrow> db_servo_s" where
  "servo_gate sm duty_abs s =
     (let x_new = db_angle_deg_to_mdeg (ms_raw_value sm);
          d_track = servo_abs (i64 (x_new - x_actual_mdeg s)) in
      if d_track \<le> DB_SERVO_GLITCH_MDEG then
        s\<lparr>candidate_run := 0, x_actual_mdeg := x_new,
          sv_observer := db_observer_update_sample x_new (ms_timestamp_us sm) duty_abs (sv_observer s)\<rparr>
      else
        let d_cand = servo_abs (i64 (x_new - reject_candidate_mdeg s));
            run = (if candidate_run s > 0 \<and> d_cand \<le> DB_SERVO_AGREE_MDEG
                   then (if candidate_run s < 255 then candidate_run s + 1 else candidate_run s) else 1) in
        if run \<ge> DB_SERVO_REBASE_RUN then
          s\<lparr>reject_candidate_mdeg := x_new, candidate_run := 0, x_actual_mdeg := x_new,
            sv_observer := db_observer_reset x_new (ms_timestamp_us sm) (sv_observer s)\<rparr>
        else s\<lparr>reject_candidate_mdeg := x_new, candidate_run := run\<rparr>)"

definition db_servo_update ::
    "int + lump_sample_s list \<Rightarrow> int \<Rightarrow> db_servo_s \<Rightarrow> db_motor_module \<Rightarrow> int \<times> db_servo_s \<times> db_motor_module" where
  "db_servo_update rd now_us s g =
     (if \<not> drivebase_motor_is_initialised g then (- ENODEV, s, g)
      else
        case drivebase_motor_drain rd (sv_side s) g of (dr, out, g1) \<Rightarrow>
          let duty_abs = u32 (if last_applied_duty s < 0 then i32 (- last_applied_duty s) else last_applied_duty s);
              (s1, g2) =
                (if dr = 0 then (case out of Some sm \<Rightarrow> servo_gate sm duty_abs s | None \<Rightarrow> s, g1)
                 else if dr = - EAGAIN then
                   (let dt_ms = (if now_us > t_last_us s then u32 (u64 (now_us - t_last_us s) div 1000) else 0) in
                    (s\<lparr>sv_observer := db_observer_idle_tick dt_ms duty_abs (sv_observer s)\<rparr>, g1))
                 else (s, drivebase_motor_request_reclaim (sv_side s) g1)) in
          (0, s1\<lparr>t_last_us := now_us, v_estimate_mdegps := db_observer_v (sv_observer s1)\<rparr>, g2))"

definition db_servo_apply ::
    "int \<Rightarrow> int \<Rightarrow> int \<Rightarrow> db_servo_s \<Rightarrow> db_motor_module \<Rightarrow>
     int \<times> motor_cmd list \<times> db_servo_s \<times> db_motor_module" where
  "db_servo_apply ioc duty actuation s g =
     (if \<not> drivebase_motor_is_initialised g then (- ENODEV, [], s, g)
      else if actuation = DRIVEBASE_ON_COMPLETION_COAST \<or> actuation = DRIVEBASE_ON_COMPLETION_COAST_SMART then
        (case drivebase_motor_coast ioc (sv_side s) g of (rc, cmds, g') \<Rightarrow>
           (rc, cmds, s\<lparr>last_applied_duty := 0, last_actuation := DRIVEBASE_ON_COMPLETION_COAST\<rparr>, g'))
      else if actuation = DRIVEBASE_ON_COMPLETION_BRAKE \<or> actuation = DRIVEBASE_ON_COMPLETION_BRAKE_SMART then
        (case drivebase_motor_brake ioc (sv_side s) g of (rc, cmds, g') \<Rightarrow>
           (rc, cmds, s\<lparr>last_applied_duty := 0, last_actuation := DRIVEBASE_ON_COMPLETION_BRAKE\<rparr>, g'))
      else
        let d = clamp_duty duty in
        case drivebase_motor_set_duty ioc (sv_side s) d g of (rc, cmds, g') \<Rightarrow>
          (rc, cmds, s\<lparr>last_applied_duty := (if rc = 0 then d else 0),
                       last_actuation := DRIVEBASE_ON_COMPLETION_HOLD\<rparr>, g'))"

definition db_servo_get_status :: "db_servo_s \<Rightarrow> db_servo_status_s" where
  "db_servo_get_status s =
     \<lparr>st_act_x_mdeg = x_actual_mdeg s, st_act_v_mdegps = v_estimate_mdegps s,
      st_applied_duty = last_applied_duty s, st_actuation = last_actuation s,
      st_stalled = db_observer_is_stalled (sv_observer s)\<rparr>"

section \<open>Actuation\<close>

text \<open>
  Fact. The servo is honest about what it drives: for every requested duty the motor is commanded at most
  100 percent; a coast or brake request issues no duty; and the recorded duty, which feeds stall
  detection, is the clamped request when the driver accepted it and zero otherwise.
\<close>

theorem servo_apply_honest:
  assumes "g_initialised g"
  shows "let (rc, cmds, s', g') = db_servo_apply ioc duty actuation s g;
             coast = actuation = DRIVEBASE_ON_COMPLETION_COAST \<or> actuation = DRIVEBASE_ON_COMPLETION_COAST_SMART;
             brake = actuation = DRIVEBASE_ON_COMPLETION_BRAKE \<or> actuation = DRIVEBASE_ON_COMPLETION_BRAKE_SMART in
     (if coast then cmds = [Motor_Coast (sv_side s)] \<and> last_applied_duty s' = 0
      else if brake then cmds = [Motor_Brake (sv_side s)] \<and> last_applied_duty s' = 0
      else cmds = [Set_Pwm (sv_side s) (clamp_duty duty * db_side_sign g (sv_side s))] \<and>
           \<bar>clamp_duty duty\<bar> \<le> 10000 \<and>
           last_applied_duty s' = (if rc = 0 then clamp_duty duty else 0)) \<and>
     (if ioc < 0 then rc = ioc \<and> g' = drivebase_motor_request_reclaim (sv_side s) g else rc = 0 \<and> g' = g)"
proof -
  have c: "\<bar>clamp_duty duty\<bar> \<le> 10000" by (auto simp: clamp_duty_def abs_le_iff)
  then have "drivebase_motor_set_duty ioc (sv_side s) (clamp_duty duty) g =
      (if ioc < 0 then ioc else 0, [Set_Pwm (sv_side s) (clamp_duty duty * db_side_sign g (sv_side s))],
       if ioc < 0 then drivebase_motor_request_reclaim (sv_side s) g else g)"
    using set_duty_cases [OF assms, of ioc "sv_side s" "clamp_duty duty"] by auto
  then show ?thesis
    using assms c
    by (simp add: db_servo_apply_def drivebase_motor_coast_def drivebase_motor_brake_def Let_def
        drivebase_motor_is_initialised_def completion_defs)
qed

definition demo_servo :: db_servo_s where
  "demo_servo =
     \<lparr>sv_side = DB_SIDE_LEFT, sv_tick_ms = 2, sv_observer = blank_observer, x_actual_mdeg = 210000,
      v_estimate_mdegps = 0, t_last_us = 0, last_applied_duty = 0, last_actuation = 0,
      reject_candidate_mdeg = 0, candidate_run = 0\<rparr>"

theorem servo_apply_honest_witness:
  "let (rc, cmds, s', g') = db_servo_apply (- 19) 25000 DRIVEBASE_ON_COMPLETION_HOLD demo_servo demo_motors in
   cmds = [Set_Pwm DB_SIDE_LEFT (- 10000)] \<and> last_applied_duty s' = 0 \<and> rc = - 19"
proof -
  have "g_initialised demo_motors" by (simp add: demo_motors_def)
  from servo_apply_honest [OF this, of "- 19" 25000 DRIVEBASE_ON_COMPLETION_HOLD demo_servo] show ?thesis
    by (simp add: completion_defs clamp_duty_def demo_servo_def demo_motors_def db_side_sign_def split: prod.splits)
qed

section \<open>The sanity gate\<close>

text \<open>
  What a drain delivers does not depend on the recovery flags or on what was drained before.
\<close>

definition delivered :: "int + lump_sample_s list \<Rightarrow> db_side_e \<Rightarrow> db_motor_module \<Rightarrow> int option" where
  "delivered rd side g =
     (case drivebase_motor_drain rd side g of
        (rc, Some sm, g') \<Rightarrow> if rc = 0 then Some (db_angle_deg_to_mdeg (ms_raw_value sm)) else None
      | _ \<Rightarrow> None)"

lemma drain_frame:
  assumes "drivebase_motor_drain rd side g = (rc, out, g')"
  shows "g_initialised g' = g_initialised g" and "cfg_invert_left g' = cfg_invert_left g"
  using assms
  by (auto simp: drivebase_motor_drain_def Let_def drivebase_motor_request_reclaim_def set_motor_def
      split: if_splits sum.splits prod.splits option.splits db_side_e.splits)

lemma delivered_cong:
  assumes "g_initialised g' = g_initialised g" "cfg_invert_left g' = cfg_invert_left g"
  shows "delivered rd side g' = delivered rd side g"
  using assms
  by (simp add: delivered_def drivebase_motor_drain_def db_side_sign_def Let_def split: sum.splits prod.splits option.splits)

lemma update_delivered:
  assumes "g_initialised g" "delivered rd (sv_side s) g = Some x"
  obtains sm g' where "drivebase_motor_drain rd (sv_side s) g = (0, Some sm, g')"
    "db_angle_deg_to_mdeg (ms_raw_value sm) = x" "g_initialised g'" "cfg_invert_left g' = cfg_invert_left g"
proof -
  obtain rc out g' where d: "drivebase_motor_drain rd (sv_side s) g = (rc, out, g')"
    by (cases "drivebase_motor_drain rd (sv_side s) g") auto
  then obtain sm where "out = Some sm" "rc = 0" "db_angle_deg_to_mdeg (ms_raw_value sm) = x"
    using assms(2) by (auto simp: delivered_def split: option.splits if_splits)
  then show thesis using that d drain_frame [OF d] assms(1) by simp
qed

lemma delivered_range:
  assumes "delivered rd side g = Some x"
  shows "\<bar>x\<bar> \<le> 2147483648000"
proof -
  have r: "\<bar>db_angle_deg_to_mdeg (i32 y)\<bar> \<le> 2147483648000" for y
    using i32_range [of y] by (simp add: db_angle_deg_to_mdeg_def i64_id abs_if)
  from assms show ?thesis
    by (auto simp: delivered_def drivebase_motor_drain_def Let_def r
        split: if_splits sum.splits prod.splits option.splits)
qed

lemma gate_distance:
  assumes "\<bar>x\<bar> \<le> 2147483648000" "\<bar>y\<bar> \<le> 2 ^ 62"
  shows "servo_abs (i64 (x - y)) = \<bar>x - y\<bar>"
  using assms by (auto simp: servo_abs_def i64_id)

definition servo_ticks ::
    "((int + lump_sample_s list) \<times> int) list \<Rightarrow> db_servo_s \<times> db_motor_module \<Rightarrow> db_servo_s \<times> db_motor_module" where
  "servo_ticks reads sg = fold (\<lambda>(rd, now_us) (s, g). snd (db_servo_update rd now_us s g)) reads sg"

lemma far_step:
  fixes now_us :: int
  assumes "g_initialised g" "delivered rd (sv_side s) g = Some x" "\<bar>x - x_actual_mdeg s\<bar> > DB_SERVO_GLITCH_MDEG"
    "\<bar>x_actual_mdeg s\<bar> \<le> 2 ^ 62" "\<bar>reject_candidate_mdeg s\<bar> \<le> 2 ^ 62"
  defines "s' \<equiv> fst (snd (db_servo_update rd now_us s g))" and "g' \<equiv> snd (snd (db_servo_update rd now_us s g))"
  shows "sv_side s' = sv_side s" "g_initialised g'" "cfg_invert_left g' = cfg_invert_left g" "reject_candidate_mdeg s' = x"
    "candidate_run s < 9 \<Longrightarrow> x_actual_mdeg s' = x_actual_mdeg s \<and> sv_observer s' = sv_observer s \<and>
       candidate_run s' \<le> candidate_run s + 1"
    "candidate_run s < 9 \<Longrightarrow> 0 < candidate_run s \<Longrightarrow> \<bar>x - reject_candidate_mdeg s\<bar> \<le> DB_SERVO_AGREE_MDEG \<Longrightarrow>
       candidate_run s' = candidate_run s + 1"
    "candidate_run s = 0 \<Longrightarrow> candidate_run s' = 1"
    "candidate_run s = 9 \<Longrightarrow> \<bar>x - reject_candidate_mdeg s\<bar> \<le> DB_SERVO_AGREE_MDEG \<Longrightarrow>
       x_actual_mdeg s' = x \<and> candidate_run s' = 0"
proof -
  obtain sm g1 where d: "drivebase_motor_drain rd (sv_side s) g = (0, Some sm, g1)"
    "db_angle_deg_to_mdeg (ms_raw_value sm) = x" "g_initialised g1" "cfg_invert_left g1 = cfg_invert_left g"
    using update_delivered [OF assms(1,2)] by blast
  have x: "\<bar>x\<bar> \<le> 2147483648000" using delivered_range assms(2) by blast
  let ?duty = "u32 (if last_applied_duty s < 0 then i32 (- last_applied_duty s) else last_applied_duty s)"
  let ?s1 = "servo_gate sm ?duty s"
  have "db_servo_update rd now_us s g =
      (0, ?s1\<lparr>t_last_us := now_us, v_estimate_mdegps := db_observer_v (sv_observer ?s1)\<rparr>, g1)"
    using assms(1) d by (simp add: db_servo_update_def drivebase_motor_is_initialised_def Let_def)
  then have u: "s' = ?s1\<lparr>t_last_us := now_us, v_estimate_mdegps := db_observer_v (sv_observer ?s1)\<rparr>" "g' = g1"
    by (simp_all add: s'_def g'_def)
  have dist: "servo_abs (i64 (x - x_actual_mdeg s)) = \<bar>x - x_actual_mdeg s\<bar>"
    "servo_abs (i64 (x - reject_candidate_mdeg s)) = \<bar>x - reject_candidate_mdeg s\<bar>"
    using gate_distance [OF x assms(4)] gate_distance [OF x assms(5)] by auto
  let ?run = "if candidate_run s > 0 \<and> \<bar>x - reject_candidate_mdeg s\<bar> \<le> DB_SERVO_AGREE_MDEG
              then (if candidate_run s < 255 then candidate_run s + 1 else candidate_run s) else 1"
  have g: "?s1 = (if ?run \<ge> DB_SERVO_REBASE_RUN then
          s\<lparr>reject_candidate_mdeg := x, candidate_run := 0, x_actual_mdeg := x,
            sv_observer := db_observer_reset x (ms_timestamp_us sm) (sv_observer s)\<rparr>
        else s\<lparr>reject_candidate_mdeg := x, candidate_run := ?run\<rparr>)"
    unfolding servo_gate_def Let_def d(2) dist using assms(3) by (simp split del: if_split)
  show "sv_side s' = sv_side s" "g_initialised g'" "cfg_invert_left g' = cfg_invert_left g"
    "reject_candidate_mdeg s' = x" using d(3,4) unfolding u g by simp_all
  show "candidate_run s < 9 \<Longrightarrow> x_actual_mdeg s' = x_actual_mdeg s \<and> sv_observer s' = sv_observer s \<and>
       candidate_run s' \<le> candidate_run s + 1"
    "candidate_run s < 9 \<Longrightarrow> 0 < candidate_run s \<Longrightarrow> \<bar>x - reject_candidate_mdeg s\<bar> \<le> DB_SERVO_AGREE_MDEG \<Longrightarrow>
       candidate_run s' = candidate_run s + 1"
    "candidate_run s = 0 \<Longrightarrow> candidate_run s' = 1"
    "candidate_run s = 9 \<Longrightarrow> \<bar>x - reject_candidate_mdeg s\<bar> \<le> DB_SERVO_AGREE_MDEG \<Longrightarrow>
       x_actual_mdeg s' = x \<and> candidate_run s' = 0"
    unfolding u g DB_SERVO_REBASE_RUN_def by simp_all
qed

definition all_far :: "((int + lump_sample_s list) \<times> int) list \<Rightarrow> db_servo_s \<Rightarrow> db_motor_module \<Rightarrow> bool" where
  "all_far reads s g =
     list_all (\<lambda>(rd, now_us). case delivered rd (sv_side s) g of
        Some x \<Rightarrow> \<bar>x - x_actual_mdeg s\<bar> > DB_SERVO_GLITCH_MDEG | None \<Rightarrow> False) reads"

lemma short_burst_ignored:
  assumes "g_initialised g" "all_far reads s g" "candidate_run s + length reads \<le> 9"
    "\<bar>x_actual_mdeg s\<bar> \<le> 2 ^ 62" "\<bar>reject_candidate_mdeg s\<bar> \<le> 2 ^ 62"
  shows "x_actual_mdeg (fst (servo_ticks reads (s, g))) = x_actual_mdeg s \<and>
    sv_observer (fst (servo_ticks reads (s, g))) = sv_observer s"
  using assms
proof (induction reads arbitrary: s g)
  case Nil
  then show ?case by (simp add: servo_ticks_def)
next
  case (Cons r reads)
  obtain rd now where r: "r = (rd, now)" by (cases r)
  then obtain x where x: "delivered rd (sv_side s) g = Some x" "\<bar>x - x_actual_mdeg s\<bar> > DB_SERVO_GLITCH_MDEG"
    using Cons.prems(2) by (auto simp: all_far_def split: option.splits)
  define s' g' where sg: "s' = fst (snd (db_servo_update rd now s g))" "g' = snd (snd (db_servo_update rd now s g))"
  have upd: "snd (db_servo_update rd now s g) = (s', g')" by (simp add: sg)
  note fs = far_step [OF Cons.prems(1) x Cons.prems(4,5), of now, folded sg]
  have st: "sv_side s' = sv_side s" "g_initialised g'" "cfg_invert_left g' = cfg_invert_left g"
    "reject_candidate_mdeg s' = x" "x_actual_mdeg s' = x_actual_mdeg s" "sv_observer s' = sv_observer s"
    "candidate_run s' \<le> candidate_run s + 1" using fs Cons.prems(3) by auto
  have "delivered rd' (sv_side s) g' = delivered rd' (sv_side s) g" for rd'
    using delivered_cong st(2,3) Cons.prems(1) by blast
  then have "all_far reads s' g'" using Cons.prems(2) unfolding all_far_def st(1) st(5) by simp
  moreover have "\<bar>reject_candidate_mdeg s'\<bar> \<le> 2 ^ 62" using delivered_range [OF x(1)] st(4) by simp
  ultimately have "x_actual_mdeg (fst (servo_ticks reads (s', g'))) = x_actual_mdeg s' \<and>
      sv_observer (fst (servo_ticks reads (s', g'))) = sv_observer s'"
    using Cons.IH [of g' s'] Cons.prems(3,4) st(2,5,7) by simp
  then show ?case using st upd r by (simp add: servo_ticks_def)
qed

lemma steady_level_followed:
  assumes "g_initialised g" "delivered rd (sv_side s) g = Some x" "\<bar>x - x_actual_mdeg s\<bar> > DB_SERVO_GLITCH_MDEG"
    "\<bar>x_actual_mdeg s\<bar> \<le> 2 ^ 62" "reject_candidate_mdeg s = x" "0 < candidate_run s"
    "candidate_run s + length nows = 10" "nows \<noteq> []"
  shows "x_actual_mdeg (fst (servo_ticks (map (Pair rd) nows) (s, g))) = x"
  using assms
proof (induction nows arbitrary: s g)
  case (Cons now nows)
  have rj: "\<bar>reject_candidate_mdeg s\<bar> \<le> 2 ^ 62" "\<bar>x - reject_candidate_mdeg s\<bar> \<le> DB_SERVO_AGREE_MDEG"
    using delivered_range [OF Cons.prems(2)] Cons.prems(5) by (simp_all add: DB_SERVO_AGREE_MDEG_def)
  define s' g' where sg: "s' = fst (snd (db_servo_update rd now s g))" "g' = snd (snd (db_servo_update rd now s g))"
  have upd: "snd (db_servo_update rd now s g) = (s', g')" by (simp add: sg)
  note st = far_step [OF Cons.prems(1-4) rj(1), of now, folded sg]
  have run: "servo_ticks (map (Pair rd) (now # nows)) (s, g) = servo_ticks (map (Pair rd) nows) (s', g')"
    using upd by (simp add: servo_ticks_def)
  show ?case
  proof (cases nows)
    case Nil
    then show ?thesis using st(8) rj(2) Cons.prems(7) run by (simp add: servo_ticks_def)
  next
    case (Cons n ns)
    then have "candidate_run s < 9" using Cons.prems(7) by simp
    moreover have "delivered rd (sv_side s') g' = Some x"
      using delivered_cong [of g' g] st(1-3) Cons.prems(1,2) by simp
    ultimately show ?thesis
      unfolding run using Cons.IH [of g' s'] st(2,4-6) rj(2) Cons.prems Cons by simp
  qed
qed simp



end
