(* ===== verification/Db_Trajectory.thy ===== *)
theory Db_Trajectory
  imports Prelude
begin

text \<open>
  The trapezoidal motion profile, \<^verbatim>\<open>apps/drivebase/drivebase_trajectory.c\<close>. Times are microseconds,
  positions milli-degrees of motor angle. Every C operation that could leave its type's range
  carries its wrap (\<open>u64\<close>, \<open>i64\<close>, \<open>i32\<close>, \<open>u32\<close>); the theorems state the input ranges in which none
  of them wraps.
\<close>

section \<open>Helpers\<close>

definition US_PER_S :: int where "US_PER_S = 1000000"
definition US2_PER_S2 :: int where "US2_PER_S2 = 1000000000000"

definition dx_from_v :: "int \<Rightarrow> int \<Rightarrow> int" where
  "dx_from_v v_mdegps dt_us = cdiv (i64 (v_mdegps * i64 dt_us)) US_PER_S"

definition dx_from_a :: "int \<Rightarrow> int \<Rightarrow> int" where
  "dx_from_a a_mdegps2 dt_us =
     (let dt = i64 dt_us in cdiv (i64 (i64 (a_mdegps2 * dt) * dt)) (2 * US2_PER_S2))"

definition v_from_a :: "int \<Rightarrow> int \<Rightarrow> int" where
  "v_from_a a_mdegps2 dt_us = i32 (cdiv (i64 (a_mdegps2 * i64 dt_us)) US_PER_S)"

definition dt_to_reach_v :: "int \<Rightarrow> int \<Rightarrow> int" where
  "dt_to_reach_v v_mdegps a_mdegps2 =
     (if a_mdegps2 \<le> 0 then 0 else u64 (u64 v_mdegps * US_PER_S) div u32 a_mdegps2)"

text \<open>
  The bisection of \<^verbatim>\<open>triangle_peak\<close>. \<open>lo\<close> and \<open>hi\<close> are at most \<open>2 ^ 32\<close>, so their sum does not wrap
  and is written without \<open>u64\<close>.
\<close>

function sqrt_loop :: "int \<Rightarrow> int \<Rightarrow> int \<Rightarrow> int \<Rightarrow> int" where
  "sqrt_loop v2 lo hi r =
     (if lo + 1 < hi then
        let mid = (lo + hi) div 2 in
        if u64 (mid * mid) \<le> v2 then sqrt_loop v2 mid hi mid else sqrt_loop v2 lo mid r
      else r)"
  by pat_completeness auto
termination
  by (relation "measure (\<lambda>(v2, lo, hi, r). nat (hi - lo))") auto

definition triangle_peak :: "int \<Rightarrow> int \<Rightarrow> int \<Rightarrow> int" where
  "triangle_peak d_total_mdeg a d =
     (if a \<le> 0 \<or> d \<le> 0 then 0
      else
        let den = u64 (u64 a + u64 d) in
        if den = 0 then 0
        else
          let k_num = u64 (u64 (2 * u64 a) * u64 d); k = k_num div den in
          if k = 0 then 0
          else if d_total_mdeg > UINT64_MAX div k then INT32_MAX
          else
            let v2 = u64 (d_total_mdeg * k) in
            i32 (sqrt_loop v2 0 (if v2 < 2 ^ 31 then 2 ^ 31 else 2 ^ 32) 0))"

section \<open>Planning\<close>

record db_trajectory_s =
  tr_t0_us :: int
  tr_x0_mdeg :: int
  tr_x1_mdeg :: int
  tr_v_peak_mdegps :: int
  tr_accel_mdegps2 :: int
  tr_decel_mdegps2 :: int
  tr_direction :: int
  tr_infinite :: bool
  tr_accel_dt_us :: int
  tr_cruise_dt_us :: int
  tr_decel_dt_us :: int
  tr_total_dt_us :: int
  tr_x_accel_end_mdeg :: int
  tr_x_cruise_end_mdeg :: int

record db_trajectory_ref_s =
  rf_x_mdeg :: int
  rf_v_mdegps :: int
  rf_a_mdegps2 :: int
  rf_done :: bool

definition db_trajectory_init_position ::
    "int \<Rightarrow> int \<Rightarrow> int \<Rightarrow> int \<Rightarrow> int \<Rightarrow> int \<Rightarrow> db_trajectory_s" where
  "db_trajectory_init_position t0_us x0_mdeg x1_mdeg v_peak_mdegps accel_mdegps2 decel_mdegps2 =
     (let a = (if accel_mdegps2 > 0 then accel_mdegps2 else 1);
          d = (if decel_mdegps2 > 0 then decel_mdegps2 else a);
          delta = i64 (x1_mdeg - x0_mdeg) in
      if delta = 0 \<or> v_peak_mdegps \<le> 0 then
        \<lparr>tr_t0_us = t0_us, tr_x0_mdeg = x0_mdeg, tr_x1_mdeg = x1_mdeg, tr_v_peak_mdegps = 0,
         tr_accel_mdegps2 = a, tr_decel_mdegps2 = d, tr_direction = 0, tr_infinite = False,
         tr_accel_dt_us = 0, tr_cruise_dt_us = 0, tr_decel_dt_us = 0, tr_total_dt_us = 0,
         tr_x_accel_end_mdeg = x0_mdeg, tr_x_cruise_end_mdeg = x0_mdeg\<rparr>
      else
        let dir = (if delta > 0 then 1 else - 1);
            d_abs = u64 (i64 (delta * dir));
            d_accel = u64 (u64 v_peak_mdegps * u64 v_peak_mdegps) div u32 (2 * u32 a);
            d_decel = u64 (u64 v_peak_mdegps * u64 v_peak_mdegps) div u32 (2 * u32 d);
            triangular = u64 (d_accel + d_decel) \<ge> d_abs;
            v = (if triangular then triangle_peak d_abs a d else v_peak_mdegps);
            accel_dt = dt_to_reach_v v a;
            decel_dt = dt_to_reach_v v d;
            d_cruise = u64 (u64 (d_abs - d_accel) - d_decel);
            cruise_dt = (if triangular then 0 else u64 (d_cruise * US_PER_S) div u32 v_peak_mdegps);
            x_off_accel = dx_from_a a accel_dt;
            x_off_cruise = i64 (x_off_accel + dx_from_v v cruise_dt) in
        \<lparr>tr_t0_us = t0_us, tr_x0_mdeg = x0_mdeg, tr_x1_mdeg = x1_mdeg, tr_v_peak_mdegps = v,
         tr_accel_mdegps2 = a, tr_decel_mdegps2 = d, tr_direction = dir, tr_infinite = False,
         tr_accel_dt_us = accel_dt, tr_cruise_dt_us = cruise_dt, tr_decel_dt_us = decel_dt,
         tr_total_dt_us = u64 (u64 (accel_dt + cruise_dt) + decel_dt),
         tr_x_accel_end_mdeg = i64 (x0_mdeg + i64 (dir * x_off_accel)),
         tr_x_cruise_end_mdeg = i64 (x0_mdeg + i64 (dir * x_off_cruise))\<rparr>)"

definition db_trajectory_init_forever :: "int \<Rightarrow> int \<Rightarrow> int \<Rightarrow> int \<Rightarrow> db_trajectory_s" where
  "db_trajectory_init_forever t0_us x0_mdeg v_target_mdegps accel_mdegps2 =
     (let a = (if accel_mdegps2 > 0 then accel_mdegps2 else 1);
          v_abs = (if v_target_mdegps \<ge> 0 then v_target_mdegps else i32 (- v_target_mdegps));
          dir = (if v_target_mdegps > 0 then 1 else if v_target_mdegps < 0 then - 1 else 0);
          accel_dt = dt_to_reach_v v_abs a;
          x_end = i64 (x0_mdeg + i64 (dir * dx_from_a a accel_dt)) in
      \<lparr>tr_t0_us = t0_us, tr_x0_mdeg = x0_mdeg, tr_x1_mdeg = x0_mdeg, tr_v_peak_mdegps = v_abs,
       tr_accel_mdegps2 = a, tr_decel_mdegps2 = a, tr_direction = dir, tr_infinite = True,
       tr_accel_dt_us = accel_dt, tr_cruise_dt_us = 0, tr_decel_dt_us = 0, tr_total_dt_us = 0,
       tr_x_accel_end_mdeg = x_end, tr_x_cruise_end_mdeg = x_end\<rparr>)"

section \<open>Sampling\<close>

definition db_trajectory_get_reference :: "db_trajectory_s \<Rightarrow> int \<Rightarrow> db_trajectory_ref_s" where
  "db_trajectory_get_reference tr t_us =
     (if t_us < tr_t0_us tr then
        \<lparr>rf_x_mdeg = tr_x0_mdeg tr, rf_v_mdegps = 0, rf_a_mdegps2 = 0, rf_done = False\<rparr>
      else
        let dt = u64 (t_us - tr_t0_us tr); dir = tr_direction tr in
        if dir = 0 then
          \<lparr>rf_x_mdeg = tr_x0_mdeg tr, rf_v_mdegps = 0, rf_a_mdegps2 = 0, rf_done = (\<not> tr_infinite tr)\<rparr>
        else if dt < tr_accel_dt_us tr then
          \<lparr>rf_x_mdeg = i64 (tr_x0_mdeg tr + i64 (dir * dx_from_a (tr_accel_mdegps2 tr) dt)),
           rf_v_mdegps = i32 (dir * v_from_a (tr_accel_mdegps2 tr) dt),
           rf_a_mdegps2 = i32 (dir * tr_accel_mdegps2 tr), rf_done = False\<rparr>
        else if tr_infinite tr then
          \<lparr>rf_x_mdeg = i64 (tr_x_accel_end_mdeg tr +
             i64 (dir * dx_from_v (tr_v_peak_mdegps tr) (u64 (dt - tr_accel_dt_us tr)))),
           rf_v_mdegps = i32 (dir * tr_v_peak_mdegps tr), rf_a_mdegps2 = 0, rf_done = False\<rparr>
        else
          let cruise_end_dt = u64 (tr_accel_dt_us tr + tr_cruise_dt_us tr) in
          if dt < cruise_end_dt then
            \<lparr>rf_x_mdeg = i64 (tr_x_accel_end_mdeg tr +
               i64 (dir * dx_from_v (tr_v_peak_mdegps tr) (u64 (dt - tr_accel_dt_us tr)))),
             rf_v_mdegps = i32 (dir * tr_v_peak_mdegps tr), rf_a_mdegps2 = 0, rf_done = False\<rparr>
          else if dt < tr_total_dt_us tr then
            let dt_in_decel = u64 (dt - cruise_end_dt);
                v0 = i32 (tr_v_peak_mdegps tr - v_from_a (tr_decel_mdegps2 tr) dt_in_decel);
                v_abs = (if v0 < 0 then 0 else v0);
                dx_abs = i64 (dx_from_v (tr_v_peak_mdegps tr) dt_in_decel -
                              dx_from_a (tr_decel_mdegps2 tr) dt_in_decel) in
            \<lparr>rf_x_mdeg = i64 (tr_x_cruise_end_mdeg tr + i64 (dir * dx_abs)),
             rf_v_mdegps = i32 (dir * v_abs),
             rf_a_mdegps2 = i32 (i32 (- dir) * tr_decel_mdegps2 tr), rf_done = False\<rparr>
          else
            \<lparr>rf_x_mdeg = tr_x1_mdeg tr, rf_v_mdegps = 0, rf_a_mdegps2 = 0, rf_done = True\<rparr>)"

definition db_trajectory_is_done :: "db_trajectory_s \<Rightarrow> int \<Rightarrow> bool" where
  "db_trajectory_is_done tr t_us =
     (if tr_infinite tr \<or> tr_direction tr = 0 then False
      else t_us \<ge> u64 (tr_t0_us tr + tr_total_dt_us tr))"

section \<open>Retargeting\<close>

definition db_trajectory_retarget_forever ::
    "db_trajectory_s \<Rightarrow> int \<Rightarrow> int \<Rightarrow> int \<Rightarrow> db_trajectory_s" where
  "db_trajectory_retarget_forever tr now_us v_target_mdegps accel_mdegps2 =
     (if \<not> tr_infinite tr then tr
      else
        let ref = db_trajectory_get_reference tr now_us;
            new_accel = (if accel_mdegps2 > 0 then accel_mdegps2 else 1);
            new_v_abs = (if v_target_mdegps \<ge> 0 then v_target_mdegps else i32 (- v_target_mdegps));
            dir = (if v_target_mdegps > 0 then 1 else if v_target_mdegps < 0 then - 1 else 0);
            new_accel_dt = dt_to_reach_v new_v_abs new_accel;
            v_in_new = i32 (rf_v_mdegps ref * dir);
            dt_into = dt_to_reach_v v_in_new new_accel;
            new_t0 =
              (if dir \<noteq> 0 then
                 if v_in_new \<ge> new_v_abs then u64 (now_us - new_accel_dt)
                 else if v_in_new > 0 then u64 (now_us - dt_into) else now_us
               else now_us);
            new_x0 =
              (if dir \<noteq> 0 then
                 if v_in_new \<ge> new_v_abs
                 then i64 (rf_x_mdeg ref - i64 (dir * dx_from_a new_accel new_accel_dt))
                 else if v_in_new > 0
                 then i64 (rf_x_mdeg ref - i64 (dir * dx_from_a new_accel dt_into))
                 else rf_x_mdeg ref
               else rf_x_mdeg ref);
            x_end = i64 (new_x0 + i64 (dir * dx_from_a new_accel new_accel_dt)) in
        tr\<lparr>tr_t0_us := new_t0, tr_x0_mdeg := new_x0, tr_accel_mdegps2 := new_accel,
           tr_decel_mdegps2 := new_accel, tr_v_peak_mdegps := new_v_abs, tr_direction := dir,
           tr_accel_dt_us := new_accel_dt, tr_x_accel_end_mdeg := x_end,
           tr_x_cruise_end_mdeg := x_end\<rparr>)"

section \<open>Stretching\<close>

definition stretch_total_dt :: "int \<Rightarrow> int \<Rightarrow> int \<Rightarrow> int \<Rightarrow> int" where
  "stretch_total_dt v a d D_abs =
     (if v \<le> 0 then UINT64_MAX
      else
        let t_a = dt_to_reach_v v a; t_d = dt_to_reach_v v d;
            d_a = u64 (dx_from_a a t_a); d_d = u64 (dx_from_a d t_d) in
        if u64 (d_a + d_d) \<ge> D_abs then u64 (t_a + t_d)
        else
          let d_cruise = u64 (u64 (D_abs - d_a) - d_d);
              t_c = u64 (d_cruise * US_PER_S) div u32 v in
          u64 (u64 (t_a + t_c) + t_d))"

definition stretch_err :: "int \<Rightarrow> int \<Rightarrow> int" where
  "stretch_err total_dt T_target_us =
     (if total_dt \<ge> T_target_us then total_dt - T_target_us else T_target_us - total_dt)"

text \<open>
  The bisection of \<^verbatim>\<open>db_trajectory_stretch_to_total\<close>: it returns \<open>(best, best_err)\<close>. The midpoint lies
  between two \<^verbatim>\<open>int32_t\<close> values, so its narrowing cast is the identity.
\<close>

function stretch_search :: "int \<Rightarrow> int \<Rightarrow> int \<Rightarrow> int \<Rightarrow> int \<Rightarrow> int \<Rightarrow> int \<times> int \<Rightarrow> int \<times> int" where
  "stretch_search a d D_abs T_target_us lo hi b =
     (if lo + 1 < hi then
        let mid = (lo + hi) div 2;
            total_dt = stretch_total_dt mid a d D_abs;
            err = stretch_err total_dt T_target_us;
            b' = (if err < snd b then (mid, err) else b) in
        if total_dt > T_target_us then stretch_search a d D_abs T_target_us mid hi b'
        else stretch_search a d D_abs T_target_us lo mid b'
      else b)"
  by pat_completeness auto
termination
  by (relation "measure (\<lambda>(a, d, D, T, lo, hi, b). nat (hi - lo))") auto

definition stretch_probe :: "int \<Rightarrow> int \<Rightarrow> int \<Rightarrow> int \<Rightarrow> int \<times> int \<Rightarrow> int \<Rightarrow> int \<times> int" where
  "stretch_probe a d D_abs T_target_us b probe =
     (let err = stretch_err (stretch_total_dt (i32 probe) a d D_abs) T_target_us in
      if err < snd b then (i32 probe, err) else b)"

definition stretch_commit :: "db_trajectory_s \<Rightarrow> int \<Rightarrow> int \<Rightarrow> int \<times> db_trajectory_s" where
  "stretch_commit tr T_target_us v_new =
     (if v_new \<le> 0 then (- ERANGE, tr)
      else
        let a = tr_accel_mdegps2 tr; d = tr_decel_mdegps2 tr;
            t_a = dt_to_reach_v v_new a; t_d = dt_to_reach_v v_new d in
        if u64 (t_a + t_d) \<ge> T_target_us then (- ERANGE, tr)
        else
          let t_c = u64 (u64 (T_target_us - t_a) - t_d);
              x_off_accel = dx_from_a a t_a;
              x_off_cruise = i64 (x_off_accel + dx_from_v v_new t_c);
              tr' = tr\<lparr>tr_v_peak_mdegps := v_new, tr_accel_dt_us := t_a, tr_cruise_dt_us := t_c,
                       tr_decel_dt_us := t_d, tr_total_dt_us := T_target_us,
                       tr_x_accel_end_mdeg := i64 (tr_x0_mdeg tr + i64 (tr_direction tr * x_off_accel)),
                       tr_x_cruise_end_mdeg := i64 (tr_x0_mdeg tr + i64 (tr_direction tr * x_off_cruise))\<rparr>;
              ref_end = db_trajectory_get_reference tr' (u64 (T_target_us - 1));
              residual0 = i64 (rf_x_mdeg ref_end - tr_x1_mdeg tr);
              residual = (if residual0 < 0 then i64 (- residual0) else residual0) in
          if residual > 100 then (- ERANGE, tr) else (0, tr'))"

definition stretch_best :: "int \<Rightarrow> int \<Rightarrow> int \<Rightarrow> int \<Rightarrow> int \<Rightarrow> int" where
  "stretch_best a d D_abs T_target_us v_peak =
     (let b = stretch_search a d D_abs T_target_us 1 v_peak (1, UINT64_MAX);
          pmin = (if fst b > 32 then fst b - 32 else 1);
          pmax = (if fst b < i32 (v_peak - 32) then fst b + 32 else v_peak) in
      fst (foldl (stretch_probe a d D_abs T_target_us) b [pmin..pmax]))"

definition db_trajectory_stretch_to_total :: "db_trajectory_s \<Rightarrow> int \<Rightarrow> int \<times> db_trajectory_s" where
  "db_trajectory_stretch_to_total tr T_target_us =
     (if tr_infinite tr then (- EINVAL, tr)
      else if tr_direction tr = 0 then (- EINVAL, tr)
      else if tr_total_dt_us tr = 0 then (- EINVAL, tr)
      else if T_target_us \<le> tr_total_dt_us tr then (- EINVAL, tr)
      else
        let D_abs = i64 (tr_direction tr * i64 (tr_x1_mdeg tr - tr_x0_mdeg tr));
            a = tr_accel_mdegps2 tr; d = tr_decel_mdegps2 tr; v_peak = tr_v_peak_mdegps tr in
        if D_abs \<le> 0 then (- EINVAL, tr)
        else if a \<le> 0 \<or> d \<le> 0 then (- EINVAL, tr)
        else if v_peak < 1 then (- ERANGE, tr)
        else stretch_commit tr T_target_us (stretch_best a d D_abs T_target_us v_peak))"

section \<open>The integer square root and the triangular peak\<close>

declare sqrt_loop.simps [simp del] stretch_search.simps [simp del]

lemma sqrt_loop_correct:
  assumes "0 \<le> lo" "lo < hi" "hi \<le> 2 ^ 32" "lo * lo \<le> v2" "v2 < hi * hi" "r = lo"
  shows "sqrt_loop v2 lo hi r * sqrt_loop v2 lo hi r \<le> v2 \<and>
     v2 < (sqrt_loop v2 lo hi r + 1) * (sqrt_loop v2 lo hi r + 1) \<and>
     0 \<le> sqrt_loop v2 lo hi r \<and> sqrt_loop v2 lo hi r < hi"
  using assms
proof (induction v2 lo hi r rule: sqrt_loop.induct)
  case (1 v2 lo hi r)
  show ?case
  proof (cases "lo + 1 < hi")
    case True
    define mid where "mid = (lo + hi) div 2"
    have mid: "lo < mid" "mid < hi" "0 \<le> mid" using True "1.prems" by (auto simp: mid_def)
    have "mid * mid \<le> (2 ^ 32 - 1) * (2 ^ 32 - 1)"
      using mid "1.prems" by (intro mult_mono) auto
    then have nowrap: "u64 (mid * mid) = mid * mid" using mid by (intro u64_id) auto
    show ?thesis
    proof (cases "mid * mid \<le> v2")
      case le: True
      have "sqrt_loop v2 lo hi r = sqrt_loop v2 mid hi mid"
        using True nowrap le by (subst sqrt_loop.simps) (simp add: mid_def Let_def)
      then show ?thesis
        using "1.IH"(1) [OF True mid_def] nowrap le mid "1.prems" by simp
    next
      case gt: False
      have "sqrt_loop v2 lo hi r = sqrt_loop v2 lo mid r"
        using True nowrap gt by (subst sqrt_loop.simps) (simp add: mid_def Let_def)
      then show ?thesis
        using "1.IH"(2) [OF True mid_def] nowrap gt mid "1.prems" by auto
    qed
  next
    case False
    then have "hi = lo + 1" using "1.prems" by simp
    moreover have "sqrt_loop v2 lo hi r = r" using False by (subst sqrt_loop.simps) simp
    ultimately show ?thesis using "1.prems" by simp
  qed
qed

text \<open>The harmonic factor \<open>k\<close> of \<^verbatim>\<open>triangle_peak\<close>.\<close>

definition ramp_k :: "int \<Rightarrow> int \<Rightarrow> int" where
  "ramp_k a d = (2 * a * d) div (a + d)"

definition int32_pos :: "int \<Rightarrow> bool" where
  "int32_pos x \<longleftrightarrow> 0 < x \<and> x \<le> 2147483647"

lemma int32_mult_le:
  assumes "int32_pos a" "int32_pos d"
  shows "a * d \<le> 4611686014132420609"
proof -
  have "a * d \<le> 2147483647 * 2147483647"
    using assms by (intro mult_mono) (auto simp: int32_pos_def)
  then show ?thesis by simp
qed

lemma triangle_peak_eq:
  assumes "int32_pos a" "int32_pos d" "0 < ramp_k a d" "0 \<le> D" "D * ramp_k a d < 2 ^ 62"
  shows "triangle_peak D a d =
     sqrt_loop (D * ramp_k a d) 0 (if D * ramp_k a d < 2 ^ 31 then 2 ^ 31 else 2 ^ 32) 0"
    and "triangle_peak D a d * triangle_peak D a d \<le> D * ramp_k a d"
    and "D * ramp_k a d < (triangle_peak D a d + 1) * (triangle_peak D a d + 1)"
    and "0 \<le> triangle_peak D a d"
proof -
  let ?k = "ramp_k a d" and ?v2 = "D * ramp_k a d"
  define hi :: int where "hi = (if ?v2 < 2 ^ 31 then 2 ^ 31 else 2 ^ 32)"
  let ?r = "sqrt_loop ?v2 0 hi 0"
  have ad: "0 < a * d" "a * d \<le> 4611686014132420609"
    using int32_mult_le [OF assms(1,2)] assms(1,2) by (auto simp: int32_pos_def)
  have v2: "0 \<le> ?v2" using assms by simp
  have "?v2 < hi * hi" using assms(5) by (auto simp: hi_def)
  then have r: "?r * ?r \<le> ?v2" "?v2 < (?r + 1) * (?r + 1)" "0 \<le> ?r"
    using sqrt_loop_correct [of 0 hi ?v2 0] v2 by (auto simp: hi_def)
  have small: "?r \<le> 2147483647"
  proof (rule ccontr)
    assume "\<not> ?r \<le> 2147483647"
    then have "2 ^ 31 * 2 ^ 31 \<le> ?r * ?r" using r(3) by (intro mult_mono) auto
    then show False using r(1) assms(5) by simp
  qed
  have "?k \<le> D * ?k" if "D \<noteq> 0" using assms(3,4) that by (simp add: mult_le_cancel_right2)
  have guard: "\<not> D > UINT64_MAX div ?k"
  proof -
    have "D \<le> UINT64_MAX div ?k"
      using assms(3,5) by (simp add: UINT64_MAX_def int_le_div_iff)
    then show ?thesis by simp
  qed
  have "triangle_peak D a d = i32 ?r"
    using assms(1,2,3) ad guard v2 assms(5)
    by (simp add: triangle_peak_def int32_pos_def u64_id Let_def ramp_k_def hi_def mult.assoc)
  then have e: "triangle_peak D a d = ?r" using small r(3) by (simp add: i32_id)
  then show "triangle_peak D a d = sqrt_loop ?v2 0 (if ?v2 < 2 ^ 31 then 2 ^ 31 else 2 ^ 32) 0"
    by (simp only: hi_def)
  show "triangle_peak D a d * triangle_peak D a d \<le> ?v2"
    "?v2 < (triangle_peak D a d + 1) * (triangle_peak D a d + 1)" "0 \<le> triangle_peak D a d"
    using e r by simp_all
qed

section \<open>Ramp arithmetic\<close>

lemma ramp_time: "0 < a \<Longrightarrow> t \<le> v * 1000000 div a \<Longrightarrow> a * t \<le> v * (1000000::int)"
  using int_le_div_iff [of a t "v * 1000000"] by (simp add: mult.commute)

lemma ramp_square:
  assumes "0 \<le> t" "0 \<le> a" "a * t \<le> v * (1000000::int)"
  shows "a * (a * t * t) \<le> v * v * 1000000000000"
proof -
  have "0 \<le> a * t" using assms by simp
  moreover from this have "0 \<le> v * 1000000" using assms(3) by (rule order_trans)
  ultimately have "(a * t) * (a * t) \<le> (v * 1000000) * (v * 1000000)"
    using mult_mono [OF assms(3) assms(3)] by simp
  then show ?thesis by (simp add: algebra_simps)
qed

lemma ramp_product:
  assumes "0 \<le> t" "0 < a" "a * t \<le> v * (1000000::int)" "v * v \<le> 9000000 * a"
  shows "a * t * t \<le> 9000000000000000000"
proof -
  have "a * (a * t * t) \<le> v * v * 1000000000000"
    using ramp_square assms by simp
  also have "\<dots> \<le> a * 9000000000000000000" using assms(4) by simp
  finally show ?thesis using assms(2) by (simp add: mult_le_cancel_left_pos)
qed

lemma ramp_distance:
  assumes "0 \<le> t" "0 < a" "a * t \<le> v * (1000000::int)"
  shows "a * t * t div 2000000000000 \<le> v * v div (2 * a)"
proof -
  let ?x = "a * t * t div 2000000000000"
  have x: "?x * 2000000000000 \<le> a * t * t" by (rule int_mult_div_le) simp
  then have "a * (?x * 2000000000000) \<le> a * (a * t * t)" using assms(2) by simp
  also have "\<dots> \<le> v * v * 1000000000000" using ramp_square assms by simp
  finally have "?x * (2 * a) \<le> v * v" by (simp add: algebra_simps)
  then show ?thesis using assms(2) by (simp add: int_le_div_iff)
qed

lemma brake_distance:
  assumes "0 \<le> t" "0 < d" "d * t \<le> v * (1000000::int)"
  shows "0 \<le> v * t div 1000000 - d * t * t div 2000000000000"
    and "v * t div 1000000 - d * t * t div 2000000000000 \<le> v * v div (2 * d) + 1"
proof -
  let ?A = "v * t div 1000000" and ?B = "d * t * t div 2000000000000"
  have B: "?B * 2000000000000 \<le> d * t * t" by (rule int_mult_div_le) simp
  have A: "?A * 1000000 \<le> v * t" by (rule int_mult_div_le) simp
  have "d * t * t \<le> v * 1000000 * t" using assms(1,3) by (intro mult_right_mono)
  then have "?B * 2000000000000 \<le> (v * t) * 1000000" using B by (simp add: algebra_simps)
  moreover have "0 \<le> ?B" using assms(1,2) by (simp add: pos_imp_zdiv_nonneg_iff)
  ultimately have "?B * 1000000 \<le> v * t" by linarith
  then show "0 \<le> ?A - ?B" by (simp add: int_le_div_iff)
  have "d * t * t < (?B + 1) * 2000000000000"
    using int_div_less_iff [of 2000000000000 "d * t * t" "?B + 1"] by simp
  then have B2: "(?A - ?B - 1) * 2000000000000 < v * t * 2000000 - d * t * t"
    using A by (simp add: algebra_simps)
  have "0 \<le> (v * 1000000 - d * t) * (v * 1000000 - d * t)" by simp
  then have sq: "d * (v * t * 2000000 - d * t * t) \<le> v * v * 1000000000000"
    by (simp add: algebra_simps)
  have "d * ((?A - ?B - 1) * 2000000000000) \<le> d * (v * t * 2000000 - d * t * t)"
    using B2 assms(2) by (intro mult_left_mono) auto
  then have "(?A - ?B - 1) * (2 * d) \<le> v * v" using sq by (simp add: algebra_simps)
  then have "?A - ?B - 1 \<le> v * v div (2 * d)" using assms(2) by (simp add: int_le_div_iff)
  then show "?A - ?B \<le> v * v div (2 * d) + 1" by simp
qed

lemma dx_from_a_eq:
  assumes "0 \<le> t" "t < 2 ^ 62" "0 < a" "a * t \<le> 9000000000000000000"
    "a * t * t \<le> 9000000000000000000"
  shows "dx_from_a a t = a * t * t div 2000000000000"
proof -
  have nn: "0 \<le> a * t" "0 \<le> a * t * t" using assms(1,3) by simp_all
  have "i64 t = t" by (rule i64_id) (use assms in simp_all)
  moreover have "i64 (a * t) = a * t" by (rule i64_id) (use nn assms(4) in linarith)+
  moreover have "i64 (a * t * t) = a * t * t" by (rule i64_id) (use nn assms(5) in linarith)+
  ultimately show ?thesis using nn by (simp add: dx_from_a_def US2_PER_S2_def Let_def cdiv_nonneg)
qed

lemma dx_from_v_eq:
  assumes "0 \<le> t" "t \<le> 9100000000000000000" "0 \<le> v" "v * t \<le> 9200000000000000000"
  shows "dx_from_v v t = v * t div 1000000"
proof -
  have nn: "0 \<le> v * t" using assms(1,3) by simp
  have "i64 t = t" by (rule i64_id) (use assms in simp_all)
  moreover have "i64 (v * t) = v * t" by (rule i64_id) (use nn assms(4) in linarith)+
  ultimately show ?thesis using nn by (simp add: dx_from_v_def US_PER_S_def cdiv_nonneg)
qed

lemma v_from_a_eq:
  assumes "0 \<le> t" "t < 2 ^ 62" "0 < a" "a * t \<le> v * 1000000" "v \<le> 2147483647"
  shows "v_from_a a t = a * t div 1000000" and "0 \<le> v_from_a a t" and "v_from_a a t \<le> v"
proof -
  have q: "0 \<le> a * t div 1000000" "a * t div 1000000 \<le> v"
    using assms zdiv_mono1 [of "a * t" "v * 1000000" 1000000] by (simp_all add: pos_imp_zdiv_nonneg_iff)
  have "0 \<le> a * t" "a * t \<le> 9000000000000000000" using assms by simp_all
  then show e: "v_from_a a t = a * t div 1000000"
    using assms q by (simp add: v_from_a_def US_PER_S_def i64_id cdiv_nonneg i32_id)
  show "0 \<le> v_from_a a t" "v_from_a a t \<le> v" using e q by simp_all
qed

lemma dt_to_reach_v_eq:
  "0 \<le> v \<Longrightarrow> v \<le> 2147483647 \<Longrightarrow> int32_pos a \<Longrightarrow> dt_to_reach_v v a = v * 1000000 div a"
  by (simp add: dt_to_reach_v_def int32_pos_def u64_id u32_id US_PER_S_def)

lemma ramp_time_bounds:
  fixes v a :: int
  assumes "0 \<le> v" "v \<le> 2147483647" "0 < a"
  shows "0 \<le> v * 1000000 div a" "v * 1000000 div a \<le> 2147483647000000"
proof -
  show "0 \<le> v * 1000000 div a" using assms by (simp add: pos_imp_zdiv_nonneg_iff)
  have "v * 1000000 div a \<le> v * 1000000 div 1" using assms by (intro zdiv_mono2) auto
  then show "v * 1000000 div a \<le> 2147483647000000" using assms by simp
qed

section \<open>Sound plans\<close>

text \<open>
  What \<^verbatim>\<open>db_trajectory_init_position\<close> establishes for a move of \<open>D\<close> milli-degrees, in mathematical
  integers: the segment times, the boundary positions, and that the three segments together do not
  need more than the distance.
\<close>

definition plan_ok :: "db_trajectory_s \<Rightarrow> int \<Rightarrow> bool" where
  "plan_ok tr D \<longleftrightarrow>
     (let v = tr_v_peak_mdegps tr; a = tr_accel_mdegps2 tr; d = tr_decel_mdegps2 tr;
          tc = tr_cruise_dt_us tr; dir = tr_direction tr in
      (dir = 1 \<or> dir = - 1) \<and> \<not> tr_infinite tr \<and> int32_pos a \<and> int32_pos d \<and>
      0 \<le> v \<and> v \<le> 2147483647 \<and> v * v \<le> 9000000 * a \<and> v * v \<le> 9000000 * d \<and>
      0 \<le> tc \<and> tc \<le> 9000000000000000000 \<and> v * tc \<le> 9000000000000000000 \<and>
      v * v div (2 * a) + v * v div (2 * d) + v * tc div 1000000 \<le> D \<and>
      0 < D \<and> D \<le> 9000000000000 \<and> \<bar>tr_x0_mdeg tr\<bar> \<le> 2 ^ 61 \<and>
      tr_x1_mdeg tr = tr_x0_mdeg tr + dir * D \<and>
      tr_accel_dt_us tr = v * 1000000 div a \<and> tr_decel_dt_us tr = v * 1000000 div d \<and>
      tr_total_dt_us tr = tr_accel_dt_us tr + tc + tr_decel_dt_us tr \<and>
      tr_x_accel_end_mdeg tr = tr_x0_mdeg tr +
        dir * (a * tr_accel_dt_us tr * tr_accel_dt_us tr div 2000000000000) \<and>
      tr_x_cruise_end_mdeg tr = tr_x0_mdeg tr +
        dir * (a * tr_accel_dt_us tr * tr_accel_dt_us tr div 2000000000000 + v * tc div 1000000))"

text \<open>The input ranges of the theorems: with them no C operation of the module wraps.\<close>

definition plan_inputs :: "int \<Rightarrow> int \<Rightarrow> int \<Rightarrow> int \<Rightarrow> int \<Rightarrow> bool" where
  "plan_inputs x0 x1 v a d \<longleftrightarrow> int32_pos v \<and> int32_pos a \<and> int32_pos d \<and>
     v * v \<le> 9000000 * a \<and> v * v \<le> 9000000 * d \<and>
     \<bar>x0\<bar> \<le> 2 ^ 61 \<and> 0 < \<bar>x1 - x0\<bar> \<and> \<bar>x1 - x0\<bar> \<le> 9000000000000"

lemma ramp_k_bounds:
  assumes "int32_pos a" "int32_pos d"
  shows "0 < ramp_k a d" and "ramp_k a d * (a + d) \<le> 2 * a * d"
proof -
  have p: "0 < a" "0 < d" using assms by (simp_all add: int32_pos_def)
  have "0 \<le> a * (d - 1) + d * (a - 1)" using p by simp
  then have "1 * (a + d) \<le> 2 * a * d" by (simp add: algebra_simps)
  then have "1 \<le> ramp_k a d" using p by (simp add: ramp_k_def int_le_div_iff)
  then show "0 < ramp_k a d" by simp
  show "ramp_k a d * (a + d) \<le> 2 * a * d"
    unfolding ramp_k_def using p by (intro int_mult_div_le) simp
qed

lemma ramps_sum:
  fixes v a d :: int
  assumes "0 < a" "0 < d"
  shows "(v * v div (2 * a) + v * v div (2 * d)) * (2 * a * d) \<le> v * v * (a + d)"
proof -
  have "v * v div (2 * a) * (2 * a) \<le> v * v" "v * v div (2 * d) * (2 * d) \<le> v * v"
    using assms by (simp_all add: int_mult_div_le)
  then have "v * v div (2 * a) * (2 * a) * d \<le> v * v * d" "v * v div (2 * d) * (2 * d) * a \<le> v * v * a"
    using assms by (simp_all add: mult_right_mono)
  then show ?thesis by (simp add: algebra_simps)
qed

lemma triangular_peak:
  assumes "int32_pos v" "int32_pos a" "int32_pos d" "0 < D"
    and tri: "D \<le> v * v div (2 * a) + v * v div (2 * d)"
  shows "D * ramp_k a d \<le> v * v" and "0 \<le> triangle_peak D a d" and "triangle_peak D a d \<le> v"
    and "triangle_peak D a d * triangle_peak D a d div (2 * a) +
         triangle_peak D a d * triangle_peak D a d div (2 * d) \<le> D"
proof -
  let ?k = "ramp_k a d" and ?u = "triangle_peak D a d"
  have p: "0 < a" "0 < d" "0 < v" using assms by (simp_all add: int32_pos_def)
  have k: "0 < ?k" "?k * (a + d) \<le> 2 * a * d" using ramp_k_bounds assms(2,3) by blast+
  have "D * (?k * (a + d)) \<le> D * (2 * a * d)" using k(2) assms(4) by (intro mult_left_mono) simp_all
  also have "\<dots> \<le> (v * v div (2 * a) + v * v div (2 * d)) * (2 * a * d)"
    using tri p by (intro mult_right_mono) simp_all
  also have "\<dots> \<le> v * v * (a + d)" using ramps_sum [OF p(1,2)] .
  finally have "(D * ?k) * (a + d) \<le> (v * v) * (a + d)" by (simp add: algebra_simps)
  then show dk: "D * ?k \<le> v * v" using p by (simp add: mult_le_cancel_right)
  have "v * v \<le> 4611686014132420609" using int32_mult_le assms(1) by blast
  then have "D * ?k < 2 ^ 62" using dk by simp
  note u = triangle_peak_eq(2-4) [OF assms(2,3) k(1) _ this]
  show u0: "0 \<le> ?u" using u assms(4) by simp
  have uu: "?u * ?u \<le> D * ?k" using u assms(4) by simp
  show "?u \<le> v"
  proof (rule ccontr)
    assume "\<not> ?u \<le> v"
    then have "v * v < ?u * ?u" using p by (intro mult_strict_mono) auto
    then show False using uu dk by simp
  qed
  have "(?u * ?u div (2 * a) + ?u * ?u div (2 * d)) * (2 * a * d) \<le> ?u * ?u * (a + d)"
    using ramps_sum [OF p(1,2)] .
  also have "\<dots> \<le> D * ?k * (a + d)" using uu p by (intro mult_right_mono) auto
  also have "\<dots> \<le> D * (2 * a * d)" using k(2) assms(4) by (simp add: mult.assoc)
  finally show "?u * ?u div (2 * a) + ?u * ?u div (2 * d) \<le> D"
    using p by (simp add: mult_le_cancel_right)
qed

lemma square_mono: "0 \<le> u \<Longrightarrow> u \<le> v \<Longrightarrow> u * u \<le> v * (v :: int)"
  by (intro mult_mono) auto

lemma ramp_end:
  assumes "0 \<le> v" "v \<le> 2147483647" "int32_pos a" "v * v \<le> 9000000 * a" "0 \<le> t" "t \<le> v * 1000000 div a"
  shows "a * t \<le> v * 1000000" and "t < 2 ^ 62" and "a * t * t \<le> 9000000000000000000"
    and "dx_from_a a t = a * t * t div 2000000000000" and "0 \<le> dx_from_a a t"
    and "dx_from_a a t \<le> v * v div (2 * a)" and "v * v div (2 * a) \<le> 4500000"
proof -
  have p: "0 < a" using assms(3) by (simp add: int32_pos_def)
  show at: "a * t \<le> v * 1000000" using ramp_time p assms(6) by blast
  show t: "t < 2 ^ 62" using ramp_time_bounds(2) [OF assms(1,2) p] assms(6) by simp
  show att: "a * t * t \<le> 9000000000000000000" using ramp_product assms(4,5) p at by blast
  show e: "dx_from_a a t = a * t * t div 2000000000000"
    using dx_from_a_eq [OF assms(5) t p] at att assms(2) by simp
  show "0 \<le> dx_from_a a t" using e p assms(5) by (simp add: pos_imp_zdiv_nonneg_iff)
  show "dx_from_a a t \<le> v * v div (2 * a)" using e ramp_distance [OF assms(5) p at] by simp
  have "v * v div (2 * a) < 4500001" using assms(4) p by (simp add: int_div_less_iff)
  then show "v * v div (2 * a) \<le> 4500000" by simp
qed

lemma init_position_steps:
  assumes "plan_inputs x0 x1 v a d"
  defines "D \<equiv> \<bar>x1 - x0\<bar>" and "dir \<equiv> (if x1 > x0 then 1 else - 1 :: int)"
  defines "da \<equiv> v * v div (2 * a)" and "dd \<equiv> v * v div (2 * d)"
  defines "u \<equiv> (if da + dd \<ge> D then triangle_peak D a d else v)"
  defines "tc \<equiv> (if da + dd \<ge> D then 0 else (D - da - dd) * 1000000 div v)"
  shows "db_trajectory_init_position t0 x0 x1 v a d =
     \<lparr>tr_t0_us = t0, tr_x0_mdeg = x0, tr_x1_mdeg = x1, tr_v_peak_mdegps = u,
      tr_accel_mdegps2 = a, tr_decel_mdegps2 = d, tr_direction = dir, tr_infinite = False,
      tr_accel_dt_us = dt_to_reach_v u a, tr_cruise_dt_us = tc, tr_decel_dt_us = dt_to_reach_v u d,
      tr_total_dt_us = u64 (u64 (dt_to_reach_v u a + tc) + dt_to_reach_v u d),
      tr_x_accel_end_mdeg = i64 (x0 + i64 (dir * dx_from_a a (dt_to_reach_v u a))),
      tr_x_cruise_end_mdeg =
        i64 (x0 + i64 (dir * i64 (dx_from_a a (dt_to_reach_v u a) + dx_from_v u tc)))\<rparr>"
proof -
  have r: "int32_pos v" "int32_pos a" "int32_pos d" "D \<noteq> 0" "0 \<le> D" "D \<le> 9000000000000"
    using assms(1) by (auto simp: plan_inputs_def D_def)
  have p: "0 < v" "v \<le> 2147483647" "0 < a" "a \<le> 2147483647" "0 < d" "d \<le> 2147483647"
    using r by (auto simp: int32_pos_def)
  have vv: "0 \<le> v * v" "v * v \<le> 4611686014132420609" using int32_mult_le r(1) by auto
  have dist: "i64 (x1 - x0) = x1 - x0"
    by (rule i64_id) (use r(6) in \<open>auto simp: D_def\<close>)
  have dir: "(if x1 - x0 > 0 then 1 else - 1) = dir" by (auto simp: dir_def)
  have "(x1 - x0) * dir = D" by (auto simp: D_def dir_def)
  then have dabs: "u64 (i64 ((x1 - x0) * dir)) = D" using r(5,6) by (simp add: i64_id u64_id)
  have da: "u64 (u64 v * u64 v) div u32 (2 * u32 a) = da"
    using p vv by (simp add: da_def u64_id u32_id)
  have dd: "u64 (u64 v * u64 v) div u32 (2 * u32 d) = dd"
    using p vv by (simp add: dd_def u64_id u32_id)
  have "v * v div (2 * a) \<le> v * v" "v * v div (2 * d) \<le> v * v"
    using zdiv_mono2 [of "v * v" 1 "2 * a"] zdiv_mono2 [of "v * v" 1 "2 * d"] p vv(1) by auto
  then have b: "0 \<le> da" "0 \<le> dd" "da \<le> 4611686014132420609" "dd \<le> 4611686014132420609"
    using p vv by (auto simp: da_def dd_def pos_imp_zdiv_nonneg_iff)
  have s: "u64 (da + dd) = da + dd" by (rule u64_id) (use b in auto)
  have c: "u64 (u64 (u64 (D - da) - dd) * 1000000) div u32 v = (D - da - dd) * 1000000 div v"
    if "\<not> D \<le> da + dd"
    using that b r(6) p by (simp add: u64_id u32_id)
  have ne: "x1 - x0 \<noteq> 0" using r(4) by (simp add: D_def)
  show ?thesis
    unfolding db_trajectory_init_position_def Let_def dist dir dabs
    using p ne by (simp add: da dd s c u_def tc_def US_PER_S_def)
qed

lemma init_position_peak:
  assumes "plan_inputs x0 x1 v a d"
  defines "D \<equiv> \<bar>x1 - x0\<bar>"
  defines "da \<equiv> v * v div (2 * a)" and "dd \<equiv> v * v div (2 * d)"
  defines "u \<equiv> (if da + dd \<ge> D then triangle_peak D a d else v)"
  defines "tc \<equiv> (if da + dd \<ge> D then 0 else (D - da - dd) * 1000000 div v)"
  shows "0 \<le> u" and "u \<le> v" and "0 \<le> tc" and "tc \<le> 9000000000000000000"
    and "u * tc \<le> 9000000000000000000"
    and "u * u div (2 * a) + u * u div (2 * d) + u * tc div 1000000 \<le> D"
proof -
  have r: "int32_pos v" "int32_pos a" "int32_pos d" "0 < D" "D \<le> 9000000000000"
    using assms(1) by (auto simp: plan_inputs_def D_def)
  have p: "0 < v" "0 < a" "0 < d" using r by (auto simp: int32_pos_def)
  have nn: "0 \<le> da" "0 \<le> dd" using p by (simp_all add: da_def dd_def pos_imp_zdiv_nonneg_iff)
  have tri: "0 \<le> u \<and> u \<le> v \<and> u * u div (2 * a) + u * u div (2 * d) \<le> D" if "D \<le> da + dd"
    using triangular_peak(2-4) [OF r(1-4)] that by (simp add: u_def da_def dd_def)
  have trap: "0 \<le> tc \<and> v * tc \<le> (D - da - dd) * 1000000" if "\<not> D \<le> da + dd"
    using that p int_mult_div_le [of v "(D - da - dd) * 1000000"]
    by (simp add: tc_def pos_imp_zdiv_nonneg_iff mult.commute)
  show "0 \<le> u" "u \<le> v" "0 \<le> tc" using tri trap p by (auto simp: u_def tc_def)
  have "tc * 1 \<le> tc * v" if "\<not> D \<le> da + dd" using trap [OF that] p by (intro mult_left_mono) auto
  then show "tc \<le> 9000000000000000000"
    using trap nn r(5) by (cases "D \<le> da + dd") (auto simp: tc_def mult.commute)
  show "u * tc \<le> 9000000000000000000"
    using trap nn r(5) by (cases "D \<le> da + dd") (auto simp: tc_def u_def)
  show "u * u div (2 * a) + u * u div (2 * d) + u * tc div 1000000 \<le> D"
  proof (cases "D \<le> da + dd")
    case True
    then show ?thesis using tri by (simp add: tc_def)
  next
    case False
    then have "v * tc div 1000000 \<le> D - da - dd"
      using trap zdiv_mono1 [of "v * tc" "(D - da - dd) * 1000000" 1000000] by simp
    then show ?thesis using False by (simp add: u_def da_def dd_def)
  qed
qed

lemma init_position_plan:
  assumes "plan_inputs x0 x1 v a d"
  shows "plan_ok (db_trajectory_init_position t0 x0 x1 v a d) \<bar>x1 - x0\<bar>"
    and "tr_v_peak_mdegps (db_trajectory_init_position t0 x0 x1 v a d) \<le> v"
    and "tr_t0_us (db_trajectory_init_position t0 x0 x1 v a d) = t0"
    and "tr_x0_mdeg (db_trajectory_init_position t0 x0 x1 v a d) = x0"
    and "tr_x1_mdeg (db_trajectory_init_position t0 x0 x1 v a d) = x1"
    and "tr_direction (db_trajectory_init_position t0 x0 x1 v a d) = (if x1 > x0 then 1 else - 1)"
proof -
  let ?D = "\<bar>x1 - x0\<bar>" and ?da = "v * v div (2 * a)" and ?dd = "v * v div (2 * d)"
  let ?u = "if ?da + ?dd \<ge> ?D then triangle_peak ?D a d else v"
  let ?tc = "if ?da + ?dd \<ge> ?D then 0 else (?D - ?da - ?dd) * 1000000 div v"
  define dir :: int where "dir = (if x1 > x0 then 1 else - 1)"
  define u tc where "u = ?u" and "tc = ?tc"
  note pk = init_position_peak [OF assms, folded u_def tc_def]
  note st = init_position_steps [OF assms, of t0, folded u_def tc_def dir_def]
  have r: "int32_pos v" "int32_pos a" "int32_pos d" "0 < ?D" "?D \<le> 9000000000000"
    "v * v \<le> 9000000 * a" "v * v \<le> 9000000 * d" "\<bar>x0\<bar> \<le> 2305843009213693952"
    using assms by (auto simp: plan_inputs_def)
  have p: "v \<le> 2147483647" "0 < a" "0 < d" using r by (auto simp: int32_pos_def)
  have uv: "0 \<le> u" "u \<le> 2147483647" using pk(1,2) p by auto
  have uu: "u * u \<le> 9000000 * a" "u * u \<le> 9000000 * d" using square_mono [OF pk(1,2)] r(6,7) by auto
  have ta: "dt_to_reach_v u a = u * 1000000 div a" and td: "dt_to_reach_v u d = u * 1000000 div d"
    using dt_to_reach_v_eq [OF uv] r(2,3) by auto
  note tab = ramp_time_bounds [OF uv p(2)] and tdb = ramp_time_bounds [OF uv p(3)]
  let ?ta = "u * 1000000 div a"
  note re = ramp_end [OF uv r(2) uu(1) tab(1) order_refl]
  have nn: "0 \<le> u * u div (2 * a)" "0 \<le> u * u div (2 * d)"
    using p by (simp_all add: pos_imp_zdiv_nonneg_iff)
  have xv2: "0 \<le> u * tc div 1000000" using pk(1,3) by (simp add: pos_imp_zdiv_nonneg_iff)
  have xv3: "u * tc div 1000000 \<le> ?D" using pk(6) nn by linarith
  have xv1: "dx_from_v u tc = u * tc div 1000000" using dx_from_v_eq [of tc u] pk(1,3-5) by simp
  note xv = xv1 xv2 xv3
  have off: "0 \<le> dx_from_a a ?ta" "dx_from_a a ?ta \<le> 4500000" using re by auto
  have w1: "i64 (x0 + i64 (dir * dx_from_a a ?ta)) = x0 + dir * dx_from_a a ?ta"
    using off r(8) by (auto simp: dir_def i64_id)
  have w2: "i64 (x0 + i64 (dir * i64 (dx_from_a a ?ta + dx_from_v u tc))) =
      x0 + dir * (dx_from_a a ?ta + dx_from_v u tc)"
    using off r(5,8) xv by (auto simp: dir_def i64_id)
  have w3: "u64 (u64 (?ta + tc) + u * 1000000 div d) = ?ta + tc + u * 1000000 div d"
    using tab tdb pk(3,4) by (simp add: u64_id)
  have x1: "x1 = x0 + dir * ?D" by (auto simp: dir_def)
  have dirs: "dir = 1 \<or> dir = - 1" by (simp add: dir_def)
  have not_False: "\<not> False" by simp
  have x0b: "\<bar>x0\<bar> \<le> 2 ^ 61" using r(8) by simp
  show "plan_ok (db_trajectory_init_position t0 x0 x1 v a d) ?D"
    unfolding st plan_ok_def Let_def ta td w1 w2 w3 re(4) xv1 db_trajectory_s.simps
    by (intro conjI)
      (rule dirs r uv uu pk x1 x0b refl not_False w1 [unfolded re(4)] w2 [unfolded re(4) xv1])+
  show "tr_v_peak_mdegps (db_trajectory_init_position t0 x0 x1 v a d) \<le> v"
    "tr_t0_us (db_trajectory_init_position t0 x0 x1 v a d) = t0"
    "tr_x0_mdeg (db_trajectory_init_position t0 x0 x1 v a d) = x0"
    "tr_x1_mdeg (db_trajectory_init_position t0 x0 x1 v a d) = x1"
    "tr_direction (db_trajectory_init_position t0 x0 x1 v a d) = (if x1 > x0 then 1 else - 1)"
    unfolding st using pk(2) by (simp_all add: dir_def)
qed

section \<open>Sampling a sound plan\<close>

text \<open>
  \<open>ref_is tr ref s w fin\<close>: the reference lies \<open>s\<close> milli-degrees along the move and runs at speed \<open>w\<close>.
\<close>

definition ref_is :: "db_trajectory_s \<Rightarrow> db_trajectory_ref_s \<Rightarrow> int \<Rightarrow> int \<Rightarrow> bool \<Rightarrow> bool" where
  "ref_is tr ref s w fin \<longleftrightarrow> rf_x_mdeg ref = tr_x0_mdeg tr + tr_direction tr * s \<and>
     rf_v_mdegps ref = tr_direction tr * w \<and> rf_done ref = fin"

lemma plan_okD:
  assumes "plan_ok tr D"
  defines "v \<equiv> tr_v_peak_mdegps tr" and "a \<equiv> tr_accel_mdegps2 tr" and "d \<equiv> tr_decel_mdegps2 tr"
    and "tc \<equiv> tr_cruise_dt_us tr" and "dir \<equiv> tr_direction tr"
  shows "dir = 1 \<or> dir = - 1" "\<not> tr_infinite tr" "int32_pos a" "int32_pos d" "0 \<le> v"
    "v \<le> 2147483647" "v * v \<le> 9000000 * a" "v * v \<le> 9000000 * d" "0 \<le> tc"
    "tc \<le> 9000000000000000000" "v * tc \<le> 9000000000000000000"
    "v * v div (2 * a) + v * v div (2 * d) + v * tc div 1000000 \<le> D" "0 < D" "D \<le> 9000000000000"
    "\<bar>tr_x0_mdeg tr\<bar> \<le> 2 ^ 61" "tr_x1_mdeg tr = tr_x0_mdeg tr + dir * D"
    "tr_accel_dt_us tr = v * 1000000 div a" "tr_decel_dt_us tr = v * 1000000 div d"
    "tr_total_dt_us tr = tr_accel_dt_us tr + tc + tr_decel_dt_us tr"
    "tr_x_accel_end_mdeg tr = tr_x0_mdeg tr +
        dir * (a * tr_accel_dt_us tr * tr_accel_dt_us tr div 2000000000000)"
    "tr_x_cruise_end_mdeg tr = tr_x0_mdeg tr +
        dir * (a * tr_accel_dt_us tr * tr_accel_dt_us tr div 2000000000000 + v * tc div 1000000)"
  using assms(1) by (simp_all add: plan_ok_def Let_def v_def a_def d_def tc_def dir_def)

lemma dir_wrap:
  assumes "dir = 1 \<or> dir = - (1::int)" "\<bar>x\<bar> \<le> 2305843009213693952" "0 \<le> s" "s \<le> 2305843009213693952"
  shows "i64 (x + i64 (dir * s)) = x + dir * s"
  using assms by (auto simp: i64_id)

lemma dir_wrap2:
  assumes "dir = 1 \<or> dir = - (1::int)" "\<bar>x\<bar> \<le> 2 ^ 61" "0 \<le> s" "s \<le> 9000000000001"
    "0 \<le> b" "b \<le> 9000000000001"
  shows "i64 (x + dir * s + i64 (dir * b)) = x + dir * (s + b)"
  using assms by (auto simp: i64_id)

lemma dir_wrap32: "dir = 1 \<or> dir = - (1::int) \<Longrightarrow> 0 \<le> w \<Longrightarrow> w \<le> 2147483647 \<Longrightarrow> i32 (dir * w) = dir * w"
  by (auto simp: i32_id)

lemma segment_sums:
  assumes "plan_ok tr D"
  defines "v \<equiv> tr_v_peak_mdegps tr"
  shows "0 \<le> v * v div (2 * tr_accel_mdegps2 tr)" and "0 \<le> v * v div (2 * tr_decel_mdegps2 tr)"
    and "0 \<le> v * tr_cruise_dt_us tr div 1000000"
    and "v * v div (2 * tr_accel_mdegps2 tr) \<le> D" and "v * tr_cruise_dt_us tr div 1000000 \<le> D"
proof -
  note ok = plan_okD [OF assms(1), folded v_def]
  have p: "0 < tr_accel_mdegps2 tr" "0 < tr_decel_mdegps2 tr" using ok(3,4) by (auto simp: int32_pos_def)
  show a: "0 \<le> v * v div (2 * tr_accel_mdegps2 tr)" using p by (simp add: pos_imp_zdiv_nonneg_iff)
  show d: "0 \<le> v * v div (2 * tr_decel_mdegps2 tr)" using p by (simp add: pos_imp_zdiv_nonneg_iff)
  show c: "0 \<le> v * tr_cruise_dt_us tr div 1000000" using ok(5,9) by (simp add: pos_imp_zdiv_nonneg_iff)
  show "v * v div (2 * tr_accel_mdegps2 tr) \<le> D" "v * tr_cruise_dt_us tr div 1000000 \<le> D"
    using ok(12) a d c by linarith+
qed

lemma sample_accel:
  assumes "plan_ok tr D" "0 \<le> tr_t0_us tr" "tr_t0_us tr \<le> t" "t < 2 ^ 64"
    "t - tr_t0_us tr < tr_accel_dt_us tr"
  shows "\<exists>s w. ref_is tr (db_trajectory_get_reference tr t) s w False \<and>
     0 \<le> s \<and> s \<le> D \<and> 0 \<le> w \<and> w \<le> tr_v_peak_mdegps tr"
proof -
  note ok = plan_okD [OF assms(1)] and ss = segment_sums [OF assms(1)]
  let ?dt = "t - tr_t0_us tr" and ?a = "tr_accel_mdegps2 tr" and ?v = "tr_v_peak_mdegps tr"
  have dt: "0 \<le> ?dt" "u64 ?dt = ?dt" using assms by (auto intro!: u64_id)
  note re = ramp_end [OF ok(5,6,3,7) dt(1)]
  have le: "?dt \<le> ?v * 1000000 div ?a" using assms(5) ok(17) by simp
  note x = re(5,6) [OF le]
  have p: "0 < ?a" using ok(3) by (simp add: int32_pos_def)
  note vv = v_from_a_eq(2,3) [OF dt(1) re(2) [OF le] p re(1) [OF le] ok(6)]
  have "dx_from_a ?a ?dt \<le> D" using x(2) ss(4) by linarith
  then have "ref_is tr (db_trajectory_get_reference tr t) (dx_from_a ?a ?dt) (v_from_a ?a ?dt) False"
    using assms(3,5) ok(1,6,14,15) x(1) vv
    by (auto simp: ref_is_def db_trajectory_get_reference_def Let_def dt(2) dir_wrap dir_wrap32)
  then show ?thesis using x(1) vv \<open>dx_from_a ?a ?dt \<le> D\<close> by blast
qed

lemma sample_cruise:
  assumes "plan_ok tr D" "0 \<le> tr_t0_us tr" "tr_t0_us tr \<le> t" "t < 2 ^ 64"
    "tr_accel_dt_us tr \<le> t - tr_t0_us tr"
    "t - tr_t0_us tr < tr_accel_dt_us tr + tr_cruise_dt_us tr"
  shows "\<exists>s w. ref_is tr (db_trajectory_get_reference tr t) s w False \<and>
     0 \<le> s \<and> s \<le> D \<and> 0 \<le> w \<and> w \<le> tr_v_peak_mdegps tr"
proof -
  note ok = plan_okD [OF assms(1)] and ss = segment_sums [OF assms(1)]
  let ?dt = "t - tr_t0_us tr" and ?a = "tr_accel_mdegps2 tr" and ?v = "tr_v_peak_mdegps tr"
  let ?ta = "tr_accel_dt_us tr" and ?tc = "tr_cruise_dt_us tr" and ?d = "tr_decel_mdegps2 tr"
  have p: "0 < ?a" "0 < ?d" using ok(3,4) by (simp_all add: int32_pos_def)
  note tab = ramp_time_bounds [OF ok(5,6) p(1), folded ok(17)]
  define tt where "tt = ?dt - ?ta"
  have tt: "0 \<le> tt" "tt \<le> ?tc" using assms(5,6) by (auto simp: tt_def)
  have dt: "u64 ?dt = ?dt" "u64 (?dt - ?ta) = tt" "u64 (?ta + ?tc) = ?ta + ?tc"
    using assms ok(9,10) tab by (auto simp: tt_def intro!: u64_id)
  have vt: "?v * tt \<le> ?v * ?tc" using tt ok(5) by (intro mult_left_mono)
  have xv: "dx_from_v ?v tt = ?v * tt div 1000000"
    using dx_from_v_eq [of tt ?v] tt ok(5,10,11) vt by simp
  have c: "0 \<le> ?v * tt div 1000000" "?v * tt div 1000000 \<le> ?v * ?tc div 1000000"
    using tt ok(5) vt by (auto simp: pos_imp_zdiv_nonneg_iff intro: zdiv_mono1)
  note re = ramp_end [OF ok(5,6,3,7) tab(1)]
  have xa: "0 \<le> ?a * ?ta * ?ta div 2000000000000" "?a * ?ta * ?ta div 2000000000000 \<le> ?v * ?v div (2 * ?a)"
    using re(4-6) ok(17) by simp_all
  let ?s = "?a * ?ta * ?ta div 2000000000000 + ?v * tt div 1000000"
  have s: "0 \<le> ?s" "?s \<le> D" using xa c ok(12) ss(2) by linarith+
  have w: "i64 (tr_x_accel_end_mdeg tr + i64 (tr_direction tr * (?v * tt div 1000000))) =
      tr_x0_mdeg tr + tr_direction tr * ?s"
    unfolding ok(20) by (rule dir_wrap2 [OF ok(1,15)]) (use ok(14) xa s c(1) in linarith)+
  have "ref_is tr (db_trajectory_get_reference tr t) ?s ?v False"
    using assms(3,5,6) ok(1,2,5,6) w
    by (auto simp: ref_is_def db_trajectory_get_reference_def Let_def dt xv dir_wrap32)
  then show ?thesis using s ok(5) by blast
qed

lemma brake_time_product:
  assumes "0 \<le> t" "0 \<le> v" "d * t \<le> v * (1000000::int)" "v * v \<le> 9000000 * d"
  shows "d * (v * t) \<le> d * 9000000000000"
proof -
  have "v * (d * t) \<le> v * (v * 1000000)" using assms(2,3) by (intro mult_left_mono)
  then show ?thesis using assms(4) by (simp add: algebra_simps)
qed

lemma sample_decel:
  assumes "plan_ok tr D" "0 \<le> tr_t0_us tr" "tr_t0_us tr \<le> t" "t < 2 ^ 64"
    "tr_accel_dt_us tr + tr_cruise_dt_us tr \<le> t - tr_t0_us tr" "t - tr_t0_us tr < tr_total_dt_us tr"
  shows "\<exists>s w. ref_is tr (db_trajectory_get_reference tr t) s w False \<and>
     0 \<le> s \<and> s \<le> D + 1 \<and> 0 \<le> w \<and> w \<le> tr_v_peak_mdegps tr"
proof -
  note ok = plan_okD [OF assms(1)] and ss = segment_sums [OF assms(1)]
  let ?dt = "t - tr_t0_us tr" and ?a = "tr_accel_mdegps2 tr" and ?v = "tr_v_peak_mdegps tr"
  let ?ta = "tr_accel_dt_us tr" and ?tc = "tr_cruise_dt_us tr" and ?d = "tr_decel_mdegps2 tr"
  have p: "0 < ?a" "0 < ?d" using ok(3,4) by (simp_all add: int32_pos_def)
  note tab = ramp_time_bounds [OF ok(5,6) p(1), folded ok(17)]
  note tdb = ramp_time_bounds [OF ok(5,6) p(2)]
  define tt where "tt = ?dt - (?ta + ?tc)"
  have tt: "0 \<le> tt" "tt \<le> ?v * 1000000 div ?d" "tt \<le> 2147483647000000"
    using assms(5,6) ok(18,19) tdb by (auto simp: tt_def)
  have dt: "u64 ?dt = ?dt" "u64 (?ta + ?tc) = ?ta + ?tc" "u64 (?dt - (?ta + ?tc)) = tt"
    using assms ok(9,10) tab by (auto simp: tt_def intro!: u64_id)
  note rd = ramp_end [OF ok(5,6,4,8) tt(1,2)]
  have "?d * (?v * tt) \<le> ?d * 9000000000000"
    using brake_time_product [OF tt(1) ok(5) rd(1) ok(8)] by simp
  then have vt: "?v * tt \<le> 9000000000000" using p by (simp add: mult_le_cancel_left_pos)
  have xv: "dx_from_v ?v tt = ?v * tt div 1000000" using dx_from_v_eq [of tt ?v] tt ok(5) vt by simp
  note br = brake_distance [OF tt(1) p(2) rd(1), folded rd(4)]
  note vd = v_from_a_eq(2,3) [OF tt(1) rd(2) p(2) rd(1) ok(6)]
  note re = ramp_end [OF ok(5,6,3,7) tab(1)]
  have xa: "0 \<le> ?a * ?ta * ?ta div 2000000000000" "?a * ?ta * ?ta div 2000000000000 \<le> ?v * ?v div (2 * ?a)"
    using re(4-6) ok(17) by simp_all
  let ?b = "?v * tt div 1000000 - dx_from_a ?d tt"
  let ?s = "?a * ?ta * ?ta div 2000000000000 + ?v * ?tc div 1000000 + ?b"
  have s: "0 \<le> ?s" "?s \<le> D + 1" using xa br ok(12) ss(2,3) by linarith+
  have "?b \<le> D + 1" using br(2) ok(12) ss(1,3) by linarith
  then have b: "i64 ?b = ?b" using br(1) ok(14) by (intro i64_id) linarith+
  have x: "i64 (tr_x_cruise_end_mdeg tr + i64 (tr_direction tr * ?b)) =
      tr_x0_mdeg tr + tr_direction tr * ?s"
    unfolding ok(21)
    by (rule dir_wrap2 [OF ok(1,15)]) (use ok(12,14) xa br ss(2,3) \<open>?b \<le> D + 1\<close> in linarith)+
  have v0: "i32 (?v - v_from_a ?d tt) = ?v - v_from_a ?d tt" using vd ok(6) by (intro i32_id) auto
  have "tr_accel_dt_us tr \<le> ?dt" using assms(5) ok(9) by simp
  then have "ref_is tr (db_trajectory_get_reference tr t) ?s (?v - v_from_a ?d tt) False"
    using assms(3,5,6) ok(1,2,6) vd
    by (auto simp: ref_is_def db_trajectory_get_reference_def Let_def dt xv v0 b x dir_wrap32)
  moreover have "0 \<le> ?v - v_from_a ?d tt" "?v - v_from_a ?d tt \<le> ?v" using vd by simp_all
  ultimately show ?thesis using s by blast
qed

lemma sample_end:
  assumes "plan_ok tr D" "0 \<le> tr_t0_us tr" "tr_t0_us tr \<le> t" "t < 2 ^ 64"
    "tr_total_dt_us tr \<le> t - tr_t0_us tr"
  shows "db_trajectory_get_reference tr t =
     \<lparr>rf_x_mdeg = tr_x1_mdeg tr, rf_v_mdegps = 0, rf_a_mdegps2 = 0, rf_done = True\<rparr>"
proof -
  note ok = plan_okD [OF assms(1)]
  have p: "0 < tr_accel_mdegps2 tr" "0 < tr_decel_mdegps2 tr" using ok(3,4) by (simp_all add: int32_pos_def)
  note tb = ramp_time_bounds [OF ok(5,6) p(1), folded ok(17)]
    ramp_time_bounds [OF ok(5,6) p(2), folded ok(18)]
  have "u64 (t - tr_t0_us tr) = t - tr_t0_us tr"
    "u64 (tr_accel_dt_us tr + tr_cruise_dt_us tr) = tr_accel_dt_us tr + tr_cruise_dt_us tr"
    using assms ok(9,10) tb by (auto intro!: u64_id)
  moreover have "\<not> t - tr_t0_us tr < tr_accel_dt_us tr"
    "\<not> t - tr_t0_us tr < tr_accel_dt_us tr + tr_cruise_dt_us tr"
    using assms(5) ok(9,19) tb by auto
  ultimately show ?thesis using assms(3,5) ok(1,2)
    by (auto simp: db_trajectory_get_reference_def Let_def)
qed

lemma sample_sound:
  assumes "plan_ok tr D" "0 \<le> tr_t0_us tr" "tr_t0_us tr \<le> t" "t < 2 ^ 64"
  shows "\<exists>s w. ref_is tr (db_trajectory_get_reference tr t) s w (tr_t0_us tr + tr_total_dt_us tr \<le> t) \<and>
     0 \<le> s \<and> s \<le> D + 1 \<and> 0 \<le> w \<and> w \<le> tr_v_peak_mdegps tr \<and>
     (tr_t0_us tr + tr_total_dt_us tr \<le> t \<longrightarrow> s = D \<and> w = 0)"
proof -
  note ok = plan_okD [OF assms(1)]
  let ?dt = "t - tr_t0_us tr"
  have "0 \<le> tr_decel_dt_us tr"
    using ok(4,5,18) by (simp add: int32_pos_def pos_imp_zdiv_nonneg_iff)
  then consider "?dt < tr_accel_dt_us tr" "?dt < tr_total_dt_us tr"
    | "tr_accel_dt_us tr \<le> ?dt" "?dt < tr_accel_dt_us tr + tr_cruise_dt_us tr" "?dt < tr_total_dt_us tr"
    | "tr_accel_dt_us tr + tr_cruise_dt_us tr \<le> ?dt" "?dt < tr_total_dt_us tr"
    | "tr_total_dt_us tr \<le> ?dt"
    using ok(9,19) by linarith
  then show ?thesis
  proof cases
    case 1
    then show ?thesis using sample_accel [OF assms 1(1)] by fastforce
  next
    case 2
    then show ?thesis using sample_cruise [OF assms 2(1,2)] by fastforce
  next
    case 3
    then show ?thesis using sample_decel [OF assms 3] by fastforce
  next
    case 4
    then have "ref_is tr (db_trajectory_get_reference tr t) D 0 (tr_t0_us tr + tr_total_dt_us tr \<le> t)"
      using sample_end [OF assms 4] ok(16) by (simp add: ref_is_def)
    then show ?thesis using ok(5,13) by (intro exI [of _ D] exI [of _ 0]) simp
  qed
qed

text \<open>
  C2. A planned move stays inside its corridor at every sampling time: between its start and its
  target (with at most one milli-degree of rounding beyond the target), never faster than requested;
  it reports completion exactly from the planned end on, and from then on it stands at the target.
  The ranges exclude wrap-around: \<open>v\<^sup>2\<close> at most \<open>9 * 10 ^ 6\<close> times either ramp, a distance of at
  most \<open>9 * 10 ^ 12\<close> milli-degrees.
\<close>

theorem trajectory_stays_in_corridor:
  assumes "plan_inputs x0 x1 v a d" "0 \<le> t0" "t0 \<le> t" "t < 2 ^ 64"
  shows "let tr = db_trajectory_init_position t0 x0 x1 v a d;
             ref = db_trajectory_get_reference tr t; end_us = t0 + tr_total_dt_us tr in
         0 \<le> (if x1 > x0 then 1 else - 1) * (rf_x_mdeg ref - x0) \<and>
         (if x1 > x0 then 1 else - 1) * (rf_x_mdeg ref - x0) \<le> \<bar>x1 - x0\<bar> + 1 \<and>
         \<bar>rf_v_mdegps ref\<bar> \<le> v \<and> rf_done ref = (end_us \<le> t) \<and>
         (if end_us \<le> t then rf_x_mdeg ref = x1 \<and> rf_v_mdegps ref = 0 else True)"
proof -
  let ?tr = "db_trajectory_init_position t0 x0 x1 v a d"
  note pl = init_position_plan [OF assms(1), of t0]
  obtain s w where sw: "ref_is ?tr (db_trajectory_get_reference ?tr t) s w (t0 + tr_total_dt_us ?tr \<le> t)"
    "0 \<le> s" "s \<le> \<bar>x1 - x0\<bar> + 1" "0 \<le> w" "w \<le> tr_v_peak_mdegps ?tr"
    "t0 + tr_total_dt_us ?tr \<le> t \<longrightarrow> s = \<bar>x1 - x0\<bar> \<and> w = 0"
    using sample_sound [OF pl(1), of t] assms(2-4) pl(3) by auto
  then show ?thesis using pl(2,4,6) by (auto simp: ref_is_def Let_def)
qed

theorem trajectory_stays_in_corridor_witness:
  "let tr = db_trajectory_init_position 0 0 360000 500000 2000000 2000000;
       ref = db_trajectory_get_reference tr 500000; end_us = 0 + tr_total_dt_us tr in
   0 \<le> (if 360000 > (0::int) then 1 else - 1) * (rf_x_mdeg ref - 0) \<and>
   (if 360000 > (0::int) then 1 else - 1) * (rf_x_mdeg ref - 0) \<le> \<bar>360000 - 0\<bar> + 1 \<and>
   \<bar>rf_v_mdegps ref\<bar> \<le> 500000 \<and> rf_done ref = (end_us \<le> 500000) \<and>
   (if end_us \<le> 500000 then rf_x_mdeg ref = 360000 \<and> rf_v_mdegps ref = 0 else True)"
  by (rule trajectory_stays_in_corridor) (simp_all add: plan_inputs_def int32_pos_def)

section \<open>Retargeting a velocity trajectory\<close>

lemma ramp_mono_dt:
  assumes "0 \<le> u" "u \<le> v" "v \<le> 2147483647" "int32_pos a"
  shows "dt_to_reach_v u a \<le> dt_to_reach_v v a"
  using assms by (simp add: dt_to_reach_v_eq zdiv_mono1 int32_pos_def)

lemma infinite_at:
  assumes "tr_infinite tr" "tr_direction tr = 1 \<or> tr_direction tr = - 1" "tr_t0_us tr \<le> t"
    "0 \<le> tr_t0_us tr" "t < 2 ^ 64" "k = t - tr_t0_us tr" "k \<le> tr_accel_dt_us tr"
    "tr_x_accel_end_mdeg tr =
       i64 (tr_x0_mdeg tr + i64 (tr_direction tr * dx_from_a (tr_accel_mdegps2 tr) (tr_accel_dt_us tr)))"
  shows "rf_x_mdeg (db_trajectory_get_reference tr t) =
     i64 (tr_x0_mdeg tr + i64 (tr_direction tr * dx_from_a (tr_accel_mdegps2 tr) k))"
proof -
  have "u64 (t - tr_t0_us tr) = k" using assms by (auto intro!: u64_id)
  moreover have "dx_from_v (tr_v_peak_mdegps tr) (u64 0) = 0"
    by (simp add: dx_from_v_def wrap_u_def wrap_s_def cdiv_0 US_PER_S_def)
  moreover have "i64 (i64 x + i64 0) = i64 x" for x
    using i64_range [of x] i64_id [of 0] by (simp add: i64_id)
  ultimately show ?thesis using assms by (auto simp: db_trajectory_get_reference_def Let_def)
qed

lemma ramp_back_and_forth:
  assumes "dir = 1 \<or> dir = - (1::int)" "\<bar>x\<bar> \<le> 2 ^ 61" "0 \<le> s" "s \<le> 4500000"
  shows "i64 (i64 (x - i64 (dir * s)) + i64 (dir * s)) = x"
  using assms by (auto simp: i64_id)

text \<open>
  Fact. Retargeting a running velocity move keeps the reference position: sampled at the moment of the
  change, the old and the new trajectory agree, whatever the old speed was and whether the new target
  is faster, slower, reversed or zero.
\<close>

theorem retarget_position_continuous:
  assumes "tr_infinite tr" "\<bar>v\<bar> \<le> 2147483647" "int32_pos a" "v * v \<le> 9000000 * a"
    "dt_to_reach_v \<bar>v\<bar> a \<le> now_us" "now_us < 2 ^ 64"
    "\<bar>rf_x_mdeg (db_trajectory_get_reference tr now_us)\<bar> \<le> 2 ^ 61"
  shows "rf_x_mdeg (db_trajectory_get_reference (db_trajectory_retarget_forever tr now_us v a) now_us) =
     rf_x_mdeg (db_trajectory_get_reference tr now_us)"
proof -
  let ?ref = "db_trajectory_get_reference tr now_us"
  define dir :: int where "dir = (if v > 0 then 1 else if v < 0 then - 1 else 0)"
  define ta where "ta = dt_to_reach_v \<bar>v\<bar> a"
  define vin where "vin = i32 (rf_v_mdegps ?ref * dir)"
  define k where "k = (if dir = 0 then 0 else if vin \<ge> \<bar>v\<bar> then ta
                       else if vin > 0 then dt_to_reach_v vin a else 0)"
  define tr' where "tr' = db_trajectory_retarget_forever tr now_us v a"
  have p: "0 < a" "0 \<le> \<bar>v\<bar>" using assms(3) by (auto simp: int32_pos_def)
  have ta0: "ta = \<bar>v\<bar> * 1000000 div a" "0 \<le> ta"
    using dt_to_reach_v_eq [OF p(2) assms(2,3)] ramp_time_bounds(1) [OF p(2) assms(2) p(1)]
    by (auto simp: ta_def)
  have k: "0 \<le> k" "k \<le> ta"
    using ta0(2) ramp_mono_dt [of vin "\<bar>v\<bar>" a] dt_to_reach_v_eq [of vin a] p assms(2,3)
    by (auto simp: k_def ta_def pos_imp_zdiv_nonneg_iff)
  have vabs: "(if v \<ge> 0 then v else i32 (- v)) = \<bar>v\<bar>" using assms(2) by (auto simp: i32_id)
  note re = ramp_end [OF p(2) assms(2,3) _ k(1)]
  have dx: "0 \<le> dx_from_a a k" "dx_from_a a k \<le> 4500000"
    using re(5-7) assms(4) k(2) ta0(1) by auto
  have dx0: "dx_from_a a 0 = 0" using dx_from_a_eq [of 0 a] p by simp
  have now: "u64 (now_us - k) = now_us - k" "u64 now_us = now_us"
    using assms(5,6) k ta_def by (auto intro!: u64_id)
  have fields: "tr_infinite tr'" "tr_direction tr' = dir" "tr_accel_dt_us tr' = ta"
    "tr_accel_mdegps2 tr' = a"
    "tr_x_accel_end_mdeg tr' = i64 (tr_x0_mdeg tr' + i64 (dir * dx_from_a a ta))"
    unfolding tr'_def db_trajectory_retarget_forever_def Let_def vabs dir_def ta_def
    using assms(1) p by (simp_all split del: if_split)
  have raw: "tr_t0_us tr' = (if dir \<noteq> 0 then if vin \<ge> \<bar>v\<bar> then u64 (now_us - ta)
      else if vin > 0 then u64 (now_us - dt_to_reach_v vin a) else now_us else now_us)"
    "tr_x0_mdeg tr' = (if dir \<noteq> 0 then if vin \<ge> \<bar>v\<bar> then i64 (rf_x_mdeg ?ref - i64 (dir * dx_from_a a ta))
      else if vin > 0 then i64 (rf_x_mdeg ?ref - i64 (dir * dx_from_a a (dt_to_reach_v vin a)))
      else rf_x_mdeg ?ref else rf_x_mdeg ?ref)"
    unfolding tr'_def db_trajectory_retarget_forever_def Let_def vabs vin_def dir_def ta_def
    using assms(1) p by simp_all
  have t0: "tr_t0_us tr' = now_us - k" using now unfolding raw(1) k_def by (auto split: if_splits)
  have "i64 (rf_x_mdeg ?ref) = rf_x_mdeg ?ref" "i64 0 = 0" using assms(7) by (auto intro!: i64_id)
  then have x0: "tr_x0_mdeg tr' = (if dir = 0 then rf_x_mdeg ?ref
      else i64 (rf_x_mdeg ?ref - i64 (dir * dx_from_a a k)))"
    unfolding raw(2) k_def using dx0 by simp
  show ?thesis unfolding tr'_def [symmetric]
  proof (cases "dir = 0")
    case True
    then show "rf_x_mdeg (db_trajectory_get_reference tr' now_us) = rf_x_mdeg ?ref"
      using fields(2) x0 t0 k(1) by (simp add: db_trajectory_get_reference_def Let_def)
  next
    case False
    then have d: "dir = 1 \<or> dir = - 1" by (auto simp: dir_def split: if_splits)
    have "rf_x_mdeg (db_trajectory_get_reference tr' now_us) =
        i64 (tr_x0_mdeg tr' + i64 (dir * dx_from_a a k))"
      by (rule infinite_at [of tr' now_us k, unfolded fields(2-4)])
        (use fields(1,5) d t0 k assms(5,6) ta_def in linarith)+
    then show "rf_x_mdeg (db_trajectory_get_reference tr' now_us) = rf_x_mdeg ?ref"
      unfolding x0 using False ramp_back_and_forth [OF d assms(7) dx] by simp
  qed
qed

theorem retarget_position_continuous_witness:
  "let tr = db_trajectory_init_forever 0 0 500000 2000000 in
   rf_x_mdeg (db_trajectory_get_reference (db_trajectory_retarget_forever tr 400000 (- 300000) 1000000) 400000) =
   rf_x_mdeg (db_trajectory_get_reference tr 400000)"
  unfolding Let_def
  by (rule retarget_position_continuous) (code_simp | simp add: int32_pos_def)+

section \<open>The stretch contract\<close>

lemma stretch_search_range:
  assumes "1 \<le> lo" "1 \<le> fst b" "fst b \<le> m" "hi \<le> m"
  shows "1 \<le> fst (stretch_search a d D T lo hi b) \<and> fst (stretch_search a d D T lo hi b) \<le> m"
  using assms
proof (induction a d D T lo hi b rule: stretch_search.induct)
  case (1 a d D T lo hi b)
  show ?case
  proof (cases "lo + 1 < hi")
    case True
    define mid tot where "mid = (lo + hi) div 2" and "tot = stretch_total_dt mid a d D"
    define b' where "b' = (if stretch_err tot T < snd b then (mid, stretch_err tot T) else b)"
    have m: "1 \<le> mid" "mid \<le> m" "1 \<le> fst b'" "fst b' \<le> m"
      using True "1.prems" by (auto simp: mid_def b'_def)
    have "stretch_search a d D T lo hi b =
        (if tot > T then stretch_search a d D T mid hi b' else stretch_search a d D T lo mid b')"
      using True by (subst stretch_search.simps) (simp add: Let_def mid_def tot_def b'_def)
    then show ?thesis
      using "1.IH" [OF True mid_def tot_def refl b'_def] m "1.prems" by simp
  next
    case False
    then show ?thesis using "1.prems" by (subst (1 2) stretch_search.simps) simp
  qed
qed

lemma stretch_probes_range:
  assumes "1 \<le> fst b" "fst b \<le> m" "\<And>p. p \<in> set ps \<Longrightarrow> 1 \<le> p \<and> p \<le> m" "m \<le> 2147483647"
  shows "1 \<le> fst (foldl (stretch_probe a d D T) b ps) \<and> fst (foldl (stretch_probe a d D T) b ps) \<le> m"
  using assms
proof (induction ps arbitrary: b)
  case (Cons p ps)
  have "i32 p = p" using Cons.prems(3) [of p] Cons.prems(4) by (intro i32_id) auto
  then have "1 \<le> fst (stretch_probe a d D T b p) \<and> fst (stretch_probe a d D T b p) \<le> m"
    using Cons.prems by (simp add: stretch_probe_def Let_def)
  then show ?case using Cons by simp
qed simp

lemma stretch_best_range:
  assumes "1 \<le> m" "m \<le> 2147483647"
  shows "1 \<le> stretch_best a d D T m \<and> stretch_best a d D T m \<le> m"
proof -
  let ?b = "stretch_search a d D T 1 m (1, UINT64_MAX)"
  have b: "1 \<le> fst ?b" "fst ?b \<le> m" using stretch_search_range [of 1 "(1, UINT64_MAX)" m m] assms(1) by auto
  have "i32 (m - 32) = m - 32" using assms by (intro i32_id) auto
  then show ?thesis
    unfolding stretch_best_def Let_def using b assms by (intro stretch_probes_range) (auto split: if_splits)
qed

lemma stretch_commit_cases:
  "(snd (stretch_commit tr T v) = tr \<and> fst (stretch_commit tr T v) = - ERANGE) \<or>
   (fst (stretch_commit tr T v) = 0 \<and> 0 < v \<and>
    (\<exists>tc xa xc. snd (stretch_commit tr T v) =
       tr\<lparr>tr_v_peak_mdegps := v, tr_accel_dt_us := dt_to_reach_v v (tr_accel_mdegps2 tr),
          tr_cruise_dt_us := tc, tr_decel_dt_us := dt_to_reach_v v (tr_decel_mdegps2 tr),
          tr_total_dt_us := T, tr_x_accel_end_mdeg := xa, tr_x_cruise_end_mdeg := xc\<rparr>))"
  unfolding stretch_commit_def Let_def by (simp split: if_split) blast

text \<open>
  Fact. Stretching is all or nothing: when it reports an error the trajectory is untouched, and when it
  succeeds the total duration is exactly the requested one, longer than before, at a peak speed no
  greater than before, with start, target, direction and both ramps unchanged.
\<close>

theorem stretch_contract:
  assumes "tr_v_peak_mdegps tr \<le> INT32_MAX"
  shows "let (r, tr') = db_trajectory_stretch_to_total tr T in
         if r \<noteq> 0 then tr' = tr \<and> (r = - EINVAL \<or> r = - ERANGE)
         else tr_total_dt_us tr' = T \<and> tr_total_dt_us tr < T \<and>
              0 < tr_v_peak_mdegps tr' \<and> tr_v_peak_mdegps tr' \<le> tr_v_peak_mdegps tr \<and>
              tr_t0_us tr' = tr_t0_us tr \<and> tr_x0_mdeg tr' = tr_x0_mdeg tr \<and>
              tr_x1_mdeg tr' = tr_x1_mdeg tr \<and> tr_direction tr' = tr_direction tr \<and>
              tr_accel_mdegps2 tr' = tr_accel_mdegps2 tr \<and> tr_decel_mdegps2 tr' = tr_decel_mdegps2 tr \<and>
              tr_infinite tr' = tr_infinite tr"
proof -
  let ?D = "i64 (tr_direction tr * i64 (tr_x1_mdeg tr - tr_x0_mdeg tr))"
  let ?v = "stretch_best (tr_accel_mdegps2 tr) (tr_decel_mdegps2 tr) ?D T (tr_v_peak_mdegps tr)"
  have "1 \<le> ?v \<and> ?v \<le> tr_v_peak_mdegps tr" if "1 \<le> tr_v_peak_mdegps tr"
    using stretch_best_range that assms by (simp add: INT32_MAX_def)
  then show ?thesis
    using stretch_commit_cases [of tr T ?v]
    by (auto simp: db_trajectory_stretch_to_total_def Let_def errno_defs split: prod.splits if_splits)
qed

definition demo_move :: "int \<Rightarrow> db_trajectory_s" where
  "demo_move t0 = db_trajectory_init_position t0 0 36000 200000 2000000 2000000"

theorem stretch_contract_witness:
  "let (r, tr') = db_trajectory_stretch_to_total (demo_move 0) 400000 in
   r = 0 \<and> tr_total_dt_us tr' = 400000 \<and> tr_v_peak_mdegps tr' \<le> 200000 \<and> tr_x1_mdeg tr' = 36000"
proof -
  have v: "tr_v_peak_mdegps (demo_move 0) = 200000" "tr_x1_mdeg (demo_move 0) = 36000" by code_simp+
  have "fst (db_trajectory_stretch_to_total (demo_move 0) 400000) = 0" by code_simp
  then show ?thesis
    using stretch_contract [of "demo_move 0" 400000] v
    by (simp add: INT32_MAX_def split: prod.splits)
qed

text \<open>
  Fact. The residual check of the stretch samples the stretched trajectory at the \<^emph>\<open>relative\<close> end time
  although sampling takes absolute times. A move that starts later than its own stretched duration is
  therefore always refused, however small its real residual would be.
\<close>

theorem stretch_refused_for_late_start:
  assumes "0 < T" "T \<le> tr_t0_us tr" "T < 2 ^ 64"
    "100 < \<bar>tr_x1_mdeg tr - tr_x0_mdeg tr\<bar>" "\<bar>tr_x1_mdeg tr - tr_x0_mdeg tr\<bar> < 2 ^ 62"
  shows "fst (db_trajectory_stretch_to_total tr T) \<noteq> 0"
proof -
  have "u64 (T - 1) = T - 1" using assms by (intro u64_id) auto
  then have x: "rf_x_mdeg (db_trajectory_get_reference tr' (u64 (T - 1))) = tr_x0_mdeg tr'"
    if "tr_t0_us tr' = tr_t0_us tr" for tr'
    using that assms(2) by (simp add: db_trajectory_get_reference_def)
  have "i64 (tr_x0_mdeg tr - tr_x1_mdeg tr) = tr_x0_mdeg tr - tr_x1_mdeg tr"
    "i64 (- (tr_x0_mdeg tr - tr_x1_mdeg tr)) = - (tr_x0_mdeg tr - tr_x1_mdeg tr)"
    using assms(5) by (auto intro!: i64_id)
  then have "fst (stretch_commit tr T v) \<noteq> 0" for v
    using assms(4) by (auto simp: stretch_commit_def Let_def x errno_defs)
  then show ?thesis
    by (simp add: db_trajectory_stretch_to_total_def Let_def errno_defs)
qed

theorem stretch_refused_for_late_start_witness:
  "fst (db_trajectory_stretch_to_total (demo_move 0) 400000) = 0 \<and>
   fst (db_trajectory_stretch_to_total (demo_move 60000000) 400000) \<noteq> 0"
proof -
  have "fst (db_trajectory_stretch_to_total (demo_move 60000000) 400000) \<noteq> 0"
    by (rule stretch_refused_for_late_start; code_simp)
  moreover have "fst (db_trajectory_stretch_to_total (demo_move 0) 400000) = 0" by code_simp
  ultimately show ?thesis by simp
qed

end
