(* ===== verification/Db_Aggregate.thy ===== *)
theory Db_Aggregate
  imports Db_Control Db_Trajectory
begin

text \<open>
  The controller of one aggregate axis (distance or heading), \<^verbatim>\<open>apps/drivebase/drivebase_aggregate.c\<close>: it
  owns a PID, a trajectory and a clock that can be paused. The cached pointers to gains, completion
  thresholds and feed-forward gains always point to the globals of the controller's axis, so the model
  reads them from the settings state: gains and feed-forward live, completion from the axis's scratch
  buffer, which only a command refreshes.
\<close>

section \<open>State\<close>

record db_aggregate_control_s =
  ag_axis :: int
  ag_tick_ms :: int
  ag_pid :: db_pid_state_s
  ag_trajectory :: db_trajectory_s
  trajectory_active :: bool
  prev_endpoint_valid :: bool
  prev_endpoint_mdeg :: int
  ag_on_completion :: int
  traj_paused :: bool
  traj_pause_begin_us :: int
  traj_pause_total_us :: int

record db_aggregate_output_s =
  ao_duty :: int
  ao_ref_v_mdegps :: int
  ao_actuation :: int
  ao_done :: bool
  ao_trajectory_done :: bool
  ao_pos_err_mdeg :: int

definition zero_trajectory :: db_trajectory_s where
  "zero_trajectory =
     \<lparr>tr_t0_us = 0, tr_x0_mdeg = 0, tr_x1_mdeg = 0, tr_v_peak_mdegps = 0, tr_accel_mdegps2 = 0,
      tr_decel_mdegps2 = 0, tr_direction = 0, tr_infinite = False, tr_accel_dt_us = 0, tr_cruise_dt_us = 0,
      tr_decel_dt_us = 0, tr_total_dt_us = 0, tr_x_accel_end_mdeg = 0, tr_x_cruise_end_mdeg = 0\<rparr>"

section \<open>Helpers\<close>

definition abs64 :: "int \<Rightarrow> int" where
  "abs64 v = (if v < 0 then i64 (- v) else v)"

definition aggregate_refresh_settings :: "db_aggregate_control_s \<Rightarrow> db_settings \<Rightarrow> db_settings" where
  "aggregate_refresh_settings ctl st = snd (db_settings_completion_axis (ag_axis ctl) st)"

definition ag_completion :: "db_aggregate_control_s \<Rightarrow> db_settings \<Rightarrow> db_completion_settings_s" where
  "ag_completion ctl st =
     (if ag_axis ctl = DB_AXIS_HEADING then g_completion_scratch_heading st
      else g_completion_scratch_distance st)"

definition aggregate_get_ref_time :: "db_aggregate_control_s \<Rightarrow> int \<Rightarrow> int" where
  "aggregate_get_ref_time ctl now_us =
     (if traj_paused ctl then u64 (traj_pause_begin_us ctl - traj_pause_total_us ctl)
      else u64 (now_us - traj_pause_total_us ctl))"

definition aggregate_set_pause :: "bool \<Rightarrow> int \<Rightarrow> db_aggregate_control_s \<Rightarrow> db_aggregate_control_s" where
  "aggregate_set_pause pause now_us ctl =
     (if pause \<and> \<not> traj_paused ctl then ctl\<lparr>traj_pause_begin_us := now_us, traj_paused := True\<rparr>
      else if \<not> pause \<and> traj_paused ctl then
        ctl\<lparr>traj_pause_total_us := u64 (traj_pause_total_us ctl + u64 (now_us - traj_pause_begin_us ctl)),
            traj_paused := False\<rparr>
      else ctl)"

definition aggregate_reset_pause :: "db_aggregate_control_s \<Rightarrow> db_aggregate_control_s" where
  "aggregate_reset_pause ctl = ctl\<lparr>traj_paused := False, traj_pause_begin_us := 0, traj_pause_total_us := 0\<rparr>"

section \<open>Commands\<close>

definition db_aggregate_control_init ::
    "int \<Rightarrow> int \<Rightarrow> db_aggregate_control_s \<Rightarrow> db_settings \<Rightarrow> db_aggregate_control_s \<times> db_settings" where
  "db_aggregate_control_init axis tick_ms ctl st =
     (let ctl' = \<lparr>ag_axis = axis, ag_tick_ms = (if tick_ms \<noteq> 0 then tick_ms else 2),
                  ag_pid = db_pid_init (ag_pid ctl), ag_trajectory = zero_trajectory,
                  trajectory_active = False, prev_endpoint_valid = False, prev_endpoint_mdeg = 0,
                  ag_on_completion = DRIVEBASE_ON_COMPLETION_COAST, traj_paused = False,
                  traj_pause_begin_us = 0, traj_pause_total_us = 0\<rparr> in
      (ctl', aggregate_refresh_settings ctl' st))"

definition db_aggregate_control_reset ::
    "db_aggregate_control_s \<Rightarrow> db_settings \<Rightarrow> db_aggregate_control_s \<times> db_settings" where
  "db_aggregate_control_reset ctl st =
     ((aggregate_reset_pause
        (ctl\<lparr>trajectory_active := False, prev_endpoint_valid := False, prev_endpoint_mdeg := 0,
             ag_on_completion := DRIVEBASE_ON_COMPLETION_COAST\<rparr>))\<lparr>ag_pid := db_pid_reset (ag_pid ctl)\<rparr>,
      aggregate_refresh_settings ctl st)"

definition db_aggregate_control_drive_position ::
    "int \<Rightarrow> int \<Rightarrow> int \<Rightarrow> int \<Rightarrow> int \<Rightarrow> int \<Rightarrow> int \<Rightarrow> db_aggregate_control_s \<Rightarrow> db_settings \<Rightarrow>
     int \<times> db_aggregate_control_s \<times> db_settings" where
  "db_aggregate_control_drive_position now_us origin_mdeg delta_mdeg v_max accel decel on_completion ctl st =
     (let st' = aggregate_refresh_settings ctl st;
          actual_origin =
            (if prev_endpoint_valid ctl \<and>
                abs64 (i64 (prev_endpoint_mdeg ctl - origin_mdeg)) \<le> smart_continue_window_mdeg (ag_completion ctl st')
             then prev_endpoint_mdeg ctl else origin_mdeg);
          target = i64 (actual_origin + delta_mdeg);
          ctl1 = aggregate_reset_pause ctl in
      (0,
       ctl1\<lparr>ag_trajectory := db_trajectory_init_position now_us actual_origin target v_max accel decel,
            trajectory_active := True, prev_endpoint_valid := True, prev_endpoint_mdeg := target,
            ag_on_completion := on_completion, ag_pid := db_pid_reset (db_pid_pause False (ag_pid ctl))\<rparr>,
       st'))"

definition db_aggregate_control_drive_forever ::
    "int \<Rightarrow> int \<Rightarrow> int \<Rightarrow> int \<Rightarrow> db_aggregate_control_s \<Rightarrow> db_settings \<Rightarrow>
     int \<times> db_aggregate_control_s \<times> db_settings" where
  "db_aggregate_control_drive_forever now_us origin_mdeg v_target accel ctl st =
     (let st' = aggregate_refresh_settings ctl st in
      if trajectory_active ctl \<and> tr_infinite (ag_trajectory ctl) then
        (0,
         ctl\<lparr>ag_trajectory := db_trajectory_retarget_forever (ag_trajectory ctl)
                                (aggregate_get_ref_time ctl now_us) v_target accel,
             prev_endpoint_valid := False, ag_on_completion := DRIVEBASE_ON_COMPLETION_COAST\<rparr>,
         st')
      else
        (0,
         (aggregate_reset_pause ctl)
           \<lparr>ag_trajectory := db_trajectory_init_forever now_us origin_mdeg v_target accel,
            trajectory_active := True, prev_endpoint_valid := False,
            ag_on_completion := DRIVEBASE_ON_COMPLETION_COAST,
            ag_pid := db_pid_reset (db_pid_pause False (ag_pid ctl))\<rparr>,
         st'))"

definition db_aggregate_control_drive_hold ::
    "int \<Rightarrow> int \<Rightarrow> db_aggregate_control_s \<Rightarrow> db_settings \<Rightarrow> int \<times> db_aggregate_control_s \<times> db_settings" where
  "db_aggregate_control_drive_hold now_us origin_mdeg ctl st =
     (0,
      (aggregate_reset_pause ctl)
        \<lparr>ag_trajectory := db_trajectory_init_position now_us origin_mdeg origin_mdeg 1 1 1,
         trajectory_active := True, prev_endpoint_valid := False,
         ag_on_completion := DRIVEBASE_ON_COMPLETION_HOLD,
         ag_pid := db_pid_reset (db_pid_pause False (ag_pid ctl))\<rparr>,
      aggregate_refresh_settings ctl st)"

definition db_aggregate_control_stop ::
    "int \<Rightarrow> int \<Rightarrow> int \<Rightarrow> db_aggregate_control_s \<Rightarrow> db_settings \<Rightarrow> int \<times> db_aggregate_control_s \<times> db_settings" where
  "db_aggregate_control_stop now_us current_state_mdeg on_completion ctl st =
     (let ctl1 = (aggregate_reset_pause ctl)
                   \<lparr>trajectory_active := False, prev_endpoint_valid := False, ag_on_completion := on_completion\<rparr> in
      if on_completion = DRIVEBASE_ON_COMPLETION_COAST \<or> on_completion = DRIVEBASE_ON_COMPLETION_COAST_SMART then
        (0, ctl1\<lparr>ag_pid := (db_pid_stop_passive (ag_pid ctl))
                   \<lparr>latched_passive_done := True, latched_actuation := DRIVEBASE_ON_COMPLETION_COAST\<rparr>\<rparr>, st)
      else if on_completion = DRIVEBASE_ON_COMPLETION_BRAKE \<or> on_completion = DRIVEBASE_ON_COMPLETION_BRAKE_SMART then
        (0, ctl1\<lparr>ag_pid := (db_pid_stop_passive (ag_pid ctl))
                   \<lparr>latched_passive_done := True, latched_actuation := DRIVEBASE_ON_COMPLETION_BRAKE\<rparr>\<rparr>, st)
      else db_aggregate_control_drive_hold now_us current_state_mdeg ctl1 st)"

section \<open>The control tick\<close>

definition ag_duty_ff :: "db_aggregate_control_s \<Rightarrow> db_settings \<Rightarrow> db_trajectory_ref_s \<Rightarrow> int" where
  "ag_duty_ff ctl st ref =
     (if trajectory_active ctl then
        let ff = db_settings_ff_axis_gains st (ag_axis ctl);
            v_dps = cdiv (rf_v_mdegps ref) 1000; a_dps2 = cdiv (rf_a_mdegps2 ref) 1000 in
        i32 (i32 (kV ff * v_dps) + i32 (kA ff * a_dps2))
      else 0)"

definition clamp_err :: "int \<Rightarrow> int" where
  "clamp_err pe =
     (let p1 = (if pe > INT32_MAX then INT32_MAX else pe);
          p2 = (if p1 < INT32_MIN then INT32_MIN else p1) in i32 p2)"

definition ag_want_pause :: "db_pid_state_s \<Rightarrow> db_trajectory_ref_s \<Rightarrow> int \<Rightarrow> int \<Rightarrow> bool" where
  "ag_want_pause pid ref state_x_mdeg state_v_mdegps =
     (let sign_p = sgn (i64 (rf_x_mdeg ref - state_x_mdeg));
          sign_v = sgn (i32 (rf_v_mdegps ref - state_v_mdegps));
          sign_a = sgn (rf_a_mdegps2 ref);
          p_limited = (sign_p > 0 \<and> output_saturated_high pid) \<or> (sign_p < 0 \<and> output_saturated_low pid) in
      \<not> latched_passive_done pid \<and> p_limited \<and>
      \<not> (sign_p \<noteq> 0 \<and> sign_v \<noteq> 0 \<and> sign_p = - sign_v) \<and>
      \<not> (sign_p \<noteq> 0 \<and> sign_a \<noteq> 0 \<and> sign_p = - sign_a))"

definition ag_reference :: "db_aggregate_control_s \<Rightarrow> int \<Rightarrow> int \<Rightarrow> db_trajectory_ref_s" where
  "ag_reference ctl now_us state_x_mdeg =
     (if trajectory_active ctl
      then db_trajectory_get_reference (ag_trajectory ctl) (aggregate_get_ref_time ctl now_us)
      else \<lparr>rf_x_mdeg = state_x_mdeg, rf_v_mdegps = 0, rf_a_mdegps2 = 0, rf_done = True\<rparr>)"

definition ag_pid_input ::
    "db_settings \<Rightarrow> db_aggregate_control_s \<Rightarrow> db_trajectory_ref_s \<Rightarrow> int \<Rightarrow> int \<Rightarrow> int \<Rightarrow> db_pid_input_s" where
  "ag_pid_input st ctl ref state_x_mdeg state_v_mdegps dt_ms =
     \<lparr>in_ref_x_mdeg = rf_x_mdeg ref, in_ref_v_mdegps = rf_v_mdegps ref, in_ref_a_mdegps2 = rf_a_mdegps2 ref,
      in_act_x_mdeg = state_x_mdeg, in_act_v_mdegps = state_v_mdegps,
      in_dt_ms = (if dt_ms \<noteq> 0 then dt_ms else ag_tick_ms ctl),
      in_gains = db_settings_pid_gains st (ag_axis ctl), in_completion = ag_completion ctl st,
      in_duty_ff = ag_duty_ff ctl st ref, in_trajectory_done = rf_done ref,
      in_on_completion = ag_on_completion ctl\<rparr>"

definition db_aggregate_control_update ::
    "db_settings \<Rightarrow> int \<times> int \<times> int \<times> int \<Rightarrow> db_aggregate_control_s \<Rightarrow>
     db_aggregate_output_s \<times> db_aggregate_control_s" where
  "db_aggregate_control_update st tick ctl0 =
     (case tick of (now_us, state_x_mdeg, state_v_mdegps, dt_ms) \<Rightarrow>
        let ctl = (if \<not> trajectory_active ctl0 then aggregate_reset_pause ctl0 else ctl0) in
        if \<not> trajectory_active ctl \<and> \<not> latched_passive_done (ag_pid ctl) then
          (\<lparr>ao_duty = 0, ao_ref_v_mdegps = 0, ao_actuation = DRIVEBASE_ON_COMPLETION_COAST,
            ao_done = pid_done (ag_pid ctl), ao_trajectory_done = True, ao_pos_err_mdeg = 0\<rparr>, ctl)
        else
          let ref = ag_reference ctl now_us state_x_mdeg;
              (pout, pid') = db_pid_update (ag_pid_input st ctl ref state_x_mdeg state_v_mdegps dt_ms) (ag_pid ctl);
              out = \<lparr>ao_duty = po_duty pout, ao_ref_v_mdegps = rf_v_mdegps ref, ao_actuation = po_actuation pout,
                     ao_done = po_done pout, ao_trajectory_done = rf_done ref,
                     ao_pos_err_mdeg = clamp_err (i64 (rf_x_mdeg ref - state_x_mdeg))\<rparr>;
              ctl1 = ctl\<lparr>ag_pid := pid'\<rparr> in
          (out,
           if trajectory_active ctl
           then aggregate_set_pause (ag_want_pause pid' ref state_x_mdeg state_v_mdegps) now_us ctl1
           else ctl1))"

definition db_aggregate_control_is_done :: "db_aggregate_control_s \<Rightarrow> bool" where
  "db_aggregate_control_is_done ctl = pid_done (ag_pid ctl)"

definition db_aggregate_control_is_active :: "db_aggregate_control_s \<Rightarrow> bool" where
  "db_aggregate_control_is_active ctl = trajectory_active ctl"

section \<open>The pausable clock\<close>

text \<open>The specification: of the time from \<open>t\<close> to \<open>now\<close>, what lies outside the pauses.\<close>

fun unpaused_time :: "bool \<Rightarrow> int \<Rightarrow> (bool \<times> int) list \<Rightarrow> int \<Rightarrow> int" where
  "unpaused_time p t [] now = (if p then 0 else now - t)"
| "unpaused_time p t ((b, t') # es) now = (if p then 0 else t' - t) + unpaused_time b t' es now"

fun event_times_ok :: "int \<Rightarrow> (bool \<times> int) list \<Rightarrow> int \<Rightarrow> bool" where
  "event_times_ok t [] now = (t \<le> now \<and> now < 2 ^ 64)"
| "event_times_ok t ((b, t') # es) now = (t \<le> t' \<and> event_times_ok t' es now)"

definition clock_ok :: "db_aggregate_control_s \<Rightarrow> int \<Rightarrow> bool" where
  "clock_ok ctl t \<longleftrightarrow> 0 \<le> traj_pause_total_us ctl \<and>
     (if traj_paused ctl then traj_pause_total_us ctl \<le> traj_pause_begin_us ctl \<and> traj_pause_begin_us ctl \<le> t
      else traj_pause_total_us ctl \<le> t)"

definition clock_value :: "db_aggregate_control_s \<Rightarrow> int \<Rightarrow> int" where
  "clock_value ctl t =
     (if traj_paused ctl then traj_pause_begin_us ctl else t) - traj_pause_total_us ctl"

lemma event_times_bound: "event_times_ok t es now \<Longrightarrow> t < 2 ^ 64"
  by (induction t es now rule: event_times_ok.induct) auto

lemma set_pause_step:
  fixes b :: bool
  assumes "clock_ok ctl t" "t \<le> t'" "t' < 2 ^ 64"
  defines "ctl' \<equiv> aggregate_set_pause b t' ctl"
  shows "clock_ok ctl' t'" and "traj_paused ctl' = b" and "clock_value ctl' t' = clock_value ctl t'"
proof -
  have "u64 (traj_pause_total_us ctl + u64 (t' - traj_pause_begin_us ctl)) =
      traj_pause_total_us ctl + (t' - traj_pause_begin_us ctl)" if "traj_paused ctl"
    using assms(1-3) that by (simp add: clock_ok_def u64_id)
  then show "clock_ok ctl' t'" "traj_paused ctl' = b" "clock_value ctl' t' = clock_value ctl t'"
    using assms(1-3) by (auto simp: ctl'_def aggregate_set_pause_def clock_ok_def clock_value_def)
qed

lemma clock_run:
  assumes "clock_ok ctl t" "event_times_ok t es now"
  shows "aggregate_get_ref_time (fold (\<lambda>(b, t). aggregate_set_pause b t) es ctl) now =
    clock_value ctl t + unpaused_time (traj_paused ctl) t es now"
  using assms
proof (induction es arbitrary: ctl t)
  case Nil
  then show ?case
    by (auto simp: aggregate_get_ref_time_def clock_value_def clock_ok_def u64_id)
next
  case (Cons e es)
  obtain b t' where e: "e = (b, t')" by (cases e)
  have t': "t \<le> t'" "event_times_ok t' es now" using Cons.prems(2) e by auto
  note st = set_pause_step [OF Cons.prems(1) t'(1) event_times_bound [OF t'(2)], of b]
  have "clock_value ctl t' = clock_value ctl t + (if traj_paused ctl then 0 else t' - t)"
    by (simp add: clock_value_def)
  then show ?case using Cons.IH [OF st(1) t'(2)] st(2,3) e by simp
qed

text \<open>
  Fact. The trajectory clock counts exactly the time outside the pauses: after a command issued at \<open>t0\<close> and
  any later sequence of pause decisions, the reference time is \<open>t0\<close> plus the unpaused time, so pausing and
  resuming never make the reference jump, and repeating a decision has no effect.
\<close>

theorem aggregate_clock_counts_unpaused_time:
  assumes "0 \<le> t0" "event_times_ok t0 es now"
  shows "aggregate_get_ref_time (fold (\<lambda>(b, t). aggregate_set_pause b t) es (aggregate_reset_pause ctl)) now =
    t0 + unpaused_time False t0 es now"
proof -
  have "clock_ok (aggregate_reset_pause ctl) t0" using assms(1) by (simp add: clock_ok_def aggregate_reset_pause_def)
  from clock_run [OF this assms(2)] show ?thesis
    by (simp add: clock_value_def aggregate_reset_pause_def)
qed

definition demo_axis :: db_aggregate_control_s where
  "demo_axis = fst (db_aggregate_control_init DB_AXIS_DISTANCE 2
     \<lparr>ag_axis = 0, ag_tick_ms = 0, ag_pid = demo_near_done, ag_trajectory = zero_trajectory,
      trajectory_active = False, prev_endpoint_valid = False, prev_endpoint_mdeg = 0, ag_on_completion = 0,
      traj_paused = False, traj_pause_begin_us = 0, traj_pause_total_us = 0\<rparr> init_settings)"

theorem aggregate_clock_counts_unpaused_time_witness:
  "aggregate_get_ref_time (fold (\<lambda>(b, t). aggregate_set_pause b t)
     [(True, 150), (True, 170), (False, 200), (True, 260)] (aggregate_reset_pause demo_axis)) 900 =
   100 + unpaused_time False 100 [(True, 150), (True, 170), (False, 200), (True, 260)] 900 \<and>
   unpaused_time False 100 [(True, 150), (True, 170), (False, 200), (True, 260)] 900 = 110"
  using aggregate_clock_counts_unpaused_time [of 100 "[(True, 150), (True, 170), (False, 200), (True, 260)]" 900 demo_axis]
  by simp

section \<open>Stopping\<close>

text \<open>An axis that is inactive and latched: the state a passive stop leaves.\<close>

definition stopped :: "db_aggregate_control_s \<Rightarrow> bool" where
  "stopped ctl \<longleftrightarrow> \<not> trajectory_active ctl \<and> latched_passive_done (ag_pid ctl) \<and>
     \<not> traj_paused ctl \<and> traj_pause_begin_us ctl = 0 \<and> traj_pause_total_us ctl = 0"

definition ag_off_output :: "int \<times> int \<times> int \<times> int \<Rightarrow> db_aggregate_control_s \<Rightarrow> db_aggregate_output_s" where
  "ag_off_output tick ctl =
     \<lparr>ao_duty = 0, ao_ref_v_mdegps = 0, ao_actuation = latched_actuation (ag_pid ctl), ao_done = True,
      ao_trajectory_done = True, ao_pos_err_mdeg = 0\<rparr>"

lemma stopped_update:
  assumes "stopped ctl"
  shows "db_aggregate_control_update st tick ctl = (ag_off_output tick ctl, ctl)"
proof -
  have "aggregate_reset_pause ctl = ctl" using assms by (simp add: stopped_def aggregate_reset_pause_def)
  moreover have "i64 0 = 0" "i32 0 = 0" by (simp_all add: wrap_s_def)
  ultimately show ?thesis
    using assms pid_latch.latched_update [of "ag_pid ctl"]
    by (auto simp: db_aggregate_control_update_def stopped_def Let_def ag_off_output_def pid_off_output_def
        ag_reference_def clamp_err_def INT32_MAX_def INT32_MIN_def split: prod.splits)
qed

interpretation ag_latch: latched_controller "db_aggregate_control_update st" stopped "ag_off_output (0, 0, 0, 0)" for st
  by unfold_locales (simp add: stopped_update ag_off_output_def)

lemma passive_stop:
  fixes now_us x :: int and ctl :: db_aggregate_control_s and st :: db_settings
  assumes "oc = DRIVEBASE_ON_COMPLETION_COAST \<or> oc = DRIVEBASE_ON_COMPLETION_COAST_SMART \<or>
    oc = DRIVEBASE_ON_COMPLETION_BRAKE \<or> oc = DRIVEBASE_ON_COMPLETION_BRAKE_SMART"
  defines "ctl' \<equiv> fst (snd (db_aggregate_control_stop now_us x oc ctl st))"
  shows "stopped ctl'" and "latched_actuation (ag_pid ctl') =
    (if oc = DRIVEBASE_ON_COMPLETION_COAST \<or> oc = DRIVEBASE_ON_COMPLETION_COAST_SMART
     then DRIVEBASE_ON_COMPLETION_COAST else DRIVEBASE_ON_COMPLETION_BRAKE)"
  using assms
  by (auto simp: db_aggregate_control_stop_def Let_def stopped_def aggregate_reset_pause_def completion_defs)

text \<open>
  Fact. A passive stop holds: after a stop with coast or brake (plain or smart), every control tick, for any
  sequence of states and under any settings, outputs zero duty with the requested actuation, reports the
  axis as done, and leaves the axis as it is, until a new command arrives.
\<close>

theorem aggregate_passive_stop_holds:
  assumes "oc = DRIVEBASE_ON_COMPLETION_COAST \<or> oc = DRIVEBASE_ON_COMPLETION_COAST_SMART \<or>
    oc = DRIVEBASE_ON_COMPLETION_BRAKE \<or> oc = DRIVEBASE_ON_COMPLETION_BRAKE_SMART"
  shows "let ctl' = fst (snd (db_aggregate_control_stop now_us x oc ctl st));
             ctl'' = fold (\<lambda>tick c. snd (db_aggregate_control_update st' tick c)) ticks ctl';
             out = fst (db_aggregate_control_update st' tick ctl'') in
     ctl'' = ctl' \<and> ao_duty out = 0 \<and> ao_done out \<and>
     ao_actuation out =
       (if oc = DRIVEBASE_ON_COMPLETION_COAST \<or> oc = DRIVEBASE_ON_COMPLETION_COAST_SMART
        then DRIVEBASE_ON_COMPLETION_COAST else DRIVEBASE_ON_COMPLETION_BRAKE)"
  using passive_stop [OF assms, of now_us x ctl st] ag_latch.latched_run ag_latch.latched_outputs
  by (simp add: Let_def ag_off_output_def)

theorem aggregate_passive_stop_holds_witness:
  "let ctl' = fst (snd (db_aggregate_control_stop 5000 1200 DRIVEBASE_ON_COMPLETION_BRAKE demo_axis init_settings));
       ctl'' = fold (\<lambda>tick c. snd (db_aggregate_control_update init_settings tick c)) [(6000, 90000, 7, 2)] ctl';
       out = fst (db_aggregate_control_update init_settings (8000, - 400000, 0, 2) ctl'') in
   ctl'' = ctl' \<and> ao_duty out = 0 \<and> ao_done out \<and> ao_actuation out = DRIVEBASE_ON_COMPLETION_BRAKE"
  using aggregate_passive_stop_holds [of DRIVEBASE_ON_COMPLETION_BRAKE 5000 1200 demo_axis init_settings
      init_settings "[(6000, 90000, 7, 2)]" "(8000, - 400000, 0, 2)"]
  unfolding Let_def completion_defs by auto

section \<open>Histories\<close>

datatype ag_op =
    Ag_Position int int int int int int int
  | Ag_Forever int int int int
  | Ag_Hold int int
  | Ag_Stop int int int
  | Ag_Reset
  | Ag_Update "int \<times> int \<times> int \<times> int"
  | Ag_Settings settings_op

fun ag_step :: "ag_op \<Rightarrow> db_aggregate_control_s \<times> db_settings \<Rightarrow> db_aggregate_control_s \<times> db_settings" where
  "ag_step (Ag_Position now x dx v a d oc) (ctl, st) = snd (db_aggregate_control_drive_position now x dx v a d oc ctl st)"
| "ag_step (Ag_Forever now x v a) (ctl, st) = snd (db_aggregate_control_drive_forever now x v a ctl st)"
| "ag_step (Ag_Hold now x) (ctl, st) = snd (db_aggregate_control_drive_hold now x ctl st)"
| "ag_step (Ag_Stop now x oc) (ctl, st) = snd (db_aggregate_control_stop now x oc ctl st)"
| "ag_step Ag_Reset (ctl, st) = db_aggregate_control_reset ctl st"
| "ag_step (Ag_Update tick) (ctl, st) = (snd (db_aggregate_control_update st tick ctl), st)"
| "ag_step (Ag_Settings op) (ctl, st) = (ctl, settings_step op st)"

definition passive_code :: "int \<Rightarrow> bool" where
  "passive_code a \<longleftrightarrow> a = DRIVEBASE_ON_COMPLETION_COAST \<or> a = DRIVEBASE_ON_COMPLETION_BRAKE"

definition ag_ok :: "db_aggregate_control_s \<Rightarrow> bool" where
  "ag_ok ctl \<longleftrightarrow> (traj_paused ctl \<longrightarrow> trajectory_active ctl) \<and>
     (latched_passive_done (ag_pid ctl) \<longrightarrow> passive_code (latched_actuation (ag_pid ctl)))"

lemma pid_update_latch_code:
  assumes "latched_passive_done pid \<longrightarrow> passive_code (latched_actuation pid)"
  shows "latched_passive_done (snd (db_pid_update inp pid)) \<longrightarrow>
    passive_code (latched_actuation (snd (db_pid_update inp pid)))"
  using assms by (cases rule: update_cases [of pid inp]) (auto simp: passive_code_def)

lemma set_pause_frame [simp]:
  "trajectory_active (aggregate_set_pause b t ctl) = trajectory_active ctl"
  "ag_pid (aggregate_set_pause b t ctl) = ag_pid ctl"
  "ag_axis (aggregate_set_pause b t ctl) = ag_axis ctl"
  "prev_endpoint_valid (aggregate_set_pause b t ctl) = prev_endpoint_valid ctl"
  "prev_endpoint_mdeg (aggregate_set_pause b t ctl) = prev_endpoint_mdeg ctl"
  by (simp_all add: aggregate_set_pause_def)

lemma reset_pause_frame [simp]:
  "trajectory_active (aggregate_reset_pause ctl) = trajectory_active ctl"
  "ag_pid (aggregate_reset_pause ctl) = ag_pid ctl"
  "ag_axis (aggregate_reset_pause ctl) = ag_axis ctl"
  "prev_endpoint_valid (aggregate_reset_pause ctl) = prev_endpoint_valid ctl"
  "prev_endpoint_mdeg (aggregate_reset_pause ctl) = prev_endpoint_mdeg ctl"
  "\<not> traj_paused (aggregate_reset_pause ctl)"
  by (simp_all add: aggregate_reset_pause_def)

text \<open>The PID input of a tick, and the tick split into its idle and its controlled case.\<close>

lemma update_split:
  obtains (idle) ctl1 where "db_aggregate_control_update st tick ctl =
      (\<lparr>ao_duty = 0, ao_ref_v_mdegps = 0, ao_actuation = DRIVEBASE_ON_COMPLETION_COAST,
        ao_done = pid_done (ag_pid ctl), ao_trajectory_done = True, ao_pos_err_mdeg = 0\<rparr>, ctl1)"
      "ag_pid ctl1 = ag_pid ctl" "trajectory_active ctl1 = trajectory_active ctl" "\<not> traj_paused ctl1"
      "ag_axis ctl1 = ag_axis ctl" "prev_endpoint_valid ctl1 = prev_endpoint_valid ctl"
      "prev_endpoint_mdeg ctl1 = prev_endpoint_mdeg ctl"
  | (tick) inp out ctl1 where "db_aggregate_control_update st tick ctl = (out, ctl1)"
      "in_gains inp = db_settings_pid_gains st (ag_axis ctl)"
      "ag_pid ctl1 = snd (db_pid_update inp (ag_pid ctl))"
      "ao_duty out = po_duty (fst (db_pid_update inp (ag_pid ctl)))"
      "ao_actuation out = po_actuation (fst (db_pid_update inp (ag_pid ctl)))"
      "trajectory_active ctl1 = trajectory_active ctl" "traj_paused ctl1 \<Longrightarrow> trajectory_active ctl"
      "ag_axis ctl1 = ag_axis ctl" "prev_endpoint_valid ctl1 = prev_endpoint_valid ctl"
      "prev_endpoint_mdeg ctl1 = prev_endpoint_mdeg ctl"
proof -
  obtain now_us x v dt where t: "tick = (now_us, x, v, dt)" by (cases tick)
  define c where "c = (if \<not> trajectory_active ctl then aggregate_reset_pause ctl else ctl)"
  let ?ref = "ag_reference c now_us x"
  let ?inp = "ag_pid_input st c ?ref x v dt"
  have f: "trajectory_active c = trajectory_active ctl" "ag_pid c = ag_pid ctl" "ag_axis c = ag_axis ctl"
    "prev_endpoint_valid c = prev_endpoint_valid ctl" "prev_endpoint_mdeg c = prev_endpoint_mdeg ctl"
    "traj_paused c \<longrightarrow> trajectory_active ctl" by (simp_all add: c_def)
  obtain pout pid' where r: "db_pid_update ?inp (ag_pid c) = (pout, pid')" by (cases "db_pid_update ?inp (ag_pid c)")
  show thesis
  proof (cases "\<not> trajectory_active c \<and> \<not> latched_passive_done (ag_pid c)")
    case True
    then have "db_aggregate_control_update st tick ctl =
      (\<lparr>ao_duty = 0, ao_ref_v_mdegps = 0, ao_actuation = DRIVEBASE_ON_COMPLETION_COAST,
        ao_done = pid_done (ag_pid ctl), ao_trajectory_done = True, ao_pos_err_mdeg = 0\<rparr>, c)"
      unfolding t db_aggregate_control_update_def prod.case Let_def c_def [symmetric] by (simp add: f)
    then show thesis by (rule that(1)) (use f True in auto)
  next
    case False
    let ?out = "\<lparr>ao_duty = po_duty pout, ao_ref_v_mdegps = rf_v_mdegps ?ref, ao_actuation = po_actuation pout,
                 ao_done = po_done pout, ao_trajectory_done = rf_done ?ref,
                 ao_pos_err_mdeg = clamp_err (i64 (rf_x_mdeg ?ref - x))\<rparr>"
    have "db_aggregate_control_update st tick ctl = (?out,
        if trajectory_active c then aggregate_set_pause (ag_want_pause pid' ?ref x v) now_us (c\<lparr>ag_pid := pid'\<rparr>)
        else c\<lparr>ag_pid := pid'\<rparr>)"
      using False unfolding t db_aggregate_control_update_def prod.case Let_def c_def [symmetric] r by argo
    then show thesis
      by (rule that(2) [of _ _ ?inp]) (use r f in \<open>auto simp: ag_pid_input_def split: if_splits\<close>)
  qed
qed

lemma refresh_keeps [simp]:
  "tunables (aggregate_refresh_settings ctl st) = tunables st"
  "captured (aggregate_refresh_settings ctl st) = captured st"
  by (simp_all add: aggregate_refresh_settings_def)

lemma update_ok:
  assumes "ag_ok ctl"
  shows "ag_ok (snd (db_aggregate_control_update st tick ctl))"
proof (cases rule: update_split [of st tick ctl])
  case (idle ctl1)
  then show ?thesis using assms by (simp add: ag_ok_def)
next
  case (tick inp out ctl1)
  then show ?thesis
    using assms pid_update_latch_code [of "ag_pid ctl" inp] by (simp add: ag_ok_def)
qed

lemma ag_step_ok:
  assumes "ag_ok ctl" "settings_ok st"
  shows "ag_ok (fst (ag_step op (ctl, st))) \<and> settings_ok (snd (ag_step op (ctl, st)))"
proof (cases op)
  case (Ag_Update tick)
  then show ?thesis using update_ok assms by simp
next
  case (Ag_Settings sop)
  then show ?thesis using step_ok assms by simp
next
  case (Ag_Stop now x oc)
  then show ?thesis
    using assms
    by (simp add: db_aggregate_control_stop_def db_aggregate_control_drive_hold_def Let_def ag_ok_def
        settings_ok_def db_pid_reset_def passive_code_def)
qed (use assms in \<open>simp_all add: ag_ok_def settings_ok_def db_aggregate_control_drive_position_def
      db_aggregate_control_drive_forever_def db_aggregate_control_drive_hold_def
      db_aggregate_control_reset_def db_pid_reset_def Let_def\<close>)

lemma ag_run_ok:
  "ag_ok ctl \<Longrightarrow> settings_ok st \<Longrightarrow>
   ag_ok (fst (fold ag_step ops (ctl, st))) \<and> settings_ok (snd (fold ag_step ops (ctl, st)))"
proof (induction ops arbitrary: ctl st)
  case (Cons op ops)
  obtain c s where cs: "ag_step op (ctl, st) = (c, s)" by (cases "ag_step op (ctl, st)")
  have "ag_ok c" "settings_ok s" using ag_step_ok [OF Cons.prems, of op] cs by auto
  then show ?case using Cons.IH cs by simp
qed simp

lemma update_output_range:
  assumes "ag_ok ctl" "settings_ok st"
  shows "\<bar>ao_duty (fst (db_aggregate_control_update st tick ctl))\<bar> \<le> 10000"
    and "ao_actuation (fst (db_aggregate_control_update st tick ctl)) = DRIVEBASE_ON_COMPLETION_HOLD \<or>
      (passive_code (ao_actuation (fst (db_aggregate_control_update st tick ctl))) \<and>
       ao_duty (fst (db_aggregate_control_update st tick ctl)) = 0)"
proof -
  have g: "gains_ok (db_settings_pid_gains st (ag_axis ctl))"
    using assms(2) by (simp add: settings_ok_def tunables_ok_def db_settings_pid_gains_def)
  have p: "po_actuation (fst (db_pid_update inp (ag_pid ctl))) = DRIVEBASE_ON_COMPLETION_HOLD \<or>
      passive_code (po_actuation (fst (db_pid_update inp (ag_pid ctl)))) \<and>
      po_duty (fst (db_pid_update inp (ag_pid ctl))) = 0" for inp
    using assms(1) by (cases rule: update_cases [of "ag_pid ctl" inp])
      (auto simp: passive_code_def pid_off_output_def ag_ok_def)
  show "\<bar>ao_duty (fst (db_aggregate_control_update st tick ctl))\<bar> \<le> 10000"
  proof (cases rule: update_split [of st tick ctl])
    case (tick inp out ctl1)
    then show ?thesis using update_duty_range [of inp "ag_pid ctl"] g by (simp add: gains_ok_def abs_le_iff)
  qed simp
  show "ao_actuation (fst (db_aggregate_control_update st tick ctl)) = DRIVEBASE_ON_COMPLETION_HOLD \<or>
      (passive_code (ao_actuation (fst (db_aggregate_control_update st tick ctl))) \<and>
       ao_duty (fst (db_aggregate_control_update st tick ctl)) = 0)"
    using p by (cases rule: update_split [of st tick ctl]) (auto simp: passive_code_def)
qed

lemma init_ok: "ag_ok (fst (db_aggregate_control_init axis tick_ms ctl st))"
  by (simp add: db_aggregate_control_init_def Let_def ag_ok_def db_pid_init_def db_pid_reset_def)

section \<open>Continuing from the endpoint\<close>

definition smart_window :: "db_aggregate_control_s \<Rightarrow> db_settings \<Rightarrow> int" where
  "smart_window ctl st = smart_continue_window_mdeg (fst (db_settings_completion_axis (ag_axis ctl) st))"

lemma refreshed_completion:
  "ag_completion ctl (aggregate_refresh_settings ctl st) = fst (db_settings_completion_axis (ag_axis ctl) st)"
  by (simp add: ag_completion_def aggregate_refresh_settings_def db_settings_completion_axis_def Let_def)

lemma completion_axis_cong:
  "tunables st' = tunables st \<Longrightarrow>
   fst (db_settings_completion_axis axis st') = fst (db_settings_completion_axis axis st)"
  by (simp add: db_settings_completion_axis_def db_settings_pid_gains_def Let_def)

text \<open>
  One leg of a tour: control ticks, then the next relative move, measured from where the robot is.
\<close>

definition ag_leg ::
    "(int \<times> int \<times> int \<times> int) list \<times> int \<times> int \<times> int \<Rightarrow>
     db_aggregate_control_s \<times> db_settings \<Rightarrow> db_aggregate_control_s \<times> db_settings" where
  "ag_leg leg cs = (case leg of (ticks, now_us, origin, delta) \<Rightarrow>
     ag_step (Ag_Position now_us origin delta 200000 800000 800000 DRIVEBASE_ON_COMPLETION_COAST_SMART)
       (fold (\<lambda>t. ag_step (Ag_Update t)) ticks cs))"

fun legs_ok :: "int \<Rightarrow> int \<Rightarrow> ((int \<times> int \<times> int \<times> int) list \<times> int \<times> int \<times> int) list \<Rightarrow> bool" where
  "legs_ok w e [] = True"
| "legs_ok w e ((ticks, now_us, origin, delta) # legs) =
     (\<bar>e - origin\<bar> \<le> w \<and> \<bar>e\<bar> \<le> 2 ^ 60 \<and> \<bar>delta\<bar> \<le> 2 ^ 60 \<and> legs_ok w (e + delta) legs)"

lemma ticks_frame:
  "prev_endpoint_valid (fst (fold (\<lambda>t. ag_step (Ag_Update t)) ticks (ctl, st))) = prev_endpoint_valid ctl \<and>
   prev_endpoint_mdeg (fst (fold (\<lambda>t. ag_step (Ag_Update t)) ticks (ctl, st))) = prev_endpoint_mdeg ctl \<and>
   ag_axis (fst (fold (\<lambda>t. ag_step (Ag_Update t)) ticks (ctl, st))) = ag_axis ctl \<and>
   snd (fold (\<lambda>t. ag_step (Ag_Update t)) ticks (ctl, st)) = st"
proof (induction ticks arbitrary: ctl)
  case (Cons t ticks)
  have "prev_endpoint_valid (snd (db_aggregate_control_update st t ctl)) = prev_endpoint_valid ctl"
    "prev_endpoint_mdeg (snd (db_aggregate_control_update st t ctl)) = prev_endpoint_mdeg ctl"
    "ag_axis (snd (db_aggregate_control_update st t ctl)) = ag_axis ctl"
    by (cases rule: update_split [of st t ctl]; simp)+
  then show ?case using Cons [of "snd (db_aggregate_control_update st t ctl)"] by simp
qed simp

lemma leg_endpoint:
  fixes now_us :: int and ticks :: "(int \<times> int \<times> int \<times> int) list"
  assumes "prev_endpoint_valid ctl" "prev_endpoint_mdeg ctl = e" "smart_window ctl st = w" "0 \<le> w" "w \<le> 60000"
    "\<bar>e - origin\<bar> \<le> w" "\<bar>e\<bar> \<le> 2 ^ 60" "\<bar>delta\<bar> \<le> 2 ^ 60"
  defines "cs \<equiv> ag_leg (ticks, now_us, origin, delta) (ctl, st)"
  shows "prev_endpoint_valid (fst cs) \<and> prev_endpoint_mdeg (fst cs) = e + delta \<and> smart_window (fst cs) (snd cs) = w"
proof -
  obtain c where c: "fold (\<lambda>t. ag_step (Ag_Update t)) ticks (ctl, st) = (c, st)"
    "prev_endpoint_valid c" "prev_endpoint_mdeg c = e" "ag_axis c = ag_axis ctl"
    using ticks_frame [of ticks ctl st] assms(1,2) by (metis prod.collapse)
  have d: "abs64 (i64 (e - origin)) = \<bar>e - origin\<bar>"
    using assms(5,6,7) by (auto simp: abs64_def i64_id)
  have w: "smart_continue_window_mdeg (ag_completion c (aggregate_refresh_settings c st)) = w"
    using assms(3) c(4) by (simp add: refreshed_completion smart_window_def)
  have "i64 (e + delta) = e + delta" using assms(7,8) by (intro i64_id) auto
  then show ?thesis
    using c(2-4) assms(3,6) completion_axis_cong [of "aggregate_refresh_settings c st" st]
    by (simp add: cs_def ag_leg_def c(1) db_aggregate_control_drive_position_def Let_def d w smart_window_def)
qed


definition demo_moved :: db_aggregate_control_s where
  "demo_moved = demo_axis\<lparr>prev_endpoint_valid := True, prev_endpoint_mdeg := 360000\<rparr>"


end
