(* ===== verification/Db_Drivebase.thy ===== *)
theory Db_Drivebase
  imports Db_Servo Db_Aggregate
begin

text \<open>
  The two-motor drivebase, \<^verbatim>\<open>apps/drivebase/drivebase_drivebase.c\<close>: two servos and two aggregate
  controllers (distance and heading), composed tick by tick into the duty of the left and the right
  wheel. The pointers \<^verbatim>\<open>ff_motor\<close> and \<^verbatim>\<open>battery\<close> always point into the settings module, so the model reads
  the settings state; the attached IMU belongs to the daemon, so its present contents are an argument,
  as are the outcomes of the system calls of a tick. Every operation returns the commands it sends to
  the motor driver, in order.
\<close>

section \<open>State\<close>

definition DB_TRAJECTORY_STRETCH_RATIO_THRESHOLD_MIL :: int where
  "DB_TRAJECTORY_STRETCH_RATIO_THRESHOLD_MIL = 1500"
definition DB_BREAKAWAY_ERR_DEADBAND :: int where "DB_BREAKAWAY_ERR_DEADBAND = 3000"
definition DB_IMU_DEFAULT_STALE_THRESHOLD_US :: int where "DB_IMU_DEFAULT_STALE_THRESHOLD_US = 50000"

definition DRIVEBASE_ACTIVE_NONE :: int where "DRIVEBASE_ACTIVE_NONE = 0"
definition DRIVEBASE_ACTIVE_STRAIGHT :: int where "DRIVEBASE_ACTIVE_STRAIGHT = 1"
definition DRIVEBASE_ACTIVE_CURVE :: int where "DRIVEBASE_ACTIVE_CURVE = 2"
definition DRIVEBASE_ACTIVE_FOREVER :: int where "DRIVEBASE_ACTIVE_FOREVER = 4"
definition DRIVEBASE_ACTIVE_TURN :: int where "DRIVEBASE_ACTIVE_TURN = 5"
definition DRIVEBASE_ACTIVE_STOP :: int where "DRIVEBASE_ACTIVE_STOP = 7"

definition DRIVEBASE_USE_GYRO_NONE :: int where "DRIVEBASE_USE_GYRO_NONE = 0"
definition DRIVEBASE_USE_GYRO_3D :: int where "DRIVEBASE_USE_GYRO_3D = 2"

lemmas active_defs = DRIVEBASE_ACTIVE_NONE_def DRIVEBASE_ACTIVE_STRAIGHT_def DRIVEBASE_ACTIVE_CURVE_def
  DRIVEBASE_ACTIVE_FOREVER_def DRIVEBASE_ACTIVE_TURN_def DRIVEBASE_ACTIVE_STOP_def

lemmas gyro_defs = DRIVEBASE_USE_GYRO_NONE_def DRIVEBASE_USE_GYRO_3D_def

text \<open>The fields of the IMU instance that the drivebase reads.\<close>

record db_imu_s =
  im_opened :: bool
  im_calibrated :: bool
  im_heading_mdeg :: int
  im_last_drain_ok_us :: int

definition db_imu_is_stale :: "db_imu_s \<Rightarrow> int \<Rightarrow> int \<Rightarrow> bool" where
  "db_imu_is_stale im now_us threshold_us =
     (if \<not> im_opened im \<or> im_last_drain_ok_us im = 0 then True
      else if now_us \<le> im_last_drain_ok_us im then False
      else u64 (now_us - im_last_drain_ok_us im) > threshold_us)"

record db_ff_state_s =
  sign_v_held :: int
  breakaway_consumed :: bool
  breakaway_sign :: int

record db_drivebase_s =
  wheel_d_um :: int
  axle_t_um :: int
  db_tick_ms :: int
  servo_left :: db_servo_s
  servo_right :: db_servo_s
  control_distance :: db_aggregate_control_s
  control_heading :: db_aggregate_control_s
  last_tick_us :: int
  distance_origin_mm :: int
  angle_origin_mdeg :: int
  distance_mm :: int
  drive_speed_mmps :: int
  angle_mdeg :: int
  turn_rate_dps :: int
  active_command :: int
  db_done :: bool
  db_stalled :: bool
  imu_attached :: bool
  use_gyro_requested :: int
  use_gyro_latched :: int
  last_set_gyro_rc :: int
  gyro_origin_mdeg :: int
  gyro_origin_valid :: bool
  ff_state_left :: db_ff_state_s
  ff_state_right :: db_ff_state_s

record drivebase_state_s =
  ds_distance_mm :: int
  ds_drive_speed_mmps :: int
  ds_angle_mdeg :: int
  ds_turn_rate_dps :: int
  ds_tick_seq :: int
  ds_is_done :: bool
  ds_is_stalled :: bool
  ds_active_command :: int
  ds_actuation_fault :: int

text \<open>
  What the environment answers during one tick: the two encoder reads, the results of the first and the
  second round of motor \<^verbatim>\<open>ioctl\<close>s on either side, the filtered battery voltage and the IMU contents.
\<close>

record db_env =
  ev_read_left :: "int + lump_sample_s list"
  ev_read_right :: "int + lump_sample_s list"
  ev_ioc_left :: int
  ev_ioc_right :: int
  ev_ioc2_left :: int
  ev_ioc2_right :: int
  ev_vbat_mv :: int
  ev_imu :: db_imu_s

section \<open>Helpers\<close>

definition mm_to_motor_mdeg :: "int \<Rightarrow> int \<Rightarrow> int" where
  "mm_to_motor_mdeg mm d_um = db_angle_mm_to_mdeg mm d_um"

definition diff_mm_to_heading_mdeg :: "int \<Rightarrow> int \<Rightarrow> int" where
  "diff_mm_to_heading_mdeg diff_mm a_um =
     (if a_um = 0 then 0
      else
        let pi_diff = db_angle_div_round (i64 (diff_mm * 180000000)) a_um in
        i32 (db_angle_div_round (i64 (pi_diff * DB_PI_DEN)) DB_PI_NUM))"

definition drivebase_clamp_i32 :: "int \<Rightarrow> int \<Rightarrow> int \<Rightarrow> int" where
  "drivebase_clamp_i32 v lo hi = (if v > hi then hi else if v < lo then lo else v)"

definition ff_sign_with_hysteresis :: "int \<Rightarrow> int \<Rightarrow> int \<Rightarrow> int \<Rightarrow> int" where
  "ff_sign_with_hysteresis v_ref_mdegps prev enter exit =
     (if v_ref_mdegps \<ge> enter then 1
      else if v_ref_mdegps \<le> i32 (- enter) then - 1
      else
        let mag = (if v_ref_mdegps < 0 then i32 (- v_ref_mdegps) else v_ref_mdegps) in
        if mag < exit then 0 else prev)"

definition apply_breakaway_floor ::
    "int \<Rightarrow> int \<Rightarrow> int \<Rightarrow> bool \<Rightarrow> db_ff_state_s \<Rightarrow> int \<times> db_ff_state_s" where
  "apply_breakaway_floor terminal pre wheel_err traj_done st =
     (if terminal = 0 \<or> \<not> traj_done \<or> breakaway_consumed st then (pre, st)
      else
        let s = (if wheel_err > DB_BREAKAWAY_ERR_DEADBAND then 1 else 0) -
                (if wheel_err < - DB_BREAKAWAY_ERR_DEADBAND then 1 else 0) in
        if s = 0 then (pre, if breakaway_sign st \<noteq> 0 then st\<lparr>breakaway_consumed := True\<rparr> else st)
        else if breakaway_sign st \<noteq> 0 \<and> s \<noteq> breakaway_sign st then (pre, st\<lparr>breakaway_consumed := True\<rparr>)
        else if (s > 0 \<and> pre < 0) \<or> (s < 0 \<and> pre > 0) then (pre, st)
        else if s > 0 \<and> pre < terminal then (terminal, st\<lparr>breakaway_sign := s\<rparr>)
        else if s < 0 \<and> pre > - terminal then (- terminal, st\<lparr>breakaway_sign := s\<rparr>)
        else (pre, st))"

text \<open>Both servos are driven in order, left first.\<close>

definition apply_both ::
    "int \<Rightarrow> int \<Rightarrow> int \<Rightarrow> int \<Rightarrow> int \<Rightarrow> db_drivebase_s \<Rightarrow> db_motor_module \<Rightarrow>
     motor_cmd list \<times> db_drivebase_s \<times> db_motor_module" where
  "apply_both ioc_l ioc_r duty_l duty_r actuation db g =
     (case db_servo_apply ioc_l duty_l actuation (servo_left db) g of (_, c1, sl, g1) \<Rightarrow>
        case db_servo_apply ioc_r duty_r actuation (servo_right db) g1 of (_, c2, sr, g2) \<Rightarrow>
          (c1 @ c2, db\<lparr>servo_left := sl, servo_right := sr\<rparr>, g2))"

section \<open>Lifecycle\<close>

definition zero_servo :: db_servo_s where
  "zero_servo =
     \<lparr>sv_side = DB_SIDE_LEFT, sv_tick_ms = 0, sv_observer = blank_observer, x_actual_mdeg = 0,
      v_estimate_mdegps = 0, t_last_us = 0, last_applied_duty = 0, last_actuation = 0,
      reject_candidate_mdeg = 0, candidate_run = 0\<rparr>"

definition zero_control :: db_aggregate_control_s where
  "zero_control =
     \<lparr>ag_axis = 0, ag_tick_ms = 0,
      ag_pid = \<lparr>i_acc = 0, prev_pos_err_mdeg = 0, paused = False, output_saturated_high = False,
                output_saturated_low = False, done_streak_ms = 0, pid_done = False, smart_hold_streak_ms = 0,
                smart_hold_active = False, smart_hold_expired = False, latched_passive_done = False,
                latched_actuation = 0\<rparr>,
      ag_trajectory = zero_trajectory, trajectory_active = False, prev_endpoint_valid = False,
      prev_endpoint_mdeg = 0, ag_on_completion = 0, traj_paused = False, traj_pause_begin_us = 0,
      traj_pause_total_us = 0\<rparr>"

definition zero_ff_state :: db_ff_state_s where
  "zero_ff_state = \<lparr>sign_v_held = 0, breakaway_consumed = False, breakaway_sign = 0\<rparr>"

definition zero_drivebase :: db_drivebase_s where
  "zero_drivebase =
     \<lparr>wheel_d_um = 0, axle_t_um = 0, db_tick_ms = 0, servo_left = zero_servo, servo_right = zero_servo,
      control_distance = zero_control, control_heading = zero_control, last_tick_us = 0,
      distance_origin_mm = 0, angle_origin_mdeg = 0, distance_mm = 0, drive_speed_mmps = 0, angle_mdeg = 0,
      turn_rate_dps = 0, active_command = 0, db_done = False, db_stalled = False, imu_attached = False,
      use_gyro_requested = 0, use_gyro_latched = 0, last_set_gyro_rc = 0, gyro_origin_mdeg = 0,
      gyro_origin_valid = False, ff_state_left = zero_ff_state, ff_state_right = zero_ff_state\<rparr>"

definition db_drivebase_init ::
    "int \<Rightarrow> int \<Rightarrow> int \<Rightarrow> db_drivebase_s \<Rightarrow> db_settings \<Rightarrow> int \<times> db_drivebase_s \<times> db_settings" where
  "db_drivebase_init wheel axle tick_ms db st =
     (if wheel = 0 \<or> axle = 0 then (- EINVAL, db, st)
      else
        let t = (if tick_ms = 0 then DB_RT_TICK_MS_DEFAULT else tick_ms) in
        case db_aggregate_control_init DB_AXIS_DISTANCE t zero_control st of (cd, st1) \<Rightarrow>
        case db_aggregate_control_init DB_AXIS_HEADING t zero_control st1 of (ch, st2) \<Rightarrow>
          (0,
           zero_drivebase\<lparr>wheel_d_um := wheel, axle_t_um := axle, db_tick_ms := t,
             active_command := DRIVEBASE_ACTIVE_NONE, servo_left := db_servo_init st DB_SIDE_LEFT t zero_servo,
             servo_right := db_servo_init st DB_SIDE_RIGHT t zero_servo, control_distance := cd,
             control_heading := ch\<rparr>,
           st2))"

definition db_drivebase_raw_state :: "db_drivebase_s \<Rightarrow> int \<times> int" where
  "db_drivebase_raw_state db =
     (let lL_mm = db_angle_mdeg_to_mm (st_act_x_mdeg (db_servo_get_status (servo_left db))) (wheel_d_um db);
          lR_mm = db_angle_mdeg_to_mm (st_act_x_mdeg (db_servo_get_status (servo_right db))) (wheel_d_um db) in
      (cdiv (i32 (lL_mm + lR_mm)) 2, diff_mm_to_heading_mdeg (i32 (lR_mm - lL_mm)) (axle_t_um db)))"

definition gyro_origin_capturable :: "db_imu_s \<Rightarrow> int \<Rightarrow> db_drivebase_s \<Rightarrow> bool" where
  "gyro_origin_capturable imu now_us db =
     (if \<not> imu_attached db then False
      else if use_gyro_requested db = DRIVEBASE_USE_GYRO_NONE then False
      else if \<not> im_calibrated imu then False
      else if db_imu_is_stale imu now_us DB_IMU_DEFAULT_STALE_THRESHOLD_US then False
      else True)"

definition db_drivebase_reset ::
    "db_env \<Rightarrow> int \<Rightarrow> db_drivebase_s \<Rightarrow> db_settings \<Rightarrow> db_motor_module \<Rightarrow>
     int \<times> db_drivebase_s \<times> db_settings \<times> db_motor_module" where
  "db_drivebase_reset e now_us db st g =
     (case db_servo_reset (ev_read_left e) now_us (servo_left db) g of (rc, sl, g1) \<Rightarrow>
        let db1 = db\<lparr>servo_left := sl\<rparr> in
        if rc < 0 then (rc, db1, st, g1)
        else
          case db_servo_reset (ev_read_right e) now_us (servo_right db1) g1 of (rc', sr, g2) \<Rightarrow>
            let db2 = db1\<lparr>servo_right := sr\<rparr> in
            if rc' < 0 then (rc', db2, st, g2)
            else
              case db_aggregate_control_reset (control_distance db2) st of (cd, st1) \<Rightarrow>
              case db_aggregate_control_reset (control_heading db2) st1 of (ch, st2) \<Rightarrow>
                let db3 = db2\<lparr>control_distance := cd, control_heading := ch\<rparr>;
                    (avg_mm, heading_mdeg) = db_drivebase_raw_state db3;
                    db4 = db3\<lparr>distance_origin_mm := avg_mm, angle_origin_mdeg := heading_mdeg, distance_mm := 0,
                              drive_speed_mmps := 0, angle_mdeg := 0, turn_rate_dps := 0,
                              active_command := DRIVEBASE_ACTIVE_NONE, db_done := True, db_stalled := False,
                              last_tick_us := now_us\<rparr> in
                (0,
                 if gyro_origin_capturable (ev_imu e) now_us db4
                 then db4\<lparr>gyro_origin_mdeg := im_heading_mdeg (ev_imu e), gyro_origin_valid := True\<rparr>
                 else db4\<lparr>gyro_origin_valid := False\<rparr>,
                 st2, g2))"

definition db_drivebase_set_origin ::
    "db_imu_s \<Rightarrow> int \<Rightarrow> int \<Rightarrow> int \<Rightarrow> db_drivebase_s \<Rightarrow> db_drivebase_s" where
  "db_drivebase_set_origin imu dist angle now_us db =
     (case db_drivebase_raw_state db of (raw_dist, raw_heading) \<Rightarrow>
        let db1 = db\<lparr>distance_origin_mm := i32 (raw_dist - dist), angle_origin_mdeg := i32 (raw_heading - angle),
                     distance_mm := dist, angle_mdeg := angle\<rparr> in
        if gyro_origin_capturable imu now_us db1
        then db1\<lparr>gyro_origin_mdeg := i64 (im_heading_mdeg imu - angle), gyro_origin_valid := True\<rparr>
        else db1\<lparr>gyro_origin_valid := False\<rparr>)"

definition db_drivebase_attach_imu :: "bool \<Rightarrow> db_drivebase_s \<Rightarrow> db_drivebase_s" where
  "db_drivebase_attach_imu present db = db\<lparr>imu_attached := present, gyro_origin_valid := False\<rparr>"

definition db_drivebase_set_use_gyro ::
    "db_imu_s \<Rightarrow> int \<Rightarrow> int \<Rightarrow> db_drivebase_s \<Rightarrow> db_settings \<Rightarrow> int \<times> db_drivebase_s \<times> db_settings" where
  "db_drivebase_set_use_gyro imu mode now_us db st =
     (if mode \<noteq> DRIVEBASE_USE_GYRO_NONE \<and> mode \<noteq> DRIVEBASE_USE_GYRO_3D
      then (- EINVAL, db\<lparr>last_set_gyro_rc := - EINVAL\<rparr>, st)
      else if active_command db \<noteq> DRIVEBASE_ACTIVE_NONE then (- EBUSY, db\<lparr>last_set_gyro_rc := - EBUSY\<rparr>, st)
      else
        let old_valid = gyro_origin_valid db; mode_changed = (use_gyro_requested db \<noteq> mode);
            db1 = db\<lparr>use_gyro_requested := mode\<rparr>;
            (db2, st2) = (if mode_changed
                          then (case db_aggregate_control_reset (control_heading db1) st of (ch, st') \<Rightarrow>
                                  (db1\<lparr>control_heading := ch\<rparr>, st'))
                          else (db1, st));
            db3 = (if mode = DRIVEBASE_USE_GYRO_NONE then db2\<lparr>gyro_origin_valid := False\<rparr>
                   else if \<not> mode_changed \<and> mode = DRIVEBASE_USE_GYRO_3D \<and> old_valid \<and>
                           gyro_origin_capturable imu now_us db2 then db2
                   else if gyro_origin_capturable imu now_us db2
                   then db2\<lparr>gyro_origin_mdeg := i64 (im_heading_mdeg imu - angle_mdeg db2), gyro_origin_valid := True\<rparr>
                   else db2\<lparr>gyro_origin_valid := False\<rparr>) in
        (0, db3\<lparr>last_set_gyro_rc := 0\<rparr>, st2))"

section \<open>Aggregate state\<close>

record db_agg_state_s =
  distance_x_mdeg :: int
  distance_v_mdegps :: int
  heading_x_mdeg :: int
  heading_v_mdegps :: int

definition collect_aggregate_state :: "db_drivebase_s \<Rightarrow> db_agg_state_s" where
  "collect_aggregate_state db =
     (let sL = db_servo_get_status (servo_left db); sR = db_servo_get_status (servo_right db) in
      \<lparr>distance_x_mdeg = cdiv (i64 (st_act_x_mdeg sL + st_act_x_mdeg sR)) 2,
       distance_v_mdegps = cdiv (i32 (st_act_v_mdegps sL + st_act_v_mdegps sR)) 2,
       heading_x_mdeg = cdiv (i64 (st_act_x_mdeg sR - st_act_x_mdeg sL)) 2,
       heading_v_mdegps = cdiv (i32 (st_act_v_mdegps sR - st_act_v_mdegps sL)) 2\<rparr>)"

definition db_drivebase_latch_use_gyro :: "db_imu_s \<Rightarrow> int \<Rightarrow> db_drivebase_s \<Rightarrow> db_drivebase_s" where
  "db_drivebase_latch_use_gyro imu now_us db =
     (if gyro_origin_capturable imu now_us db then db\<lparr>use_gyro_latched := use_gyro_requested db\<rparr>
      else db\<lparr>use_gyro_latched := DRIVEBASE_USE_GYRO_NONE\<rparr>)"

definition db_drivebase_capture_start_heading ::
    "db_imu_s \<Rightarrow> int \<Rightarrow> bool \<Rightarrow> db_drivebase_s \<Rightarrow> db_agg_state_s \<times> db_drivebase_s" where
  "db_drivebase_capture_start_heading imu now_us do_latch db =
     (let db1 = (if do_latch then
                   let l = db_drivebase_latch_use_gyro imu now_us db in
                   if \<not> gyro_origin_valid l \<and> use_gyro_latched l = DRIVEBASE_USE_GYRO_3D \<and> imu_attached l
                   then l\<lparr>gyro_origin_mdeg := i64 (im_heading_mdeg imu - angle_mdeg l), gyro_origin_valid := True\<rparr>
                   else l
                 else db);
          s = collect_aggregate_state db1 in
      (if use_gyro_latched db1 = DRIVEBASE_USE_GYRO_3D \<and> imu_attached db1 \<and> gyro_origin_valid db1 \<and>
          im_calibrated imu \<and> \<not> db_imu_is_stale imu now_us DB_IMU_DEFAULT_STALE_THRESHOLD_US
       then s\<lparr>heading_x_mdeg := db_angle_heading_mdeg_to_state_mdeg
                (i64 (im_heading_mdeg imu - gyro_origin_mdeg db1)) (wheel_d_um db1) (axle_t_um db1)\<rparr>
       else s,
       db1))"

section \<open>Drive primitives\<close>

definition setup_position_move ::
    "db_imu_s \<Rightarrow> int \<Rightarrow> int \<Rightarrow> int \<Rightarrow> int \<Rightarrow> int \<Rightarrow> int \<Rightarrow> int \<Rightarrow> db_drivebase_s \<Rightarrow> db_settings \<Rightarrow>
     int \<times> db_drivebase_s \<times> db_settings" where
  "setup_position_move imu now_us distance_delta heading_delta v_distance v_heading primary on_completion db st =
     (case db_drivebase_capture_start_heading imu now_us True db of (s, db1) \<Rightarrow>
      case db_settings_distance_limits (wheel_d_um db1) st of (dl, st1) \<Rightarrow>
      case db_settings_heading_limits (wheel_d_um db1) (axle_t_um db1) st1 of (hl, st2) \<Rightarrow>
        let v_d = (if v_distance \<noteq> 0 then v_distance else v_max_mdegps dl);
            v_h = (if v_heading \<noteq> 0 then v_heading else v_max_mdegps hl);
            comp_d = (if primary = DB_AXIS_DISTANCE then on_completion else DRIVEBASE_ON_COMPLETION_HOLD);
            comp_h = (if primary = DB_AXIS_HEADING then on_completion else DRIVEBASE_ON_COMPLETION_HOLD);
            (_, cd, st3) =
              (if distance_delta = 0 \<and> primary \<noteq> DB_AXIS_DISTANCE
               then db_aggregate_control_drive_hold now_us (distance_x_mdeg s) (control_distance db1) st2
               else db_aggregate_control_drive_position now_us (distance_x_mdeg s) distance_delta v_d
                      (accel_mdegps2 dl) (decel_mdegps2 dl) comp_d (control_distance db1) st2);
            (_, ch, st4) =
              (if heading_delta = 0 \<and> primary \<noteq> DB_AXIS_HEADING
               then db_aggregate_control_drive_hold now_us (heading_x_mdeg s) (control_heading db1) st3
               else db_aggregate_control_drive_position now_us (heading_x_mdeg s) heading_delta v_h
                      (accel_mdegps2 hl) (decel_mdegps2 hl) comp_h (control_heading db1) st3) in
        (0, db1\<lparr>control_distance := cd, control_heading := ch\<rparr>, st4))"

definition db_drivebase_drive_straight ::
    "db_imu_s \<Rightarrow> int \<Rightarrow> int \<Rightarrow> int \<Rightarrow> int \<Rightarrow> db_drivebase_s \<Rightarrow> db_settings \<Rightarrow>
     int \<times> db_drivebase_s \<times> db_settings" where
  "db_drivebase_drive_straight imu now_us dist_mm speed_mmps on_completion db st =
     (let dist_delta_mdeg = mm_to_motor_mdeg dist_mm (wheel_d_um db);
          v_override = (if speed_mmps \<noteq> 0
                        then db_angle_mmps_to_mdegps (if speed_mmps < 0 then i32 (- speed_mmps) else speed_mmps)
                               (wheel_d_um db)
                        else 0) in
      setup_position_move imu now_us dist_delta_mdeg 0 v_override 0 DB_AXIS_DISTANCE on_completion
        (db\<lparr>active_command := DRIVEBASE_ACTIVE_STRAIGHT\<rparr>) st)"

definition turn_rate_to_state :: "int \<Rightarrow> db_drivebase_s \<Rightarrow> int" where
  "turn_rate_to_state dps db = i32 (cdiv (i64 (i64 (dps * 1000) * axle_t_um db)) (wheel_d_um db))"

definition db_drivebase_turn ::
    "db_imu_s \<Rightarrow> int \<Rightarrow> int \<Rightarrow> int \<Rightarrow> int \<Rightarrow> db_drivebase_s \<Rightarrow> db_settings \<Rightarrow>
     int \<times> db_drivebase_s \<times> db_settings" where
  "db_drivebase_turn imu now_us angle_deg rate_dps on_completion db st =
     (let heading_delta_mdeg =
            db_angle_heading_mdeg_to_state_mdeg (i64 (angle_deg * 1000)) (wheel_d_um db) (axle_t_um db);
          v_override = (if rate_dps \<noteq> 0
                        then turn_rate_to_state (if rate_dps < 0 then i32 (- rate_dps) else rate_dps) db
                        else 0) in
      setup_position_move imu now_us 0 heading_delta_mdeg 0 v_override DB_AXIS_HEADING on_completion
        (db\<lparr>active_command := DRIVEBASE_ACTIVE_TURN\<rparr>) st)"

text \<open>The duration matching at the end of \<^verbatim>\<open>db_drivebase_drive_curve\<close>.\<close>

definition stretch_follower ::
    "db_aggregate_control_s \<Rightarrow> db_aggregate_control_s \<Rightarrow> db_aggregate_control_s \<times> db_aggregate_control_s" where
  "stretch_follower cd ch =
     (let t_d = tr_total_dt_us (ag_trajectory cd); t_h = tr_total_dt_us (ag_trajectory ch);
          target = (if t_d > t_h then t_d else t_h); short = (if t_d > t_h then t_h else t_d) in
      if t_d = t_h then (cd, ch)
      else if short > 0 \<and> u64 (target * 1000) < u64 (short * DB_TRAJECTORY_STRETCH_RATIO_THRESHOLD_MIL)
      then (cd, ch)
      else if t_d > t_h then
        (case db_trajectory_stretch_to_total (ag_trajectory ch) target of (rc, tmp) \<Rightarrow>
           if rc = 0 then (cd, ch\<lparr>ag_trajectory := tmp\<rparr>) else (cd, ch))
      else
        (case db_trajectory_stretch_to_total (ag_trajectory cd) target of (rc, tmp) \<Rightarrow>
           if rc = 0 then (cd\<lparr>ag_trajectory := tmp\<rparr>, ch) else (cd, ch)))"

definition db_drivebase_drive_curve ::
    "db_imu_s \<Rightarrow> int \<Rightarrow> int \<Rightarrow> int \<Rightarrow> int \<Rightarrow> db_drivebase_s \<Rightarrow> db_settings \<Rightarrow>
     int \<times> db_drivebase_s \<times> db_settings" where
  "db_drivebase_drive_curve imu now_us radius_mm angle_deg on_completion db st =
     (if radius_mm = 0 then db_drivebase_turn imu now_us angle_deg 0 on_completion db st
      else if angle_deg = 0 then (0, db\<lparr>active_command := DRIVEBASE_ACTIVE_NONE\<rparr>, st)
      else
        let dl_avg_mm = i32 (cdiv (cdiv (i64 (i64 (radius_mm * angle_deg) * DB_PI_NUM)) DB_PI_DEN) 180);
            dist_delta = mm_to_motor_mdeg dl_avg_mm (wheel_d_um db);
            heading_delta =
              db_angle_heading_mdeg_to_state_mdeg (i64 (angle_deg * 1000)) (wheel_d_um db) (axle_t_um db) in
        if dist_delta = 0 \<and> heading_delta \<noteq> 0 then db_drivebase_turn imu now_us angle_deg 0 on_completion db st
        else if heading_delta = 0 \<and> dist_delta \<noteq> 0
        then db_drivebase_drive_straight imu now_us dl_avg_mm 0 on_completion db st
        else if dist_delta = 0 \<and> heading_delta = 0 then (0, db\<lparr>active_command := DRIVEBASE_ACTIVE_NONE\<rparr>, st)
        else
          case db_drivebase_capture_start_heading imu now_us True (db\<lparr>active_command := DRIVEBASE_ACTIVE_CURVE\<rparr>) of
            (s, db1) \<Rightarrow>
          case db_settings_distance_limits (wheel_d_um db1) st of (dl, st1) \<Rightarrow>
          case db_settings_heading_limits (wheel_d_um db1) (axle_t_um db1) st1 of (hl, st2) \<Rightarrow>
          case db_aggregate_control_drive_position now_us (distance_x_mdeg s) dist_delta (v_max_mdegps dl)
                 (accel_mdegps2 dl) (decel_mdegps2 dl) on_completion (control_distance db1) st2 of (_, cd, st3) \<Rightarrow>
          case db_aggregate_control_drive_position now_us (heading_x_mdeg s) heading_delta (v_max_mdegps hl)
                 (accel_mdegps2 hl) (decel_mdegps2 hl) on_completion (control_heading db1) st3 of (_, ch, st4) \<Rightarrow>
          case stretch_follower cd ch of (cd', ch') \<Rightarrow>
            (0, db1\<lparr>control_distance := cd', control_heading := ch'\<rparr>, st4))"

definition db_drivebase_drive_arc_distance ::
    "db_imu_s \<Rightarrow> int \<Rightarrow> int \<Rightarrow> int \<Rightarrow> int \<Rightarrow> db_drivebase_s \<Rightarrow> db_settings \<Rightarrow>
     int \<times> db_drivebase_s \<times> db_settings" where
  "db_drivebase_drive_arc_distance imu now_us radius_mm dist_mm on_completion db st =
     (if radius_mm = 0 then db_drivebase_drive_straight imu now_us dist_mm 0 on_completion db st
      else
        let angle = i32 (cdiv (i64 (i64 (i64 (dist_mm * 1000) * 180) * DB_PI_DEN)) (i64 (radius_mm * DB_PI_NUM))) in
        db_drivebase_drive_curve imu now_us radius_mm (cdiv angle 1000) on_completion db st)"

definition db_drivebase_drive_forever ::
    "db_imu_s \<Rightarrow> int \<Rightarrow> int \<Rightarrow> int \<Rightarrow> db_drivebase_s \<Rightarrow> db_settings \<Rightarrow>
     int \<times> db_drivebase_s \<times> db_settings" where
  "db_drivebase_drive_forever imu now_us speed_mmps rate_dps db st =
     (case db_drivebase_capture_start_heading imu now_us (active_command db \<noteq> DRIVEBASE_ACTIVE_FOREVER) db of
        (s, db1) \<Rightarrow>
          let v_dist = db_angle_mmps_to_mdegps speed_mmps (wheel_d_um db1);
              v_hdg = turn_rate_to_state rate_dps db1 in
          case db_settings_distance_limits (wheel_d_um db1) st of (dl, st1) \<Rightarrow>
          case db_settings_heading_limits (wheel_d_um db1) (axle_t_um db1) st1 of (hl, st2) \<Rightarrow>
          case db_aggregate_control_drive_forever now_us (distance_x_mdeg s) v_dist (accel_mdegps2 dl)
                 (control_distance db1) st2 of (_, cd, st3) \<Rightarrow>
          case db_aggregate_control_drive_forever now_us (heading_x_mdeg s) v_hdg (accel_mdegps2 hl)
                 (control_heading db1) st3 of (_, ch, st4) \<Rightarrow>
            (0, db1\<lparr>control_distance := cd, control_heading := ch, active_command := DRIVEBASE_ACTIVE_FOREVER\<rparr>, st4))"

definition db_drivebase_stop ::
    "db_env \<Rightarrow> int \<Rightarrow> int \<Rightarrow> db_drivebase_s \<Rightarrow> db_settings \<Rightarrow> db_motor_module \<Rightarrow>
     int \<times> motor_cmd list \<times> db_drivebase_s \<times> db_settings \<times> db_motor_module" where
  "db_drivebase_stop e now_us on_completion db st g =
     (case db_drivebase_capture_start_heading (ev_imu e) now_us False db of (s, db1) \<Rightarrow>
      case db_aggregate_control_stop now_us (distance_x_mdeg s) on_completion (control_distance db1) st of
        (_, cd, st1) \<Rightarrow>
      case db_aggregate_control_stop now_us (heading_x_mdeg s) on_completion (control_heading db1) st1 of
        (_, ch, st2) \<Rightarrow>
        let db2 = db1\<lparr>active_command := DRIVEBASE_ACTIVE_STOP, control_distance := cd, control_heading := ch\<rparr> in
        if on_completion = DRIVEBASE_ON_COMPLETION_COAST \<or> on_completion = DRIVEBASE_ON_COMPLETION_COAST_SMART then
          (case apply_both (ev_ioc_left e) (ev_ioc_right e) 0 0 DRIVEBASE_ON_COMPLETION_COAST db2 g of
             (cmds, db3, g') \<Rightarrow> (0, cmds, db3, st2, g'))
        else if on_completion = DRIVEBASE_ON_COMPLETION_BRAKE \<or> on_completion = DRIVEBASE_ON_COMPLETION_BRAKE_SMART then
          (case apply_both (ev_ioc_left e) (ev_ioc_right e) 0 0 DRIVEBASE_ON_COMPLETION_BRAKE db2 g of
             (cmds, db3, g') \<Rightarrow> (0, cmds, db3, st2, g'))
        else (0, [], db2, st2, g))"

section \<open>The tick\<close>

text \<open>The choice of the passive actuation that is to reach both axes (0 when there is none).\<close>

definition db_propagate :: "db_aggregate_output_s \<Rightarrow> db_aggregate_output_s \<Rightarrow> int" where
  "db_propagate out_d out_h =
     (if ao_actuation out_d = DRIVEBASE_ON_COMPLETION_COAST \<or> ao_actuation out_h = DRIVEBASE_ON_COMPLETION_COAST
      then DRIVEBASE_ON_COMPLETION_COAST
      else if ao_actuation out_d = DRIVEBASE_ON_COMPLETION_BRAKE \<or> ao_actuation out_h = DRIVEBASE_ON_COMPLETION_BRAKE
      then DRIVEBASE_ON_COMPLETION_BRAKE
      else 0)"

definition battery_correct :: "db_settings \<Rightarrow> int \<Rightarrow> int \<Rightarrow> int" where
  "battery_correct st vbat_mv pre =
     (let vbat_min = min_mv (db_settings_battery st);
          vbat = (if vbat_mv < vbat_min then vbat_min else vbat_mv) in
      drivebase_clamp_i32 (cdiv (i32 (pre * nominal_mv (db_settings_battery st))) vbat) (- 10000) 10000)"

text \<open>One wheel of the compose step: friction feed-forward, breakaway floor, clamp, battery correction.\<close>

definition wheel_duty ::
    "db_settings \<Rightarrow> int \<Rightarrow> int \<Rightarrow> int \<Rightarrow> int \<Rightarrow> bool \<Rightarrow> db_ff_state_s \<Rightarrow> int \<times> db_ff_state_s" where
  "wheel_duty st vbat_mv v_ref duty wheel_err traj_done ff =
     (let fr = db_settings_ff_motor_friction st;
          sgn_v = ff_sign_with_hysteresis v_ref (sign_v_held ff) (v_hyst_enter_mdegps fr) (v_hyst_exit_mdegps fr);
          ff1 = ff\<lparr>sign_v_held := sgn_v\<rparr>;
          kS_w = i32 (sgn_v * cdiv (kS fr) 2);
          ff2 = (if \<not> traj_done then ff1\<lparr>breakaway_consumed := False, breakaway_sign := 0\<rparr> else ff1);
          (raised, ff3) = apply_breakaway_floor (terminal_breakaway fr) (i32 (duty + kS_w)) wheel_err traj_done ff2 in
      (battery_correct st vbat_mv (drivebase_clamp_i32 raised (- 10000) 10000), ff3))"

definition compose_duty ::
    "db_settings \<Rightarrow> int \<Rightarrow> db_aggregate_output_s \<Rightarrow> db_aggregate_output_s \<Rightarrow> db_drivebase_s \<Rightarrow>
     int \<times> int \<times> db_drivebase_s" where
  "compose_duty st vbat_mv out_d out_h db =
     (let traj_done = ao_trajectory_done out_d \<and> ao_trajectory_done out_h;
          (dl, ffl) = wheel_duty st vbat_mv (i32 (ao_ref_v_mdegps out_d - ao_ref_v_mdegps out_h))
                        (i32 (ao_duty out_d - ao_duty out_h))
                        (i64 (ao_pos_err_mdeg out_d - ao_pos_err_mdeg out_h)) traj_done (ff_state_left db);
          (dr, ffr) = wheel_duty st vbat_mv (i32 (ao_ref_v_mdegps out_d + ao_ref_v_mdegps out_h))
                        (i32 (ao_duty out_d + ao_duty out_h))
                        (i64 (ao_pos_err_mdeg out_d + ao_pos_err_mdeg out_h)) traj_done (ff_state_right db) in
      (dl, dr, db\<lparr>ff_state_left := ffl, ff_state_right := ffr\<rparr>))"

text \<open>Steps 5 and 6 of the tick: what the wheels are told to do.\<close>

definition db_actuate ::
    "db_env \<Rightarrow> int \<Rightarrow> db_agg_state_s \<Rightarrow> db_aggregate_output_s \<Rightarrow> db_aggregate_output_s \<Rightarrow> db_drivebase_s \<Rightarrow>
     db_settings \<Rightarrow> db_motor_module \<Rightarrow> motor_cmd list \<times> db_drivebase_s \<times> db_settings \<times> db_motor_module" where
  "db_actuate e now_us s out_d out_h db st g =
     (if drivebase_motor_reclaim_pending g \<noteq> 0 then
        (case apply_both (ev_ioc_left e) (ev_ioc_right e) 0 0 DRIVEBASE_ON_COMPLETION_COAST db g of
           (cmds, db1, g1) \<Rightarrow> (cmds, db1, st, g1))
      else if db_propagate out_d out_h \<noteq> 0 then
        (case db_aggregate_control_stop now_us (distance_x_mdeg s) (db_propagate out_d out_h)
                (control_distance db) st of (_, cd, st1) \<Rightarrow>
         case db_aggregate_control_stop now_us (heading_x_mdeg s) (db_propagate out_d out_h)
                (control_heading db) st1 of (_, ch, st2) \<Rightarrow>
         case apply_both (ev_ioc_left e) (ev_ioc_right e) 0 0 (db_propagate out_d out_h)
                (db\<lparr>control_distance := cd, control_heading := ch\<rparr>) g of
           (cmds, db1, g1) \<Rightarrow> (cmds, db1, st2, g1))
      else
        case compose_duty st (ev_vbat_mv e) out_d out_h db of (left_duty, right_duty, db1) \<Rightarrow>
        case apply_both (ev_ioc_left e) (ev_ioc_right e) left_duty right_duty DRIVEBASE_ON_COMPLETION_HOLD db1 g of
          (cmds, db2, g1) \<Rightarrow>
            if drivebase_motor_reclaim_pending g1 \<noteq> 0 then
              (case apply_both (ev_ioc2_left e) (ev_ioc2_right e) 0 0 DRIVEBASE_ON_COMPLETION_COAST db2 g1 of
                 (cmds', db3, g2) \<Rightarrow> (cmds @ cmds', db3, st, g2))
            else (cmds, db2, st, g1))"

text \<open>Step 7 of the tick: the published state.\<close>

definition db_publish :: "db_aggregate_output_s \<Rightarrow> db_aggregate_output_s \<Rightarrow> db_drivebase_s \<Rightarrow> db_drivebase_s" where
  "db_publish out_d out_h db =
     (let sL = db_servo_get_status (servo_left db); sR = db_servo_get_status (servo_right db);
          lL_mm = db_angle_mdeg_to_mm (st_act_x_mdeg sL) (wheel_d_um db);
          lR_mm = db_angle_mdeg_to_mm (st_act_x_mdeg sR) (wheel_d_um db);
          avg_mm = cdiv (i32 (lL_mm + lR_mm)) 2; diff_mm = i32 (lR_mm - lL_mm);
          vL_mmps = db_angle_mdegps_to_mmps (st_act_v_mdegps sL) (wheel_d_um db);
          vR_mmps = db_angle_mdegps_to_mmps (st_act_v_mdegps sR) (wheel_d_um db);
          d = ao_done out_d \<and> ao_done out_h in
      db\<lparr>distance_mm := i32 (avg_mm - distance_origin_mm db),
         angle_mdeg := i32 (diff_mm_to_heading_mdeg diff_mm (axle_t_um db) - angle_origin_mdeg db),
         drive_speed_mmps := cdiv (i32 (vL_mmps + vR_mmps)) 2,
         turn_rate_dps := cdiv (diff_mm_to_heading_mdeg (i32 (vR_mmps - vL_mmps)) (axle_t_um db)) 1000,
         db_done := d, db_stalled := (st_stalled sL \<or> st_stalled sR),
         active_command := (if d then DRIVEBASE_ACTIVE_NONE else active_command db)\<rparr>)"

definition db_drivebase_update ::
    "db_env \<Rightarrow> int \<Rightarrow> db_drivebase_s \<Rightarrow> db_settings \<Rightarrow> db_motor_module \<Rightarrow>
     int \<times> motor_cmd list \<times> db_drivebase_s \<times> db_settings \<times> db_motor_module" where
  "db_drivebase_update e now_us db st g =
     (case db_servo_update (ev_read_left e) now_us (servo_left db) g of (rc, sl, g1) \<Rightarrow>
        let db1 = db\<lparr>servo_left := sl\<rparr> in
        if rc < 0 then (rc, [], db1, st, g1)
        else
          case db_servo_update (ev_read_right e) now_us (servo_right db1) g1 of (rc', sr, g2) \<Rightarrow>
            let db2 = db1\<lparr>servo_right := sr\<rparr> in
            if rc' < 0 then (rc', [], db2, st, g2)
            else
              case db_drivebase_capture_start_heading (ev_imu e) now_us False db2 of (s, db3) \<Rightarrow>
                let db4 = db3\<lparr>last_tick_us := now_us\<rparr>;
                    (out_d, cd) = db_aggregate_control_update st
                      (now_us, distance_x_mdeg s, distance_v_mdegps s, db_tick_ms db4) (control_distance db4);
                    (out_h, ch) = db_aggregate_control_update st
                      (now_us, heading_x_mdeg s, heading_v_mdegps s, db_tick_ms db4) (control_heading db4);
                    (cmds, db5, st', g3) = db_actuate e now_us s out_d out_h
                      (db4\<lparr>control_distance := cd, control_heading := ch\<rparr>) st g2 in
                (0, cmds, db_publish out_d out_h db5, st', g3))"

definition db_drivebase_get_state :: "db_drivebase_s \<Rightarrow> drivebase_state_s" where
  "db_drivebase_get_state db =
     \<lparr>ds_distance_mm = distance_mm db, ds_drive_speed_mmps = drive_speed_mmps db, ds_angle_mdeg = angle_mdeg db,
      ds_turn_rate_dps = turn_rate_dps db, ds_tick_seq = 0, ds_is_done = db_done db,
      ds_is_stalled = db_stalled db, ds_active_command = active_command db, ds_actuation_fault = 0\<rparr>"

definition db_drivebase_is_done :: "db_drivebase_s \<Rightarrow> bool" where
  "db_drivebase_is_done db = db_done db"

section \<open>Driving a servo and both servos\<close>

definition servo_cmd :: "db_side_e \<Rightarrow> int \<Rightarrow> int \<Rightarrow> db_motor_module \<Rightarrow> motor_cmd" where
  "servo_cmd side duty actuation g =
     (if actuation = DRIVEBASE_ON_COMPLETION_COAST \<or> actuation = DRIVEBASE_ON_COMPLETION_COAST_SMART
      then Motor_Coast side
      else if actuation = DRIVEBASE_ON_COMPLETION_BRAKE \<or> actuation = DRIVEBASE_ON_COMPLETION_BRAKE_SMART
      then Motor_Brake side
      else Set_Pwm side (clamp_duty duty * db_side_sign g side))"

definition after_ioctl :: "int \<Rightarrow> db_side_e \<Rightarrow> db_motor_module \<Rightarrow> db_motor_module" where
  "after_ioctl ioc side g = (if ioc < 0 then drivebase_motor_request_reclaim side g else g)"

lemma request_reclaim_frame [simp]:
  "g_initialised (drivebase_motor_request_reclaim side g) = g_initialised g"
  "cfg_invert_left (drivebase_motor_request_reclaim side g) = cfg_invert_left g"
  "db_side_sign (drivebase_motor_request_reclaim side g) side' = db_side_sign g side'"
  by (cases side; simp add: drivebase_motor_request_reclaim_def db_side_sign_def)+

lemma after_ioctl_frame [simp]:
  "g_initialised (after_ioctl ioc side g) = g_initialised g"
  "db_side_sign (after_ioctl ioc side g) side' = db_side_sign g side'"
  by (simp_all add: after_ioctl_def)

lemma request_pending [simp]: "drivebase_motor_reclaim_pending (drivebase_motor_request_reclaim side g) \<noteq> 0"
  by (cases side) (simp_all add: drivebase_motor_request_reclaim_def drivebase_motor_reclaim_pending_def)

lemma servo_apply_eq:
  assumes "g_initialised g"
  shows "fst (snd (db_servo_apply ioc duty actuation s g)) = [servo_cmd (sv_side s) duty actuation g]"
    and "snd (snd (snd (db_servo_apply ioc duty actuation s g))) = after_ioctl ioc (sv_side s) g"
proof -
  have c: "\<bar>clamp_duty duty\<bar> \<le> 10000" by (auto simp: clamp_duty_def)
  then have sd: "drivebase_motor_set_duty ioc (sv_side s) (clamp_duty duty) g =
      (if ioc < 0 then ioc else 0, [Set_Pwm (sv_side s) (clamp_duty duty * db_side_sign g (sv_side s))],
       after_ioctl ioc (sv_side s) g)"
    using set_duty_cases [OF assms, of ioc "sv_side s" "clamp_duty duty"] by (auto simp: after_ioctl_def)
  have coast: "drivebase_motor_coast ioc (sv_side s) g =
      (if ioc < 0 then ioc else 0, [Motor_Coast (sv_side s)], after_ioctl ioc (sv_side s) g)"
    and brake: "drivebase_motor_brake ioc (sv_side s) g =
      (if ioc < 0 then ioc else 0, [Motor_Brake (sv_side s)], after_ioctl ioc (sv_side s) g)"
    using assms by (simp_all add: drivebase_motor_coast_def drivebase_motor_brake_def after_ioctl_def)
  show "fst (snd (db_servo_apply ioc duty actuation s g)) = [servo_cmd (sv_side s) duty actuation g]"
    and "snd (snd (snd (db_servo_apply ioc duty actuation s g))) = after_ioctl ioc (sv_side s) g"
    unfolding db_servo_apply_def drivebase_motor_is_initialised_def servo_cmd_def Let_def sd coast brake
    using assms by simp_all
qed

lemma servo_apply_frame [simp]:
  defines "s' ioc duty actuation s g \<equiv> fst (snd (snd (db_servo_apply ioc duty actuation s g)))"
  shows "sv_side (s' ioc duty actuation s g) = sv_side s"
    and "x_actual_mdeg (s' ioc duty actuation s g) = x_actual_mdeg s"
    and "v_estimate_mdegps (s' ioc duty actuation s g) = v_estimate_mdegps s"
    and "sv_observer (s' ioc duty actuation s g) = sv_observer s"
  by (simp_all add: s'_def db_servo_apply_def Let_def split_beta)

text \<open>The wheels are mounted where their servos say.\<close>

definition sides_ok :: "db_drivebase_s \<Rightarrow> bool" where
  "sides_ok db \<longleftrightarrow> sv_side (servo_left db) = DB_SIDE_LEFT \<and> sv_side (servo_right db) = DB_SIDE_RIGHT"

definition both_cmds :: "int \<Rightarrow> int \<Rightarrow> int \<Rightarrow> db_motor_module \<Rightarrow> motor_cmd list" where
  "both_cmds duty_l duty_r actuation g =
     [servo_cmd DB_SIDE_LEFT duty_l actuation g, servo_cmd DB_SIDE_RIGHT duty_r actuation g]"

lemma apply_both_eq:
  assumes "g_initialised g" "sides_ok db"
  shows "fst (apply_both ioc_l ioc_r duty_l duty_r actuation db g) = both_cmds duty_l duty_r actuation g"
    and "snd (snd (apply_both ioc_l ioc_r duty_l duty_r actuation db g)) =
      after_ioctl ioc_r DB_SIDE_RIGHT (after_ioctl ioc_l DB_SIDE_LEFT g)"
  using assms
  by (simp_all add: apply_both_def split_beta servo_apply_eq sides_ok_def both_cmds_def servo_cmd_def)

text \<open>Driving the servos changes only what they record about the last actuation.\<close>

definition same_but_applied :: "db_drivebase_s \<Rightarrow> db_drivebase_s \<Rightarrow> bool" where
  "same_but_applied db db' \<longleftrightarrow>
     db'\<lparr>servo_left := servo_left db, servo_right := servo_right db\<rparr> = db \<and>
     x_actual_mdeg (servo_left db') = x_actual_mdeg (servo_left db) \<and>
     x_actual_mdeg (servo_right db') = x_actual_mdeg (servo_right db) \<and> (sides_ok db \<longrightarrow> sides_ok db')"

lemma apply_both_frame: "same_but_applied db (fst (snd (apply_both ioc_l ioc_r duty_l duty_r actuation db g)))"
  by (simp add: apply_both_def split_beta same_but_applied_def sides_ok_def)

section \<open>The shape of a tick\<close>

lemma servo_update_frame:
  assumes "g_initialised g"
  shows "fst (db_servo_update rd now_us s g) = 0"
    and "g_initialised (snd (snd (db_servo_update rd now_us s g)))"
    and "sv_side (fst (snd (db_servo_update rd now_us s g))) = sv_side s"
proof -
  obtain dr out g1 where d: "drivebase_motor_drain rd (sv_side s) g = (dr, out, g1)"
    by (cases "drivebase_motor_drain rd (sv_side s) g") auto
  note f = drain_frame [OF d]
  have gate: "sv_side (servo_gate sm da s) = sv_side s" for sm da
    by (simp add: servo_gate_def Let_def)
  show "fst (db_servo_update rd now_us s g) = 0"
    "g_initialised (snd (snd (db_servo_update rd now_us s g)))"
    "sv_side (fst (snd (db_servo_update rd now_us s g))) = sv_side s"
    using assms f
    by (simp_all add: db_servo_update_def d drivebase_motor_is_initialised_def Let_def split_beta gate
        split: option.splits)
qed

text \<open>
  A tick on initialised motors: sensing, the two control laws, actuation and publication.
\<close>

lemma capture_frame [simp]:
  "servo_left (snd (db_drivebase_capture_start_heading imu now_us l db)) = servo_left db"
  "servo_right (snd (db_drivebase_capture_start_heading imu now_us l db)) = servo_right db"
  "control_distance (snd (db_drivebase_capture_start_heading imu now_us l db)) = control_distance db"
  "control_heading (snd (db_drivebase_capture_start_heading imu now_us l db)) = control_heading db"
  "snd (db_drivebase_capture_start_heading imu now_us False db) = db"
  by (simp_all add: db_drivebase_capture_start_heading_def db_drivebase_latch_use_gyro_def Let_def)

definition sensed :: "db_env \<Rightarrow> int \<Rightarrow> db_drivebase_s \<Rightarrow> db_motor_module \<Rightarrow> db_drivebase_s \<times> db_motor_module" where
  "sensed e now_us db g =
     (let (_, sl, g1) = db_servo_update (ev_read_left e) now_us (servo_left db) g;
          (_, sr, g2) = db_servo_update (ev_read_right e) now_us (servo_right db) g1 in
      (db\<lparr>servo_left := sl, servo_right := sr, last_tick_us := now_us\<rparr>, g2))"

definition tick_state :: "db_env \<Rightarrow> int \<Rightarrow> db_drivebase_s \<Rightarrow> db_agg_state_s" where
  "tick_state e now_us db = fst (db_drivebase_capture_start_heading (ev_imu e) now_us False db)"

definition tick_distance :: "db_env \<Rightarrow> int \<Rightarrow> db_settings \<Rightarrow> db_drivebase_s \<Rightarrow> db_aggregate_output_s \<times> db_aggregate_control_s" where
  "tick_distance e now_us st db =
     db_aggregate_control_update st (now_us, distance_x_mdeg (tick_state e now_us db),
       distance_v_mdegps (tick_state e now_us db), db_tick_ms db) (control_distance db)"

definition tick_heading :: "db_env \<Rightarrow> int \<Rightarrow> db_settings \<Rightarrow> db_drivebase_s \<Rightarrow> db_aggregate_output_s \<times> db_aggregate_control_s" where
  "tick_heading e now_us st db =
     db_aggregate_control_update st (now_us, heading_x_mdeg (tick_state e now_us db),
       heading_v_mdegps (tick_state e now_us db), db_tick_ms db) (control_heading db)"

definition controlled :: "db_env \<Rightarrow> int \<Rightarrow> db_settings \<Rightarrow> db_drivebase_s \<Rightarrow> db_drivebase_s" where
  "controlled e now_us st db =
     db\<lparr>control_distance := snd (tick_distance e now_us st db), control_heading := snd (tick_heading e now_us st db)\<rparr>"

lemma capture_tick_irrelevant [simp]:
  "fst (db_drivebase_capture_start_heading imu now_us False (db\<lparr>last_tick_us := t\<rparr>)) =
   fst (db_drivebase_capture_start_heading imu now_us False db)"
  by (simp add: db_drivebase_capture_start_heading_def collect_aggregate_state_def Let_def)

lemma update_eq:
  assumes "g_initialised g"
  shows "db_drivebase_update e now_us db st g =
    (let (db1, g1) = sensed e now_us db g;
         out_d = fst (tick_distance e now_us st db1); out_h = fst (tick_heading e now_us st db1);
         (cmds, db2, st', g2) = db_actuate e now_us (tick_state e now_us db1) out_d out_h
           (controlled e now_us st db1) st g1 in
     (0, cmds, db_publish out_d out_h db2, st', g2))"
proof -
  let ?L = "db_servo_update (ev_read_left e) now_us (servo_left db) g"
  let ?R = "db_servo_update (ev_read_right e) now_us (servo_right db) (snd (snd ?L))"
  have "fst ?L = 0" "fst ?R = 0"
    using servo_update_frame(1,2) [OF assms] servo_update_frame(1) by auto
  then show ?thesis
    by (simp add: db_drivebase_update_def sensed_def tick_state_def tick_distance_def tick_heading_def
        controlled_def split_beta Let_def)
qed
lemma sensed_frame:
  assumes "g_initialised g" "sensed e now_us db g = (db1, g1)"
  shows "g_initialised g1" and "sides_ok db \<Longrightarrow> sides_ok db1"
    and "control_distance db1 = control_distance db" and "control_heading db1 = control_heading db"
  using assms servo_update_frame [OF assms(1)] servo_update_frame(2,3) [OF servo_update_frame(2) [OF assms(1)]]
  by (auto simp: sensed_def split_beta Let_def sides_ok_def)

section \<open>Wheels that are not driven\<close>

fun cmd_side :: "motor_cmd \<Rightarrow> db_side_e" where
  "cmd_side (Set_Pwm side d) = side"
| "cmd_side (Motor_Coast side) = side"
| "cmd_side (Motor_Brake side) = side"

text \<open>What a wheel was told last, and that it is not a duty.\<close>

definition last_cmd :: "db_side_e \<Rightarrow> motor_cmd list \<Rightarrow> motor_cmd option" where
  "last_cmd side cmds = (case rev (filter (\<lambda>c. cmd_side c = side) cmds) of [] \<Rightarrow> None | c # _ \<Rightarrow> Some c)"

definition released :: "motor_cmd list \<Rightarrow> bool" where
  "released cmds \<longleftrightarrow>
     (last_cmd DB_SIDE_LEFT cmds = Some (Motor_Coast DB_SIDE_LEFT) \<or> last_cmd DB_SIDE_LEFT cmds = Some (Motor_Brake DB_SIDE_LEFT)) \<and>
     (last_cmd DB_SIDE_RIGHT cmds = Some (Motor_Coast DB_SIDE_RIGHT) \<or> last_cmd DB_SIDE_RIGHT cmds = Some (Motor_Brake DB_SIDE_RIGHT))"

definition full_duty :: "motor_cmd list \<Rightarrow> bool" where
  "full_duty = list_all (\<lambda>c. case c of Set_Pwm side d \<Rightarrow> \<bar>d\<bar> \<le> 10000 | _ \<Rightarrow> True)"

definition coast_both :: "motor_cmd list" where
  "coast_both = [Motor_Coast DB_SIDE_LEFT, Motor_Coast DB_SIDE_RIGHT]"

definition brake_both :: "motor_cmd list" where
  "brake_both = [Motor_Brake DB_SIDE_LEFT, Motor_Brake DB_SIDE_RIGHT]"

lemma both_cmds_passive [simp]:
  "both_cmds dl dr DRIVEBASE_ON_COMPLETION_COAST g = coast_both"
  "both_cmds dl dr DRIVEBASE_ON_COMPLETION_BRAKE g = brake_both"
  by (simp_all add: both_cmds_def servo_cmd_def coast_both_def brake_both_def completion_defs)

lemma both_cmds_duty:
  "both_cmds dl dr DRIVEBASE_ON_COMPLETION_HOLD g =
     [Set_Pwm DB_SIDE_LEFT (clamp_duty dl * db_side_sign g DB_SIDE_LEFT),
      Set_Pwm DB_SIDE_RIGHT (clamp_duty dr * db_side_sign g DB_SIDE_RIGHT)]"
  by (simp add: both_cmds_def servo_cmd_def completion_defs)

lemma released_passive [simp]:
  "released coast_both" "released brake_both" "released (xs @ coast_both)" "full_duty coast_both" "full_duty brake_both"
  "full_duty []"
  "full_duty (xs @ ys) \<longleftrightarrow> full_duty xs \<and> full_duty ys"
  by (simp_all add: released_def last_cmd_def coast_both_def brake_both_def full_duty_def)

lemma full_duty_both [simp]: "full_duty (both_cmds dl dr DRIVEBASE_ON_COMPLETION_HOLD g)"
  by (auto simp: both_cmds_duty full_duty_def clamp_duty_def db_side_sign_def)

lemma propagate_cases: "db_propagate out_d out_h = 0 \<or> db_propagate out_d out_h = DRIVEBASE_ON_COMPLETION_BRAKE"
  by (simp add: db_propagate_def completion_defs)

lemma pending_after_ioctl:
  "drivebase_motor_reclaim_pending (after_ioctl ioc side g) \<noteq> 0 \<longleftrightarrow>
     ioc < 0 \<or> drivebase_motor_reclaim_pending g \<noteq> 0"
  by (simp add: after_ioctl_def)

lemma stop_brake_settings:
  "snd (snd (db_aggregate_control_stop now_us x DRIVEBASE_ON_COMPLETION_BRAKE ctl st)) = st"
  by (simp add: db_aggregate_control_stop_def Let_def completion_defs)

lemma same_trans: "same_but_applied a b \<Longrightarrow> same_but_applied b c \<Longrightarrow> same_but_applied a c"
proof -
  assume ab: "same_but_applied a b" and bc: "same_but_applied b c"
  have "c\<lparr>servo_left := servo_left a, servo_right := servo_right a\<rparr> =
      c\<lparr>servo_left := servo_left b, servo_right := servo_right b\<rparr>\<lparr>servo_left := servo_left a, servo_right := servo_right a\<rparr>"
    by simp
  also have "\<dots> = b\<lparr>servo_left := servo_left a, servo_right := servo_right a\<rparr>"
    using bc by (simp only: same_but_applied_def)
  also have "\<dots> = a" using ab by (simp only: same_but_applied_def)
  finally show ?thesis using ab bc by (simp add: same_but_applied_def)
qed

text \<open>The three ways a tick actuates.\<close>

lemma actuate_cases:
  assumes "g_initialised g" "sides_ok db"
  obtains (fault) db' g' where "db_actuate e now_us s out_d out_h db st g = (coast_both, db', st, g')"
      "drivebase_motor_reclaim_pending g \<noteq> 0" "same_but_applied db db'"
      "g' = after_ioctl (ev_ioc_right e) DB_SIDE_RIGHT (after_ioctl (ev_ioc_left e) DB_SIDE_LEFT g)"
  | (brake) db' g' where "db_actuate e now_us s out_d out_h db st g = (brake_both, db', st, g')"
      "drivebase_motor_reclaim_pending g = 0" "db_propagate out_d out_h = DRIVEBASE_ON_COMPLETION_BRAKE"
      "same_but_applied (db\<lparr>control_distance := fst (snd (db_aggregate_control_stop now_us (distance_x_mdeg s)
          DRIVEBASE_ON_COMPLETION_BRAKE (control_distance db) st)),
        control_heading := fst (snd (db_aggregate_control_stop now_us (heading_x_mdeg s)
          DRIVEBASE_ON_COMPLETION_BRAKE (control_heading db) st))\<rparr>) db'"
      "g' = after_ioctl (ev_ioc_right e) DB_SIDE_RIGHT (after_ioctl (ev_ioc_left e) DB_SIDE_LEFT g)"
  | (drive) dl dr db1 db' more g' where "db_actuate e now_us s out_d out_h db st g =
        (both_cmds dl dr DRIVEBASE_ON_COMPLETION_HOLD g @ more, db', st, g')"
      "drivebase_motor_reclaim_pending g = 0" "db_propagate out_d out_h = 0"
      "compose_duty st (ev_vbat_mv e) out_d out_h db = (dl, dr, db1)" "same_but_applied db1 db'"
      "more = (if drivebase_motor_reclaim_pending g' \<noteq> 0 then coast_both else [])" "g_initialised g'"
proof -
  have pend: "drivebase_motor_reclaim_pending
      (after_ioctl r DB_SIDE_RIGHT (after_ioctl l DB_SIDE_LEFT g)) \<noteq> 0 \<longleftrightarrow>
      l < 0 \<or> r < 0 \<or> drivebase_motor_reclaim_pending g \<noteq> 0" for l r
    by (auto simp: pending_after_ioctl)
  consider (f) "drivebase_motor_reclaim_pending g \<noteq> 0"
    | (b) "drivebase_motor_reclaim_pending g = 0" "db_propagate out_d out_h = DRIVEBASE_ON_COMPLETION_BRAKE"
    | (d) "drivebase_motor_reclaim_pending g = 0" "db_propagate out_d out_h = 0"
    using propagate_cases by blast
  then show thesis
  proof cases
    case f
    show thesis
      by (rule fault [OF _ f apply_both_frame refl])
        (use f assms in \<open>simp add: db_actuate_def split_beta apply_both_eq\<close>)
  next
    case b
    let ?db = "db\<lparr>control_distance := fst (snd (db_aggregate_control_stop now_us (distance_x_mdeg s)
          DRIVEBASE_ON_COMPLETION_BRAKE (control_distance db) st)),
        control_heading := fst (snd (db_aggregate_control_stop now_us (heading_x_mdeg s)
          DRIVEBASE_ON_COMPLETION_BRAKE (control_heading db) st))\<rparr>"
    have s: "sides_ok ?db" using assms(2) by (simp add: sides_ok_def)
    have nz: "DRIVEBASE_ON_COMPLETION_BRAKE \<noteq> 0" by (simp add: completion_defs)
    show thesis
      by (rule brake [OF _ b apply_both_frame refl])
        (use b assms(1) s nz in \<open>simp add: db_actuate_def split_beta apply_both_eq stop_brake_settings\<close>)
  next
    case d
    obtain dl dr db1 where c: "compose_duty st (ev_vbat_mv e) out_d out_h db = (dl, dr, db1)"
      by (cases "compose_duty st (ev_vbat_mv e) out_d out_h db") auto
    then have s: "sides_ok db1" using assms(2) by (auto simp: compose_duty_def Let_def split_beta sides_ok_def)
    let ?g1 = "after_ioctl (ev_ioc_right e) DB_SIDE_RIGHT (after_ioctl (ev_ioc_left e) DB_SIDE_LEFT g)"
    obtain db2 where A: "apply_both (ev_ioc_left e) (ev_ioc_right e) dl dr DRIVEBASE_ON_COMPLETION_HOLD db1 g =
        (both_cmds dl dr DRIVEBASE_ON_COMPLETION_HOLD g, db2, ?g1)" "same_but_applied db1 db2"
      using apply_both_eq [OF assms(1) s] apply_both_frame by (metis prod.collapse)
    have g1: "g_initialised ?g1" using assms(1) by simp
    have s2: "sides_ok db2" using A(2) s by (simp add: same_but_applied_def)
    show thesis
    proof (cases "ev_ioc_left e < 0 \<or> ev_ioc_right e < 0")
      case True
      let ?g2 = "after_ioctl (ev_ioc2_right e) DB_SIDE_RIGHT (after_ioctl (ev_ioc2_left e) DB_SIDE_LEFT ?g1)"
      obtain db3 where B: "apply_both (ev_ioc2_left e) (ev_ioc2_right e) 0 0 DRIVEBASE_ON_COMPLETION_COAST db2 ?g1 =
          (coast_both, db3, ?g2)" "same_but_applied db2 db3"
        using apply_both_eq [OF g1 s2, of _ _ 0 0 DRIVEBASE_ON_COMPLETION_COAST] apply_both_frame [of db2]
        by (metis both_cmds_passive(1) prod.collapse)
      have p: "drivebase_motor_reclaim_pending ?g1 \<noteq> 0" using pend True by blast
      have "db_actuate e now_us s out_d out_h db st g =
          (both_cmds dl dr DRIVEBASE_ON_COMPLETION_HOLD g @ coast_both, db3, st, ?g2)"
        using d c A(1) B(1) p by (simp add: db_actuate_def)
      then show thesis
        by (rule drive [OF _ d c same_trans [OF A(2) B(2)]])
          (use p assms(1) in \<open>simp_all add: pending_after_ioctl\<close>)
    next
      case False
      have g: "?g1 = g" using False by (simp add: after_ioctl_def)
      have "db_actuate e now_us s out_d out_h db st g =
          (both_cmds dl dr DRIVEBASE_ON_COMPLETION_HOLD g @ [], db2, st, g)"
        using d c A(1) unfolding g by (simp add: db_actuate_def)
      then show thesis
        by (rule drive [OF _ d c A(2)]) (use False d assms(1) in simp_all)
    qed
  qed
qed

section \<open>Holding while a fault is pending, and after braking\<close>

type_synonym robot = "db_drivebase_s \<times> db_settings \<times> db_motor_module"

definition db_tick :: "db_env \<times> int \<Rightarrow> robot \<Rightarrow> motor_cmd list \<times> robot" where
  "db_tick en r = (case en of (e, now_us) \<Rightarrow> case r of (db, st, g) \<Rightarrow> snd (db_drivebase_update e now_us db st g))"

definition robot_ok :: "robot \<Rightarrow> bool" where
  "robot_ok r = (case r of (db, st, g) \<Rightarrow> g_initialised g \<and> sides_ok db)"

definition faulted :: "robot \<Rightarrow> bool" where
  "faulted r = (case r of (db, st, g) \<Rightarrow> drivebase_motor_reclaim_pending g \<noteq> 0)"

definition braked :: "db_aggregate_control_s \<Rightarrow> bool" where
  "braked ctl \<longleftrightarrow> stopped ctl \<and> latched_actuation (ag_pid ctl) = DRIVEBASE_ON_COMPLETION_BRAKE"

definition robot_braked :: "robot \<Rightarrow> bool" where
  "robot_braked r = (case r of (db, st, g) \<Rightarrow> braked (control_distance db) \<and> braked (control_heading db))"

lemma set_motor_pending [simp]:
  "drivebase_motor_reclaim_pending (set_motor side m g) = drivebase_motor_reclaim_pending g"
  by (cases side) (simp_all add: set_motor_def drivebase_motor_reclaim_pending_def)

lemma drain_pending:
  assumes "drivebase_motor_reclaim_pending g \<noteq> 0"
  shows "drivebase_motor_reclaim_pending (snd (snd (drivebase_motor_drain rd side g))) \<noteq> 0"
  using assms by (simp add: drivebase_motor_drain_def Let_def split_beta split: sum.splits option.splits)

lemma servo_update_pending:
  assumes "drivebase_motor_reclaim_pending g \<noteq> 0"
  shows "drivebase_motor_reclaim_pending (snd (snd (db_servo_update rd now_us s g))) \<noteq> 0"
  using assms drain_pending [OF assms, of rd "sv_side s"]
  by (simp add: db_servo_update_def Let_def split_beta)

lemma sensed_pending:
  assumes "drivebase_motor_reclaim_pending g \<noteq> 0" "sensed e now_us db g = (db1, g1)"
  shows "drivebase_motor_reclaim_pending g1 \<noteq> 0"
  using assms(2) servo_update_pending [OF servo_update_pending [OF assms(1)]]
  by (auto simp: sensed_def Let_def split_beta)

lemma publish_frame [simp]:
  "servo_left (db_publish out_d out_h db) = servo_left db" "servo_right (db_publish out_d out_h db) = servo_right db"
  "control_distance (db_publish out_d out_h db) = control_distance db"
  "control_heading (db_publish out_d out_h db) = control_heading db"
  "sides_ok (db_publish out_d out_h db) = sides_ok db"
  by (simp_all add: db_publish_def Let_def sides_ok_def)

lemma compose_frame:
  assumes "compose_duty st vbat out_d out_h db = (dl, dr, db1)"
  shows "control_distance db1 = control_distance db" "control_heading db1 = control_heading db"
    "sides_ok db1 = sides_ok db" "servo_left db1 = servo_left db" "servo_right db1 = servo_right db"
  using assms by (auto simp: compose_duty_def Let_def split_beta sides_ok_def)

lemma same_frame:
  assumes "same_but_applied db db'"
  shows "control_distance db' = control_distance db" "control_heading db' = control_heading db"
    "sides_ok db \<Longrightarrow> sides_ok db'"
proof -
  have "control_distance (db'\<lparr>servo_left := servo_left db, servo_right := servo_right db\<rparr>) = control_distance db"
    "control_heading (db'\<lparr>servo_left := servo_left db, servo_right := servo_right db\<rparr>) = control_heading db"
    using assms by (simp_all only: same_but_applied_def)
  then show "control_distance db' = control_distance db" "control_heading db' = control_heading db" by simp_all
  show "sides_ok db \<Longrightarrow> sides_ok db'" using assms by (simp add: same_but_applied_def)
qed

text \<open>A tick of a sound robot, in the three ways it actuates.\<close>

lemma tick_cases:
  assumes "robot_ok (db, st, g)"
  obtains (fault) db1 g1 db' g' where "db_tick (e, now_us) (db, st, g) = (coast_both, db', st, g')"
      "robot_ok (db', st, g')" "faulted (db', st, g')" "sensed e now_us db g = (db1, g1)"
      "control_distance db' = snd (tick_distance e now_us st db1)"
      "control_heading db' = snd (tick_heading e now_us st db1)"
  | (brake) db1 g1 db' g' where "db_tick (e, now_us) (db, st, g) = (brake_both, db', st, g')"
      "robot_ok (db', st, g')" "\<not> faulted (db, st, g)" "robot_braked (db', st, g')"
      "sensed e now_us db g = (db1, g1)"
      "db_propagate (fst (tick_distance e now_us st db1)) (fst (tick_heading e now_us st db1)) =
         DRIVEBASE_ON_COMPLETION_BRAKE"
  | (drive) dl dr db1 g1 out_d out_h db2 more db' g' where
      "db_tick (e, now_us) (db, st, g) = (both_cmds dl dr DRIVEBASE_ON_COMPLETION_HOLD g1 @ more, db', st, g')"
      "robot_ok (db', st, g')" "\<not> faulted (db, st, g)" "sensed e now_us db g = (db1, g1)"
      "out_d = fst (tick_distance e now_us st db1)" "out_h = fst (tick_heading e now_us st db1)"
      "db_propagate out_d out_h = 0"
      "compose_duty st (ev_vbat_mv e) out_d out_h (controlled e now_us st db1) = (dl, dr, db2)"
      "control_distance db' = snd (tick_distance e now_us st db1)"
      "control_heading db' = snd (tick_heading e now_us st db1)"
      "more = (if faulted (db', st, g') then coast_both else [])"
proof -
  have i: "g_initialised g" and s: "sides_ok db" using assms by (simp_all add: robot_ok_def)
  obtain db1 g1 where sen: "sensed e now_us db g = (db1, g1)" by (cases "sensed e now_us db g")
  note sf = sensed_frame [OF i sen]
  define out_d where "out_d = fst (tick_distance e now_us st db1)"
  define out_h where "out_h = fst (tick_heading e now_us st db1)"
  let ?db = "controlled e now_us st db1"
  have sc: "sides_ok ?db" using sf(2) [OF s] by (simp add: controlled_def sides_ok_def)
  have tick: "db_tick (e, now_us) (db, st, g) = (cmds, db_publish out_d out_h db2, st', g2)"
    if "db_actuate e now_us (tick_state e now_us db1) out_d out_h ?db st g1 = (cmds, db2, st', g2)" for cmds db2 st' g2
    using that update_eq [OF i, of e now_us db st] sen by (simp add: db_tick_def out_d_def out_h_def Let_def)
  show thesis
  proof (cases rule: actuate_cases [OF sf(1) sc, of e now_us "tick_state e now_us db1" out_d out_h st])
    case (1 db' g')
    then show thesis
      using same_frame(3) [OF 1(3) sc] sf(1) pending_after_ioctl
      by (intro fault [OF tick [OF 1(1)] _ _ sen])
        (auto simp: robot_ok_def faulted_def same_frame(1,2) [OF 1(3)] controlled_def)
  next
    case (2 db' g')
    have "drivebase_motor_reclaim_pending g = 0" using sensed_pending [OF _ sen] 2(2) by blast
    moreover have "braked (control_distance db')" "braked (control_heading db')"
      using passive_stop [of DRIVEBASE_ON_COMPLETION_BRAKE] same_frame(1,2) [OF 2(4)]
      by (simp_all add: braked_def completion_defs)
    moreover have "sides_ok db'" using same_frame(3) [OF 2(4)] sc by (simp add: sides_ok_def)
    ultimately show thesis
      using sf(1) 2(3,5)
      by (intro brake [OF tick [OF 2(1)] _ _ _ sen])
        (auto simp: robot_ok_def faulted_def robot_braked_def out_d_def out_h_def)
  next
    case (3 dl dr db2 db' more g')
    have "drivebase_motor_reclaim_pending g = 0" using sensed_pending [OF _ sen] 3(2) by blast
    moreover note cf = compose_frame [OF 3(4)] and mf = same_frame [OF 3(5)]
    ultimately show thesis
      using sc 3(6,7) cf(3) mf(3)
      by (intro drive [OF tick [OF 3(1)] _ _ sen out_d_def out_h_def 3(3,4)])
        (auto simp: robot_ok_def faulted_def cf(1,2) mf(1,2) controlled_def)
  qed
qed

interpretation fault_hold: held_system db_tick "\<lambda>r. robot_ok r \<and> faulted r" "\<lambda>cmds. cmds = coast_both"
proof (unfold_locales, elim conjE)
  fix r :: robot and en :: "db_env \<times> int"
  assume ok: "robot_ok r" and f: "faulted r"
  obtain db st g where r: "r = (db, st, g)" by (cases r)
  obtain e now_us where en: "en = (e, now_us)" by (cases en)
  show "(robot_ok (snd (db_tick en r)) \<and> faulted (snd (db_tick en r))) \<and> fst (db_tick en r) = coast_both"
    using f by (cases rule: tick_cases [OF ok [unfolded r], of e now_us]) (auto simp: r en)
qed

lemma braked_update:
  assumes "braked ctl"
  shows "snd (db_aggregate_control_update st tick ctl) = ctl"
    "ao_actuation (fst (db_aggregate_control_update st tick ctl)) = DRIVEBASE_ON_COMPLETION_BRAKE"
  using assms stopped_update [of ctl st tick] by (simp_all add: braked_def ag_off_output_def)

lemma braked_propagate:
  assumes "braked (control_distance db)" "braked (control_heading db)"
  shows "db_propagate (fst (tick_distance e now_us st db)) (fst (tick_heading e now_us st db)) =
    DRIVEBASE_ON_COMPLETION_BRAKE"
  using assms by (simp add: db_propagate_def tick_distance_def tick_heading_def braked_update completion_defs)

lemma braked_sensed:
  assumes "robot_ok (db, st, g)" "robot_braked (db, st, g)" "sensed e now_us db g = (db1, g1)"
  shows "braked (control_distance db1)" "braked (control_heading db1)"
  using assms sensed_frame(3,4) [OF _ assms(3)] by (simp_all add: robot_braked_def robot_ok_def)

lemma braked_tick:
  assumes "robot_ok (db, st, g)" "robot_braked (db, st, g)"
  shows "robot_ok (snd (db_tick (e, now_us) (db, st, g)))" "robot_braked (snd (db_tick (e, now_us) (db, st, g)))"
    "fst (db_tick (e, now_us) (db, st, g)) = brake_both \<or> fst (db_tick (e, now_us) (db, st, g)) = coast_both"
proof -
  note b = braked_sensed [OF assms]
  have no_drive: "db_propagate (fst (tick_distance e now_us st db1)) (fst (tick_heading e now_us st db1)) \<noteq> 0"
    if "sensed e now_us db g = (db1, g1)" for db1 g1
    using braked_propagate b [OF that] by (simp add: completion_defs)
  show "robot_ok (snd (db_tick (e, now_us) (db, st, g)))"
    by (cases rule: tick_cases [OF assms(1), of e now_us]) simp_all
  show "robot_braked (snd (db_tick (e, now_us) (db, st, g)))"
    by (cases rule: tick_cases [OF assms(1), of e now_us])
      (use b braked_update(1) no_drive in \<open>auto simp: robot_braked_def tick_distance_def tick_heading_def\<close>)
  show "fst (db_tick (e, now_us) (db, st, g)) = brake_both \<or> fst (db_tick (e, now_us) (db, st, g)) = coast_both"
    by (cases rule: tick_cases [OF assms(1), of e now_us]) (use no_drive in auto)
qed

interpretation brake_hold: held_system db_tick "\<lambda>r. robot_ok r \<and> robot_braked r"
    "\<lambda>cmds. cmds = brake_both \<or> cmds = coast_both"
proof (unfold_locales, elim conjE)
  fix r :: robot and en :: "db_env \<times> int"
  assume "robot_ok r" and "robot_braked r"
  then show "(robot_ok (snd (db_tick en r)) \<and> robot_braked (snd (db_tick en r))) \<and>
      (fst (db_tick en r) = brake_both \<or> fst (db_tick en r) = coast_both)"
    using braked_tick by (cases r; cases en) simp
qed

lemma stop_passive:
  assumes "robot_ok (db, st, g)" "oc = DRIVEBASE_ON_COMPLETION_COAST \<or> oc = DRIVEBASE_ON_COMPLETION_BRAKE"
  obtains db' g' where "db_drivebase_stop e now_us oc db st g =
      (0, if oc = DRIVEBASE_ON_COMPLETION_COAST then coast_both else brake_both, db', st, g')"
    "robot_ok (db', st, g')" "stopped (control_distance db')" "stopped (control_heading db')"
    "latched_actuation (ag_pid (control_distance db')) = oc" "latched_actuation (ag_pid (control_heading db')) = oc"
    "faulted (db', st, g') \<longleftrightarrow> faulted (db, st, g) \<or> ev_ioc_left e < 0 \<or> ev_ioc_right e < 0"
proof -
  have i: "g_initialised g" and s: "sides_ok db" using assms(1) by (simp_all add: robot_ok_def)
  let ?s = "fst (db_drivebase_capture_start_heading (ev_imu e) now_us False db)"
  let ?cd = "db_aggregate_control_stop now_us (distance_x_mdeg ?s) oc (control_distance db) st"
  let ?ch = "db_aggregate_control_stop now_us (heading_x_mdeg ?s) oc (control_heading db) st"
  let ?db2 = "db\<lparr>active_command := DRIVEBASE_ACTIVE_STOP, control_distance := fst (snd ?cd), control_heading := fst (snd ?ch)\<rparr>"
  have st: "snd (snd (db_aggregate_control_stop now_us x oc ctl st)) = st" for x ctl
    using assms(2) by (auto simp: db_aggregate_control_stop_def Let_def completion_defs)
  have s2: "sides_ok ?db2" using s by (simp add: sides_ok_def)
  let ?A = "apply_both (ev_ioc_left e) (ev_ioc_right e) 0 0 oc ?db2 g"
  have A: "fst ?A = (if oc = DRIVEBASE_ON_COMPLETION_COAST then coast_both else brake_both)"
    using apply_both_eq(1) [OF i s2, of "ev_ioc_left e" "ev_ioc_right e" 0 0 oc] assms(2) by auto
  have g': "snd (snd ?A) = after_ioctl (ev_ioc_right e) DB_SIDE_RIGHT (after_ioctl (ev_ioc_left e) DB_SIDE_LEFT g)"
    using apply_both_eq(2) [OF i s2] by simp
  have "db_drivebase_stop e now_us oc db st g = (0, fst ?A, fst (snd ?A), st, snd (snd ?A))"
    using assms(2) by (auto simp: db_drivebase_stop_def split_beta Let_def st completion_defs)
  then show thesis
    using passive_stop [of oc] assms(2) same_frame [OF apply_both_frame [of ?db2]] s2 i
    by (intro that [of "fst (snd ?A)" "snd (snd ?A)"])
      (auto simp: A g' robot_ok_def faulted_def pending_after_ioctl completion_defs)
qed

text \<open>
  C17. A port fault never leaves a wheel driven: whatever happens in a tick, no duty beyond 100 percent is
  commanded; if a fault is pending when the tick ends (found before it, found while reading the encoders,
  or caused by a command of this very tick), the last command of either wheel in that tick is a coast or
  a brake; and while the fault is pending every later tick only coasts both wheels.
\<close>

theorem drivebase_fault_safe:
  assumes "robot_ok r"
  shows "let (cmds, r') = db_tick en r in
     full_duty cmds \<and>
     (if faulted r' then released cmds \<and> list_all (\<lambda>cs. cs = coast_both) (run_outputs db_tick ens r') else True)"
proof -
  obtain db st g where r: "r = (db, st, g)" by (cases r)
  obtain e now_us where en: "en = (e, now_us)" by (cases en)
  note run = fault_hold.outputs_safe
  show ?thesis
    by (cases rule: tick_cases [OF assms [unfolded r], of e now_us])
      (auto simp: r en Let_def intro!: run)
qed

definition demo_env :: db_env where
  "demo_env =
     \<lparr>ev_read_left = Inl EAGAIN, ev_read_right = Inr [demo_sample 7 2 [10, 0, 0, 0], (demo_sample 8 0 [])\<lparr>ls_len := 0, ls_type_id := 0\<rparr>],
      ev_ioc_left = 0, ev_ioc_right = 0, ev_ioc2_left = 0, ev_ioc2_right = 0, ev_vbat_mv = 7200,
      ev_imu = \<lparr>im_opened = False, im_calibrated = False, im_heading_mdeg = 0, im_last_drain_ok_us = 0\<rparr>\<rparr>"

definition demo_robot :: robot where
  "demo_robot = (case db_drivebase_init 56000 112000 2 zero_drivebase init_settings of (rc, db, st) \<Rightarrow> (db, st, demo_motors))"

lemma demo_robot_ok: "robot_ok demo_robot"
  by (simp add: demo_robot_def db_drivebase_init_def split_beta Let_def robot_ok_def sides_ok_def db_servo_init_def
      demo_motors_def)

theorem drivebase_fault_safe_witness:
  "let (cmds, r') = db_tick (demo_env, 2000) demo_robot in
   faulted r' \<and> released cmds \<and> run_outputs db_tick [(demo_env, 4000)] r' = [coast_both]"
proof -
  have f: "faulted (snd (db_tick (demo_env, 2000) demo_robot))" by code_simp
  show ?thesis
    using drivebase_fault_safe [OF demo_robot_ok, of "(demo_env, 2000)" "[(demo_env, 4000)]"] f
    by (auto simp: split_beta)
qed

text \<open>
  Fact. A brake holds: a stop with brake brakes both wheels at once, and after it, or after any tick in which
  one axis finished with brake and the robot braked, no tick drives a wheel again, for any readings,
  voltages and driver answers, until a new command arrives: each tick brakes both wheels, or coasts them
  while a port fault is pending.
\<close>

theorem drivebase_brake_final:
  assumes "robot_ok (db, st, g)"
  shows "(let (rc, cmds, r') = db_drivebase_stop e now_us DRIVEBASE_ON_COMPLETION_BRAKE db st g in
      cmds = brake_both \<and> list_all (\<lambda>cs. cs = brake_both \<or> cs = coast_both) (run_outputs db_tick ens r')) \<and>
    (if fst (db_tick en (db, st, g)) = brake_both
     then list_all (\<lambda>cs. cs = brake_both \<or> cs = coast_both) (run_outputs db_tick ens (snd (db_tick en (db, st, g))))
     else True)"
proof -
  obtain e' now' where en: "en = (e', now')" by (cases en)
  obtain db' g' where stop: "db_drivebase_stop e now_us DRIVEBASE_ON_COMPLETION_BRAKE db st g = (0, brake_both, db', st, g')"
      "robot_ok (db', st, g')" "robot_braked (db', st, g')"
    by (rule stop_passive [OF assms, of DRIVEBASE_ON_COMPLETION_BRAKE e now_us])
      (auto simp: completion_defs braked_def robot_braked_def)
  have "robot_ok (snd (db_tick en (db, st, g))) \<and> robot_braked (snd (db_tick en (db, st, g)))"
    if "fst (db_tick en (db, st, g)) = brake_both"
    using that
    by (cases rule: tick_cases [OF assms, of e' now'])
      (auto simp: en coast_both_def brake_both_def both_cmds_duty)
  then show ?thesis using brake_hold.outputs_safe stop by auto
qed

theorem drivebase_brake_final_witness:
  "case demo_robot of (db, st, g) \<Rightarrow>
     let (rc, cmds, r') = db_drivebase_stop demo_env 1000 DRIVEBASE_ON_COMPLETION_BRAKE db st g in
     cmds = brake_both \<and>
     list_all (\<lambda>cs. cs = brake_both \<or> cs = coast_both) (run_outputs db_tick [(demo_env, 2000), (demo_env, 4000)] r')"
proof -
  obtain db st g where d: "demo_robot = (db, st, g)" by (cases demo_robot)
  show ?thesis
    using drivebase_brake_final [OF demo_robot_ok [unfolded d], of demo_env 1000 "[(demo_env, 2000), (demo_env, 4000)]"]
    by (simp add: d)
qed

section \<open>What becomes of a coast\<close>

definition zero_both :: "motor_cmd list" where
  "zero_both = [Set_Pwm DB_SIDE_LEFT 0, Set_Pwm DB_SIDE_RIGHT 0]"

definition robot_coasted :: "robot \<Rightarrow> bool" where
  "robot_coasted r = (case r of (db, st, g) \<Rightarrow>
     stopped (control_distance db) \<and> latched_actuation (ag_pid (control_distance db)) = DRIVEBASE_ON_COMPLETION_COAST \<and>
     stopped (control_heading db) \<and> latched_actuation (ag_pid (control_heading db)) = DRIVEBASE_ON_COMPLETION_COAST \<and>
     0 < v_hyst_enter_mdegps (db_settings_ff_motor_friction st) \<and> 0 < v_hyst_exit_mdegps (db_settings_ff_motor_friction st))"

lemma wheel_duty_off:
  assumes "0 < v_hyst_enter_mdegps (db_settings_ff_motor_friction st)"
    "v_hyst_enter_mdegps (db_settings_ff_motor_friction st) \<le> 100000"
    "0 < v_hyst_exit_mdegps (db_settings_ff_motor_friction st)"
  shows "fst (wheel_duty st vbat 0 0 0 True ff) = 0"
proof -
  have z: "i32 0 = 0" by (simp add: wrap_s_def)
  have "i32 (- v_hyst_enter_mdegps (db_settings_ff_motor_friction st)) = - v_hyst_enter_mdegps (db_settings_ff_motor_friction st)"
    using assms(1,2) by (intro i32_id) auto
  then have "ff_sign_with_hysteresis 0 p (v_hyst_enter_mdegps (db_settings_ff_motor_friction st))
      (v_hyst_exit_mdegps (db_settings_ff_motor_friction st)) = 0" for p
    using assms by (simp add: ff_sign_with_hysteresis_def)
  moreover have "fst (apply_breakaway_floor t 0 0 True ff') = 0" for t ff'
    by (simp add: apply_breakaway_floor_def DB_BREAKAWAY_ERR_DEADBAND_def)
  ultimately show ?thesis
    by (simp add: wheel_duty_def Let_def split_beta z battery_correct_def drivebase_clamp_i32_def)
qed

lemma stopped_compose:
  assumes "robot_coasted (db, st, g)" "settings_ok st"
  shows "fst (compose_duty st vbat (fst (db_aggregate_control_update st t1 (control_distance db)))
      (fst (db_aggregate_control_update st t2 (control_heading db))) db') = 0"
    and "fst (snd (compose_duty st vbat (fst (db_aggregate_control_update st t1 (control_distance db)))
      (fst (db_aggregate_control_update st t2 (control_heading db))) db')) = 0"
proof -
  have z: "i32 0 = 0" "i64 0 = 0" by (simp_all add: wrap_s_def)
  have "v_hyst_enter_mdegps (db_settings_ff_motor_friction st) \<le> 100000"
    using assms(2) by (simp add: settings_ok_def tunables_ok_def friction_ok_def db_settings_ff_motor_friction_def)
  then have w: "fst (wheel_duty st vbat 0 0 0 True ff) = 0" for ff
    using assms(1) by (intro wheel_duty_off) (auto simp: robot_coasted_def)
  show "fst (compose_duty st vbat (fst (db_aggregate_control_update st t1 (control_distance db)))
      (fst (db_aggregate_control_update st t2 (control_heading db))) db') = 0"
    "fst (snd (compose_duty st vbat (fst (db_aggregate_control_update st t1 (control_distance db)))
      (fst (db_aggregate_control_update st t2 (control_heading db))) db')) = 0"
    using assms(1) w
    by (simp_all add: robot_coasted_def stopped_update ag_off_output_def compose_duty_def Let_def split_beta z)
qed

lemma coasted_tick:
  assumes "robot_ok (db, st, g)" "robot_coasted (db, st, g)" "settings_ok st"
  obtains cmds db' g' where "db_tick (e, now_us) (db, st, g) = (cmds, db', st, g')"
    "cmds = zero_both \<or> cmds = coast_both \<or> cmds = zero_both @ coast_both"
    "\<not> faulted (db', st, g') \<Longrightarrow> cmds = zero_both" "robot_ok (db', st, g')" "robot_coasted (db', st, g')"
proof -
  have keep: "robot_coasted (db', st, g')"
    if "sensed e now_us db g = (db1, g1)" "control_distance db' = snd (tick_distance e now_us st db1)"
      "control_heading db' = snd (tick_heading e now_us st db1)" for db1 g1 db' g'
    using that assms(1,2) sensed_frame(3,4) [OF _ that(1)]
    by (simp add: robot_coasted_def robot_ok_def tick_distance_def tick_heading_def stopped_update)
  show thesis
  proof (cases rule: tick_cases [OF assms(1), of e now_us])
    case (1 db1 g1 db' g')
    show thesis by (rule that [OF 1(1)]) (use 1(2,3) keep [OF 1(4-6)] in simp_all)
  next
    case (2 db1 g1 db' g')
    have "db_propagate (fst (tick_distance e now_us st db1)) (fst (tick_heading e now_us st db1)) = 0"
      using assms(1,2) sensed_frame(3,4) [OF _ 2(5)]
      by (simp add: robot_coasted_def robot_ok_def tick_distance_def tick_heading_def stopped_update
          ag_off_output_def db_propagate_def completion_defs)
    then show thesis using 2(6) by (simp add: completion_defs)
  next
    case (3 dl dr db1 g1 out_d out_h db2 more db' g')
    have c: "control_distance db1 = control_distance db" "control_heading db1 = control_heading db"
      using sensed_frame(3,4) [OF _ 3(4)] assms(1) by (simp_all add: robot_ok_def)
    obtain t1 t2 where o: "out_d = fst (db_aggregate_control_update st t1 (control_distance db))"
        "out_h = fst (db_aggregate_control_update st t2 (control_heading db))"
      using 3(5,6) unfolding tick_distance_def tick_heading_def c by blast
    have "dl = 0" "dr = 0"
      using stopped_compose [OF assms(2,3), of "ev_vbat_mv e" t1 t2 "controlled e now_us st db1"] 3(8)
      unfolding o by simp_all
    then have "both_cmds dl dr DRIVEBASE_ON_COMPLETION_HOLD g1 = zero_both"
      by (simp add: both_cmds_duty zero_both_def clamp_duty_def)
    then show thesis
      using 3(1,2,11) keep [OF 3(4,9,10)]
      by (intro that [OF 3(1)]) (auto split: if_splits)
  qed
qed

definition quiet :: "motor_cmd list \<Rightarrow> bool" where
  "quiet cmds \<longleftrightarrow> cmds = zero_both \<or> cmds = coast_both \<or> cmds = zero_both @ coast_both"

interpretation coast_hold: held_system db_tick "\<lambda>r. robot_ok r \<and> robot_coasted r \<and> settings_ok (fst (snd r))" quiet
proof (unfold_locales, elim conjE)
  fix r :: robot and en :: "db_env \<times> int"
  assume a: "robot_ok r" "robot_coasted r" "settings_ok (fst (snd r))"
  obtain db st g where r: "r = (db, st, g)" by (cases r)
  obtain e now_us where en: "en = (e, now_us)" by (cases en)
  obtain cmds db' g' where t: "db_tick (e, now_us) (db, st, g) = (cmds, db', st, g')" "quiet cmds"
    "robot_ok (db', st, g')" "robot_coasted (db', st, g')"
    using coasted_tick [of db st g e now_us] a unfolding r quiet_def fst_conv snd_conv by metis
  show "(robot_ok (snd (db_tick en r)) \<and> robot_coasted (snd (db_tick en r)) \<and> settings_ok (fst (snd (snd (db_tick en r))))) \<and>
      quiet (fst (db_tick en r))"
    using t a(3) by (simp add: r en)
qed

text \<open>
  Fact. A stop with coast releases the wheels only until the next tick. The passive actuation that is to reach
  both wheels is kept in a variable whose value zero also means that there is none, and zero is the code
  of coast; so every later tick takes the closed-loop branch and commands duty zero to both wheels instead
  of releasing them. The duty stays zero (or the wheels are coasted, when a port fault appears), so the
  robot stays put, but it never coasts.
\<close>

theorem drivebase_coast_is_overwritten:
  assumes "robot_ok (db, st, g)" "settings_ok st" "\<not> faulted (db, st, g)" "0 \<le> ev_ioc_left e" "0 \<le> ev_ioc_right e"
    "0 < v_hyst_enter_mdegps (db_settings_ff_motor_friction st)"
    "0 < v_hyst_exit_mdegps (db_settings_ff_motor_friction st)"
  shows "let (rc, cmds, r') = db_drivebase_stop e now_us DRIVEBASE_ON_COMPLETION_COAST db st g;
             (cmds', r'') = db_tick en r' in
     cmds = coast_both \<and> (if faulted r'' then True else cmds' = zero_both) \<and>
     list_all quiet (run_outputs db_tick ens r')"
proof -
  obtain e' now' where en: "en = (e', now')" by (cases en)
  obtain db' g' where s: "db_drivebase_stop e now_us DRIVEBASE_ON_COMPLETION_COAST db st g = (0, coast_both, db', st, g')"
      "robot_ok (db', st, g')" "robot_coasted (db', st, g')"
    by (rule stop_passive [OF assms(1), of DRIVEBASE_ON_COMPLETION_COAST e now_us])
      (use assms in \<open>auto simp: robot_coasted_def\<close>)
  have "list_all quiet (run_outputs db_tick ens (db', st, g'))"
    using coast_hold.outputs_safe s(2,3) assms(2) by simp
  moreover have "\<not> faulted (snd (db_tick en (db', st, g'))) \<longrightarrow> fst (db_tick en (db', st, g')) = zero_both"
    by (rule coasted_tick [OF s(2,3) assms(2), of e' now']) (simp add: en)
  ultimately show ?thesis using s(1) by (auto simp: split_beta)
qed

theorem drivebase_coast_is_overwritten_witness:
  "case demo_robot of (db, st, g) \<Rightarrow>
     let (rc, cmds, r') = db_drivebase_stop demo_env 1000 DRIVEBASE_ON_COMPLETION_COAST db st g;
         (cmds', r'') = db_tick (demo_env\<lparr>ev_read_right := Inl EAGAIN\<rparr>, 2000) r' in
     cmds = coast_both \<and> \<not> faulted r'' \<and> cmds' = zero_both"
proof -
  let ?e = "demo_env\<lparr>ev_read_right := Inl EAGAIN\<rparr>"
  obtain db st g where d: "demo_robot = (db, st, g)" by (cases demo_robot)
  have st: "tunables st = init_tunables" "captured st = None" "g = demo_motors"
    using d by (auto simp: demo_robot_def db_drivebase_init_def db_aggregate_control_init_def Let_def
        init_settings_def split: prod.splits)
  have ok: "settings_ok st" using reach_ok [of "[]"] st by (simp add: settings_ok_def settings_run_def init_settings_def)
  have f: "\<not> faulted (snd (db_tick (?e, 2000)
      (snd (snd (db_drivebase_stop demo_env 1000 DRIVEBASE_ON_COMPLETION_COAST (fst demo_robot)
        (fst (snd demo_robot)) (snd (snd demo_robot)))))))"
    by code_simp
  show ?thesis
    using drivebase_coast_is_overwritten [OF demo_robot_ok [unfolded d] ok, of demo_env 1000 "(?e, 2000)" "[]"] f
    by (auto simp: d st faulted_def demo_motors_def drivebase_motor_reclaim_pending_def demo_env_def
        db_settings_ff_motor_friction_def init_defs split_beta)
qed

end
