(* ===== verification/Db_Drive_Laws.thy ===== *)
theory Db_Drive_Laws
  imports Db_Drivebase
begin

text \<open>
  Laws of the drivebase over whole histories: the one-shot breakaway of a wheel, the invariant that every
  sequence of commands, ticks and settings operations keeps, the heading source of a motion, and the origin
  of the published pose.
\<close>

section \<open>The terminal breakaway\<close>

text \<open>
  The ticks after the trajectory has ended, each with the composed duty and the wheel error; a kick is the
  direction in which the floor raised the duty, or zero.
\<close>

fun breakaway_run :: "int \<Rightarrow> (int \<times> int) list \<Rightarrow> db_ff_state_s \<Rightarrow> int list \<times> db_ff_state_s" where
  "breakaway_run t [] ff = ([], ff)"
| "breakaway_run t ((pre, err) # xs) ff =
     (case apply_breakaway_floor t pre err True ff of (out, ff1) \<Rightarrow>
        case breakaway_run t xs ff1 of (ks, ff2) \<Rightarrow> ((if out = pre then 0 else sgn out) # ks, ff2))"

lemma floor_step:
  assumes "0 < t"
  obtains (none) ff1 where "apply_breakaway_floor t pre err True ff = (pre, ff1)"
      "breakaway_sign ff1 = breakaway_sign ff" "breakaway_consumed ff \<Longrightarrow> breakaway_consumed ff1"
      "breakaway_sign ff \<noteq> 0 \<Longrightarrow>
         breakaway_sign ff * err \<le> DB_BREAKAWAY_ERR_DEADBAND \<Longrightarrow> breakaway_consumed ff1"
  | (kick) s where "apply_breakaway_floor t pre err True ff = (s * t, ff\<lparr>breakaway_sign := s\<rparr>)"
      "s = 1 \<or> s = - 1" "s * err > DB_BREAKAWAY_ERR_DEADBAND" "\<not> breakaway_consumed ff"
      "breakaway_sign ff = 0 \<or> breakaway_sign ff = s" "s * pre < t" "0 \<le> s * pre"
proof -
  define s where "s = (if err > DB_BREAKAWAY_ERR_DEADBAND then 1 else 0) - (if err < - DB_BREAKAWAY_ERR_DEADBAND then 1 else (0::int))"
  have s: "s = 1 \<and> err > DB_BREAKAWAY_ERR_DEADBAND \<or> s = - 1 \<and> err < - DB_BREAKAWAY_ERR_DEADBAND \<or>
      s = 0 \<and> \<bar>err\<bar> \<le> DB_BREAKAWAY_ERR_DEADBAND"
    by (auto simp: s_def DB_BREAKAWAY_ERR_DEADBAND_def)
  have eq: "apply_breakaway_floor t pre err True ff =
      (if breakaway_consumed ff then (pre, ff)
       else if s = 0 then (pre, if breakaway_sign ff \<noteq> 0 then ff\<lparr>breakaway_consumed := True\<rparr> else ff)
       else if breakaway_sign ff \<noteq> 0 \<and> s \<noteq> breakaway_sign ff then (pre, ff\<lparr>breakaway_consumed := True\<rparr>)
       else if 0 \<le> s * pre \<and> s * pre < t then (s * t, ff\<lparr>breakaway_sign := s\<rparr>) else (pre, ff))"
    using s assms unfolding apply_breakaway_floor_def s_def [symmetric] Let_def
    by (elim disjE conjE) (simp_all, metis mult_minus1)
  let ?kick = "\<not> breakaway_consumed ff \<and> s \<noteq> 0 \<and> (breakaway_sign ff = 0 \<or> breakaway_sign ff = s) \<and>
      0 \<le> s * pre \<and> s * pre < t"
  show thesis
  proof (cases ?kick)
    case True
    then have "apply_breakaway_floor t pre err True ff = (s * t, ff\<lparr>breakaway_sign := s\<rparr>)" by (auto simp: eq)
    then show thesis using True s by (intro kick [of s]) auto
  next
    case False
    let ?r = "apply_breakaway_floor t pre err True ff"
    have "fst ?r = pre" and ff1: "snd ?r = ff \<or> snd ?r = ff\<lparr>breakaway_consumed := True\<rparr>"
      "breakaway_sign ff \<noteq> 0 \<and> s \<noteq> breakaway_sign ff \<longrightarrow> breakaway_consumed (snd ?r)"
      using False by (auto simp: eq)
    then have f: "?r = (pre, snd ?r)" by (metis prod.collapse)
    have "s \<noteq> breakaway_sign ff" if "breakaway_sign ff \<noteq> 0" "breakaway_sign ff * err \<le> DB_BREAKAWAY_ERR_DEADBAND"
      using that s by (auto simp: DB_BREAKAWAY_ERR_DEADBAND_def)
    then show thesis using ff1 by (intro none [OF f]) auto
  qed
qed

lemma breakaway_consumed_run:
  "breakaway_consumed ff \<Longrightarrow> 0 < t \<Longrightarrow> list_all (\<lambda>k. k = 0) (fst (breakaway_run t xs ff))"
proof (induction xs arbitrary: ff)
  case (Cons x xs)
  obtain pre err where x: "x = (pre, err)" by (cases x)
  show ?case
    by (cases rule: floor_step [OF Cons.prems(2), of pre err ff]) (use Cons x in \<open>auto simp: split_beta\<close>)
qed simp

lemma breakaway_pushing_run:
  "0 < t \<Longrightarrow> s = 1 \<or> s = - 1 \<Longrightarrow> breakaway_sign ff = s \<Longrightarrow>
   list_all (\<lambda>k. k = 0 \<or> k = s) (fst (breakaway_run t xs ff)) \<and> breakaway_sign (snd (breakaway_run t xs ff)) = s"
proof (induction xs arbitrary: ff)
  case (Cons x xs)
  obtain pre err where x: "x = (pre, err)" by (cases x)
  show ?case
  proof (cases rule: floor_step [OF Cons.prems(1), of pre err ff])
    case (1 ff1)
    then show ?thesis using Cons.IH [OF Cons.prems(1,2), of ff1] Cons.prems(3) by (simp add: x split_beta)
  next
    case (2 s')
    have "s' = s" "sgn (s' * t) = s'" using 2(2,5) Cons.prems by (auto simp: sgn_mult)
    then show ?thesis
      using 2(1) Cons.IH [OF Cons.prems(1,2), of "ff\<lparr>breakaway_sign := s\<rparr>"] by (simp add: x split_beta)
  qed
qed simp

lemma breakaway_kick_sign:
  "0 < t \<Longrightarrow> breakaway_sign ff = 0 \<Longrightarrow> s \<noteq> 0 \<Longrightarrow> s \<in> set (fst (breakaway_run t xs ff)) \<Longrightarrow>
   (s = 1 \<or> s = - 1) \<and> list_all (\<lambda>k. k = 0 \<or> k = s) (fst (breakaway_run t xs ff)) \<and>
   breakaway_sign (snd (breakaway_run t xs ff)) = s"
proof (induction xs arbitrary: ff)
  case (Cons x xs)
  obtain pre err where x: "x = (pre, err)" by (cases x)
  show ?case
  proof (cases rule: floor_step [OF Cons.prems(1), of pre err ff])
    case (1 ff1)
    then show ?thesis using Cons x by (auto simp: split_beta)
  next
    case (2 s')
    let ?r = "breakaway_run t xs (ff\<lparr>breakaway_sign := s'\<rparr>)"
    have r: "list_all (\<lambda>k. k = 0 \<or> k = s') (fst ?r)" "breakaway_sign (snd ?r) = s'"
      using breakaway_pushing_run [OF Cons.prems(1) 2(2), of "ff\<lparr>breakaway_sign := s'\<rparr>" xs] by simp_all
    have ne: "s' * t \<noteq> pre" using 2(2,6) by auto
    have "sgn (s' * t) = s'" using 2(2) Cons.prems(1) by (auto simp: sgn_mult)
    then have k: "breakaway_run t (x # xs) ff = (s' # fst ?r, snd ?r)"
      using 2(1) ne by (simp add: x split_beta)
    have "s = s'" using Cons.prems(3,4) r(1) k by (auto simp: list_all_iff)
    then show ?thesis using k r 2(2) by simp
  qed
qed simp

text \<open>
  Fact. The terminal breakaway is a one-shot: within a move, all kicks push in one direction; and once the
  wheel has been kicked and then reaches its target band or overshoots it, no tick kicks again, whatever
  the composed duty and the error do afterwards, until a new move re-arms the wheel.
\<close>

theorem breakaway_one_shot:
  assumes "0 < t" "breakaway_sign ff = 0" "s \<noteq> 0" "s \<in> set (fst (breakaway_run t xs ff))"
    "s * err \<le> DB_BREAKAWAY_ERR_DEADBAND"
  shows "list_all (\<lambda>k. k = 0 \<or> k = s) (fst (breakaway_run t xs ff)) \<and>
    list_all (\<lambda>k. k = 0) (fst (breakaway_run t ((pre, err) # ys) (snd (breakaway_run t xs ff))))"
proof -
  let ?ff = "snd (breakaway_run t xs ff)"
  have a: "s = 1 \<or> s = - 1" "list_all (\<lambda>k. k = 0 \<or> k = s) (fst (breakaway_run t xs ff))" "breakaway_sign ?ff = s"
    using breakaway_kick_sign [OF assms(1-4)] by auto
  have "list_all (\<lambda>k. k = 0) (fst (breakaway_run t ((pre, err) # ys) ?ff))"
    by (cases rule: floor_step [OF assms(1), of pre err ?ff])
      (use a(1,3) assms breakaway_consumed_run in \<open>auto simp: split_beta\<close>)
  then show ?thesis using a(2) by simp
qed

theorem breakaway_one_shot_witness:
  "fst (breakaway_run 2600 [(150, 5000), (400, 4000)] zero_ff_state) = [1, 1] \<and>
   list_all (\<lambda>k. k = 0) (fst (breakaway_run 2600 ((300, 2900) # [(- 100, - 5000), (100, 5000)])
     (snd (breakaway_run 2600 [(150, 5000), (400, 4000)] zero_ff_state))))"
proof -
  have k: "fst (breakaway_run 2600 [(150, 5000), (400, 4000)] zero_ff_state) = [1, 1]" by code_simp
  show ?thesis
    using breakaway_one_shot [of 2600 zero_ff_state 1 "[(150, 5000), (400, 4000)]" 2900 300 "[(- 100, - 5000), (100, 5000)]"] k
    by (simp add: zero_ff_state_def DB_BREAKAWAY_ERR_DEADBAND_def)
qed

section \<open>Histories\<close>

datatype db_op =
    Op_Straight int int int
  | Op_Turn int int int
  | Op_Curve int int int
  | Op_Arc int int int
  | Op_Forever int int
  | Op_Stop int
  | Op_Tick
  | Op_Reset
  | Op_Set_Origin int int
  | Op_Set_Gyro int
  | Op_Attach_Imu bool
  | Op_Settings settings_op

fun db_step :: "db_env \<times> int \<times> db_op \<Rightarrow> robot \<Rightarrow> robot" where
  "db_step (e, now_us, Op_Straight d v oc) (db, st, g) =
     (case db_drivebase_drive_straight (ev_imu e) now_us d v oc db st of (_, db', st') \<Rightarrow> (db', st', g))"
| "db_step (e, now_us, Op_Turn a v oc) (db, st, g) =
     (case db_drivebase_turn (ev_imu e) now_us a v oc db st of (_, db', st') \<Rightarrow> (db', st', g))"
| "db_step (e, now_us, Op_Curve rad a oc) (db, st, g) =
     (case db_drivebase_drive_curve (ev_imu e) now_us rad a oc db st of (_, db', st') \<Rightarrow> (db', st', g))"
| "db_step (e, now_us, Op_Arc rad d oc) (db, st, g) =
     (case db_drivebase_drive_arc_distance (ev_imu e) now_us rad d oc db st of (_, db', st') \<Rightarrow> (db', st', g))"
| "db_step (e, now_us, Op_Forever v w) (db, st, g) =
     (case db_drivebase_drive_forever (ev_imu e) now_us v w db st of (_, db', st') \<Rightarrow> (db', st', g))"
| "db_step (e, now_us, Op_Stop oc) (db, st, g) = snd (snd (db_drivebase_stop e now_us oc db st g))"
| "db_step (e, now_us, Op_Tick) (db, st, g) = snd (db_tick (e, now_us) (db, st, g))"
| "db_step (e, now_us, Op_Reset) (db, st, g) = snd (db_drivebase_reset e now_us db st g)"
| "db_step (e, now_us, Op_Set_Origin d a) (db, st, g) = (db_drivebase_set_origin (ev_imu e) d a now_us db, st, g)"
| "db_step (e, now_us, Op_Set_Gyro m) (db, st, g) =
     (case db_drivebase_set_use_gyro (ev_imu e) m now_us db st of (_, db', st') \<Rightarrow> (db', st', g))"
| "db_step (e, now_us, Op_Attach_Imu b) (db, st, g) = (db_drivebase_attach_imu b db, st, g)"
| "db_step (e, now_us, Op_Settings sop) (db, st, g) = (db, settings_step sop st, g)"

text \<open>The invariant of a robot: sound controllers and settings, and the wheels where they belong.\<close>

definition controls_ok :: "db_drivebase_s \<Rightarrow> db_settings \<Rightarrow> bool" where
  "controls_ok db st \<longleftrightarrow> ag_ok (control_distance db) \<and> ag_ok (control_heading db) \<and> settings_ok st"

definition robot_inv :: "robot \<Rightarrow> bool" where
  "robot_inv r = (case r of (db, st, g) \<Rightarrow> robot_ok r \<and> controls_ok db st)"

lemma limits_ok [simp]:
  "settings_ok (snd (db_settings_distance_limits w st)) = settings_ok st"
  "settings_ok (snd (db_settings_heading_limits w a st)) = settings_ok st"
  by (simp_all add: db_settings_distance_limits_def db_settings_heading_limits_def recompute_distance_def
      recompute_heading_def Let_def settings_ok_def)

lemma ag_commands_ok:
  assumes "ag_ok ctl" "settings_ok st"
  shows "ag_ok (fst (snd (db_aggregate_control_drive_position t x dx v a d oc ctl st)))"
    and "settings_ok (snd (snd (db_aggregate_control_drive_position t x dx v a d oc ctl st)))"
    and "ag_ok (fst (snd (db_aggregate_control_drive_hold t x ctl st)))"
    and "settings_ok (snd (snd (db_aggregate_control_drive_hold t x ctl st)))"
    and "ag_ok (fst (snd (db_aggregate_control_drive_forever t x v a ctl st)))"
    and "settings_ok (snd (snd (db_aggregate_control_drive_forever t x v a ctl st)))"
    and "ag_ok (fst (snd (db_aggregate_control_stop t x oc ctl st)))"
    and "settings_ok (snd (snd (db_aggregate_control_stop t x oc ctl st)))"
    and "ag_ok (fst (db_aggregate_control_reset ctl st))"
    and "settings_ok (snd (db_aggregate_control_reset ctl st))"
  using ag_step_ok [OF assms, of "Ag_Position t x dx v a d oc"] ag_step_ok [OF assms, of "Ag_Hold t x"]
    ag_step_ok [OF assms, of "Ag_Forever t x v a"] ag_step_ok [OF assms, of "Ag_Stop t x oc"]
    ag_step_ok [OF assms, of Ag_Reset]
  by simp_all

lemma capture_sides [simp]:
  "sides_ok (snd (db_drivebase_capture_start_heading imu now_us l db)) = sides_ok db"
  by (simp add: sides_ok_def)

lemma stretch_ok:
  assumes "ag_ok cd" "ag_ok ch"
  shows "ag_ok (fst (stretch_follower cd ch))" "ag_ok (snd (stretch_follower cd ch))"
  using assms by (simp_all add: stretch_follower_def Let_def split_beta ag_ok_def)

text \<open>What every drive command keeps.\<close>

definition keeps :: "db_drivebase_s \<Rightarrow> int \<times> db_drivebase_s \<times> db_settings \<Rightarrow> bool" where
  "keeps db res = (case res of (rc, db', st') \<Rightarrow> controls_ok db' st' \<and> (sides_ok db \<longrightarrow> sides_ok db'))"

lemma setup_keeps:
  assumes "controls_ok db st"
  shows "keeps db (setup_position_move imu now_us dd dh v_d v_h primary oc db st)"
  using assms
  by (simp add: keeps_def controls_ok_def setup_position_move_def split_beta Let_def ag_commands_ok sides_ok_def)

lemma keeps_active: "keeps (db\<lparr>active_command := c\<rparr>) res = keeps db res"
  by (simp add: keeps_def sides_ok_def)

lemma controls_active [simp]: "controls_ok (db\<lparr>active_command := c\<rparr>) st = controls_ok db st"
  by (simp add: controls_ok_def)

lemma straight_keeps:
  "controls_ok db st \<Longrightarrow> keeps db (db_drivebase_drive_straight imu now_us d v oc db st)"
  unfolding db_drivebase_drive_straight_def Let_def
  by (subst keeps_active [symmetric]) (rule setup_keeps, simp)

lemma turn_keeps:
  "controls_ok db st \<Longrightarrow> keeps db (db_drivebase_turn imu now_us a v oc db st)"
  unfolding db_drivebase_turn_def Let_def
  by (subst keeps_active [symmetric]) (rule setup_keeps, simp)

lemma curve_keeps:
  assumes "controls_ok db st"
  shows "keeps db (db_drivebase_drive_curve imu now_us rad a oc db st)"
  unfolding db_drivebase_drive_curve_def Let_def
  using assms straight_keeps [OF assms] turn_keeps [OF assms]
  by (simp add: keeps_def controls_ok_def split_beta ag_commands_ok stretch_ok sides_ok_def)

lemma arc_keeps:
  assumes "controls_ok db st"
  shows "keeps db (db_drivebase_drive_arc_distance imu now_us rad d oc db st)"
  unfolding db_drivebase_drive_arc_distance_def Let_def
  using straight_keeps [OF assms] curve_keeps [OF assms] by simp

lemma forever_keeps:
  assumes "controls_ok db st"
  shows "keeps db (db_drivebase_drive_forever imu now_us v w db st)"
  unfolding db_drivebase_drive_forever_def Let_def
  using assms by (simp add: keeps_def controls_ok_def split_beta ag_commands_ok sides_ok_def)

lemma gyro_keeps:
  assumes "controls_ok db st"
  shows "keeps db (db_drivebase_set_use_gyro imu m now_us db st)"
  unfolding db_drivebase_set_use_gyro_def Let_def
  using assms by (simp add: keeps_def controls_ok_def split_beta ag_commands_ok sides_ok_def)

lemma stop_inv:
  assumes "robot_inv (db, st, g)"
  shows "robot_inv (snd (snd (db_drivebase_stop e now_us oc db st g)))"
proof -
  let ?s = "fst (db_drivebase_capture_start_heading (ev_imu e) now_us False db)"
  let ?cd = "db_aggregate_control_stop now_us (distance_x_mdeg ?s) oc (control_distance db) st"
  let ?ch = "db_aggregate_control_stop now_us (heading_x_mdeg ?s) oc (control_heading db) (snd (snd ?cd))"
  let ?db2 = "db\<lparr>active_command := DRIVEBASE_ACTIVE_STOP, control_distance := fst (snd ?cd), control_heading := fst (snd ?ch)\<rparr>"
  have a: "controls_ok db st" "g_initialised g" "sides_ok db" using assms by (simp_all add: robot_inv_def robot_ok_def)
  have c: "controls_ok ?db2 (snd (snd ?ch))" using a(1) by (simp add: controls_ok_def ag_commands_ok)
  have s2: "sides_ok ?db2" using a(3) by (simp add: sides_ok_def)
  have r: "robot_inv (?db2, snd (snd ?ch), g)" using a(2) s2 c by (simp add: robot_inv_def robot_ok_def)
  have ap: "robot_inv (fst (snd A), snd (snd ?ch), snd (snd A))"
    if "A = apply_both l r' 0 0 act ?db2 g" for A l r' act
    using same_frame [OF apply_both_frame [of ?db2]] apply_both_eq(2) [OF a(2) s2] s2 c a(2)
    by (simp add: that robot_inv_def robot_ok_def controls_ok_def)
  show ?thesis using r ap by (simp add: db_drivebase_stop_def split_beta Let_def)
qed

lemma tick_inv:
  assumes "robot_inv (db, st, g)"
  shows "robot_inv (snd (db_tick (e, now_us) (db, st, g)))"
proof -
  have a: "controls_ok db st" "robot_ok (db, st, g)" using assms by (simp_all add: robot_inv_def)
  have c: "ag_ok (snd (tick_distance e now_us st db1))" "ag_ok (snd (tick_heading e now_us st db1))"
    if "sensed e now_us db g = (db1, g1)" for db1 g1
    using sensed_frame(3,4) [OF _ that] a
    by (simp_all add: tick_distance_def tick_heading_def update_ok controls_ok_def robot_ok_def)
  have b: "ag_ok ctl" if "braked ctl" for ctl
    using that by (simp add: braked_def stopped_def ag_ok_def passive_code_def)
  show ?thesis
    by (cases rule: tick_cases [OF a(2), of e now_us])
      (use a c b in \<open>auto simp: robot_inv_def controls_ok_def robot_braked_def\<close>)
qed

lemma servo_reset_frame:
  assumes "g_initialised g"
  shows "fst (db_servo_reset rd now_us s g) = 0"
    and "g_initialised (snd (snd (db_servo_reset rd now_us s g)))"
    and "sv_side (fst (snd (db_servo_reset rd now_us s g))) = sv_side s"
proof -
  obtain rc out g1 where d: "drivebase_motor_drain rd (sv_side s) g = (rc, out, g1)"
    by (cases "drivebase_motor_drain rd (sv_side s) g") auto
  show "fst (db_servo_reset rd now_us s g) = 0" "g_initialised (snd (snd (db_servo_reset rd now_us s g)))"
    "sv_side (fst (snd (db_servo_reset rd now_us s g))) = sv_side s"
    using assms drain_frame [OF d]
    by (simp_all add: db_servo_reset_def d drivebase_motor_is_initialised_def Let_def)
qed

lemma reset_inv:
  assumes "robot_inv (db, st, g)"
  shows "robot_inv (snd (db_drivebase_reset e now_us db st g))"
proof -
  have a: "controls_ok db st" "g_initialised g" "sides_ok db" using assms by (simp_all add: robot_inv_def robot_ok_def)
  note l = servo_reset_frame [OF a(2), of "ev_read_left e" now_us "servo_left db"]
  note r = servo_reset_frame [OF l(2), of "ev_read_right e" now_us "servo_right db"]
  show ?thesis
    unfolding db_drivebase_reset_def
    using a l r by (simp add: split_beta Let_def robot_inv_def robot_ok_def controls_ok_def sides_ok_def ag_commands_ok)
qed

lemma origin_inv:
  "robot_inv (db_drivebase_set_origin imu d a now_us db, st, g) = robot_inv (db, st, g)"
  by (simp add: db_drivebase_set_origin_def split_beta Let_def robot_inv_def robot_ok_def controls_ok_def sides_ok_def)

lemma keeps_inv:
  assumes "robot_inv (db, st, g)" "keeps db res"
  shows "robot_inv (case res of (rc, db', st') \<Rightarrow> (db', st', g))"
  using assms by (auto simp: keeps_def robot_inv_def robot_ok_def split: prod.splits)

lemma db_step_inv:
  assumes "robot_inv r"
  shows "robot_inv (db_step op r)"
proof -
  obtain db st g where r: "r = (db, st, g)" by (cases r)
  obtain e now_us o' where op: "op = (e, now_us, o')" by (cases op)
  have inv: "robot_inv (db, st, g)" and c: "controls_ok db st" using assms by (simp_all add: r robot_inv_def)
  show ?thesis
  proof (cases o')
    case (Op_Straight d v oc)
    then show ?thesis using keeps_inv [OF inv straight_keeps [OF c]] by (simp add: r op)
  next
    case (Op_Turn a v oc)
    then show ?thesis using keeps_inv [OF inv turn_keeps [OF c]] by (simp add: r op)
  next
    case (Op_Curve rad a oc)
    then show ?thesis using keeps_inv [OF inv curve_keeps [OF c]] by (simp add: r op)
  next
    case (Op_Arc rad d oc)
    then show ?thesis using keeps_inv [OF inv arc_keeps [OF c]] by (simp add: r op)
  next
    case (Op_Forever v w)
    then show ?thesis using keeps_inv [OF inv forever_keeps [OF c]] by (simp add: r op)
  next
    case (Op_Set_Gyro m)
    then show ?thesis using keeps_inv [OF inv gyro_keeps [OF c]] by (simp add: r op)
  next
    case (Op_Settings sop)
    then show ?thesis using inv by (simp add: r op robot_inv_def controls_ok_def step_ok robot_ok_def)
  next
    case (Op_Attach_Imu b)
    then show ?thesis
      using inv by (simp add: r op robot_inv_def controls_ok_def robot_ok_def db_drivebase_attach_imu_def sides_ok_def)
  qed (use inv stop_inv tick_inv reset_inv origin_inv in \<open>simp_all add: r op\<close>)
qed

lemma history_inv: "robot_inv r \<Longrightarrow> robot_inv (fold db_step ops r)"
  by (induction ops arbitrary: r) (simp_all add: db_step_inv)

lemma init_inv:
  assumes "g_initialised g" "settings_ok st" "db_drivebase_init w a t db st = (0, db', st')"
  shows "robot_inv (db', st', g)"
proof -
  have s: "settings_ok (snd (db_aggregate_control_init ax tk ctl st0)) = settings_ok st0" for ax tk ctl st0
    by (simp add: db_aggregate_control_init_def Let_def settings_ok_def)
  show ?thesis
    using assms init_ok s
    by (auto simp: db_drivebase_init_def Let_def split_beta robot_inv_def robot_ok_def controls_ok_def sides_ok_def
        db_servo_init_def errno_defs split: if_splits)
qed

text \<open>
  C18. A robot is safe across every history: from power-up on, whatever settings operations, drive commands,
  stops, resets, gyro switches and control ticks were executed, in any order and with any answers of the
  environment, all tunables are in range, and the next tick gives each axis a duty within 100 percent that
  is zero unless the axis is in closed loop, and commands no wheel beyond 100 percent.
\<close>

theorem drivebase_history_safe:
  assumes "g_initialised g" "0 < w" "0 < a"
  shows "let (rc, db0, st0) = db_drivebase_init w a t zero_drivebase (settings_run sops init_settings);
             (db, st, g') = fold db_step ops (db0, st0, g);
             out_d = fst (db_aggregate_control_update st tick_d (control_distance db));
             out_h = fst (db_aggregate_control_update st tick_h (control_heading db)) in
     rc = 0 \<and> tunables_ok (tunables st) \<and> full_duty (fst (db_tick en (db, st, g'))) \<and>
     \<bar>ao_duty out_d\<bar> \<le> 10000 \<and> \<bar>ao_duty out_h\<bar> \<le> 10000 \<and>
     (ao_actuation out_d = DRIVEBASE_ON_COMPLETION_HOLD \<or> passive_code (ao_actuation out_d) \<and> ao_duty out_d = 0) \<and>
     (ao_actuation out_h = DRIVEBASE_ON_COMPLETION_HOLD \<or> passive_code (ao_actuation out_h) \<and> ao_duty out_h = 0)"
proof -
  obtain db0 st0 where i: "db_drivebase_init w a t zero_drivebase (settings_run sops init_settings) = (0, db0, st0)"
    using assms(2,3) by (auto simp: db_drivebase_init_def Let_def split_beta)
  obtain db st g' where h: "fold db_step ops (db0, st0, g) = (db, st, g')" by (cases "fold db_step ops (db0, st0, g)")
  have inv: "robot_inv (db, st, g')"
    using history_inv [OF init_inv [OF assms(1) reach_ok i], of ops] h by simp
  then have c: "ag_ok (control_distance db)" "ag_ok (control_heading db)" "settings_ok st" "robot_ok (db, st, g')"
    by (simp_all add: robot_inv_def controls_ok_def)
  obtain e now_us where en: "en = (e, now_us)" by (cases en)
  have "full_duty (fst (db_tick en (db, st, g')))"
    by (cases rule: tick_cases [OF c(4), of e now_us]) (auto simp: en)
  then show ?thesis
    using i h c(3) update_output_range [OF c(1,3), of tick_d] update_output_range [OF c(2,3), of tick_h]
    by (simp add: settings_ok_def)
qed

theorem drivebase_history_safe_witness:
  "let (rc, db0, st0) = db_drivebase_init 56000 112000 2 zero_drivebase (settings_run [] init_settings);
       (db, st, g') = fold db_step [(demo_env, 0, Op_Straight 500 0 2), (demo_env, 2000, Op_Tick)] (db0, st0, demo_motors);
       out_d = fst (db_aggregate_control_update st (4000, 0, 0, 2) (control_distance db)) in
   rc = 0 \<and> full_duty (fst (db_tick (demo_env, 4000) (db, st, g'))) \<and> \<bar>ao_duty out_d\<bar> \<le> 10000"
proof -
  have "g_initialised demo_motors" by (simp add: demo_motors_def)
  from drivebase_history_safe [OF this, of 56000 112000 2 "[]"
      "[(demo_env, 0, Op_Straight 500 0 2), (demo_env, 2000, Op_Tick)]" "(4000, 0, 0, 2)" "(4000, 0, 0, 2)" "(demo_env, 4000)"]
  show ?thesis by (simp add: split_beta Let_def)
qed

section \<open>The composed duty\<close>

text \<open>
  The intended duty of a wheel in exact arithmetic: axis duties combined, half the friction term in the
  direction of motion, the breakaway floor, the rails, and the correction for the battery voltage, which
  is taken as at least its configured minimum.
\<close>

definition rail :: "int \<Rightarrow> int" where
  "rail x = max (- 10000) (min 10000 x)"

definition exact_duty :: "db_settings \<Rightarrow> int \<Rightarrow> int \<Rightarrow> int \<Rightarrow> int \<Rightarrow> bool \<Rightarrow> db_ff_state_s \<Rightarrow> int" where
  "exact_duty st vbat_mv v_ref duty wheel_err traj_done ff =
     (let fr = db_settings_ff_motor_friction st; b = db_settings_battery st;
          s = (if v_ref \<ge> v_hyst_enter_mdegps fr then 1 else if v_ref \<le> - v_hyst_enter_mdegps fr then - 1
               else if \<bar>v_ref\<bar> < v_hyst_exit_mdegps fr then 0 else sign_v_held ff);
          ff' = (if traj_done then ff else ff\<lparr>breakaway_consumed := False, breakaway_sign := 0\<rparr>);
          raised = fst (apply_breakaway_floor (terminal_breakaway fr) (duty + s * (kS fr div 2)) wheel_err traj_done ff') in
      rail (cdiv (rail raised * nominal_mv b) (max vbat_mv (min_mv b))))"

lemma clamp_rail: "drivebase_clamp_i32 x (- 10000) 10000 = rail x"
  by (simp add: drivebase_clamp_i32_def rail_def)

lemma floor_cong:
  "fst (apply_breakaway_floor t pre err done' (ff\<lparr>sign_v_held := s\<rparr>)) = fst (apply_breakaway_floor t pre err done' ff)"
  by (simp add: apply_breakaway_floor_def Let_def)

lemma floor_moving: "fst (apply_breakaway_floor t pre err False ff) = pre"
  by (simp add: apply_breakaway_floor_def)

lemma wheel_duty_exact:
  assumes "settings_ok st" "\<bar>sign_v_held ff\<bar> \<le> 1" "\<bar>duty\<bar> \<le> 20000" "- 2147483647 \<le> v_ref" "v_ref \<le> 2147483647"
  shows "fst (wheel_duty st vbat_mv v_ref duty wheel_err traj_done ff) =
    exact_duty st vbat_mv v_ref duty wheel_err traj_done ff"
proof -
  let ?fr = "db_settings_ff_motor_friction st" and ?b = "db_settings_battery st"
  have fr: "0 \<le> kS ?fr" "kS ?fr \<le> 1000" "0 \<le> v_hyst_enter_mdegps ?fr" "v_hyst_enter_mdegps ?fr \<le> 100000"
    and b: "1 \<le> nominal_mv ?b" "nominal_mv ?b \<le> 12000"
    using assms(1) by (simp_all add: settings_ok_def tunables_ok_def friction_ok_def battery_ok_def
        db_settings_ff_motor_friction_def db_settings_battery_def)
  define s where "s = (if v_ref \<ge> v_hyst_enter_mdegps ?fr then 1 else if v_ref \<le> - v_hyst_enter_mdegps ?fr then - 1
               else if \<bar>v_ref\<bar> < v_hyst_exit_mdegps ?fr then 0 else sign_v_held ff)"
  have neg: "i32 (- v_hyst_enter_mdegps ?fr) = - v_hyst_enter_mdegps ?fr" using fr by (intro i32_id) auto
  have mag: "(if v_ref < 0 then i32 (- v_ref) else v_ref) = \<bar>v_ref\<bar>"
    using assms(4,5) i32_id [of "- v_ref"] by auto
  have s: "ff_sign_with_hysteresis v_ref (sign_v_held ff) (v_hyst_enter_mdegps ?fr) (v_hyst_exit_mdegps ?fr) = s"
    unfolding ff_sign_with_hysteresis_def neg Let_def mag s_def by simp
  have k: "cdiv (kS ?fr) 2 = kS ?fr div 2" "0 \<le> kS ?fr div 2" "kS ?fr div 2 \<le> 500"
    using fr by (simp_all add: cdiv_nonneg)
  have "s = 1 \<or> s = - 1 \<or> s = 0 \<or> s = sign_v_held ff" by (simp add: s_def)
  then have sb: "\<bar>s * (kS ?fr div 2)\<bar> \<le> 500" using assms(2) k(2,3)
    by (cases "s = 0"; cases "s = 1"; cases "s = - 1") auto
  then have w: "i32 (s * cdiv (kS ?fr) 2) = s * (kS ?fr div 2)"
    "i32 (duty + s * (kS ?fr div 2)) = duty + s * (kS ?fr div 2)"
    using assms(3) unfolding k(1) by (auto intro!: i32_id)
  have r: "i32 (rail x * nominal_mv ?b) = rail x * nominal_mv ?b" for x
  proof -
    have "\<bar>rail x * nominal_mv ?b\<bar> \<le> 10000 * 12000"
      unfolding abs_mult using b by (intro mult_mono) (auto simp: rail_def)
    then show ?thesis by (intro i32_id) auto
  qed
  have m: "(if vbat_mv < min_mv ?b then min_mv ?b else vbat_mv) = max vbat_mv (min_mv ?b)" by auto
  show ?thesis
    unfolding wheel_duty_def exact_duty_def Let_def s s_def [symmetric] w battery_correct_def clamp_rail m r
    by (cases traj_done) (simp_all add: split_beta clamp_rail m r floor_cong floor_moving)
qed

text \<open>
  C19. The fixed-width arithmetic of the compose step is exact: for sound settings, axis duties within 100
  percent and reference speeds up to a million degrees per second, the duty of each wheel is the intended
  one, computed without any overflow and never dividing by zero, whatever voltage the gauge
  reports.
\<close>

theorem compose_duty_exact:
  assumes "settings_ok st" "\<bar>ao_duty out_d\<bar> \<le> 10000" "\<bar>ao_duty out_h\<bar> \<le> 10000"
    "\<bar>ao_ref_v_mdegps out_d\<bar> \<le> 1000000000" "\<bar>ao_ref_v_mdegps out_h\<bar> \<le> 1000000000"
    "\<bar>ao_pos_err_mdeg out_d\<bar> \<le> 2147483648" "\<bar>ao_pos_err_mdeg out_h\<bar> \<le> 2147483648"
    "\<bar>sign_v_held (ff_state_left db)\<bar> \<le> 1" "\<bar>sign_v_held (ff_state_right db)\<bar> \<le> 1"
  shows "let (dl, dr, db') = compose_duty st vbat_mv out_d out_h db;
             traj_done = ao_trajectory_done out_d \<and> ao_trajectory_done out_h in
     dl = exact_duty st vbat_mv (ao_ref_v_mdegps out_d - ao_ref_v_mdegps out_h) (ao_duty out_d - ao_duty out_h)
            (ao_pos_err_mdeg out_d - ao_pos_err_mdeg out_h) traj_done (ff_state_left db) \<and>
     dr = exact_duty st vbat_mv (ao_ref_v_mdegps out_d + ao_ref_v_mdegps out_h) (ao_duty out_d + ao_duty out_h)
            (ao_pos_err_mdeg out_d + ao_pos_err_mdeg out_h) traj_done (ff_state_right db) \<and>
     1 \<le> max vbat_mv (min_mv (db_settings_battery st))"
proof -
  have w: "i32 (ao_ref_v_mdegps out_d - ao_ref_v_mdegps out_h) = ao_ref_v_mdegps out_d - ao_ref_v_mdegps out_h"
    "i32 (ao_ref_v_mdegps out_d + ao_ref_v_mdegps out_h) = ao_ref_v_mdegps out_d + ao_ref_v_mdegps out_h"
    "i32 (ao_duty out_d - ao_duty out_h) = ao_duty out_d - ao_duty out_h"
    "i32 (ao_duty out_d + ao_duty out_h) = ao_duty out_d + ao_duty out_h"
    "i64 (ao_pos_err_mdeg out_d - ao_pos_err_mdeg out_h) = ao_pos_err_mdeg out_d - ao_pos_err_mdeg out_h"
    "i64 (ao_pos_err_mdeg out_d + ao_pos_err_mdeg out_h) = ao_pos_err_mdeg out_d + ao_pos_err_mdeg out_h"
    using assms(2-7) by (auto intro!: i32_id i64_id)
  have d: "\<bar>ao_duty out_d - ao_duty out_h\<bar> \<le> 20000" "\<bar>ao_duty out_d + ao_duty out_h\<bar> \<le> 20000"
    using assms(2,3) by linarith+
  have v: "- 2147483647 \<le> ao_ref_v_mdegps out_d - ao_ref_v_mdegps out_h"
    "ao_ref_v_mdegps out_d - ao_ref_v_mdegps out_h \<le> 2147483647"
    "- 2147483647 \<le> ao_ref_v_mdegps out_d + ao_ref_v_mdegps out_h"
    "ao_ref_v_mdegps out_d + ao_ref_v_mdegps out_h \<le> 2147483647"
    using assms(4,5) by linarith+
  have "1 \<le> min_mv (db_settings_battery st)"
    using assms(1) by (simp add: settings_ok_def tunables_ok_def battery_ok_def db_settings_battery_def)
  then show ?thesis
    using wheel_duty_exact [OF assms(1,8) d(1) v(1,2)] wheel_duty_exact [OF assms(1,9) d(2) v(3,4)]
    unfolding compose_duty_def w by (simp add: Let_def split_beta)
qed

definition demo_out :: "int \<Rightarrow> int \<Rightarrow> db_aggregate_output_s" where
  "demo_out duty v = \<lparr>ao_duty = duty, ao_ref_v_mdegps = v, ao_actuation = 2, ao_done = False,
     ao_trajectory_done = False, ao_pos_err_mdeg = 0\<rparr>"

theorem compose_duty_exact_witness:
  "let (dl, dr, db') = compose_duty init_settings 6200 (demo_out 4000 200000) (demo_out 500 9000) zero_drivebase in
   dl = 4470 \<and> dr = 5632 \<and> 1 \<le> max 6200 (min_mv (db_settings_battery init_settings))"
proof -
  have ok: "settings_ok init_settings" using reach_ok [of "[]"] by (simp add: settings_run_def)
  have v: "exact_duty init_settings 6200 191000 3500 0 False zero_ff_state = 4470"
    "exact_duty init_settings 6200 209000 4500 0 False zero_ff_state = 5632" by code_simp+
  show ?thesis
    using compose_duty_exact [OF ok, of "demo_out 4000 200000" "demo_out 500 9000" zero_drivebase 6200] v
    by (simp add: demo_out_def zero_drivebase_def zero_ff_state_def split_beta Let_def)
qed

section \<open>The heading source\<close>

text \<open>The operations that do not start a motion.\<close>

fun no_start :: "db_env \<times> int \<times> db_op \<Rightarrow> bool" where
  "no_start (e, now_us, op) =
     (case op of Op_Straight _ _ _ \<Rightarrow> False | Op_Turn _ _ _ \<Rightarrow> False | Op_Curve _ _ _ \<Rightarrow> False
      | Op_Arc _ _ _ \<Rightarrow> False | Op_Forever _ _ \<Rightarrow> False | _ \<Rightarrow> True)"

lemma apply_both_latched [simp]:
  "use_gyro_latched (fst (snd (apply_both l r dl dr act db g))) = use_gyro_latched db"
  by (simp add: apply_both_def split_beta)

lemma actuate_latched [simp]:
  "use_gyro_latched (fst (snd (db_actuate e now_us s out_d out_h db st g))) = use_gyro_latched db"
  by (simp add: db_actuate_def compose_duty_def split_beta Let_def)

lemma publish_latched [simp]: "use_gyro_latched (db_publish out_d out_h db) = use_gyro_latched db"
  by (simp add: db_publish_def Let_def)

lemma update_latched: "use_gyro_latched (fst (snd (snd (db_drivebase_update e now_us db st g)))) = use_gyro_latched db"
  by (simp add: db_drivebase_update_def split_beta Let_def)

lemma no_start_latched:
  assumes "no_start op"
  shows "use_gyro_latched (fst (db_step op r)) = use_gyro_latched (fst r)"
proof -
  obtain db st g where r: "r = (db, st, g)" by (cases r)
  obtain e now_us o' where op: "op = (e, now_us, o')" by (cases op)
  have "use_gyro_latched (fst (db_step (e, now_us, o') (db, st, g))) = use_gyro_latched db"
  proof (cases o')
    case (Op_Stop oc)
    then show ?thesis by (simp add: db_drivebase_stop_def split_beta Let_def)
  next
    case Op_Tick
    then show ?thesis using update_latched [of e now_us db st g] by (simp add: db_tick_def)
  next
    case Op_Reset
    then show ?thesis by (simp add: db_drivebase_reset_def split_beta Let_def)
  next
    case (Op_Set_Origin d a)
    then show ?thesis by (simp add: db_drivebase_set_origin_def split_beta Let_def)
  next
    case (Op_Set_Gyro m)
    then show ?thesis by (simp add: db_drivebase_set_use_gyro_def split_beta Let_def)
  next
    case (Op_Attach_Imu b)
    then show ?thesis by (simp add: db_drivebase_attach_imu_def)
  qed (use assms op in simp_all)
  then show ?thesis by (simp add: r op)
qed

lemma retarget_latched:
  assumes "active_command db = DRIVEBASE_ACTIVE_FOREVER"
  shows "use_gyro_latched (fst (snd (db_drivebase_drive_forever imu now_us v w db st))) = use_gyro_latched db"
    and "gyro_origin_mdeg (fst (snd (db_drivebase_drive_forever imu now_us v w db st))) = gyro_origin_mdeg db"
  using assms by (simp_all add: db_drivebase_drive_forever_def split_beta Let_def)

text \<open>
  Fact. The heading source of a motion is fixed when it starts: no sequence of ticks, stops, resets, origin
  changes, gyro requests and settings operations changes the latched source, nor does a retarget of a
  running velocity motion, which also keeps the origin; a gyro request during a motion is refused and
  changes nothing but the recorded result; and when the gyro is switched on with a usable IMU, the
  heading it yields at that moment is the published one, so the pose does not jump.
\<close>

theorem gyro_source_stable:
  assumes "list_all no_start ops" "in_s 64 (angle_mdeg db)"
  shows "use_gyro_latched (fst (fold db_step ops (db, st, g))) = use_gyro_latched db \<and>
    (if active_command db = DRIVEBASE_ACTIVE_FOREVER
     then let db' = fst (snd (db_drivebase_drive_forever imu now_us v w db st)) in
       use_gyro_latched db' = use_gyro_latched db \<and> gyro_origin_mdeg db' = gyro_origin_mdeg db
     else True) \<and>
    (let (rc, db', st') = db_drivebase_set_use_gyro imu m now_us db st in
     if active_command db \<noteq> DRIVEBASE_ACTIVE_NONE
     then (rc = - EBUSY \<or> rc = - EINVAL) \<and> db' = db\<lparr>last_set_gyro_rc := rc\<rparr> \<and> st' = st
     else if rc = 0 \<and> use_gyro_requested db \<noteq> m \<and> gyro_origin_valid db'
     then i64 (im_heading_mdeg imu - gyro_origin_mdeg db') = angle_mdeg db else True)"
proof -
  have "use_gyro_latched (fst (fold db_step ops r)) = use_gyro_latched (fst r)" for r
    using assms(1) by (induction ops arbitrary: r) (simp_all add: no_start_latched)
  then have 1: "use_gyro_latched (fst (fold db_step ops (db, st, g))) = use_gyro_latched db" by simp
  have 2: "i64 (h - i64 (h - angle_mdeg db)) = angle_mdeg db" for h
    using assms(2) by (simp add: wrap_s_diff)
  show ?thesis
    using 1 2 retarget_latched [of db imu now_us v w st]
    by (auto simp: db_drivebase_set_use_gyro_def split_beta Let_def errno_defs gyro_defs)
qed

theorem gyro_source_stable_witness:
  "let db = zero_drivebase\<lparr>imu_attached := True, angle_mdeg := 45000\<rparr>;
       imu = \<lparr>im_opened = True, im_calibrated = True, im_heading_mdeg = 90500, im_last_drain_ok_us = 1000\<rparr>;
       (rc, db', st') = db_drivebase_set_use_gyro imu DRIVEBASE_USE_GYRO_3D 2000 db init_settings in
   use_gyro_latched (fst (fold db_step [(demo_env, 2000, Op_Tick)] (db, init_settings, demo_motors))) = use_gyro_latched db \<and>
   rc = 0 \<and> gyro_origin_valid db' \<and> i64 (im_heading_mdeg imu - gyro_origin_mdeg db') = 45000"
proof -
  let ?db = "zero_drivebase\<lparr>imu_attached := True, angle_mdeg := 45000\<rparr>"
  let ?imu = "\<lparr>im_opened = True, im_calibrated = True, im_heading_mdeg = 90500, im_last_drain_ok_us = 1000\<rparr>"
  let ?r = "db_drivebase_set_use_gyro ?imu DRIVEBASE_USE_GYRO_3D 2000 ?db init_settings"
  have r: "fst ?r = 0" "gyro_origin_valid (fst (snd ?r))" by code_simp+
  have a: "active_command ?db = DRIVEBASE_ACTIVE_NONE" "use_gyro_requested ?db \<noteq> DRIVEBASE_USE_GYRO_3D"
    by (simp_all add: zero_drivebase_def active_defs gyro_defs)
  show ?thesis
    using gyro_source_stable [of "[(demo_env, 2000, Op_Tick)]" ?db init_settings demo_motors ?imu 2000 0 0 DRIVEBASE_USE_GYRO_3D] r a
    by (simp add: split_beta Let_def in_s_def)
qed

section \<open>The published pose\<close>

text \<open>What the published pose is computed from.\<close>

definition pose :: "db_drivebase_s \<Rightarrow> int \<times> int \<times> int \<times> int \<times> int \<times> int" where
  "pose db = (x_actual_mdeg (servo_left db), x_actual_mdeg (servo_right db), wheel_d_um db, axle_t_um db,
     distance_origin_mm db, angle_origin_mdeg db)"

lemma apply_both_pose [simp]: "pose (fst (snd (apply_both l r dl dr act db g))) = pose db"
  by (simp add: apply_both_def split_beta pose_def)

lemma actuate_pose [simp]: "pose (fst (snd (db_actuate e now_us s out_d out_h db st g))) = pose db"
proof -
  have c: "pose (db\<lparr>ff_state_left := a, ff_state_right := b\<rparr>) = pose db"
    "pose (db\<lparr>control_distance := c, control_heading := d\<rparr>) = pose db" for a b c d
    by (simp_all add: pose_def)
  show ?thesis by (simp add: db_actuate_def compose_duty_def split_beta Let_def c)
qed

lemma no_sample_update:
  assumes "g_initialised g"
  shows "x_actual_mdeg (fst (snd (db_servo_update (Inl EAGAIN) now_us s g))) = x_actual_mdeg s"
  using assms
  by (simp add: db_servo_update_def drivebase_motor_drain_def drivebase_motor_is_initialised_def Let_def errno_defs)

lemma raw_state_pose:
  "db_drivebase_raw_state db = (case pose db of (xl, xr, w, a, _, _) \<Rightarrow>
     (cdiv (i32 (db_angle_mdeg_to_mm xl w + db_angle_mdeg_to_mm xr w)) 2,
      diff_mm_to_heading_mdeg (i32 (db_angle_mdeg_to_mm xr w - db_angle_mdeg_to_mm xl w)) a))"
  by (simp add: db_drivebase_raw_state_def pose_def db_servo_get_status_def Let_def)

lemma publish_pose:
  "distance_mm (db_publish out_d out_h db) = i32 (fst (db_drivebase_raw_state db) - distance_origin_mm db)"
  "angle_mdeg (db_publish out_d out_h db) = i32 (snd (db_drivebase_raw_state db) - angle_origin_mdeg db)"
  by (simp_all add: db_publish_def db_drivebase_raw_state_def Let_def)

lemma resting_tick_pose:
  fixes now_us :: int and db :: db_drivebase_s and st :: db_settings
  assumes "g_initialised g" "ev_read_left e = Inl EAGAIN" "ev_read_right e = Inl EAGAIN"
  defines "db' \<equiv> fst (snd (db_tick (e, now_us) (db, st, g)))"
  shows "distance_mm db' = i32 (fst (db_drivebase_raw_state db) - distance_origin_mm db)"
    and "angle_mdeg db' = i32 (snd (db_drivebase_raw_state db) - angle_origin_mdeg db)"
proof -
  obtain db1 g1 where sen: "sensed e now_us db g = (db1, g1)" by (cases "sensed e now_us db g")
  let ?od = "fst (tick_distance e now_us st db1)" and ?oh = "fst (tick_heading e now_us st db1)"
  let ?A = "db_actuate e now_us (tick_state e now_us db1) ?od ?oh (controlled e now_us st db1) st g1"
  have "pose db1 = pose db"
    using sen no_sample_update [OF assms(1)] no_sample_update [OF servo_update_frame(2) [OF assms(1)]] assms(2,3)
    by (auto simp: sensed_def split_beta Let_def pose_def)
  moreover have "pose (controlled e now_us st db1) = pose db1" by (simp add: controlled_def pose_def)
  ultimately have p: "pose (fst (snd ?A)) = pose db" by simp
  have d: "db' = db_publish ?od ?oh (fst (snd ?A))"
    using update_eq [OF assms(1), of e now_us db st] sen by (simp add: db'_def db_tick_def split_beta Let_def)
  have o: "distance_origin_mm (fst (snd ?A)) = distance_origin_mm db" "angle_origin_mdeg (fst (snd ?A)) = angle_origin_mdeg db"
    using p by (simp_all add: pose_def)
  have raw: "db_drivebase_raw_state (fst (snd ?A)) = db_drivebase_raw_state db" by (simp only: raw_state_pose p)
  show "distance_mm db' = i32 (fst (db_drivebase_raw_state db) - distance_origin_mm db)"
    "angle_mdeg db' = i32 (snd (db_drivebase_raw_state db) - angle_origin_mdeg db)"
    unfolding d publish_pose raw o by simp_all
qed

text \<open>
  Fact. The origin round-trips: after the origin is set to a pose, a tick without movement publishes exactly
  that pose, and after a reset it publishes zero, for every wheel position, geometry and rounding of the
  conversions, although the origins themselves are computed in wrapping 32-bit arithmetic.
\<close>

theorem origin_round_trip:
  assumes "g_initialised g" "ev_read_left e = Inl EAGAIN" "ev_read_right e = Inl EAGAIN" "in_s 32 d" "in_s 32 a"
  shows "let db1 = db_drivebase_set_origin imu d a t db;
             db2 = fst (snd (db_tick (e, now_us) (db1, st, g)));
             r = snd (db_drivebase_reset e0 t db st g);
             db3 = fst (snd (db_tick (e, now_us) r)) in
     distance_mm db1 = d \<and> angle_mdeg db1 = a \<and> distance_mm db2 = d \<and> angle_mdeg db2 = a \<and>
     distance_mm db3 = 0 \<and> angle_mdeg db3 = 0"
proof -
  let ?db1 = "db_drivebase_set_origin imu d a t db"
  have x: "pose ?db1 = (x_actual_mdeg (servo_left db), x_actual_mdeg (servo_right db), wheel_d_um db, axle_t_um db,
      i32 (fst (db_drivebase_raw_state db) - d), i32 (snd (db_drivebase_raw_state db) - a))"
    by (simp add: db_drivebase_set_origin_def split_beta Let_def pose_def)
  have raw1: "db_drivebase_raw_state ?db1 = db_drivebase_raw_state db" by (simp add: raw_state_pose x) (simp add: pose_def)
  have o1: "distance_origin_mm ?db1 = i32 (fst (db_drivebase_raw_state db) - d)"
    "angle_origin_mdeg ?db1 = i32 (snd (db_drivebase_raw_state db) - a)" using x by (simp_all add: pose_def)
  have s1: "distance_mm ?db1 = d" "angle_mdeg ?db1 = a"
    by (simp_all add: db_drivebase_set_origin_def split_beta Let_def)
  obtain db3 st3 g3 where r: "snd (db_drivebase_reset e0 t db st g) = (db3, st3, g3)" by (cases "snd (db_drivebase_reset e0 t db st g)")
  note l = servo_reset_frame [OF assms(1), of "ev_read_left e0" t "servo_left db"]
  note rr = servo_reset_frame [OF l(2), of "ev_read_right e0" t "servo_right db"]
  have g3: "g_initialised g3" and o3: "(distance_origin_mm db3, angle_origin_mdeg db3) = db_drivebase_raw_state db3"
    using r l rr by (auto simp: db_drivebase_reset_def split_beta Let_def db_drivebase_raw_state_def)
  have z: "i32 0 = 0" by (simp add: wrap_s_def)
  show ?thesis
    using resting_tick_pose [OF assms(1-3), of now_us ?db1 st] resting_tick_pose [OF g3 assms(2,3), of now_us db3 st3]
      o3 [symmetric] assms(4,5) s1
    by (simp add: raw1 o1 r wrap_s_diff z)
qed

theorem origin_round_trip_witness:
  "let e = demo_env\<lparr>ev_read_right := Inl EAGAIN\<rparr>;
       db1 = db_drivebase_set_origin (ev_imu e) 1500 (- 90000) 1000 zero_drivebase;
       db2 = fst (snd (db_tick (e, 2000) (db1, init_settings, demo_motors))) in
   distance_mm db2 = 1500 \<and> angle_mdeg db2 = - 90000"
  using origin_round_trip [of demo_motors "demo_env\<lparr>ev_read_right := Inl EAGAIN\<rparr>" 1500 "- 90000" "ev_imu demo_env"
      1000 zero_drivebase 2000 init_settings demo_env]
  by (simp add: demo_motors_def demo_env_def in_s_def Let_def)

end
