(* ===== verification/Legoport_Pwm.thy ===== *)
theory Legoport_Pwm
  imports Prelude
begin

text \<open>
  The H-bridge driver of the six motor ports, \<^verbatim>\<open>boards/spike-prime-hub/src/stm32_legoport_pwm.c\<close>. The
  hardware the driver writes to is part of the state: the mode of every GPIO pin and the compare register
  of every timer channel. A function that touches the hardware several times returns the sequence of the
  states it passes through, so that what holds between two writes can be stated. The theorems show that
  the two pins of a bridge are never both handed to the timer, that a held supply rail is never disturbed,
  and what a duty does to the bridge.
\<close>

section \<open>State\<close>

definition BOARD_LEGOPORT_COUNT :: nat where "BOARD_LEGOPORT_COUNT = 6"
definition LP_PWM_ARR :: int where "LP_PWM_ARR = 1000"
definition LEGOPORT_PWM_DUTY_MAX :: int where "LEGOPORT_PWM_DUTY_MAX = 10000"
definition LEGOPORT_PWM_DUTY_MIN :: int where "LEGOPORT_PWM_DUTY_MIN = - 10000"

lemmas pwm_consts = BOARD_LEGOPORT_COUNT_def LP_PWM_ARR_def LEGOPORT_PWM_DUTY_MAX_def LEGOPORT_PWM_DUTY_MIN_def

datatype legoport_pwm_state_e =
  LEGOPORT_PWM_STATE_COAST | LEGOPORT_PWM_STATE_BRAKE | LEGOPORT_PWM_STATE_PWM

datatype tim = TIM1 | TIM3 | TIM4

text \<open>A GPIO pin by port letter and number, and what the driver configures it to.\<close>

type_synonym gpio = "char \<times> nat"

datatype pin_mode = Pin_Lo | Pin_Hi | Pin_Af

record legoport_pwm_pdata_s =
  pd_pin1 :: gpio
  pd_pin2 :: gpio
  pd_tim :: tim
  pd_pin1_ch :: nat
  pd_pin2_ch :: nat

definition g_pdata :: "legoport_pwm_pdata_s list" where
  "g_pdata =
     [\<lparr>pd_pin1 = (CHR ''E'', 9), pd_pin2 = (CHR ''E'', 11), pd_tim = TIM1, pd_pin1_ch = 1, pd_pin2_ch = 2\<rparr>,
      \<lparr>pd_pin1 = (CHR ''E'', 13), pd_pin2 = (CHR ''E'', 14), pd_tim = TIM1, pd_pin1_ch = 3, pd_pin2_ch = 4\<rparr>,
      \<lparr>pd_pin1 = (CHR ''B'', 6), pd_pin2 = (CHR ''B'', 7), pd_tim = TIM4, pd_pin1_ch = 1, pd_pin2_ch = 2\<rparr>,
      \<lparr>pd_pin1 = (CHR ''B'', 8), pd_pin2 = (CHR ''B'', 9), pd_tim = TIM4, pd_pin1_ch = 3, pd_pin2_ch = 4\<rparr>,
      \<lparr>pd_pin1 = (CHR ''C'', 6), pd_pin2 = (CHR ''C'', 7), pd_tim = TIM3, pd_pin1_ch = 1, pd_pin2_ch = 2\<rparr>,
      \<lparr>pd_pin1 = (CHR ''C'', 8), pd_pin2 = (CHR ''B'', 1), pd_tim = TIM3, pd_pin1_ch = 3, pd_pin2_ch = 4\<rparr>]"

record legoport_pwm_dev_s =
  pw_duty :: int
  pw_state :: legoport_pwm_state_e
  pw_initialized :: bool
  pw_pinned :: bool

record pwm_system =
  g_devs :: "legoport_pwm_dev_s list"
  gpio_mode :: "gpio \<Rightarrow> pin_mode"
  tim_ccr :: "tim \<times> nat \<Rightarrow> int"

section \<open>Hardware writes\<close>

definition stm32_configgpio :: "gpio \<Rightarrow> pin_mode \<Rightarrow> pwm_system \<Rightarrow> pwm_system" where
  "stm32_configgpio pin m s = s\<lparr>gpio_mode := (gpio_mode s)(pin := m)\<rparr>"

text \<open>The compare register of a channel; channels other than 1 to 4 have none.\<close>

definition tim_ccr_addr :: "tim \<Rightarrow> nat \<Rightarrow> (tim \<times> nat) option" where
  "tim_ccr_addr t ch = (if 1 \<le> ch \<and> ch \<le> 4 then Some (t, ch) else None)"

definition putreg_ccr :: "int \<Rightarrow> (tim \<times> nat) option \<Rightarrow> pwm_system \<Rightarrow> pwm_system" where
  "putreg_ccr v a s = (case a of None \<Rightarrow> s | Some r \<Rightarrow> s\<lparr>tim_ccr := (tim_ccr s)(r := v)\<rparr>)"

definition set_dev :: "nat \<Rightarrow> legoport_pwm_state_e \<Rightarrow> int \<Rightarrow> pwm_system \<Rightarrow> pwm_system" where
  "set_dev idx st duty s = s\<lparr>g_devs := (g_devs s)[idx := (g_devs s ! idx)\<lparr>pw_state := st, pw_duty := duty\<rparr>]\<rparr>"

text \<open>The states passed through by a sequence of writes.\<close>

fun trace :: "(pwm_system \<Rightarrow> pwm_system) list \<Rightarrow> pwm_system \<Rightarrow> pwm_system list" where
  "trace [] s = []"
| "trace (f # fs) s = f s # trace fs (f s)"

section \<open>Bridge transitions\<close>

definition hbridge_apply_coast :: "nat \<Rightarrow> pwm_system \<Rightarrow> pwm_system list" where
  "hbridge_apply_coast idx =
     trace [stm32_configgpio (pd_pin1 (g_pdata ! idx)) Pin_Lo, stm32_configgpio (pd_pin2 (g_pdata ! idx)) Pin_Lo,
            set_dev idx LEGOPORT_PWM_STATE_COAST 0]"

definition hbridge_apply_brake :: "nat \<Rightarrow> pwm_system \<Rightarrow> pwm_system list" where
  "hbridge_apply_brake idx =
     trace [stm32_configgpio (pd_pin1 (g_pdata ! idx)) Pin_Hi, stm32_configgpio (pd_pin2 (g_pdata ! idx)) Pin_Hi,
            set_dev idx LEGOPORT_PWM_STATE_BRAKE 0]"

definition hbridge_apply_fwd :: "nat \<Rightarrow> int \<Rightarrow> pwm_system \<Rightarrow> pwm_system list" where
  "hbridge_apply_fwd idx duty =
     (let pd = g_pdata ! idx in
      trace [putreg_ccr (u32 (cdiv duty 10)) (tim_ccr_addr (pd_tim pd) (pd_pin1_ch pd)),
             stm32_configgpio (pd_pin2 pd) Pin_Hi, stm32_configgpio (pd_pin1 pd) Pin_Af,
             set_dev idx LEGOPORT_PWM_STATE_PWM duty])"

definition hbridge_apply_rev :: "nat \<Rightarrow> int \<Rightarrow> pwm_system \<Rightarrow> pwm_system list" where
  "hbridge_apply_rev idx duty =
     (let pd = g_pdata ! idx in
      trace [putreg_ccr (u32 (cdiv (- duty) 10)) (tim_ccr_addr (pd_tim pd) (pd_pin2_ch pd)),
             stm32_configgpio (pd_pin1 pd) Pin_Hi, stm32_configgpio (pd_pin2 pd) Pin_Af,
             set_dev idx LEGOPORT_PWM_STATE_PWM duty])"

text \<open>A trace is a run of states; the system afterwards is its last state.\<close>

definition final :: "pwm_system \<Rightarrow> pwm_system list \<Rightarrow> pwm_system" where
  "final s tr = (if tr = [] then s else last tr)"

definition hbridge_set_duty_internal :: "nat \<Rightarrow> int \<Rightarrow> pwm_system \<Rightarrow> pwm_system list" where
  "hbridge_set_duty_internal idx duty s =
     (let prev_state = pw_state (g_devs s ! idx); prev_duty = pw_duty (g_devs s ! idx) in
      if duty = 0 then hbridge_apply_brake idx s
      else if prev_state = LEGOPORT_PWM_STATE_PWM \<and> ((prev_duty > 0 \<and> duty > 0) \<or> (prev_duty < 0 \<and> duty < 0)) then
        (let pd = g_pdata ! idx; ch = (if duty > 0 then pd_pin1_ch pd else pd_pin2_ch pd);
             mag = (if duty > 0 then duty else i16 (- duty)) in
         trace [putreg_ccr (u32 (cdiv mag 10)) (tim_ccr_addr (pd_tim pd) ch),
                set_dev idx LEGOPORT_PWM_STATE_PWM duty] s)
      else
        let tr = hbridge_apply_brake idx s in
        tr @ (if duty > 0 then hbridge_apply_fwd idx duty (last tr) else hbridge_apply_rev idx duty (last tr)))"

section \<open>Operations\<close>

text \<open>
  The common head of the public operations: the port number, the initialisation and the mutex, whose
  outcome \<open>lk\<close> is an argument. A port number is valid when the guard passes.
\<close>

definition with_port :: "int \<Rightarrow> int \<Rightarrow> (nat \<Rightarrow> int \<times> pwm_system list) \<Rightarrow> pwm_system \<Rightarrow> int \<times> pwm_system list" where
  "with_port lk idx body s =
     (if idx < 0 \<or> idx \<ge> int BOARD_LEGOPORT_COUNT then (- EINVAL, [])
      else if \<not> pw_initialized (g_devs s ! nat idx) then (- ENODEV, [])
      else if lk < 0 then (lk, [])
      else body (nat idx))"

definition stm32_legoport_pwm_set_duty :: "int \<Rightarrow> int \<Rightarrow> int \<Rightarrow> pwm_system \<Rightarrow> int \<times> pwm_system list" where
  "stm32_legoport_pwm_set_duty lk idx duty s =
     (if idx < 0 \<or> idx \<ge> int BOARD_LEGOPORT_COUNT then (- EINVAL, [])
      else if duty < LEGOPORT_PWM_DUTY_MIN \<or> duty > LEGOPORT_PWM_DUTY_MAX then (- ERANGE, [])
      else with_port lk idx
        (\<lambda>i. if pw_pinned (g_devs s ! i) then (- EBUSY, []) else (OK, hbridge_set_duty_internal i duty s)) s)"

definition stm32_legoport_pwm_coast :: "int \<Rightarrow> int \<Rightarrow> pwm_system \<Rightarrow> int \<times> pwm_system list" where
  "stm32_legoport_pwm_coast lk idx s =
     with_port lk idx (\<lambda>i. if pw_pinned (g_devs s ! i) then (OK, []) else (OK, hbridge_apply_coast i s)) s"

definition stm32_legoport_pwm_brake :: "int \<Rightarrow> int \<Rightarrow> pwm_system \<Rightarrow> int \<times> pwm_system list" where
  "stm32_legoport_pwm_brake lk idx s =
     with_port lk idx (\<lambda>i. if pw_pinned (g_devs s ! i) then (- EBUSY, []) else (OK, hbridge_apply_brake i s)) s"

definition set_pinned :: "nat \<Rightarrow> bool \<Rightarrow> pwm_system \<Rightarrow> pwm_system" where
  "set_pinned i b s = s\<lparr>g_devs := (g_devs s)[i := (g_devs s ! i)\<lparr>pw_pinned := b\<rparr>]\<rparr>"

definition stm32_legoport_pwm_pin_supply :: "int \<Rightarrow> int \<Rightarrow> int \<Rightarrow> pwm_system \<Rightarrow> int \<times> pwm_system list" where
  "stm32_legoport_pwm_pin_supply lk idx sign s =
     (if idx < 0 \<or> idx \<ge> int BOARD_LEGOPORT_COUNT \<or> sign = 0 then (- EINVAL, [])
      else with_port lk idx
        (\<lambda>i. let tr = hbridge_set_duty_internal i (if sign > 0 then LEGOPORT_PWM_DUTY_MAX else LEGOPORT_PWM_DUTY_MIN) s in
             (OK, tr @ [set_pinned i True (final s tr)])) s)"

definition stm32_legoport_pwm_close_cleanup :: "int \<Rightarrow> int \<Rightarrow> pwm_system \<Rightarrow> int \<times> pwm_system list" where
  "stm32_legoport_pwm_close_cleanup lk idx s =
     with_port lk idx
       (\<lambda>i. if \<not> pw_pinned (g_devs s ! i) \<and> pw_state (g_devs s ! i) = LEGOPORT_PWM_STATE_PWM
            then (OK, hbridge_apply_coast i s) else (OK, [])) s"

definition stm32_legoport_pwm_unpin :: "int \<Rightarrow> int \<Rightarrow> pwm_system \<Rightarrow> int \<times> pwm_system list" where
  "stm32_legoport_pwm_unpin lk idx s =
     with_port lk idx
       (\<lambda>i. let s1 = set_pinned i False s in (OK, s1 # hbridge_apply_coast i s1)) s"

text \<open>The start of the driver: all compare registers of the three timers at zero, then every port coasting.\<close>

definition stm32_legoport_pwm_initialize :: "pwm_system \<Rightarrow> pwm_system" where
  "stm32_legoport_pwm_initialize s =
     (let s1 = s\<lparr>tim_ccr := (\<lambda>r. if snd r \<in> {1, 2, 3, 4} then 0 else tim_ccr s r)\<rparr> in
      fold (\<lambda>p t. final t (hbridge_apply_coast p
              (t\<lparr>g_devs := (g_devs t)[p := \<lparr>pw_duty = 0, pw_state = LEGOPORT_PWM_STATE_COAST,
                                          pw_initialized = True, pw_pinned = False\<rparr>]\<rparr>)))
        [0..<BOARD_LEGOPORT_COUNT] s1)"

record legoport_pwm_status_s =
  ps_duty :: int
  ps_state :: legoport_pwm_state_e
  ps_flag_pinned :: bool

definition stm32_legoport_pwm_get_status ::
    "int \<Rightarrow> int \<Rightarrow> bool \<Rightarrow> pwm_system \<Rightarrow> int \<times> legoport_pwm_status_s option" where
  "stm32_legoport_pwm_get_status lk idx out_given s =
     (if idx < 0 \<or> idx \<ge> int BOARD_LEGOPORT_COUNT then (- EINVAL, None)
      else if \<not> out_given then (- EINVAL, None)
      else if \<not> pw_initialized (g_devs s ! nat idx) then (- ENODEV, None)
      else if lk < 0 then (lk, None)
      else (OK, Some \<lparr>ps_duty = pw_duty (g_devs s ! nat idx), ps_state = pw_state (g_devs s ! nat idx),
                      ps_flag_pinned = pw_pinned (g_devs s ! nat idx)\<rparr>))"

section \<open>Ports do not share hardware\<close>

text \<open>What belongs to one port: its software state, its two pins and its two compare registers.\<close>

definition pin1 :: "nat \<Rightarrow> pwm_system \<Rightarrow> pin_mode" where
  "pin1 i s = gpio_mode s (pd_pin1 (g_pdata ! i))"

definition pin2 :: "nat \<Rightarrow> pwm_system \<Rightarrow> pin_mode" where
  "pin2 i s = gpio_mode s (pd_pin2 (g_pdata ! i))"

definition ccr1 :: "nat \<Rightarrow> pwm_system \<Rightarrow> int" where
  "ccr1 i s = tim_ccr s (pd_tim (g_pdata ! i), pd_pin1_ch (g_pdata ! i))"

definition ccr2 :: "nat \<Rightarrow> pwm_system \<Rightarrow> int" where
  "ccr2 i s = tim_ccr s (pd_tim (g_pdata ! i), pd_pin2_ch (g_pdata ! i))"

definition view :: "nat \<Rightarrow> pwm_system \<Rightarrow> legoport_pwm_dev_s \<times> pin_mode \<times> pin_mode \<times> int \<times> int" where
  "view i s = (g_devs s ! i, pin1 i s, pin2 i s, ccr1 i s, ccr2 i s)"

lemmas port_defs = pin1_def pin2_def ccr1_def ccr2_def

lemma port_cases: "i < 6 \<Longrightarrow> i = 0 \<or> i = 1 \<or> i = 2 \<or> i = 3 \<or> i = 4 \<or> i = (5::nat)"
  by auto

text \<open>The pins of all ports are different, and so are the compare registers.\<close>

definition pins :: "legoport_pwm_pdata_s \<Rightarrow> gpio list" where
  "pins pd = [pd_pin1 pd, pd_pin2 pd]"

definition channels :: "legoport_pwm_pdata_s \<Rightarrow> (tim \<times> nat) list" where
  "channels pd = [(pd_tim pd, pd_pin1_ch pd), (pd_tim pd, pd_pin2_ch pd)]"

lemma resources_distinct: "distinct (concat (map pins g_pdata))" "distinct (concat (map channels g_pdata))"
  by (simp_all add: g_pdata_def pins_def channels_def)

lemma concat_disjoint:
  assumes "distinct (concat (map f xs))" "i < length xs" "j < length xs" "i \<noteq> j"
  shows "set (f (xs ! i)) \<inter> set (f (xs ! j)) = {}"
  using assms
proof (induction xs arbitrary: i j)
  case (Cons x xs)
  then show ?case by (cases i; cases j) (fastforce simp: nth_Cons')+
qed simp

lemma pdata_length: "length g_pdata = 6"
  by (simp add: g_pdata_def)

lemma pins_other:
  assumes "i < 6" "j < 6" "i \<noteq> j"
  shows "pd_pin1 (g_pdata ! i) \<noteq> pd_pin1 (g_pdata ! j)" "pd_pin1 (g_pdata ! i) \<noteq> pd_pin2 (g_pdata ! j)"
    "pd_pin2 (g_pdata ! i) \<noteq> pd_pin1 (g_pdata ! j)" "pd_pin2 (g_pdata ! i) \<noteq> pd_pin2 (g_pdata ! j)"
  using concat_disjoint [OF resources_distinct(1), of i j] assms by (auto simp: pdata_length pins_def)

lemma channels_other:
  assumes "i < 6" "j < 6" "i \<noteq> j" "c = pd_pin1_ch (g_pdata ! i) \<or> c = pd_pin2_ch (g_pdata ! i)"
    "c' = pd_pin1_ch (g_pdata ! j) \<or> c' = pd_pin2_ch (g_pdata ! j)"
  shows "(pd_tim (g_pdata ! i), c) \<noteq> (pd_tim (g_pdata ! j), c')"
  using concat_disjoint [OF resources_distinct(2), of i j] assms by (auto simp: pdata_length channels_def)

lemma own_resources:
  assumes "i < 6"
  shows "pd_pin1 (g_pdata ! i) \<noteq> pd_pin2 (g_pdata ! i)" "pd_pin2 (g_pdata ! i) \<noteq> pd_pin1 (g_pdata ! i)"
    "pd_pin1_ch (g_pdata ! i) \<noteq> pd_pin2_ch (g_pdata ! i)" "pd_pin2_ch (g_pdata ! i) \<noteq> pd_pin1_ch (g_pdata ! i)"
    "tim_ccr_addr t (pd_pin1_ch (g_pdata ! i)) = Some (t, pd_pin1_ch (g_pdata ! i))"
    "tim_ccr_addr t (pd_pin2_ch (g_pdata ! i)) = Some (t, pd_pin2_ch (g_pdata ! i))"
  using port_cases [OF assms] by (auto simp: g_pdata_def tim_ccr_addr_def)

text \<open>Each write, seen from its own port and from another one.\<close>

lemma write_own [simp]:
  assumes "i < 6"
  shows "pin1 i (stm32_configgpio (pd_pin1 (g_pdata ! i)) m s) = m"
    "pin2 i (stm32_configgpio (pd_pin1 (g_pdata ! i)) m s) = pin2 i s"
    "pin1 i (stm32_configgpio (pd_pin2 (g_pdata ! i)) m s) = pin1 i s"
    "pin2 i (stm32_configgpio (pd_pin2 (g_pdata ! i)) m s) = m"
    "ccr1 i (stm32_configgpio p m s) = ccr1 i s" "ccr2 i (stm32_configgpio p m s) = ccr2 i s"
    "g_devs (stm32_configgpio p m s) = g_devs s"
    "ccr1 i (putreg_ccr v (tim_ccr_addr (pd_tim (g_pdata ! i)) (pd_pin1_ch (g_pdata ! i))) s) = v"
    "ccr2 i (putreg_ccr v (tim_ccr_addr (pd_tim (g_pdata ! i)) (pd_pin1_ch (g_pdata ! i))) s) = ccr2 i s"
    "ccr2 i (putreg_ccr v (tim_ccr_addr (pd_tim (g_pdata ! i)) (pd_pin2_ch (g_pdata ! i))) s) = v"
    "ccr1 i (putreg_ccr v (tim_ccr_addr (pd_tim (g_pdata ! i)) (pd_pin2_ch (g_pdata ! i))) s) = ccr1 i s"
    "pin1 i (putreg_ccr v r s) = pin1 i s" "pin2 i (putreg_ccr v r s) = pin2 i s"
    "g_devs (putreg_ccr v r s) = g_devs s"
  using own_resources [OF assms]
  by (simp_all add: port_defs stm32_configgpio_def putreg_ccr_def split: option.splits)

lemma dev_own [simp]:
  "pin1 j (set_dev i st d s) = pin1 j s" "pin2 j (set_dev i st d s) = pin2 j s"
  "ccr1 j (set_dev i st d s) = ccr1 j s" "ccr2 j (set_dev i st d s) = ccr2 j s"
  "g_devs (set_dev i st d s) = (g_devs s)[i := (g_devs s ! i)\<lparr>pw_state := st, pw_duty := d\<rparr>]"
  "pin1 j (set_pinned i b s) = pin1 j s" "pin2 j (set_pinned i b s) = pin2 j s"
  "ccr1 j (set_pinned i b s) = ccr1 j s" "ccr2 j (set_pinned i b s) = ccr2 j s"
  "g_devs (set_pinned i b s) = (g_devs s)[i := (g_devs s ! i)\<lparr>pw_pinned := b\<rparr>]"
  by (simp_all add: port_defs set_dev_def set_pinned_def)

lemma write_other:
  assumes "i < 6" "j < 6" "j \<noteq> i"
  shows "view j (stm32_configgpio (pd_pin1 (g_pdata ! i)) m s) = view j s"
    "view j (stm32_configgpio (pd_pin2 (g_pdata ! i)) m s) = view j s"
    "view j (putreg_ccr v (tim_ccr_addr (pd_tim (g_pdata ! i)) (pd_pin1_ch (g_pdata ! i))) s) = view j s"
    "view j (putreg_ccr v (tim_ccr_addr (pd_tim (g_pdata ! i)) (pd_pin2_ch (g_pdata ! i))) s) = view j s"
    "view j (set_dev i st d s) = view j s" "view j (set_pinned i b s) = view j s"
proof -
  note p = pins_other [OF assms(2,1,3)] and o = own_resources(5,6) [OF assms(1)]
  have c: "(pd_tim (g_pdata ! j), pd_pin1_ch (g_pdata ! j)) \<noteq> (pd_tim (g_pdata ! i), pd_pin1_ch (g_pdata ! i))"
    "(pd_tim (g_pdata ! j), pd_pin1_ch (g_pdata ! j)) \<noteq> (pd_tim (g_pdata ! i), pd_pin2_ch (g_pdata ! i))"
    "(pd_tim (g_pdata ! j), pd_pin2_ch (g_pdata ! j)) \<noteq> (pd_tim (g_pdata ! i), pd_pin1_ch (g_pdata ! i))"
    "(pd_tim (g_pdata ! j), pd_pin2_ch (g_pdata ! j)) \<noteq> (pd_tim (g_pdata ! i), pd_pin2_ch (g_pdata ! i))"
    using channels_other [OF assms(2,1,3)] by blast+
  show "view j (stm32_configgpio (pd_pin1 (g_pdata ! i)) m s) = view j s"
    "view j (stm32_configgpio (pd_pin2 (g_pdata ! i)) m s) = view j s"
    by (simp_all add: view_def port_defs stm32_configgpio_def p)
  show "view j (putreg_ccr v (tim_ccr_addr (pd_tim (g_pdata ! i)) (pd_pin1_ch (g_pdata ! i))) s) = view j s"
    "view j (putreg_ccr v (tim_ccr_addr (pd_tim (g_pdata ! i)) (pd_pin2_ch (g_pdata ! i))) s) = view j s"
    unfolding o putreg_ccr_def option.case view_def port_defs using c by (auto simp: fun_upd_def)
  show "view j (set_dev i st d s) = view j s" "view j (set_pinned i b s) = view j s"
    using assms(3) by (simp_all add: view_def)
qed

section \<open>The invariant of a port\<close>

text \<open>The recorded state is what the hardware does.\<close>

definition port_ok :: "legoport_pwm_dev_s \<times> pin_mode \<times> pin_mode \<times> int \<times> int \<Rightarrow> bool" where
  "port_ok v = (case v of (d, m1, m2, c1, c2) \<Rightarrow>
      (case pw_state d of
         LEGOPORT_PWM_STATE_COAST \<Rightarrow> m1 = Pin_Lo \<and> m2 = Pin_Lo \<and> pw_duty d = 0
       | LEGOPORT_PWM_STATE_BRAKE \<Rightarrow> m1 = Pin_Hi \<and> m2 = Pin_Hi \<and> pw_duty d = 0
       | LEGOPORT_PWM_STATE_PWM \<Rightarrow>
           (if pw_duty d > 0 then m1 = Pin_Af \<and> m2 = Pin_Hi \<and> c1 = pw_duty d div 10
            else pw_duty d < 0 \<and> m1 = Pin_Hi \<and> m2 = Pin_Af \<and> c2 = (- pw_duty d) div 10)) \<and>
      \<bar>pw_duty d\<bar> \<le> LEGOPORT_PWM_DUTY_MAX \<and>
      (if pw_pinned d then pw_state d = LEGOPORT_PWM_STATE_PWM \<and> \<bar>pw_duty d\<bar> = LEGOPORT_PWM_DUTY_MAX else True))"

definition both_af :: "legoport_pwm_dev_s \<times> pin_mode \<times> pin_mode \<times> int \<times> int \<Rightarrow> bool" where
  "both_af v = (case v of (d, m1, m2, c1, c2) \<Rightarrow> m1 = Pin_Af \<and> m2 = Pin_Af)"

text \<open>A run of writes of port \<open>i\<close>: it keeps the number of ports and every other port.\<close>

definition local_run :: "nat \<Rightarrow> pwm_system \<Rightarrow> pwm_system list \<Rightarrow> bool" where
  "local_run i s tr \<longleftrightarrow>
     list_all (\<lambda>t. length (g_devs t) = length (g_devs s) \<and> (\<forall>j < 6. j \<noteq> i \<longrightarrow> view j t = view j s)) tr"

lemma local_trace:
  assumes "list_all (\<lambda>f. \<forall>t. length (g_devs (f t)) = length (g_devs t) \<and> (\<forall>j < 6. j \<noteq> i \<longrightarrow> view j (f t) = view j t)) fs"
  shows "local_run i s (trace fs s)"
  using assms
proof (induction fs arbitrary: s)
  case (Cons f fs)
  then have "local_run i (f s) (trace fs (f s))" by simp
  with Cons.prems show ?case by (auto simp: local_run_def list_all_iff)
qed (simp add: local_run_def)

lemma local_append:
  assumes "local_run i s tr" "tr \<noteq> []" "local_run i (last tr) tr'"
  shows "local_run i s (tr @ tr')"
  using assms last_in_set [OF assms(2)] by (auto simp: local_run_def list_all_iff)

lemma lengths [simp]:
  "length (g_devs (stm32_configgpio p m s)) = length (g_devs s)" "length (g_devs (putreg_ccr v r s)) = length (g_devs s)"
  by (simp_all add: stm32_configgpio_def putreg_ccr_def split: option.splits)

lemma bridge_runs_local:
  assumes "i < 6"
  shows "local_run i s (hbridge_apply_coast i s)" "local_run i s (hbridge_apply_brake i s)"
    "local_run i s (hbridge_apply_fwd i d s)" "local_run i s (hbridge_apply_rev i d s)"
  unfolding hbridge_apply_coast_def hbridge_apply_brake_def hbridge_apply_fwd_def hbridge_apply_rev_def Let_def
  by (rule local_trace; simp add: write_other [OF assms])+

lemma set_duty_local:
  assumes "i < 6"
  shows "local_run i s (hbridge_set_duty_internal i d s)"
proof -
  have b: "hbridge_apply_brake i s \<noteq> []" by (simp add: hbridge_apply_brake_def)
  have c: "local_run i s (trace [putreg_ccr v (tim_ccr_addr (pd_tim (g_pdata ! i))
      (if d > 0 then pd_pin1_ch (g_pdata ! i) else pd_pin2_ch (g_pdata ! i))), set_dev i st d] s)" for v st
    by (rule local_trace) (simp add: write_other [OF assms])
  show ?thesis
    unfolding hbridge_set_duty_internal_def Let_def
    using c b local_append bridge_runs_local [OF assms] by (simp del: trace.simps)
qed

section \<open>What a run does to its own port\<close>

lemma own_views:
  assumes "i < 6" "length (g_devs s) = 6"
  shows "map (view i) (hbridge_apply_coast i s) =
      [(g_devs s ! i, Pin_Lo, pin2 i s, ccr1 i s, ccr2 i s), (g_devs s ! i, Pin_Lo, Pin_Lo, ccr1 i s, ccr2 i s),
       ((g_devs s ! i)\<lparr>pw_state := LEGOPORT_PWM_STATE_COAST, pw_duty := 0\<rparr>, Pin_Lo, Pin_Lo, ccr1 i s, ccr2 i s)]"
    "map (view i) (hbridge_apply_brake i s) =
      [(g_devs s ! i, Pin_Hi, pin2 i s, ccr1 i s, ccr2 i s), (g_devs s ! i, Pin_Hi, Pin_Hi, ccr1 i s, ccr2 i s),
       ((g_devs s ! i)\<lparr>pw_state := LEGOPORT_PWM_STATE_BRAKE, pw_duty := 0\<rparr>, Pin_Hi, Pin_Hi, ccr1 i s, ccr2 i s)]"
    "map (view i) (hbridge_apply_fwd i d s) =
      [(g_devs s ! i, pin1 i s, pin2 i s, u32 (cdiv d 10), ccr2 i s), (g_devs s ! i, pin1 i s, Pin_Hi, u32 (cdiv d 10), ccr2 i s),
       (g_devs s ! i, Pin_Af, Pin_Hi, u32 (cdiv d 10), ccr2 i s),
       ((g_devs s ! i)\<lparr>pw_state := LEGOPORT_PWM_STATE_PWM, pw_duty := d\<rparr>, Pin_Af, Pin_Hi, u32 (cdiv d 10), ccr2 i s)]"
    "map (view i) (hbridge_apply_rev i d s) =
      [(g_devs s ! i, pin1 i s, pin2 i s, ccr1 i s, u32 (cdiv (- d) 10)), (g_devs s ! i, Pin_Hi, pin2 i s, ccr1 i s, u32 (cdiv (- d) 10)),
       (g_devs s ! i, Pin_Hi, Pin_Af, ccr1 i s, u32 (cdiv (- d) 10)),
       ((g_devs s ! i)\<lparr>pw_state := LEGOPORT_PWM_STATE_PWM, pw_duty := d\<rparr>, Pin_Hi, Pin_Af, ccr1 i s, u32 (cdiv (- d) 10))]"
  using assms
  by (simp_all add: hbridge_apply_coast_def hbridge_apply_brake_def hbridge_apply_fwd_def hbridge_apply_rev_def Let_def view_def)

lemma reg_value: "0 < d \<Longrightarrow> d \<le> 10000 \<Longrightarrow> u32 (cdiv d 10) = d div 10"
  by (simp add: cdiv_nonneg u32_id)

text \<open>The states a run passes through and leaves, for its own port.\<close>

definition good_run :: "nat \<Rightarrow> pwm_system \<Rightarrow> pwm_system list \<Rightarrow> bool" where
  "good_run i s tr \<longleftrightarrow> local_run i s tr \<and> list_all (\<lambda>t. \<not> both_af (view i t)) tr \<and> port_ok (view i (final s tr))"

lemma last_view: "tr \<noteq> [] \<Longrightarrow> view i (last tr) = last (map (view i) tr)"
  by (simp add: last_map)

lemma own_final:
  assumes "i < 6" "length (g_devs s) = 6"
  shows "view i (last (hbridge_apply_coast i s)) =
      ((g_devs s ! i)\<lparr>pw_state := LEGOPORT_PWM_STATE_COAST, pw_duty := 0\<rparr>, Pin_Lo, Pin_Lo, ccr1 i s, ccr2 i s)"
    "view i (last (hbridge_apply_brake i s)) =
      ((g_devs s ! i)\<lparr>pw_state := LEGOPORT_PWM_STATE_BRAKE, pw_duty := 0\<rparr>, Pin_Hi, Pin_Hi, ccr1 i s, ccr2 i s)"
proof -
  have ne: "hbridge_apply_coast i s \<noteq> []" "hbridge_apply_brake i s \<noteq> []"
    by (simp_all add: hbridge_apply_coast_def hbridge_apply_brake_def)
  show "view i (last (hbridge_apply_coast i s)) =
      ((g_devs s ! i)\<lparr>pw_state := LEGOPORT_PWM_STATE_COAST, pw_duty := 0\<rparr>, Pin_Lo, Pin_Lo, ccr1 i s, ccr2 i s)"
    "view i (last (hbridge_apply_brake i s)) =
      ((g_devs s ! i)\<lparr>pw_state := LEGOPORT_PWM_STATE_BRAKE, pw_duty := 0\<rparr>, Pin_Hi, Pin_Hi, ccr1 i s, ccr2 i s)"
    unfolding last_view [OF ne(1)] last_view [OF ne(2)] own_views [OF assms] by simp_all
qed

text \<open>
  The views of the whole duty change, by cases: braking, a new compare value only, or through the brake to
  the other direction.
\<close>

lemma set_duty_views:
  assumes "i < 6" "length (g_devs s) = 6" "port_ok (view i s)" "\<bar>d\<bar> \<le> 10000"
  shows "list_all (\<lambda>v. \<not> both_af v) (map (view i) (hbridge_set_duty_internal i d s))"
    and "\<exists>c1 c2. view i (last (hbridge_set_duty_internal i d s)) =
      (if d = 0 then ((g_devs s ! i)\<lparr>pw_state := LEGOPORT_PWM_STATE_BRAKE, pw_duty := 0\<rparr>, Pin_Hi, Pin_Hi, c1, c2)
       else if d > 0 then ((g_devs s ! i)\<lparr>pw_state := LEGOPORT_PWM_STATE_PWM, pw_duty := d\<rparr>, Pin_Af, Pin_Hi, d div 10, c2)
       else ((g_devs s ! i)\<lparr>pw_state := LEGOPORT_PWM_STATE_PWM, pw_duty := d\<rparr>, Pin_Hi, Pin_Af, c1, (- d) div 10))"
    and "hbridge_set_duty_internal i d s \<noteq> []"
proof -
  let ?B = "last (hbridge_apply_brake i s)" and ?tr = "hbridge_set_duty_internal i d s"
  let ?dv = "(g_devs s ! i)\<lparr>pw_state := LEGOPORT_PWM_STATE_BRAKE, pw_duty := 0\<rparr>"
  let ?new = "(g_devs s ! i)\<lparr>pw_state := LEGOPORT_PWM_STATE_PWM, pw_duty := d\<rparr>"
  have ne: "hbridge_apply_brake i s \<noteq> []" by (simp add: hbridge_apply_brake_def)
  have B: "g_devs ?B ! i = ?dv" "pin1 i ?B = Pin_Hi" "pin2 i ?B = Pin_Hi" "ccr1 i ?B = ccr1 i s" "ccr2 i ?B = ccr2 i s"
    using own_final(2) [OF assms(1,2)] by (simp_all add: view_def)
  have lB: "length (g_devs ?B) = 6"
    using bridge_runs_local(2) [OF assms(1), of s] last_in_set [OF ne] assms(2) by (auto simp: local_run_def list_all_iff)
  have naf: "\<not> both_af (view i s)" using assms(3) by (auto simp: port_ok_def both_af_def split: prod.splits legoport_pwm_state_e.splits if_splits)
  let ?same = "pw_state (g_devs s ! i) = LEGOPORT_PWM_STATE_PWM \<and>
    ((pw_duty (g_devs s ! i) > 0 \<and> d > 0) \<or> (pw_duty (g_devs s ! i) < 0 \<and> d < 0))"
  consider (zero) "d = 0" | (same) "d \<noteq> 0" ?same | (fwd) "d > 0" "\<not> ?same" | (rev) "d < 0" "\<not> ?same" by linarith
  then have "list_all (\<lambda>v. \<not> both_af v) (map (view i) ?tr) \<and> ?tr \<noteq> [] \<and> (\<exists>c1 c2. view i (last ?tr) =
      (if d = 0 then (?dv, Pin_Hi, Pin_Hi, c1, c2) else if d > 0 then (?new, Pin_Af, Pin_Hi, d div 10, c2)
       else (?new, Pin_Hi, Pin_Af, c1, (- d) div 10)))"
  proof cases
    case zero
    then have t: "?tr = hbridge_apply_brake i s" by (simp add: hbridge_set_duty_internal_def)
    show ?thesis unfolding t using zero ne own_views(2) [OF assms(1,2)] own_final(2) [OF assms(1,2)]
      by (auto simp: both_af_def)
  next
    case same
    have pins: "d > 0 \<Longrightarrow> pin1 i s = Pin_Af \<and> pin2 i s = Pin_Hi" "d < 0 \<Longrightarrow> pin1 i s = Pin_Hi \<and> pin2 i s = Pin_Af"
      using same(2) assms(3) by (auto simp: port_ok_def view_def)
    have "d < 0 \<Longrightarrow> i16 (- d) = - d" using assms(4) by (intro wrap_s_id) auto
    then have mag: "u32 (cdiv (if d > 0 then d else i16 (- d)) 10) = \<bar>d\<bar> div 10"
      using same(1) assms(4) reg_value [of d] reg_value [of "- d"] by (auto simp: abs_if)
    have t: "?tr = trace [putreg_ccr (\<bar>d\<bar> div 10) (tim_ccr_addr (pd_tim (g_pdata ! i))
          (if d > 0 then pd_pin1_ch (g_pdata ! i) else pd_pin2_ch (g_pdata ! i))),
        set_dev i LEGOPORT_PWM_STATE_PWM d] s"
      unfolding hbridge_set_duty_internal_def Let_def using same by (simp add: mag del: trace.simps)
    show ?thesis unfolding t using same(1) naf pins assms(1,2) by (auto simp: view_def both_af_def)
  next
    case fwd
    have t: "?tr = hbridge_apply_brake i s @ hbridge_apply_fwd i d ?B"
      unfolding hbridge_set_duty_internal_def Let_def using fwd by auto
    have f: "hbridge_apply_fwd i d ?B \<noteq> []" by (simp add: hbridge_apply_fwd_def Let_def)
    have v: "view i (last ?tr) = (?new, Pin_Af, Pin_Hi, d div 10, ccr2 i s)"
      using f fwd assms(4) unfolding t last_view [OF f] last_appendR [OF f] own_views(3) [OF assms(1) lB] B
      by (simp add: reg_value)
    have "list_all (\<lambda>v. \<not> both_af v) (map (view i) ?tr)"
      unfolding t map_append own_views(2) [OF assms(1,2)] own_views(3) [OF assms(1) lB] B by (simp add: both_af_def)
    then show ?thesis using v f fwd t by auto
  next
    case rev
    have t: "?tr = hbridge_apply_brake i s @ hbridge_apply_rev i d ?B"
      unfolding hbridge_set_duty_internal_def Let_def using rev by auto
    have f: "hbridge_apply_rev i d ?B \<noteq> []" by (simp add: hbridge_apply_rev_def Let_def)
    have v: "view i (last ?tr) = (?new, Pin_Hi, Pin_Af, ccr1 i s, (- d) div 10)"
      using f rev assms(4) reg_value [of "- d"]
      unfolding t last_view [OF f] last_appendR [OF f] own_views(4) [OF assms(1) lB] B by simp
    have "list_all (\<lambda>v. \<not> both_af v) (map (view i) ?tr)"
      unfolding t map_append own_views(2) [OF assms(1,2)] own_views(4) [OF assms(1) lB] B by (simp add: both_af_def)
    then show ?thesis using v f rev t by auto
  qed
  then show "list_all (\<lambda>v. \<not> both_af v) (map (view i) ?tr)" "?tr \<noteq> []" "\<exists>c1 c2. view i (last ?tr) =
      (if d = 0 then (?dv, Pin_Hi, Pin_Hi, c1, c2) else if d > 0 then (?new, Pin_Af, Pin_Hi, d div 10, c2)
       else (?new, Pin_Hi, Pin_Af, c1, (- d) div 10))" by blast+
qed

section \<open>Runs keep the invariant\<close>

definition sys_ok :: "pwm_system \<Rightarrow> bool" where
  "sys_ok s \<longleftrightarrow> length (g_devs s) = 6 \<and> (\<forall>i < 6. port_ok (view i s))"

lemma ok_no_both: "port_ok v \<Longrightarrow> \<not> both_af v"
  by (auto simp: port_ok_def both_af_def split: prod.splits legoport_pwm_state_e.splits if_splits)

lemma good_run_system:
  assumes "sys_ok s" "good_run i s tr" "i < 6"
  shows "sys_ok (final s tr)" and "list_all (\<lambda>t. \<forall>j < 6. \<not> both_af (view j t)) tr"
proof -
  have o: "length (g_devs t) = 6 \<and> (\<forall>j < 6. j \<noteq> i \<longrightarrow> view j t = view j s)" if "t \<in> set tr \<or> t = s" for t
    using assms(1,2) that by (auto simp: good_run_def local_run_def list_all_iff sys_ok_def)
  have f: "final s tr \<in> set tr \<or> final s tr = s" by (simp add: final_def)
  have "port_ok (view j (final s tr))" if "j < 6" for j
    using o [OF f] assms(1,2) that by (cases "j = i") (simp_all add: good_run_def sys_ok_def)
  then show "sys_ok (final s tr)" using o [OF f] by (simp add: sys_ok_def)
  show "list_all (\<lambda>t. \<forall>j < 6. \<not> both_af (view j t)) tr"
    unfolding list_all_iff
  proof (intro ballI allI impI)
    fix t j assume t: "t \<in> set tr" and j: "j < (6::nat)"
    show "\<not> both_af (view j t)"
      using t j o [of t] assms(1,2) ok_no_both by (cases "j = i") (auto simp: good_run_def sys_ok_def list_all_iff)
  qed
qed

lemma empty_good: "sys_ok s \<Longrightarrow> i < 6 \<Longrightarrow> good_run i s []"
  by (simp add: good_run_def local_run_def final_def sys_ok_def)

lemma passive_good:
  assumes "sys_ok s" "i < 6" "\<not> pw_pinned (g_devs s ! i)"
  shows "good_run i s (hbridge_apply_coast i s)" "good_run i s (hbridge_apply_brake i s)"
proof -
  have l: "length (g_devs s) = 6" and na: "\<not> both_af (view i s)" using assms ok_no_both by (auto simp: sys_ok_def)
  have n: "hbridge_apply_coast i s \<noteq> []" "hbridge_apply_brake i s \<noteq> []"
    by (simp_all add: hbridge_apply_coast_def hbridge_apply_brake_def)
  have "list_all (\<lambda>v. \<not> both_af v) (map (view i) (hbridge_apply_coast i s))"
    "list_all (\<lambda>v. \<not> both_af v) (map (view i) (hbridge_apply_brake i s))"
    unfolding own_views [OF assms(2) l] using na by (simp_all add: both_af_def view_def)
  then show "good_run i s (hbridge_apply_coast i s)" "good_run i s (hbridge_apply_brake i s)"
    using n own_final [OF assms(2) l] bridge_runs_local [OF assms(2)] assms(3)
    by (simp_all add: good_run_def final_def list.pred_map o_def port_ok_def pwm_consts)
qed

lemma set_duty_good:
  assumes "sys_ok s" "i < 6" "\<bar>d\<bar> \<le> 10000" "\<not> pw_pinned (g_devs s ! i) \<or> \<bar>d\<bar> = 10000"
  shows "good_run i s (hbridge_set_duty_internal i d s)"
proof -
  have l: "length (g_devs s) = 6" and ok: "port_ok (view i s)" using assms by (auto simp: sys_ok_def)
  note v = set_duty_views [OF assms(2) l ok assms(3)]
  obtain c1 c2 where f: "view i (last (hbridge_set_duty_internal i d s)) =
      (if d = 0 then ((g_devs s ! i)\<lparr>pw_state := LEGOPORT_PWM_STATE_BRAKE, pw_duty := 0\<rparr>, Pin_Hi, Pin_Hi, c1, c2)
       else if d > 0 then ((g_devs s ! i)\<lparr>pw_state := LEGOPORT_PWM_STATE_PWM, pw_duty := d\<rparr>, Pin_Af, Pin_Hi, d div 10, c2)
       else ((g_devs s ! i)\<lparr>pw_state := LEGOPORT_PWM_STATE_PWM, pw_duty := d\<rparr>, Pin_Hi, Pin_Af, c1, (- d) div 10))"
    using v(2) by blast
  then show ?thesis
    using v(1,3) set_duty_local [OF assms(2), of s d] assms(3,4)
    by (auto simp: good_run_def final_def list.pred_map o_def port_ok_def pwm_consts)
qed

lemma port_ok_pin:
  assumes "port_ok (d, rest)" "b \<Longrightarrow> pw_state d = LEGOPORT_PWM_STATE_PWM \<and> \<bar>pw_duty d\<bar> = LEGOPORT_PWM_DUTY_MAX"
  shows "port_ok (d\<lparr>pw_pinned := b\<rparr>, rest)"
  using assms by (cases rest; cases b; cases "pw_state d") (simp_all add: port_ok_def)

lemma pin_good:
  assumes "sys_ok s" "i < 6" "\<bar>d\<bar> = 10000"
  shows "good_run i s (hbridge_set_duty_internal i d s @ [set_pinned i True (final s (hbridge_set_duty_internal i d s))])"
proof -
  let ?tr = "hbridge_set_duty_internal i d s"
  have g: "good_run i s ?tr" using assms by (intro set_duty_good) auto
  have l: "length (g_devs s) = 6" and ok: "port_ok (view i s)" using assms by (auto simp: sys_ok_def)
  note v = set_duty_views [OF assms(2) l ok, of d]
  have n: "?tr \<noteq> []" and d: "d \<noteq> 0" using v(3) assms(3) by auto
  let ?t = "last ?tr"
  have lt: "length (g_devs ?t) = 6" using g last_in_set [OF n] l by (auto simp: good_run_def local_run_def list_all_iff)
  have st: "pw_state (g_devs ?t ! i) = LEGOPORT_PWM_STATE_PWM" "pw_duty (g_devs ?t ! i) = d"
    using v(2) assms(3) d by (auto simp: view_def split: if_splits)
  have pv: "view i (set_pinned i True ?t) = ((g_devs ?t ! i)\<lparr>pw_pinned := True\<rparr>, snd (view i ?t))"
    using assms(2) lt by (simp add: view_def)
  have okt: "port_ok (view i ?t)" using g n by (simp add: good_run_def final_def)
  then have "port_ok (view i (set_pinned i True ?t))"
    using st assms(3) unfolding pv by (intro port_ok_pin) (simp_all add: view_def pwm_consts)
  moreover have "local_run i ?t [set_pinned i True ?t]"
    using write_other(6) [OF assms(2)] by (simp add: local_run_def)
  ultimately show ?thesis
    using g n local_append [of i s ?tr "[set_pinned i True ?t]"] ok_no_both by (simp add: good_run_def final_def)
qed

lemma unpin_good:
  assumes "sys_ok s" "i < 6"
  shows "good_run i s (set_pinned i False s # hbridge_apply_coast i (set_pinned i False s))"
proof -
  let ?s1 = "set_pinned i False s"
  have l: "length (g_devs s) = 6" and ok: "port_ok (view i s)" using assms by (auto simp: sys_ok_def)
  have v1: "view i ?s1 = ((g_devs s ! i)\<lparr>pw_pinned := False\<rparr>, snd (view i s))" using assms(2) l by (simp add: view_def)
  have ok1: "port_ok (view i ?s1)" using ok unfolding v1 by (intro port_ok_pin) (simp_all add: view_def)
  have s1: "sys_ok ?s1"
    using assms(1) ok1 write_other(6) [OF assms(2)] unfolding sys_ok_def by (metis dev_own(10) length_list_update)
  have g: "good_run i ?s1 (hbridge_apply_coast i ?s1)" using s1 assms(2) l by (intro passive_good) simp_all
  have n: "hbridge_apply_coast i ?s1 \<noteq> []" by (simp add: hbridge_apply_coast_def)
  have "local_run i s [?s1]" using write_other(6) [OF assms(2)] by (simp add: local_run_def)
  then have "local_run i s ([?s1] @ hbridge_apply_coast i ?s1)" using g by (intro local_append) (simp_all add: good_run_def)
  then show ?thesis using g n ok1 ok_no_both by (simp add: good_run_def final_def)
qed

section \<open>Reachable systems\<close>

text \<open>One call of the driver's interface, by userspace or by the port engine, with the states it passes through.\<close>

inductive pwm_step :: "pwm_system \<Rightarrow> int \<times> pwm_system list \<Rightarrow> bool" where
  step_duty: "pwm_step s (stm32_legoport_pwm_set_duty lk idx d s)"
| step_coast: "pwm_step s (stm32_legoport_pwm_coast lk idx s)"
| step_brake: "pwm_step s (stm32_legoport_pwm_brake lk idx s)"
| step_pin: "pwm_step s (stm32_legoport_pwm_pin_supply lk idx sign s)"
| step_close: "pwm_step s (stm32_legoport_pwm_close_cleanup lk idx s)"
| step_unpin: "pwm_step s (stm32_legoport_pwm_unpin lk idx s)"

inductive pwm_reach :: "pwm_system \<Rightarrow> bool" where
  boot: "length (g_devs s) = 6 \<Longrightarrow> pwm_reach (stm32_legoport_pwm_initialize s)"
| step: "pwm_reach s \<Longrightarrow> pwm_step s (rc, tr) \<Longrightarrow> pwm_reach (final s tr)"

lemma with_port_good:
  assumes "sys_ok s" "\<And>i. i < 6 \<Longrightarrow> good_run i s (snd (body i))"
  shows "\<exists>i < 6. good_run i s (snd (with_port lk idx body s))"
proof (cases "idx < 0 \<or> idx \<ge> int BOARD_LEGOPORT_COUNT \<or> \<not> pw_initialized (g_devs s ! nat idx) \<or> lk < 0")
  case True
  then have "snd (with_port lk idx body s) = []" by (auto simp: with_port_def)
  then show ?thesis using empty_good [OF assms(1), of 0] by (intro exI [of _ 0]) simp
next
  case False
  then have "with_port lk idx body s = body (nat idx)" "nat idx < 6" by (auto simp: with_port_def pwm_consts)
  then show ?thesis using assms(2) by auto
qed

lemma step_good:
  assumes "sys_ok s" "pwm_step s r"
  shows "\<exists>i < 6. good_run i s (snd r)"
proof -
  have e: "\<exists>i < 6. good_run i s []" using empty_good [OF assms(1), of 0] by (intro exI [of _ 0]) simp
  note good = empty_good [OF assms(1)] passive_good [OF assms(1)] set_duty_good [OF assms(1)]
    pin_good [OF assms(1)] unpin_good [OF assms(1)]
  note wp = with_port_good [OF assms(1)]
  from assms(2) show ?thesis
  proof (cases rule: pwm_step.cases)
    case (step_duty lk idx d)
    let ?b = "\<lambda>i. if pw_pinned (g_devs s ! i) then (- EBUSY, []) else (OK, hbridge_set_duty_internal i d s)"
    have "\<exists>i < 6. good_run i s (snd (with_port lk idx ?b s))" if "\<bar>d\<bar> \<le> 10000"
      using that by (intro wp) (simp add: good)
    then show ?thesis using e step_duty by (auto simp: stm32_legoport_pwm_set_duty_def pwm_consts)
  next
    case (step_pin lk idx sign)
    let ?d = "if sign > 0 then LEGOPORT_PWM_DUTY_MAX else LEGOPORT_PWM_DUTY_MIN"
    let ?b = "\<lambda>i. let tr = hbridge_set_duty_internal i ?d s in (OK, tr @ [set_pinned i True (final s tr)])"
    have "\<exists>i < 6. good_run i s (snd (with_port lk idx ?b s))"
      by (intro wp) (simp add: good pwm_consts Let_def)
    then show ?thesis using e step_pin by (auto simp: stm32_legoport_pwm_pin_supply_def)
  next
    case (step_coast lk idx)
    then show ?thesis unfolding stm32_legoport_pwm_coast_def by (simp only: snd_conv) (rule wp, simp add: good)
  next
    case (step_brake lk idx)
    then show ?thesis unfolding stm32_legoport_pwm_brake_def by (simp only: snd_conv) (rule wp, simp add: good)
  next
    case (step_close lk idx)
    then show ?thesis unfolding stm32_legoport_pwm_close_cleanup_def by (simp only: snd_conv) (rule wp, simp add: good)
  next
    case (step_unpin lk idx)
    then show ?thesis unfolding stm32_legoport_pwm_unpin_def Let_def by (simp only: snd_conv) (rule wp, simp add: good)
  qed
qed

lemma boot_ok:
  assumes "length (g_devs s0) = 6"
  shows "sys_ok (stm32_legoport_pwm_initialize s0)"
proof -
  define f where "f = (\<lambda>p t. final t (hbridge_apply_coast p
      (t\<lparr>g_devs := (g_devs t)[p := \<lparr>pw_duty = 0, pw_state = LEGOPORT_PWM_STATE_COAST,
                                  pw_initialized = True, pw_pinned = False\<rparr>]\<rparr>)))"
  have step: "length (g_devs (f p t)) = 6 \<and> port_ok (view p (f p t)) \<and> (\<forall>j < 6. j \<noteq> p \<longrightarrow> view j (f p t) = view j t)"
    if p: "p < 6" and l: "length (g_devs t) = 6" for p t
  proof -
    let ?t = "t\<lparr>g_devs := (g_devs t)[p := \<lparr>pw_duty = 0, pw_state = LEGOPORT_PWM_STATE_COAST,
                                  pw_initialized = True, pw_pinned = False\<rparr>]\<rparr>"
    let ?r = "last (hbridge_apply_coast p ?t)"
    have n: "hbridge_apply_coast p ?t \<noteq> []" by (simp add: hbridge_apply_coast_def)
    then have fr: "f p t = ?r" by (simp add: f_def final_def)
    have lt: "length (g_devs ?t) = 6" using l by simp
    have "length (g_devs ?r) = 6 \<and> (\<forall>j < 6. j \<noteq> p \<longrightarrow> view j ?r = view j ?t)"
      using bridge_runs_local(1) [OF p, of ?t] last_in_set [OF n] lt unfolding local_run_def list_all_iff by metis
    moreover have "view j ?t = view j t" if "j \<noteq> p" for j using that by (simp add: view_def port_defs)
    moreover have "port_ok (view p ?r)"
      unfolding own_final(1) [OF p lt] using p l by (simp add: port_ok_def pwm_consts)
    ultimately show ?thesis by (simp add: fr)
  qed
  have run: "n \<le> 6 \<Longrightarrow> length (g_devs (fold f [0..<n] t)) = 6 \<and> (\<forall>j < n. port_ok (view j (fold f [0..<n] t)))"
    if "length (g_devs t) = 6" for n t
  proof (induction n)
    case (Suc n)
    then show ?case using step [of n "fold f [0..<n] t"] by (auto simp: less_Suc_eq)
  qed (use that in simp)
  show ?thesis
    using run [of "s0\<lparr>tim_ccr := (\<lambda>r. if snd r \<in> {1, 2, 3, 4} then 0 else tim_ccr s0 r)\<rparr>" 6] assms
    unfolding stm32_legoport_pwm_initialize_def sys_ok_def f_def Let_def BOARD_LEGOPORT_COUNT_def by simp
qed

lemma reach_sys_ok: "pwm_reach s \<Longrightarrow> sys_ok s"
proof (induction rule: pwm_reach.induct)
  case (boot s)
  then show ?case by (rule boot_ok)
next
  case (step s rc tr)
  then obtain i where "i < 6" "good_run i s tr" using step_good [of s "(rc, tr)"] by auto
  then show ?case using good_run_system(1) step.IH by blast
qed

section \<open>Safety of the bridges\<close>

text \<open>
  C20. The two pins of a bridge are never both handed to the timer: in every system that can be reached from
  power-up, every call of the driver, also when it fails, passes only through states in which no port has
  both pins in timer mode, and leaves every port with pins and compare values that are what its recorded
  state says.
\<close>

theorem bridge_never_shoots_through:
  assumes "pwm_reach s" "pwm_step s (rc, tr)"
  shows "list_all (\<lambda>t. list_all (\<lambda>j. \<not> both_af (view j t)) [0..<6]) tr \<and>
    list_all (\<lambda>j. port_ok (view j (final s tr))) [0..<6]"
proof -
  have ok: "sys_ok s" using reach_sys_ok assms(1) by blast
  obtain i where i: "i < 6" "good_run i s tr" using step_good [OF ok assms(2)] by auto
  show ?thesis
    using good_run_system [OF ok i(2,1)] by (simp add: list_all_iff sys_ok_def)
qed

definition demo_pwm :: pwm_system where
  "demo_pwm = stm32_legoport_pwm_initialize
     \<lparr>g_devs = replicate 6 \<lparr>pw_duty = 7, pw_state = LEGOPORT_PWM_STATE_PWM, pw_initialized = False, pw_pinned = True\<rparr>,
      gpio_mode = (\<lambda>_. Pin_Af), tim_ccr = (\<lambda>_. 5)\<rparr>"

lemma demo_pwm_reach: "pwm_reach demo_pwm"
  unfolding demo_pwm_def by (rule boot) simp

theorem bridge_never_shoots_through_witness:
  "let (rc, tr) = stm32_legoport_pwm_set_duty 0 2 (- 5000) demo_pwm in
   list_all (\<lambda>t. list_all (\<lambda>j. \<not> both_af (view j t)) [0..<6]) tr \<and>
   list_all (\<lambda>j. port_ok (view j (final demo_pwm tr))) [0..<6] \<and> length tr = 7"
proof -
  obtain rc tr where r: "stm32_legoport_pwm_set_duty 0 2 (- 5000) demo_pwm = (rc, tr)" by fastforce
  have "length (snd (stm32_legoport_pwm_set_duty 0 2 (- 5000) demo_pwm)) = 7" by code_simp
  then show ?thesis
    using bridge_never_shoots_through [OF demo_pwm_reach step_duty [of demo_pwm 0 2 "- 5000", unfolded r]] r by simp
qed

text \<open>The calls open to userspace.\<close>

datatype pwm_user_op = User_Duty int int int | User_Coast int int | User_Brake int int | User_Close int int

fun pwm_user :: "pwm_user_op \<Rightarrow> pwm_system \<Rightarrow> int \<times> pwm_system list" where
  "pwm_user (User_Duty lk idx d) s = stm32_legoport_pwm_set_duty lk idx d s"
| "pwm_user (User_Coast lk idx) s = stm32_legoport_pwm_coast lk idx s"
| "pwm_user (User_Brake lk idx) s = stm32_legoport_pwm_brake lk idx s"
| "pwm_user (User_Close lk idx) s = stm32_legoport_pwm_close_cleanup lk idx s"

lemma with_port_keeps:
  assumes "i < 6" "\<And>k. k < 6 \<Longrightarrow> list_all (\<lambda>t. view i t = view i s) (snd (body k))"
  shows "list_all (\<lambda>t. view i t = view i s) (snd (with_port lk idx body s))"
  using assms by (auto simp: with_port_def pwm_consts)

lemma local_keeps: "local_run k s tr \<Longrightarrow> i < 6 \<Longrightarrow> i \<noteq> k \<Longrightarrow> list_all (\<lambda>t. view i t = view i s) tr"
  by (auto simp: local_run_def list_all_iff)

lemma user_keeps_pinned:
  assumes "i < 6" "pw_pinned (g_devs s ! i)"
  shows "list_all (\<lambda>t. view i t = view i s) (snd (pwm_user op s))"
proof -
  have k: "list_all (\<lambda>t. view i t = view i s) (hbridge_set_duty_internal k d s)"
    "list_all (\<lambda>t. view i t = view i s) (hbridge_apply_coast k s)"
    "list_all (\<lambda>t. view i t = view i s) (hbridge_apply_brake k s)" if "k < 6" "\<not> pw_pinned (g_devs s ! k)" for k d
  proof -
    have "i \<noteq> k" using that assms by auto
    then show "list_all (\<lambda>t. view i t = view i s) (hbridge_set_duty_internal k d s)"
      "list_all (\<lambda>t. view i t = view i s) (hbridge_apply_coast k s)"
      "list_all (\<lambda>t. view i t = view i s) (hbridge_apply_brake k s)"
      using local_keeps [OF _ assms(1)] set_duty_local [OF that(1)] bridge_runs_local(1,2) [OF that(1)] by blast+
  qed
  show ?thesis
  proof (cases op)
    case (User_Duty lk idx d)
    have "list_all (\<lambda>t. view i t = view i s) (snd (with_port lk idx (\<lambda>i. if pw_pinned (g_devs s ! i) then (- EBUSY, [])
        else (OK, hbridge_set_duty_internal i d s)) s))"
      using k by (intro with_port_keeps assms(1)) simp
    then show ?thesis by (simp add: User_Duty stm32_legoport_pwm_set_duty_def)
  qed (use k in \<open>auto simp: stm32_legoport_pwm_coast_def stm32_legoport_pwm_brake_def
        stm32_legoport_pwm_close_cleanup_def intro!: with_port_keeps assms(1)\<close>)
qed

lemma final_view: "list_all (\<lambda>t. view i t = view i s) tr \<Longrightarrow> view i (final s tr) = view i s"
  by (auto simp: final_def list_all_iff)

text \<open>
  C25. A supply rail is never disturbed from userspace: once the port engine has pinned a port, no sequence of
  duty, coast, brake and close calls on any ports changes that port's pins, compare registers or state; the
  port stays driven at full duty, so that the sensor keeps its supply, until the engine unpins it.
\<close>

theorem supply_rail_undisturbed:
  assumes "pwm_reach s" "i < 6" "pw_pinned (g_devs s ! i)"
  shows "let t = fold (\<lambda>op u. final u (snd (pwm_user op u))) ops s in
     view i t = view i s \<and> pw_state (g_devs t ! i) = LEGOPORT_PWM_STATE_PWM \<and>
     \<bar>pw_duty (g_devs t ! i)\<bar> = LEGOPORT_PWM_DUTY_MAX \<and>
     (if pw_duty (g_devs t ! i) > 0 then pin1 i t = Pin_Af \<and> pin2 i t = Pin_Hi \<and> ccr1 i t = LP_PWM_ARR
      else pin1 i t = Pin_Hi \<and> pin2 i t = Pin_Af \<and> ccr2 i t = LP_PWM_ARR)"
proof -
  let ?t = "fold (\<lambda>op u. final u (snd (pwm_user op u))) ops s"
  have run: "view i (fold (\<lambda>op u. final u (snd (pwm_user op u))) os u) = view i u" if "pw_pinned (g_devs u ! i)" for os u
    using that
  proof (induction os arbitrary: u)
    case (Cons o' os)
    have v: "view i (final u (snd (pwm_user o' u))) = view i u"
      using final_view user_keeps_pinned [OF assms(2) Cons.prems] by blast
    then have "pw_pinned (g_devs (final u (snd (pwm_user o' u))) ! i)" using Cons.prems by (simp add: view_def)
    then show ?case using Cons.IH v by simp
  qed simp
  have v: "view i ?t = view i s" using run assms(3) .
  have "port_ok (view i s)" using reach_sys_ok [OF assms(1)] assms(2) by (simp add: sys_ok_def)
  then have "port_ok (view i ?t)" "pw_pinned (g_devs ?t ! i)" using v assms(3) by (simp_all add: view_def)
  then show ?thesis using v by (auto simp: port_ok_def view_def pwm_consts Let_def)
qed

theorem supply_rail_undisturbed_witness:
  "let s = final demo_pwm (snd (stm32_legoport_pwm_pin_supply 0 1 1 demo_pwm));
       t = fold (\<lambda>op u. final u (snd (pwm_user op u))) [User_Coast 0 1, User_Duty 0 1 0, User_Brake 0 0] s in
   view 1 t = view 1 s \<and> pw_state (g_devs t ! 1) = LEGOPORT_PWM_STATE_PWM \<and> pw_duty (g_devs s ! 1) = 10000"
proof -
  let ?s = "final demo_pwm (snd (stm32_legoport_pwm_pin_supply 0 1 1 demo_pwm))"
  let ?tr = "hbridge_set_duty_internal 1 10000 demo_pwm"
  have r: "pwm_reach ?s"
    using pwm_reach.step [OF demo_pwm_reach, of "fst (stm32_legoport_pwm_pin_supply 0 1 1 demo_pwm)"
        "snd (stm32_legoport_pwm_pin_supply 0 1 1 demo_pwm)"] step_pin [of demo_pwm 0 1 1] by simp
  have ok: "sys_ok demo_pwm" using reach_sys_ok demo_pwm_reach .
  have i: "pw_initialized (g_devs demo_pwm ! 1)" "\<not> pw_pinned (g_devs demo_pwm ! 1)" by code_simp+
  have f: "?s = set_pinned 1 True (final demo_pwm ?tr)"
    using i by (simp add: stm32_legoport_pwm_pin_supply_def with_port_def pwm_consts Let_def final_def)
  have "length (g_devs (final demo_pwm ?tr)) = 6"
    using good_run_system(1) [OF ok set_duty_good [OF ok, of 1 10000]] i by (simp add: sys_ok_def)
  moreover have "pw_duty (g_devs (final demo_pwm ?tr) ! 1) = 10000"
    using set_duty_views(2,3) [of 1 demo_pwm 10000] ok by (auto simp: sys_ok_def final_def view_def)
  ultimately have "pw_pinned (g_devs ?s ! 1)" "pw_duty (g_devs ?s ! 1) = 10000" unfolding f by simp_all
  then show ?thesis
    using supply_rail_undisturbed [OF r, of 1 "[User_Coast 0 1, User_Duty 0 1 0, User_Brake 0 0]"] by (simp add: Let_def)
qed

text \<open>
  Fact. What a duty does: an accepted request for zero brakes the motor (both pins high), any other request
  drives one pin with a compare value of a tenth of its magnitude, never beyond the period, and holds the
  other pin high; no other port changes.
\<close>

theorem bridge_duty_effect:
  assumes "pwm_reach s" "i < 6" "pw_initialized (g_devs s ! i)" "\<not> pw_pinned (g_devs s ! i)" "0 \<le> lk" "\<bar>d\<bar> \<le> 10000"
  shows "let (rc, tr) = stm32_legoport_pwm_set_duty lk (int i) d s; t = final s tr in
     rc = OK \<and> pw_duty (g_devs t ! i) = d \<and> list_all (\<lambda>j. j = i \<or> view j t = view j s) [0..<6] \<and>
     (if d = 0 then pw_state (g_devs t ! i) = LEGOPORT_PWM_STATE_BRAKE \<and> pin1 i t = Pin_Hi \<and> pin2 i t = Pin_Hi
      else if d > 0 then pin1 i t = Pin_Af \<and> pin2 i t = Pin_Hi \<and> ccr1 i t = d div 10 \<and> ccr1 i t \<le> LP_PWM_ARR
      else pin1 i t = Pin_Hi \<and> pin2 i t = Pin_Af \<and> ccr2 i t = (- d) div 10 \<and> ccr2 i t \<le> LP_PWM_ARR)"
proof -
  let ?tr = "hbridge_set_duty_internal i d s"
  have ok: "length (g_devs s) = 6" "port_ok (view i s)"
    using reach_sys_ok [OF assms(1)] assms(2) by (simp_all add: sys_ok_def)
  note v = set_duty_views [OF assms(2) ok assms(6)]
  have c: "stm32_legoport_pwm_set_duty lk (int i) d s = (OK, ?tr)"
    using assms by (auto simp: stm32_legoport_pwm_set_duty_def with_port_def pwm_consts)
  have f: "final s ?tr = last ?tr" using v(3) by (simp add: final_def)
  have "view j (last ?tr) = view j s" if "j < 6" "j \<noteq> i" for j
    using local_keeps [OF set_duty_local [OF assms(2)] that] last_in_set [OF v(3)] by (simp add: list_all_iff)
  then have "list_all (\<lambda>j. j = i \<or> view j (last ?tr) = view j s) [0..<6]" unfolding list_all_iff by fastforce
  moreover obtain c1 c2 where "view i (last ?tr) =
      (if d = 0 then ((g_devs s ! i)\<lparr>pw_state := LEGOPORT_PWM_STATE_BRAKE, pw_duty := 0\<rparr>, Pin_Hi, Pin_Hi, c1, c2)
       else if d > 0 then ((g_devs s ! i)\<lparr>pw_state := LEGOPORT_PWM_STATE_PWM, pw_duty := d\<rparr>, Pin_Af, Pin_Hi, d div 10, c2)
       else ((g_devs s ! i)\<lparr>pw_state := LEGOPORT_PWM_STATE_PWM, pw_duty := d\<rparr>, Pin_Hi, Pin_Af, c1, (- d) div 10))"
    using v(2) by blast
  moreover have "d > 0 \<Longrightarrow> d div 10 \<le> 1000" "d < 0 \<Longrightarrow> (- d) div 10 \<le> 1000" using assms(6) by auto
  ultimately show ?thesis unfolding c Let_def prod.case f by (auto simp: view_def pwm_consts split: if_splits)
qed

theorem bridge_duty_effect_witness:
  "let (rc, tr) = stm32_legoport_pwm_set_duty 0 (int 3) (- 2500) demo_pwm; t = final demo_pwm tr in
   rc = OK \<and> pin1 3 t = Pin_Hi \<and> pin2 3 t = Pin_Af \<and> ccr2 3 t = 250"
proof -
  have "pw_initialized (g_devs demo_pwm ! 3)" "\<not> pw_pinned (g_devs demo_pwm ! 3)" by code_simp+
  then show ?thesis using bridge_duty_effect [OF demo_pwm_reach, of 3 0 "- 2500"] by (auto simp: Let_def split: prod.splits)
qed

end
