(* ===== verification/Lump_Queue.thy ===== *)
theory Lump_Queue
  imports Prelude
begin

text \<open>
  The engine-owned ring of LUMP DATA frames, \<^verbatim>\<open>boards/spike-prime-hub/src/lump_data_queue.h\<close>: a
  16-slot ring that drops the oldest frame when full, tied to a session number that is never reused
  during one boot. Every operation runs under the port mutex, so each is one step.
\<close>

section \<open>State\<close>

definition LUMP_MAX_MODES :: nat where "LUMP_MAX_MODES = 8"
definition LUMP_MAX_PAYLOAD :: nat where "LUMP_MAX_PAYLOAD = 32"
definition LUMP_DATA_QUEUE :: nat where "LUMP_DATA_QUEUE = 16"

record lump_data_frame_s =
  frame_mode :: byte
  frame_len :: byte
  frame_reserved :: "byte list"
  frame_data :: "byte list"

record lump_data_session_frame_s =
  sf_session :: "64 word"
  sf_frame :: lump_data_frame_s
  sf_reserved :: "32 word"

record lump_data_queue_s =
  q_frames :: "lump_data_frame_s list"
  q_session :: "64 word"
  q_dropped :: "32 word"
  q_head :: nat
  q_tail :: nat
  q_count :: nat
  q_active :: bool

section \<open>Operations\<close>

definition lump_data_queue_invalidate :: "lump_data_queue_s \<Rightarrow> lump_data_queue_s" where
  "lump_data_queue_invalidate q = q\<lparr>q_active := False, q_head := 0, q_tail := 0, q_count := 0\<rparr>"

definition lump_data_queue_begin :: "lump_data_queue_s \<Rightarrow> int \<times> lump_data_queue_s" where
  "lump_data_queue_begin q =
     (let q1 = (lump_data_queue_invalidate q)\<lparr>q_dropped := 0\<rparr> in
      if q_session q1 = - 1 then (- EOVERFLOW, q1)
      else (0, q1\<lparr>q_session := q_session q1 + 1, q_active := True\<rparr>))"

definition lump_data_queue_push ::
    "lump_data_frame_s option \<Rightarrow> lump_data_queue_s \<Rightarrow> int \<times> lump_data_queue_s" where
  "lump_data_queue_push frame q =
     (case frame of
        None \<Rightarrow> (- EINVAL, q)
      | Some f \<Rightarrow>
          if frame_len f = 0 \<or> unat (frame_len f) > LUMP_MAX_PAYLOAD \<or>
             unat (frame_mode f) \<ge> LUMP_MAX_MODES then (- EINVAL, q)
          else if \<not> q_active q then (- EAGAIN, q)
          else
            let q1 = (if q_count q = LUMP_DATA_QUEUE
                      then q\<lparr>q_tail := (q_tail q + 1) mod LUMP_DATA_QUEUE,
                             q_count := q_count q - 1, q_dropped := q_dropped q + 1\<rparr>
                      else q) in
            (0, q1\<lparr>q_frames := (q_frames q1)[q_head q1 := f],
                   q_head := (q_head q1 + 1) mod LUMP_DATA_QUEUE,
                   q_count := q_count q1 + 1\<rparr>))"

definition lump_data_queue_pop ::
    "bool \<Rightarrow> lump_data_queue_s \<Rightarrow> int \<times> lump_data_session_frame_s option \<times> lump_data_queue_s" where
  "lump_data_queue_pop out_given q =
     (if \<not> out_given then (- EINVAL, None, q)
      else if \<not> q_active q \<or> q_count q = 0 then (- EAGAIN, None, q)
      else (0,
            Some \<lparr>sf_session = q_session q, sf_frame = q_frames q ! q_tail q, sf_reserved = 0\<rparr>,
            q\<lparr>q_tail := (q_tail q + 1) mod LUMP_DATA_QUEUE, q_count := q_count q - 1\<rparr>))"

section \<open>The bounded queue as a specification\<close>

text \<open>
  A bounded first-in first-out queue that forgets its oldest element when it is full. The client
  lemmas say what any sequence of pushes leaves and that pops return it in order.
\<close>

fun drain :: "('q \<Rightarrow> 'a option \<times> 'q) \<Rightarrow> nat \<Rightarrow> 'q \<Rightarrow> 'a list" where
  "drain get 0 q = []"
| "drain get (Suc n) q = (case get q of (None, q') \<Rightarrow> [] | (Some x, q') \<Rightarrow> x # drain get n q')"

locale lossy_fifo =
  fixes put :: "'a \<Rightarrow> 'q \<Rightarrow> 'q"
    and get :: "'q \<Rightarrow> 'a option \<times> 'q"
    and contents :: "'q \<Rightarrow> 'a list"
    and inv :: "'q \<Rightarrow> bool"
    and ok :: "'a \<Rightarrow> bool"
    and cap :: nat
  assumes cap_pos: "0 < cap"
    and bounded: "inv q \<Longrightarrow> length (contents q) \<le> cap"
    and put_inv: "inv q \<Longrightarrow> ok x \<Longrightarrow> inv (put x q)"
    and put_contents: "inv q \<Longrightarrow> ok x \<Longrightarrow>
      contents (put x q) = (if length (contents q) = cap then tl (contents q) else contents q) @ [x]"
    and get_inv: "inv q \<Longrightarrow> inv (snd (get q))"
    and get_contents: "inv q \<Longrightarrow>
      (case contents q of
         [] \<Rightarrow> fst (get q) = None \<and> contents (snd (get q)) = []
       | x # xs \<Rightarrow> fst (get q) = Some x \<and> contents (snd (get q)) = xs)"
begin

lemma put_all_inv: "inv q \<Longrightarrow> \<forall>x \<in> set xs. ok x \<Longrightarrow> inv (fold put xs q)"
  by (induction xs arbitrary: q) (auto simp: put_inv)

lemma put_drop:
  assumes "inv q" "ok x"
  shows "contents (put x q) = drop (length (contents q) + 1 - cap) (contents q @ [x])"
proof (cases "length (contents q) = cap")
  case True
  then show ?thesis using assms cap_pos by (cases "contents q") (simp_all add: put_contents)
next
  case False
  then have "length (contents q) + 1 - cap = 0" using bounded [OF assms(1)] by simp
  then show ?thesis using assms False by (simp add: put_contents)
qed

lemma put_all_contents:
  "inv q \<Longrightarrow> \<forall>x \<in> set xs. ok x \<Longrightarrow>
   contents (fold put xs q) = drop (length (contents q) + length xs - cap) (contents q @ xs)"
proof (induction xs rule: rev_induct)
  case Nil
  then show ?case using bounded [of q] by simp
next
  case (snoc x xs)
  let ?c = "contents q @ xs" and ?n = "length (contents q) + length xs"
  have ih: "contents (fold put xs q) = drop (?n - cap) ?c" using snoc by simp
  have iv: "inv (fold put xs q)" using snoc.prems by (simp add: put_all_inv)
  have "contents (fold put (xs @ [x]) q) =
      drop (length (drop (?n - cap) ?c) + 1 - cap) (drop (?n - cap) ?c @ [x])"
    using put_drop [OF iv, of x] snoc.prems(2) ih by simp
  also have "drop (?n - cap) ?c @ [x] = drop (?n - cap) (?c @ [x])" by simp
  also have "drop (length (drop (?n - cap) ?c) + 1 - cap) (drop (?n - cap) (?c @ [x])) =
      drop (length (drop (?n - cap) ?c) + 1 - cap + (?n - cap)) (?c @ [x])"
    by (simp only: drop_drop)
  also have "length (drop (?n - cap) ?c) + 1 - cap + (?n - cap) =
      length (contents q) + length (xs @ [x]) - cap"
    using cap_pos by simp
  finally show ?case by simp
qed

lemma get_all_contents: "inv q \<Longrightarrow> drain get n q = take n (contents q)"
proof (induction n arbitrary: q)
  case (Suc n)
  obtain r q' where g: "get q = (r, q')" by (cases "get q")
  have iv: "inv q'" using get_inv [OF Suc.prems] g by simp
  show ?case using get_contents [OF Suc.prems] g Suc.IH [OF iv] by (cases "contents q") auto
qed simp

end

section \<open>The ring implements it\<close>

definition ring_ok :: "lump_data_queue_s \<Rightarrow> bool" where
  "ring_ok q \<longleftrightarrow> length (q_frames q) = LUMP_DATA_QUEUE \<and> q_head q < LUMP_DATA_QUEUE \<and>
     q_tail q < LUMP_DATA_QUEUE \<and> q_count q \<le> LUMP_DATA_QUEUE \<and>
     q_head q = (q_tail q + q_count q) mod LUMP_DATA_QUEUE \<and>
     (\<not> q_active q \<longrightarrow> q_count q = 0)"

definition ring_list :: "lump_data_queue_s \<Rightarrow> lump_data_frame_s list" where
  "ring_list q = map (\<lambda>i. q_frames q ! ((q_tail q + i) mod LUMP_DATA_QUEUE)) [0..<q_count q]"

definition valid_frame :: "lump_data_frame_s \<Rightarrow> bool" where
  "valid_frame f \<longleftrightarrow> frame_len f \<noteq> 0 \<and> unat (frame_len f) \<le> LUMP_MAX_PAYLOAD \<and>
     unat (frame_mode f) < LUMP_MAX_MODES"

definition ring_put :: "lump_data_frame_s \<Rightarrow> lump_data_queue_s \<Rightarrow> lump_data_queue_s" where
  "ring_put f q = snd (lump_data_queue_push (Some f) q)"

definition ring_get :: "lump_data_queue_s \<Rightarrow> lump_data_frame_s option \<times> lump_data_queue_s" where
  "ring_get q = (case lump_data_queue_pop True q of (rc, out, q') \<Rightarrow> (map_option sf_frame out, q'))"

text \<open>A client that polls up to \<open>n\<close> times and stops at the first refusal.\<close>

fun pop_frames :: "nat \<Rightarrow> lump_data_queue_s \<Rightarrow> lump_data_frame_s list" where
  "pop_frames 0 q = []"
| "pop_frames (Suc n) q =
     (case lump_data_queue_pop True q of
        (rc, None, q') \<Rightarrow> []
      | (rc, Some sf, q') \<Rightarrow> sf_frame sf # pop_frames n q')"

lemma pop_frames_drain: "pop_frames n q = drain ring_get n q"
  by (induction n arbitrary: q) (auto simp: ring_get_def split: prod.splits option.splits)

lemma ring_invalidate: "length (q_frames q) = LUMP_DATA_QUEUE \<Longrightarrow>
   ring_ok (lump_data_queue_invalidate q) \<and> ring_list (lump_data_queue_invalidate q) = []"
  by (simp add: ring_ok_def ring_list_def lump_data_queue_invalidate_def LUMP_DATA_QUEUE_def)

lemma ring_begin:
  "length (q_frames q) = LUMP_DATA_QUEUE \<Longrightarrow>
   ring_ok (snd (lump_data_queue_begin q)) \<and> ring_list (snd (lump_data_queue_begin q)) = []"
  by (simp add: ring_ok_def ring_list_def lump_data_queue_begin_def lump_data_queue_invalidate_def
      LUMP_DATA_QUEUE_def Let_def)

lemma push_ok: "valid_frame f \<Longrightarrow> q_active q \<Longrightarrow> fst (lump_data_queue_push (Some f) q) = 0"
  by (simp add: lump_data_queue_push_def valid_frame_def Let_def)

lemma push_refused_same: "fst (lump_data_queue_push frame q) \<noteq> 0 \<Longrightarrow> snd (lump_data_queue_push frame q) = q"
  by (auto simp: lump_data_queue_push_def Let_def split: option.splits if_splits)

lemma ring_mod_facts:
  "((t + c) mod 16 + 1) mod 16 = (t + (c + 1)) mod (16::nat)"
  "t < 16 \<Longrightarrow> ((t + 16) mod 16 + 1) mod 16 = ((t + 1) mod 16 + 16) mod (16::nat)"
  "((t + 1) mod 16 + i) mod 16 = (t + Suc i) mod (16::nat)"
  by (simp_all add: mod_Suc_eq mod_add_left_eq)

lemma ring_mod_pop: "0 < c \<Longrightarrow> ((t + 1) mod 16 + (c - 1)) mod 16 = (t + c) mod (16::nat)"
  by (cases c) (simp_all add: mod_add_left_eq)

lemma ring_put_ok:
  assumes "ring_ok q" "q_active q" "valid_frame f"
  shows "ring_ok (ring_put f q)"
proof (cases "q_count q = LUMP_DATA_QUEUE")
  case True
  then show ?thesis
    using assms ring_mod_facts(2) [of "q_tail q"]
    by (simp add: ring_put_def lump_data_queue_push_def valid_frame_def ring_ok_def Let_def
        LUMP_DATA_QUEUE_def)
next
  case False
  then show ?thesis
    using assms ring_mod_facts(1) [of "q_tail q" "q_count q"]
    by (simp add: ring_put_def lump_data_queue_push_def valid_frame_def ring_ok_def Let_def
        LUMP_DATA_QUEUE_def)
qed

lemma ring_list_advance:
  assumes "q_count q = Suc n"
  shows "ring_list (q\<lparr>q_tail := (q_tail q + 1) mod LUMP_DATA_QUEUE, q_count := n\<rparr>) = tl (ring_list q)"
proof -
  have "[0..<Suc n] = 0 # map Suc [0..<n]" by (simp add: map_Suc_upt upt_conv_Cons)
  then show ?thesis
    using assms ring_mod_facts(3) [of "q_tail q"]
    by (simp add: ring_list_def LUMP_DATA_QUEUE_def del: upt_Suc)
qed

lemma ring_slot_inj:
  assumes "i < (16::nat)" "j < 16" "i < j"
  shows "(t + j) mod 16 \<noteq> (t + i) mod 16"
proof -
  have "\<not> 16 dvd j - i" using assms by (simp add: nat_dvd_not_less)
  then show ?thesis using assms(3) mod_eq_dvd_iff_nat [of "t + i" "t + j" 16] by simp
qed

lemma ring_put_list_room:
  assumes "ring_ok q" "q_active q" "valid_frame f" "q_count q < LUMP_DATA_QUEUE"
  shows "ring_list (ring_put f q) = ring_list q @ [f]"
proof -
  have q: "ring_put f q = q\<lparr>q_frames := (q_frames q)[q_head q := f],
      q_head := (q_head q + 1) mod LUMP_DATA_QUEUE, q_count := q_count q + 1\<rparr>"
    using assms by (simp add: ring_put_def lump_data_queue_push_def valid_frame_def Let_def)
  have h: "q_head q = (q_tail q + q_count q) mod 16" "length (q_frames q) = 16" "q_count q < 16"
    using assms(1,4) by (simp_all add: ring_ok_def LUMP_DATA_QUEUE_def)
  have "(q_frames q)[q_head q := f] ! ((q_tail q + i) mod 16) = q_frames q ! ((q_tail q + i) mod 16)"
    if "i < q_count q" for i
    using ring_slot_inj [of i "q_count q" "q_tail q"] that h by simp
  then show ?thesis
    using h by (simp add: q ring_list_def LUMP_DATA_QUEUE_def)
qed

lemma ring_put_list_full:
  assumes "ring_ok q" "q_active q" "valid_frame f" "q_count q = LUMP_DATA_QUEUE"
  shows "ring_list (ring_put f q) = tl (ring_list q) @ [f]"
proof -
  let ?q1 = "q\<lparr>q_tail := (q_tail q + 1) mod LUMP_DATA_QUEUE, q_count := q_count q - 1,
      q_dropped := q_dropped q + 1\<rparr>"
  have ok: "ring_ok ?q1"
    using assms(1,2,4) ring_mod_pop [of 16 "q_tail q"]
    by (simp add: ring_ok_def LUMP_DATA_QUEUE_def)
  have eq: "ring_put f q = ring_put f ?q1"
    using assms by (simp add: ring_put_def lump_data_queue_push_def valid_frame_def Let_def
        LUMP_DATA_QUEUE_def)
  have "ring_list ?q1 = tl (ring_list q)"
    using ring_list_advance [of q 15] assms(4) by (simp add: ring_list_def LUMP_DATA_QUEUE_def)
  then show ?thesis
    using ring_put_list_room [OF ok] assms by (simp add: eq LUMP_DATA_QUEUE_def)
qed

lemma ring_get_list:
  assumes "ring_ok q"
  shows "case ring_list q of
      [] \<Rightarrow> ring_get q = (None, q)
    | x # xs \<Rightarrow> fst (ring_get q) = Some x \<and> ring_list (snd (ring_get q)) = xs"
proof (cases "q_count q")
  case 0
  then show ?thesis by (simp add: ring_list_def ring_get_def lump_data_queue_pop_def)
next
  case (Suc n)
  then have act: "q_active q" using assms by (auto simp: ring_ok_def)
  have t: "q_tail q < 16" using assms by (simp add: ring_ok_def LUMP_DATA_QUEUE_def)
  have ne: "ring_list q = q_frames q ! q_tail q # tl (ring_list q)"
    using Suc t by (simp add: ring_list_def LUMP_DATA_QUEUE_def upt_conv_Cons del: upt_Suc)
  have g: "ring_get q = (Some (q_frames q ! q_tail q),
      q\<lparr>q_tail := (q_tail q + 1) mod LUMP_DATA_QUEUE, q_count := n\<rparr>)"
    using Suc act by (simp add: ring_get_def lump_data_queue_pop_def)
  show ?thesis
    by (subst ne) (simp add: g ring_list_advance [OF Suc, simplified])
qed

lemma ring_get_ok: "ring_ok q \<Longrightarrow> ring_ok (snd (ring_get q))"
  using ring_mod_pop [of "q_count q" "q_tail q"]
  by (auto simp: ring_get_def lump_data_queue_pop_def ring_ok_def LUMP_DATA_QUEUE_def)

lemma ring_put_active: "q_active (ring_put f q) = q_active q"
  by (simp add: ring_put_def lump_data_queue_push_def Let_def)

lemma ring_get_active: "q_active (snd (ring_get q)) = q_active q"
  by (simp add: ring_get_def lump_data_queue_pop_def)

lemma ring_list_length: "length (ring_list q) = q_count q"
  by (simp add: ring_list_def)

interpretation lump_ring: lossy_fifo ring_put ring_get ring_list
  "\<lambda>q. ring_ok q \<and> q_active q" valid_frame LUMP_DATA_QUEUE
proof unfold_locales
  show "0 < LUMP_DATA_QUEUE" by (simp add: LUMP_DATA_QUEUE_def)
next
  fix q assume "ring_ok q \<and> q_active q"
  then show "length (ring_list q) \<le> LUMP_DATA_QUEUE" by (simp add: ring_list_length ring_ok_def)
next
  fix q f assume "ring_ok q \<and> q_active q" "valid_frame f"
  then show "ring_ok (ring_put f q) \<and> q_active (ring_put f q)"
    by (simp add: ring_put_ok ring_put_active)
next
  fix q f assume a: "ring_ok q \<and> q_active q" "valid_frame f"
  then have "q_count q \<le> LUMP_DATA_QUEUE" by (simp add: ring_ok_def)
  then show "ring_list (ring_put f q) =
      (if length (ring_list q) = LUMP_DATA_QUEUE then tl (ring_list q) else ring_list q) @ [f]"
    using a ring_put_list_room [of q f] ring_put_list_full [of q f] by (auto simp: ring_list_length)
next
  fix q assume "ring_ok q \<and> q_active q"
  then show "ring_ok (snd (ring_get q)) \<and> q_active (snd (ring_get q))"
    by (simp add: ring_get_ok ring_get_active)
next
  fix q assume a: "ring_ok q \<and> q_active q"
  then show "case ring_list q of
      [] \<Rightarrow> fst (ring_get q) = None \<and> ring_list (snd (ring_get q)) = []
    | x # xs \<Rightarrow> fst (ring_get q) = Some x \<and> ring_list (snd (ring_get q)) = xs"
    using ring_get_list [of q] by (auto split: list.splits)
qed

section \<open>Sessions\<close>

text \<open>
  Any interleaving of the ring's operations, with a ghost log of what was accepted: each frame is
  logged with the session number in force when it was pushed.
\<close>

inductive lump_reachable :: "lump_data_queue_s \<Rightarrow> (64 word \<times> lump_data_frame_s) set \<Rightarrow> bool" where
  boot: "length frames = LUMP_DATA_QUEUE \<Longrightarrow>
    lump_reachable \<lparr>q_frames = frames, q_session = 0, q_dropped = 0, q_head = 0, q_tail = 0,
      q_count = 0, q_active = False\<rparr> {}"
| invalidate: "lump_reachable q log \<Longrightarrow> lump_reachable (lump_data_queue_invalidate q) log"
| begin_session: "lump_reachable q log \<Longrightarrow> lump_reachable (snd (lump_data_queue_begin q)) log"
| push_accepted: "lump_reachable q log \<Longrightarrow> lump_data_queue_push (Some f) q = (0, q') \<Longrightarrow>
    lump_reachable q' (insert (q_session q, f) log)"
| push_refused: "lump_reachable q log \<Longrightarrow> lump_data_queue_push frame q = (rc, q') \<Longrightarrow> rc \<noteq> 0 \<Longrightarrow>
    lump_reachable q' log"
| pop: "lump_reachable q log \<Longrightarrow> lump_data_queue_pop out_given q = (rc, out, q') \<Longrightarrow>
    lump_reachable q' log"

definition session_inv :: "lump_data_queue_s \<Rightarrow> (64 word \<times> lump_data_frame_s) set \<Rightarrow> bool" where
  "session_inv q log \<longleftrightarrow> ring_ok q \<and> (\<forall>f \<in> set (ring_list q). (q_session q, f) \<in> log) \<and>
     (\<forall>(s, f) \<in> log. s \<le> q_session q)"

lemma push_accepted_facts:
  assumes "lump_data_queue_push (Some f) q = (0, q')"
  shows "valid_frame f" "q_active q" "q' = ring_put f q" "q_session q' = q_session q"
  using assms
  by (auto simp: lump_data_queue_push_def valid_frame_def ring_put_def Let_def errno_defs
      split: if_splits)

lemma ring_put_set:
  assumes "ring_ok q" "q_active q" "valid_frame f"
  shows "set (ring_list (ring_put f q)) \<subseteq> insert f (set (ring_list q))"
proof -
  have "set (tl (ring_list q)) \<subseteq> set (ring_list q)" by (cases "ring_list q") auto
  then show ?thesis using lump_ring.put_contents [of q f] assms by auto
qed

lemma pop_state: "lump_data_queue_pop out_given q = (rc, out, q') \<Longrightarrow> q' = q \<or> q' = snd (ring_get q)"
  by (auto simp: lump_data_queue_pop_def ring_get_def split: if_splits)

lemma pop_session: "lump_data_queue_pop out_given q = (rc, out, q') \<Longrightarrow> q_session q' = q_session q"
  by (auto simp: lump_data_queue_pop_def split: if_splits)

lemma ring_get_set: "ring_ok q \<Longrightarrow> set (ring_list (snd (ring_get q))) \<subseteq> set (ring_list q)"
  using ring_get_list [of q] by (auto split: list.splits)

lemma word_less_plus_one: "(x :: 64 word) \<noteq> - 1 \<Longrightarrow> x < x + 1"
proof -
  assume "x \<noteq> - 1"
  then have "1 + x \<noteq> 0" by (metis add.inverse_unique)
  then have "unat (1 + x) = Suc (unat x)" by (rule unatSuc)
  then show ?thesis by (simp add: word_less_nat_alt add.commute)
qed

lemma begin_session_le:
  "s \<le> q_session q \<Longrightarrow> s \<le> q_session (snd (lump_data_queue_begin q))"
proof -
  assume s: "s \<le> q_session q"
  have "q_session q \<le> q_session q + 1" if "q_session q \<noteq> - 1"
    using word_less_plus_one [OF that] by simp
  then show ?thesis
    using s by (auto simp: lump_data_queue_begin_def lump_data_queue_invalidate_def Let_def)
qed

lemma lump_reachable_inv: "lump_reachable q log \<Longrightarrow> session_inv q log"
proof (induction rule: lump_reachable.induct)
  case (boot frames)
  then show ?case by (simp add: session_inv_def ring_ok_def ring_list_def LUMP_DATA_QUEUE_def)
next
  case (invalidate q log)
  then show ?case
    using ring_invalidate [of q]
    by (simp add: session_inv_def ring_ok_def lump_data_queue_invalidate_def)
next
  case (begin_session q log)
  then show ?case
    using ring_begin [of q] begin_session_le [of _ q] by (auto simp: session_inv_def ring_ok_def)
next
  case (push_accepted q log f q')
  note f = push_accepted_facts [OF push_accepted(2)]
  have r: "ring_ok q" using push_accepted.IH by (simp add: session_inv_def)
  show ?case
    using push_accepted.IH ring_put_ok [OF r f(2,1)] ring_put_set [OF r f(2,1)] f(3,4)
    by (auto simp: session_inv_def)
next
  case (push_refused q log frame rc q')
  then show ?case using push_refused_same [of frame q] by simp
next
  case (pop q log out_given rc out q')
  have r: "ring_ok q" using pop.IH by (simp add: session_inv_def)
  show ?case
    using pop_state [OF pop(2)] pop_session [OF pop(2)] pop.IH ring_get_ok [OF r] ring_get_set [OF r]
    by (auto simp: session_inv_def)
qed

text \<open>
  C4. The ring delivers in order and loses only the oldest: after a session begins, pushing any
  sequence of valid frames and then popping up to \<open>n\<close> times yields the first \<open>n\<close> of the last 16
  pushed, in the order they were pushed.
\<close>
theorem lump_ring_fifo:
  assumes "length (q_frames q) = LUMP_DATA_QUEUE"
    and "lump_data_queue_begin q = (0, q1)"
    and "\<forall>f \<in> set fs. valid_frame f"
  shows "pop_frames n (fold (\<lambda>f q. snd (lump_data_queue_push (Some f) q)) fs q1) =
    take n (drop (length fs - LUMP_DATA_QUEUE) fs)"
proof -
  have q1: "ring_ok q1" "ring_list q1 = []" using ring_begin [OF assms(1)] assms(2) by simp_all
  have act: "q_active q1" using assms(2)
    by (auto simp: lump_data_queue_begin_def Let_def errno_defs split: if_splits)
  have push: "(\<lambda>f q. snd (lump_data_queue_push (Some f) q)) = ring_put"
    by (rule ext)+ (simp add: ring_put_def)
  show ?thesis
    using lump_ring.get_all_contents [OF lump_ring.put_all_inv, of q1 fs n]
      lump_ring.put_all_contents [of q1 fs] q1 act assms(3)
    by (simp add: push pop_frames_drain)
qed

definition example_frame :: "byte \<Rightarrow> lump_data_frame_s" where
  "example_frame m = \<lparr>frame_mode = m, frame_len = 1, frame_reserved = [0, 0], frame_data = [m]\<rparr>"

definition boot_queue :: lump_data_queue_s where
  "boot_queue = \<lparr>q_frames = replicate LUMP_DATA_QUEUE (example_frame 0), q_session = 0, q_dropped = 0,
     q_head = 0, q_tail = 0, q_count = 0, q_active = False\<rparr>"

lemma example_frame_valid: "m < 8 \<Longrightarrow> valid_frame (example_frame m)"
  by (simp add: valid_frame_def example_frame_def LUMP_MAX_PAYLOAD_def LUMP_MAX_MODES_def
      word_less_nat_alt)

lemma boot_queue_reachable: "lump_reachable boot_queue {}"
  unfolding boot_queue_def by (rule lump_reachable.boot) simp

lemma boot_queue_begin:
  "lump_data_queue_begin boot_queue = (0, boot_queue\<lparr>q_session := 1, q_active := True\<rparr>)"
  by (simp add: lump_data_queue_begin_def lump_data_queue_invalidate_def boot_queue_def Let_def)

theorem lump_ring_fifo_witness:
  "pop_frames 5 (fold (\<lambda>f q. snd (lump_data_queue_push (Some f) q))
     (replicate 16 (example_frame 1) @ [example_frame 2]) (snd (lump_data_queue_begin boot_queue))) =
   replicate 5 (example_frame 1)"
proof -
  have len: "length (q_frames boot_queue) = LUMP_DATA_QUEUE" by (simp add: boot_queue_def)
  have ok: "\<forall>f \<in> set (replicate 16 (example_frame 1) @ [example_frame 2]). valid_frame f"
    using example_frame_valid [of 1] example_frame_valid [of 2] by simp
  show ?thesis
    using lump_ring_fifo [OF len boot_queue_begin ok, of 5]
    by (simp add: boot_queue_begin LUMP_DATA_QUEUE_def)
qed

text \<open>
  Fact. Session isolation: in every state the ring can reach, a frame handed out was accepted under
  exactly the session number it is handed out with, so a frame queued before a reset never
  surfaces in a later session.
\<close>
theorem lump_session_isolation:
  assumes "lump_reachable q log"
    and "lump_data_queue_pop True q = (0, Some sf, q')"
  shows "(sf_session sf, sf_frame sf) \<in> log"
proof -
  have iv: "session_inv q log" using assms(1) by (rule lump_reachable_inv)
  have g: "fst (ring_get q) = Some (sf_frame sf)" "sf_session sf = q_session q"
    using assms(2) by (auto simp: ring_get_def lump_data_queue_pop_def split: if_splits)
  have "sf_frame sf \<in> set (ring_list q)"
    using ring_get_list [of q] iv g(1) by (auto simp: session_inv_def split: list.splits)
  then show ?thesis using iv g(2) by (simp add: session_inv_def)
qed

theorem lump_session_isolation_witness:
  "\<exists>q log sf q'. lump_reachable q log \<and> lump_data_queue_pop True q = (0, Some sf, q') \<and>
     (sf_session sf, sf_frame sf) \<in> log"
proof -
  let ?q1 = "snd (lump_data_queue_begin boot_queue)" and ?f = "example_frame 3"
  let ?q2 = "snd (lump_data_queue_push (Some ?f) ?q1)"
  have r1: "lump_reachable ?q1 {}"
    by (rule lump_reachable.begin_session [OF boot_queue_reachable])
  have "fst (lump_data_queue_push (Some ?f) ?q1) = 0"
    by (rule push_ok) (simp_all add: example_frame_valid boot_queue_begin)
  then have "lump_data_queue_push (Some ?f) ?q1 = (0, ?q2)" by (metis prod.collapse)
  from lump_reachable.push_accepted [OF r1 this]
  have r2: "lump_reachable ?q2 {(q_session ?q1, ?f)}" by simp
  obtain sf q' where p: "lump_data_queue_pop True ?q2 = (0, Some sf, q')"
    using example_frame_valid [of 3]
    by (simp add: lump_data_queue_pop_def lump_data_queue_push_def boot_queue_begin Let_def
        valid_frame_def) (simp add: boot_queue_def LUMP_DATA_QUEUE_def)
  show ?thesis using r2 p lump_session_isolation [OF r2 p] by blast
qed

text \<open>
  Fact. Session numbers are never reused: a successful \<^verbatim>\<open>lump_data_queue_begin\<close> in any reachable
  state opens a session under whose number nothing has ever been accepted, and the counter stops
  with \<^verbatim>\<open>-EOVERFLOW\<close> rather than wrap to an old number.
\<close>
theorem lump_session_fresh:
  assumes "lump_reachable q log"
  shows "if q_session q = - 1 then fst (lump_data_queue_begin q) = - EOVERFLOW
     else fst (lump_data_queue_begin q) = 0 \<and>
          (\<forall>f. (q_session (snd (lump_data_queue_begin q)), f) \<notin> log)"
proof -
  have "\<forall>(s, f) \<in> log. s \<le> q_session q"
    using lump_reachable_inv [OF assms] by (simp add: session_inv_def)
  moreover have "q_session q < q_session q + 1" if "q_session q \<noteq> - 1"
    using that by (rule word_less_plus_one)
  ultimately show ?thesis
    by (fastforce simp: lump_data_queue_begin_def lump_data_queue_invalidate_def Let_def)
qed

theorem lump_session_fresh_witness:
  "fst (lump_data_queue_begin boot_queue) = 0 \<and>
   (\<forall>f. (q_session (snd (lump_data_queue_begin boot_queue)), f) \<notin> {})"
  using lump_session_fresh [OF boot_queue_reachable] by (simp add: boot_queue_def)

end
