(* ===== verification/Lump_Frames.thy ===== *)
theory Lump_Frames
  imports Lump_Queue
begin

text \<open>
  The wire format and the state of the LUMP engine, \<^verbatim>\<open>boards/spike-prime-hub/src/stm32_legoport_lump.c\<close>:
  the device description it collects, the engine record of one port, the frame receiver and the frame
  senders. The UART is a tape: the results of the byte reads and of the writes are arguments, what is
  written is an output. A read that has no result yet is the value None, so a call that waits forever never
  returns. The theorems show that a frame a sender builds is received as it is, and that the checksum
  catches every corruption of one byte.
\<close>

section \<open>Constants\<close>

definition LUMP_MAX_NAME_LEN :: nat where "LUMP_MAX_NAME_LEN = 12"
definition LUMP_MAX_UNITS_LEN :: nat where "LUMP_MAX_UNITS_LEN = 4"

definition LUMP_FLAG_SYNCED :: byte where "LUMP_FLAG_SYNCED = 1"
definition LUMP_FLAG_DATA_OK :: byte where "LUMP_FLAG_DATA_OK = 2"

definition LUMP_CAP_NEEDS_SUPPLY_PIN1 :: byte where "LUMP_CAP_NEEDS_SUPPLY_PIN1 = 64"
definition LUMP_CAP_NEEDS_SUPPLY_PIN2 :: byte where "LUMP_CAP_NEEDS_SUPPLY_PIN2 = 128"

definition LUMP_MSG_TYPE_MASK :: byte where "LUMP_MSG_TYPE_MASK = 0xC0"
definition LUMP_MSG_TYPE_SYS :: byte where "LUMP_MSG_TYPE_SYS = 0x00"
definition LUMP_MSG_TYPE_CMD :: byte where "LUMP_MSG_TYPE_CMD = 0x40"
definition LUMP_MSG_TYPE_INFO :: byte where "LUMP_MSG_TYPE_INFO = 0x80"
definition LUMP_MSG_TYPE_DATA :: byte where "LUMP_MSG_TYPE_DATA = 0xC0"
definition LUMP_MSG_SIZE_MASK :: byte where "LUMP_MSG_SIZE_MASK = 0x38"
definition LUMP_MSG_SIZE_SHIFT :: nat where "LUMP_MSG_SIZE_SHIFT = 3"
definition LUMP_MSG_CMD_MASK :: byte where "LUMP_MSG_CMD_MASK = 0x07"

definition LUMP_SYS_NACK :: byte where "LUMP_SYS_NACK = 0x02"
definition LUMP_SYS_ACK :: byte where "LUMP_SYS_ACK = 0x04"

definition LUMP_CMD_TYPE :: byte where "LUMP_CMD_TYPE = 0x00"
definition LUMP_CMD_MODES :: byte where "LUMP_CMD_MODES = 0x01"
definition LUMP_CMD_SPEED :: byte where "LUMP_CMD_SPEED = 0x02"
definition LUMP_CMD_SELECT :: byte where "LUMP_CMD_SELECT = 0x03"
definition LUMP_CMD_WRITE :: byte where "LUMP_CMD_WRITE = 0x04"
definition LUMP_CMD_EXT_MODE :: byte where "LUMP_CMD_EXT_MODE = 0x06"
definition LUMP_CMD_VERSION :: byte where "LUMP_CMD_VERSION = 0x07"

definition LUMP_INFO_NAME :: byte where "LUMP_INFO_NAME = 0x00"
definition LUMP_INFO_RAW :: byte where "LUMP_INFO_RAW = 0x01"
definition LUMP_INFO_PCT :: byte where "LUMP_INFO_PCT = 0x02"
definition LUMP_INFO_SI :: byte where "LUMP_INFO_SI = 0x03"
definition LUMP_INFO_UNITS :: byte where "LUMP_INFO_UNITS = 0x04"
definition LUMP_INFO_MAPPING :: byte where "LUMP_INFO_MAPPING = 0x05"
definition LUMP_INFO_FORMAT :: byte where "LUMP_INFO_FORMAT = 0x80"
definition LUMP_INFO_MODE_PLUS_8 :: byte where "LUMP_INFO_MODE_PLUS_8 = 0x20"

definition LUMP_TYPE_ID_MIN :: byte where "LUMP_TYPE_ID_MIN = 29"
definition LUMP_TYPE_ID_MAX :: byte where "LUMP_TYPE_ID_MAX = 101"

definition LUMP_IF_CMD_TYPE :: "32 word" where "LUMP_IF_CMD_TYPE = 0x1"
definition LUMP_IF_CMD_MODES :: "32 word" where "LUMP_IF_CMD_MODES = 0x2"
definition LUMP_IF_CMD_SPEED :: "32 word" where "LUMP_IF_CMD_SPEED = 0x4"
definition LUMP_IF_CMD_VERSION :: "32 word" where "LUMP_IF_CMD_VERSION = 0x8"
definition LUMP_IF_INFO_NAME :: "32 word" where "LUMP_IF_INFO_NAME = 0x10"
definition LUMP_IF_INFO_FORMAT :: "32 word" where "LUMP_IF_INFO_FORMAT = 0x4000"
definition LUMP_IF_REQUIRED :: "32 word" where
  "LUMP_IF_REQUIRED = LUMP_IF_CMD_TYPE OR LUMP_IF_CMD_MODES OR LUMP_IF_INFO_NAME OR LUMP_IF_INFO_FORMAT"

definition LUMP_BAUD_INITIAL :: "32 word" where "LUMP_BAUD_INITIAL = 115200"
definition LUMP_BAUD_FALLBACK :: "32 word" where "LUMP_BAUD_FALLBACK = 2400"
definition LUMP_BAUD_MAX :: "32 word" where "LUMP_BAUD_MAX = 460800"
definition LUMP_RX_MSG_BYTES :: nat where "LUMP_RX_MSG_BYTES = 35"
definition LUMP_LASTN :: nat where "LUMP_LASTN = 8"

lemmas lump_type_consts = LUMP_MSG_TYPE_MASK_def LUMP_MSG_TYPE_SYS_def LUMP_MSG_TYPE_CMD_def
  LUMP_MSG_TYPE_INFO_def LUMP_MSG_TYPE_DATA_def LUMP_MSG_SIZE_MASK_def LUMP_MSG_SIZE_SHIFT_def
  LUMP_MSG_CMD_MASK_def

lemmas lump_code_consts = LUMP_SYS_NACK_def LUMP_SYS_ACK_def LUMP_CMD_TYPE_def LUMP_CMD_MODES_def
  LUMP_CMD_SPEED_def LUMP_CMD_SELECT_def LUMP_CMD_WRITE_def LUMP_CMD_EXT_MODE_def LUMP_CMD_VERSION_def
  LUMP_INFO_NAME_def LUMP_INFO_RAW_def LUMP_INFO_PCT_def LUMP_INFO_SI_def LUMP_INFO_UNITS_def
  LUMP_INFO_MAPPING_def LUMP_INFO_FORMAT_def LUMP_INFO_MODE_PLUS_8_def

section \<open>State\<close>

text \<open>The floating-point limits of a mode are stored verbatim, so they are kept as the words received.\<close>

record lump_mode_info_s =
  mi_name :: "byte list"
  mi_num_values :: byte
  mi_data_type :: byte
  mi_writable :: bool
  mi_mode_flags :: byte
  mi_raw :: "32 word \<times> 32 word"
  mi_pct :: "32 word \<times> 32 word"
  mi_si :: "32 word \<times> 32 word"
  mi_units :: "byte list"

record lump_device_info_s =
  di_type_id :: byte
  di_num_modes :: byte
  di_current_mode :: byte
  di_flags :: byte
  di_capability_flags :: byte
  di_baud :: "32 word"
  di_fw_version :: "32 word"
  di_hw_version :: "32 word"
  di_modes :: "lump_mode_info_s list"

definition zero_mode :: lump_mode_info_s where
  "zero_mode = \<lparr>mi_name = replicate (LUMP_MAX_NAME_LEN + 1) 0, mi_num_values = 0, mi_data_type = 0,
     mi_writable = False, mi_mode_flags = 0, mi_raw = (0, 0), mi_pct = (0, 0), mi_si = (0, 0),
     mi_units = replicate (LUMP_MAX_UNITS_LEN + 1) 0\<rparr>"

definition zero_info :: lump_device_info_s where
  "zero_info = \<lparr>di_type_id = 0, di_num_modes = 0, di_current_mode = 0, di_flags = 0, di_capability_flags = 0,
     di_baud = 0, di_fw_version = 0, di_hw_version = 0, di_modes = replicate LUMP_MAX_MODES zero_mode\<rparr>"

datatype lump_state_e = LUMP_ST_IDLE | LUMP_ST_SYNCING | LUMP_ST_INFO | LUMP_ST_DATA | LUMP_ST_ERR

text \<open>Which callbacks a consumer installed.\<close>

record lump_callbacks_s =
  cb_on_sync :: bool
  cb_on_data :: bool
  cb_on_error :: bool

record lump_engine_s =
  le_port :: nat
  handoff_pending :: bool
  dcm_cb_registered :: bool
  le_state :: lump_state_e
  backoff_step :: nat
  info_flags :: "32 word"
  new_mode :: byte
  ext_mode :: byte
  new_baud_rate :: "32 word"
  err_count :: nat
  rx_msg :: "byte list"
  rx_msg_size :: nat
  last_hdr :: "byte list"
  last_cmd2 :: "byte list"
  last_idx :: nat
  last_count :: nat
  le_info :: lump_device_info_s
  pending_select :: bool
  pending_select_mode :: byte
  pending_send :: bool
  pending_send_mode :: byte
  pending_send_buf :: "byte list"
  pending_send_len :: nat
  le_dq :: lump_data_queue_s
  cb_attached :: bool
  in_callback :: bool
  le_cb :: lump_callbacks_s
  wdog_stall :: bool
  rx_bytes :: "32 word"
  tx_bytes :: "32 word"
  lifetime_err_count :: "32 word"
  bad_msg_count :: "32 word"

text \<open>The engine of a port at bring-up: everything zeroed, the number set.\<close>

definition zero_queue :: lump_data_queue_s where
  "zero_queue =
     \<lparr>q_frames = replicate LUMP_DATA_QUEUE
        \<lparr>frame_mode = 0, frame_len = 0, frame_reserved = [0, 0], frame_data = replicate LUMP_MAX_PAYLOAD 0\<rparr>,
      q_session = 0, q_dropped = 0, q_head = 0, q_tail = 0, q_count = 0, q_active = False\<rparr>"

definition zero_engine :: "nat \<Rightarrow> lump_engine_s" where
  "zero_engine p = \<lparr>le_port = p, handoff_pending = False, dcm_cb_registered = False, le_state = LUMP_ST_IDLE,
     backoff_step = 0, info_flags = 0, new_mode = 0, ext_mode = 0, new_baud_rate = 0,
     err_count = 0, rx_msg = replicate LUMP_RX_MSG_BYTES 0, rx_msg_size = 0, last_hdr = replicate LUMP_LASTN 0,
     last_cmd2 = replicate LUMP_LASTN 0, last_idx = 0, last_count = 0, le_info = zero_info,
     pending_select = False, pending_select_mode = 0, pending_send = False, pending_send_mode = 0,
     pending_send_buf = replicate LUMP_MAX_PAYLOAD 0, pending_send_len = 0, le_dq = zero_queue,
     cb_attached = False, in_callback = False,
     le_cb = \<lparr>cb_on_sync = False, cb_on_data = False, cb_on_error = False\<rparr>,
     wdog_stall = False, rx_bytes = 0, tx_bytes = 0, lifetime_err_count = 0, bad_msg_count = 0\<rparr>"

text \<open>What the engine does to its surroundings, in order.\<close>

datatype lump_out =
    Config_Pins
  | Uart_Open "32 word"
  | Uart_Close
  | Set_Baud "32 word"
  | Flush_Rx
  | Tx "byte list"
  | Release_Uart
  | Register_Handoff
  | Pwm_Unpin
  | Pwm_Pin int
  | Cb_Sync lump_device_info_s
  | Cb_Data byte "byte list"
  | Cb_Error byte
  | Sleep_Ms nat

text \<open>
  The UART seen from the engine: the results of the coming byte reads, the return codes of the coming
  opens, writes and baud changes (the ones beyond the list succeed), and the outputs so far.
\<close>

datatype uart_ev = Rx byte | Rx_Err int

record lump_io =
  io_rx :: "uart_ev list"
  io_ret :: "int list"
  io_out :: "lump_out list"

definition emit :: "lump_out \<Rightarrow> lump_io \<Rightarrow> lump_io" where
  "emit a io = io\<lparr>io_out := io_out io @ [a]\<rparr>"

definition io_call :: "lump_out \<Rightarrow> lump_io \<Rightarrow> int \<times> lump_io" where
  "io_call a io =
     (case io_ret io of [] \<Rightarrow> (OK, emit a io) | r # rs \<Rightarrow> (r, emit a (io\<lparr>io_ret := rs\<rparr>)))"

section \<open>Wire format\<close>

definition lump_msg_payload_size :: "byte \<Rightarrow> nat" where
  "lump_msg_payload_size header =
     2 ^ unat (drop_bit LUMP_MSG_SIZE_SHIFT (header AND LUMP_MSG_SIZE_MASK) AND 0x07)"

definition lump_msg_total_size :: "byte \<Rightarrow> nat" where
  "lump_msg_total_size header =
     (if header AND LUMP_MSG_TYPE_MASK = LUMP_MSG_TYPE_SYS then 1
      else 1 + lump_msg_payload_size header + 1 +
           (if header AND LUMP_MSG_TYPE_MASK = LUMP_MSG_TYPE_INFO then 1 else 0))"

definition lump_xor_checksum :: "byte list \<Rightarrow> byte" where
  "lump_xor_checksum buf = fold (\<lambda>b cs. cs XOR b) buf 0xff"

definition lump_put_u32_le :: "32 word \<Rightarrow> byte list" where
  "lump_put_u32_le v =
     [ucast (v AND 0xff), ucast (drop_bit 8 v AND 0xff), ucast (drop_bit 16 v AND 0xff),
      ucast (drop_bit 24 v AND 0xff)]"

definition lump_get_u32_le :: "byte list \<Rightarrow> 32 word" where
  "lump_get_u32_le b =
     ucast (b ! 0) OR push_bit 8 (ucast (b ! 1)) OR push_bit 16 (ucast (b ! 2)) OR push_bit 24 (ucast (b ! 3))"

text \<open>The size class shared by CMD and DATA headers.\<close>

definition size_class :: "nat \<Rightarrow> byte \<times> nat" where
  "size_class len =
     (if len \<le> 1 then (0, 1) else if len \<le> 2 then (1, 2) else if len \<le> 4 then (2, 4)
      else if len \<le> 8 then (3, 8) else if len \<le> 16 then (4, 16) else (5, 32))"

definition lump_cmd_header :: "byte \<Rightarrow> nat \<Rightarrow> byte \<times> nat" where
  "lump_cmd_header cmd payload_len =
     (case size_class payload_len of (size_code, padded) \<Rightarrow>
        (LUMP_MSG_TYPE_CMD OR (push_bit LUMP_MSG_SIZE_SHIFT size_code AND LUMP_MSG_SIZE_MASK) OR
         (cmd AND LUMP_MSG_CMD_MASK), padded))"

section \<open>Receiver\<close>

fun recv_bytes :: "nat \<Rightarrow> nat \<Rightarrow> lump_engine_s \<Rightarrow> uart_ev list \<Rightarrow> (int \<times> lump_engine_s \<times> uart_ev list) option" where
  "recv_bytes i 0 e rx = Some (OK, e, rx)"
| "recv_bytes i (Suc n) e [] = None"
| "recv_bytes i (Suc n) e (Rx_Err r # rx) = Some (r, e, rx)"
| "recv_bytes i (Suc n) e (Rx b # rx) =
     recv_bytes (i + 1) n (e\<lparr>rx_msg := (rx_msg e)[i := b], rx_bytes := rx_bytes e + 1\<rparr>) rx"

definition lump_recv_msg :: "lump_engine_s \<Rightarrow> uart_ev list \<Rightarrow> (int \<times> lump_engine_s \<times> uart_ev list) option" where
  "lump_recv_msg e rx =
     (case recv_bytes 0 1 e rx of
        None \<Rightarrow> None
      | Some (ret, e1, rx1) \<Rightarrow>
          if ret < 0 then Some (ret, e1, rx1)
          else
            let total = lump_msg_total_size (rx_msg e1 ! 0) in
            if total > LUMP_RX_MSG_BYTES then Some (- EBADMSG, e1, rx1)
            else
              case recv_bytes 1 (total - 1) e1 rx1 of
                None \<Rightarrow> None
              | Some (ret2, e2, rx2) \<Rightarrow>
                  if ret2 < 0 then Some (ret2, e2, rx2)
                  else
                    let e3 = e2\<lparr>rx_msg_size := total\<rparr> in
                    if total > 1 \<and> lump_xor_checksum (take (total - 1) (rx_msg e3)) \<noteq> rx_msg e3 ! (total - 1)
                    then Some (- EILSEQ, e3, rx2) else Some (OK, e3, rx2))"

section \<open>Senders\<close>

definition lump_send_sys :: "byte \<Rightarrow> lump_engine_s \<Rightarrow> lump_io \<Rightarrow> int \<times> lump_engine_s \<times> lump_io" where
  "lump_send_sys sys_byte e io =
     (case io_call (Tx [sys_byte]) io of (ret, io1) \<Rightarrow>
        (ret, if ret = OK then e\<lparr>tx_bytes := tx_bytes e + 1\<rparr> else e, io1))"

definition lump_frame :: "byte \<Rightarrow> byte list \<Rightarrow> bool \<Rightarrow> byte list" where
  "lump_frame header payload with_checksum =
     (header # payload) @ (if with_checksum then [lump_xor_checksum (header # payload)] else [])"

definition lump_send_msg ::
    "byte \<Rightarrow> byte list \<Rightarrow> bool \<Rightarrow> lump_engine_s \<Rightarrow> lump_io \<Rightarrow> int \<times> lump_engine_s \<times> lump_io" where
  "lump_send_msg header payload with_checksum e io =
     (if length payload > 32 then (- EINVAL, e, io)
      else
        let buf = lump_frame header payload with_checksum in
        case io_call (Tx buf) io of (ret, io1) \<Rightarrow>
          (ret, if ret = OK then e\<lparr>tx_bytes := tx_bytes e + of_nat (length buf)\<rparr> else e, io1))"

definition lump_send_ext_mode :: "byte \<Rightarrow> lump_engine_s \<Rightarrow> lump_io \<Rightarrow> int \<times> lump_engine_s \<times> lump_io" where
  "lump_send_ext_mode mode =
     lump_send_msg (LUMP_MSG_TYPE_CMD OR LUMP_CMD_EXT_MODE) [if mode > 7 then 8 else 0] True"

definition lump_send_select :: "byte \<Rightarrow> lump_engine_s \<Rightarrow> lump_io \<Rightarrow> int \<times> lump_engine_s \<times> lump_io" where
  "lump_send_select mode =
     lump_send_msg (LUMP_MSG_TYPE_CMD OR LUMP_CMD_SELECT) [mode AND LUMP_MSG_CMD_MASK] True"

definition data_header :: "byte \<Rightarrow> nat \<Rightarrow> byte" where
  "data_header mode len =
     LUMP_MSG_TYPE_DATA OR (push_bit LUMP_MSG_SIZE_SHIFT (fst (size_class len)) AND LUMP_MSG_SIZE_MASK) OR
     (mode AND LUMP_MSG_CMD_MASK)"

definition lump_send_data_frame ::
    "byte \<Rightarrow> byte list \<Rightarrow> lump_engine_s \<Rightarrow> lump_io \<Rightarrow> int \<times> lump_engine_s \<times> lump_io" where
  "lump_send_data_frame mode buf e io =
     (if length buf = 0 \<or> length buf > LUMP_MAX_PAYLOAD then (- EINVAL, e, io)
      else
        lump_send_msg (data_header mode (length buf))
          (buf @ replicate (snd (size_class (length buf)) - length buf) 0) True e io)"

section \<open>A frame is received as it was sent\<close>

lemma recv_bytes_all:
  "length bs = n \<Longrightarrow> i + n \<le> length (rx_msg e) \<Longrightarrow>
   recv_bytes i n e (map Rx bs @ rx) =
     Some (OK, e\<lparr>rx_msg := take i (rx_msg e) @ bs @ drop (i + n) (rx_msg e), rx_bytes := rx_bytes e + of_nat n\<rparr>, rx)"
proof (induction n arbitrary: i e bs)
  case 0
  then show ?case by simp
next
  case (Suc n)
  then obtain b bs' where bs: "bs = b # bs'" "length bs' = n" by (cases bs) auto
  have "i < length (rx_msg e)" using Suc.prems by simp
  then have "take (Suc i) ((rx_msg e)[i := b]) = take i (rx_msg e) @ [b]"
    by (simp add: take_Suc_conv_app_nth)
  then show ?case
    using Suc.IH [of bs' "i + 1" "e\<lparr>rx_msg := (rx_msg e)[i := b], rx_bytes := rx_bytes e + 1\<rparr>"] bs Suc.prems
    by (simp add: add.assoc)
qed

lemma total_size_pos: "0 < lump_msg_total_size h"
  by (simp add: lump_msg_total_size_def)

lemma recv_msg_two:
  assumes "recv_bytes 0 1 e rx = Some (OK, e1, rx1)" "lump_msg_total_size (rx_msg e1 ! 0) = Suc n" "n \<le> 34"
    "recv_bytes 1 n e1 rx1 = Some (OK, e2, rx2)"
  shows "lump_recv_msg e rx =
    (let e3 = e2\<lparr>rx_msg_size := Suc n\<rparr> in
     if 0 < n \<and> lump_xor_checksum (take n (rx_msg e2)) \<noteq> rx_msg e2 ! n then Some (- EILSEQ, e3, rx2)
     else Some (OK, e3, rx2))"
  unfolding lump_recv_msg_def assms(1) option.case prod.case Let_def assms(2) using assms(3,4)
  by (simp add: OK_def LUMP_RX_MSG_BYTES_def)

text \<open>What the receiver does with as many bytes as the header announces.\<close>

lemma recv_frame:
  assumes "length (rx_msg e) = LUMP_RX_MSG_BYTES" "length fr = lump_msg_total_size (fr ! 0)"
    "length fr \<le> LUMP_RX_MSG_BYTES"
  shows "lump_recv_msg e (map Rx fr @ rx) =
    (let e' = e\<lparr>rx_msg := fr @ drop (length fr) (rx_msg e), rx_bytes := rx_bytes e + of_nat (length fr),
                rx_msg_size := length fr\<rparr> in
     if 1 < length fr \<and> lump_xor_checksum (butlast fr) \<noteq> last fr then Some (- EILSEQ, e', rx) else Some (OK, e', rx))"
proof -
  have "fr \<noteq> []" using assms(2) total_size_pos [of "fr ! 0"] by auto
  then obtain h t where fr: "fr = h # t" by (cases fr) auto
  have r: "35 = length (rx_msg e)" using assms(1) by (simp add: LUMP_RX_MSG_BYTES_def)
  then obtain x m where m: "rx_msg e = x # m" by (cases "rx_msg e") auto
  let ?e1 = "e\<lparr>rx_msg := h # m, rx_bytes := rx_bytes e + 1\<rparr>"
  have 1: "recv_bytes 0 1 e (map Rx fr @ rx) = Some (OK, ?e1, map Rx t @ rx)"
    by (simp add: fr m)
  have tot: "lump_msg_total_size h = Suc (length t)" using assms(2) fr by simp
  have len: "length t \<le> 34" "length m = 34" using assms(1,3) fr m by (simp_all add: LUMP_RX_MSG_BYTES_def)
  let ?e2 = "?e1\<lparr>rx_msg := h # t @ drop (length t) m, rx_bytes := rx_bytes ?e1 + of_nat (length t)\<rparr>"
  have 2: "recv_bytes 1 (length t) ?e1 (map Rx t @ rx) = Some (OK, ?e2, rx)"
    using recv_bytes_all [of t "length t" 1 ?e1 rx] len by simp
  have bl: "take (length t) (h # t @ drop (length t) m) = butlast (h # t)"
    by (simp add: butlast_conv_take take_Cons')
  have la: "t \<noteq> [] \<Longrightarrow> (h # t @ drop (length t) m) ! length t = last t"
    by (cases t rule: rev_cases) (simp_all add: nth_append)
  have tot': "lump_msg_total_size (rx_msg ?e1 ! 0) = Suc (length t)" using tot by simp
  have rx2: "rx_msg ?e2 = h # t @ drop (length t) m" by simp
  have "lump_recv_msg e (map Rx fr @ rx) =
    (let e3 = ?e2\<lparr>rx_msg_size := Suc (length t)\<rparr> in
     if t \<noteq> [] \<and> lump_xor_checksum (butlast (h # t)) \<noteq> last t then Some (- EILSEQ, e3, rx) else Some (OK, e3, rx))"
    unfolding recv_msg_two [OF 1 tot' len(1) 2] rx2 bl using la by (cases "t = []") (simp_all add: Let_def)
  then show ?thesis by (simp add: fr m Let_def add.assoc)
qed

lemma xor_fold: "fold (\<lambda>b cs. cs XOR b) bs c = c XOR fold (\<lambda>b cs. cs XOR b) bs (0 :: byte)"
proof (induction bs arbitrary: c)
  case (Cons b bs)
  show ?case using Cons [of "c XOR b"] Cons [of b] by (simp add: xor.assoc)
qed simp

lemma checksum_update:
  assumes "i < length bs"
  shows "lump_xor_checksum (bs[i := b]) = lump_xor_checksum bs XOR (bs ! i) XOR b"
proof -
  let ?f = "\<lambda>bs c. fold (\<lambda>b cs. cs XOR b) bs (c :: byte)"
  have s: "?f (xs @ y # ys) c = y XOR ?f xs c XOR ?f ys 0" for xs y ys c
    using xor_fold [of ys "?f xs c XOR y"] by (simp add: xor.assoc xor.commute xor.left_commute)
  have u: "bs[i := b] = take i bs @ b # drop (Suc i) bs" using assms by (rule upd_conv_take_nth_drop)
  have o: "bs = take i bs @ (bs ! i) # drop (Suc i) bs" using assms by (rule id_take_nth_drop)
  have "?f bs 0xff = (bs ! i) XOR ?f (take i bs) 0xff XOR ?f (drop (Suc i) bs) 0"
    by (subst o) (rule s)
  moreover have "?f (bs[i := b]) 0xff = b XOR ?f (take i bs) 0xff XOR ?f (drop (Suc i) bs) 0"
    unfolding u by (rule s)
  moreover have "b XOR p XOR q = (x XOR p XOR q) XOR x XOR b" for p q x :: byte
    by (rule bit_word_eqI) (auto simp: bit_simps)
  ultimately show ?thesis unfolding lump_xor_checksum_def by presburger
qed

lemma xor_cancel: "x XOR y XOR b = x \<Longrightarrow> b = (y :: byte)"
proof -
  assume a: "x XOR y XOR b = x"
  have "b = (x XOR y) XOR (x XOR y XOR b)" by (rule bit_word_eqI) (auto simp: bit_simps)
  also have "\<dots> = (x XOR y) XOR x" using a by simp
  also have "\<dots> = y" by (rule bit_word_eqI) (auto simp: bit_simps)
  finally show ?thesis .
qed

lemma frame_fields:
  "length (lump_frame h p True) = length p + 2" "lump_frame h p True ! 0 = h"
  "last (lump_frame h p True) = lump_xor_checksum (butlast (lump_frame h p True))"
  by (simp_all add: lump_frame_def butlast_append)

text \<open>Headers.\<close>

lemma size_class_cases:
  assumes "len \<le> 32"
  obtains c where "c \<in> {0, 1, 2, 3, 4, 5}" "fst (size_class len) = c" "snd (size_class len) = 2 ^ unat c"
    "len \<le> 2 ^ unat c"
proof (rule that [of "fst (size_class len)"])
  show "fst (size_class len) \<in> {0, 1, 2, 3, 4, 5}" by (simp add: size_class_def)
  show "snd (size_class len) = 2 ^ unat (fst (size_class len))" by (simp add: size_class_def)
  show "len \<le> 2 ^ unat (fst (size_class len))" using assms by (simp add: size_class_def)
qed simp

lemma data_header_fields:
  assumes "len \<le> 32"
  shows "data_header mode len AND LUMP_MSG_TYPE_MASK = LUMP_MSG_TYPE_DATA"
    "lump_msg_payload_size (data_header mode len) = snd (size_class len)"
    "data_header mode len AND LUMP_MSG_CMD_MASK = mode AND LUMP_MSG_CMD_MASK"
    "len \<le> snd (size_class len)" "snd (size_class len) \<le> 32"
proof -
  obtain c where c: "c \<in> {0, 1, 2, 3, 4, 5}" "fst (size_class len) = c" "snd (size_class len) = 2 ^ unat c"
      "len \<le> 2 ^ unat c"
    using size_class_cases [OF assms] by blast
  note d = data_header_def lump_type_consts c(2) bit.conj_disj_distrib2 and.assoc
  show "data_header mode len AND LUMP_MSG_TYPE_MASK = LUMP_MSG_TYPE_DATA" using c(1) by (auto simp: d)
  show "lump_msg_payload_size (data_header mode len) = snd (size_class len)"
    using c(1) by (auto simp: lump_msg_payload_size_def c(3) d)
  show "data_header mode len AND LUMP_MSG_CMD_MASK = mode AND LUMP_MSG_CMD_MASK" using c(1) by (auto simp: d)
  show "len \<le> snd (size_class len)" "snd (size_class len) \<le> 32" using c by auto
qed


text \<open>
  Fact. What the engine sends, the receiver of the same protocol reads back: a DATA frame of 1 to 32 bytes is
  accepted whatever was in the receive buffer before, consumes exactly the bytes sent, carries the mode in
  its header, and its payload is the data padded with zeros to the next power of two.
\<close>

theorem data_frame_round_trip:
  assumes "buf \<noteq> []" "length buf \<le> 32" "io_ret io = []" "length (rx_msg d) = LUMP_RX_MSG_BYTES"
  shows "\<exists>fr d'. lump_send_data_frame mode buf e io =
             (OK, e\<lparr>tx_bytes := tx_bytes e + of_nat (length fr)\<rparr>, emit (Tx fr) io) \<and>
           lump_recv_msg d (map Rx fr @ rx) = Some (OK, d', rx) \<and>
           rx_msg_size d' = snd (size_class (length buf)) + 2 \<and>
           rx_msg d' ! 0 AND LUMP_MSG_TYPE_MASK = LUMP_MSG_TYPE_DATA \<and>
           rx_msg d' ! 0 AND LUMP_MSG_CMD_MASK = mode AND LUMP_MSG_CMD_MASK \<and>
           take (lump_msg_payload_size (rx_msg d' ! 0)) (tl (rx_msg d')) =
             buf @ replicate (snd (size_class (length buf)) - length buf) 0"
proof -
  let ?n = "snd (size_class (length buf))"
  let ?p = "buf @ replicate (?n - length buf) 0"
  let ?h = "data_header mode (length buf)"
  let ?fr = "lump_frame ?h ?p True"
  note h = data_header_fields(1-3) [OF assms(2), of mode] data_header_fields(4-5) [OF assms(2)]
  have p: "length ?p = ?n" using h(4) by simp
  have s: "lump_send_data_frame mode buf e io = (OK, e\<lparr>tx_bytes := tx_bytes e + of_nat (length ?fr)\<rparr>, emit (Tx ?fr) io)"
    using assms(1,2,3) p h(5)
    by (simp add: lump_send_data_frame_def lump_send_msg_def LUMP_MAX_PAYLOAD_def io_call_def Let_def)
  have tot: "length ?fr = lump_msg_total_size (?fr ! 0)"
    using p h(1,2) by (simp add: frame_fields lump_msg_total_size_def lump_type_consts)
  have le: "length ?fr \<le> LUMP_RX_MSG_BYTES" using p h(5) by (simp add: frame_fields LUMP_RX_MSG_BYTES_def)
  let ?d = "d\<lparr>rx_msg := ?fr @ drop (length ?fr) (rx_msg d), rx_bytes := rx_bytes d + of_nat (length ?fr),
              rx_msg_size := length ?fr\<rparr>"
  have r: "lump_recv_msg d (map Rx ?fr @ rx) = Some (OK, ?d, rx)"
    using recv_frame [OF assms(4) tot le, of rx] frame_fields(3) [of ?h ?p] by (simp add: Let_def)
  have "rx_msg ?d = ?h # ?p @ [lump_xor_checksum (?h # ?p)] @ drop (length ?fr) (rx_msg d)"
    by (simp add: lump_frame_def)
  then have f: "rx_msg ?d ! 0 = ?h" "take ?n (tl (rx_msg ?d)) = ?p" using p by simp_all
  show ?thesis
    by (intro exI [of _ ?fr] exI [of _ ?d] conjI s r) (use f h p in \<open>simp_all add: frame_fields\<close>)
qed

definition demo_engine :: lump_engine_s where
  "demo_engine = (zero_engine 0)\<lparr>dcm_cb_registered := True, new_baud_rate := LUMP_BAUD_INITIAL, cb_attached := True,
     le_cb := \<lparr>cb_on_sync = True, cb_on_data = True, cb_on_error = True\<rparr>\<rparr>"

definition quiet_io :: lump_io where
  "quiet_io = \<lparr>io_rx = [], io_ret = [], io_out = []\<rparr>"

theorem data_frame_round_trip_witness:
  "\<exists>fr d'. lump_send_data_frame 3 [10, 20, 30] demo_engine quiet_io =
      (OK, demo_engine\<lparr>tx_bytes := tx_bytes demo_engine + of_nat (length fr)\<rparr>, emit (Tx fr) quiet_io) \<and>
    lump_recv_msg demo_engine (map Rx fr @ []) = Some (OK, d', []) \<and> rx_msg_size d' = 6 \<and>
    rx_msg d' ! 0 AND LUMP_MSG_TYPE_MASK = LUMP_MSG_TYPE_DATA \<and>
    rx_msg d' ! 0 AND LUMP_MSG_CMD_MASK = 3 \<and>
    take (lump_msg_payload_size (rx_msg d' ! 0)) (tl (rx_msg d')) = [10, 20, 30, 0]"
  using data_frame_round_trip [of "[10, 20, 30]" quiet_io demo_engine 3 demo_engine "[]"]
  by (simp add: quiet_io_def demo_engine_def zero_engine_def size_class_def LUMP_MSG_CMD_MASK_def)

text \<open>
  C13. The checksum catches every corruption of a single byte after the header: the frame is refused, exactly
  its bytes are consumed, so the receiver is in step with the next frame.
\<close>

theorem corrupted_byte_refused:
  assumes "length (rx_msg e) = LUMP_RX_MSG_BYTES" "lump_msg_total_size h = length p + 2" "length p \<le> 33"
    "0 < i" "i < length p + 2" "b \<noteq> lump_frame h p True ! i"
  shows "\<exists>e'. lump_recv_msg e (map Rx ((lump_frame h p True)[i := b]) @ rx) = Some (- EILSEQ, e', rx)"
proof -
  let ?fr = "lump_frame h p True"
  let ?g = "?fr[i := b]"
  have g0: "?g ! 0 = h" using assms(4) by (simp add: frame_fields)
  have gl: "length ?g = length p + 2" by (simp add: frame_fields)
  have "lump_xor_checksum (butlast ?g) \<noteq> last ?g"
  proof (cases "i = length p + 1")
    case True
    then have "butlast ?g = h # p" "last ?g = b" "?fr ! i = lump_xor_checksum (h # p)"
      by (simp_all add: lump_frame_def list_update_append nth_append)
    then show ?thesis using assms(6) by simp
  next
    case False
    then have i: "i < length (h # p)" using assms(5) by simp
    then have e: "butlast ?g = (h # p)[i := b]" "last ?g = lump_xor_checksum (h # p)" "?fr ! i = (h # p) ! i"
      unfolding lump_frame_def by (simp_all add: list_update_append nth_append del: list_update.simps append_Cons)
    have "lump_xor_checksum (h # p) XOR (h # p) ! i XOR b \<noteq> lump_xor_checksum (h # p)"
    proof
      assume "lump_xor_checksum (h # p) XOR (h # p) ! i XOR b = lump_xor_checksum (h # p)"
      then have "b = (h # p) ! i" by (rule xor_cancel)
      then show False using assms(6) e(3) by (simp only: refl not_True_eq_False)
    qed
    then show ?thesis using checksum_update [OF i, of b] e by simp
  qed
  then show ?thesis
    using recv_frame [OF assms(1), of ?g rx] gl g0 assms(2,3)
    by (simp add: Let_def LUMP_RX_MSG_BYTES_def)
qed

theorem corrupted_byte_refused_witness:
  "\<exists>e'. lump_recv_msg demo_engine (map Rx ((lump_frame 0x40 [61] True)[1 := 62]) @ []) = Some (- EILSEQ, e', [])"
  by (rule corrupted_byte_refused)
    (simp_all add: demo_engine_def zero_engine_def lump_msg_total_size_def lump_msg_payload_size_def lump_type_consts lump_frame_def)

end
