(* ===== verification/Lump_Engine.thy ===== *)
theory Lump_Engine
  imports Lump_Frames
begin

text \<open>
  The LUMP protocol engine of one port, \<^verbatim>\<open>boards/spike-prime-hub/src/stm32_legoport_lump.c\<close>: the frame
  parser, the synchronisation sequence, the DATA loop with keepalives and watchdog, one turn of the port's
  thread, and the interface other drivers call. Callbacks and calls to the H-bridge driver are outputs.
\<close>

section \<open>Parser\<close>

definition upd_info :: "(lump_device_info_s \<Rightarrow> lump_device_info_s) \<Rightarrow> lump_engine_s \<Rightarrow> lump_engine_s" where
  "upd_info f e = e\<lparr>le_info := f (le_info e)\<rparr>"

definition upd_mode :: "byte \<Rightarrow> (lump_mode_info_s \<Rightarrow> lump_mode_info_s) \<Rightarrow> lump_engine_s \<Rightarrow> lump_engine_s" where
  "upd_mode m f = upd_info (\<lambda>i. i\<lparr>di_modes := (di_modes i)[unat m := f (di_modes i ! unat m)]\<rparr>)"

definition has_required :: "lump_engine_s \<Rightarrow> bool" where
  "has_required e \<longleftrightarrow> info_flags e AND LUMP_IF_REQUIRED = LUMP_IF_REQUIRED"

definition parse_sys :: "byte \<Rightarrow> lump_engine_s \<Rightarrow> int \<times> lump_engine_s" where
  "parse_sys cmd e =
     (if cmd = LUMP_SYS_ACK then
        if \<not> has_required e then (- EILSEQ, e)
        else (OK, upd_info (\<lambda>i. i\<lparr>di_current_mode := new_mode e\<rparr>) e)
      else (OK, e))"

definition num_modes_announced :: "byte \<Rightarrow> lump_engine_s \<Rightarrow> byte" where
  "num_modes_announced cmd2 e =
     (let n = (if rx_msg_size e > 5 then rx_msg e ! 3 + 1 else cmd2 + 1) in
      if unat n > LUMP_MAX_MODES then of_nat LUMP_MAX_MODES else n)"

definition parse_cmd :: "byte \<Rightarrow> byte \<Rightarrow> lump_engine_s \<Rightarrow> int \<times> lump_engine_s" where
  "parse_cmd cmd cmd2 e =
     (if cmd = LUMP_CMD_TYPE then
        (let type_id = rx_msg e ! 1 in
         if type_id < LUMP_TYPE_ID_MIN \<or> type_id > LUMP_TYPE_ID_MAX then (- EBADMSG, e)
         else (OK, upd_info (\<lambda>i. i\<lparr>di_type_id := type_id\<rparr>)
                     (e\<lparr>info_flags := info_flags e OR LUMP_IF_CMD_TYPE\<rparr>)))
      else if cmd = LUMP_CMD_MODES then
        (if info_flags e AND LUMP_IF_CMD_MODES \<noteq> 0 then (- EILSEQ, e)
         else if cmd2 > 7 then (- EILSEQ, e)
         else
           let n = num_modes_announced cmd2 e in
           (OK, upd_info (\<lambda>i. i\<lparr>di_num_modes := n\<rparr>)
                  (e\<lparr>info_flags := info_flags e OR LUMP_IF_CMD_MODES, new_mode := n - 1\<rparr>)))
      else if cmd = LUMP_CMD_SPEED then
        (if info_flags e AND LUMP_IF_CMD_SPEED \<noteq> 0 then (- EILSEQ, e)
         else
           let speed = lump_get_u32_le (drop 1 (rx_msg e)) in
           if speed < LUMP_BAUD_FALLBACK \<or> speed > LUMP_BAUD_MAX then (- EILSEQ, e)
           else (OK, e\<lparr>info_flags := info_flags e OR LUMP_IF_CMD_SPEED, new_baud_rate := speed\<rparr>))
      else if cmd = LUMP_CMD_VERSION then
        (if info_flags e AND LUMP_IF_CMD_VERSION \<noteq> 0 then (- EILSEQ, e)
         else
           let fw = lump_get_u32_le (drop 1 (rx_msg e)); hw = lump_get_u32_le (drop 5 (rx_msg e)) in
           (OK, upd_info (\<lambda>i. i\<lparr>di_fw_version := fw, di_hw_version := hw\<rparr>)
                  (e\<lparr>info_flags := info_flags e OR LUMP_IF_CMD_VERSION\<rparr>)))
      else if cmd = LUMP_CMD_EXT_MODE then (OK, e\<lparr>ext_mode := rx_msg e ! 1\<rparr>)
      else if cmd = LUMP_CMD_WRITE then (OK, e)
      else (- EBADMSG, e))"

text \<open>A C string up to its terminator, and \<^verbatim>\<open>strncpy\<close> into a zero-terminated field.\<close>

definition c_string :: "byte list \<Rightarrow> byte list" where
  "c_string bs = takeWhile (\<lambda>b. b \<noteq> 0) bs"

definition strncpy_field :: "nat \<Rightarrow> byte list \<Rightarrow> byte list" where
  "strncpy_field n s = take n s @ replicate (n - length s) 0 @ [0]"

definition LUMP_MAX_SHORT_NAME_LEN :: nat where "LUMP_MAX_SHORT_NAME_LEN = 5"
definition LUMP_NAME_FRAME_WITH_FLAGS_MIN_SIZE :: nat where "LUMP_NAME_FRAME_WITH_FLAGS_MIN_SIZE = 12"

definition parse_name :: "byte \<Rightarrow> lump_engine_s \<Rightarrow> int \<times> lump_engine_s" where
  "parse_name mode e0 =
     (let e = e0\<lparr>rx_msg := (rx_msg e0)[rx_msg_size e0 - 1 := 0]\<rparr>;
          name = c_string (drop 2 (rx_msg e)) in
      if rx_msg e ! 2 < 65 \<or> rx_msg e ! 2 > 122 then (- EBADMSG, e)
      else
        let mode_flags = (if length name \<le> LUMP_MAX_SHORT_NAME_LEN \<and>
                             rx_msg_size e > LUMP_NAME_FRAME_WITH_FLAGS_MIN_SIZE then rx_msg e ! 8 else 0) in
        (OK, upd_info (\<lambda>i. i\<lparr>di_capability_flags := di_capability_flags i OR mode_flags\<rparr>)
               (upd_mode mode (\<lambda>m. m\<lparr>mi_name := strncpy_field LUMP_MAX_NAME_LEN name, mi_mode_flags := mode_flags\<rparr>)
                 (e\<lparr>info_flags := info_flags e OR LUMP_IF_INFO_NAME, new_mode := mode\<rparr>))))"

definition parse_limits :: "byte \<Rightarrow> byte \<Rightarrow> lump_engine_s \<Rightarrow> int \<times> lump_engine_s" where
  "parse_limits cmd2 mode e =
     (if rx_msg_size e \<ge> 11 then
        (let ab = (lump_get_u32_le (drop 2 (rx_msg e)), lump_get_u32_le (drop 6 (rx_msg e))) in
         (OK, upd_mode mode (\<lambda>m. if cmd2 = LUMP_INFO_RAW then m\<lparr>mi_raw := ab\<rparr>
                                 else if cmd2 = LUMP_INFO_PCT then m\<lparr>mi_pct := ab\<rparr> else m\<lparr>mi_si := ab\<rparr>) e))
      else (OK, e))"

definition parse_units :: "byte \<Rightarrow> lump_engine_s \<Rightarrow> int \<times> lump_engine_s" where
  "parse_units mode e =
     (let copy0 = (if rx_msg_size e > 3 then rx_msg_size e - 3 else 0);
          n = (if copy0 > LUMP_MAX_UNITS_LEN then LUMP_MAX_UNITS_LEN else copy0) in
      (OK, upd_mode mode (\<lambda>m. m\<lparr>mi_units := take n (drop 2 (rx_msg e)) @ [0] @ drop (n + 1) (mi_units m)\<rparr>) e))"

definition parse_format :: "byte \<Rightarrow> lump_engine_s \<Rightarrow> int \<times> lump_engine_s" where
  "parse_format mode e =
     (if new_mode e \<noteq> mode then (- EILSEQ, e)
      else if rx_msg_size e < 7 then (- EILSEQ, e)
      else if info_flags e AND LUMP_IF_REQUIRED \<noteq> LUMP_IF_REQUIRED AND NOT LUMP_IF_INFO_FORMAT then (- EILSEQ, e)
      else
        let e1 = upd_mode mode (\<lambda>m. m\<lparr>mi_num_values := rx_msg e ! 2, mi_data_type := rx_msg e ! 3\<rparr>)
                   (e\<lparr>info_flags := info_flags e OR LUMP_IF_INFO_FORMAT\<rparr>) in
        (OK, if new_mode e1 > 0 then
               e1\<lparr>new_mode := new_mode e1 - 1,
                  info_flags := info_flags e1 AND NOT (LUMP_IF_INFO_NAME OR LUMP_IF_INFO_FORMAT)\<rparr>
             else e1))"

definition parse_info :: "byte \<Rightarrow> byte \<Rightarrow> lump_engine_s \<Rightarrow> int \<times> lump_engine_s" where
  "parse_info cmd2 mode e =
     (if cmd2 = LUMP_INFO_NAME then parse_name mode e
      else if cmd2 = LUMP_INFO_RAW \<or> cmd2 = LUMP_INFO_PCT \<or> cmd2 = LUMP_INFO_SI then parse_limits cmd2 mode e
      else if cmd2 = LUMP_INFO_UNITS then parse_units mode e
      else if cmd2 = LUMP_INFO_MAPPING then
        (OK, if rx_msg_size e \<ge> 5 then upd_mode mode (\<lambda>m. m\<lparr>mi_writable := (rx_msg e ! 3 \<noteq> 0)\<rparr>) e else e)
      else if cmd2 = LUMP_INFO_FORMAT then parse_format mode e
      else (OK, e))"

text \<open>A callback that is installed is called outside the locks, with re-entry barred while it runs.\<close>

definition fire :: "bool \<Rightarrow> lump_out \<Rightarrow> lump_engine_s \<Rightarrow> lump_engine_s \<times> lump_out list" where
  "fire present out e =
     (if cb_attached e \<and> present then (e\<lparr>in_callback := False\<rparr>, [out]) else (e, []))"

definition parse_data :: "byte \<Rightarrow> lump_engine_s \<Rightarrow> int \<times> lump_engine_s \<times> lump_out list" where
  "parse_data header e =
     (let data_mode = (header AND LUMP_MSG_CMD_MASK) + ext_mode e; payload = lump_msg_payload_size header in
      if unat data_mode \<ge> LUMP_MAX_MODES then (OK, e, [])
      else if payload > LUMP_MAX_PAYLOAD then (OK, e, [])
      else
        let bytes = take payload (drop 1 (rx_msg e));
            e1 = upd_info (\<lambda>i. i\<lparr>di_current_mode := data_mode, di_flags := di_flags i OR LUMP_FLAG_DATA_OK\<rparr>) e;
            frame = \<lparr>frame_mode = data_mode, frame_len = of_nat payload, frame_reserved = [0, 0],
                     frame_data = bytes @ replicate (LUMP_MAX_PAYLOAD - payload) 0\<rparr>;
            e2 = e1\<lparr>le_dq := snd (lump_data_queue_push (Some frame) (le_dq e1))\<rparr> in
        case fire (cb_on_data (le_cb e2)) (Cb_Data data_mode bytes) e2 of (e3, out) \<Rightarrow> (OK, e3, out))"

definition lump_parse_msg :: "lump_engine_s \<Rightarrow> int \<times> lump_engine_s \<times> lump_out list" where
  "lump_parse_msg e =
     (if rx_msg_size e = 0 then (- EBADMSG, e, [])
      else
        let header = rx_msg e ! 0;
            mtype = header AND LUMP_MSG_TYPE_MASK;
            cmd = header AND LUMP_MSG_CMD_MASK;
            cmd2 = (if rx_msg_size e \<ge> 2 then rx_msg e ! 1 else 0);
            plus8 = (mtype = LUMP_MSG_TYPE_INFO \<and> cmd2 AND LUMP_INFO_MODE_PLUS_8 \<noteq> 0);
            mode = (if plus8 then cmd + 8 else cmd + ext_mode e);
            cmd2' = (if plus8 then cmd2 AND NOT LUMP_INFO_MODE_PLUS_8 else cmd2) in
        if unat mode \<ge> LUMP_MAX_MODES then (OK, e, [])
        else if mtype = LUMP_MSG_TYPE_SYS then (case parse_sys cmd e of (r, e') \<Rightarrow> (r, e', []))
        else if mtype = LUMP_MSG_TYPE_CMD then (case parse_cmd cmd cmd2' e of (r, e') \<Rightarrow> (r, e', []))
        else if mtype = LUMP_MSG_TYPE_INFO then (case parse_info cmd2' mode e of (r, e') \<Rightarrow> (r, e', []))
        else parse_data header e)"

section \<open>Synchronisation\<close>

definition parse_io :: "lump_engine_s \<Rightarrow> lump_io \<Rightarrow> int \<times> lump_engine_s \<times> lump_io" where
  "parse_io e io = (case lump_parse_msg e of (r, e', out) \<Rightarrow> (r, e', io\<lparr>io_out := io_out io @ out\<rparr>))"

definition recv_io :: "lump_engine_s \<Rightarrow> lump_io \<Rightarrow> (int \<times> lump_engine_s \<times> lump_io) option" where
  "recv_io e io =
     (case lump_recv_msg e (io_rx io) of None \<Rightarrow> None | Some (r, e', rx) \<Rightarrow> Some (r, e', io\<lparr>io_rx := rx\<rparr>))"

text \<open>
  The header search: timeouts are waited out, other errors end it, bytes other than the header of a CMD TYPE
  frame are skipped.
\<close>

fun header_search :: "lump_engine_s \<Rightarrow> uart_ev list \<Rightarrow> (int \<times> lump_engine_s \<times> uart_ev list) option" where
  "header_search e [] = None"
| "header_search e (Rx_Err r # rx) = (if r = - ETIMEDOUT then header_search e rx else Some (r, e, rx))"
| "header_search e (Rx b # rx) =
     (let e1 = e\<lparr>rx_bytes := rx_bytes e + 1\<rparr> in
      if b = LUMP_MSG_TYPE_CMD OR LUMP_CMD_TYPE then Some (OK, e1\<lparr>rx_msg := (rx_msg e1)[0 := b]\<rparr>, rx)
      else header_search e1 rx)"

lemma header_search_shrinks: "header_search e rx = Some (r, e', rx') \<Longrightarrow> length rx' < length rx"
  by (induction e rx rule: header_search.induct) (auto simp: Let_def split: if_splits)

lemma recv_bytes_shrinks: "recv_bytes i n e rx = Some (r, e', rx') \<Longrightarrow> length rx' \<le> length rx"
  by (induction i n e rx rule: recv_bytes.induct) auto

text \<open>The search for a valid CMD TYPE frame, which gives up after ten bad ones.\<close>

function type_resync :: "lump_engine_s \<Rightarrow> uart_ev list \<Rightarrow> (int \<times> lump_engine_s \<times> uart_ev list) option" where
  "type_resync e rx =
     (case header_search e rx of
        None \<Rightarrow> None
      | Some (r, e1, rx1) \<Rightarrow>
          if r < 0 then Some (r, e1, rx1)
          else
            case recv_bytes 1 2 e1 rx1 of
              None \<Rightarrow> None
            | Some (r2, e2, rx2) \<Rightarrow>
                if r2 < 0 then Some (r2, e2, rx2)
                else
                  let e3 = e2\<lparr>rx_msg_size := 3\<rparr>;
                      bad_id = (rx_msg e3 ! 1 < LUMP_TYPE_ID_MIN \<or> rx_msg e3 ! 1 > LUMP_TYPE_ID_MAX);
                      bad_cs = (lump_xor_checksum (take 2 (rx_msg e3)) \<noteq> rx_msg e3 ! 2) in
                  if bad_id \<or> bad_cs then
                    let e4 = e3\<lparr>err_count := err_count e3 + 1\<rparr> in
                    if err_count e4 > 10 then Some (- EILSEQ, e4, rx2) else type_resync e4 rx2
                  else Some (OK, e3, rx2))"
  by pat_completeness auto
termination
  by (relation "measure (\<lambda>(e, rx). length rx)")
     (auto dest!: header_search_shrinks recv_bytes_shrinks)

declare type_resync.simps [simp del]

text \<open>The frame ring that is dumped when the INFO phase times out.\<close>

definition record_frame :: "lump_engine_s \<Rightarrow> lump_engine_s" where
  "record_frame e = e\<lparr>last_hdr := (last_hdr e)[last_idx e := rx_msg e ! 0],
     last_cmd2 := (last_cmd2 e)[last_idx e := (if rx_msg_size e \<ge> 2 then rx_msg e ! 1 else 0)],
     last_idx := (last_idx e + 1) mod LUMP_LASTN,
     last_count := (if last_count e < LUMP_LASTN then last_count e + 1 else last_count e)\<rparr>"

lemma recv_msg_shrinks: "lump_recv_msg e rx = Some (r, e', rx') \<Longrightarrow> length rx' < length rx"
proof -
  assume a: "lump_recv_msg e rx = Some (r, e', rx')"
  then obtain ev rx0 where rx: "rx = ev # rx0"
    by (cases rx) (auto simp: lump_recv_msg_def)
  show ?thesis
    using a unfolding rx
    by (cases ev) (auto simp: lump_recv_msg_def Let_def OK_def split: if_splits option.splits
        dest!: recv_bytes_shrinks)
qed

text \<open>The INFO phase: frames are parsed until the device's ACK.\<close>

function info_loop :: "lump_engine_s \<Rightarrow> lump_io \<Rightarrow> (int \<times> lump_engine_s \<times> lump_io) option" where
  "info_loop e io =
     (case recv_io e io of
        None \<Rightarrow> None
      | Some (r, e1, io1) \<Rightarrow>
          if r = - EBADMSG \<or> r = - EILSEQ then info_loop e1 io1
          else if r < 0 then Some (r, e1, io1)
          else
            let e2 = record_frame e1 in
            if rx_msg e2 ! 0 = LUMP_MSG_TYPE_SYS OR LUMP_SYS_ACK then
              (if \<not> has_required e2 then Some (- EILSEQ, e2, io1) else Some (OK, e2, io1))
            else
              case parse_io e2 io1 of (r2, e3, io2) \<Rightarrow>
                if r2 = - EILSEQ then Some (r2, e3, io2) else info_loop e3 io2)"
  by pat_completeness auto
termination
  by (relation "measure (\<lambda>(e, io). length (io_rx io))")
     (auto simp: recv_io_def parse_io_def split: option.splits prod.splits dest!: recv_msg_shrinks)

declare info_loop.simps [simp del]

text \<open>Step 1 and 2: ask for the fast rate and probe for the ACK, else fall back to the slow rate.\<close>

definition sync_probe :: "lump_engine_s \<Rightarrow> lump_io \<Rightarrow> (int \<times> lump_engine_s \<times> lump_io) option" where
  "sync_probe e0 io0 =
     (let e = e0\<lparr>le_state := LUMP_ST_SYNCING\<rparr>;
          (header, padded) = lump_cmd_header LUMP_CMD_SPEED 4 in
      case lump_send_msg header (take padded (lump_put_u32_le LUMP_BAUD_INITIAL)) True e io0 of (r, e1, io1) \<Rightarrow>
        if r < 0 then Some (r, e1, io1)
        else
          case io_rx io1 of
            [] \<Rightarrow> None
          | ev # rx \<Rightarrow>
              let io2 = io1\<lparr>io_rx := rx\<rparr> in
              if ev = Rx_Err (- ETIMEDOUT) \<or> (case ev of Rx probe \<Rightarrow> probe \<noteq> LUMP_SYS_ACK | Rx_Err _ \<Rightarrow> False) then
                (case io_call (Set_Baud LUMP_BAUD_FALLBACK) io2 of (r2, io3) \<Rightarrow>
                   if r2 < 0 then Some (r2, e1, io3) else Some (OK, e1, emit Flush_Rx io3))
              else (case ev of Rx_Err r2 \<Rightarrow> Some (r2, e1, io2) | Rx _ \<Rightarrow> Some (OK, e1, io2)))"

text \<open>Step 7: publish the session, pin the supply, queue the first SELECT, call back.\<close>

definition sync_publish :: "lump_engine_s \<Rightarrow> lump_io \<Rightarrow> int \<times> lump_engine_s \<times> lump_io" where
  "sync_publish e2 io2 =
     (let e3 = (upd_info (\<lambda>i. i\<lparr>di_flags := di_flags i OR LUMP_FLAG_SYNCED, di_baud := new_baud_rate e2\<rparr>) e2)
                 \<lparr>le_state := LUMP_ST_DATA\<rparr>;
          default_mode = di_current_mode (le_info e3);
          num_modes = di_num_modes (le_info e3);
          cap_flags = di_capability_flags (le_info e3);
          io3 = (if cap_flags AND LUMP_CAP_NEEDS_SUPPLY_PIN1 \<noteq> 0 then emit (Pwm_Pin (- 1)) io2
                 else if cap_flags AND LUMP_CAP_NEEDS_SUPPLY_PIN2 \<noteq> 0 then emit (Pwm_Pin 1) io2
                 else io2);
          e4 = (if default_mode < num_modes
                then e3\<lparr>pending_select := True, pending_select_mode := default_mode\<rparr> else e3) in
      case fire (cb_on_sync (le_cb e4)) (Cb_Sync (le_info e4)) e4 of (e5, out) \<Rightarrow>
        (OK, e5, io3\<lparr>io_out := io_out io3 @ out\<rparr>))"

text \<open>Step 6: acknowledge, change the rate, open the DATA session.\<close>

definition sync_finish :: "lump_engine_s \<Rightarrow> lump_io \<Rightarrow> int \<times> lump_engine_s \<times> lump_io" where
  "sync_finish e0 io0 =
     (case lump_send_sys LUMP_SYS_ACK e0 io0 of (r, e1, io1) \<Rightarrow>
        if r < 0 then (r, e1, io1)
        else
          case (if new_baud_rate e1 \<noteq> LUMP_BAUD_INITIAL then io_call (Set_Baud (new_baud_rate e1)) (emit (Sleep_Ms 10) io1)
                else (OK, emit (Sleep_Ms 10) io1)) of (r2, io2) \<Rightarrow>
            if r2 < 0 then (r2, e1, io2)
            else
              case lump_data_queue_begin (le_dq e1) of (r3, dq) \<Rightarrow>
                if r3 < 0 then (r3, e1\<lparr>le_dq := dq\<rparr>, io2) else sync_publish (e1\<lparr>le_dq := dq\<rparr>) io2)"

definition lump_sync :: "lump_engine_s \<Rightarrow> lump_io \<Rightarrow> (int \<times> lump_engine_s \<times> lump_io) option" where
  "lump_sync e io =
     (case sync_probe e io of
        None \<Rightarrow> None
      | Some (r, e1, io1) \<Rightarrow>
          if r < 0 then Some (r, e1, io1)
          else
            case type_resync (e1\<lparr>err_count := 0\<rparr>) (io_rx io1) of
              None \<Rightarrow> None
            | Some (r2, e2, rx) \<Rightarrow>
                let io2 = io1\<lparr>io_rx := rx\<rparr> in
                if r2 < 0 then Some (r2, e2, io2)
                else
                  case parse_io e2 io2 of (r3, e3, io3) \<Rightarrow>
                    if r3 < 0 then Some (r3, e3, io3)
                    else
                      case info_loop (e3\<lparr>le_state := LUMP_ST_INFO, last_idx := 0, last_count := 0\<rparr>) io3 of
                        None \<Rightarrow> None
                      | Some (r4, e4, io4) \<Rightarrow> if r4 < 0 then Some (r4, e4, io4) else Some (sync_finish e4 io4))"

section \<open>DATA loop\<close>

definition LUMP_KEEPALIVE_MS :: int where "LUMP_KEEPALIVE_MS = 100"
definition LUMP_DATA_MISS_LIMIT :: nat where "LUMP_DATA_MISS_LIMIT = 6"
definition MSEC2TICK :: "int \<Rightarrow> int" where "MSEC2TICK ms = ms * 100"

text \<open>Requests are taken over and cleared first, then sent, the SELECT before the data.\<close>

definition send_both ::
    "(lump_engine_s \<Rightarrow> lump_io \<Rightarrow> int \<times> lump_engine_s \<times> lump_io) \<Rightarrow>
     (lump_engine_s \<Rightarrow> lump_io \<Rightarrow> int \<times> lump_engine_s \<times> lump_io) \<Rightarrow>
     lump_engine_s \<Rightarrow> lump_io \<Rightarrow> int \<times> lump_engine_s \<times> lump_io" where
  "send_both f g e io = (case f e io of (r, e1, io1) \<Rightarrow> if r < 0 then (r, e1, io1) else g e1 io1)"

definition lump_drain_tx_requests :: "lump_engine_s \<Rightarrow> lump_io \<Rightarrow> int \<times> lump_engine_s \<times> lump_io" where
  "lump_drain_tx_requests e io =
     (let e1 = e\<lparr>pending_select := False, pending_send := False\<rparr>;
          sel = (if pending_select e
                 then send_both (lump_send_ext_mode (pending_select_mode e)) (lump_send_select (pending_select_mode e))
                 else (\<lambda>e io. (OK, e, io)));
          snd' = (if pending_send e
                  then send_both (lump_send_ext_mode (pending_send_mode e))
                         (lump_send_data_frame (pending_send_mode e) (take (pending_send_len e) (pending_send_buf e)))
                  else (\<lambda>e io. (OK, e, io))) in
      case send_both sel snd' e1 io of (r, e2, io2) \<Rightarrow> (if r < 0 then r else OK, e2, io2))"

text \<open>
  What the surroundings contribute to one iteration: whether the watchdog fired before it or while it ran,
  the clock, and whether the wakeup semaphore was posted.
\<close>

record loop_env =
  lv_stall :: bool
  lv_now :: int
  lv_wake :: bool
  lv_stall_late :: bool

record loop_vars =
  last_keepalive :: int
  miss_count :: nat
  data_rec :: bool

definition keepalive ::
    "int \<Rightarrow> loop_vars \<Rightarrow> lump_engine_s \<Rightarrow> lump_io \<Rightarrow> (int + loop_vars) \<times> lump_engine_s \<times> lump_io" where
  "keepalive now v e io =
     (if i64 (now - last_keepalive v) \<ge> MSEC2TICK LUMP_KEEPALIVE_MS then
        (let miss = (if data_rec v then 0 else miss_count v + 1) in
         if \<not> data_rec v \<and> miss > LUMP_DATA_MISS_LIMIT then
           (Inl (- ETIMEDOUT), upd_info (\<lambda>i. i\<lparr>di_flags := di_flags i AND NOT LUMP_FLAG_DATA_OK\<rparr>) e, io)
         else
           case lump_send_sys LUMP_SYS_NACK e io of (w, e1, io1) \<Rightarrow>
             if w < 0 then (Inl w, e1, io1)
             else (Inr (v\<lparr>miss_count := miss, last_keepalive := now, data_rec := False\<rparr>), e1, io1))
      else (Inr v, e, io))"

text \<open>The receiving half of an iteration; a timeout of the slice is no error.\<close>

definition data_recv ::
    "loop_vars \<Rightarrow> lump_engine_s \<Rightarrow> lump_io \<Rightarrow> (loop_vars \<times> lump_engine_s \<times> lump_io) option" where
  "data_recv v e io =
     (case recv_io e io of
        None \<Rightarrow> None
      | Some (r, e1, io1) \<Rightarrow>
          if r = OK then
            (case parse_io e1 io1 of (_, e2, io2) \<Rightarrow>
               Some (v\<lparr>data_rec := (data_rec v \<or> rx_msg e1 ! 0 AND LUMP_MSG_TYPE_MASK = LUMP_MSG_TYPE_DATA)\<rparr>, e2, io2))
          else if r = - EBADMSG \<or> r = - EILSEQ then Some (v, e1\<lparr>bad_msg_count := bad_msg_count e1 + 1\<rparr>, io1)
          else Some (v, e1, io1))"

definition data_iter ::
    "loop_env \<Rightarrow> loop_vars \<Rightarrow> lump_engine_s \<Rightarrow> lump_io \<Rightarrow> ((int + loop_vars) \<times> lump_engine_s \<times> lump_io) option" where
  "data_iter env v e0 io =
     (let e = (if lv_stall env then e0\<lparr>wdog_stall := True\<rparr> else e0) in
      if wdog_stall e then Some (Inl (- ETIMEDOUT), e, io)
      else
        case data_recv v e io of
          None \<Rightarrow> None
        | Some (v1, e2, io2) \<Rightarrow>
            case keepalive (lv_now env) v1 e2 io2 of
              (Inl ret, e3, io3) \<Rightarrow> Some (Inl ret, e3, io3)
            | (Inr v2, e3, io3) \<Rightarrow>
                case lump_drain_tx_requests e3 io3 of (r4, e4, io4) \<Rightarrow>
                  if r4 < 0 then Some (Inl r4, e4, io4)
                  else
                    let e5 = (if lv_stall_late env then e4\<lparr>wdog_stall := True\<rparr> else e4) in
                    if lv_wake env \<and> \<not> wdog_stall e5 then Some (Inl (- EINTR), e5, io4)
                    else Some (Inr v2, e5, io4))"

text \<open>The loop over the iterations the surroundings allow; it is still running when they are used up.\<close>

fun data_iters ::
    "loop_env list \<Rightarrow> loop_vars \<Rightarrow> lump_engine_s \<Rightarrow> lump_io \<Rightarrow> (int \<times> lump_engine_s \<times> lump_io) option" where
  "data_iters [] v e io = None"
| "data_iters (env # envs) v e io =
     (case data_iter env v e io of
        None \<Rightarrow> None
      | Some (Inl ret, e', io') \<Rightarrow> Some (ret, e', io')
      | Some (Inr v', e', io') \<Rightarrow> data_iters envs v' e' io')"

definition lump_data_loop ::
    "int \<Rightarrow> loop_env list \<Rightarrow> lump_engine_s \<Rightarrow> lump_io \<Rightarrow> (int \<times> lump_engine_s \<times> lump_io) option" where
  "lump_data_loop t0 envs e io =
     data_iters envs \<lparr>last_keepalive = t0, miss_count = 0, data_rec = False\<rparr> (e\<lparr>wdog_stall := False\<rparr>) (emit Flush_Rx io)"

section \<open>Sessions\<close>

definition lump_reset_session_state :: "lump_engine_s \<Rightarrow> lump_io \<Rightarrow> lump_engine_s \<times> lump_io" where
  "lump_reset_session_state e io =
     (e\<lparr>le_state := LUMP_ST_IDLE, info_flags := 0, new_mode := 0, ext_mode := 0, new_baud_rate := LUMP_BAUD_INITIAL,
        err_count := 0, rx_msg_size := 0, le_info := zero_info, pending_select := False, pending_send := False,
        pending_send_len := 0, le_dq := (lump_data_queue_invalidate (le_dq e))\<lparr>q_dropped := 0\<rparr>\<rparr>,
      emit Pwm_Unpin io)"

definition lump_handoff_cb :: "lump_engine_s \<Rightarrow> int \<times> lump_engine_s" where
  "lump_handoff_cb e = (OK, e\<lparr>handoff_pending := True\<rparr>)"

definition lump_run_session ::
    "int \<Rightarrow> loop_env list \<Rightarrow> lump_engine_s \<Rightarrow> lump_io \<Rightarrow> (int \<times> lump_engine_s \<times> lump_io) option" where
  "lump_run_session t0 envs e io =
     (case io_call (Uart_Open LUMP_BAUD_INITIAL) (emit Config_Pins io) of (r, io1) \<Rightarrow>
        if r < 0 then Some (r, e, io1)
        else
          case lump_sync e io1 of
            None \<Rightarrow> None
          | Some (r2, e2, io2) \<Rightarrow> if r2 < 0 then Some (r2, e2, io2) else lump_data_loop t0 envs e2 io2)"

definition g_backoff_ms :: "nat list" where "g_backoff_ms = [100, 1000, 5000, 30000, 30000]"
definition LUMP_BACKOFF_MAX :: nat where "LUMP_BACKOFF_MAX = 4"

text \<open>The end of a session: everything after the session function returned, up to the next wait.\<close>

definition session_end :: "int \<Rightarrow> lump_engine_s \<Rightarrow> lump_io \<Rightarrow> lump_engine_s \<times> lump_io" where
  "session_end ret e0 io0 =
     (let e1 = e0\<lparr>le_dq := lump_data_queue_invalidate (le_dq e0),
                  lifetime_err_count := lifetime_err_count e0 + (if ret < 0 \<and> ret \<noteq> - EINTR then 1 else 0),
                  le_state := LUMP_ST_ERR\<rparr>;
          io1 = emit Release_Uart (emit Uart_Close io0);
          was_synced = (di_flags (le_info e1) AND LUMP_FLAG_SYNCED \<noteq> 0);
          e2 = upd_info (\<lambda>i. i\<lparr>di_flags := 0\<rparr>) e1 in
      case fire (cb_on_error (le_cb e2)) (Cb_Error (di_current_mode (le_info e2))) e2 of (e3, out) \<Rightarrow>
        let io2 = emit Register_Handoff (io1\<lparr>io_out := io_out io1 @ out\<rparr>);
            e4 = e3\<lparr>dcm_cb_registered := True\<rparr>;
            clean = (ret = OK \<or> ret = - EINTR \<or> was_synced);
            sleep_ms = (if clean then g_backoff_ms ! 0 else g_backoff_ms ! backoff_step e4);
            step = (if clean then 0 else if backoff_step e4 < LUMP_BACKOFF_MAX then backoff_step e4 + 1 else backoff_step e4) in
        (e4\<lparr>backoff_step := step, le_state := LUMP_ST_IDLE\<rparr>, emit (Sleep_Ms sleep_ms) io2))"

text \<open>One turn of the port's thread after a wakeup.\<close>

definition thread_turn ::
    "int \<Rightarrow> loop_env list \<Rightarrow> lump_engine_s \<Rightarrow> lump_io \<Rightarrow> (lump_engine_s \<times> lump_io) option" where
  "thread_turn t0 envs e io =
     (if \<not> handoff_pending e then Some (e, io)
      else
        case lump_reset_session_state (e\<lparr>handoff_pending := False\<rparr>) io of (e1, io1) \<Rightarrow>
          case lump_run_session t0 envs e1 io1 of
            None \<Rightarrow> None
          | Some (ret, e2, io2) \<Rightarrow> Some (session_end ret e2 io2))"

section \<open>Interface\<close>

definition lump_port_ok :: "int \<Rightarrow> bool" where
  "lump_port_ok port \<longleftrightarrow> 0 \<le> port \<and> port < 6"

definition lump_synced :: "lump_engine_s \<Rightarrow> bool" where
  "lump_synced e \<longleftrightarrow> di_flags (le_info e) AND LUMP_FLAG_SYNCED \<noteq> 0"

definition lump_get_info :: "int \<Rightarrow> lump_engine_s list \<Rightarrow> int \<times> lump_device_info_s option" where
  "lump_get_info port g =
     (if \<not> lump_port_ok port then (- EINVAL, None)
      else if \<not> lump_synced (g ! nat port) then (- EAGAIN, None)
      else (OK, Some (le_info (g ! nat port))))"

definition lump_get_status :: "int \<Rightarrow> lump_engine_s list \<Rightarrow> int \<times> (byte \<times> 32 word \<times> 32 word) option" where
  "lump_get_status port g =
     (if \<not> lump_port_ok port then (- EINVAL, None)
      else let e = g ! nat port in (OK, Some (di_flags (le_info e), rx_bytes e, tx_bytes e)))"

definition lump_attach ::
    "int \<Rightarrow> lump_callbacks_s option \<Rightarrow> lump_engine_s list \<Rightarrow> int \<times> lump_engine_s list \<times> lump_out list" where
  "lump_attach port cb g =
     (if \<not> lump_port_ok port then (- EINVAL, g, [])
      else
        case cb of
          None \<Rightarrow> (- EINVAL, g, [])
        | Some c \<Rightarrow>
            let e = g ! nat port in
            if in_callback e then (- EDEADLK, g, [])
            else if cb_attached e then (- EBUSY, g, [])
            else
              let e1 = e\<lparr>le_cb := c, cb_attached := True\<rparr> in
              (OK, g[nat port := e1],
               if cb_on_sync c \<and> lump_synced e1 then [Cb_Sync (le_info e1)] else []))"

definition lump_detach :: "int \<Rightarrow> lump_engine_s list \<Rightarrow> int \<times> lump_engine_s list" where
  "lump_detach port g =
     (if \<not> lump_port_ok port then (- EINVAL, g)
      else
        let e = g ! nat port in
        if in_callback e then (- EDEADLK, g)
        else (OK, g[nat port := e\<lparr>cb_attached := False,
                                 le_cb := \<lparr>cb_on_sync = False, cb_on_data = False, cb_on_error = False\<rparr>\<rparr>]))"

definition lump_select_mode :: "int \<Rightarrow> byte \<Rightarrow> lump_engine_s list \<Rightarrow> int \<times> lump_engine_s list" where
  "lump_select_mode port mode g =
     (if \<not> lump_port_ok port then (- EINVAL, g)
      else
        let e = g ! nat port in
        if \<not> lump_synced e then (- EAGAIN, g)
        else if mode \<ge> di_num_modes (le_info e) then (- EINVAL, g)
        else (OK, g[nat port := e\<lparr>pending_select := True, pending_select_mode := mode\<rparr>]))"

text \<open>The overwritten prefix of the send buffer; the bytes after it stay.\<close>

definition lump_send_data :: "int \<Rightarrow> byte \<Rightarrow> cbuf \<Rightarrow> lump_engine_s list \<Rightarrow> int \<times> lump_engine_s list" where
  "lump_send_data port mode buf g =
     (if \<not> lump_port_ok port \<or> is_null buf \<or> buf_len buf = 0 \<or> buf_len buf > LUMP_MAX_PAYLOAD then (- EINVAL, g)
      else
        let e = g ! nat port in
        if \<not> lump_synced e then (- EAGAIN, g)
        else if mode \<ge> di_num_modes (le_info e) then (- EINVAL, g)
        else if \<not> mi_writable (di_modes (le_info e) ! unat mode) then (- ENOTSUP, g)
        else
          let e1 = (if di_current_mode (le_info e) \<noteq> mode
                    then e\<lparr>pending_select := True, pending_select_mode := mode\<rparr> else e);
              bs = buf_bytes buf in
          (OK, g[nat port := e1\<lparr>pending_send := True, pending_send_mode := mode, pending_send_len := length bs,
                               pending_send_buf := bs @ drop (length bs) (pending_send_buf e1)\<rparr>]))"

definition lump_pop_data_session_frame ::
    "int \<Rightarrow> bool \<Rightarrow> lump_engine_s list \<Rightarrow> int \<times> lump_data_session_frame_s option \<times> lump_engine_s list" where
  "lump_pop_data_session_frame port out_given g =
     (if \<not> lump_port_ok port \<or> \<not> out_given then (- EINVAL, None, g)
      else
        case lump_data_queue_pop True (le_dq (g ! nat port)) of (r, fr, dq) \<Rightarrow>
          (r, fr, g[nat port := (g ! nat port)\<lparr>le_dq := dq\<rparr>]))"

definition lump_pop_data_frame ::
    "int \<Rightarrow> bool \<Rightarrow> lump_engine_s list \<Rightarrow> int \<times> lump_data_frame_s option \<times> lump_engine_s list" where
  "lump_pop_data_frame port out_given g =
     (if \<not> out_given then (- EINVAL, None, g)
      else
        case lump_pop_data_session_frame port True g of (r, fr, g') \<Rightarrow>
          (r, if r = 0 then map_option sf_frame fr else None, g'))"

text \<open>
  The status snapshot, without the stack depth and the interrupt profile, which the profiling build adds
  from counters outside the engine.
\<close>

record lump_status_full_s =
  sx_state :: lump_state_e
  sx_flags :: byte
  sx_type_id :: byte
  sx_current_mode :: byte
  sx_baud :: "32 word"
  sx_rx_bytes :: "32 word"
  sx_tx_bytes :: "32 word"
  sx_backoff_step :: nat
  sx_dq_dropped :: "32 word"
  sx_err_count :: "32 word"
  sx_bad_msg_count :: "32 word"

definition lump_get_status_full :: "int \<Rightarrow> bool \<Rightarrow> lump_engine_s list \<Rightarrow> int \<times> lump_status_full_s option" where
  "lump_get_status_full port out_given g =
     (if \<not> lump_port_ok port \<or> \<not> out_given then (- EINVAL, None)
      else
        let e = g ! nat port; i = le_info e in
        (OK, Some \<lparr>sx_state = le_state e, sx_flags = di_flags i, sx_type_id = di_type_id i,
                   sx_current_mode = di_current_mode i, sx_baud = di_baud i, sx_rx_bytes = rx_bytes e,
                   sx_tx_bytes = tx_bytes e, sx_backoff_step = backoff_step e, sx_dq_dropped = q_dropped (le_dq e),
                   sx_err_count = lifetime_err_count e, sx_bad_msg_count = bad_msg_count e\<rparr>))"

text \<open>
  Bring-up: refused a second time, stops at the first thread or registration that fails; the ports before
  it stay up. The outcomes are given per port.
\<close>

fun register_ports :: "(int \<times> int) list \<Rightarrow> nat \<Rightarrow> lump_engine_s list \<Rightarrow> int \<times> lump_engine_s list" where
  "register_ports [] p g = (OK, g)"
| "register_ports ((thread_rc, handoff_rc) # rcs) p g =
     (let g1 = g[p := zero_engine p] in
      if thread_rc < 0 then (thread_rc, g1)
      else if handoff_rc < 0 then (handoff_rc, g1)
      else register_ports rcs (p + 1) (g1[p := (zero_engine p)\<lparr>dcm_cb_registered := True\<rparr>]))"

definition stm32_legoport_lump_register ::
    "(int \<times> int) list \<Rightarrow> bool \<Rightarrow> lump_engine_s list \<Rightarrow> int \<times> bool \<times> lump_engine_s list" where
  "stm32_legoport_lump_register rcs started g =
     (if started then (- EALREADY, started, g)
      else case register_ports (take 6 rcs) 0 g of (r, g') \<Rightarrow> (r, True, g'))"

end
