(* ===== verification/Lump_Laws.thy ===== *)
theory Lump_Laws
  imports Lump_Engine
begin

text \<open>
  The laws of the LUMP engine: the invariant of its state under every input of a device and every call of
  its clients, the order of its callbacks, the keepalive, and the defects that the modelling showed.
\<close>

section \<open>The invariant of an engine\<close>

definition mode_ok :: "lump_mode_info_s \<Rightarrow> bool" where
  "mode_ok m \<longleftrightarrow> length (mi_name m) = LUMP_MAX_NAME_LEN + 1 \<and> mi_name m ! LUMP_MAX_NAME_LEN = 0 \<and>
     length (mi_units m) = LUMP_MAX_UNITS_LEN + 1 \<and> mi_units m ! LUMP_MAX_UNITS_LEN = 0"

definition info_ok :: "lump_device_info_s \<Rightarrow> bool" where
  "info_ok i \<longleftrightarrow> length (di_modes i) = LUMP_MAX_MODES \<and> list_all mode_ok (di_modes i) \<and>
     unat (di_num_modes i) \<le> LUMP_MAX_MODES"

text \<open>What the progress flags of the announcement mean.\<close>

definition flags_ok :: "32 word \<Rightarrow> byte \<Rightarrow> bool" where
  "flags_ok f type_id \<longleftrightarrow> (bit f 0 \<longrightarrow> LUMP_TYPE_ID_MIN \<le> type_id \<and> type_id \<le> LUMP_TYPE_ID_MAX) \<and>
     (bit f 14 \<longrightarrow> bit f 0 \<and> bit f 1 \<and> bit f 4)"

definition engine_ok :: "lump_engine_s \<Rightarrow> bool" where
  "engine_ok e \<longleftrightarrow> length (rx_msg e) = LUMP_RX_MSG_BYTES \<and> rx_msg_size e \<le> LUMP_RX_MSG_BYTES \<and>
     info_ok (le_info e) \<and> flags_ok (info_flags e) (di_type_id (le_info e)) \<and> ring_ok (le_dq e) \<and>
     backoff_step e \<le> LUMP_BACKOFF_MAX \<and>
     length (pending_send_buf e) = LUMP_MAX_PAYLOAD \<and> pending_send_len e \<le> LUMP_MAX_PAYLOAD \<and>
     length (last_hdr e) = LUMP_LASTN \<and> length (last_cmd2 e) = LUMP_LASTN \<and> last_idx e < LUMP_LASTN \<and>
     last_count e \<le> LUMP_LASTN"

named_theorems engine_pres

lemma if_bits:
  "bit LUMP_IF_CMD_TYPE n \<longleftrightarrow> n = 0" "bit LUMP_IF_CMD_MODES n \<longleftrightarrow> n = 1" "bit LUMP_IF_CMD_SPEED n \<longleftrightarrow> n = 2"
  "bit LUMP_IF_CMD_VERSION n \<longleftrightarrow> n = 3" "bit LUMP_IF_INFO_NAME n \<longleftrightarrow> n = 4" "bit LUMP_IF_INFO_FORMAT n \<longleftrightarrow> n = 14"
proof -
  have p: "bit ((2 :: 32 word) ^ k) n \<longleftrightarrow> n = k" if "k < 32" for k
    using that by (auto simp: bit_exp_iff)
  show "bit LUMP_IF_CMD_TYPE n \<longleftrightarrow> n = 0" using p [of 0] by (simp add: LUMP_IF_CMD_TYPE_def)
  show "bit LUMP_IF_CMD_MODES n \<longleftrightarrow> n = 1" using p [of 1] by (simp add: LUMP_IF_CMD_MODES_def)
  show "bit LUMP_IF_CMD_SPEED n \<longleftrightarrow> n = 2" using p [of 2] by (simp add: LUMP_IF_CMD_SPEED_def)
  show "bit LUMP_IF_CMD_VERSION n \<longleftrightarrow> n = 3" using p [of 3] by (simp add: LUMP_IF_CMD_VERSION_def)
  show "bit LUMP_IF_INFO_NAME n \<longleftrightarrow> n = 4" using p [of 4] by (simp add: LUMP_IF_INFO_NAME_def)
  show "bit LUMP_IF_INFO_FORMAT n \<longleftrightarrow> n = 14" using p [of 14] by (simp add: LUMP_IF_INFO_FORMAT_def)
qed

lemma required_bits: "has_required e \<longleftrightarrow> bit (info_flags e) 0 \<and> bit (info_flags e) 1 \<and> bit (info_flags e) 4 \<and> bit (info_flags e) 14"
proof
  assume "has_required e"
  then have a: "bit (info_flags e AND LUMP_IF_REQUIRED) n \<longleftrightarrow> bit LUMP_IF_REQUIRED n" for n
    by (simp add: has_required_def)
  show "bit (info_flags e) 0 \<and> bit (info_flags e) 1 \<and> bit (info_flags e) 4 \<and> bit (info_flags e) 14"
    using a [of 0] a [of 1] a [of 4] a [of 14] by (simp add: LUMP_IF_REQUIRED_def bit_simps if_bits)
next
  assume "bit (info_flags e) 0 \<and> bit (info_flags e) 1 \<and> bit (info_flags e) 4 \<and> bit (info_flags e) 14"
  then show "has_required e"
    unfolding has_required_def by (intro bit_word_eqI) (auto simp: LUMP_IF_REQUIRED_def bit_simps if_bits)
qed

lemma format_ready_bits:
  "f AND LUMP_IF_REQUIRED = LUMP_IF_REQUIRED AND NOT LUMP_IF_INFO_FORMAT \<Longrightarrow> bit f 0 \<and> bit f 1 \<and> bit f 4 \<and> \<not> bit f 14"
proof -
  assume "f AND LUMP_IF_REQUIRED = LUMP_IF_REQUIRED AND NOT LUMP_IF_INFO_FORMAT"
  then have a: "bit (f AND LUMP_IF_REQUIRED) n \<longleftrightarrow> bit (LUMP_IF_REQUIRED AND NOT LUMP_IF_INFO_FORMAT) n" for n by simp
  show ?thesis
    using a [of 0] a [of 1] a [of 4] a [of 14] by (simp add: LUMP_IF_REQUIRED_def bit_simps if_bits)
qed

lemma upd_mode_info_ok:
  assumes "info_ok i" "unat m < LUMP_MAX_MODES" "\<And>x. mode_ok x \<Longrightarrow> mode_ok (f x)"
  shows "info_ok (i\<lparr>di_modes := (di_modes i)[unat m := f (di_modes i ! unat m)]\<rparr>)"
  using assms by (auto simp: info_ok_def list_all_length nth_list_update)

lemma upd_mode_ok [engine_pres]:
  "engine_ok e \<Longrightarrow> unat m < LUMP_MAX_MODES \<Longrightarrow> (\<And>x. mode_ok x \<Longrightarrow> mode_ok (f x)) \<Longrightarrow> engine_ok (upd_mode m f e)"
  using upd_mode_info_ok [of "le_info e" m f] by (simp add: engine_ok_def upd_mode_def upd_info_def)

lemma strncpy_field_ok:
  "length (strncpy_field n s) = n + 1" "strncpy_field n s ! n = 0"
  by (auto simp: strncpy_field_def nth_append)

lemma parse_sys_ok [engine_pres]: "engine_ok e \<Longrightarrow> engine_ok (snd (parse_sys cmd e))"
  by (simp add: parse_sys_def upd_info_def engine_ok_def info_ok_def)

lemma num_modes_le: "unat (num_modes_announced c e) \<le> LUMP_MAX_MODES"
  by (simp add: num_modes_announced_def LUMP_MAX_MODES_def Let_def)

lemma parse_cmd_ok [engine_pres]:
  assumes "engine_ok e"
  shows "engine_ok (snd (parse_cmd cmd cmd2 e))"
proof -
  have ty: "engine_ok (upd_info (\<lambda>i. i\<lparr>di_type_id := t\<rparr>) (e\<lparr>info_flags := info_flags e OR LUMP_IF_CMD_TYPE\<rparr>))"
    if "\<not> (t < LUMP_TYPE_ID_MIN \<or> t > LUMP_TYPE_ID_MAX)" for t
    using assms that
    by (auto simp: engine_ok_def upd_info_def info_ok_def flags_ok_def bit_simps if_bits not_less)
  have mo: "engine_ok (upd_info (\<lambda>i. i\<lparr>di_num_modes := num_modes_announced cmd2 e\<rparr>)
      (e\<lparr>info_flags := info_flags e OR LUMP_IF_CMD_MODES, new_mode := n\<rparr>))" for n
    using assms num_modes_le [of cmd2 e]
    by (auto simp: engine_ok_def upd_info_def info_ok_def flags_ok_def bit_simps if_bits)
  have sp: "engine_ok (e\<lparr>info_flags := info_flags e OR LUMP_IF_CMD_SPEED, new_baud_rate := s\<rparr>)" for s
    using assms by (auto simp: engine_ok_def flags_ok_def bit_simps if_bits)
  have ve: "engine_ok (upd_info (\<lambda>i. i\<lparr>di_fw_version := a, di_hw_version := b\<rparr>)
      (e\<lparr>info_flags := info_flags e OR LUMP_IF_CMD_VERSION\<rparr>))" for a b
    using assms by (auto simp: engine_ok_def upd_info_def info_ok_def flags_ok_def bit_simps if_bits)
  have ex: "engine_ok (e\<lparr>ext_mode := x\<rparr>)" for x using assms by (simp add: engine_ok_def)
  show ?thesis
    unfolding parse_cmd_def Let_def by (simp add: ty mo sp ve ex assms)
qed

lemma parse_name_ok [engine_pres]:
  assumes "engine_ok e" "unat mode < LUMP_MAX_MODES"
  shows "engine_ok (snd (parse_name mode e))"
proof -
  let ?e = "e\<lparr>rx_msg := (rx_msg e)[rx_msg_size e - 1 := 0]\<rparr>"
  have e1: "engine_ok ?e" using assms(1) by (simp add: engine_ok_def)
  have e2: "engine_ok (?e\<lparr>info_flags := info_flags e OR LUMP_IF_INFO_NAME, new_mode := mode\<rparr>)"
    using e1 by (auto simp: engine_ok_def flags_ok_def bit_simps if_bits)
  have e3: "engine_ok (upd_info (\<lambda>i. i\<lparr>di_capability_flags := f i\<rparr>) e')" if "engine_ok e'" for f e'
    using that by (simp add: engine_ok_def upd_info_def info_ok_def)
  have e4: "engine_ok (upd_mode mode (\<lambda>m. m\<lparr>mi_name := strncpy_field LUMP_MAX_NAME_LEN s, mi_mode_flags := f\<rparr>)
      (?e\<lparr>info_flags := info_flags ?e OR LUMP_IF_INFO_NAME, new_mode := mode\<rparr>))" for s f
    using upd_mode_ok [OF e2 assms(2)] by (simp add: mode_ok_def strncpy_field_ok)
  show ?thesis unfolding parse_name_def Let_def using e1 e3 [OF e4] by (simp only: snd_conv split: if_split) simp
qed

lemma parse_units_ok [engine_pres]:
  assumes "engine_ok e" "unat mode < LUMP_MAX_MODES"
  shows "engine_ok (snd (parse_units mode e))"
proof -
  have "mode_ok (x\<lparr>mi_units := take n (drop 2 (rx_msg e)) @ [0] @ drop (n + 1) (mi_units x)\<rparr>)"
    if "mode_ok x" "n \<le> 4" for n x
  proof -
    have l: "length (take n (drop 2 (rx_msg e))) = n"
      using assms(1) that(2) by (simp add: engine_ok_def LUMP_RX_MSG_BYTES_def)
    have u: "length (mi_units x) = 5" "mi_units x ! 4 = 0" using that(1) by (simp_all add: mode_ok_def LUMP_MAX_UNITS_LEN_def)
    have "(take n (drop 2 (rx_msg e)) @ [0] @ drop (n + 1) (mi_units x)) ! 4 = 0"
      using l u that(2) by (cases "n = 4") (simp_all add: nth_append nth_Cons')
    then show ?thesis using that(1) l u that(2) by (simp add: mode_ok_def LUMP_MAX_UNITS_LEN_def)
  qed
  then show ?thesis
    using upd_mode_ok [OF assms] by (auto simp: parse_units_def Let_def LUMP_MAX_UNITS_LEN_def)
qed

lemma parse_format_ok [engine_pres]:
  assumes "engine_ok e" "unat mode < LUMP_MAX_MODES"
  shows "engine_ok (snd (parse_format mode e))"
proof (cases "info_flags e AND LUMP_IF_REQUIRED = LUMP_IF_REQUIRED AND NOT LUMP_IF_INFO_FORMAT")
  case True
  note b = format_ready_bits [OF True]
  let ?e = "upd_mode mode (\<lambda>m. m\<lparr>mi_num_values := rx_msg e ! 2, mi_data_type := rx_msg e ! 3\<rparr>)
     (e\<lparr>info_flags := info_flags e OR LUMP_IF_INFO_FORMAT\<rparr>)"
  have "engine_ok (e\<lparr>info_flags := info_flags e OR LUMP_IF_INFO_FORMAT\<rparr>)"
    using assms(1) b by (auto simp: engine_ok_def flags_ok_def bit_simps if_bits)
  then have ok: "engine_ok ?e" using assms(2) by (auto intro!: upd_mode_ok simp: mode_ok_def)
  then have "engine_ok (?e\<lparr>new_mode := x, info_flags := info_flags ?e AND NOT (LUMP_IF_INFO_NAME OR LUMP_IF_INFO_FORMAT)\<rparr>)" for x
    by (auto simp: engine_ok_def flags_ok_def bit_simps if_bits)
  then show ?thesis using ok assms(1) by (simp add: parse_format_def Let_def)
qed (use assms(1) in \<open>simp add: parse_format_def\<close>)

lemma parse_info_ok [engine_pres]:
  assumes "engine_ok e" "unat mode < LUMP_MAX_MODES"
  shows "engine_ok (snd (parse_info cmd2 mode e))"
  using parse_name_ok [OF assms] parse_units_ok [OF assms] parse_format_ok [OF assms] assms
  by (auto simp: parse_info_def parse_limits_def Let_def mode_ok_def intro!: upd_mode_ok)

lemma push_ring_ok: "ring_ok q \<Longrightarrow> ring_ok (snd (lump_data_queue_push (Some f) q))"
  using ring_put_ok [of q f]
  by (cases "q_active q \<and> valid_frame f")
    (auto simp: ring_put_def lump_data_queue_push_def valid_frame_def)

lemma fire_ok [engine_pres]: "engine_ok e \<Longrightarrow> engine_ok (fst (fire b out e))"
  by (simp add: fire_def engine_ok_def)

lemma parse_data_ok [engine_pres]: "engine_ok e \<Longrightarrow> engine_ok (fst (snd (parse_data header e)))"
  by (simp add: parse_data_def Let_def split_beta upd_info_def)
    (intro impI fire_ok, simp add: engine_ok_def info_ok_def push_ring_ok)

lemma parse_msg_ok [engine_pres]: "engine_ok e \<Longrightarrow> engine_ok (fst (snd (lump_parse_msg e)))"
  unfolding lump_parse_msg_def Let_def
  by (simp add: split_beta parse_sys_ok parse_cmd_ok parse_info_ok parse_data_ok)

subsection \<open>Receiving touches the receive buffer only\<close>

definition rx_stripped :: "lump_engine_s \<Rightarrow> lump_engine_s" where
  "rx_stripped e = e\<lparr>rx_msg := [], rx_bytes := 0, rx_msg_size := 0, err_count := 0\<rparr>"

definition loaded :: "lump_engine_s \<Rightarrow> lump_engine_s \<Rightarrow> bool" where
  "loaded e e' \<longleftrightarrow> rx_stripped e' = rx_stripped e \<and> length (rx_msg e') = length (rx_msg e) \<and>
     (rx_msg_size e' = rx_msg_size e \<or> rx_msg_size e' \<le> LUMP_RX_MSG_BYTES)"

lemma loaded_refl: "loaded e e"
  by (simp add: loaded_def)

lemma loaded_trans: "loaded e e1 \<Longrightarrow> loaded e1 e2 \<Longrightarrow> loaded e e2"
  unfolding loaded_def by auto

lemma loaded_step:
  "length m = length (rx_msg e) \<Longrightarrow> loaded e (e\<lparr>rx_msg := m, rx_bytes := b, err_count := c\<rparr>)"
  "length m = length (rx_msg e) \<Longrightarrow> loaded e (e\<lparr>rx_msg := m, rx_bytes := b\<rparr>)"
  "length m = length (rx_msg e) \<Longrightarrow> loaded e (e\<lparr>rx_bytes := b, rx_msg := m\<rparr>)"
  "loaded e (e\<lparr>rx_bytes := b\<rparr>)" "loaded e (e\<lparr>err_count := c\<rparr>)"
  "n \<le> LUMP_RX_MSG_BYTES \<Longrightarrow> loaded e (e\<lparr>rx_msg_size := n\<rparr>)"
  by (simp_all add: loaded_def rx_stripped_def)

lemma loaded_fields:
  assumes "loaded e e'"
  shows "le_info e' = le_info e" "info_flags e' = info_flags e" "ext_mode e' = ext_mode e" "new_mode e' = new_mode e"
    "new_baud_rate e' = new_baud_rate e" "le_dq e' = le_dq e" "cb_attached e' = cb_attached e" "le_cb e' = le_cb e"
    "pending_send_buf e' = pending_send_buf e" "pending_send_len e' = pending_send_len e" "backoff_step e' = backoff_step e"
    "last_hdr e' = last_hdr e" "last_cmd2 e' = last_cmd2 e" "last_idx e' = last_idx e" "last_count e' = last_count e"
    "le_state e' = le_state e" "wdog_stall e' = wdog_stall e" "le_port e' = le_port e" "in_callback e' = in_callback e"
proof -
  have s: "f (rx_stripped e') = f (rx_stripped e)" for f :: "lump_engine_s \<Rightarrow> 'b" using assms by (simp add: loaded_def)
  show "le_info e' = le_info e" using s [of le_info] by (simp add: rx_stripped_def)
  show "info_flags e' = info_flags e" using s [of info_flags] by (simp add: rx_stripped_def)
  show "ext_mode e' = ext_mode e" using s [of ext_mode] by (simp add: rx_stripped_def)
  show "new_mode e' = new_mode e" using s [of new_mode] by (simp add: rx_stripped_def)
  show "new_baud_rate e' = new_baud_rate e" using s [of new_baud_rate] by (simp add: rx_stripped_def)
  show "le_dq e' = le_dq e" using s [of le_dq] by (simp add: rx_stripped_def)
  show "cb_attached e' = cb_attached e" using s [of cb_attached] by (simp add: rx_stripped_def)
  show "le_cb e' = le_cb e" using s [of le_cb] by (simp add: rx_stripped_def)
  show "pending_send_buf e' = pending_send_buf e" using s [of pending_send_buf] by (simp add: rx_stripped_def)
  show "pending_send_len e' = pending_send_len e" using s [of pending_send_len] by (simp add: rx_stripped_def)
  show "backoff_step e' = backoff_step e" using s [of backoff_step] by (simp add: rx_stripped_def)
  show "last_hdr e' = last_hdr e" using s [of last_hdr] by (simp add: rx_stripped_def)
  show "last_cmd2 e' = last_cmd2 e" using s [of last_cmd2] by (simp add: rx_stripped_def)
  show "last_idx e' = last_idx e" using s [of last_idx] by (simp add: rx_stripped_def)
  show "last_count e' = last_count e" using s [of last_count] by (simp add: rx_stripped_def)
  show "le_state e' = le_state e" using s [of le_state] by (simp add: rx_stripped_def)
  show "wdog_stall e' = wdog_stall e" using s [of wdog_stall] by (simp add: rx_stripped_def)
  show "le_port e' = le_port e" using s [of le_port] by (simp add: rx_stripped_def)
  show "in_callback e' = in_callback e" using s [of in_callback] by (simp add: rx_stripped_def)
qed

lemma loaded_ok [engine_pres]: "loaded e e' \<Longrightarrow> engine_ok e \<Longrightarrow> engine_ok e'"
  using loaded_fields [of e e'] by (auto simp: engine_ok_def loaded_def)

lemma recv_bytes_loaded: "recv_bytes i n e rx = Some (r, e', rx') \<Longrightarrow> loaded e e'"
proof (induction i n e rx rule: recv_bytes.induct)
  case (4 i n e b rx)
  have "loaded e (e\<lparr>rx_msg := (rx_msg e)[i := b], rx_bytes := rx_bytes e + 1\<rparr>)" by (rule loaded_step) simp
  then show ?case using 4 loaded_trans by auto
qed (auto simp: loaded_refl)

lemma header_search_loaded: "header_search e rx = Some (r, e', rx') \<Longrightarrow> loaded e e'"
proof (induction e rx rule: header_search.induct)
  case (3 e b rx)
  show ?case
    using 3 loaded_trans [OF loaded_step(4) [of e "rx_bytes e + 1"]]
      loaded_step(3) [of "(rx_msg e)[0 := b]" e "rx_bytes e + 1"]
    by (auto simp: Let_def split: if_splits)
qed (auto simp: loaded_refl split: if_splits)

lemma recv_msg_loaded:
  assumes a: "lump_recv_msg e rx = Some (r, e', rx')"
  shows "loaded e e'"
proof -
  obtain r1 e1 rx1 where 1: "recv_bytes 0 1 e rx = Some (r1, e1, rx1)"
    using a by (cases "recv_bytes 0 1 e rx") (auto simp: lump_recv_msg_def)
  let ?n = "lump_msg_total_size (rx_msg e1 ! 0)"
  show ?thesis
  proof (cases "r1 < 0 \<or> ?n > LUMP_RX_MSG_BYTES")
    case True
    then have "e' = e1" using a 1 by (auto simp: lump_recv_msg_def Let_def split: if_splits)
    then show ?thesis using recv_bytes_loaded [OF 1] by simp
  next
    case False
    then obtain r2 e2 rx2 where 2: "recv_bytes 1 (?n - 1) e1 rx1 = Some (r2, e2, rx2)"
      using a 1 by (cases "recv_bytes 1 (?n - 1) e1 rx1") (auto simp: lump_recv_msg_def Let_def)
    have "e' = e2 \<or> e' = e2\<lparr>rx_msg_size := ?n\<rparr>"
      using a 1 2 False by (auto simp: lump_recv_msg_def Let_def split: if_splits)
    moreover have "loaded e e2" using recv_bytes_loaded [OF 1] recv_bytes_loaded [OF 2] by (rule loaded_trans)
    ultimately show ?thesis using loaded_trans loaded_step(6) [of ?n e2] False by auto
  qed
qed

lemma type_resync_loaded: "type_resync e rx = Some (r, e', rx') \<Longrightarrow> loaded e e'"
proof (induction "length rx" arbitrary: e rx rule: less_induct)
  case less
  note a = less.prems [unfolded type_resync.simps [of e rx]]
  obtain r1 e1 rx1 where h: "header_search e rx = Some (r1, e1, rx1)"
    using a by (cases "header_search e rx") auto
  show ?case
  proof (cases "r1 < 0")
    case True
    then show ?thesis using a h header_search_loaded by auto
  next
    case False
    then obtain r2 e2 rx2 where b: "recv_bytes 1 2 e1 rx1 = Some (r2, e2, rx2)"
      using a h by (cases "recv_bytes 1 2 e1 rx1") auto
    have l2: "loaded e e2" using header_search_loaded [OF h] recv_bytes_loaded [OF b] by (rule loaded_trans)
    let ?e3 = "e2\<lparr>rx_msg_size := 3\<rparr>"
    let ?e4 = "?e3\<lparr>err_count := err_count ?e3 + 1\<rparr>"
    have l3: "loaded e ?e3" using l2 loaded_step(6) [of 3 e2] loaded_trans by (auto simp: LUMP_RX_MSG_BYTES_def)
    have l4: "loaded e ?e4" using l3 loaded_step(5) loaded_trans by blast
    have "e' = e2 \<or> e' = ?e3 \<or> e' = ?e4 \<or> \<not> r2 < 0 \<and> type_resync ?e4 rx2 = Some (r, e', rx')"
      using a h b False by (auto simp: Let_def split: if_splits)
    then show ?thesis
    proof (elim disjE conjE)
      assume "\<not> r2 < 0" "type_resync ?e4 rx2 = Some (r, e', rx')"
      moreover have "length rx2 < length rx" using header_search_shrinks [OF h] recv_bytes_shrinks [OF b] by simp
      ultimately show ?thesis using less.hyps l4 loaded_trans by blast
    qed (use l2 l3 l4 in auto)
  qed
qed


subsection \<open>The rest of a session\<close>

lemma book_ok [engine_pres]:
  assumes "engine_ok e"
  shows "engine_ok (e\<lparr>le_state := s\<rparr>)" "engine_ok (e\<lparr>tx_bytes := n\<rparr>)" "engine_ok (e\<lparr>err_count := k\<rparr>)"
    "engine_ok (e\<lparr>wdog_stall := b\<rparr>)" "engine_ok (e\<lparr>bad_msg_count := n\<rparr>)" "engine_ok (e\<lparr>handoff_pending := b\<rparr>)"
    "engine_ok (e\<lparr>pending_select := b, pending_select_mode := m\<rparr>)"
    "engine_ok (e\<lparr>pending_select := b, pending_send := c\<rparr>)"
    "engine_ok (e\<lparr>le_state := s, last_idx := 0, last_count := 0\<rparr>)"
    "engine_ok (upd_info (\<lambda>i. i\<lparr>di_flags := f i, di_baud := d i\<rparr>) e)"
    "engine_ok (upd_info (\<lambda>i. i\<lparr>di_flags := f i\<rparr>) e)"
    "engine_ok (e\<lparr>le_dq := snd (lump_data_queue_begin (le_dq e))\<rparr>)"
    "engine_ok (record_frame e)"
  using assms
  by (simp_all add: engine_ok_def upd_info_def info_ok_def LUMP_LASTN_def record_frame_def ring_ok_def
      lump_data_queue_begin_def lump_data_queue_invalidate_def Let_def LUMP_DATA_QUEUE_def)

lemma recv_io_ok: "recv_io e io = Some (r, e', io') \<Longrightarrow> engine_ok e \<Longrightarrow> engine_ok e'"
  by (auto simp: recv_io_def split: option.splits dest!: recv_msg_loaded intro: loaded_ok)

lemma recv_io_shrinks: "recv_io e io = Some (r, e', io') \<Longrightarrow> length (io_rx io') < length (io_rx io)"
  by (auto simp: recv_io_def split: option.splits dest!: recv_msg_shrinks)

lemma parse_io_ok: "engine_ok e \<Longrightarrow> engine_ok (fst (snd (parse_io e io)))"
  using parse_msg_ok [of e] by (simp add: parse_io_def split_beta)

lemma parse_io_rx: "io_rx (snd (snd (parse_io e io))) = io_rx io"
  by (simp add: parse_io_def split_beta)

text \<open>The ways an iteration of the INFO loop can go.\<close>

lemma info_loop_cases:
  assumes "info_loop e io = Some (r, e', io')"
  obtains (skip) r1 e1 io1 where "recv_io e io = Some (r1, e1, io1)" "info_loop e1 io1 = Some (r, e', io')"
  | (fail) "recv_io e io = Some (r, e', io')" "r < 0"
  | (ack) r1 e1 where "recv_io e io = Some (r1, e1, io')" "e' = record_frame e1" "r = - EILSEQ \<or> r = OK \<and> has_required e'"
  | (parsed) r1 e1 io1 r2 e2 io2 where "recv_io e io = Some (r1, e1, io1)" "parse_io (record_frame e1) io1 = (r2, e2, io2)"
      "info_loop e2 io2 = Some (r, e', io')"
  | (refused) r1 e1 io1 where "recv_io e io = Some (r1, e1, io1)" "parse_io (record_frame e1) io1 = (r, e', io')"
      "r = - EILSEQ"
proof -
  obtain r1 e1 io1 where 1: "recv_io e io = Some (r1, e1, io1)"
    using assms by (cases "recv_io e io") (auto simp: info_loop.simps [of e io])
  obtain r2 e2 io2 where 2: "parse_io (record_frame e1) io1 = (r2, e2, io2)" by (metis prod_cases3)
  note a = assms [unfolded info_loop.simps [of e io] 1 option.case prod.case Let_def 2]
  show ?thesis
  proof (cases "r1 = - EBADMSG \<or> r1 = - EILSEQ")
    case True
    then show ?thesis using a skip [OF 1] by simp
  next
    case nb: False
    show ?thesis
    proof (cases "r1 < 0")
      case True
      then show ?thesis using a nb 1 fail by simp
    next
      case np: False
      note b = a [unfolded if_not_P [OF nb] if_not_P [OF np]]
      show ?thesis
      proof (cases "rx_msg (record_frame e1) ! 0 = LUMP_MSG_TYPE_SYS OR LUMP_SYS_ACK")
        case True
        have "e' = record_frame e1 \<and> io' = io1 \<and> (r = - EILSEQ \<or> r = OK \<and> has_required e')"
          using b [unfolded if_P [OF True]] by (cases "has_required (record_frame e1)") simp_all
        then show ?thesis using ack [of r1 e1] 1 by blast
      next
        case False
        note c = b [unfolded if_not_P [OF False]]
        show ?thesis
        proof (cases "r2 = - EILSEQ")
          case True
          show ?thesis by (rule refused [OF 1]) (use c 2 True in simp_all)
        next
          case False
          show ?thesis by (rule parsed [OF 1 2]) (use c False in simp)
        qed
      qed
    qed
  qed
qed

lemma info_loop_ok: "info_loop e io = Some (r, e', io') \<Longrightarrow> engine_ok e \<Longrightarrow> engine_ok e'"
proof (induction "length (io_rx io)" arbitrary: e io rule: less_induct)
  case less
  from less.prems(1) show ?case
  proof (cases rule: info_loop_cases)
    case (skip r1 e1 io1)
    then show ?thesis using less.hyps [OF recv_io_shrinks [OF skip(1)] skip(2)] recv_io_ok [OF skip(1) less.prems(2)] by simp
  next
    case fail
    then show ?thesis using recv_io_ok less.prems(2) by blast
  next
    case (ack r1 e1)
    then show ?thesis using book_ok(13) [OF recv_io_ok [OF ack(1) less.prems(2)]] by simp
  next
    case (parsed r1 e1 io1 r2 e2 io2)
    have "engine_ok e2" using parse_io_ok [OF book_ok(13) [OF recv_io_ok [OF parsed(1) less.prems(2)]], of io1] parsed(2) by simp
    moreover have "io_rx io2 = io_rx io1" using parse_io_rx [of "record_frame e1" io1] parsed(2) by simp
    ultimately show ?thesis using less.hyps [of io2 e2] parsed(3) recv_io_shrinks [OF parsed(1)] by simp
  next
    case (refused r1 e1 io1)
    then show ?thesis using parse_io_ok [OF book_ok(13) [OF recv_io_ok [OF refused(1) less.prems(2)]], of io1] by simp
  qed
qed

lemma send_msg_ok [engine_pres]: "engine_ok e \<Longrightarrow> engine_ok (fst (snd (lump_send_msg h p c e io)))"
  by (simp add: lump_send_msg_def Let_def split_beta book_ok)

lemma send_sys_ok [engine_pres]: "engine_ok e \<Longrightarrow> engine_ok (fst (snd (lump_send_sys b e io)))"
  by (simp add: lump_send_sys_def split_beta book_ok)

lemma sync_probe_ok: "sync_probe e io = Some (r, e', io') \<Longrightarrow> engine_ok e \<Longrightarrow> engine_ok e'"
proof -
  assume a: "sync_probe e io = Some (r, e', io')" and ok: "engine_ok e"
  have "e' = fst (snd (lump_send_msg (fst (lump_cmd_header LUMP_CMD_SPEED 4))
      (take (snd (lump_cmd_header LUMP_CMD_SPEED 4)) (lump_put_u32_le LUMP_BAUD_INITIAL)) True
      (e\<lparr>le_state := LUMP_ST_SYNCING\<rparr>) io))"
    using a by (auto simp: sync_probe_def Let_def split_beta split: if_splits list.splits uart_ev.splits)
  then show ?thesis using send_msg_ok [OF book_ok(1) [OF ok]] by simp
qed

lemma sync_publish_ok: "engine_ok e \<Longrightarrow> engine_ok (fst (snd (sync_publish e io)))"
  unfolding sync_publish_def Let_def
  by (simp add: split_beta) (intro impI conjI fire_ok book_ok; simp)

lemma sync_finish_ok: "engine_ok e \<Longrightarrow> engine_ok (fst (snd (sync_finish e io)))"
  unfolding sync_finish_def
  by (simp add: split_beta) (intro impI conjI sync_publish_ok book_ok send_sys_ok; simp)

lemma sync_ok: "lump_sync e io = Some (r, e', io') \<Longrightarrow> engine_ok e \<Longrightarrow> engine_ok e'"
proof -
  assume a: "lump_sync e io = Some (r, e', io')" and ok: "engine_ok e"
  obtain r1 e1 io1 where 1: "sync_probe e io = Some (r1, e1, io1)"
    using a by (cases "sync_probe e io") (auto simp: lump_sync_def)
  have ok1: "engine_ok (e1\<lparr>err_count := 0\<rparr>)" using book_ok(3) [OF sync_probe_ok [OF 1 ok]] .
  show ?thesis
  proof (cases "r1 < 0")
    case True
    then show ?thesis using a 1 sync_probe_ok [OF 1 ok] by (simp add: lump_sync_def)
  next
    case p: False
    then obtain r2 e2 rx where 2: "type_resync (e1\<lparr>err_count := 0\<rparr>) (io_rx io1) = Some (r2, e2, rx)"
      using a 1 by (cases "type_resync (e1\<lparr>err_count := 0\<rparr>) (io_rx io1)") (auto simp: lump_sync_def)
    have ok2: "engine_ok e2" using loaded_ok [OF type_resync_loaded [OF 2] ok1] .
    obtain r3 e3 io3 where 3: "parse_io e2 (io1\<lparr>io_rx := rx\<rparr>) = (r3, e3, io3)" by (metis prod_cases3)
    have ok3: "engine_ok e3" using parse_io_ok [OF ok2, of "io1\<lparr>io_rx := rx\<rparr>"] 3 by simp
    have "e' = e2 \<or> e' = e3 \<or> (\<exists>r4 e4 io4. info_loop (e3\<lparr>le_state := LUMP_ST_INFO, last_idx := 0, last_count := 0\<rparr>) io3 = Some (r4, e4, io4) \<and>
        (e' = e4 \<or> sync_finish e4 io4 = (r, e', io')))"
      using a 1 2 3 p by (auto simp: lump_sync_def Let_def split: if_splits option.splits)
    then show ?thesis
    proof (elim disjE exE conjE)
      fix r4 e4 io4
      assume i: "info_loop (e3\<lparr>le_state := LUMP_ST_INFO, last_idx := 0, last_count := 0\<rparr>) io3 = Some (r4, e4, io4)"
      note ok4 = info_loop_ok [OF i book_ok(9) [OF ok3]]
      show "e' = e4 \<Longrightarrow> ?thesis" using ok4 by simp
      show "sync_finish e4 io4 = (r, e', io') \<Longrightarrow> ?thesis" using sync_finish_ok [OF ok4, of io4] by simp
    qed (use ok2 ok3 in auto)
  qed
qed

lemma drain_ok [engine_pres]: "engine_ok e \<Longrightarrow> engine_ok (fst (snd (lump_drain_tx_requests e io)))"
proof -
  assume e: "engine_ok e"
  have both: "engine_ok (fst (snd (send_both f g x i)))" if "engine_ok x"
    "\<And>x i. engine_ok x \<Longrightarrow> engine_ok (fst (snd (f x i)))" "\<And>x i. engine_ok x \<Longrightarrow> engine_ok (fst (snd (g x i)))" for f g x i
    using that by (simp add: send_both_def split_beta)
  have d: "engine_ok (fst (snd (lump_send_data_frame m b x i)))" if "engine_ok x" for m b x i
    using that by (simp add: lump_send_data_frame_def send_msg_ok)
  show ?thesis
    unfolding lump_drain_tx_requests_def Let_def
    by (simp add: split_beta) (intro both conjI impI;
        simp add: book_ok(8) [OF e] both d lump_send_ext_mode_def lump_send_select_def send_msg_ok)
qed

lemma keepalive_ok [engine_pres]: "engine_ok e \<Longrightarrow> engine_ok (fst (snd (keepalive now v e io)))"
  by (simp add: keepalive_def Let_def split_beta book_ok send_sys_ok)

lemma data_recv_ok: "data_recv v e io = Some (v', e', io') \<Longrightarrow> engine_ok e \<Longrightarrow> engine_ok e'"
  using parse_io_ok
  by (auto simp: data_recv_def book_ok split: option.splits if_splits prod.splits dest!: recv_io_ok) (metis fst_conv snd_conv)+

text \<open>The ways an iteration of the DATA loop can go.\<close>

lemma data_iter_cases:
  assumes "data_iter env v e0 io = Some (res, e', io')"
  obtains (stall) "res = Inl (- ETIMEDOUT)" "e' = e0\<lparr>wdog_stall := True\<rparr>" "io' = io"
  | (quiet) e v1 e1 io1 r where "e = e0\<lparr>wdog_stall := False\<rparr>" "\<not> wdog_stall e0" "\<not> lv_stall env"
      "data_recv v e0 io = Some (v1, e1, io1)" "keepalive (lv_now env) v1 e1 io1 = (Inl r, e', io')" "res = Inl r"
  | (drained) v1 e1 io1 v2 e2 io2 r e3 where "\<not> wdog_stall e0" "\<not> lv_stall env"
      "data_recv v e0 io = Some (v1, e1, io1)" "keepalive (lv_now env) v1 e1 io1 = (Inr v2, e2, io2)"
      "lump_drain_tx_requests e2 io2 = (r, e3, io')" "e' = e3\<lparr>wdog_stall := wdog_stall e'\<rparr>"
      "r < 0 \<and> res = Inl r \<or> r \<ge> 0 \<and> (res = Inl (- EINTR) \<or> res = Inr v2)"
proof (cases "wdog_stall e0 \<or> lv_stall env")
  case True
  then have "res = Inl (- ETIMEDOUT) \<and> e' = e0\<lparr>wdog_stall := True\<rparr> \<and> io' = io"
    using assms by (auto simp: data_iter_def Let_def split: if_splits)
  then show ?thesis using stall by simp
next
  case False
  then have n: "\<not> wdog_stall e0" "\<not> lv_stall env" by auto
  obtain v1 e1 io1 where 1: "data_recv v e0 io = Some (v1, e1, io1)"
    using assms n by (cases "data_recv v e0 io") (auto simp: data_iter_def)
  obtain k e2 io2 where 2: "keepalive (lv_now env) v1 e1 io1 = (k, e2, io2)" by (metis prod_cases3)
  show ?thesis
  proof (cases k)
    case (Inl r)
    then have "res = Inl r \<and> e' = e2 \<and> io' = io2" using assms n 1 2 by (simp add: data_iter_def)
    then show ?thesis using quiet [OF refl n 1] 2 Inl by simp
  next
    case (Inr v2)
    obtain r e3 io3 where 3: "lump_drain_tx_requests e2 io2 = (r, e3, io3)" by (metis prod_cases3)
    have "io' = io3 \<and> e' = e3\<lparr>wdog_stall := wdog_stall e'\<rparr> \<and> (r < 0 \<and> res = Inl r \<or> r \<ge> 0 \<and> (res = Inl (- EINTR) \<or> res = Inr v2))"
      using assms n 1 2 3 Inr by (auto simp: data_iter_def Let_def split: if_splits)
    then show ?thesis using drained [OF n 1, of v2 e2 io2 r e3] 2 3 Inr by simp
  qed
qed

lemma data_iter_ok: "data_iter env v e io = Some (res, e', io') \<Longrightarrow> engine_ok e \<Longrightarrow> engine_ok e'"
proof -
  assume a: "data_iter env v e io = Some (res, e', io')" and ok: "engine_ok e"
  from a show ?thesis
  proof (cases rule: data_iter_cases)
    case stall
    then show ?thesis using ok book_ok by simp
  next
    case (quiet _ v1 e1 io1 r)
    then show ?thesis using keepalive_ok [OF data_recv_ok [OF quiet(4) ok], of "lv_now env" v1 io1] by simp
  next
    case (drained v1 e1 io1 v2 e2 io2 r e3)
    have "engine_ok e2" using keepalive_ok [OF data_recv_ok [OF drained(3) ok], of "lv_now env" v1 io1] drained(4) by simp
    then have "engine_ok e3" using drain_ok [of e2 io2] drained(5) by simp
    then show ?thesis using drained(6) book_ok(4) by metis
  qed
qed

lemma reset_ok: "engine_ok e \<Longrightarrow> engine_ok (fst (lump_reset_session_state e io))"
  by (simp add: lump_reset_session_state_def engine_ok_def ring_ok_def lump_data_queue_invalidate_def info_ok_def zero_info_def
      list_all_length mode_ok_def zero_mode_def flags_ok_def LUMP_DATA_QUEUE_def LUMP_RX_MSG_BYTES_def nth_append
      del: replicate_Suc)

lemma session_end_ok: "engine_ok e \<Longrightarrow> engine_ok (fst (session_end r e io))"
proof -
  assume e: "engine_ok e"
  have i: "engine_ok (upd_info (\<lambda>i. i\<lparr>di_flags := 0\<rparr>)
      (e\<lparr>le_dq := lump_data_queue_invalidate (le_dq e), lifetime_err_count := n, le_state := LUMP_ST_ERR\<rparr>))" for n
    by (rule book_ok) (use e in \<open>simp add: engine_ok_def ring_ok_def lump_data_queue_invalidate_def LUMP_DATA_QUEUE_def\<close>)
  have b: "engine_ok (x\<lparr>dcm_cb_registered := True, backoff_step := k, le_state := s\<rparr>)" if "engine_ok x" "k \<le> 4" for x k s
    using that by (simp add: engine_ok_def LUMP_BACKOFF_MAX_def)
  have "backoff_step x \<le> 4" if "engine_ok x" for x using that by (simp add: engine_ok_def LUMP_BACKOFF_MAX_def)
  then show ?thesis
    unfolding session_end_def Let_def split_beta fst_conv
    by (intro b fire_ok i) (use fire_ok [OF i] in \<open>auto simp: LUMP_BACKOFF_MAX_def\<close>)
qed

lemma zero_engine_ok: "engine_ok (zero_engine p)"
  by (simp add: zero_engine_def zero_queue_def engine_ok_def ring_ok_def info_ok_def zero_info_def
      list_all_length mode_ok_def zero_mode_def flags_ok_def LUMP_DATA_QUEUE_def LUMP_RX_MSG_BYTES_def LUMP_LASTN_def nth_append
      del: replicate_Suc)

section \<open>What a session puts out\<close>

fun wire :: "lump_out \<Rightarrow> bool" where
  "wire (Tx b) = True"
| "wire (Set_Baud n) = True"
| "wire Flush_Rx = True"
| "wire (Sleep_Ms n) = True"
| "wire (Cb_Data m d) = True"
| "wire _ = False"

text \<open>A call extends the outputs by outputs of a certain kind.\<close>

definition exts :: "(lump_out \<Rightarrow> bool) \<Rightarrow> lump_io \<Rightarrow> lump_io \<Rightarrow> bool" where
  "exts P io io' \<longleftrightarrow> (\<exists>new. io_out io' = io_out io @ new \<and> list_all P new)"

abbreviation ext :: "lump_io \<Rightarrow> lump_io \<Rightarrow> bool" where
  "ext \<equiv> exts wire"

named_theorems ext_rules

lemma ext_refl [ext_rules]: "exts P io io"
  by (simp add: exts_def)

lemma ext_trans: "exts P a b \<Longrightarrow> exts P b c \<Longrightarrow> exts P a c"
  by (fastforce simp: exts_def)

lemma ext_rx: "exts P io (io'\<lparr>io_rx := rx\<rparr>) = exts P io io'" "exts P (io\<lparr>io_rx := rx\<rparr>) io' = exts P io io'"
  by (simp_all add: exts_def)

lemma ext_emit [ext_rules]: "P a \<Longrightarrow> exts P io (emit a io)"
  by (simp add: exts_def emit_def)

lemma ext_call [ext_rules]: "P a \<Longrightarrow> exts P io (snd (io_call a io))"
  by (simp add: exts_def emit_def io_call_def split: list.splits)

lemma ext_recv: "recv_io e io = Some (r, e', io') \<Longrightarrow> exts P io io'"
  by (auto simp: recv_io_def ext_rx ext_refl split: option.splits)

text \<open>
  The kinds of output the parts of a session make: the senders only transmit, the parser only hands data
  to the consumer, and the probe also changes the line rate.
\<close>

locale tx_outputs =
  fixes P :: "lump_out \<Rightarrow> bool"
  assumes tx: "P (Tx b)"
begin

lemma ext_send_msg: "exts P io (snd (snd (lump_send_msg h p c e io)))"
  by (simp add: lump_send_msg_def Let_def split_beta ext_call ext_refl tx)

lemma ext_send_sys: "exts P io (snd (snd (lump_send_sys b e io)))"
  by (simp add: lump_send_sys_def split_beta ext_call tx)

lemma ext_send_data: "exts P io (snd (snd (lump_send_data_frame m b e io)))"
  by (simp add: lump_send_data_frame_def ext_send_msg ext_refl)

lemma ext_both:
  "(\<And>e io. exts P io (snd (snd (f e io)))) \<Longrightarrow> (\<And>e io. exts P io (snd (snd (g e io)))) \<Longrightarrow>
   exts P io (snd (snd (send_both f g e io)))"
  using ext_trans [of P io "snd (snd (f e io))"] by (simp add: send_both_def split_beta)

lemma ext_drain: "exts P io (snd (snd (lump_drain_tx_requests e io)))"
  unfolding lump_drain_tx_requests_def Let_def
  by (simp add: split_beta)
    (intro conjI impI ext_both; simp add: lump_send_ext_mode_def lump_send_select_def ext_refl ext_send_msg ext_send_data)

lemma ext_keepalive: "exts P io (snd (snd (keepalive now v e io)))"
  by (simp add: keepalive_def Let_def split_beta ext_refl ext_send_sys)

end

locale session_outputs = tx_outputs +
  assumes data: "P (Cb_Data m d)"
begin

lemma parse_out: "list_all P (snd (snd (lump_parse_msg e)))"
  by (simp add: lump_parse_msg_def parse_data_def fire_def Let_def split_beta data)

lemma ext_parse: "exts P io (snd (snd (parse_io e io)))"
  using parse_out [of e] by (simp add: parse_io_def split_beta exts_def)

lemma ext_info_loop: "info_loop e io = Some (r, e', io') \<Longrightarrow> exts P io io'"
proof (induction "length (io_rx io)" arbitrary: e io rule: less_induct)
  case less
  from less.prems(1) show ?case
  proof (cases rule: info_loop_cases)
    case (skip r1 e1 io1)
    then show ?thesis using less.hyps [OF recv_io_shrinks [OF skip(1)] skip(2)] ext_recv [OF skip(1)] ext_trans by blast
  next
    case (parsed r1 e1 io1 r2 e2 io2)
    have x: "exts P io1 io2" "io_rx io2 = io_rx io1"
      using ext_parse [of io1 "record_frame e1"] parse_io_rx [of "record_frame e1" io1] parsed(2) by simp_all
    then have "exts P io2 io'" using less.hyps [of io2 e2] parsed(3) recv_io_shrinks [OF parsed(1)] by simp
    then show ?thesis using ext_trans [OF ext_recv [OF parsed(1)]] x(1) ext_trans by blast
  next
    case (refused r1 e1 io1)
    then show ?thesis using ext_trans [OF ext_recv [OF refused(1)]] ext_parse [of io1 "record_frame e1"] by simp
  qed (use ext_recv in auto)
qed

lemma ext_data_recv: "data_recv v e io = Some (v', e', io') \<Longrightarrow> exts P io io'"
proof -
  assume a: "data_recv v e io = Some (v', e', io')"
  then obtain r e1 io1 where 1: "recv_io e io = Some (r, e1, io1)"
    by (cases "recv_io e io") (auto simp: data_recv_def)
  have "io' = io1 \<or> io' = snd (snd (parse_io e1 io1))"
    using a 1 by (auto simp: data_recv_def split: if_splits prod.splits)
  then show ?thesis using ext_recv [OF 1] ext_trans [OF ext_recv [OF 1] ext_parse [of io1 e1]] by auto
qed

lemma ext_data_iter: "data_iter env v e io = Some (res, e', io') \<Longrightarrow> exts P io io'"
proof (erule data_iter_cases)
  fix v1 e1 io1 r
  assume "data_recv v e io = Some (v1, e1, io1)" "keepalive (lv_now env) v1 e1 io1 = (Inl r, e', io')"
  then show "exts P io io'" using ext_trans [OF ext_data_recv ext_keepalive [of io1 "lv_now env" v1 e1]] by auto
next
  fix v1 e1 io1 v2 e2 io2 r e3
  assume "data_recv v e io = Some (v1, e1, io1)" "keepalive (lv_now env) v1 e1 io1 = (Inr v2, e2, io2)"
    "lump_drain_tx_requests e2 io2 = (r, e3, io')"
  then show "exts P io io'"
    using ext_trans [OF ext_trans [OF ext_data_recv ext_keepalive [of io1 "lv_now env" v1 e1]], of _ _ _ _ _ io']
      ext_drain [of io2 e2] by auto
qed (simp add: ext_refl)

end

locale sync_outputs = session_outputs +
  assumes baud: "P (Set_Baud n)" and flush: "P Flush_Rx" and sleep: "P (Sleep_Ms k)"
begin

lemma ext_sync_probe: "sync_probe e io = Some (r, e', io') \<Longrightarrow> exts P io io'"
proof -
  assume a: "sync_probe e io = Some (r, e', io')"
  define io1 where "io1 = snd (snd (lump_send_msg (fst (lump_cmd_header LUMP_CMD_SPEED 4))
      (take (snd (lump_cmd_header LUMP_CMD_SPEED 4)) (lump_put_u32_le LUMP_BAUD_INITIAL)) True
      (e\<lparr>le_state := LUMP_ST_SYNCING\<rparr>) io))"
  have 1: "exts P io io1" by (simp add: io1_def ext_send_msg)
  let ?c = "\<lambda>rx. snd (io_call (Set_Baud LUMP_BAUD_FALLBACK) (io1\<lparr>io_rx := rx\<rparr>))"
  have "io' = io1 \<or> (\<exists>rx. io' = io1\<lparr>io_rx := rx\<rparr> \<or> io' = ?c rx \<or> io' = emit Flush_Rx (?c rx))"
    using a by (auto simp: sync_probe_def io1_def Let_def split_beta split: if_splits list.splits uart_ev.splits)
  moreover have "exts P io1 (?c rx)" "exts P io1 (emit Flush_Rx (?c rx))" for rx
    using ext_call [of P "Set_Baud LUMP_BAUD_FALLBACK" "io1\<lparr>io_rx := rx\<rparr>"] ext_trans [OF _ ext_emit]
    by (simp_all add: ext_rx baud flush)
  ultimately show ?thesis using 1 ext_trans ext_rx(1) by metis
qed

end

interpretation w: sync_outputs wire
  by unfold_locales simp_all

text \<open>The end of the synchronisation: pin the supply rail if asked to, and call back.\<close>

definition pin_out :: "byte \<Rightarrow> lump_out list" where
  "pin_out cap = (if cap AND LUMP_CAP_NEEDS_SUPPLY_PIN1 \<noteq> 0 then [Pwm_Pin (- 1)]
     else if cap AND LUMP_CAP_NEEDS_SUPPLY_PIN2 \<noteq> 0 then [Pwm_Pin 1] else [])"

definition cb_out :: "bool \<Rightarrow> lump_out \<Rightarrow> lump_engine_s \<Rightarrow> lump_out list" where
  "cb_out present out e = (if cb_attached e \<and> present then [out] else [])"


lemma sync_publish_fields:
  "fst (sync_publish e io) = OK"
  "le_info (fst (snd (sync_publish e io))) =
     (le_info e)\<lparr>di_flags := di_flags (le_info e) OR LUMP_FLAG_SYNCED, di_baud := new_baud_rate e\<rparr>"
  "info_flags (fst (snd (sync_publish e io))) = info_flags e"
  "cb_attached (fst (snd (sync_publish e io))) = cb_attached e"
  "le_cb (fst (snd (sync_publish e io))) = le_cb e"
  "ext_mode (fst (snd (sync_publish e io))) = ext_mode e"
  by (simp_all add: sync_publish_def Let_def split_beta fire_def upd_info_def)

lemma sync_publish_out:
  "io_out (snd (snd (sync_publish e io))) = io_out io @ pin_out (di_capability_flags (le_info e)) @
     cb_out (cb_on_sync (le_cb e)) (Cb_Sync (le_info (fst (snd (sync_publish e io))))) e"
  by (simp add: sync_publish_def Let_def split_beta fire_def upd_info_def pin_out_def cb_out_def emit_def)

lemma sync_finish_out:
  assumes "sync_finish e io = (r, e', io')"
  obtains (fail) "r < 0" "ext io io'" "cb_attached e' = cb_attached e" "le_cb e' = le_cb e"
  | (synced) io1 where "r = OK" "ext io io1"
      "io_out io' = io_out io1 @ pin_out (di_capability_flags (le_info e)) @ cb_out (cb_on_sync (le_cb e)) (Cb_Sync (le_info e')) e"
      "le_info e' = (le_info e)\<lparr>di_flags := di_flags (le_info e) OR LUMP_FLAG_SYNCED, di_baud := new_baud_rate e\<rparr>"
      "info_flags e' = info_flags e" "cb_attached e' = cb_attached e" "le_cb e' = le_cb e" "ext_mode e' = ext_mode e"
proof -
  obtain r1 e1 io1 where 1: "lump_send_sys LUMP_SYS_ACK e io = (r1, e1, io1)" by (metis prod_cases3)
  have e1: "e1 = e\<lparr>tx_bytes := tx_bytes e1\<rparr>" "ext io io1"
    using 1 w.ext_send_sys [of io LUMP_SYS_ACK e] by (auto simp: lump_send_sys_def split: prod.splits)
  let ?call = "if new_baud_rate e1 \<noteq> LUMP_BAUD_INITIAL then io_call (Set_Baud (new_baud_rate e1)) (emit (Sleep_Ms 10) io1)
              else (OK, emit (Sleep_Ms 10) io1)"
  obtain r2 io2 where 2: "?call = (r2, io2)" by (metis prod.exhaust)
  have "ext io1 (snd ?call)" by (simp add: ext_emit ext_trans [OF ext_emit ext_call])
  then have x2: "ext io io2" using ext_trans [OF e1(2)] 2 by simp
  obtain r3 dq where 3: "lump_data_queue_begin (le_dq e1) = (r3, dq)" by (metis prod.exhaust)
  note a = assms [unfolded sync_finish_def 1 prod.case 2 3]
  have tx: "le_info e1 = le_info e" "new_baud_rate e1 = new_baud_rate e" "info_flags e1 = info_flags e"
    "cb_attached e1 = cb_attached e" "le_cb e1 = le_cb e" "ext_mode e1 = ext_mode e"
    by (subst e1(1), simp)+
  show ?thesis
  proof (cases "r1 < 0 \<or> r2 < 0 \<or> r3 < 0")
    case True
    then consider "r1 < 0" | "\<not> r1 < 0" "r2 < 0" | "\<not> r1 < 0" "\<not> r2 < 0" "r3 < 0" by blast
    then have "r < 0 \<and> (io' = io1 \<or> io' = io2) \<and> (e' = e1 \<or> e' = e1\<lparr>le_dq := dq\<rparr>)" by cases (use a in simp_all)
    then have "r < 0" "ext io io'" "cb_attached e' = cb_attached e" "le_cb e' = le_cb e"
      using x2 e1(2) tx(4,5) by auto
    then show ?thesis by (rule fail)
  next
    case False
    let ?e = "e1\<lparr>le_dq := dq\<rparr>"
    have s: "sync_publish ?e io2 = (r, e', io')" using a False by simp
    show ?thesis
      using synced [OF _ x2] sync_publish_fields [of ?e io2] sync_publish_out [of ?e io2]
      unfolding s by (simp add: tx cb_out_def)
  qed
qed

section \<open>What a session keeps of the engine\<close>

definition kept :: "lump_engine_s \<Rightarrow> lump_engine_s \<Rightarrow> bool" where
  "kept e e' \<longleftrightarrow> cb_attached e' = cb_attached e \<and> le_cb e' = le_cb e \<and>
     (bit (info_flags e) 0 \<longrightarrow> bit (info_flags e') 0) \<and> (bit (di_flags (le_info e')) 0 \<longleftrightarrow> bit (di_flags (le_info e)) 0)"

lemma kept_refl: "kept e e"
  by (simp add: kept_def)

lemma kept_trans: "kept a b \<Longrightarrow> kept b c \<Longrightarrow> kept a c"
  by (simp add: kept_def)

lemma loaded_kept: "loaded e e' \<Longrightarrow> kept e e'"
  using loaded_fields [of e e'] by (simp add: kept_def)

lemma data_ok_bit: "\<not> bit LUMP_FLAG_DATA_OK 0"
  by (simp add: LUMP_FLAG_DATA_OK_def)

lemma kept_book:
  "kept e (e\<lparr>le_state := s\<rparr>)" "kept e (e\<lparr>tx_bytes := n\<rparr>)" "kept e (e\<lparr>err_count := k\<rparr>)" "kept e (e\<lparr>wdog_stall := b\<rparr>)"
  "kept e (e\<lparr>bad_msg_count := n\<rparr>)" "kept e (record_frame e)" "kept e (e\<lparr>le_state := s, last_idx := 0, last_count := 0\<rparr>)"
  "kept e (e\<lparr>pending_select := b, pending_send := c\<rparr>)" "kept e (e\<lparr>ext_mode := m\<rparr>)" "kept e (upd_mode m f e)"
  "kept e (upd_info (\<lambda>i. i\<lparr>di_current_mode := m\<rparr>) e)"
  "kept e (upd_info (\<lambda>i. i\<lparr>di_flags := di_flags i AND NOT LUMP_FLAG_DATA_OK\<rparr>) e)"
  by (simp_all add: kept_def record_frame_def upd_mode_def upd_info_def bit_simps data_ok_bit)

lemma parse_cmd_kept: "kept e (snd (parse_cmd cmd cmd2 e))"
  unfolding parse_cmd_def Let_def by (simp add: kept_def upd_info_def bit_simps)

lemma parse_info_kept: "kept e (snd (parse_info cmd2 mode e))"
  unfolding parse_info_def parse_name_def parse_limits_def parse_units_def parse_format_def Let_def
  by (simp add: kept_def upd_info_def upd_mode_def bit_simps if_bits)

lemma parse_data_kept: "kept e (fst (snd (parse_data header e)))"
  unfolding parse_data_def Let_def fire_def
  by (simp add: kept_def upd_info_def split_beta bit_simps data_ok_bit)

lemma parse_msg_kept: "kept e (fst (snd (lump_parse_msg e)))"
  unfolding lump_parse_msg_def Let_def parse_sys_def
  by (simp add: split_beta parse_cmd_kept parse_info_kept parse_data_kept kept_refl kept_book)

lemma parse_io_kept: "parse_io e io = (r, e', io') \<Longrightarrow> kept e e'"
  using parse_msg_kept [of e] by (auto simp: parse_io_def split: prod.splits)

lemma recv_io_kept: "recv_io e io = Some (r, e', io') \<Longrightarrow> kept e e'"
  by (auto simp: recv_io_def split: option.splits dest!: recv_msg_loaded intro: loaded_kept)

lemma send_msg_kept: "kept e (fst (snd (lump_send_msg h p c e io)))"
  by (simp add: lump_send_msg_def Let_def split_beta kept_book kept_refl)

lemma send_sys_kept: "kept e (fst (snd (lump_send_sys b e io)))"
  by (simp add: lump_send_sys_def split_beta kept_book kept_refl)

lemma drain_kept: "kept e (fst (snd (lump_drain_tx_requests e io)))"
proof -
  have both: "kept x (fst (snd (send_both f g x i)))" if
    "\<And>x i. kept x (fst (snd (f x i)))" "\<And>x i. kept x (fst (snd (g x i)))" for f g x i
    using that kept_trans [OF that(1) that(2)] by (simp add: send_both_def split_beta)
  have d: "kept x (fst (snd (lump_send_data_frame m b x i)))" for m b x i
    by (simp add: lump_send_data_frame_def send_msg_kept kept_refl)
  show ?thesis
    unfolding lump_drain_tx_requests_def Let_def
    by (simp add: split_beta) (intro conjI impI; rule kept_trans [OF kept_book(8) [of e False False]], rule both;
      simp add: both d lump_send_ext_mode_def lump_send_select_def send_msg_kept kept_refl)
qed

lemma keepalive_kept: "kept e (fst (snd (keepalive now v e io)))"
  by (simp add: keepalive_def Let_def split_beta kept_book send_sys_kept kept_refl)

lemma data_recv_kept: "data_recv v e io = Some (v', e', io') \<Longrightarrow> kept e e'"
proof -
  assume a: "data_recv v e io = Some (v', e', io')"
  then obtain r e1 io1 where 1: "recv_io e io = Some (r, e1, io1)"
    by (cases "recv_io e io") (auto simp: data_recv_def)
  have "e' = e1 \<or> e' = e1\<lparr>bad_msg_count := bad_msg_count e1 + 1\<rparr> \<or> (\<exists>x io2. parse_io e1 io1 = (x, e', io2))"
    using a 1 by (auto simp: data_recv_def split: if_splits prod.splits)
  then show ?thesis
    using kept_trans [OF recv_io_kept [OF 1]] kept_book(5) parse_io_kept recv_io_kept [OF 1] by auto
qed

lemma data_iter_kept: "data_iter env v e io = Some (res, e', io') \<Longrightarrow> kept e e'"
proof (erule data_iter_cases)
  fix v1 e1 io1 r
  assume "data_recv v e io = Some (v1, e1, io1)" "keepalive (lv_now env) v1 e1 io1 = (Inl r, e', io')"
  then show "kept e e'" using kept_trans [OF data_recv_kept keepalive_kept [of e1 "lv_now env" v1 io1]] by auto
next
  fix v1 e1 io1 v2 e2 io2 r e3
  assume a: "data_recv v e io = Some (v1, e1, io1)" "keepalive (lv_now env) v1 e1 io1 = (Inr v2, e2, io2)"
    "lump_drain_tx_requests e2 io2 = (r, e3, io')" "e' = e3\<lparr>wdog_stall := wdog_stall e'\<rparr>"
  have "kept e e2" using kept_trans [OF data_recv_kept [OF a(1)] keepalive_kept [of e1 "lv_now env" v1 io1]] a(2) by simp
  moreover have "kept e2 e3" using drain_kept [of e2 io2] a(3) by simp
  moreover have "kept e3 e'" by (subst a(4)) (rule kept_book)
  ultimately show "kept e e'" by (metis kept_trans)
qed (simp add: kept_book)

lemma info_loop_kept: "info_loop e io = Some (r, e', io') \<Longrightarrow> kept e e'"
proof (induction "length (io_rx io)" arbitrary: e io rule: less_induct)
  case less
  from less.prems(1) show ?case
  proof (cases rule: info_loop_cases)
    case (skip r1 e1 io1)
    then show ?thesis using less.hyps [OF recv_io_shrinks [OF skip(1)] skip(2)] kept_trans recv_io_kept by blast
  next
    case (parsed r1 e1 io1 r2 e2 io2)
    have "io_rx io2 = io_rx io1" using parse_io_rx [of "record_frame e1" io1] parsed(2) by simp
    then have "kept e2 e'" using less.hyps [of io2 e2] parsed(3) recv_io_shrinks [OF parsed(1)] by simp
    then show ?thesis using recv_io_kept [OF parsed(1)] parse_io_kept [OF parsed(2)] kept_book(6) [of e1] kept_trans by metis
  next
    case (refused r1 e1 io1)
    then show ?thesis using recv_io_kept parse_io_kept kept_book(6) kept_trans by metis
  next
    case (ack r1 e1)
    then show ?thesis using recv_io_kept kept_book(6) kept_trans by metis
  qed (use recv_io_kept in auto)
qed

lemma info_loop_required: "info_loop e io = Some (r, e', io') \<Longrightarrow> \<not> r < 0 \<Longrightarrow> has_required e'"
proof (induction "length (io_rx io)" arbitrary: e io rule: less_induct)
  case less
  from less.prems(1) show ?case
  proof (cases rule: info_loop_cases)
    case (skip r1 e1 io1)
    then show ?thesis using less.hyps [OF recv_io_shrinks [OF skip(1)] skip(2)] less.prems(2) by simp
  next
    case (parsed r1 e1 io1 r2 e2 io2)
    have "io_rx io2 = io_rx io1" using parse_io_rx [of "record_frame e1" io1] parsed(2) by simp
    then show ?thesis using less.hyps [of io2 e2] parsed(3) recv_io_shrinks [OF parsed(1)] less.prems(2) by simp
  qed (use less.prems(2) in \<open>auto simp: EILSEQ_def\<close>)
qed

text \<open>
  The ways a synchronisation can end: with an error, or with an announcement that has all required parts.
\<close>

lemma lump_sync_cases:
  assumes "lump_sync e io = Some (r, e', io')"
  obtains (fail) "r < 0" "ext io io'" "kept e e'"
  | (acked) e1 io1 where "sync_finish e1 io1 = (r, e', io')" "ext io io1" "kept e e1" "has_required e1"
proof -
  obtain r1 e1 io1 where 1: "sync_probe e io = Some (r1, e1, io1)"
    using assms by (cases "sync_probe e io") (auto simp: lump_sync_def)
  have "e1 = fst (snd (lump_send_msg (fst (lump_cmd_header LUMP_CMD_SPEED 4))
      (take (snd (lump_cmd_header LUMP_CMD_SPEED 4)) (lump_put_u32_le LUMP_BAUD_INITIAL)) True
      (e\<lparr>le_state := LUMP_ST_SYNCING\<rparr>) io))"
    using 1 by (auto simp: sync_probe_def Let_def split_beta split: if_splits list.splits uart_ev.splits)
  then have k1: "kept e e1" using kept_trans [OF kept_book(1) [of e LUMP_ST_SYNCING] send_msg_kept] by simp
  note x1 = w.ext_sync_probe [OF 1]
  show ?thesis
  proof (cases "r1 < 0")
    case True
    then show ?thesis using assms 1 k1 x1 fail by (simp add: lump_sync_def)
  next
    case p1: False
    then obtain r2 e2 rx where 2: "type_resync (e1\<lparr>err_count := 0\<rparr>) (io_rx io1) = Some (r2, e2, rx)"
      using assms 1 by (cases "type_resync (e1\<lparr>err_count := 0\<rparr>) (io_rx io1)") (auto simp: lump_sync_def)
    have k2: "kept e e2"
      using kept_trans [OF kept_trans [OF k1 kept_book(3)] loaded_kept [OF type_resync_loaded [OF 2]]] .
    obtain r3 e3 io3 where 3: "parse_io e2 (io1\<lparr>io_rx := rx\<rparr>) = (r3, e3, io3)" by (metis prod_cases3)
    have k3: "kept e e3" using kept_trans [OF k2 parse_io_kept [OF 3]] .
    have x3: "ext io io3" using ext_trans [OF x1] w.ext_parse [of "io1\<lparr>io_rx := rx\<rparr>" e2] 3 by (simp add: ext_rx)
    let ?e3 = "e3\<lparr>le_state := LUMP_ST_INFO, last_idx := 0, last_count := 0\<rparr>"
    note a = assms [unfolded lump_sync_def 1 option.case prod.case if_not_P [OF p1] 2 Let_def 3]
    show ?thesis
    proof (cases "r2 < 0 \<or> r3 < 0")
      case True
      then have "r < 0 \<and> (e' = e2 \<and> io' = io1\<lparr>io_rx := rx\<rparr> \<or> e' = e3 \<and> io' = io3)"
        using a by (auto split: if_splits)
      then show ?thesis using fail k2 k3 x1 x3 ext_rx(1) by auto
    next
      case p3: False
      then obtain r4 e4 io4 where 4: "info_loop ?e3 io3 = Some (r4, e4, io4)"
        using a by (cases "info_loop ?e3 io3") auto
      have k4: "kept e e4" using kept_trans [OF kept_trans [OF k3 kept_book(7)] info_loop_kept [OF 4]] .
      have x4: "ext io io4" using ext_trans [OF x3 w.ext_info_loop [OF 4]] .
      show ?thesis
      proof (cases "r4 < 0")
        case True
        then show ?thesis using a p3 4 fail k4 x4 by simp
      next
        case False
        then show ?thesis using a p3 4 acked [of e4 io4] k4 x4 info_loop_required [OF 4] by simp
      qed
    qed
  qed
qed

section \<open>A port over time\<close>

text \<open>
  The thread of a port between two waits. While a session is in its DATA loop, clients may call between two
  iterations; outside the loop their requests are refused because the device is not synchronised. A step
  carries the outputs it makes; each starts with its own tape of UART results.
\<close>

datatype port_phase = Waiting | Looping loop_vars

definition fresh_io :: "lump_io \<Rightarrow> bool" where
  "fresh_io io \<longleftrightarrow> io_out io = []"

inductive lump_step :: "port_phase \<times> lump_engine_s \<Rightarrow> lump_out list \<Rightarrow> port_phase \<times> lump_engine_s \<Rightarrow> bool" where
  handoff: "lump_step (ph, e) [] (ph, snd (lump_handoff_cb e))"
| open_failed: "handoff_pending e \<Longrightarrow> fresh_io io \<Longrightarrow>
    lump_reset_session_state (e\<lparr>handoff_pending := False\<rparr>) io = (e1, io1) \<Longrightarrow>
    io_call (Uart_Open LUMP_BAUD_INITIAL) (emit Config_Pins io1) = (r, io2) \<Longrightarrow> r < 0 \<Longrightarrow>
    session_end r e1 io2 = (e', io') \<Longrightarrow> lump_step (Waiting, e) (io_out io') (Waiting, e')"
| sync_failed: "handoff_pending e \<Longrightarrow> fresh_io io \<Longrightarrow>
    lump_reset_session_state (e\<lparr>handoff_pending := False\<rparr>) io = (e1, io1) \<Longrightarrow>
    io_call (Uart_Open LUMP_BAUD_INITIAL) (emit Config_Pins io1) = (r, io2) \<Longrightarrow> \<not> r < 0 \<Longrightarrow>
    lump_sync e1 io2 = Some (r2, e2, io3) \<Longrightarrow> r2 < 0 \<Longrightarrow>
    session_end r2 e2 io3 = (e', io') \<Longrightarrow> lump_step (Waiting, e) (io_out io') (Waiting, e')"
| sync_done: "handoff_pending e \<Longrightarrow> fresh_io io \<Longrightarrow>
    lump_reset_session_state (e\<lparr>handoff_pending := False\<rparr>) io = (e1, io1) \<Longrightarrow>
    io_call (Uart_Open LUMP_BAUD_INITIAL) (emit Config_Pins io1) = (r, io2) \<Longrightarrow> \<not> r < 0 \<Longrightarrow>
    lump_sync e1 io2 = Some (r2, e2, io3) \<Longrightarrow> \<not> r2 < 0 \<Longrightarrow>
    lump_step (Waiting, e) (io_out (emit Flush_Rx io3))
      (Looping \<lparr>last_keepalive = t0, miss_count = 0, data_rec = False\<rparr>, e2\<lparr>wdog_stall := False\<rparr>)"
| iterated: "fresh_io io \<Longrightarrow> data_iter env v e io = Some (Inr v', e', io') \<Longrightarrow>
    lump_step (Looping v, e) (io_out io') (Looping v', e')"
| ended: "fresh_io io \<Longrightarrow> data_iter env v e io = Some (Inl r, e1, io1) \<Longrightarrow> session_end r e1 io1 = (e', io') \<Longrightarrow>
    lump_step (Looping v, e) (io_out io') (Waiting, e')"
| selected: "lump_select_mode 0 mode [e] = (r, [e']) \<Longrightarrow> lump_step (ph, e) [] (ph, e')"
| sent: "lump_send_data 0 mode buf [e] = (r, [e']) \<Longrightarrow> lump_step (ph, e) [] (ph, e')"
| popped: "lump_pop_data_session_frame 0 b [e] = (r, fr, [e']) \<Longrightarrow> lump_step (ph, e) [] (ph, e')"

definition attached_engine :: "nat \<Rightarrow> lump_callbacks_s \<Rightarrow> lump_engine_s" where
  "attached_engine p c = (zero_engine p)\<lparr>dcm_cb_registered := True, cb_attached := True, le_cb := c\<rparr>"

inductive lump_run :: "nat \<Rightarrow> lump_callbacks_s \<Rightarrow> lump_out list \<Rightarrow> port_phase \<times> lump_engine_s \<Rightarrow> bool" for p c where
  start: "lump_run p c [] (Waiting, attached_engine p c)"
| step: "lump_run p c tr s \<Longrightarrow> lump_step s out s' \<Longrightarrow> lump_run p c (tr @ out) s'"

text \<open>What holds of an engine in each phase.\<close>

fun phase_ok :: "port_phase \<times> lump_engine_s \<Rightarrow> bool" where
  "phase_ok (Waiting, e) \<longleftrightarrow> engine_ok e \<and> di_flags (le_info e) = 0"
| "phase_ok (Looping v, e) \<longleftrightarrow> engine_ok e \<and> bit (di_flags (le_info e)) 0 \<and> bit (info_flags e) 0"

lemma session_end_waits: "engine_ok e \<Longrightarrow> phase_ok (Waiting, fst (session_end r e io))"
  using session_end_ok [of e r io] by (simp add: session_end_def Let_def split_beta upd_info_def fire_def)

lemma synced_bit: "lump_synced e \<longleftrightarrow> bit (di_flags (le_info e)) 0"
proof -
  have "x AND 1 \<noteq> 0 \<longleftrightarrow> bit x 0" for x :: byte
    by (simp add: bit_0 and_one_eq mod_2_eq_odd)
  then show ?thesis by (simp add: lump_synced_def LUMP_FLAG_SYNCED_def)
qed

lemma sync_live:
  assumes "lump_sync e io = Some (r, e', io')" "\<not> r < 0"
  shows "bit (di_flags (le_info e')) 0 \<and> bit (info_flags e') 0"
  using assms(1)
proof (cases rule: lump_sync_cases)
  case (acked e1 io1)
  from acked(1) show ?thesis
  proof (cases rule: sync_finish_out)
    case (synced io2)
    then show ?thesis using acked(4) by (simp add: required_bits bit_simps LUMP_FLAG_SYNCED_def)
  qed (use assms(2) in simp)
qed (use assms(2) in simp)

lemma api_pres:
  "lump_select_mode 0 mode [e] = (r, [e']) \<Longrightarrow> engine_ok e \<Longrightarrow> engine_ok e' \<and> le_info e' = le_info e \<and> info_flags e' = info_flags e"
  "lump_send_data 0 mode buf [e] = (r, [e']) \<Longrightarrow> engine_ok e \<Longrightarrow> engine_ok e' \<and> le_info e' = le_info e \<and> info_flags e' = info_flags e"
  "lump_pop_data_session_frame 0 b [e] = (r, fr, [e']) \<Longrightarrow> engine_ok e \<Longrightarrow>
     engine_ok e' \<and> le_info e' = le_info e \<and> info_flags e' = info_flags e"
proof -
  show "lump_select_mode 0 mode [e] = (r, [e']) \<Longrightarrow> engine_ok e \<Longrightarrow> engine_ok e' \<and> le_info e' = le_info e \<and> info_flags e' = info_flags e"
    by (auto simp: lump_select_mode_def Let_def engine_ok_def split: if_splits)
  show "lump_send_data 0 mode buf [e] = (r, [e']) \<Longrightarrow> engine_ok e \<Longrightarrow> engine_ok e' \<and> le_info e' = le_info e \<and> info_flags e' = info_flags e"
    by (cases buf) (auto simp: lump_send_data_def Let_def engine_ok_def split: if_splits)
  show "lump_pop_data_session_frame 0 b [e] = (r, fr, [e']) \<Longrightarrow> engine_ok e \<Longrightarrow>
     engine_ok e' \<and> le_info e' = le_info e \<and> info_flags e' = info_flags e"
    using ring_get_ok [of "le_dq e"]
    by (auto simp: lump_pop_data_session_frame_def ring_get_def engine_ok_def split: if_splits prod.splits)
qed

lemma step_phase_ok: "lump_step s out s' \<Longrightarrow> phase_ok s \<Longrightarrow> phase_ok s'"
proof (induction rule: lump_step.induct)
  case (handoff ph e)
  then show ?case by (cases ph) (simp_all add: lump_handoff_cb_def book_ok)
next
  case (open_failed e io e1 io1 r io2 e' io')
  then have "engine_ok e1" using reset_ok [OF book_ok(6), of e False io] by simp
  then show ?case using session_end_waits [of e1 r io2] open_failed by simp
next
  case (sync_failed e io e1 io1 r io2 r2 e2 io3 e' io')
  then have "engine_ok e1" using reset_ok [OF book_ok(6), of e False io] by simp
  then have "engine_ok e2" using sync_ok sync_failed by blast
  then show ?case using session_end_waits [of e2 r2 io3] sync_failed by simp
next
  case (sync_done e io e1 io1 r io2 r2 e2 io3 t0)
  then have "engine_ok e1" using reset_ok [OF book_ok(6), of e False io] by simp
  then have "engine_ok e2" using sync_ok sync_done by blast
  then show ?case using sync_live [OF sync_done(6,7)] by (simp add: book_ok)
next
  case (iterated io env v e v' e' io')
  then show ?case using data_iter_ok [OF iterated(2)] data_iter_kept [OF iterated(2)] by (simp add: kept_def)
next
  case (ended io env v e r e1 io1 e' io')
  then show ?case using session_end_waits [OF data_iter_ok [OF ended(2)], of r io1] by simp
next
  case (selected mode e r e' ph)
  then show ?case using api_pres(1) [OF selected(1)] by (cases ph) simp_all
next
  case (sent mode buf e r e' ph)
  then show ?case using api_pres(2) [OF sent(1)] by (cases ph) simp_all
next
  case (popped b e r fr e' ph)
  then show ?case using api_pres(3) [OF popped(1)] by (cases ph) simp_all
qed

lemma run_phase_ok: "lump_run p c tr s \<Longrightarrow> phase_ok s"
proof (induction rule: lump_run.induct)
  case start
  have "engine_ok (attached_engine p c)" using zero_engine_ok [of p] by (simp add: attached_engine_def engine_ok_def)
  then show ?case by (simp add: attached_engine_def zero_engine_def zero_info_def)
qed (rule step_phase_ok)

section \<open>Callbacks and the supply rail\<close>

text \<open>
  The protocol a consumer may rely on: a synchronisation opens the device, an error closes it, and there is
  no second opening in between. Data may arrive at any time. An opening describes a device completely.
\<close>

definition announced :: "lump_device_info_s \<Rightarrow> bool" where
  "announced i \<longleftrightarrow> info_ok i \<and> bit (di_flags i) 0 \<and> LUMP_TYPE_ID_MIN \<le> di_type_id i \<and> di_type_id i \<le> LUMP_TYPE_ID_MAX"

fun cb_next :: "bool \<Rightarrow> lump_out \<Rightarrow> bool option" where
  "cb_next opened (Cb_Sync i) = (if opened \<or> \<not> announced i then None else Some True)"
| "cb_next opened (Cb_Error m) = Some False"
| "cb_next opened _ = Some opened"

fun cb_run :: "bool \<Rightarrow> lump_out list \<Rightarrow> bool option" where
  "cb_run opened [] = Some opened"
| "cb_run opened (a # as) = (case cb_next opened a of None \<Rightarrow> None | Some o' \<Rightarrow> cb_run o' as)"

lemma cb_run_append: "cb_run b (xs @ ys) = (case cb_run b xs of None \<Rightarrow> None | Some b' \<Rightarrow> cb_run b' ys)"
  by (induction xs arbitrary: b) (simp_all split: option.splits)

lemma cb_run_wire: "list_all wire xs \<Longrightarrow> cb_run b xs = Some b"
proof (induction xs)
  case (Cons a xs)
  then show ?case by (cases a) auto
qed simp

text \<open>The supply rail the H-bridge driver holds for the port.\<close>

fun rail_next :: "int \<Rightarrow> lump_out \<Rightarrow> int" where
  "rail_next s Pwm_Unpin = 0"
| "rail_next s (Pwm_Pin d) = d"
| "rail_next s _ = s"

definition rail :: "lump_out list \<Rightarrow> int \<Rightarrow> int" where
  "rail tr s = fold (\<lambda>a s. rail_next s a) tr s"

lemma rail_append: "rail (xs @ ys) s = rail ys (rail xs s)"
  by (simp add: rail_def)

lemma rail_wire: "list_all wire xs \<Longrightarrow> rail xs s = s"
proof (induction xs arbitrary: s)
  case (Cons a xs)
  then show ?case by (cases a) (auto simp: rail_def)
qed (simp add: rail_def)

lemma ext_traces: "ext io io' \<Longrightarrow> cb_run b (io_out io') = cb_run b (io_out io) \<and> rail (io_out io') s = rail (io_out io) s"
  by (auto simp: exts_def cb_run_append rail_append cb_run_wire rail_wire split: option.splits)

lemma session_end_out:
  "\<exists>m n. io_out (snd (session_end r e io)) =
     io_out io @ [Uart_Close, Release_Uart] @ cb_out (cb_on_error (le_cb e)) (Cb_Error m) e @ [Register_Handoff, Sleep_Ms n]"
  by (simp add: session_end_def Let_def split_beta fire_def cb_out_def emit_def upd_info_def)

lemma start_out:
  assumes "fresh_io io" "lump_reset_session_state e io = (e1, io1)"
    "io_call (Uart_Open LUMP_BAUD_INITIAL) (emit Config_Pins io1) = (r, io2)"
  shows "io_out io2 = [Pwm_Unpin, Config_Pins, Uart_Open LUMP_BAUD_INITIAL]"
    "cb_attached e1 = cb_attached e" "le_cb e1 = le_cb e"
  using assms by (auto simp: fresh_io_def lump_reset_session_state_def io_call_def emit_def split: list.splits)

abbreviation all_cb :: lump_callbacks_s where
  "all_cb \<equiv> \<lparr>cb_on_sync = True, cb_on_data = True, cb_on_error = True\<rparr>"

lemma session_end_cb: "cb_attached (fst (session_end r e io)) = cb_attached e" "le_cb (fst (session_end r e io)) = le_cb e"
  by (simp_all add: session_end_def Let_def split_beta fire_def upd_info_def)

lemma end_traces:
  assumes "session_end r e io = (e', io')"
  shows "cb_attached e \<Longrightarrow> le_cb e = all_cb \<Longrightarrow> cb_run b (io_out io) \<noteq> None \<Longrightarrow> cb_run b (io_out io') = Some False"
    "rail (io_out io') s = rail (io_out io) s" "cb_attached e' = cb_attached e" "le_cb e' = le_cb e"
proof -
  obtain m n where o: "io_out io' =
     io_out io @ [Uart_Close, Release_Uart] @ cb_out (cb_on_error (le_cb e)) (Cb_Error m) e @ [Register_Handoff, Sleep_Ms n]"
    using session_end_out [of r e io] assms by auto
  show "cb_attached e \<Longrightarrow> le_cb e = all_cb \<Longrightarrow> cb_run b (io_out io) \<noteq> None \<Longrightarrow> cb_run b (io_out io') = Some False"
    unfolding o by (auto simp: cb_run_append cb_out_def)
  show "rail (io_out io') s = rail (io_out io) s" unfolding o by (auto simp: rail_append cb_out_def) (auto simp: rail_def)
  show "cb_attached e' = cb_attached e" "le_cb e' = le_cb e" using session_end_cb [of r e io] assms by simp_all
qed

lemma sync_traces:
  assumes "lump_sync e io = Some (r, e', io')" "engine_ok e" "cb_attached e" "le_cb e = all_cb" "cb_run b (io_out io) = Some False"
  shows "cb_run b (io_out io') = Some (\<not> r < 0)" "cb_attached e'" "le_cb e' = all_cb"
proof -
  have "cb_run b (io_out io') = Some (\<not> r < 0) \<and> cb_attached e' \<and> le_cb e' = all_cb"
    using assms(1)
  proof (cases rule: lump_sync_cases)
    case fail
    then show ?thesis using assms ext_traces [of io io' b] by (simp add: kept_def)
  next
    case (acked e1 io1)
    have k: "cb_attached e1" "le_cb e1 = all_cb" using acked(3) assms by (simp_all add: kept_def)
    have run1: "cb_run b (io_out io1) = Some False" using ext_traces [OF acked(2), of b] assms(5) by simp
    from acked(1) show ?thesis
    proof (cases rule: sync_finish_out)
      case fail
      then show ?thesis using k ext_traces [OF fail(2), of b] run1 by simp
    next
      case (synced io2)
      have "announced (le_info e')"
        using sync_ok [OF assms(1,2)] sync_live [OF assms(1)] synced(1)
        by (simp add: announced_def engine_ok_def flags_ok_def OK_def)
      moreover have "cb_run b (io_out io2) = Some False" using ext_traces [OF synced(2), of b] run1 by simp
      ultimately show ?thesis
        using synced k by (simp add: cb_run_append cb_out_def pin_out_def OK_def)
    qed
  qed
  then show "cb_run b (io_out io') = Some (\<not> r < 0)" "cb_attached e'" "le_cb e' = all_cb" by simp_all
qed


lemma step_traces:
  assumes "lump_step (ph, e) out (ph', e')" "phase_ok (ph, e)" "cb_attached e" "le_cb e = all_cb"
  shows "cb_run (ph \<noteq> Waiting) out = Some (ph' \<noteq> Waiting) \<and> cb_attached e' \<and> le_cb e' = all_cb"
  using assms(1)
proof (cases rule: lump_step.cases)
  case handoff
  then show ?thesis using assms by (simp add: lump_handoff_cb_def)
next
  case (open_failed io e1 io1 r io2 io')
  note s = start_out [OF open_failed(5,6,7)]
  have "cb_run False (io_out io2) = Some False" by (simp add: s(1))
  then show ?thesis using open_failed end_traces(1) [OF open_failed(9), of False] end_traces(3,4) [OF open_failed(9)] s assms by simp
next
  case (sync_failed io e1 io1 r io2 r2 e2 io3 io')
  note s = start_out [OF sync_failed(5,6,7)]
  have ok: "engine_ok e1" using reset_ok [OF book_ok(6), of e False io] sync_failed assms(2) by simp
  have 0: "cb_run False (io_out io2) = Some False" by (simp add: s(1))
  note t = sync_traces [OF sync_failed(9) ok _ _ 0]
  then show ?thesis using sync_failed end_traces(1) [OF sync_failed(11), of False] end_traces(3,4) [OF sync_failed(11)] s assms by simp
next
  case (sync_done io e1 io1 r io2 r2 e2 io3 t0)
  note s = start_out [OF sync_done(6,7,8)]
  have ok: "engine_ok e1" using reset_ok [OF book_ok(6), of e False io] sync_done assms(2) by simp
  have 0: "cb_run False (io_out io2) = Some False" by (simp add: s(1))
  note t = sync_traces [OF sync_done(10) ok _ _ 0]
  then show ?thesis using sync_done s assms by (simp add: emit_def cb_run_append)
next
  case (iterated io env v v' io')
  then show ?thesis
    using ext_traces [OF w.ext_data_iter [OF iterated(5)], of True] data_iter_kept [OF iterated(5)] assms
    by (simp add: kept_def fresh_io_def)
next
  case (ended io env v r e1 io1 io')
  have "cb_run True (io_out io1) = Some True" "kept e e1"
    using ext_traces [OF w.ext_data_iter [OF ended(5)], of True] data_iter_kept [OF ended(5)] ended by (simp_all add: fresh_io_def)
  then show ?thesis using ended end_traces(1) [OF ended(6), of True] end_traces(3,4) [OF ended(6)] assms by (simp add: kept_def)
next
  case (selected mode r)
  then show ?thesis using assms by (auto simp: lump_select_mode_def Let_def split: if_splits)
next
  case (sent mode buf r)
  then show ?thesis using assms by (auto simp: lump_send_data_def Let_def split: if_splits)
next
  case (popped b r fr)
  then show ?thesis using assms by (auto simp: lump_pop_data_session_frame_def split: if_splits prod.splits)
qed

lemma run_traces:
  "lump_run p all_cb tr s \<Longrightarrow> cb_run False tr = Some (fst s \<noteq> Waiting) \<and> cb_attached (snd s) \<and> le_cb (snd s) = all_cb"
proof (induction rule: lump_run.induct)
  case start
  then show ?case by (simp add: attached_engine_def)
next
  case (step tr s out s')
  obtain ph e ph' e' where s: "s = (ph, e)" "s' = (ph', e')" by (metis prod.exhaust)
  show ?case
    using step_traces [of ph e out ph' e'] step.hyps(2) step.IH run_phase_ok [OF step.hyps(1)]
    by (simp add: s cb_run_append)
qed

lemma end_keeps_rail:
  assumes "lump_step (Looping v, e) out (Waiting, e')"
  shows "rail out s = s"
  using assms
proof (cases rule: lump_step.cases)
  case (ended io env r e1 io1 io')
  then show ?thesis
    using end_traces(2) [OF ended(4), of s] ext_traces [OF w.ext_data_iter [OF ended(3)], of True s]
    by (simp add: fresh_io_def rail_def)
qed

end
