(* ===== verification/Lump_Announce.thy ===== *)
theory Lump_Announce
  imports Lump_Laws
begin

text \<open>
  The announcement of a device as the LUMP engine reads it: every frame a well-behaved device sends during
  the synchronisation is taken through the receiver, the parser and the INFO loop, so that the description
  the consumer is given can be compared with the one the device sent.
\<close>

section \<open>The announcement of a device\<close>

text \<open>
  What a device says about itself: its type, the rate it wants to use, and for each mode a name, the number
  and type of the values and whether the mode accepts data. It is sent as one CMD TYPE, MODES and SPEED
  frame, then NAME, MAPPING and FORMAT of every mode, the highest mode first, and an ACK.
\<close>

record mode_desc =
  md_name :: "byte list"
  md_num_values :: byte
  md_data_type :: byte
  md_writable :: bool

definition info_header :: "byte \<Rightarrow> nat \<Rightarrow> byte" where
  "info_header code m = LUMP_MSG_TYPE_INFO OR (push_bit 3 code AND LUMP_MSG_SIZE_MASK) OR (of_nat m AND LUMP_MSG_CMD_MASK)"

definition info_frame :: "nat \<Rightarrow> byte \<Rightarrow> byte list \<Rightarrow> byte list" where
  "info_frame m kind payload =
     lump_frame (info_header (fst (size_class (length payload))) m)
       (kind # payload @ replicate (snd (size_class (length payload)) - length payload) 0) True"

definition mode_frames :: "nat \<Rightarrow> mode_desc \<Rightarrow> byte list list" where
  "mode_frames m d =
     [info_frame m LUMP_INFO_NAME (md_name d),
      info_frame m LUMP_INFO_MAPPING [0, if md_writable d then 1 else 0],
      info_frame m LUMP_INFO_FORMAT [md_num_values d, md_data_type d, 4, 0]]"

fun all_mode_frames :: "nat \<Rightarrow> mode_desc list \<Rightarrow> byte list list" where
  "all_mode_frames m [] = []"
| "all_mode_frames m (d # ds) = all_mode_frames (m + 1) ds @ mode_frames m d"

definition announcement :: "byte \<Rightarrow> 32 word \<Rightarrow> mode_desc list \<Rightarrow> byte list list" where
  "announcement type_id speed ds =
     [lump_frame 0x40 [type_id] True, lump_frame 0x41 [of_nat (length ds) - 1] True,
      lump_frame 0x52 (lump_put_u32_le speed) True] @ all_mode_frames 0 ds @ [[LUMP_SYS_ACK]]"

definition desc_ok :: "mode_desc \<Rightarrow> bool" where
  "desc_ok d \<longleftrightarrow> md_name d \<noteq> [] \<and> length (md_name d) \<le> 12 \<and> 0 \<notin> set (md_name d) \<and>
     65 \<le> md_name d ! 0 \<and> md_name d ! 0 \<le> 122"

text \<open>What the engine should make of a mode.\<close>

definition described :: "mode_desc \<Rightarrow> lump_mode_info_s" where
  "described d = zero_mode\<lparr>mi_name := strncpy_field LUMP_MAX_NAME_LEN (md_name d), mi_num_values := md_num_values d,
     mi_data_type := md_data_type d, mi_writable := md_writable d\<rparr>"

lemma small_byte: "m < 8 \<Longrightarrow> (of_nat m :: byte) AND 7 = of_nat m"
  by (auto simp: numeral_eq_Suc less_Suc_eq)

lemma info_header_fields:
  assumes "m < 8" "len \<le> 32"
  shows "info_header (fst (size_class len)) m AND LUMP_MSG_TYPE_MASK = LUMP_MSG_TYPE_INFO"
    "lump_msg_payload_size (info_header (fst (size_class len)) m) = snd (size_class len)"
    "info_header (fst (size_class len)) m AND LUMP_MSG_CMD_MASK = of_nat m"
proof -
  obtain c where c: "c \<in> {0, 1, 2, 3, 4, 5}" "fst (size_class len) = c" "snd (size_class len) = 2 ^ unat c"
    using size_class_cases [OF assms(2)] by blast
  note d = info_header_def lump_type_consts c(2) bit.conj_disj_distrib2 and.assoc
  show "info_header (fst (size_class len)) m AND LUMP_MSG_TYPE_MASK = LUMP_MSG_TYPE_INFO" using c(1) by (auto simp: d)
  show "lump_msg_payload_size (info_header (fst (size_class len)) m) = snd (size_class len)"
    using c(1) by (auto simp: lump_msg_payload_size_def c(3) d)
  show "info_header (fst (size_class len)) m AND LUMP_MSG_CMD_MASK = of_nat m"
    using c(1) small_byte [OF assms(1)] by (auto simp: d)
qed

text \<open>A well-formed frame in the INFO loop goes straight to the parser.\<close>

definition good_frame :: "byte list \<Rightarrow> bool" where
  "good_frame fr \<longleftrightarrow> 1 < length fr \<and> length fr = lump_msg_total_size (fr ! 0) \<and> length fr \<le> LUMP_RX_MSG_BYTES \<and>
     lump_xor_checksum (butlast fr) = last fr"

definition load :: "byte list \<Rightarrow> lump_engine_s \<Rightarrow> lump_engine_s" where
  "load fr e = e\<lparr>rx_msg := fr @ drop (length fr) (rx_msg e), rx_bytes := rx_bytes e + of_nat (length fr), rx_msg_size := length fr\<rparr>"

lemma recv_good:
  "length (rx_msg e) = LUMP_RX_MSG_BYTES \<Longrightarrow> good_frame fr \<Longrightarrow> lump_recv_msg e (map Rx fr @ rx) = Some (OK, load fr e, rx)"
  using recv_frame [of e fr rx] by (simp add: good_frame_def load_def Let_def)

lemma sys_size: "x AND LUMP_MSG_TYPE_MASK = LUMP_MSG_TYPE_SYS \<Longrightarrow> lump_msg_total_size x = 1"
  by (simp add: lump_msg_total_size_def)

lemma info_loop_frame:
  assumes "length (rx_msg e) = LUMP_RX_MSG_BYTES" "good_frame fr" "io_rx io = map Rx fr @ rx"
    "lump_parse_msg (record_frame (load fr e)) = (r, e', [])" "r \<noteq> - EILSEQ"
  shows "info_loop e io = info_loop e' (io\<lparr>io_rx := rx\<rparr>)"
proof -
  have "fr ! 0 \<noteq> 4" using assms(2) sys_size [of "fr ! 0"] by (auto simp: good_frame_def lump_type_consts)
  then have a: "rx_msg (record_frame (load fr e)) ! 0 \<noteq> LUMP_MSG_TYPE_SYS OR LUMP_SYS_ACK"
    using assms(2) by (simp add: record_frame_def load_def nth_append good_frame_def lump_type_consts LUMP_SYS_ACK_def)
  have b: "recv_io e io = Some (OK, load fr e, io\<lparr>io_rx := rx\<rparr>)"
    using recv_good [OF assms(1,2), of rx] assms(3) by (simp add: recv_io_def)
  have c: "parse_io (record_frame (load fr e)) (io\<lparr>io_rx := rx\<rparr>) = (r, e', io\<lparr>io_rx := rx\<rparr>)"
    using assms(4) by (simp add: parse_io_def)
  have n: "\<not> (OK = - EBADMSG \<or> OK = - EILSEQ)" "\<not> OK < 0" by (simp_all add: OK_def EBADMSG_def EILSEQ_def)
  show ?thesis
    unfolding info_loop.simps [of e io] b option.case prod.case Let_def if_not_P [OF n(1)] if_not_P [OF n(2)] if_not_P [OF a] c
      if_not_P [OF assms(5)] ..
qed

lemma info_frame_good:
  assumes "m < 8" "1 \<le> length p" "length p \<le> 32"
  shows "good_frame (info_frame m k p)" "length (info_frame m k p) = snd (size_class (length p)) + 3"
proof -
  obtain c where c: "c \<in> {0, 1, 2, 3, 4, 5}" "fst (size_class (length p)) = c" "snd (size_class (length p)) = 2 ^ unat c"
      "length p \<le> 2 ^ unat c"
    by (rule size_class_cases [OF assms(3)])
  show l: "length (info_frame m k p) = snd (size_class (length p)) + 3"
    using c by (simp add: info_frame_def frame_fields)
  have "info_frame m k p ! 0 = info_header (fst (size_class (length p))) m" by (simp add: info_frame_def frame_fields)
  then have "lump_msg_total_size (info_frame m k p ! 0) = snd (size_class (length p)) + 3"
    using info_header_fields [OF assms(1,3)] by (simp add: lump_msg_total_size_def lump_type_consts)
  moreover have "snd (size_class (length p)) \<le> 32" using c by auto
  ultimately show "good_frame (info_frame m k p)"
    using l frame_fields(3) by (simp add: good_frame_def LUMP_RX_MSG_BYTES_def info_frame_def)
qed

text \<open>The bytes of a loaded INFO frame.\<close>

lemma info_frame_bytes:
  assumes "m < 8" "1 \<le> length p" "length p \<le> 32"
  shows "\<exists>cs rest. rx_msg (record_frame (load (info_frame m k p) e)) =
    info_header (fst (size_class (length p))) m # k # p @ replicate (snd (size_class (length p)) - length p) 0 @ cs # rest"
    "rx_msg_size (record_frame (load (info_frame m k p) e)) = snd (size_class (length p)) + 3"
  using info_frame_good(2) [OF assms, of k]
  by (simp_all add: load_def record_frame_def) (simp add: info_frame_def lump_frame_def)


type_synonym core = "32 word \<times> byte \<times> byte \<times> lump_device_info_s \<times> 32 word \<times> nat \<times> lump_data_queue_s \<times> bool \<times> lump_callbacks_s"

definition core :: "lump_engine_s \<Rightarrow> core" where
  "core e = (info_flags e, new_mode e, ext_mode e, le_info e, new_baud_rate e, length (rx_msg e), le_dq e, cb_attached e, le_cb e)"

definition set_mode :: "nat \<Rightarrow> (lump_mode_info_s \<Rightarrow> lump_mode_info_s) \<Rightarrow> lump_device_info_s \<Rightarrow> lump_device_info_s" where
  "set_mode m f i = i\<lparr>di_modes := (di_modes i)[m := f (di_modes i ! m)]\<rparr>"

lemma core_loaded: "length fr \<le> length (rx_msg e) \<Longrightarrow> core (record_frame (load fr e)) = core e"
  by (simp add: core_def record_frame_def load_def)

lemma parse_info_frame:
  assumes "m < 8" "1 \<le> length p" "length p \<le> 32" "k AND LUMP_INFO_MODE_PLUS_8 = 0" "ext_mode e = 0"
  defines "x \<equiv> record_frame (load (info_frame m k p) e)"
  shows "lump_parse_msg x = (case parse_info k (of_nat m) x of (r, e') \<Rightarrow> (r, e', []))"
proof -
  obtain cs rest where b: "rx_msg x = info_header (fst (size_class (length p))) m # k # p @
      replicate (snd (size_class (length p)) - length p) 0 @ cs # rest"
    using info_frame_bytes(1) [OF assms(1-3)] unfolding x_def by blast
  have s: "rx_msg_size x = snd (size_class (length p)) + 3" unfolding x_def by (rule info_frame_bytes(2) [OF assms(1-3)])
  have e: "ext_mode x = 0" using assms(5) by (simp add: x_def record_frame_def load_def)
  have u: "unat (of_nat m :: byte) < 8" using assms(1) by (simp add: unat_of_nat)
  note h = info_header_fields [OF assms(1,3)]
  show ?thesis
    unfolding lump_parse_msg_def Let_def b using h s e u assms(4)
    by (simp add: lump_type_consts LUMP_MAX_MODES_def)
qed

lemma of_nat_unat_small: "m < 8 \<Longrightarrow> unat (of_nat m :: byte) = m"
  by (simp add: unat_of_nat)

text \<open>A name field: no capability byte is read from frames of this size.\<close>

lemma parse_name_frame:
  assumes "m < 8" "desc_ok d" "core e = (f, nm, 0, i, b, LUMP_RX_MSG_BYTES, q, at, cb)"
  defines "x \<equiv> record_frame (load (info_frame m LUMP_INFO_NAME (md_name d)) e)"
  shows "\<exists>e'. lump_parse_msg x = (OK, e', []) \<and>
    core e' = (f OR LUMP_IF_INFO_NAME, of_nat m, 0,
      set_mode m (\<lambda>y. y\<lparr>mi_name := strncpy_field LUMP_MAX_NAME_LEN (md_name d), mi_mode_flags := 0\<rparr>) i, b, LUMP_RX_MSG_BYTES, q, at, cb)"
proof -
  let ?p = "md_name d" and ?n = "snd (size_class (length (md_name d)))"
  have d: "1 \<le> length ?p" "length ?p \<le> 32" "length ?p \<le> 12" "0 \<notin> set ?p" "65 \<le> ?p ! 0" "?p ! 0 \<le> 122"
    using assms(2) by (auto simp: desc_ok_def Suc_le_eq)
  have d': "\<not> ?p ! 0 < 65" "\<not> 122 < ?p ! 0" using d(5,6) by (simp_all add: not_less)
  have e0: "ext_mode e = 0" "length (rx_msg e) = LUMP_RX_MSG_BYTES" using assms(3) by (simp_all add: core_def)
  obtain cs rest where bs: "rx_msg x = info_header (fst (size_class (length ?p))) m # LUMP_INFO_NAME # ?p @
      replicate (?n - length ?p) 0 @ cs # rest"
    using info_frame_bytes(1) [OF assms(1) d(1,2)] unfolding x_def by blast
  have s: "rx_msg_size x = ?n + 3" unfolding x_def by (rule info_frame_bytes(2) [OF assms(1) d(1,2)])
  have n: "length ?p \<le> ?n" using data_header_fields(4) [OF d(2)] .
  have cx: "core x = core e" unfolding x_def
    using info_frame_good(2) [OF assms(1) d(1,2), of LUMP_INFO_NAME] data_header_fields(5) [OF d(2)] e0(2)
    by (intro core_loaded) (simp add: LUMP_RX_MSG_BYTES_def)
  have r: "(rx_msg x)[rx_msg_size x - 1 := 0] = info_header (fst (size_class (length ?p))) m # LUMP_INFO_NAME # ?p @
      replicate (?n - length ?p) 0 @ 0 # rest"
    unfolding bs s using n by (simp add: list_update_append)
  have nm: "c_string (drop 2 ((rx_msg x)[rx_msg_size x - 1 := 0])) = ?p"
    unfolding r c_string_def using d(4) by (simp add: takeWhile_append)
  have c2: "(rx_msg x)[rx_msg_size x - 1 := 0] ! 2 = ?p ! 0"
    unfolding r using d(1) by (cases ?p) (simp_all add: nth_append)
  have fl: "\<not> (length ?p \<le> LUMP_MAX_SHORT_NAME_LEN \<and> rx_msg_size x > LUMP_NAME_FRAME_WITH_FLAGS_MIN_SIZE)"
    unfolding s by (auto simp: size_class_def LUMP_MAX_SHORT_NAME_LEN_def LUMP_NAME_FRAME_WITH_FLAGS_MIN_SIZE_def)
  have "parse_info LUMP_INFO_NAME (of_nat m) x = parse_name (of_nat m) x" by (simp add: parse_info_def)
  then have "lump_parse_msg x = (case parse_name (of_nat m) x of (r, e') \<Rightarrow> (r, e', []))"
    using parse_info_frame [OF assms(1) d(1,2) _ e0(1), of LUMP_INFO_NAME]
    by (simp add: x_def LUMP_INFO_NAME_def)
  moreover have "fst (parse_name (of_nat m) x) = OK"
    using d' c2 by (simp add: parse_name_def Let_def)
  moreover have "core (snd (parse_name (of_nat m) x)) = (f OR LUMP_IF_INFO_NAME, of_nat m, 0,
      set_mode m (\<lambda>y. y\<lparr>mi_name := strncpy_field LUMP_MAX_NAME_LEN ?p, mi_mode_flags := 0\<rparr>) i, b, LUMP_RX_MSG_BYTES, q, at, cb)"
    using cx assms(3) d' c2 nm fl of_nat_unat_small [OF assms(1)]
    by (simp add: parse_name_def Let_def core_def upd_mode_def upd_info_def set_mode_def) blast
  ultimately show ?thesis by (cases "parse_name (of_nat m) x") auto
qed


lemma parse_mapping_frame:
  fixes w :: byte
  assumes "m < 8" "core e = (f, nm, 0, i, b, LUMP_RX_MSG_BYTES, q, at, cb)"
  defines "x \<equiv> record_frame (load (info_frame m LUMP_INFO_MAPPING [0, w]) e)"
  shows "\<exists>e'. lump_parse_msg x = (OK, e', []) \<and>
    core e' = (f, nm, 0, set_mode m (\<lambda>y. y\<lparr>mi_writable := (w \<noteq> 0)\<rparr>) i, b, LUMP_RX_MSG_BYTES, q, at, cb)"
proof -
  have e0: "ext_mode e = 0" "length (rx_msg e) = LUMP_RX_MSG_BYTES" using assms(2) by (simp_all add: core_def)
  obtain h cs rest where bs: "rx_msg x = h # LUMP_INFO_MAPPING # 0 # w # cs # rest"
    using info_frame_bytes(1) [OF assms(1), of "[0, w]" LUMP_INFO_MAPPING e] by (auto simp: size_class_def x_def)
  have s: "rx_msg_size x = 5"
    using info_frame_bytes(2) [OF assms(1), of "[0, w]" LUMP_INFO_MAPPING e] by (simp add: x_def size_class_def)
  have cx: "core x = core e" unfolding x_def
    using info_frame_good(2) [OF assms(1), of "[0, w]" LUMP_INFO_MAPPING] e0(2)
    by (intro core_loaded) (simp add: LUMP_RX_MSG_BYTES_def size_class_def)
  have "lump_parse_msg x = (case parse_info LUMP_INFO_MAPPING (of_nat m) x of (r, e') \<Rightarrow> (r, e', []))"
    using parse_info_frame [OF assms(1) _ _ _ e0(1), of "[0, w]" LUMP_INFO_MAPPING]
    by (simp add: x_def LUMP_INFO_MAPPING_def LUMP_INFO_MODE_PLUS_8_def)
  moreover have "parse_info LUMP_INFO_MAPPING (of_nat m) x = (OK, upd_mode (of_nat m) (\<lambda>y. y\<lparr>mi_writable := (w \<noteq> 0)\<rparr>) x)"
    by (simp add: parse_info_def s bs lump_code_consts)
  moreover have "core (upd_mode (of_nat m) (\<lambda>y. y\<lparr>mi_writable := (w \<noteq> 0)\<rparr>) x) =
      (f, nm, 0, set_mode m (\<lambda>y. y\<lparr>mi_writable := (w \<noteq> 0)\<rparr>) i, b, LUMP_RX_MSG_BYTES, q, at, cb)"
    using cx assms(2) of_nat_unat_small [OF assms(1)] by (simp add: core_def upd_mode_def upd_info_def set_mode_def)
  ultimately show ?thesis by simp
qed

lemma parse_format_frame:
  fixes nv dt :: byte
  assumes "m < 8" "core e = (f, of_nat m, 0, i, b, LUMP_RX_MSG_BYTES, q, at, cb)"
    "f AND LUMP_IF_REQUIRED = LUMP_IF_REQUIRED AND NOT LUMP_IF_INFO_FORMAT"
  defines "x \<equiv> record_frame (load (info_frame m LUMP_INFO_FORMAT [nv, dt, 4, 0]) e)"
  shows "\<exists>e'. lump_parse_msg x = (OK, e', []) \<and>
    core e' = (if m = 0 then f OR LUMP_IF_INFO_FORMAT
               else (f OR LUMP_IF_INFO_FORMAT) AND NOT (LUMP_IF_INFO_NAME OR LUMP_IF_INFO_FORMAT),
      of_nat (m - 1), 0, set_mode m (\<lambda>y. y\<lparr>mi_num_values := nv, mi_data_type := dt\<rparr>) i, b, LUMP_RX_MSG_BYTES, q, at, cb)"
proof -
  let ?p = "[nv, dt, 4, 0]"
  have e0: "ext_mode e = 0" "length (rx_msg e) = LUMP_RX_MSG_BYTES" using assms(2) by (simp_all add: core_def)
  obtain h cs rest where bs: "rx_msg x = h # LUMP_INFO_FORMAT # nv # dt # 4 # 0 # cs # rest"
    using info_frame_bytes(1) [OF assms(1), of ?p LUMP_INFO_FORMAT e] by (auto simp: size_class_def x_def)
  have s: "rx_msg_size x = 7"
    using info_frame_bytes(2) [OF assms(1), of ?p LUMP_INFO_FORMAT e] by (simp add: x_def size_class_def)
  have cx: "core x = core e" unfolding x_def
    using info_frame_good(2) [OF assms(1), of ?p LUMP_INFO_FORMAT] e0(2)
    by (intro core_loaded) (simp add: LUMP_RX_MSG_BYTES_def size_class_def)
  have "lump_parse_msg x = (case parse_info LUMP_INFO_FORMAT (of_nat m) x of (r, e') \<Rightarrow> (r, e', []))"
    using parse_info_frame [OF assms(1) _ _ _ e0(1), of ?p LUMP_INFO_FORMAT]
    by (simp add: x_def LUMP_INFO_FORMAT_def LUMP_INFO_MODE_PLUS_8_def)
  moreover have "parse_info LUMP_INFO_FORMAT (of_nat m) x = parse_format (of_nat m) x"
    by (simp add: parse_info_def lump_code_consts)
  moreover have "(of_nat m :: byte) = 0 \<longleftrightarrow> m = 0" using of_nat_unat_small [OF assms(1)] by (auto simp: unat_eq_zero [symmetric] simp del: unat_eq_zero)
  moreover have "m \<noteq> 0 \<Longrightarrow> (of_nat m :: byte) - 1 = of_nat (m - 1)" by (cases m) simp_all
  moreover have "fst (parse_format (of_nat m) x) = OK"
    using cx assms(2,3) s by (simp add: parse_format_def Let_def core_def)
  moreover have "core (snd (parse_format (of_nat m) x)) = (if m = 0 then f OR LUMP_IF_INFO_FORMAT
               else (f OR LUMP_IF_INFO_FORMAT) AND NOT (LUMP_IF_INFO_NAME OR LUMP_IF_INFO_FORMAT),
      of_nat (m - 1), 0, set_mode m (\<lambda>y. y\<lparr>mi_num_values := nv, mi_data_type := dt\<rparr>) i, b, LUMP_RX_MSG_BYTES, q, at, cb)"
  proof -
    have x: "new_mode x = of_nat m" "info_flags x = f" "ext_mode x = 0" "le_info x = i" "new_baud_rate x = b"
      "length (rx_msg x) = LUMP_RX_MSG_BYTES" "le_dq x = q" "cb_attached x = at" "le_cb x = cb"
      using cx assms(2) by (simp_all add: core_def)
    have p: "parse_format (of_nat m) x = (OK, let e1 = upd_mode (of_nat m) (\<lambda>y. y\<lparr>mi_num_values := nv, mi_data_type := dt\<rparr>)
          (x\<lparr>info_flags := f OR LUMP_IF_INFO_FORMAT\<rparr>) in
        if m \<noteq> 0 then e1\<lparr>new_mode := of_nat (m - 1),
            info_flags := (f OR LUMP_IF_INFO_FORMAT) AND NOT (LUMP_IF_INFO_NAME OR LUMP_IF_INFO_FORMAT)\<rparr> else e1)"
      using assms(3) s bs calculation(3,4) by (cases "m = 0")
        (simp_all add: parse_format_def Let_def x upd_mode_def upd_info_def word_gt_0)
    show ?thesis
      unfolding p Let_def snd_conv using x of_nat_unat_small [OF assms(1)]
      by (cases "m = 0") (simp_all add: core_def upd_mode_def upd_info_def set_mode_def)
  qed
  ultimately show ?thesis by (cases "parse_format (of_nat m) x") auto
qed


lemma info_loop_one:
  assumes "core e = (f, nm, 0, i, b, LUMP_RX_MSG_BYTES, q, at, cb)" "good_frame fr"
    "lump_parse_msg (record_frame (load fr e)) = (OK, e', [])" "io_rx io = map Rx fr @ rx"
  shows "info_loop e io = info_loop e' (io\<lparr>io_rx := rx\<rparr>)"
  using info_loop_frame [OF _ assms(2,4,3)] assms(1) by (simp add: core_def OK_def EILSEQ_def)

definition set_described :: "nat \<Rightarrow> mode_desc \<Rightarrow> lump_device_info_s \<Rightarrow> lump_device_info_s" where
  "set_described m d = set_mode m (\<lambda>y. y\<lparr>mi_name := strncpy_field LUMP_MAX_NAME_LEN (md_name d), mi_mode_flags := 0,
     mi_writable := md_writable d, mi_num_values := md_num_values d, mi_data_type := md_data_type d\<rparr>)"

lemma set_mode_twice: "m < length (di_modes i) \<Longrightarrow> set_mode m g (set_mode m f i) = set_mode m (g \<circ> f) i"
  by (simp add: set_mode_def)

lemma mode_step:
  assumes "m < 8" "desc_ok d" "core e = (7, nm, 0, i, b, LUMP_RX_MSG_BYTES, q, at, cb)" "length (di_modes i) = 8"
  shows "\<exists>e'. core e' = (if m = 0 then 0x4017 else 7, of_nat (m - 1), 0, set_described m d i, b, LUMP_RX_MSG_BYTES, q, at, cb) \<and>
    (\<forall>io rx. io_rx io = map Rx (concat (mode_frames m d)) @ rx \<longrightarrow> info_loop e io = info_loop e' (io\<lparr>io_rx := rx\<rparr>))"
proof -
  let ?w = "if md_writable d then 1 else 0 :: byte"
  have d: "1 \<le> length (md_name d)" "length (md_name d) \<le> 32" using assms(2) by (auto simp: desc_ok_def Suc_le_eq)
  let ?p = "[md_num_values d, md_data_type d, 4, 0]"
  obtain e1 where 1: "lump_parse_msg (record_frame (load (info_frame m LUMP_INFO_NAME (md_name d)) e)) = (OK, e1, [])"
    "core e1 = (7 OR LUMP_IF_INFO_NAME, of_nat m, 0,
      set_mode m (\<lambda>y. y\<lparr>mi_name := strncpy_field LUMP_MAX_NAME_LEN (md_name d), mi_mode_flags := 0\<rparr>) i, b, LUMP_RX_MSG_BYTES, q, at, cb)"
    using parse_name_frame [OF assms(1-3)] by blast
  obtain e2 where 2: "lump_parse_msg (record_frame (load (info_frame m LUMP_INFO_MAPPING [0, ?w]) e1)) = (OK, e2, [])"
    "core e2 = (7 OR LUMP_IF_INFO_NAME, of_nat m, 0, set_mode m (\<lambda>y. y\<lparr>mi_writable := (?w \<noteq> 0)\<rparr>)
      (set_mode m (\<lambda>y. y\<lparr>mi_name := strncpy_field LUMP_MAX_NAME_LEN (md_name d), mi_mode_flags := 0\<rparr>) i), b, LUMP_RX_MSG_BYTES, q, at, cb)"
    using parse_mapping_frame [OF assms(1) 1(2), of ?w] by blast
  have req: "(7 OR LUMP_IF_INFO_NAME) AND LUMP_IF_REQUIRED = LUMP_IF_REQUIRED AND NOT LUMP_IF_INFO_FORMAT"
    by (simp add: LUMP_IF_REQUIRED_def LUMP_IF_CMD_TYPE_def LUMP_IF_CMD_MODES_def LUMP_IF_INFO_NAME_def LUMP_IF_INFO_FORMAT_def)
  obtain e3 where 3: "lump_parse_msg (record_frame (load (info_frame m LUMP_INFO_FORMAT ?p) e2)) = (OK, e3, [])"
    "core e3 = (if m = 0 then (7 OR LUMP_IF_INFO_NAME) OR LUMP_IF_INFO_FORMAT
               else ((7 OR LUMP_IF_INFO_NAME) OR LUMP_IF_INFO_FORMAT) AND NOT (LUMP_IF_INFO_NAME OR LUMP_IF_INFO_FORMAT),
      of_nat (m - 1), 0, set_mode m (\<lambda>y. y\<lparr>mi_num_values := md_num_values d, mi_data_type := md_data_type d\<rparr>)
       (set_mode m (\<lambda>y. y\<lparr>mi_writable := (?w \<noteq> 0)\<rparr>)
        (set_mode m (\<lambda>y. y\<lparr>mi_name := strncpy_field LUMP_MAX_NAME_LEN (md_name d), mi_mode_flags := 0\<rparr>) i)), b, LUMP_RX_MSG_BYTES, q, at, cb)"
    using parse_format_frame [OF assms(1) 2(2) req, of "md_num_values d" "md_data_type d"] by blast
  have i: "set_mode m (\<lambda>y. y\<lparr>mi_num_values := md_num_values d, mi_data_type := md_data_type d\<rparr>)
       (set_mode m (\<lambda>y. y\<lparr>mi_writable := (?w \<noteq> 0)\<rparr>)
        (set_mode m (\<lambda>y. y\<lparr>mi_name := strncpy_field LUMP_MAX_NAME_LEN (md_name d), mi_mode_flags := 0\<rparr>) i)) = set_described m d i"
    using assms(1,4) by (simp add: set_mode_twice set_described_def o_def set_mode_def)
  have f: "(if m = 0 then (7 OR LUMP_IF_INFO_NAME) OR LUMP_IF_INFO_FORMAT
      else ((7 OR LUMP_IF_INFO_NAME) OR LUMP_IF_INFO_FORMAT) AND NOT (LUMP_IF_INFO_NAME OR LUMP_IF_INFO_FORMAT)) =
      (if m = 0 then 0x4017 else 7)"
    by (simp add: LUMP_IF_INFO_NAME_def LUMP_IF_INFO_FORMAT_def)
  have "info_loop e io = info_loop e3 (io\<lparr>io_rx := rx\<rparr>)" if "io_rx io = map Rx (concat (mode_frames m d)) @ rx" for io rx
    using that info_loop_one [OF assms(3) info_frame_good(1) [OF assms(1) d] 1(1)]
      info_loop_one [OF 1(2) info_frame_good(1) [OF assms(1), of "[0, ?w]"] 2(1)]
      info_loop_one [OF 2(2) info_frame_good(1) [OF assms(1), of ?p] 3(1)]
    by (simp add: mode_frames_def)
  then show ?thesis using 3(2) unfolding i f by blast
qed

fun fill :: "nat \<Rightarrow> mode_desc list \<Rightarrow> lump_device_info_s \<Rightarrow> lump_device_info_s" where
  "fill m [] i = i"
| "fill m (d # ds) i = set_described m d (fill (m + 1) ds i)"

lemma fill_fields:
  "length (di_modes (fill m ds i)) = length (di_modes i)" "di_type_id (fill m ds i) = di_type_id i"
  "di_num_modes (fill m ds i) = di_num_modes i" "di_flags (fill m ds i) = di_flags i"
  "di_current_mode (fill m ds i) = di_current_mode i" "di_capability_flags (fill m ds i) = di_capability_flags i"
  by (induction ds arbitrary: m) (simp_all add: set_described_def set_mode_def)

lemma fill_before: "k < m \<Longrightarrow> di_modes (fill m ds i) ! k = di_modes i ! k"
  by (induction ds arbitrary: m) (simp_all add: set_described_def set_mode_def)

lemma fill_mode:
  "m + length ds \<le> length (di_modes i) \<Longrightarrow> (\<And>j. j < length (di_modes i) \<Longrightarrow> di_modes i ! j = zero_mode) \<Longrightarrow> k < length ds \<Longrightarrow>
   di_modes (fill m ds i) ! (m + k) = described (ds ! k)"
proof (induction ds arbitrary: m k)
  case (Cons d ds)
  show ?case
  proof (cases k)
    case 0
    have "di_modes (fill (m + 1) ds i) ! m = zero_mode" using Cons.prems by (simp add: fill_before)
    then show ?thesis
      using Cons.prems 0 by (simp add: set_described_def set_mode_def fill_fields described_def zero_mode_def)
  next
    case (Suc k')
    then show ?thesis using Cons.IH [of "m + 1" k'] Cons.prems by (simp add: set_described_def set_mode_def)
  qed
qed simp

lemma modes_run:
  assumes "m + length ds \<le> 8" "list_all desc_ok ds" "core e = (7, nm, 0, i, b, LUMP_RX_MSG_BYTES, q, at, cb)" "length (di_modes i) = 8"
  shows "\<exists>e' nm'. core e' = (if ds \<noteq> [] \<and> m = 0 then 0x4017 else 7, nm', 0, fill m ds i, b, LUMP_RX_MSG_BYTES, q, at, cb) \<and>
    (\<forall>io rx. io_rx io = map Rx (concat (all_mode_frames m ds)) @ rx \<longrightarrow> info_loop e io = info_loop e' (io\<lparr>io_rx := rx\<rparr>))"
  using assms(1,2)
proof (induction ds arbitrary: m)
  case Nil
  have "io\<lparr>io_rx := io_rx io\<rparr> = io" for io :: lump_io by simp
  then show ?case using assms(3) by (intro exI [of _ e]) auto
next
  case (Cons d ds)
  then obtain e1 nm1 where 1: "core e1 = (7, nm1, 0, fill (m + 1) ds i, b, LUMP_RX_MSG_BYTES, q, at, cb)"
    "\<And>io rx. io_rx io = map Rx (concat (all_mode_frames (m + 1) ds)) @ rx \<Longrightarrow> info_loop e io = info_loop e1 (io\<lparr>io_rx := rx\<rparr>)"
    using Cons.IH [of "m + 1"] by auto
  have "length (di_modes (fill (m + 1) ds i)) = 8" using assms(4) by (simp add: fill_fields)
  then obtain e2 where 2: "core e2 = (if m = 0 then 0x4017 else 7, of_nat (m - 1), 0, set_described m d (fill (m + 1) ds i), b, LUMP_RX_MSG_BYTES, q, at, cb)"
    "\<And>io rx. io_rx io = map Rx (concat (mode_frames m d)) @ rx \<Longrightarrow> info_loop e1 io = info_loop e2 (io\<lparr>io_rx := rx\<rparr>)"
    using mode_step [of m d, OF _ _ 1(1)] Cons.prems by auto
  have "info_loop e io = info_loop e2 (io\<lparr>io_rx := rx\<rparr>)" if "io_rx io = map Rx (concat (all_mode_frames m (d # ds))) @ rx" for io rx
    using that 1(2) [of io "map Rx (concat (mode_frames m d)) @ rx"] 2(2) by simp
  then show ?case using 2(1) by (intro exI [of _ e2] exI [of _ "of_nat (m - 1)"]) simp
qed

text \<open>CMD frames of the announcement.\<close>

lemma modes_frame:
  assumes "core e = (1, nm, 0, i, b, LUMP_RX_MSG_BYTES, q, at, cb)" "0 < n" "n \<le> 8"
  defines "fr \<equiv> lump_frame 0x41 [of_nat n - 1] True"
  shows "good_frame fr" "\<exists>e'. lump_parse_msg (record_frame (load fr e)) = (OK, e', []) \<and>
    core e' = (3, of_nat n - 1, 0, i\<lparr>di_num_modes := of_nat n\<rparr>, b, LUMP_RX_MSG_BYTES, q, at, cb)"
proof -
  let ?x = "record_frame (load fr e)"
  show g: "good_frame fr"
    by (simp add: good_frame_def fr_def frame_fields(2,3) lump_msg_total_size_def lump_msg_payload_size_def lump_type_consts
        LUMP_RX_MSG_BYTES_def) (simp add: lump_frame_def)
  have c: "core ?x = core e"
    using assms(1) by (intro core_loaded) (simp add: core_def fr_def frame_fields LUMP_RX_MSG_BYTES_def)
  obtain cs rest where bs: "rx_msg ?x = 0x41 # (of_nat n - 1) # cs # rest"
    by (auto simp: record_frame_def load_def fr_def lump_frame_def)
  have s: "rx_msg_size ?x = 3" by (simp add: record_frame_def load_def fr_def frame_fields)
  have x: "info_flags ?x = 1" "ext_mode ?x = 0" using c assms(1) by (simp_all add: core_def)
  have n: "\<not> (of_nat n - 1 :: byte) > 7" "\<not> unat (of_nat n :: byte) > 8"
  proof -
    have "n = 1 \<or> n = 2 \<or> n = 3 \<or> n = 4 \<or> n = 5 \<or> n = 6 \<or> n = 7 \<or> n = 8" using assms(2,3) by arith
    then show "\<not> (of_nat n - 1 :: byte) > 7" "\<not> unat (of_nat n :: byte) > 8" by (elim disjE; simp)+
  qed
  have "lump_parse_msg ?x = (OK, upd_info (\<lambda>i. i\<lparr>di_num_modes := of_nat n\<rparr>)
      (?x\<lparr>info_flags := 3, new_mode := of_nat n - 1\<rparr>), [])"
    using n by (simp add: lump_parse_msg_def Let_def bs s x lump_type_consts LUMP_MAX_MODES_def parse_cmd_def
        LUMP_CMD_MODES_def LUMP_CMD_TYPE_def LUMP_IF_CMD_MODES_def num_modes_announced_def)
  then show "\<exists>e'. lump_parse_msg ?x = (OK, e', []) \<and>
    core e' = (3, of_nat n - 1, 0, i\<lparr>di_num_modes := of_nat n\<rparr>, b, LUMP_RX_MSG_BYTES, q, at, cb)"
    using c assms(1) by (simp add: core_def upd_info_def)
qed

lemma u32_round_trip: "lump_get_u32_le (lump_put_u32_le v @ xs) = v"
proof (rule bit_word_eqI)
  have m: "(0xff :: 32 word) = mask 8" by (simp add: mask_eq_exp_minus_1)
  have u: "bit (ucast (ucast (drop_bit k v AND 0xff) :: byte) :: 32 word) j \<longleftrightarrow> j < 8 \<and> bit v (k + j)" for k j
    unfolding m by (auto simp: bit_simps)
  fix n assume "n < LENGTH(32)"
  then consider "n < 8" | "8 \<le> n" "n < 16" | "16 \<le> n" "n < 24" | "24 \<le> n" "n < 32" by fastforce
  then show "bit (lump_get_u32_le (lump_put_u32_le v @ xs)) n \<longleftrightarrow> bit v n"
    using u [of 0 n] u [of 8 "n - 8"] u [of 16 "n - 16"] u [of 24 "n - 24"]
    by cases (simp_all add: lump_get_u32_le_def lump_put_u32_le_def bit_push_bit_iff bit_or_iff, arith+)
qed


lemma speed_frame:
  assumes "core e = (3, nm, 0, i, b, LUMP_RX_MSG_BYTES, q, at, cb)" "LUMP_BAUD_FALLBACK \<le> v" "v \<le> LUMP_BAUD_MAX"
  defines "fr \<equiv> lump_frame 0x52 (lump_put_u32_le v) True"
  shows "good_frame fr" "\<exists>e'. lump_parse_msg (record_frame (load fr e)) = (OK, e', []) \<and>
    core e' = (7, nm, 0, i, v, LUMP_RX_MSG_BYTES, q, at, cb)"
proof -
  let ?x = "record_frame (load fr e)"
  have l: "length (lump_put_u32_le v) = 4" by (simp add: lump_put_u32_le_def)
  show g: "good_frame fr"
    using l by (simp add: good_frame_def fr_def frame_fields lump_msg_total_size_def lump_msg_payload_size_def lump_type_consts
        LUMP_RX_MSG_BYTES_def)
  have c: "core ?x = core e"
    using assms(1) l by (intro core_loaded) (simp add: core_def fr_def frame_fields LUMP_RX_MSG_BYTES_def)
  obtain rest where bs: "rx_msg ?x = 0x52 # lump_put_u32_le v @ rest"
    by (auto simp: record_frame_def load_def fr_def lump_frame_def)
  have s: "rx_msg_size ?x = 6" using l by (simp add: record_frame_def load_def fr_def frame_fields)
  have x: "info_flags ?x = 3" "ext_mode ?x = 0" using c assms(1) by (simp_all add: core_def)
  have v: "\<not> v < LUMP_BAUD_FALLBACK" "\<not> v > LUMP_BAUD_MAX" using assms(2,3) by (simp_all add: not_less)
  have "lump_parse_msg ?x = (OK, ?x\<lparr>info_flags := 7, new_baud_rate := v\<rparr>, [])"
    using v by (simp add: lump_parse_msg_def Let_def bs s x lump_type_consts LUMP_MAX_MODES_def parse_cmd_def
        LUMP_CMD_MODES_def LUMP_CMD_TYPE_def LUMP_CMD_SPEED_def LUMP_IF_CMD_SPEED_def u32_round_trip)
  then show "\<exists>e'. lump_parse_msg ?x = (OK, e', []) \<and> core e' = (7, nm, 0, i, v, LUMP_RX_MSG_BYTES, q, at, cb)"
    using c assms(1) by (simp add: core_def)
qed

lemma ack_ends:
  assumes "core e = (0x4017, nm, 0, i, b, LUMP_RX_MSG_BYTES, q, at, cb)" "io_rx io = Rx LUMP_SYS_ACK # rx"
  shows "\<exists>e'. info_loop e io = Some (OK, e', io\<lparr>io_rx := rx\<rparr>) \<and> core e' = core e"
proof -
  have l: "length (rx_msg e) = LUMP_RX_MSG_BYTES" using assms(1) by (simp add: core_def)
  have t: "lump_msg_total_size ([LUMP_SYS_ACK] ! 0) = 1"
    by (simp add: lump_msg_total_size_def LUMP_SYS_ACK_def lump_type_consts)
  have r: "lump_recv_msg e (map Rx [LUMP_SYS_ACK] @ rx) = Some (OK, load [LUMP_SYS_ACK] e, rx)"
    using recv_frame [OF l, of "[LUMP_SYS_ACK]" rx] t by (simp add: load_def LUMP_RX_MSG_BYTES_def)
  let ?e = "record_frame (load [LUMP_SYS_ACK] e)"
  have c: "core ?e = core e" using l by (intro core_loaded) (simp add: LUMP_RX_MSG_BYTES_def)
  have b: "recv_io e io = Some (OK, load [LUMP_SYS_ACK] e, io\<lparr>io_rx := rx\<rparr>)"
    using r assms(2) by (simp add: recv_io_def)
  have n: "\<not> (OK = - EBADMSG \<or> OK = - EILSEQ)" "\<not> OK < 0" by (simp_all add: OK_def EBADMSG_def EILSEQ_def)
  have a: "rx_msg ?e ! 0 = LUMP_MSG_TYPE_SYS OR LUMP_SYS_ACK"
    by (simp add: record_frame_def load_def lump_type_consts)
  have h: "\<not> \<not> has_required ?e"
    using c assms(1) by (simp add: core_def has_required_def LUMP_IF_REQUIRED_def LUMP_IF_CMD_TYPE_def LUMP_IF_CMD_MODES_def
        LUMP_IF_INFO_NAME_def LUMP_IF_INFO_FORMAT_def)
  have "info_loop e io = Some (OK, ?e, io\<lparr>io_rx := rx\<rparr>)"
    unfolding info_loop.simps [of e io] b option.case prod.case Let_def if_not_P [OF n(1)] if_not_P [OF n(2)] if_P [OF a]
      if_not_P [OF h] ..
  then show ?thesis using c by blast
qed

text \<open>The first frame is caught by the header search and validated there.\<close>

lemma type_frame:
  assumes "core e = (0, nm, 0, i, b, LUMP_RX_MSG_BYTES, q, at, cb)" "LUMP_TYPE_ID_MIN \<le> t" "t \<le> LUMP_TYPE_ID_MAX"
  shows "\<exists>e1 e2. type_resync e (map Rx (lump_frame 0x40 [t] True) @ rx) = Some (OK, e1, rx) \<and> lump_parse_msg e1 = (OK, e2, []) \<and>
    core e2 = (1, nm, 0, i\<lparr>di_type_id := t\<rparr>, b, LUMP_RX_MSG_BYTES, q, at, cb)"
proof -
  let ?cs = "lump_xor_checksum [0x40, t]"
  have fr: "lump_frame 0x40 [t] True = [0x40, t, ?cs]" by (simp add: lump_frame_def)
  have l: "length (rx_msg e) = 35" using assms(1) by (simp add: core_def LUMP_RX_MSG_BYTES_def)
  then obtain a0 a1 a2 m where m: "rx_msg e = a0 # a1 # a2 # m" "length m = 32"
    by (auto simp: numeral_eq_Suc length_Suc_conv)
  let ?e1 = "e\<lparr>rx_msg := 0x40 # t # ?cs # m, rx_bytes := rx_bytes e + 1 + 1 + 1, rx_msg_size := 3\<rparr>"
  have v: "\<not> t < LUMP_TYPE_ID_MIN" "\<not> t > LUMP_TYPE_ID_MAX" using assms(2,3) by (simp_all add: not_less)
  have 1: "type_resync e (map Rx (lump_frame 0x40 [t] True) @ rx) = Some (OK, ?e1, rx)"
    unfolding type_resync.simps [of e] fr using v
    by (simp add: m Let_def lump_type_consts LUMP_CMD_TYPE_def numeral_2_eq_2 OK_def)
  have 2: "lump_parse_msg ?e1 = (OK, upd_info (\<lambda>i. i\<lparr>di_type_id := t\<rparr>) (?e1\<lparr>info_flags := 1\<rparr>), [])"
    using assms(1) v by (simp add: lump_parse_msg_def Let_def lump_type_consts LUMP_MAX_MODES_def parse_cmd_def core_def
        LUMP_CMD_TYPE_def LUMP_IF_CMD_TYPE_def)
  have "core (upd_info (\<lambda>i. i\<lparr>di_type_id := t\<rparr>) (?e1\<lparr>info_flags := 1\<rparr>)) = (1, nm, 0, i\<lparr>di_type_id := t\<rparr>, b, LUMP_RX_MSG_BYTES, q, at, cb)"
    using assms(1) m by (simp add: core_def upd_info_def LUMP_RX_MSG_BYTES_def)
  then show ?thesis using 1 2 by blast
qed


lemma probe_acked:
  assumes "io_rx io = Rx LUMP_SYS_ACK # rx" "io_ret io = []"
  shows "\<exists>e' io'. sync_probe e io = Some (OK, e', io') \<and> core e' = core e \<and> io_rx io' = rx \<and> io_ret io' = []"
  using assms
  by (simp add: sync_probe_def lump_send_msg_def io_call_def emit_def Let_def lump_put_u32_le_def lump_cmd_header_def size_class_def
      OK_def core_def)

lemma finish_ok:
  assumes "core e = (f, nm, 0, i, b, LUMP_RX_MSG_BYTES, q, True, all_cb)" "io_ret io = []" "q_session q \<noteq> - 1"
  shows "\<exists>e' io'. sync_finish e io = (OK, e', io') \<and> io_rx io' = io_rx io \<and> last (io_out io') = Cb_Sync (le_info e') \<and>
    le_info e' = i\<lparr>di_flags := di_flags i OR LUMP_FLAG_SYNCED, di_baud := b\<rparr>"
proof -
  have x: "new_baud_rate e = b" "le_dq e = q" "cb_attached e" "le_cb e = all_cb" "le_info e = i"
    using assms(1) by (simp_all add: core_def)
  let ?e1 = "e\<lparr>tx_bytes := tx_bytes e + 1\<rparr>"
  obtain io1 where 1: "lump_send_sys LUMP_SYS_ACK e io = (OK, ?e1, io1)" "io_ret io1 = []" "io_rx io1 = io_rx io"
    using assms(2) by (simp add: lump_send_sys_def io_call_def emit_def)
  obtain io2 where 2: "(if new_baud_rate ?e1 \<noteq> LUMP_BAUD_INITIAL then io_call (Set_Baud (new_baud_rate ?e1)) (emit (Sleep_Ms 10) io1)
        else (OK, emit (Sleep_Ms 10) io1)) = (OK, io2)" "io_rx io2 = io_rx io"
    using 1(2,3) by (cases "new_baud_rate ?e1 = LUMP_BAUD_INITIAL") (simp_all add: io_call_def emit_def)
  obtain dq where 3: "lump_data_queue_begin (le_dq ?e1) = (0, dq)"
    using assms(3) x(2) by (simp add: lump_data_queue_begin_def lump_data_queue_invalidate_def Let_def)
  let ?e2 = "?e1\<lparr>le_dq := dq\<rparr>"
  have f: "sync_finish e io = sync_publish ?e2 io2"
    unfolding sync_finish_def 1(1) prod.case 2(1) 3 by (simp add: OK_def)
  have r: "io_rx (snd (snd (sync_publish ?e2 io2))) = io_rx io"
    using 2(2) by (simp add: sync_publish_def Let_def split_beta emit_def)
  show ?thesis
    using sync_publish_fields(1,2) [of ?e2 io2] sync_publish_out [of ?e2 io2] r x unfolding f
    by (cases "sync_publish ?e2 io2") (simp add: cb_out_def)
qed



definition demo_modes :: "mode_desc list" where
  "demo_modes = [\<lparr>md_name = [67, 79, 76, 79, 82], md_num_values = 1, md_data_type = 0, md_writable = False\<rparr>,
                 \<lparr>md_name = [76, 73, 71, 72, 84], md_num_values = 3, md_data_type = 0, md_writable = True\<rparr>]"


end
