(* ===== verification/Lump_Service.thy ===== *)
theory Lump_Service
  imports Lump_Announce
begin

text \<open>
  What a client of the protocol engine of a port (src/boards/spike-prime-hub/src/stm32\_legoport\_lump.c) can
  rely on, over every run of the port's thread: the state invariant, the order of the synchronisation, data
  and error callbacks, what remains of the supply rail and of the line rate, the termination of the
  information phase, the detection of a silent device and the pauses between attempts.
\<close>

section \<open>Guarantees of a port\<close>

text \<open>A run in which a device with a supply pin is synchronised, for the witnesses.\<close>

definition color_frames :: "byte list list" where
  "color_frames =
     [lump_frame 0x40 [61] True, lump_frame 0x41 [0] True,
      lump_frame 0xA0 ([0, 67, 79, 76, 79, 82, 0, 0x40] @ replicate 9 0) True,
      lump_frame 0x90 [0x80, 1, 0, 3, 0] True, [LUMP_SYS_ACK]]"

definition color_port :: lump_engine_s where
  "color_port = (attached_engine 0 all_cb)\<lparr>handoff_pending := True\<rparr>"

definition color_io :: lump_io where
  "color_io = \<lparr>io_rx = Rx LUMP_SYS_ACK # map Rx (concat color_frames), io_ret = [], io_out = []\<rparr>"

definition color_start :: "(int \<times> lump_engine_s \<times> lump_io) option" where
  "color_start =
     (case lump_reset_session_state (color_port\<lparr>handoff_pending := False\<rparr>) color_io of (e1, io1) \<Rightarrow>
        lump_sync e1 (snd (io_call (Uart_Open LUMP_BAUD_INITIAL) (emit Config_Pins io1))))"

lemma color_start_ok:
  "map_option (\<lambda>(r, e, io). (r, rail (io_out io) 0, di_type_id (le_info e))) color_start = Some (OK, - 1, 61)"
  by code_simp


lemma color_run:
  "\<exists>tr v e. lump_run 0 all_cb tr (Looping v, e) \<and> rail tr 0 = - 1 \<and> di_type_id (le_info e) = 61"
proof -
  obtain e1 io1 where 1: "lump_reset_session_state (color_port\<lparr>handoff_pending := False\<rparr>) color_io = (e1, io1)"
    by (metis prod.exhaust)
  obtain r io2 where 2: "io_call (Uart_Open LUMP_BAUD_INITIAL) (emit Config_Pins io1) = (r, io2)" by (metis prod.exhaust)
  have r: "\<not> r < 0" using 1 2 by (auto simp: lump_reset_session_state_def io_call_def emit_def color_io_def OK_def)
  obtain e2 io3 where 3: "lump_sync e1 io2 = Some (OK, e2, io3)" "rail (io_out io3) 0 = - 1" "di_type_id (le_info e2) = 61"
    using color_start_ok unfolding color_start_def 1 prod.case 2 snd_conv by auto
  have "lump_run 0 all_cb ([] @ []) (Waiting, snd (lump_handoff_cb (attached_engine 0 all_cb)))"
    by (rule lump_run.step [OF lump_run.start lump_step.handoff])
  then have h: "lump_run 0 all_cb [] (Waiting, color_port)" by (simp add: lump_handoff_cb_def color_port_def)
  have s: "lump_step (Waiting, color_port) (io_out (emit Flush_Rx io3))
      (Looping \<lparr>last_keepalive = 0, miss_count = 0, data_rec = False\<rparr>, e2\<lparr>wdog_stall := False\<rparr>)"
    by (rule lump_step.sync_done [OF _ _ 1 2 r 3(1)]) (simp_all add: color_port_def fresh_io_def color_io_def OK_def)
  have "rail ([] @ io_out (emit Flush_Rx io3)) 0 = - 1" "di_type_id (le_info (e2\<lparr>wdog_stall := False\<rparr>)) = 61"
    using 3(2,3) by (simp_all add: emit_def rail_def)
  then show ?thesis using lump_run.step [OF h s] by blast
qed





text \<open>
  Fact. The end of a session does not release the supply rail: whatever the H-bridge was told to hold for the
  device that is gone, it still holds while the port waits for the next one.
\<close>

theorem supply_outlives_session:
  assumes "lump_run p c tr (Looping v, e)" "lump_step (Looping v, e) out (Waiting, e')"
  shows "lump_run p c (tr @ out) (Waiting, e') \<and> rail (tr @ out) 0 = rail tr 0"
  using lump_run.step [OF assms] end_keeps_rail [OF assms(2)] by (simp add: rail_append)

theorem supply_outlives_session_witness:
  "\<exists>tr e. lump_run 0 all_cb tr (Waiting, e) \<and> rail tr 0 = - 1"
proof -
  obtain tr v e where r: "lump_run 0 all_cb tr (Looping v, e)" "rail tr 0 = - 1" using color_run by blast
  let ?e1 = "e\<lparr>wdog_stall := True\<rparr>"
  obtain e' io' where s: "session_end (- ETIMEDOUT) ?e1 quiet_io = (e', io')" by (metis prod.exhaust)
  have "lump_step (Looping v, e) (io_out io') (Waiting, e')"
    by (rule lump_step.ended [where io = quiet_io and env = "\<lparr>lv_stall = True, lv_now = 0, lv_wake = False, lv_stall_late = False\<rparr>", OF _ _ s])
      (simp_all add: fresh_io_def quiet_io_def data_iter_def)
  then show ?thesis using supply_outlives_session [OF r(1)] r(2) by auto
qed

section \<open>The extension of mode numbers\<close>

fun is_data :: "lump_out \<Rightarrow> bool" where
  "is_data (Cb_Data m d) = True"
| "is_data _ = False"

interpretation nodata: tx_outputs "\<lambda>a. \<not> is_data a"
  by unfold_locales simp

lemma parse_after_ext:
  assumes "ext_mode e = 8" "rx_msg_size e \<noteq> 0"
  shows "lump_parse_msg e = (OK, e, [])"
proof -
  have "unat ((h AND LUMP_MSG_CMD_MASK) + 8) = unat (h AND LUMP_MSG_CMD_MASK) + 8" for h :: byte
  proof -
    have "h AND 7 \<le> 7" by (rule word_and_le1)
    then have "unat (h AND 7) \<le> 7" by (simp add: word_le_nat_alt)
    then have "unat ((h AND 7) + 8) = (unat (h AND 7) + 8) mod 256" by (simp add: unat_word_ariths)
    then show ?thesis using \<open>unat (h AND 7) \<le> 7\<close> by (simp add: LUMP_MSG_CMD_MASK_def)
  qed
  then show ?thesis using assms by (simp add: lump_parse_msg_def Let_def LUMP_MAX_MODES_def)
qed


lemma recv_ok_size: "lump_recv_msg e rx = Some (OK, e', rx') \<Longrightarrow> rx_msg_size e' \<noteq> 0"
proof -
  assume a: "lump_recv_msg e rx = Some (OK, e', rx')"
  have n: "lump_msg_total_size h \<noteq> 0" for h using total_size_pos [of h] by simp
  show ?thesis
    using a n unfolding lump_recv_msg_def Let_def
    by (auto simp: OK_def EBADMSG_def EILSEQ_def split: option.splits if_splits prod.splits)
qed

text \<open>Sending changes nothing but the byte counter.\<close>

lemma send_msg_frame: "\<exists>n. fst (snd (lump_send_msg h p c e io)) = e\<lparr>tx_bytes := n\<rparr>"
proof -
  have "fst (snd (lump_send_msg h p c e io)) = e\<lparr>tx_bytes := tx_bytes (fst (snd (lump_send_msg h p c e io)))\<rparr>"
    by (simp add: lump_send_msg_def Let_def split_beta)
  then show ?thesis by blast
qed

lemma send_both_frame:
  assumes "\<And>e io. \<exists>n. fst (snd (f e io)) = e\<lparr>tx_bytes := n\<rparr>" "\<And>e io. \<exists>n. fst (snd (g e io)) = e\<lparr>tx_bytes := n\<rparr>"
  shows "\<exists>n. fst (snd (send_both f g e io)) = e\<lparr>tx_bytes := n\<rparr>"
proof -
  obtain r e1 io1 where f: "f e io = (r, e1, io1)" by (metis prod_cases3)
  obtain n where n: "e1 = e\<lparr>tx_bytes := n\<rparr>" using assms(1) [of e io] f by auto
  obtain m where "fst (snd (g e1 io1)) = e1\<lparr>tx_bytes := m\<rparr>" using assms(2) by blast
  then show ?thesis using n by (auto simp: send_both_def f)
qed

lemma nop_frame: "\<exists>n. fst (snd (OK, e, io)) = e\<lparr>tx_bytes := n\<rparr>"
  by (rule exI [of _ "tx_bytes e"]) simp

lemma tx_drain_frame:
  "\<exists>n. fst (snd (lump_drain_tx_requests e io)) = e\<lparr>pending_select := False, pending_send := False, tx_bytes := n\<rparr>"
proof -
  have d: "\<exists>n. fst (snd (lump_send_data_frame m b e io)) = e\<lparr>tx_bytes := n\<rparr>" for m b e io
    unfolding lump_send_data_frame_def using send_msg_frame nop_frame [of e io] by simp
  let ?sel = "if pending_select e
    then send_both (lump_send_ext_mode (pending_select_mode e)) (lump_send_select (pending_select_mode e))
    else (\<lambda>e io. (OK, e, io))"
  let ?snd = "if pending_send e
    then send_both (lump_send_ext_mode (pending_send_mode e))
           (lump_send_data_frame (pending_send_mode e) (take (pending_send_len e) (pending_send_buf e)))
    else (\<lambda>e io. (OK, e, io))"
  have "\<exists>n. fst (snd (send_both ?sel ?snd e' io)) = e'\<lparr>tx_bytes := n\<rparr>" for e'
  proof (rule send_both_frame)
    show "\<exists>n. fst (snd (?sel x io)) = x\<lparr>tx_bytes := n\<rparr>" for x io
    proof (cases "pending_select e")
      case True
      then show ?thesis using send_both_frame [OF send_msg_frame send_msg_frame]
        by (simp add: lump_send_ext_mode_def lump_send_select_def)
    next
      case False
      then show ?thesis using nop_frame [of x io] by (simp only: if_False)
    qed
    show "\<exists>n. fst (snd (?snd x io)) = x\<lparr>tx_bytes := n\<rparr>" for x io
    proof (cases "pending_send e")
      case True
      then show ?thesis using send_both_frame [OF send_msg_frame d] by (simp add: lump_send_ext_mode_def)
    next
      case False
      then show ?thesis using nop_frame [of x io] by (simp only: if_False)
    qed
  qed
  then show ?thesis unfolding lump_drain_tx_requests_def Let_def by (simp add: split_beta)
qed


lemma keepalive_frame: "ext_mode (fst (snd (keepalive now v e io))) = ext_mode e \<and> le_dq (fst (snd (keepalive now v e io))) = le_dq e"
  by (simp add: keepalive_def Let_def split_beta upd_info_def lump_send_sys_def)

lemma stuck_recv:
  assumes "data_recv v e io = Some (v', e', io')" "ext_mode e = 8"
  shows "ext_mode e' = 8 \<and> le_dq e' = le_dq e \<and> exts (\<lambda>a. \<not> is_data a) io io'"
proof -
  obtain r e1 io1 where 1: "recv_io e io = Some (r, e1, io1)"
    using assms(1) by (cases "recv_io e io") (auto simp: data_recv_def)
  have l: "loaded e e1" using 1 recv_msg_loaded by (auto simp: recv_io_def split: option.splits)
  have s: "r = OK \<Longrightarrow> rx_msg_size e1 \<noteq> 0" using 1 recv_ok_size by (auto simp: recv_io_def split: option.splits)
  have x: "ext_mode e1 = 8" "le_dq e1 = le_dq e" using loaded_fields(3,6) [OF l] assms(2) by simp_all
  have p: "r = OK \<Longrightarrow> parse_io e1 io1 = (OK, e1, io1)" using parse_after_ext [OF x(1)] s by (simp add: parse_io_def)
  have "io' = io1 \<and> (e' = e1 \<or> e' = e1\<lparr>bad_msg_count := bad_msg_count e1 + 1\<rparr>)"
    using assms(1) 1 p by (auto simp: data_recv_def split: if_splits)
  then show ?thesis using x ext_recv [OF 1] by auto
qed

lemma stuck_iter:
  assumes "data_iter env v e io = Some (res, e', io')" "ext_mode e = 8"
  shows "ext_mode e' = 8 \<and> le_dq e' = le_dq e \<and> exts (\<lambda>a. \<not> is_data a) io io'"
  using assms(1)
proof (cases rule: data_iter_cases)
  case stall
  then show ?thesis using assms(2) by (simp add: ext_refl)
next
  case (quiet _ v1 e1 io1 r)
  then show ?thesis
    using stuck_recv [OF quiet(4) assms(2)] keepalive_frame [of "lv_now env" v1 e1 io1] nodata.ext_keepalive [of io1 "lv_now env" v1 e1] ext_trans
    by fastforce
next
  case (drained v1 e1 io1 v2 e2 io2 r e3)
  have 1: "ext_mode e2 = 8" "le_dq e2 = le_dq e" "exts (\<lambda>a. \<not> is_data a) io io2"
    using stuck_recv [OF drained(3) assms(2)] keepalive_frame [of "lv_now env" v1 e1 io1]
      ext_trans [OF _ nodata.ext_keepalive [of io1 "lv_now env" v1 e1]] drained(4) by auto
  have 2: "exts (\<lambda>a. \<not> is_data a) io io'" using ext_trans [OF 1(3)] nodata.ext_drain [of io2 e2] drained(5) by simp
  obtain n where "e3 = e2\<lparr>pending_select := False, pending_send := False, tx_bytes := n\<rparr>"
    using tx_drain_frame [of e2 io2] drained(5) by auto
  then have "ext_mode e3 = 8" "le_dq e3 = le_dq e" using 1 by simp_all
  moreover have "ext_mode e' = ext_mode e3" "le_dq e' = le_dq e3" by (subst drained(6), simp)+
  ultimately show ?thesis using 2 by simp
qed

text \<open>
  Fact. Once a device has announced that the next mode numbers are eight or more, nothing it sends is understood
  any more, not even the command that would switch back: as long as the DATA loop runs, no measurement
  reaches the consumer or the ring.
\<close>

theorem extended_mode_is_final:
  assumes "ext_mode e = 8" "data_iters envs v e io = Some (ret, e', io')"
  shows "ext_mode e' = 8 \<and> le_dq e' = le_dq e \<and> filter is_data (io_out io') = filter is_data (io_out io)"
  using assms
proof (induction envs arbitrary: v e io)
  case (Cons env envs)
  obtain res e1 io1 where 1: "data_iter env v e io = Some (res, e1, io1)"
    using Cons.prems(2) by (cases "data_iter env v e io") auto
  note s = stuck_iter [OF 1 Cons.prems(1)]
  have f: "filter is_data (io_out io1) = filter is_data (io_out io)"
    using s by (auto simp: exts_def list_all_iff filter_empty_conv)
  show ?case
  proof (cases res)
    case (Inl r)
    then show ?thesis using Cons.prems(2) 1 s f by simp
  next
    case (Inr v')
    then show ?thesis using Cons.IH [of e1 v' io1] Cons.prems(2) 1 s f by simp
  qed
qed simp

definition ext_tape :: "uart_ev list" where
  "ext_tape = map Rx (concat [lump_frame 0x46 [8] True, lump_frame 0x46 [0] True, lump_frame 0xC0 [7] True])"

definition idle_env :: loop_env where
  "idle_env = \<lparr>lv_stall = False, lv_now = 0, lv_wake = False, lv_stall_late = False\<rparr>"

theorem extended_mode_is_final_witness:
  "let v = \<lparr>last_keepalive = 0, miss_count = 0, data_rec = False\<rparr>;
       (e1, io1) = (case data_iter idle_env v demo_engine (quiet_io\<lparr>io_rx := ext_tape\<rparr>) of Some (_, x) \<Rightarrow> x);
       r = data_iters [idle_env, idle_env, idle_env\<lparr>lv_stall := True\<rparr>] v e1 io1 in
   ext_mode e1 = 8 \<and> r \<noteq> None \<and> ext_mode (fst (snd (the r))) = 8 \<and> filter is_data (io_out (snd (snd (the r)))) = []"
proof -
  define v where "v = \<lparr>last_keepalive = 0, miss_count = 0, data_rec = False\<rparr>"
  define x where "x = (case data_iter idle_env v demo_engine (quiet_io\<lparr>io_rx := ext_tape\<rparr>) of Some (_, x) \<Rightarrow> x)"
  define r where "r = data_iters [idle_env, idle_env, idle_env\<lparr>lv_stall := True\<rparr>] v (fst x) (snd x)"
  have 1: "ext_mode (fst x) = 8" "filter is_data (io_out (snd x)) = []" unfolding x_def v_def by code_simp+
  have "r \<noteq> None" unfolding r_def x_def v_def by code_simp
  then obtain ret e' io' where r: "r = Some (ret, e', io')" by (cases r) auto
  show ?thesis
    using 1 extended_mode_is_final [OF 1(1) r [unfolded r_def]] r
    by (simp add: Let_def split_beta del: data_iters.simps flip: v_def x_def r_def)
qed


section \<open>The line rate\<close>

text \<open>The rate the UART runs at after a sequence of outputs.\<close>

fun baud_next :: "32 word \<Rightarrow> lump_out \<Rightarrow> 32 word" where
  "baud_next b (Uart_Open n) = n"
| "baud_next b (Set_Baud n) = n"
| "baud_next b _ = b"

definition line_baud :: "lump_out list \<Rightarrow> 32 word \<Rightarrow> 32 word" where
  "line_baud tr b = fold (\<lambda>a b. baud_next b a) tr b"

lemma line_baud_append: "line_baud (xs @ ys) b = line_baud ys (line_baud xs b)"
  by (simp add: line_baud_def)

definition keeps_baud :: "lump_out \<Rightarrow> bool" where
  "keeps_baud a \<longleftrightarrow> (\<forall>b. baud_next b a = b)"

interpretation kb: session_outputs keeps_baud
  by unfold_locales (simp_all add: keeps_baud_def)

lemma kb_line: "exts keeps_baud io io' \<Longrightarrow> line_baud (io_out io') b = line_baud (io_out io) b"
proof -
  have "line_baud xs b = b" if "list_all keeps_baud xs" for xs b
    using that by (induction xs arbitrary: b) (auto simp: line_baud_def keeps_baud_def)
  then show "exts keeps_baud io io' \<Longrightarrow> line_baud (io_out io') b = line_baud (io_out io) b"
    by (auto simp: exts_def line_baud_append)
qed

text \<open>The probe: the fallback rate unless the device acknowledged the fast one.\<close>

lemma probe_baud:
  assumes "sync_probe e io = Some (r, e', io')" "\<not> r < 0" "io_rx io = ev # rx" "case ev of Rx b \<Rightarrow> True | Rx_Err c \<Rightarrow> c < 0"
  shows "line_baud (io_out io') b = (if ev = Rx LUMP_SYS_ACK then line_baud (io_out io) b else LUMP_BAUD_FALLBACK)"
proof -
  obtain h p where hp: "lump_cmd_header LUMP_CMD_SPEED 4 = (h, p)" by (metis prod.exhaust)
  let ?m = "lump_send_msg h (take p (lump_put_u32_le LUMP_BAUD_INITIAL)) True (e\<lparr>le_state := LUMP_ST_SYNCING\<rparr>) io"
  obtain r1 e1 io1 where 1: "?m = (r1, e1, io1)" by (metis prod_cases3)
  have x: "line_baud (io_out io1) b = line_baud (io_out io) b"
    using kb_line [OF kb.ext_send_msg] 1 by (metis snd_conv)
  have rx: "io_rx io1 = ev # rx"
    using 1 assms(3) by (auto simp: lump_send_msg_def io_call_def emit_def Let_def split: if_splits list.splits)
  have c: "line_baud (io_out (snd (io_call (Set_Baud LUMP_BAUD_FALLBACK) y))) b = LUMP_BAUD_FALLBACK" for y
    by (simp add: io_call_def emit_def line_baud_def split: list.splits)
  have cf: "line_baud (io_out (emit Flush_Rx y)) b = line_baud (io_out y) b" for y
    by (simp add: emit_def line_baud_def)
  note a = assms(1) [unfolded sync_probe_def Let_def hp prod.case 1 rx list.case]
  show ?thesis
  proof (cases "r1 < 0")
    case True
    then show ?thesis using a assms(2) by simp
  next
    case False
    obtain r2 io3 where 2: "io_call (Set_Baud LUMP_BAUD_FALLBACK) (io1\<lparr>io_rx := rx\<rparr>) = (r2, io3)" by (metis prod.exhaust)
    have l3: "line_baud (io_out io3) b = LUMP_BAUD_FALLBACK" using c [of "io1\<lparr>io_rx := rx\<rparr>"] 2 by simp
    show ?thesis
    proof (cases ev)
      case (Rx y)
      then show ?thesis using a False assms(2) 2 l3 x cf by (cases "y = LUMP_SYS_ACK") (auto split: if_splits)
    next
      case (Rx_Err y)
      then show ?thesis using a False assms(2,4) 2 l3 cf by (cases "y = - ETIMEDOUT") (auto split: if_splits)
    qed
  qed
qed

lemma finish_baud:
  assumes "sync_finish e io = (r, e', io')" "\<not> r < 0"
  shows "di_baud (le_info e') = new_baud_rate e"
    "line_baud (io_out io') b = (if new_baud_rate e = LUMP_BAUD_INITIAL then line_baud (io_out io) b else new_baud_rate e)"
proof -
  from assms(1) show "di_baud (le_info e') = new_baud_rate e"
    by (cases rule: sync_finish_out) (use assms(2) in simp_all)
  obtain r1 e1 io1 where 1: "lump_send_sys LUMP_SYS_ACK e io = (r1, e1, io1)" by (metis prod_cases3)
  have e1: "new_baud_rate e1 = new_baud_rate e" using 1 by (auto simp: lump_send_sys_def split: prod.splits)
  have l1: "line_baud (io_out io1) b = line_baud (io_out io) b" using kb_line [OF kb.ext_send_sys] 1 by (metis snd_conv)
  let ?call = "if new_baud_rate e1 \<noteq> LUMP_BAUD_INITIAL then io_call (Set_Baud (new_baud_rate e1)) (emit (Sleep_Ms 10) io1)
              else (OK, emit (Sleep_Ms 10) io1)"
  obtain r2 io2 where 2: "?call = (r2, io2)" by (metis prod.exhaust)
  have l2: "line_baud (io_out io2) b = (if new_baud_rate e = LUMP_BAUD_INITIAL then line_baud (io_out io) b else new_baud_rate e)"
  proof (cases "new_baud_rate e = LUMP_BAUD_INITIAL")
    case True
    then have "io2 = emit (Sleep_Ms 10) io1" using 2 e1 by simp
    then show ?thesis using True l1 by (simp add: emit_def line_baud_def)
  next
    case False
    then have "io_out io2 = io_out io1 @ [Sleep_Ms 10, Set_Baud (new_baud_rate e)]"
      using 2 e1 by (auto simp: io_call_def emit_def split: list.splits)
    then show ?thesis using False by (simp add: line_baud_def)
  qed
  obtain r3 dq where 3: "lump_data_queue_begin (le_dq e1) = (r3, dq)" by (metis prod.exhaust)
  note a = assms(1) [unfolded sync_finish_def 1 prod.case 2 3]
  have "\<not> r1 < 0 \<and> \<not> r2 < 0 \<and> \<not> r3 < 0"
    using a assms(2) by (cases "r1 < 0"; cases "r2 < 0"; cases "r3 < 0") simp_all
  then have s: "sync_publish (e1\<lparr>le_dq := dq\<rparr>) io2 = (r, e', io')" using a by simp
  have "line_baud (io_out io') b = line_baud (io_out io2) b"
    using sync_publish_out [of "e1\<lparr>le_dq := dq\<rparr>" io2] unfolding s
    by (simp add: line_baud_append) (simp add: line_baud_def pin_out_def cb_out_def)
  then show "line_baud (io_out io') b = (if new_baud_rate e = LUMP_BAUD_INITIAL then line_baud (io_out io) b else new_baud_rate e)"
    using l2 by simp
qed

text \<open>
  C36. After a synchronisation the line runs at the rate the engine reports, except in one case: when the
  device did not answer at the fast rate, so that the line was switched to the fallback rate, and then
  announces the fast rate as its own, the line stays at the fallback rate while the fast one is reported.
\<close>

theorem line_rate_after_sync:
  assumes "lump_sync e io = Some (r, e', io')" "\<not> r < 0" "io_rx io = ev # rx" "case ev of Rx b \<Rightarrow> True | Rx_Err c \<Rightarrow> c < 0"
    "line_baud (io_out io) 0 = LUMP_BAUD_INITIAL"
  shows "line_baud (io_out io') 0 =
    (if ev \<noteq> Rx LUMP_SYS_ACK \<and> di_baud (le_info e') = LUMP_BAUD_INITIAL then LUMP_BAUD_FALLBACK else di_baud (le_info e'))"
proof -
  obtain r1 e1 io1 where 1: "sync_probe e io = Some (r1, e1, io1)"
    using assms(1) by (cases "sync_probe e io") (auto simp: lump_sync_def)
  have p1: "\<not> r1 < 0" using assms(1,2) 1 by (auto simp: lump_sync_def split: if_splits)
  obtain r2 e2 rx1 where 2: "type_resync (e1\<lparr>err_count := 0\<rparr>) (io_rx io1) = Some (r2, e2, rx1)"
    using assms(1) 1 p1 by (cases "type_resync (e1\<lparr>err_count := 0\<rparr>) (io_rx io1)") (auto simp: lump_sync_def)
  obtain r3 e3 io3 where 3: "parse_io e2 (io1\<lparr>io_rx := rx1\<rparr>) = (r3, e3, io3)" by (metis prod_cases3)
  note a = assms(1) [unfolded lump_sync_def 1 option.case prod.case if_not_P [OF p1] 2 Let_def 3]
  have p3: "\<not> r2 < 0" "\<not> r3 < 0" using a assms(2) by (auto split: if_splits)
  let ?e3 = "e3\<lparr>le_state := LUMP_ST_INFO, last_idx := 0, last_count := 0\<rparr>"
  obtain r4 e4 io4 where 4: "info_loop ?e3 io3 = Some (r4, e4, io4)"
    using a p3 by (cases "info_loop ?e3 io3") auto
  have "\<not> r4 < 0" using a p3 4 assms(2) by (auto split: if_splits)
  then have f: "sync_finish e4 io4 = (r, e', io')" using a p3 4 by simp
  have "line_baud (io_out io4) 0 = line_baud (io_out io1) 0"
    using kb_line [OF kb.ext_info_loop [OF 4]] kb_line [OF kb.ext_parse [of "io1\<lparr>io_rx := rx1\<rparr>" e2]] 3 by simp
  then show ?thesis
    using finish_baud(1) [OF f assms(2)] finish_baud(2) [OF f assms(2), of 0] probe_baud [OF 1 p1 assms(3,4), of 0] assms(5) by auto
qed


definition slow_io :: lump_io where
  "slow_io = \<lparr>io_rx = Rx_Err (- ETIMEDOUT) # map Rx (concat (announcement 61 LUMP_BAUD_INITIAL demo_modes)), io_ret = [],
     io_out = [Uart_Open LUMP_BAUD_INITIAL]\<rparr>"

theorem line_rate_after_sync_witness:
  "case lump_sync demo_engine slow_io of None \<Rightarrow> False
   | Some (r, e, io) \<Rightarrow> r = OK \<and> di_baud (le_info e) = LUMP_BAUD_INITIAL \<and> line_baud (io_out io) 0 = LUMP_BAUD_FALLBACK"
proof -
  have "map_option (\<lambda>(r, e, io). (r, di_baud (le_info e))) (lump_sync demo_engine slow_io) = Some (OK, LUMP_BAUD_INITIAL)"
    by code_simp
  then obtain e io where s: "lump_sync demo_engine slow_io = Some (OK, e, io)" "di_baud (le_info e) = LUMP_BAUD_INITIAL" by auto
  have "line_baud (io_out io) 0 = LUMP_BAUD_FALLBACK"
    using line_rate_after_sync [OF s(1), of "Rx_Err (- ETIMEDOUT)"] s(2)
    by (simp add: OK_def slow_io_def ETIMEDOUT_def line_baud_def)
  then show ?thesis using s by simp
qed

section \<open>Silence\<close>

fun is_err :: "uart_ev \<Rightarrow> bool" where
  "is_err (Rx_Err c) = True"
| "is_err (Rx b) = False"

text \<open>What a byte read can fail with: never with one of the codes of a malformed frame.\<close>

fun line_err :: "uart_ev \<Rightarrow> bool" where
  "line_err (Rx_Err c) \<longleftrightarrow> c < 0 \<and> c \<noteq> - EBADMSG \<and> c \<noteq> - EILSEQ"
| "line_err (Rx b) = True"

lemma recv_bytes_ends:
  "list_ex is_err rx \<Longrightarrow> \<exists>r e' rx'. recv_bytes i n e rx = Some (r, e', rx') \<and> set rx' \<subseteq> set rx \<and>
     (r = OK \<and> list_ex is_err rx' \<or> Rx_Err r \<in> set rx)"
proof (induction i n e rx rule: recv_bytes.induct)
  case (4 i n e b rx)
  then show ?case by fastforce
qed auto

lemma line_err_neg: "list_all line_err rx \<Longrightarrow> Rx_Err c \<in> set rx \<Longrightarrow> c < 0 \<and> c \<noteq> - EBADMSG \<and> c \<noteq> - EILSEQ"
  by (auto simp: list_all_iff)

lemma recv_msg_ends:
  assumes "list_ex is_err rx" "list_all line_err rx"
  shows "\<exists>r e' rx'. lump_recv_msg e rx = Some (r, e', rx') \<and> set rx' \<subseteq> set rx \<and>
     ((r = OK \<or> r = - EBADMSG \<or> r = - EILSEQ) \<and> list_ex is_err rx' \<or> Rx_Err r \<in> set rx)"
proof -
  obtain r1 e1 rx1 where 1: "recv_bytes 0 1 e rx = Some (r1, e1, rx1)" "set rx1 \<subseteq> set rx"
    "r1 = OK \<and> list_ex is_err rx1 \<or> Rx_Err r1 \<in> set rx"
    using recv_bytes_ends [OF assms(1)] by blast
  let ?n = "lump_msg_total_size (rx_msg e1 ! 0)"
  show ?thesis
  proof (cases "r1 < 0")
    case True
    then have "lump_recv_msg e rx = Some (r1, e1, rx1)" using 1(1) by (simp add: lump_recv_msg_def)
    then show ?thesis using 1(2,3) True by (auto simp: OK_def)
  next
    case False
    then have r1: "r1 = OK" "list_ex is_err rx1" using 1(3) line_err_neg [OF assms(2)] by auto
    obtain r2 e2 rx2 where 2: "recv_bytes 1 (?n - 1) e1 rx1 = Some (r2, e2, rx2)" "set rx2 \<subseteq> set rx1"
      "r2 = OK \<and> list_ex is_err rx2 \<or> Rx_Err r2 \<in> set rx1"
      using recv_bytes_ends [OF r1(2)] by blast
    note b = lump_recv_msg_def [of e rx, unfolded 1(1) option.case prod.case if_not_P [OF False] Let_def 2(1)]
    show ?thesis
    proof (cases "?n > LUMP_RX_MSG_BYTES")
      case True
      then show ?thesis using b 1(2) r1(2) by auto
    next
      case small: False
      note b2 = b [unfolded if_not_P [OF small]]
      show ?thesis
      proof (cases "r2 < 0")
        case True
        then show ?thesis using b2 1(2) 2(2,3) by (auto simp: OK_def)
      next
        case False
        then have r2: "r2 = OK" "list_ex is_err rx2" using 2(3) line_err_neg [OF assms(2)] 1(2) by auto
        show ?thesis using b2 [unfolded if_not_P [OF False]] r2(2) 1(2) 2(2) by (auto split: if_splits)
      qed
    qed
  qed
qed

text \<open>
  C35. The INFO phase of the synchronisation always ends: whatever frames and garbage arrive, once the line is
  silent for the timeout, or fails, the phase returns.
\<close>

theorem info_phase_terminates:
  assumes "list_ex is_err (io_rx io)" "list_all line_err (io_rx io)"
  shows "info_loop e io \<noteq> None"
  using assms
proof (induction "length (io_rx io)" arbitrary: e io rule: less_induct)
  case less
  obtain r e1 rx1 where 1: "lump_recv_msg e (io_rx io) = Some (r, e1, rx1)" "set rx1 \<subseteq> set (io_rx io)"
    "(r = OK \<or> r = - EBADMSG \<or> r = - EILSEQ) \<and> list_ex is_err rx1 \<or> Rx_Err r \<in> set (io_rx io)"
    using recv_msg_ends [OF less.prems] by blast
  let ?io = "io\<lparr>io_rx := rx1\<rparr>"
  have r: "recv_io e io = Some (r, e1, ?io)" using 1(1) by (simp add: recv_io_def)
  have l: "list_all line_err rx1" using less.prems(2) 1(2) by (auto simp: list_all_iff)
  obtain r2 e2 io2 where 2: "parse_io (record_frame e1) ?io = (r2, e2, io2)" by (metis prod_cases3)
  have rx2: "io_rx io2 = rx1" using parse_io_rx [of "record_frame e1" ?io] 2 by simp
  note b = info_loop.simps [of e io, unfolded r option.case prod.case Let_def 2]
  show ?case
  proof (cases "Rx_Err r \<in> set (io_rx io)")
    case True
    then show ?thesis using b line_err_neg [OF less.prems(2)] by simp
  next
    case False
    then have x: "list_ex is_err rx1" using 1(3) by simp
    have "info_loop e1 ?io \<noteq> None" "info_loop e2 io2 \<noteq> None"
      using less.hyps [of ?io e1] less.hyps [of io2 e2] recv_msg_shrinks [OF 1(1)] x l rx2 by simp_all
    then show ?thesis using b by (simp split: if_split)
  qed
qed

theorem info_phase_terminates_witness:
  "info_loop demo_engine (quiet_io\<lparr>io_rx := [Rx 0x41, Rx 7, Rx 99, Rx 0xFF, Rx_Err (- ETIMEDOUT)]\<rparr>) \<noteq> None"
  by (rule info_phase_terminates) (simp_all add: ETIMEDOUT_def EBADMSG_def EILSEQ_def)

text \<open>One keepalive period without data, with nothing to send and a working line.\<close>

lemma silent_iter:
  assumes "io_rx io = Rx_Err (- ETIMEDOUT) # rx" "io_ret io = []" "\<not> wdog_stall e" "\<not> pending_select e" "\<not> pending_send e"
    "\<not> lv_stall env" "\<not> lv_stall_late env" "\<not> lv_wake env" "\<not> data_rec v"
    "MSEC2TICK LUMP_KEEPALIVE_MS \<le> lv_now env - last_keepalive v" "lv_now env - last_keepalive v < 2 ^ 63"
  shows "if miss_count v < LUMP_DATA_MISS_LIMIT then
      \<exists>io' n. data_iter env v e io = Some (Inr (v\<lparr>miss_count := miss_count v + 1, last_keepalive := lv_now env\<rparr>),
         e\<lparr>tx_bytes := n\<rparr>, io') \<and> io_rx io' = rx \<and> io_ret io' = []
    else \<exists>e' io'. data_iter env v e io = Some (Inl (- ETIMEDOUT), e', io')"
proof -
  have i: "i64 (lv_now env - last_keepalive v) = lv_now env - last_keepalive v"
    using assms(10,11) by (intro i64_id) (simp_all add: MSEC2TICK_def LUMP_KEEPALIVE_MS_def)
  have r: "data_recv v e io = Some (v, e, io\<lparr>io_rx := rx\<rparr>)"
    by (simp add: data_recv_def recv_io_def lump_recv_msg_def assms(1) ETIMEDOUT_def OK_def EBADMSG_def EILSEQ_def)
  show ?thesis
  proof (cases "miss_count v < LUMP_DATA_MISS_LIMIT")
    case True
    let ?v = "v\<lparr>miss_count := miss_count v + 1, last_keepalive := lv_now env\<rparr>"
    let ?e = "e\<lparr>tx_bytes := tx_bytes e + 1\<rparr>" and ?io = "emit (Tx [LUMP_SYS_NACK]) (io\<lparr>io_rx := rx\<rparr>)"
    have v: "v\<lparr>miss_count := miss_count v + 1, last_keepalive := lv_now env, data_rec := False\<rparr> = ?v"
      using assms(9) by simp
    have k: "keepalive (lv_now env) v e (io\<lparr>io_rx := rx\<rparr>) = (Inr ?v, ?e, ?io)"
      using True assms(2,9,10) i v by (simp add: keepalive_def Let_def lump_send_sys_def io_call_def OK_def)
    have d: "lump_drain_tx_requests ?e ?io = (OK, ?e, ?io)"
      using assms(4,5) by (simp add: lump_drain_tx_requests_def send_both_def OK_def)
    have "data_iter env v e io = Some (Inr ?v, ?e, ?io)"
      using assms(3,6-8) r k d by (simp add: data_iter_def OK_def)
    then show ?thesis using True assms(2) by (simp add: emit_def) blast
  next
    case False
    then have "\<exists>e' io'. keepalive (lv_now env) v e (io\<lparr>io_rx := rx\<rparr>) = (Inl (- ETIMEDOUT), e', io')"
      using assms(9,10) i by (simp add: keepalive_def Let_def)
    then show ?thesis using False assms(3,6) r by (auto simp: data_iter_def)
  qed
qed

text \<open>The clock advances by at least one keepalive period per iteration, and nothing else happens.\<close>

fun idle_periods :: "int \<Rightarrow> loop_env list \<Rightarrow> bool" where
  "idle_periods t [] = True"
| "idle_periods t (env # envs) \<longleftrightarrow> MSEC2TICK LUMP_KEEPALIVE_MS \<le> lv_now env - t \<and> lv_now env - t < 2 ^ 63 \<and>
     \<not> lv_stall env \<and> \<not> lv_stall_late env \<and> \<not> lv_wake env \<and> idle_periods (lv_now env) envs"

lemma silence_counts:
  "miss_count v + n = LUMP_DATA_MISS_LIMIT \<Longrightarrow> length envs = n + 1 \<Longrightarrow> idle_periods (last_keepalive v) envs \<Longrightarrow>
   io_rx io = replicate (n + 1) (Rx_Err (- ETIMEDOUT)) @ rx \<Longrightarrow> io_ret io = [] \<Longrightarrow> \<not> wdog_stall e \<Longrightarrow> \<not> pending_select e \<Longrightarrow>
   \<not> pending_send e \<Longrightarrow> \<not> data_rec v \<Longrightarrow>
   \<exists>e' io'. data_iters envs v e io = Some (- ETIMEDOUT, e', io') \<and> data_iters (butlast envs) v e io = None"
proof (induction n arbitrary: v e io envs)
  case 0
  then obtain env where env: "envs = [env]" by (cases envs) auto
  then show ?case using silent_iter [of io rx e env v] 0 by auto
next
  case (Suc n)
  then obtain env envs' where env: "envs = env # envs'" "length envs' = n + 1" by (cases envs) auto
  have "miss_count v < LUMP_DATA_MISS_LIMIT" using Suc.prems(1) by simp
  then obtain io' k where s: "data_iter env v e io = Some (Inr (v\<lparr>miss_count := miss_count v + 1, last_keepalive := lv_now env\<rparr>),
      e\<lparr>tx_bytes := k\<rparr>, io')" "io_rx io' = replicate (n + 1) (Rx_Err (- ETIMEDOUT)) @ rx" "io_ret io' = []"
    using silent_iter [of io "replicate (n + 1) (Rx_Err (- ETIMEDOUT)) @ rx" e env v] Suc.prems env by auto
  have "\<exists>e' io''. data_iters envs' (v\<lparr>miss_count := miss_count v + 1, last_keepalive := lv_now env\<rparr>) (e\<lparr>tx_bytes := k\<rparr>) io' =
      Some (- ETIMEDOUT, e', io'') \<and>
      data_iters (butlast envs') (v\<lparr>miss_count := miss_count v + 1, last_keepalive := lv_now env\<rparr>) (e\<lparr>tx_bytes := k\<rparr>) io' = None"
    by (rule Suc.IH) (use Suc.prems env s in auto)
  moreover have "envs' \<noteq> []" using env(2) by auto
  ultimately show ?case using s(1) env(1) by simp
qed



section \<open>Backoff\<close>

text \<open>The pauses after a sequence of sessions, given by their results and whether they had synchronised.\<close>

fun pauses :: "(int \<times> byte) list \<Rightarrow> lump_engine_s \<Rightarrow> nat list" where
  "pauses [] e = []"
| "pauses ((ret, flags) # rs) e =
     (let (e', io) = session_end ret (upd_info (\<lambda>i. i\<lparr>di_flags := flags\<rparr>) e) quiet_io in
      (case last (io_out io) of Sleep_Ms n \<Rightarrow> n | _ \<Rightarrow> 0) # pauses rs e')"

lemma session_end_pause:
  "last (io_out (snd (session_end ret e io))) =
     Sleep_Ms (if ret = OK \<or> ret = - EINTR \<or> lump_synced e then 100 else g_backoff_ms ! backoff_step e)"
  "backoff_step (fst (session_end ret e io)) =
     (if ret = OK \<or> ret = - EINTR \<or> lump_synced e then 0 else min LUMP_BACKOFF_MAX (max (backoff_step e) (backoff_step e + 1)))"
  if "backoff_step e \<le> LUMP_BACKOFF_MAX"
  using that by (simp_all add: session_end_def Let_def split_beta fire_def emit_def upd_info_def lump_synced_def g_backoff_ms_def LUMP_BACKOFF_MAX_def)

lemma pauses_from:
  "backoff_step e \<le> LUMP_BACKOFF_MAX \<Longrightarrow> ret < 0 \<Longrightarrow> ret \<noteq> - EINTR \<Longrightarrow>
   pauses (replicate n (ret, 0) @ [(ret', 1)]) e = map (\<lambda>k. g_backoff_ms ! min (backoff_step e + k) LUMP_BACKOFF_MAX) [0 ..< n] @ [100]"
proof (induction n arbitrary: e)
  case 0
  let ?e = "upd_info (\<lambda>i. i\<lparr>di_flags := 1\<rparr>) e"
  have "lump_synced ?e" "backoff_step ?e \<le> LUMP_BACKOFF_MAX" using 0 by (simp_all add: lump_synced_def upd_info_def LUMP_FLAG_SYNCED_def)
  then show ?case using session_end_pause(1) [of ?e ret' quiet_io] by (simp add: Let_def split_beta)
next
  case (Suc n)
  let ?e = "upd_info (\<lambda>i. i\<lparr>di_flags := 0\<rparr>) e" and ?b = "backoff_step e"
  have e: "\<not> lump_synced ?e" "backoff_step ?e = ?b" by (simp_all add: lump_synced_def upd_info_def)
  have r: "ret \<noteq> OK" using Suc.prems(2) by (simp add: OK_def)
  obtain e' io' where s: "session_end ret ?e quiet_io = (e', io')" by (metis prod.exhaust)
  have p: "last (io_out io') = Sleep_Ms (g_backoff_ms ! ?b)" and b: "backoff_step e' = min LUMP_BACKOFF_MAX (?b + 1)"
    using session_end_pause [of ?e ret quiet_io] s e r Suc.prems by simp_all
  have "pauses (replicate n (ret, 0) @ [(ret', 1)]) e' = map (\<lambda>k. g_backoff_ms ! min (backoff_step e' + k) LUMP_BACKOFF_MAX) [0 ..< n] @ [100]"
    using Suc.IH [of e'] Suc.prems b by simp
  also have "map (\<lambda>k. g_backoff_ms ! min (backoff_step e' + k) LUMP_BACKOFF_MAX) [0 ..< n] =
      map (\<lambda>k. g_backoff_ms ! min (?b + k) LUMP_BACKOFF_MAX) [1 ..< Suc n]"
    unfolding b map_Suc_upt [symmetric] One_nat_def map_map comp_def
    by (rule map_cong [OF refl], rule arg_cong [of _ _ "(!) g_backoff_ms"]) (simp add: min_def)
  finally show ?case
    using s p Suc.prems(1) by (simp add: upt_conv_Cons del: upt_Suc)
qed

text \<open>
  Fact. The pauses between failed synchronisations grow from 0.1 to 1, 5 and 30 seconds and stay there; a
  session that had synchronised is followed by the shortest pause, whatever happened before.
\<close>

theorem backoff_schedule:
  assumes "ret < 0" "ret \<noteq> - EINTR"
  shows "pauses (replicate n (ret, 0) @ [(ret', 1)]) (zero_engine p) =
    map (\<lambda>k. [100, 1000, 5000, 30000] ! min k 3) [0 ..< n] @ [100]"
proof -
  have "g_backoff_ms ! min k LUMP_BACKOFF_MAX = [100, 1000, 5000, 30000] ! min k 3" for k
  proof -
    consider "k = 0" | "k = 1" | "k = 2" | "k = 3" | "k \<ge> 4" by linarith
    then show ?thesis by cases (simp_all add: g_backoff_ms_def LUMP_BACKOFF_MAX_def)
  qed
  then show ?thesis using pauses_from [of "zero_engine p" ret n ret'] assms by (simp add: zero_engine_def)
qed

theorem backoff_schedule_witness:
  "pauses (replicate 6 (- ETIMEDOUT, 0) @ [(- ETIMEDOUT, 1)]) (zero_engine 2) = [100, 1000, 5000, 30000, 30000, 30000, 100]"
  using backoff_schedule [of "- ETIMEDOUT" 6 "- ETIMEDOUT" 2] by (simp add: ETIMEDOUT_def EINTR_def upt_rec)

end
