(* ===== verification/Legosensor.thy ===== *)
theory Legosensor
  imports Db_Motor Lump_Laws Legoport_Pwm
begin

text \<open>
  The lego sensor topics, \<^verbatim>\<open>boards/spike-prime-hub/src/legosensor_uorb.c\<close>: six device classes, each bound to at
  most one of the six ports. The callbacks of the port engines bind and unbind ports and publish samples; the
  ioctls of the class devices read the bound device, arbitrate who may write (CLAIM), and pass writes on to
  the engine or to the H-bridge of the bound port. What a callback publishes is a list of pairs of a class
  and a sample; time stamps and the clock are arguments.
\<close>

section \<open>State\<close>

definition LEGOSENSOR_NUM_PORTS :: nat where "LEGOSENSOR_NUM_PORTS = 6"
definition LEGOSENSOR_MAX_DATA_BYTES :: nat where "LEGOSENSOR_MAX_DATA_BYTES = LUMP_MAX_PAYLOAD"
definition LEGOSENSOR_NO_PENDING :: byte where "LEGOSENSOR_NO_PENDING = 0xff"
definition LEGOSENSOR_PENDING_TIMEOUT_MS :: int where "LEGOSENSOR_PENDING_TIMEOUT_MS = 500"
definition LPF2_TYPE_COLOR :: byte where "LPF2_TYPE_COLOR = 61"
definition LPF2_TYPE_ULTRASONIC :: byte where "LPF2_TYPE_ULTRASONIC = 62"
definition LPF2_TYPE_FORCE :: byte where "LPF2_TYPE_FORCE = 63"
definition LPF2_TYPE_SPIKE_MEDIUM_MOTOR :: byte where "LPF2_TYPE_SPIKE_MEDIUM_MOTOR = 48"
definition LPF2_TYPE_SPIKE_LARGE_MOTOR :: byte where "LPF2_TYPE_SPIKE_LARGE_MOTOR = 49"
definition LUMP_DATA_INT8 :: byte where "LUMP_DATA_INT8 = 0"

lemmas lpf2_types = LPF2_TYPE_COLOR_def LPF2_TYPE_ULTRASONIC_def LPF2_TYPE_FORCE_def
  LPF2_TYPE_SPIKE_MEDIUM_MOTOR_def LPF2_TYPE_SPIKE_LARGE_MOTOR_def

text \<open>The classes; the value of \<^verbatim>\<open>LEGOSENSOR_CLASS_NONE\<close> is \<^term>\<open>None\<close>.\<close>

datatype legosensor_class_e =
    LEGOSENSOR_CLASS_COLOR
  | LEGOSENSOR_CLASS_ULTRASONIC
  | LEGOSENSOR_CLASS_FORCE
  | LEGOSENSOR_CLASS_MOTOR_M
  | LEGOSENSOR_CLASS_MOTOR_R
  | LEGOSENSOR_CLASS_MOTOR_L

definition all_classes :: "legosensor_class_e list" where
  "all_classes = [LEGOSENSOR_CLASS_COLOR, LEGOSENSOR_CLASS_ULTRASONIC, LEGOSENSOR_CLASS_FORCE,
     LEGOSENSOR_CLASS_MOTOR_M, LEGOSENSOR_CLASS_MOTOR_R, LEGOSENSOR_CLASS_MOTOR_L]"

text \<open>An open file is identified by a number.\<close>

type_synonym filep = nat

record legosensor_class_state_s =
  bound_port :: int
  bind_generation :: "32 word"
  claim_owner :: "filep option"
  claim_bind_gen :: "32 word"

record legosensor_port_s =
  sp_port :: nat
  sp_attached :: bool
  sp_synced :: bool
  sp_classify_warned :: bool
  sp_seq :: "32 word"
  sp_generation :: "32 word"
  sp_type_id :: byte
  sp_mode_id :: byte
  sp_pending_select_mode :: byte
  sp_pending_select_deadline :: int
  sp_light_mode_idx :: int
  sp_latest_valid :: bool
  sp_latest :: lump_sample_s
  sp_info_cache :: lump_device_info_s

text \<open>The topics with the engines and bridges they are built on.\<close>

record hub =
  hub_class :: "legosensor_class_e \<Rightarrow> legosensor_class_state_s"
  hub_registered :: "legosensor_class_e \<Rightarrow> bool"
  hub_port :: "nat \<Rightarrow> legosensor_port_s"
  hub_lump :: "lump_engine_s list"
  hub_pwm :: pwm_system

type_synonym event = "legosensor_class_e \<times> lump_sample_s"

definition upd_class :: "legosensor_class_e \<Rightarrow> (legosensor_class_state_s \<Rightarrow> legosensor_class_state_s) \<Rightarrow> hub \<Rightarrow> hub" where
  "upd_class c f s = s\<lparr>hub_class := (hub_class s)(c := f (hub_class s c))\<rparr>"

definition upd_port :: "nat \<Rightarrow> (legosensor_port_s \<Rightarrow> legosensor_port_s) \<Rightarrow> hub \<Rightarrow> hub" where
  "upd_port p f s = s\<lparr>hub_port := (hub_port s)(p := f (hub_port s p))\<rparr>"

lemma upd_simps [simp]:
  "hub_class (upd_class c f s) = (hub_class s)(c := f (hub_class s c))"
  "hub_port (upd_class c f s) = hub_port s" "hub_lump (upd_class c f s) = hub_lump s"
  "hub_pwm (upd_class c f s) = hub_pwm s" "hub_registered (upd_class c f s) = hub_registered s"
  "hub_port (upd_port p g s) = (hub_port s)(p := g (hub_port s p))"
  "hub_class (upd_port p g s) = hub_class s" "hub_lump (upd_port p g s) = hub_lump s"
  "hub_pwm (upd_port p g s) = hub_pwm s" "hub_registered (upd_port p g s) = hub_registered s"
  by (simp_all add: upd_class_def upd_port_def)

section \<open>Helpers\<close>

definition legosensor_classify :: "byte \<Rightarrow> nat \<Rightarrow> legosensor_class_e option" where
  "legosensor_classify type_id port =
     (if type_id = LPF2_TYPE_COLOR then Some LEGOSENSOR_CLASS_COLOR
      else if type_id = LPF2_TYPE_ULTRASONIC then Some LEGOSENSOR_CLASS_ULTRASONIC
      else if type_id = LPF2_TYPE_FORCE then Some LEGOSENSOR_CLASS_FORCE
      else if type_id = LPF2_TYPE_SPIKE_LARGE_MOTOR then Some LEGOSENSOR_CLASS_MOTOR_M
      else if type_id = LPF2_TYPE_SPIKE_MEDIUM_MOTOR then
        Some (if even port then LEGOSENSOR_CLASS_MOTOR_R else LEGOSENSOR_CLASS_MOTOR_L)
      else None)"

definition zero_sample :: lump_sample_s where
  "zero_sample = \<lparr>ls_timestamp = 0, ls_seq = 0, ls_generation = 0, ls_port = 0, ls_type_id = 0, ls_mode_id = 0,
     ls_data_type = 0, ls_num_values = 0, ls_len = 0, ls_raw = replicate LEGOSENSOR_MAX_DATA_BYTES 0\<rparr>"

text \<open>No payload is the empty list.\<close>

definition legosensor_build_envelope :: "int \<Rightarrow> legosensor_port_s \<Rightarrow> byte \<Rightarrow> byte list \<Rightarrow> lump_sample_s" where
  "legosensor_build_envelope ts p mode data =
     (let copy_len = (if length data > LEGOSENSOR_MAX_DATA_BYTES then LEGOSENSOR_MAX_DATA_BYTES else length data);
          known = (sp_synced p \<and> mode < di_num_modes (sp_info_cache p));
          mi = di_modes (sp_info_cache p) ! unat mode in
      zero_sample\<lparr>ls_timestamp := ts, ls_seq := uint (sp_seq p), ls_generation := uint (sp_generation p),
        ls_port := int (sp_port p), ls_type_id := uint (sp_type_id p), ls_mode_id := uint mode,
        ls_data_type := (if known then uint (mi_data_type mi) else 0),
        ls_num_values := (if known then uint (mi_num_values mi) else 0), ls_len := int copy_len,
        ls_raw := take copy_len data @ replicate (LEGOSENSOR_MAX_DATA_BYTES - copy_len) 0\<rparr>)"

text \<open>The disconnect sentinel of a port; building it advances the port's counters.\<close>

definition bump :: "legosensor_port_s \<Rightarrow> legosensor_port_s" where
  "bump p = p\<lparr>sp_seq := sp_seq p + 1, sp_generation := sp_generation p + 1\<rparr>"

definition legosensor_build_disconnect_locked :: "int \<Rightarrow> legosensor_port_s \<Rightarrow> lump_sample_s \<times> legosensor_port_s" where
  "legosensor_build_disconnect_locked ts p0 =
     (let p = bump p0 in
      (zero_sample\<lparr>ls_timestamp := ts, ls_seq := uint (sp_seq p), ls_generation := uint (sp_generation p),
         ls_port := int (sp_port p)\<rparr>, p))"

definition LIGHT :: "byte list" where "LIGHT = [76, 73, 71, 72, 84]"

definition legosensor_resolve_light_locked :: "legosensor_port_s \<Rightarrow> legosensor_class_e option \<Rightarrow> int" where
  "legosensor_resolve_light_locked p cls =
     (let light = (\<lambda>want_values m. let mi = di_modes (sp_info_cache p) ! m in
            mi_writable mi \<and> mi_data_type mi = LUMP_DATA_INT8 \<and> mi_num_values mi = want_values \<and>
            c_string (take LUMP_MAX_NAME_LEN (mi_name mi)) = LIGHT);
          search = (\<lambda>want_values. case find (light want_values) [0 ..< min (unat (di_num_modes (sp_info_cache p))) LUMP_MAX_MODES] of
                                    None \<Rightarrow> - 1 | Some m \<Rightarrow> int m) in
      if cls = Some LEGOSENSOR_CLASS_COLOR then search 3
      else if cls = Some LEGOSENSOR_CLASS_ULTRASONIC then search 4
      else - 1)"

section \<open>Binding\<close>

datatype legosensor_bind_result_e =
    BIND_OUTCOME_BOUND_FRESH
  | BIND_OUTCOME_BOUND_DISPLACED
  | BIND_OUTCOME_LOSS
  | BIND_OUTCOME_NONE

text \<open>The outcome, the displaced port or \<open>- 1\<close>, and the new state.\<close>

definition legosensor_try_bind ::
    "nat \<Rightarrow> legosensor_class_e option \<Rightarrow> hub \<Rightarrow> legosensor_bind_result_e \<times> int \<times> hub" where
  "legosensor_try_bind port cls s =
     (case cls of
        None \<Rightarrow> (BIND_OUTCOME_NONE, - 1, s)
      | Some c \<Rightarrow>
          let cs = hub_class s c;
              take_slot = upd_class c (\<lambda>cs. cs\<lparr>bound_port := int port, bind_generation := bind_generation cs + 1\<rparr>) s in
          if bound_port cs < 0 then (BIND_OUTCOME_BOUND_FRESH, - 1, take_slot)
          else if bound_port cs > int port then (BIND_OUTCOME_BOUND_DISPLACED, bound_port cs, take_slot)
          else (BIND_OUTCOME_LOSS, - 1, s))"

definition legosensor_class_of :: "nat \<Rightarrow> hub \<Rightarrow> legosensor_class_e option" where
  "legosensor_class_of port s = find (\<lambda>c. bound_port (hub_class s c) = int port) all_classes"

definition legosensor_unbind :: "nat \<Rightarrow> hub \<Rightarrow> legosensor_class_e option \<times> hub" where
  "legosensor_unbind port s =
     (case find (\<lambda>c. bound_port (hub_class s c) = int port) all_classes of
        None \<Rightarrow> (None, s)
      | Some c \<Rightarrow>
          (Some c, upd_class c (\<lambda>cs. cs\<lparr>bound_port := - 1, bind_generation := bind_generation cs + 1\<rparr>) s))"

section \<open>Callbacks of the engines\<close>

text \<open>The first critical section of the synchronisation callback.\<close>

definition on_sync_port :: "nat \<Rightarrow> lump_device_info_s \<Rightarrow> hub \<Rightarrow> legosensor_class_e option \<times> hub" where
  "on_sync_port port info s =
     (let cls = legosensor_classify (di_type_id info) port in
      (cls, upd_port port (\<lambda>p0.
         let p = bump (p0\<lparr>sp_info_cache := info, sp_synced := True, sp_type_id := di_type_id info,
                   sp_mode_id := di_current_mode info, sp_latest_valid := False,
                   sp_pending_select_mode := LEGOSENSOR_NO_PENDING, sp_classify_warned := False\<rparr>) in
         p\<lparr>sp_light_mode_idx := legosensor_resolve_light_locked p cls\<rparr>) s))"

text \<open>The sentinels after a bind, first of the displaced port, then of the new one.\<close>

definition on_sync_publish ::
    "int \<Rightarrow> int \<Rightarrow> nat \<Rightarrow> legosensor_class_e \<Rightarrow> legosensor_bind_result_e \<Rightarrow> int \<Rightarrow> hub \<Rightarrow> event list \<times> hub" where
  "on_sync_publish ts1 ts2 port c bres displaced s =
     (case (if bres = BIND_OUTCOME_BOUND_DISPLACED \<and> displaced \<ge> 0 then
              (case legosensor_build_disconnect_locked ts1 (hub_port s (nat displaced)) of (disc, dp) \<Rightarrow>
                 ([(c, disc)], upd_port (nat displaced) (\<lambda>_. dp) s))
            else ([], s)) of (evs, s1) \<Rightarrow>
        if bres = BIND_OUTCOME_BOUND_FRESH \<or> bres = BIND_OUTCOME_BOUND_DISPLACED then
          (evs @ [(c, legosensor_build_envelope ts2 (hub_port s1 port) (sp_mode_id (hub_port s1 port)) [])], s1)
        else (evs, s1))"

definition legosensor_on_sync :: "int \<Rightarrow> int \<Rightarrow> nat \<Rightarrow> lump_device_info_s \<Rightarrow> hub \<Rightarrow> event list \<times> hub" where
  "legosensor_on_sync ts1 ts2 port info s =
     (case on_sync_port port info s of (cls, s1) \<Rightarrow>
        case cls of
          None \<Rightarrow> ([], upd_port port (\<lambda>p. p\<lparr>sp_classify_warned := True\<rparr>) s1)
        | Some c \<Rightarrow>
            case legosensor_try_bind port (Some c) s1 of (bres, displaced, s2) \<Rightarrow>
              on_sync_publish ts1 ts2 port c bres displaced s2)"

text \<open>The late hydration of the cache from the engine; the sentinel to publish, if any.\<close>

definition on_data_hydrate :: "int \<Rightarrow> nat \<Rightarrow> hub \<Rightarrow> lump_sample_s option \<times> hub" where
  "on_data_hydrate ts port s =
     (let p = hub_port s port in
      if \<not> sp_synced p \<or> di_num_modes (sp_info_cache p) = 0 then
        (case lump_get_info (int port) (hub_lump s) of
           (r, Some info) \<Rightarrow>
             if di_type_id info \<noteq> di_type_id (sp_info_cache p) \<or> di_num_modes info \<noteq> di_num_modes (sp_info_cache p) then
               (let q0 = bump (p\<lparr>sp_info_cache := info, sp_type_id := di_type_id info, sp_mode_id := di_current_mode info,
                               sp_synced := True\<rparr>);
                    q = q0\<lparr>sp_light_mode_idx :=
                              legosensor_resolve_light_locked q0 (legosensor_classify (di_type_id info) port)\<rparr> in
                (Some (legosensor_build_envelope ts q (sp_mode_id q) []), upd_port port (\<lambda>_. q) s))
             else (None, upd_port port (\<lambda>p. p\<lparr>sp_synced := True\<rparr>) s)
         | (r, None) \<Rightarrow> (None, s))
      else (None, s))"

text \<open>The last critical section of the data callback: the confirmation of a SELECT and the sample.\<close>

definition confirm_select :: "int \<Rightarrow> byte \<Rightarrow> legosensor_port_s \<Rightarrow> legosensor_port_s" where
  "confirm_select now mode p =
     (if sp_pending_select_mode p \<noteq> LEGOSENSOR_NO_PENDING then
        if i32 (now - sp_pending_select_deadline p) \<ge> 0 then p\<lparr>sp_pending_select_mode := LEGOSENSOR_NO_PENDING\<rparr>
        else if mode = sp_pending_select_mode p then
          p\<lparr>sp_generation := sp_generation p + 1, sp_pending_select_mode := LEGOSENSOR_NO_PENDING\<rparr>
        else p
      else p)"

definition on_data_commit :: "int \<Rightarrow> int \<Rightarrow> nat \<Rightarrow> byte \<Rightarrow> byte list \<Rightarrow> hub \<Rightarrow> lump_sample_s \<times> hub" where
  "on_data_commit now ts port mode data s =
     (let p0 = confirm_select now mode (hub_port s port);
          p = p0\<lparr>sp_mode_id := mode, sp_seq := sp_seq p0 + 1\<rparr>;
          sample = legosensor_build_envelope ts p mode data in
      (sample, upd_port port (\<lambda>_. p\<lparr>sp_latest := sample, sp_latest_valid := True\<rparr>) s))"

definition legosensor_on_data :: "int \<Rightarrow> int \<Rightarrow> int \<Rightarrow> nat \<Rightarrow> byte \<Rightarrow> byte list \<Rightarrow> hub \<Rightarrow> event list \<times> hub" where
  "legosensor_on_data ts0 now ts port mode data s =
     (case on_data_hydrate ts0 port s of (sentinel, s1) \<Rightarrow>
        case legosensor_class_of port s1 of
          None \<Rightarrow> ([], s1)
        | Some c \<Rightarrow>
            case on_data_commit now ts port mode data s1 of (sample, s2) \<Rightarrow>
              ((case sentinel of None \<Rightarrow> [] | Some x \<Rightarrow> [(c, x)]) @ [(c, sample)], s2))"

definition legosensor_on_error :: "int \<Rightarrow> nat \<Rightarrow> hub \<Rightarrow> event list \<times> hub" where
  "legosensor_on_error ts port s =
     (case legosensor_unbind port s of (cls, s1) \<Rightarrow>
        let p = bump ((hub_port s1 port)\<lparr>sp_synced := False, sp_type_id := 0, sp_mode_id := 0,
                   sp_pending_select_mode := LEGOSENSOR_NO_PENDING, sp_light_mode_idx := - 1, sp_latest_valid := False,
                   sp_classify_warned := False, sp_info_cache := zero_info\<rparr>);
            sentinel = zero_sample\<lparr>ls_timestamp := ts, ls_seq := uint (sp_seq p), ls_generation := uint (sp_generation p),
                         ls_port := int (sp_port p)\<rparr> in
        ((case cls of None \<Rightarrow> [] | Some c \<Rightarrow> [(c, sentinel)]), upd_port port (\<lambda>_. p) s1))"

section \<open>Device operations\<close>

text \<open>The return code and the port that may be written to.\<close>

definition legosensor_check_write_claim :: "legosensor_class_state_s \<Rightarrow> filep \<Rightarrow> int \<times> int" where
  "legosensor_check_write_claim cs filep =
     (if bound_port cs < 0 then (- ENODEV, - 1)
      else if claim_owner cs = Some filep then
        if claim_bind_gen cs \<noteq> bind_generation cs then (- ENODEV, - 1) else (OK, bound_port cs)
      else (- EACCES, - 1))"

definition legosensor_open :: "bool \<Rightarrow> hub \<Rightarrow> int \<times> hub" where
  "legosensor_open writable s = (if writable then (- EACCES, s) else (OK, s))"

definition legosensor_close :: "legosensor_class_e \<Rightarrow> filep \<Rightarrow> hub \<Rightarrow> int \<times> hub" where
  "legosensor_close c filep s =
     (if claim_owner (hub_class s c) = Some filep
      then (OK, upd_class c (\<lambda>cs. cs\<lparr>claim_owner := None, claim_bind_gen := 0\<rparr>) s) else (OK, s))"

definition legosensor_activate :: "bool \<Rightarrow> hub \<Rightarrow> int \<times> hub" where
  "legosensor_activate enable s = (OK, s)"

definition legosensor_set_interval :: "int \<Rightarrow> hub \<Rightarrow> int \<times> hub" where
  "legosensor_set_interval interval s = (OK, s)"

text \<open>
  The argument of an ioctl: a null pointer, a pointer the address check refuses, or what is copied in (for
  the reading commands nothing).
\<close>

datatype 'a uarg = U_Null | U_Fault | U_Ok 'a

record legosensor_send_arg_s =
  sa_mode :: byte
  sa_len :: byte
  sa_data :: "byte list"

record legosensor_pwm_arg_s =
  pa_num_channels :: byte
  pa_channels :: "int list"

datatype legosensor_cmd =
    LEGOSENSOR_GET_INFO "unit uarg"
  | LEGOSENSOR_GET_STATUS "unit uarg"
  | LEGOSENSOR_GET_LATEST "unit uarg"
  | LEGOSENSOR_CLAIM
  | LEGOSENSOR_RELEASE
  | LEGOSENSOR_SELECT "byte uarg"
  | LEGOSENSOR_SEND "legosensor_send_arg_s uarg"
  | LEGOSENSOR_SET_PWM "legosensor_pwm_arg_s uarg"
  | LEGOSENSOR_MOTOR_M_COAST
  | LEGOSENSOR_MOTOR_M_BRAKE
  | LEGOSENSOR_MOTOR_R_COAST
  | LEGOSENSOR_MOTOR_R_BRAKE
  | LEGOSENSOR_MOTOR_L_COAST
  | LEGOSENSOR_MOTOR_L_BRAKE
  | LEGOSENSOR_UNKNOWN

datatype legosensor_answer =
    No_Answer
  | Info_Answer int lump_device_info_s
  | Status_Answer lump_status_full_s
  | Latest_Answer lump_sample_s

definition from_user :: "'a uarg \<Rightarrow> hub \<Rightarrow> ('a \<Rightarrow> int \<times> legosensor_answer \<times> hub) \<Rightarrow> int \<times> legosensor_answer \<times> hub" where
  "from_user a s k = (case a of U_Null \<Rightarrow> (- EINVAL, No_Answer, s) | U_Fault \<Rightarrow> (- EFAULT, No_Answer, s) | U_Ok x \<Rightarrow> k x)"

text \<open>GET\_LATEST in its three critical sections.\<close>

definition latest_begin :: "legosensor_class_e \<Rightarrow> hub \<Rightarrow> int \<times> 32 word" where
  "latest_begin c s = (bound_port (hub_class s c), bind_generation (hub_class s c))"

definition latest_copy :: "int \<Rightarrow> hub \<Rightarrow> lump_sample_s option" where
  "latest_copy port s = (if sp_latest_valid (hub_port s (nat port)) then Some (sp_latest (hub_port s (nat port))) else None)"

definition latest_verify ::
    "legosensor_class_e \<Rightarrow> int \<times> 32 word \<Rightarrow> lump_sample_s option \<Rightarrow> hub \<Rightarrow> int \<times> legosensor_answer" where
  "latest_verify c ident sample s =
     (if latest_begin c s \<noteq> ident then (- EAGAIN, No_Answer)
      else case sample of None \<Rightarrow> (- ENODATA, No_Answer) | Some x \<Rightarrow> (OK, Latest_Answer x))"

definition get_latest :: "legosensor_class_e \<Rightarrow> hub \<Rightarrow> int \<times> legosensor_answer" where
  "get_latest c s =
     (let ident = latest_begin c s in
      if fst ident < 0 then (- ENODEV, No_Answer) else latest_verify c ident (latest_copy (fst ident) s) s)"

definition claim_class :: "legosensor_class_e \<Rightarrow> filep \<Rightarrow> hub \<Rightarrow> int \<times> hub" where
  "claim_class c filep s =
     (let cs = hub_class s c in
      if bound_port cs < 0 then (- ENODEV, s)
      else if claim_owner cs = Some filep \<and> claim_bind_gen cs = bind_generation cs then (OK, s)
      else if claim_owner cs = None \<or> claim_bind_gen cs \<noteq> bind_generation cs then
        (OK, upd_class c (\<lambda>cs. cs\<lparr>claim_owner := Some filep, claim_bind_gen := bind_generation cs\<rparr>) s)
      else (- EBUSY, s))"

definition release_class :: "legosensor_class_e \<Rightarrow> filep \<Rightarrow> hub \<Rightarrow> int \<times> hub" where
  "release_class c filep s =
     (let cs = hub_class s c in
      if claim_owner cs \<noteq> Some filep \<or> claim_bind_gen cs \<noteq> bind_generation cs then (- EACCES, s)
      else (OK, upd_class c (\<lambda>cs. cs\<lparr>claim_owner := None, claim_bind_gen := 0\<rparr>) s))"

text \<open>A write that may be done, with the port it goes to.\<close>

definition with_claim ::
    "legosensor_class_e \<Rightarrow> filep \<Rightarrow> hub \<Rightarrow> (int \<Rightarrow> int \<times> legosensor_answer \<times> hub) \<Rightarrow> int \<times> legosensor_answer \<times> hub" where
  "with_claim c filep s k =
     (case legosensor_check_write_claim (hub_class s c) filep of (r, port) \<Rightarrow>
        if r < 0 then (r, No_Answer, s) else k port)"

definition select_port :: "int \<Rightarrow> byte \<Rightarrow> int \<Rightarrow> hub \<Rightarrow> int \<times> hub" where
  "select_port clk mode port s =
     (let s1 = upd_port (nat port) (\<lambda>p. p\<lparr>sp_pending_select_mode := mode,
                 sp_pending_select_deadline := clk + MSEC2TICK LEGOSENSOR_PENDING_TIMEOUT_MS\<rparr>) s in
      case lump_select_mode port mode (hub_lump s1) of (r, g) \<Rightarrow>
        let s2 = s1\<lparr>hub_lump := g\<rparr> in
        (r, if r < 0 then upd_port (nat port) (\<lambda>p. p\<lparr>sp_pending_select_mode := LEGOSENSOR_NO_PENDING\<rparr>) s2 else s2))"

definition drive_bridge :: "(pwm_system \<Rightarrow> int \<times> pwm_system list) \<Rightarrow> hub \<Rightarrow> int \<times> legosensor_answer \<times> hub" where
  "drive_bridge f s = (case f (hub_pwm s) of (r, tr) \<Rightarrow> (r, No_Answer, s\<lparr>hub_pwm := final (hub_pwm s) tr\<rparr>))"

definition is_motor :: "legosensor_class_e \<Rightarrow> bool" where
  "is_motor c \<longleftrightarrow> c \<in> {LEGOSENSOR_CLASS_MOTOR_M, LEGOSENSOR_CLASS_MOTOR_R, LEGOSENSOR_CLASS_MOTOR_L}"

definition set_pwm ::
    "int \<Rightarrow> legosensor_class_e \<Rightarrow> filep \<Rightarrow> legosensor_pwm_arg_s \<Rightarrow> hub \<Rightarrow> int \<times> legosensor_answer \<times> hub" where
  "set_pwm lk c filep a s =
     (if is_motor c then
        if pa_num_channels a \<noteq> 1 then (- EINVAL, No_Answer, s)
        else if pa_channels a ! 0 < - 10000 \<or> pa_channels a ! 0 > 10000 then (- EINVAL, No_Answer, s)
        else with_claim c filep s (\<lambda>port. drive_bridge (stm32_legoport_pwm_set_duty lk port (pa_channels a ! 0)) s)
      else with_claim c filep s (\<lambda>port. (- ENOTSUP, No_Answer, s)))"

definition motor_passive ::
    "int \<Rightarrow> legosensor_class_e \<Rightarrow> bool \<Rightarrow> legosensor_class_e \<Rightarrow> filep \<Rightarrow> hub \<Rightarrow> int \<times> legosensor_answer \<times> hub" where
  "motor_passive lk expected_class is_brake c filep s =
     (if c \<noteq> expected_class then (- ENOTTY, No_Answer, s)
      else with_claim c filep s (\<lambda>port.
        drive_bridge (if is_brake then stm32_legoport_pwm_brake lk port else stm32_legoport_pwm_coast lk port) s))"

text \<open>The ioctl of a class device; \<open>clk\<close> is the clock, \<open>lk\<close> the outcome of the bridge's mutex.\<close>

definition legosensor_control ::
    "int \<Rightarrow> int \<Rightarrow> legosensor_class_e \<Rightarrow> filep \<Rightarrow> legosensor_cmd \<Rightarrow> hub \<Rightarrow> int \<times> legosensor_answer \<times> hub" where
  "legosensor_control clk lk c filep cmd s =
     (let bp = bound_port (hub_class s c) in
      case cmd of
        LEGOSENSOR_GET_INFO a \<Rightarrow> from_user a s (\<lambda>_.
          if bp < 0 then (- ENODEV, No_Answer, s)
          else case lump_get_info bp (hub_lump s) of (r, i) \<Rightarrow>
            (r, Info_Answer bp (case i of None \<Rightarrow> zero_info | Some x \<Rightarrow> x), s))
      | LEGOSENSOR_GET_STATUS a \<Rightarrow> from_user a s (\<lambda>_.
          if bp < 0 then (- ENODEV, No_Answer, s)
          else case lump_get_status_full bp True (hub_lump s) of (r, x) \<Rightarrow>
            (r, case x of None \<Rightarrow> No_Answer | Some y \<Rightarrow> Status_Answer y, s))
      | LEGOSENSOR_GET_LATEST a \<Rightarrow> from_user a s (\<lambda>_. case get_latest c s of (r, x) \<Rightarrow> (r, x, s))
      | LEGOSENSOR_CLAIM \<Rightarrow> (case claim_class c filep s of (r, s') \<Rightarrow> (r, No_Answer, s'))
      | LEGOSENSOR_RELEASE \<Rightarrow> (case release_class c filep s of (r, s') \<Rightarrow> (r, No_Answer, s'))
      | LEGOSENSOR_SELECT a \<Rightarrow> from_user a s (\<lambda>mode. with_claim c filep s (\<lambda>port.
          case select_port clk mode port s of (r, s') \<Rightarrow> (r, No_Answer, s')))
      | LEGOSENSOR_SEND a \<Rightarrow> from_user a s (\<lambda>snd.
          if sa_len snd = 0 \<or> unat (sa_len snd) > LUMP_MAX_PAYLOAD then (- EINVAL, No_Answer, s)
          else with_claim c filep s (\<lambda>port.
            case lump_send_data port (sa_mode snd) (Buf (take (unat (sa_len snd)) (sa_data snd))) (hub_lump s) of (r, g) \<Rightarrow>
              (r, No_Answer, s\<lparr>hub_lump := g\<rparr>)))
      | LEGOSENSOR_SET_PWM a \<Rightarrow> from_user a s (\<lambda>pwm. set_pwm lk c filep pwm s)
      | LEGOSENSOR_MOTOR_M_COAST \<Rightarrow> motor_passive lk LEGOSENSOR_CLASS_MOTOR_M False c filep s
      | LEGOSENSOR_MOTOR_M_BRAKE \<Rightarrow> motor_passive lk LEGOSENSOR_CLASS_MOTOR_M True c filep s
      | LEGOSENSOR_MOTOR_R_COAST \<Rightarrow> motor_passive lk LEGOSENSOR_CLASS_MOTOR_R False c filep s
      | LEGOSENSOR_MOTOR_R_BRAKE \<Rightarrow> motor_passive lk LEGOSENSOR_CLASS_MOTOR_R True c filep s
      | LEGOSENSOR_MOTOR_L_COAST \<Rightarrow> motor_passive lk LEGOSENSOR_CLASS_MOTOR_L False c filep s
      | LEGOSENSOR_MOTOR_L_BRAKE \<Rightarrow> motor_passive lk LEGOSENSOR_CLASS_MOTOR_L True c filep s
      | LEGOSENSOR_UNKNOWN \<Rightarrow> (- ENOTTY, No_Answer, s))"

section \<open>Registration\<close>

text \<open>Registering the class devices, with the outcomes of the registrations; a failure undoes the earlier ones.\<close>

definition legosensor_unregister_class :: "legosensor_class_e \<Rightarrow> hub \<Rightarrow> hub" where
  "legosensor_unregister_class c s = s\<lparr>hub_registered := (hub_registered s)(c := False)\<rparr>"

fun register_classes :: "legosensor_class_e list \<Rightarrow> legosensor_class_e list \<Rightarrow> (legosensor_class_e \<Rightarrow> int) \<Rightarrow> hub \<Rightarrow> int \<times> hub" where
  "register_classes before [] rc s = (OK, s)"
| "register_classes before (c # cs) rc s =
     (if rc c < 0 then (rc c, fold legosensor_unregister_class before s)
      else register_classes (before @ [c]) cs rc (s\<lparr>hub_registered := (hub_registered s)(c := True)\<rparr>))"

definition fresh_port :: "nat \<Rightarrow> legosensor_port_s" where
  "fresh_port port = \<lparr>sp_port = port, sp_attached = False, sp_synced = False, sp_classify_warned = False, sp_seq = 0,
     sp_generation = 0, sp_type_id = 0, sp_mode_id = 0, sp_pending_select_mode = LEGOSENSOR_NO_PENDING,
     sp_pending_select_deadline = 0, sp_light_mode_idx = - 1, sp_latest_valid = False, sp_latest = zero_sample,
     sp_info_cache = zero_info\<rparr>"

text \<open>Attaching to an engine that has already synchronised runs the callback within the call.\<close>

fun deliver :: "int \<Rightarrow> int \<Rightarrow> nat \<Rightarrow> lump_out list \<Rightarrow> hub \<Rightarrow> event list \<times> hub" where
  "deliver ts1 ts2 port [Cb_Sync i] s = legosensor_on_sync ts1 ts2 port i s"
| "deliver ts1 ts2 port _ s = ([], s)"

definition legosensor_attach_port :: "int \<Rightarrow> int \<Rightarrow> nat \<Rightarrow> hub \<Rightarrow> int \<times> event list \<times> hub" where
  "legosensor_attach_port ts1 ts2 port s =
     (let s1 = upd_port port (\<lambda>_. fresh_port port) s in
      case lump_attach (int port) (Some all_cb) (hub_lump s1) of (r, g, out) \<Rightarrow>
        if r < 0 then (r, [], s1)
        else case deliver ts1 ts2 port out (s1\<lparr>hub_lump := g\<rparr>) of (evs, s2) \<Rightarrow>
          (OK, evs, upd_port port (\<lambda>p. p\<lparr>sp_attached := True\<rparr>) s2))"

definition legosensor_detach_port :: "nat \<Rightarrow> hub \<Rightarrow> hub" where
  "legosensor_detach_port port s =
     (if sp_attached (hub_port s port) then
        upd_port port (\<lambda>p. p\<lparr>sp_attached := False\<rparr>) (s\<lparr>hub_lump := snd (lump_detach (int (sp_port (hub_port s port))) (hub_lump s))\<rparr>)
      else s)"

fun attach_ports :: "int \<Rightarrow> int \<Rightarrow> nat list \<Rightarrow> nat list \<Rightarrow> hub \<Rightarrow> int \<times> event list \<times> hub" where
  "attach_ports ts1 ts2 before [] s = (OK, [], s)"
| "attach_ports ts1 ts2 before (p # ps) s =
     (case legosensor_attach_port ts1 ts2 p s of (r, evs, s1) \<Rightarrow>
        if r < 0 then (r, evs, fold legosensor_unregister_class all_classes (fold legosensor_detach_port before s1))
        else case attach_ports ts1 ts2 (before @ [p]) ps s1 of (r', evs', s2) \<Rightarrow> (r', evs @ evs', s2))"

definition unbound_class :: legosensor_class_state_s where
  "unbound_class = \<lparr>bound_port = - 1, bind_generation = 0, claim_owner = None, claim_bind_gen = 0\<rparr>"

definition legosensor_uorb_register :: "(legosensor_class_e \<Rightarrow> int) \<Rightarrow> int \<Rightarrow> int \<Rightarrow> hub \<Rightarrow> int \<times> event list \<times> hub" where
  "legosensor_uorb_register rc ts1 ts2 s =
     (case register_classes [] all_classes rc (s\<lparr>hub_class := (\<lambda>_. unbound_class)\<rparr>) of (r, s1) \<Rightarrow>
        if r < 0 then (r, [], s1) else attach_ports ts1 ts2 [] [0 ..< LEGOSENSOR_NUM_PORTS] s1)"

end
