(* ===== verification/Legosensor_Laws.thy ===== *)
theory Legosensor_Laws
  imports Legosensor
begin

text \<open>
  Laws of the lego sensor topics over every history of callbacks, file operations and progress of the ports
  below: which port serves which class, what every topic publishes, who may write, and what a read returns.
\<close>

section \<open>Histories\<close>

text \<open>
  What can happen to the topics: the callbacks of the port engines, the operations of open files, and
  progress of the engines and bridges below. Each callback and each operation is one step.
\<close>

datatype hub_ev =
    Ev_Sync int int nat lump_device_info_s
  | Ev_Data int int int nat byte "byte list"
  | Ev_Error int nat byte
  | Ev_Ioctl int int legosensor_class_e filep legosensor_cmd
  | Ev_Close legosensor_class_e filep
  | Ev_Engines "lump_engine_s list"
  | Ev_Bridge pwm_system

fun hub_do :: "hub_ev \<Rightarrow> hub \<Rightarrow> event list \<times> hub" where
  "hub_do (Ev_Sync ts1 ts2 p i) s = legosensor_on_sync ts1 ts2 p i s"
| "hub_do (Ev_Data ts0 now ts p mode data) s = legosensor_on_data ts0 now ts p mode data s"
| "hub_do (Ev_Error ts p m) s = legosensor_on_error ts p s"
| "hub_do (Ev_Ioctl clk lk c f cmd) s = ([], snd (snd (legosensor_control clk lk c f cmd s)))"
| "hub_do (Ev_Close c f) s = ([], snd (legosensor_close c f s))"
| "hub_do (Ev_Engines g) s = ([], s\<lparr>hub_lump := g\<rparr>)"
| "hub_do (Ev_Bridge b) s = ([], s\<lparr>hub_pwm := b\<rparr>)"

text \<open>What the port engines guarantee, given which ports are open.\<close>

definition engines_ok :: "lump_engine_s list \<Rightarrow> bool" where
  "engines_ok g \<longleftrightarrow> length g = 6 \<and> list_all (\<lambda>e. lump_synced e \<longrightarrow> LUMP_TYPE_ID_MIN \<le> di_type_id (le_info e)) g"

fun allowed :: "hub_ev \<Rightarrow> (nat \<Rightarrow> bool) \<Rightarrow> (nat \<Rightarrow> bool) option" where
  "allowed (Ev_Sync ts1 ts2 p i) opened = (if p < 6 \<and> \<not> opened p \<and> announced i then Some (opened(p := True)) else None)"
| "allowed (Ev_Data ts0 now ts p mode data) opened = (if p < 6 then Some opened else None)"
| "allowed (Ev_Error ts p m) opened = (if p < 6 then Some (opened(p := False)) else None)"
| "allowed (Ev_Engines g) opened = (if engines_ok g then Some opened else None)"
| "allowed _ opened = Some opened"

definition boot_hub :: "hub \<Rightarrow> bool" where
  "boot_hub s \<longleftrightarrow> length (hub_lump s) = 6 \<and>
     list_all (\<lambda>e. \<not> lump_synced e \<and> \<not> cb_attached e \<and> \<not> in_callback e) (hub_lump s)"

inductive hub_run :: "(nat \<Rightarrow> bool) \<Rightarrow> event list \<Rightarrow> hub \<Rightarrow> bool" where
  start: "boot_hub s0 \<Longrightarrow> legosensor_uorb_register rc ts1 ts2 s0 = (OK, evs, s) \<Longrightarrow> hub_run (\<lambda>_. False) evs s"
| step: "hub_run opened tr s \<Longrightarrow> allowed ev opened = Some opened' \<Longrightarrow> hub_do ev s = (out, s') \<Longrightarrow>
    hub_run opened' (tr @ out) s'"

section \<open>The invariant\<close>

definition fits :: "legosensor_class_e \<Rightarrow> nat \<Rightarrow> bool" where
  "fits c p \<longleftrightarrow> (if c = LEGOSENSOR_CLASS_MOTOR_R then even p else if c = LEGOSENSOR_CLASS_MOTOR_L then odd p else True)"

definition bound_ok :: "(nat \<Rightarrow> bool) \<Rightarrow> (legosensor_class_e \<Rightarrow> int) \<Rightarrow> bool" where
  "bound_ok opened b \<longleftrightarrow>
     (\<forall>c. b c = - 1 \<or> (\<exists>p < 6. b c = int p \<and> opened p \<and> fits c p)) \<and> (\<forall>c d. b c = b d \<longrightarrow> 0 \<le> b c \<longrightarrow> c = d)"

definition port_fine :: "(nat \<Rightarrow> bool) \<Rightarrow> nat \<Rightarrow> legosensor_port_s \<Rightarrow> bool" where
  "port_fine opened p q \<longleftrightarrow> sp_port q = p \<and> (opened p \<longrightarrow> sp_synced q \<and> sp_type_id q \<noteq> 0)"

definition hub_ok :: "(nat \<Rightarrow> bool) \<Rightarrow> hub \<Rightarrow> bool" where
  "hub_ok opened s \<longleftrightarrow> bound_ok opened (\<lambda>c. bound_port (hub_class s c)) \<and>
     (\<forall>p < 6. port_fine opened p (hub_port s p)) \<and> engines_ok (hub_lump s)"

lemma all_classes_UNIV: "c \<in> set all_classes"
  by (cases c) (simp_all add: all_classes_def)

lemma class_of_None: "legosensor_class_of p s = None \<longleftrightarrow> (\<forall>c. bound_port (hub_class s c) \<noteq> int p)"
  using all_classes_UNIV by (auto simp: legosensor_class_of_def find_None_iff)

lemma class_of_Some: "legosensor_class_of p s = Some c \<Longrightarrow> bound_port (hub_class s c) = int p"
  by (auto simp: legosensor_class_of_def find_Some_iff)

lemma envelope_fields [simp]:
  "ls_port (legosensor_build_envelope ts p m d) = int (sp_port p)"
  "ls_seq (legosensor_build_envelope ts p m d) = uint (sp_seq p)"
  "ls_type_id (legosensor_build_envelope ts p m d) = uint (sp_type_id p)"
  "ls_len (legosensor_build_envelope ts p m []) = 0"
  by (simp_all add: legosensor_build_envelope_def Let_def zero_sample_def)

text \<open>The abstract contract of a topic: sessions of single ports with consecutive sequence numbers.\<close>

definition topic_next :: "(int \<times> 32 word) option \<Rightarrow> lump_sample_s \<Rightarrow> (int \<times> 32 word) option option" where
  "topic_next st x =
     (let q = word_of_int (ls_seq x); mine = (st = Some (ls_port x, q - 1)) in
      if ls_type_id x = 0 \<and> ls_len x = 0 then (if mine then Some None else None)
      else if ls_len x = 0 then (if st = None \<or> mine then Some (Some (ls_port x, q)) else None)
      else if mine then Some (Some (ls_port x, q)) else None)"

fun topic_run :: "(int \<times> 32 word) option \<Rightarrow> lump_sample_s list \<Rightarrow> (int \<times> 32 word) option option" where
  "topic_run st [] = Some st"
| "topic_run st (x # xs) = (case topic_next st x of None \<Rightarrow> None | Some st' \<Rightarrow> topic_run st' xs)"

definition topic :: "legosensor_class_e \<Rightarrow> event list \<Rightarrow> lump_sample_s list" where
  "topic c tr = map snd (filter (\<lambda>x. fst x = c) tr)"

lemma topic_simps [simp]:
  "topic c [] = []" "topic c (x # tr) = (if fst x = c then [snd x] else []) @ topic c tr"
  "topic c (tr @ tr') = topic c tr @ topic c tr'"
  by (simp_all add: topic_def)

lemma topic_run_append: "topic_run st (xs @ ys) = (case topic_run st xs of None \<Rightarrow> None | Some st' \<Rightarrow> topic_run st' ys)"
  by (induction xs arbitrary: st) (simp_all split: option.splits)

definition topic_state :: "legosensor_class_e \<Rightarrow> hub \<Rightarrow> (int \<times> 32 word) option" where
  "topic_state c s =
     (let b = bound_port (hub_class s c) in if b < 0 then None else Some (b, sp_seq (hub_port s (nat b))))"

text \<open>What the topics depend on in the state of a port.\<close>

definition port_same :: "legosensor_port_s \<Rightarrow> legosensor_port_s \<Rightarrow> bool" where
  "port_same q q' \<longleftrightarrow> sp_port q' = sp_port q \<and> sp_synced q' = sp_synced q \<and> sp_type_id q' = sp_type_id q \<and>
     sp_seq q' = sp_seq q \<and> sp_latest q' = sp_latest q \<and> sp_latest_valid q' = sp_latest_valid q"

text \<open>
  What a step must do: keep the invariant, publish what the contract of every topic allows, and keep the
  stored newest sample of a bound port equal to the last one published.
\<close>

definition latest_step :: "hub \<Rightarrow> event list \<Rightarrow> hub \<Rightarrow> bool" where
  "latest_step s out s' \<longleftrightarrow>
     (\<forall>c p. bound_port (hub_class s' c) = int p \<longrightarrow> sp_latest_valid (hub_port s' p) \<longrightarrow>
        (if topic c out = [] then bound_port (hub_class s c) = int p \<and> sp_latest_valid (hub_port s p) \<and>
           sp_latest (hub_port s' p) = sp_latest (hub_port s p)
         else last (topic c out) = sp_latest (hub_port s' p)))"

definition good_step :: "(nat \<Rightarrow> bool) \<Rightarrow> hub \<Rightarrow> event list \<Rightarrow> (nat \<Rightarrow> bool) \<Rightarrow> hub \<Rightarrow> bool" where
  "good_step opened s out opened' s' \<longleftrightarrow> hub_ok opened' s' \<and>
     (\<forall>c. topic_run (topic_state c s) (topic c out) = Some (topic_state c s')) \<and> latest_step s out s'"

lemma quiet_step:
  assumes "hub_ok opened s" "\<And>c. bound_port (hub_class s' c) = bound_port (hub_class s c)"
    "\<And>p. port_same (hub_port s p) (hub_port s' p)" "engines_ok (hub_lump s')"
  shows "good_step opened s [] opened s'"
proof -
  note f = assms(3) [unfolded port_same_def]
  have "port_fine opened q (hub_port s' q) = port_fine opened q (hub_port s q)" for q using f [of q] by (simp add: port_fine_def)
  then have "hub_ok opened s'" using assms(1,2,4) by (simp add: hub_ok_def)
  moreover have "topic_state c s' = topic_state c s" for c using f assms(2) by (simp add: topic_state_def Let_def)
  moreover have "latest_step s [] s'" using f assms(2) by (simp add: latest_step_def)
  ultimately show ?thesis by (simp add: good_step_def)
qed

lemma refl_step: "hub_ok opened s \<Longrightarrow> good_step opened s [] opened s"
  by (rule quiet_step) (simp_all add: port_same_def hub_ok_def)

section \<open>Callbacks\<close>

lemma announced_type: "announced i \<Longrightarrow> di_type_id i \<noteq> 0"
  by (auto simp: announced_def LUMP_TYPE_ID_MIN_def)

lemma classify_fits: "legosensor_classify t p = Some c \<Longrightarrow> fits c p"
  by (auto simp: legosensor_classify_def fits_def split: if_splits)

lemma unopened_unbound:
  assumes "hub_ok opened s" "\<not> opened p"
  shows "bound_port (hub_class s c) \<noteq> int p"
proof
  assume b: "bound_port (hub_class s c) = int p"
  have "bound_port (hub_class s c) = - 1 \<or> (\<exists>q < 6. bound_port (hub_class s c) = int q \<and> opened q \<and> fits c q)"
    using assms(1) by (simp add: hub_ok_def bound_ok_def)
  then show False using b assms(2) by auto
qed

lemma topic_state_cong:
  "bound_port (hub_class s' c) = bound_port (hub_class s c) \<Longrightarrow>
   (\<And>p. bound_port (hub_class s c) = int p \<Longrightarrow> sp_seq (hub_port s' p) = sp_seq (hub_port s p)) \<Longrightarrow>
   topic_state c s' = topic_state c s"
  by (auto simp: topic_state_def Let_def)


lemma topic_state_other:
  assumes "bound_port (hub_class s' c) = bound_port (hub_class s c)" "bound_port (hub_class s c) \<noteq> int p"
    "\<And>q. q \<noteq> p \<Longrightarrow> hub_port s' q = hub_port s q"
  shows "topic_state c s' = topic_state c s"
proof (rule topic_state_cong [OF assms(1)])
  fix q assume "bound_port (hub_class s c) = int q"
  then have "q \<noteq> p" using assms(2) by auto
  then show "sp_seq (hub_port s' q) = sp_seq (hub_port s q)" using assms(3) by simp
qed

lemma bound_ok_opened:
  assumes "bound_ok opened b" "\<And>q c. b c = int q \<Longrightarrow> opened q \<Longrightarrow> opened' q"
  shows "bound_ok opened' b"
proof -
  have "b c = - 1 \<or> (\<exists>p < 6. b c = int p \<and> opened' p \<and> fits c p)" for c
  proof -
    have "b c = - 1 \<or> (\<exists>p < 6. b c = int p \<and> opened p \<and> fits c p)" using assms(1) by (simp add: bound_ok_def)
    then show ?thesis using assms(2) by auto
  qed
  then show ?thesis using assms(1) by (simp add: bound_ok_def)
qed

lemma hub_okD:
  assumes "hub_ok opened s"
  shows "bound_port (hub_class s c) = - 1 \<or> (\<exists>q < 6. bound_port (hub_class s c) = int q \<and> opened q \<and> fits c q)"
    "bound_port (hub_class s c) = bound_port (hub_class s d) \<Longrightarrow> 0 \<le> bound_port (hub_class s c) \<Longrightarrow> c = d"
    "q < 6 \<Longrightarrow> sp_port (hub_port s q) = q" "q < 6 \<Longrightarrow> opened q \<Longrightarrow> sp_synced (hub_port s q) \<and> sp_type_id (hub_port s q) \<noteq> 0"
    "engines_ok (hub_lump s)"
  using assms unfolding hub_ok_def bound_ok_def port_fine_def by blast+

text \<open>The first half of the synchronisation: the port is ready, the topics have not moved.\<close>

lemma sync_port_ready:
  assumes "hub_ok opened s" "p < 6" "\<not> opened p" "announced i" "on_sync_port p i s = (cls, s1)"
  shows "hub_ok (opened(p := True)) s1" "cls = legosensor_classify (di_type_id i) p" "hub_class s1 = hub_class s"
    "\<And>c. topic_state c s1 = topic_state c s" "\<And>c. bound_port (hub_class s c) \<noteq> int p" "hub_lump s1 = hub_lump s"
    "sp_type_id (hub_port s1 p) \<noteq> 0" "\<not> sp_latest_valid (hub_port s1 p)" "\<And>q. q \<noteq> p \<Longrightarrow> hub_port s1 q = hub_port s q"
proof -
  have s1: "cls = legosensor_classify (di_type_id i) p" "hub_class s1 = hub_class s" "hub_lump s1 = hub_lump s"
    "\<And>q. q \<noteq> p \<Longrightarrow> hub_port s1 q = hub_port s q" "sp_type_id (hub_port s1 p) = di_type_id i" "sp_synced (hub_port s1 p)"
    "sp_port (hub_port s1 p) = sp_port (hub_port s p)" "\<not> sp_latest_valid (hub_port s1 p)"
    using assms(5) by (auto simp: on_sync_port_def Let_def bump_def)
  show n: "bound_port (hub_class s c) \<noteq> int p" for c using unopened_unbound [OF assms(1,3)] .
  show "cls = legosensor_classify (di_type_id i) p" "hub_class s1 = hub_class s" "hub_lump s1 = hub_lump s" "\<not> sp_latest_valid (hub_port s1 p)"
    "\<And>q. q \<noteq> p \<Longrightarrow> hub_port s1 q = hub_port s q"
    using s1 by simp_all
  show t: "sp_type_id (hub_port s1 p) \<noteq> 0" using s1(5) announced_type [OF assms(4)] by simp
  show "topic_state c s1 = topic_state c s" for c
    using topic_state_other [of s1 c s p] s1(2,4) n by simp
  have "bound_ok (opened(p := True)) (\<lambda>c. bound_port (hub_class s c))"
    by (rule bound_ok_opened [of opened]) (use assms(1) in \<open>auto simp: hub_ok_def\<close>)
  moreover have "port_fine (opened(p := True)) q (hub_port s1 q)" if "q < 6" for q
    using hub_okD(3,4) [OF assms(1) that] s1 t by (cases "q = p") (auto simp: port_fine_def)
  ultimately show "hub_ok (opened(p := True)) s1"
    using hub_okD(5) [OF assms(1)] s1(2,3) by (simp add: hub_ok_def)
qed

lemma bind_ok:
  assumes "hub_ok opened s" "p < 6" "opened p" "fits c p" "\<And>d. bound_port (hub_class s d) \<noteq> int p"
  shows "hub_ok opened (upd_class c (\<lambda>cs. cs\<lparr>bound_port := int p, bind_generation := g cs\<rparr>) s)"
proof -
  let ?b = "\<lambda>d. if d = c then int p else bound_port (hub_class s d)"
  have "?b d = - 1 \<or> (\<exists>q < 6. ?b d = int q \<and> opened q \<and> fits d q)" for d
    using hub_okD(1) [OF assms(1), of d] assms(2-4) by auto
  moreover have "d = e" if "?b d = ?b e" "0 \<le> ?b d" for d e
    using that hub_okD(2) [OF assms(1), of d e] assms(5) by (auto split: if_splits)
  ultimately have "bound_ok opened ?b" unfolding bound_ok_def by blast
  moreover have "(\<lambda>d. bound_port (((hub_class s)(c := (hub_class s c)\<lparr>bound_port := int p, bind_generation := g (hub_class s c)\<rparr>)) d)) = ?b"
    by auto
  ultimately show ?thesis
    using assms(1) by (simp add: hub_ok_def)
qed

lemma sync_good:
  assumes "hub_ok opened s" "p < 6" "\<not> opened p" "announced i" "legosensor_on_sync ts1 ts2 p i s = (out, s')"
  shows "good_step opened s out (opened(p := True)) s'"
proof -
  obtain cls s1 where 1: "on_sync_port p i s = (cls, s1)" by (metis prod.exhaust)
  note r = sync_port_ready [OF assms(1-4) 1]
  have lift: "good_step opened s out (opened(p := True)) s'" if "good_step (opened(p := True)) s1 out (opened(p := True)) s'"
  proof -
    have "latest_step s1 out s'" using that by (simp add: good_step_def)
    moreover have "sp_latest_valid (hub_port s1 j) = sp_latest_valid (hub_port s j) \<and> sp_latest (hub_port s1 j) = sp_latest (hub_port s j)"
      if "bound_port (hub_class s e) = int j" for e j
    proof -
      have "j \<noteq> p" using r(5) [of e] that by auto
      then show ?thesis using r(9) by simp
    qed
    ultimately have "latest_step s out s'" using r(3) by (simp add: latest_step_def split: if_splits) metis
    then show ?thesis using that r(4) by (simp add: good_step_def)
  qed
  show ?thesis
  proof (cases cls)
    case None
    have "out = []" "s' = upd_port p (\<lambda>q. q\<lparr>sp_classify_warned := True\<rparr>) s1"
      using assms(5) unfolding legosensor_on_sync_def 1 by (auto simp: None)
    then have "good_step (opened(p := True)) s1 out (opened(p := True)) s'"
      using quiet_step [OF r(1), of s'] hub_okD(5) [OF r(1)] by (simp add: port_same_def)
    then show ?thesis by (rule lift)
  next
    case (Some c)
    have f: "fits c p" using classify_fits r(2) Some by metis
    let ?s2 = "upd_class c (\<lambda>cs. cs\<lparr>bound_port := int p, bind_generation := bind_generation cs + 1\<rparr>) s1"
    have n: "bound_port (hub_class s1 d) \<noteq> int p" for d using r(3,5) by simp
    have ok2: "hub_ok (opened(p := True)) ?s2"
      by (rule bind_ok [OF r(1) assms(2) _ f n]) simp
    have port: "sp_port (hub_port s1 p) = p" using hub_okD(3) [OF r(1) assms(2)] .
    have other: "d \<noteq> c \<Longrightarrow> topic_state d ?s2 = topic_state d s1" for d by (rule topic_state_cong) simp_all
    have mine: "topic_state c ?s2 = Some (int p, sp_seq (hub_port s1 p))" by (simp add: topic_state_def)
    note d = assms(5) [unfolded legosensor_on_sync_def 1 prod.case Some option.case]
    consider (fresh) "bound_port (hub_class s1 c) < 0" | (moved) "bound_port (hub_class s1 c) > int p"
      | (lost) "0 \<le> bound_port (hub_class s1 c)" "\<not> bound_port (hub_class s1 c) > int p" by linarith
    then have "good_step (opened(p := True)) s1 out (opened(p := True)) s'"
    proof cases
      case fresh
      have t: "legosensor_try_bind p (Some c) s1 = (BIND_OUTCOME_BOUND_FRESH, - 1, ?s2)"
        using fresh by (simp add: legosensor_try_bind_def Let_def)
      have o: "out = [(c, legosensor_build_envelope ts2 (hub_port s1 p) (sp_mode_id (hub_port s1 p)) [])]" "s' = ?s2"
        using d unfolding t by (auto simp: on_sync_publish_def)
      have "topic_state c s1 = None" using fresh by (simp add: topic_state_def)
      moreover have "latest_step s1 out s'" using r(8) by (auto simp: latest_step_def o)
      ultimately show ?thesis
        using ok2 other mine r(7) port by (auto simp: good_step_def o topic_next_def Let_def unsigned_eq_0_iff)
    next
      case moved
      obtain q where q: "q < 6" "bound_port (hub_class s1 c) = int q" "q \<noteq> p"
        using hub_okD(1) [OF r(1), of c] moved by auto
      have t: "legosensor_try_bind p (Some c) s1 = (BIND_OUTCOME_BOUND_DISPLACED, int q, ?s2)"
        using moved q(2) by (simp add: legosensor_try_bind_def Let_def)
      let ?s3 = "upd_port q bump ?s2"
      have o: "out = [(c, fst (legosensor_build_disconnect_locked ts1 (hub_port s1 q))),
          (c, legosensor_build_envelope ts2 (hub_port s1 p) (sp_mode_id (hub_port s1 p)) [])]" "s' = ?s3"
        using d q unfolding t by (auto simp: on_sync_publish_def legosensor_build_disconnect_locked_def Let_def upd_port_def)
      have ok3: "hub_ok (opened(p := True)) ?s3"
        using ok2 by (auto simp: hub_ok_def port_fine_def bump_def)
      have bq: "\<And>e. e \<noteq> c \<Longrightarrow> bound_port (hub_class s1 e) \<noteq> int q"
        using hub_okD(2) [OF r(1)] q(2) by (metis of_nat_0_le_iff)
      have other3: "e \<noteq> c \<Longrightarrow> topic_state e ?s3 = topic_state e s1" for e
        using bq by (intro topic_state_cong) auto
      have mine3: "topic_state c ?s3 = Some (int p, sp_seq (hub_port s1 p))" using q by (simp add: topic_state_def)
      have st: "topic_state c s1 = Some (int q, sp_seq (hub_port s1 q))" using q by (simp add: topic_state_def)
      have "latest_step s1 out s'" using r(8) bq q(3) by (auto simp: latest_step_def o bump_def)
      then show ?thesis
        using ok3 other3 mine3 r(7) port st hub_okD(3) [OF r(1) q(1)]
        by (auto simp: good_step_def o topic_next_def Let_def unsigned_eq_0_iff legosensor_build_disconnect_locked_def bump_def zero_sample_def)
    next
      case lost
      have t: "legosensor_try_bind p (Some c) s1 = (BIND_OUTCOME_LOSS, - 1, s1)"
        using lost by (simp add: legosensor_try_bind_def Let_def)
      have "out = []" "s' = s1" using d unfolding t by (auto simp: on_sync_publish_def)
      then show ?thesis using refl_step [OF r(1)] by simp
    qed
    then show ?thesis by (rule lift)
  qed
qed


text \<open>Hydration touches only its port, and only to advance it.\<close>

lemma hydrate_good:
  assumes "hub_ok opened s" "p < 6" "on_data_hydrate ts p s = (x, s1)"
  shows "hub_ok opened s1" "hub_class s1 = hub_class s" "hub_lump s1 = hub_lump s" "\<And>q. q \<noteq> p \<Longrightarrow> hub_port s1 q = hub_port s q"
    "sp_port (hub_port s1 p) = p"
    "case x of None \<Rightarrow> sp_seq (hub_port s1 p) = sp_seq (hub_port s p)
     | Some y \<Rightarrow> sp_seq (hub_port s1 p) = sp_seq (hub_port s p) + 1 \<and> ls_port y = int p \<and> ls_len y = 0 \<and>
         ls_type_id y \<noteq> 0 \<and> ls_seq y = uint (sp_seq (hub_port s1 p))"
proof -
  note h = hub_okD [OF assms(1)]
  have info: "di_type_id i \<noteq> 0" if "lump_get_info (int p) (hub_lump s) = (r, Some i)" for r i
  proof -
    have e: "hub_lump s ! p \<in> set (hub_lump s)" using h(5) assms(2) by (simp add: engines_ok_def)
    have "lump_synced (hub_lump s ! p)" "i = le_info (hub_lump s ! p)"
      using that by (auto simp: lump_get_info_def split: if_splits)
    then have "LUMP_TYPE_ID_MIN \<le> di_type_id i" using h(5) e by (auto simp: engines_ok_def list_all_iff)
    then show ?thesis by (auto simp: LUMP_TYPE_ID_MIN_def)
  qed
  obtain r oi where g: "lump_get_info (int p) (hub_lump s) = (r, oi)" by (metis prod.exhaust)
  have c: "hub_class s1 = hub_class s \<and> hub_lump s1 = hub_lump s \<and> (\<forall>q. q \<noteq> p \<longrightarrow> hub_port s1 q = hub_port s q) \<and> sp_port (hub_port s1 p) = sp_port (hub_port s p) \<and>
      (sp_synced (hub_port s p) \<longrightarrow> sp_synced (hub_port s1 p)) \<and>
      (sp_type_id (hub_port s p) \<noteq> 0 \<longrightarrow> sp_type_id (hub_port s1 p) \<noteq> 0) \<and>
      (case x of None \<Rightarrow> sp_seq (hub_port s1 p) = sp_seq (hub_port s p)
       | Some y \<Rightarrow> sp_seq (hub_port s1 p) = sp_seq (hub_port s p) + 1 \<and> ls_port y = int (sp_port (hub_port s p)) \<and> ls_len y = 0 \<and>
           ls_type_id y \<noteq> 0 \<and> ls_seq y = uint (sp_seq (hub_port s1 p)))"
  proof (cases oi)
    case None
    then show ?thesis using assms(3) g by (auto simp: on_data_hydrate_def Let_def split: if_splits)
  next
    case (Some i)
    then show ?thesis using assms(3) g info [of r i]
      by (auto simp: on_data_hydrate_def Let_def bump_def unsigned_eq_0_iff split: if_splits)
  qed
  then show "hub_class s1 = hub_class s" "hub_lump s1 = hub_lump s" "\<And>q. q \<noteq> p \<Longrightarrow> hub_port s1 q = hub_port s q"
    "sp_port (hub_port s1 p) = p" using h(3) [OF assms(2)] by auto
  show "case x of None \<Rightarrow> sp_seq (hub_port s1 p) = sp_seq (hub_port s p)
     | Some y \<Rightarrow> sp_seq (hub_port s1 p) = sp_seq (hub_port s p) + 1 \<and> ls_port y = int p \<and> ls_len y = 0 \<and>
         ls_type_id y \<noteq> 0 \<and> ls_seq y = uint (sp_seq (hub_port s1 p))"
    using c h(3) [OF assms(2)] by (auto split: option.splits)
  have "port_fine opened q (hub_port s1 q)" if "q < 6" for q
    using h(3,4) [OF that] c by (cases "q = p") (auto simp: port_fine_def)
  then show "hub_ok opened s1" using assms(1) c by (simp add: hub_ok_def)
qed

lemma confirm_frame [simp]:
  "sp_port (confirm_select now m q) = sp_port q" "sp_seq (confirm_select now m q) = sp_seq q"
  "sp_synced (confirm_select now m q) = sp_synced q" "sp_type_id (confirm_select now m q) = sp_type_id q"
  by (simp_all add: confirm_select_def)

lemma commit_good:
  assumes "hub_ok opened s" "p < 6" "on_data_commit now ts p m d s = (x, s1)"
  shows "hub_ok opened s1" "hub_class s1 = hub_class s" "\<And>q. q \<noteq> p \<Longrightarrow> hub_port s1 q = hub_port s q"
    "sp_seq (hub_port s1 p) = sp_seq (hub_port s p) + 1" "ls_port x = int p" "ls_seq x = uint (sp_seq (hub_port s1 p))"
    "ls_type_id x = uint (sp_type_id (hub_port s p))" "sp_latest (hub_port s1 p) = x" "sp_latest_valid (hub_port s1 p)"
proof -
  note h = hub_okD [OF assms(1)]
  have c: "hub_class s1 = hub_class s \<and> hub_lump s1 = hub_lump s \<and> (\<forall>q. q \<noteq> p \<longrightarrow> hub_port s1 q = hub_port s q) \<and>
      sp_port (hub_port s1 p) = sp_port (hub_port s p) \<and> sp_synced (hub_port s1 p) = sp_synced (hub_port s p) \<and>
      sp_type_id (hub_port s1 p) = sp_type_id (hub_port s p) \<and> sp_seq (hub_port s1 p) = sp_seq (hub_port s p) + 1 \<and>
      ls_port x = int (sp_port (hub_port s p)) \<and> ls_seq x = uint (sp_seq (hub_port s1 p)) \<and>
      ls_type_id x = uint (sp_type_id (hub_port s p)) \<and> sp_latest (hub_port s1 p) = x \<and> sp_latest_valid (hub_port s1 p)"
    using assms(3) by (auto simp: on_data_commit_def Let_def)
  then show "hub_class s1 = hub_class s" "\<And>q. q \<noteq> p \<Longrightarrow> hub_port s1 q = hub_port s q"
    "sp_seq (hub_port s1 p) = sp_seq (hub_port s p) + 1" "ls_port x = int p" "ls_seq x = uint (sp_seq (hub_port s1 p))"
    "ls_type_id x = uint (sp_type_id (hub_port s p))" "sp_latest (hub_port s1 p) = x" "sp_latest_valid (hub_port s1 p)"
    using h(3) [OF assms(2)] by auto
  have "port_fine opened q (hub_port s1 q)" if "q < 6" for q
    using h(3,4) [OF that] c by (cases "q = p") (auto simp: port_fine_def)
  then show "hub_ok opened s1" using assms(1) c by (simp add: hub_ok_def)
qed

text \<open>The port is open whenever the data of a bound port arrive.\<close>

lemma bound_open: "hub_ok opened s \<Longrightarrow> bound_port (hub_class s c) = int p \<Longrightarrow> opened p"
  using hub_okD(1) [of opened s c] by auto

lemma data_good:
  assumes "hub_ok opened s" "p < 6" "legosensor_on_data ts0 now ts p m d s = (out, s')"
  shows "good_step opened s out opened s'"
proof -
  obtain x s1 where 1: "on_data_hydrate ts0 p s = (x, s1)" by (metis prod.exhaust)
  note h = hydrate_good [OF assms(1,2) 1]
  note d = assms(3) [unfolded legosensor_on_data_def 1 prod.case]
  show ?thesis
  proof (cases "legosensor_class_of p s1")
    case None
    then have "out = []" "s' = s1" using d by auto
    moreover have "topic_state c s1 = topic_state c s" for c
      using topic_state_other [of s1 c s p] None [unfolded class_of_None] h(2,4) by simp
    moreover have "latest_step s [] s1"
    proof -
      have "j \<noteq> p" if "bound_port (hub_class s e) = int j" for e j
        using None [unfolded class_of_None] h(2) that by auto
      then show ?thesis using h(2,4) by (auto simp: latest_step_def)
    qed
    ultimately show ?thesis using h(1) by (simp add: good_step_def)
  next
    case (Some c)
    have b: "bound_port (hub_class s1 c) = int p" using class_of_Some [OF Some] .
    obtain y s2 where 2: "on_data_commit now ts p m d s1 = (y, s2)" by (metis prod.exhaust)
    note k = commit_good [OF h(1) assms(2) 2]
    have o: "out = (case x of None \<Rightarrow> [] | Some z \<Rightarrow> [(c, z)]) @ [(c, y)]" "s' = s2" using d Some 2 by auto
    have t: "ls_type_id y \<noteq> 0"
      using hub_okD(4) [OF h(1) assms(2) bound_open [OF h(1) b]] k(7) by (simp add: unsigned_eq_0_iff)
    have other: "topic_state e s2 = topic_state e s" if "e \<noteq> c" for e
    proof (rule topic_state_other)
      show "bound_port (hub_class s2 e) = bound_port (hub_class s e)" using k(2) h(2) by simp
      show "bound_port (hub_class s e) \<noteq> int p" using hub_okD(2) [OF h(1), of c e] b h(2) that by auto
      show "hub_port s2 q = hub_port s q" if "q \<noteq> p" for q using k(3) h(4) that by simp
    qed
    have st: "topic_state c s = Some (int p, sp_seq (hub_port s p))" "topic_state c s2 = Some (int p, sp_seq (hub_port s2 p))"
      using b h(2) k(2) by (simp_all add: topic_state_def)
    have last: "topic_next (Some (int p, sp_seq (hub_port s1 p))) y = Some (Some (int p, sp_seq (hub_port s2 p)))"
      using t k(4-6) by (simp add: topic_next_def Let_def)
    have "topic_run (topic_state c s) (topic c out) = Some (topic_state c s2)"
    proof (cases x)
      case None
      then show ?thesis using h(6) o st last by simp
    next
      case (Some z)
      then have "topic_next (topic_state c s) z = Some (Some (int p, sp_seq (hub_port s1 p)))"
        using h(6) st by (simp add: topic_next_def Let_def)
      then show ?thesis using Some o st last by simp
    qed
    moreover have "topic e out = []" if "e \<noteq> c" for e using o that by (auto split: option.splits)
    ultimately have t: "topic_run (topic_state e s) (topic e out) = Some (topic_state e s2)" for e
      using other by (cases "e = c") simp_all
    have "latest_step s out s2"
      unfolding latest_step_def
    proof (intro allI impI)
      fix e j assume j: "bound_port (hub_class s2 e) = int j" "sp_latest_valid (hub_port s2 j)"
      show "if topic e out = [] then bound_port (hub_class s e) = int j \<and> sp_latest_valid (hub_port s j) \<and>
          sp_latest (hub_port s2 j) = sp_latest (hub_port s j) else last (topic e out) = sp_latest (hub_port s2 j)"
      proof (cases "e = c")
        case True
        then have "j = p" using j(1) k(2) b by simp
        then show ?thesis using True o(1) k(8) by (auto split: option.splits)
      next
        case False
        have "topic e out = []" using o(1) False by (auto split: option.splits)
        moreover have "j \<noteq> p" using hub_okD(2) [OF h(1), of c e] b j(1) k(2) False by auto
        ultimately show ?thesis using j k(2,3) h(2,4) by simp
      qed
    qed
    then show ?thesis using t k(1) o(2) by (simp add: good_step_def)
  qed
qed

lemma unbind_cases:
  obtains "legosensor_unbind p s = (None, s)" "\<And>c. bound_port (hub_class s c) \<noteq> int p"
  | c where "legosensor_unbind p s = (Some c, upd_class c (\<lambda>cs. cs\<lparr>bound_port := - 1, bind_generation := bind_generation cs + 1\<rparr>) s)"
      "bound_port (hub_class s c) = int p"
proof (cases "legosensor_class_of p s")
  case None
  then have "legosensor_unbind p s = (None, s)" by (simp add: legosensor_unbind_def flip: legosensor_class_of_def)
  then show ?thesis using that(1) None [unfolded class_of_None] by blast
next
  case (Some c)
  then have "legosensor_unbind p s = (Some c, upd_class c (\<lambda>cs. cs\<lparr>bound_port := - 1, bind_generation := bind_generation cs + 1\<rparr>) s)"
    by (simp add: legosensor_unbind_def flip: legosensor_class_of_def)
  then show ?thesis using that(2) class_of_Some [OF Some] by blast
qed

lemma error_good:
  assumes "hub_ok opened s" "p < 6" "legosensor_on_error ts p s = (out, s')"
  shows "good_step opened s out (opened(p := False)) s'"
proof -
  note h = hub_okD [OF assms(1)]
  obtain cls s1 where 1: "legosensor_unbind p s = (cls, s1)" by (metis prod.exhaust)
  note d = assms(3) [unfolded legosensor_on_error_def 1 prod.case Let_def, simplified]
  have p1: "hub_port s1 = hub_port s" "hub_lump s1 = hub_lump s" using 1 by (rule_tac [!] unbind_cases [of p s]) auto
  have f: "hub_class s' = hub_class s1" "hub_lump s' = hub_lump s" "\<And>q. q \<noteq> p \<Longrightarrow> hub_port s' q = hub_port s q"
    "sp_port (hub_port s' p) = p" "sp_seq (hub_port s' p) = sp_seq (hub_port s p) + 1"
    using d p1 h(3) [OF assms(2)] by (auto simp: bump_def)
  have fine: "port_fine (opened(p := False)) q (hub_port s' q)" if "q < 6" for q
    using h(3,4) [OF that] f(3,4) by (cases "q = p") (auto simp: port_fine_def)
  show ?thesis
  proof (rule unbind_cases [of p s])
    assume u: "legosensor_unbind p s = (None, s)" and n: "\<And>c. bound_port (hub_class s c) \<noteq> int p"
    have c: "hub_class s' = hub_class s" "out = []" using u 1 d f(1) by auto
    have "bound_ok (opened(p := False)) (\<lambda>c. bound_port (hub_class s c))"
      by (rule bound_ok_opened [of opened]) (use assms(1) n in \<open>auto simp: hub_ok_def\<close>)
    moreover have "topic_state c s' = topic_state c s" for c
      using topic_state_other [of s' c s p] c(1) n f(3) by simp
    moreover have "latest_step s [] s'"
    proof -
      have "j \<noteq> p" if "bound_port (hub_class s e) = int j" for e j using n [of e] that by auto
      then show ?thesis using c(1) f(3) by (auto simp: latest_step_def)
    qed
    ultimately show ?thesis using fine f(2) c h(5) by (simp add: good_step_def hub_ok_def)
  next
    fix c assume u: "legosensor_unbind p s = (Some c, upd_class c (\<lambda>cs. cs\<lparr>bound_port := - 1, bind_generation := bind_generation cs + 1\<rparr>) s)"
      and b: "bound_port (hub_class s c) = int p"
    have c: "\<And>e. bound_port (hub_class s' e) = (if e = c then - 1 else bound_port (hub_class s e))" using u 1 f(1) by auto
    have n: "bound_port (hub_class s e) \<noteq> int p" if "e \<noteq> c" for e using h(2) [of c e] b that by auto
    have "bound_ok (opened(p := False)) (\<lambda>e. bound_port (hub_class s' e))"
      unfolding bound_ok_def
    proof (intro conjI allI impI)
      fix e show "bound_port (hub_class s' e) = - 1 \<or> (\<exists>q < 6. bound_port (hub_class s' e) = int q \<and> (opened(p := False)) q \<and> fits e q)"
        using h(1) [of e] n [of e] c [of e] by (cases "e = c") auto
    next
      fix e e' assume "bound_port (hub_class s' e) = bound_port (hub_class s' e')" "0 \<le> bound_port (hub_class s' e)"
      then show "e = e'" using h(2) [of e e'] c by (auto split: if_splits)
    qed
    moreover have "topic_state e s' = topic_state e s" if "e \<noteq> c" for e
      using topic_state_other [of s' e s p] c n [OF that] that f(3) by simp
    moreover have "topic_state c s = Some (int p, sp_seq (hub_port s p))" "topic_state c s' = None"
      using b c by (simp_all add: topic_state_def)
    moreover obtain x where "out = [(c, x)]" "ls_port x = int p" "ls_seq x = uint (sp_seq (hub_port s' p))" "ls_type_id x = 0" "ls_len x = 0"
      using d u 1 p1 h(3) [OF assms(2)] by (auto simp: zero_sample_def bump_def)
    moreover have "latest_step s out s'"
    proof -
      have "hub_port s' j = hub_port s j \<and> e \<noteq> c \<and> bound_port (hub_class s e) = int j" if "bound_port (hub_class s' e) = int j" for e j
        using n [of e] c [of e] f(3) [of j] that by (auto split: if_splits)
      then show ?thesis using \<open>out = [(c, x)]\<close> by (auto simp: latest_step_def)
    qed
    ultimately show ?thesis
      using fine f(2,5) h(5) by (auto simp: good_step_def hub_ok_def topic_next_def Let_def)
  qed
qed

section \<open>Operations\<close>

lemma same_infos: "le_info y = le_info (g ! i) \<Longrightarrow> map le_info (g[i := y]) = map le_info g"
  by (cases "i < length g") (simp_all add: map_update list_update_same_conv list_update_beyond)

lemma engines_ok_cong:
  assumes "engines_ok g" "map le_info g' = map le_info g"
  shows "engines_ok g'"
proof -
  have e: "engines_ok g \<longleftrightarrow> length (map le_info g) = 6 \<and>
      list_all (\<lambda>i. di_flags i AND LUMP_FLAG_SYNCED \<noteq> 0 \<longrightarrow> LUMP_TYPE_ID_MIN \<le> di_type_id i) (map le_info g)" for g
    by (simp add: engines_ok_def lump_synced_def list_all_iff)
  show ?thesis using assms by (simp add: e)
qed

text \<open>Writes through the engine interface: the descriptions stay, and so do the other ports.\<close>

definition engine_write :: "int \<Rightarrow> lump_engine_s list \<Rightarrow> lump_engine_s list \<Rightarrow> bool" where
  "engine_write p g g' \<longleftrightarrow> map le_info g' = map le_info g \<and> (\<forall>j. int j \<noteq> p \<longrightarrow> g' ! j = g ! j)"

lemma select_writes: "lump_select_mode p m g = (r, g') \<Longrightarrow> engine_write p g g'"
  by (auto simp: lump_select_mode_def engine_write_def lump_port_ok_def Let_def same_infos split: if_splits)

lemma send_writes: "lump_send_data p m b g = (r, g') \<Longrightarrow> engine_write p g g'"
  by (auto simp: lump_send_data_def engine_write_def lump_port_ok_def Let_def same_infos split: if_splits)

lemma with_claim_cases:
  assumes "with_claim c f s k = (r, a, s')"
  obtains "s' = s" | p where "legosensor_check_write_claim (hub_class s c) f = (OK, int p)"
    "bound_port (hub_class s c) = int p" "k (int p) = (r, a, s')"
proof (cases "legosensor_check_write_claim (hub_class s c) f")
  case (Pair x q)
  show ?thesis
  proof (cases "x < 0")
    case True
    then show ?thesis using assms Pair that(1) by (simp add: with_claim_def)
  next
    case False
    then have x: "x = OK" and q: "bound_port (hub_class s c) = q" and "0 \<le> q"
      using Pair by (auto simp: legosensor_check_write_claim_def ENODEV_def EACCES_def OK_def split: if_splits)
    then have n: "int (nat q) = q" by simp
    have k: "k q = (r, a, s')" using assms [unfolded with_claim_def Pair prod.case if_not_P [OF False]] .
    show ?thesis by (rule that(2) [of "nat q", unfolded n, OF Pair [unfolded x] q k])
  qed
qed

text \<open>
  What an operation may do: the bindings stay, the ports stay as the topics see them, and if anything below
  changes, it is the port that is bound to the class, for the file that holds a current claim.
\<close>

definition touches :: "nat \<Rightarrow> legosensor_class_e \<Rightarrow> hub \<Rightarrow> hub \<Rightarrow> bool" where
  "touches p c s s' \<longleftrightarrow> engine_write (int p) (hub_lump s) (hub_lump s') \<and>
     (\<forall>j < 6. j \<noteq> p \<longrightarrow> view j (hub_pwm s') = view j (hub_pwm s)) \<and> (hub_pwm s' = hub_pwm s \<or> is_motor c)"

definition written :: "legosensor_class_e \<Rightarrow> filep \<Rightarrow> hub \<Rightarrow> hub \<Rightarrow> bool" where
  "written c f s s' \<longleftrightarrow> (\<forall>d. bound_port (hub_class s' d) = bound_port (hub_class s d) \<and>
       bind_generation (hub_class s' d) = bind_generation (hub_class s d)) \<and>
     (\<forall>q. port_same (hub_port s q) (hub_port s' q)) \<and>
     (hub_lump s' = hub_lump s \<and> hub_pwm s' = hub_pwm s \<or>
      (\<exists>p. legosensor_check_write_claim (hub_class s c) f = (OK, int p) \<and> touches p c s s'))"

lemma written_refl [simp]: "written c f s s"
  by (simp add: written_def port_same_def)

lemma user_view:
  assumes "final s (snd (pwm_user op s)) = t" "case op of User_Duty lk q d \<Rightarrow> q = int p | User_Coast lk q \<Rightarrow> q = int p
      | User_Brake lk q \<Rightarrow> q = int p | User_Close lk q \<Rightarrow> q = int p" "j < 6" "j \<noteq> p"
  shows "view j t = view j s"
proof -
  have w: "list_all (\<lambda>t. view j t = view j s) (snd (with_port lk (int p) body s))"
    if "\<And>i. i < 6 \<Longrightarrow> i \<noteq> j \<Longrightarrow> list_all (\<lambda>t. view j t = view j s) (snd (body i))" for lk body
    using that [of p] assms(4) by (auto simp: with_port_def pwm_consts)
  have k: "list_all (\<lambda>t. view j t = view j s) (hbridge_set_duty_internal i d s)"
    "list_all (\<lambda>t. view j t = view j s) (hbridge_apply_coast i s)"
    "list_all (\<lambda>t. view j t = view j s) (hbridge_apply_brake i s)" if "i < 6" "i \<noteq> j" for i d
    using local_keeps [OF _ assms(3)] set_duty_local [OF that(1)] bridge_runs_local(1,2) [OF that(1)] that(2) by (metis, metis, metis)
  have "list_all (\<lambda>t. view j t = view j s) (snd (pwm_user op s))"
  proof (cases op)
    case (User_Duty lk q d)
    have "list_all (\<lambda>t. view j t = view j s) (snd (with_port lk (int p) (\<lambda>i. if pw_pinned (g_devs s ! i) then (- EBUSY, [])
        else (OK, hbridge_set_duty_internal i d s)) s))"
      using k by (intro w) simp
    then show ?thesis using assms(2) by (simp add: User_Duty stm32_legoport_pwm_set_duty_def)
  qed (use k assms(2) in \<open>auto simp: stm32_legoport_pwm_coast_def stm32_legoport_pwm_brake_def
        stm32_legoport_pwm_close_cleanup_def intro!: w\<close>)
  then show ?thesis using final_view assms(1) by blast
qed

lemma drive_written:
  assumes "drive_bridge (pwm_user op) s = (r, a, s')" "legosensor_check_write_claim (hub_class s c) f = (OK, int p)" "is_motor c"
    "case op of User_Duty lk q d \<Rightarrow> q = int p | User_Coast lk q \<Rightarrow> q = int p
      | User_Brake lk q \<Rightarrow> q = int p | User_Close lk q \<Rightarrow> q = int p"
  shows "written c f s s'"
proof -
  have s': "s' = s\<lparr>hub_pwm := final (hub_pwm s) (snd (pwm_user op (hub_pwm s)))\<rparr>"
    using assms(1) by (auto simp: drive_bridge_def split: prod.splits)
  have "touches p c s s'"
    using user_view [OF refl assms(4)] assms(3) by (simp add: touches_def s' engine_write_def)
  then show ?thesis using assms(2) by (auto simp: written_def s' port_same_def)
qed

lemma passive_written: "motor_passive lk e b c f s = (r, a, s') \<Longrightarrow> is_motor e \<Longrightarrow> written c f s s'"
proof -
  assume m: "motor_passive lk e b c f s = (r, a, s')" "is_motor e"
  show ?thesis
  proof (cases "c = e")
    case True
    have w: "with_claim c f s (\<lambda>port. drive_bridge (if b then stm32_legoport_pwm_brake lk port else stm32_legoport_pwm_coast lk port) s) = (r, a, s')"
      using m True by (simp add: motor_passive_def)
    show ?thesis
    proof (rule with_claim_cases [OF w])
      fix p assume p: "legosensor_check_write_claim (hub_class s c) f = (OK, int p)"
        "drive_bridge (if b then stm32_legoport_pwm_brake lk (int p) else stm32_legoport_pwm_coast lk (int p)) s = (r, a, s')"
      have o: "(if b then stm32_legoport_pwm_brake lk (int p) else stm32_legoport_pwm_coast lk (int p)) =
          pwm_user (if b then User_Brake lk (int p) else User_Coast lk (int p))" by (auto simp: fun_eq_iff)
      show ?thesis
        by (rule drive_written [OF p(2) [unfolded o] p(1)]) (use m(2) True in auto)
    qed simp
  qed (use m in \<open>simp add: motor_passive_def\<close>)
qed

lemma set_pwm_written: "set_pwm lk c f x s = (r, a, s') \<Longrightarrow> written c f s s'"
proof -
  assume m: "set_pwm lk c f x s = (r, a, s')"
  consider "s' = s" | "is_motor c" "with_claim c f s (\<lambda>port. drive_bridge (stm32_legoport_pwm_set_duty lk port (pa_channels x ! 0)) s) = (r, a, s')"
    | "with_claim c f s (\<lambda>port. (- ENOTSUP, No_Answer, s)) = (r, a, s')"
    using m by (auto simp: set_pwm_def split: if_splits)
  then show ?thesis
  proof cases
    case 2
    show ?thesis
    proof (rule with_claim_cases [OF 2(2)])
      fix p assume p: "legosensor_check_write_claim (hub_class s c) f = (OK, int p)"
        "drive_bridge (stm32_legoport_pwm_set_duty lk (int p) (pa_channels x ! 0)) s = (r, a, s')"
      have o: "stm32_legoport_pwm_set_duty lk (int p) (pa_channels x ! 0) = pwm_user (User_Duty lk (int p) (pa_channels x ! 0))"
        by (simp add: fun_eq_iff)
      show ?thesis by (rule drive_written [OF p(2) [unfolded o] p(1) 2(1)]) simp
    qed simp
  next
    case 3
    then show ?thesis by (rule with_claim_cases) auto
  qed simp
qed

lemma from_user_cases:
  assumes "from_user x s k = (r, a, s')"
  obtains "s' = s" | y where "k y = (r, a, s')"
  using assms by (cases x) (auto simp: from_user_def)

lemma engine_written:
  assumes "legosensor_check_write_claim (hub_class s c) f = (OK, int p)" "engine_write (int p) (hub_lump s) (hub_lump s')"
    "\<And>q. port_same (hub_port s q) (hub_port s' q)" "hub_class s' = hub_class s" "hub_pwm s' = hub_pwm s"
  shows "written c f s s'"
  using assms by (auto simp: written_def touches_def)

lemma select_written:
  assumes "legosensor_check_write_claim (hub_class s c) f = (OK, int p)" "select_port clk m (int p) s = (r, s')"
  shows "written c f s s'"
proof -
  obtain x g where g: "lump_select_mode (int p) m (hub_lump s) = (x, g)" by (metis prod.exhaust)
  let ?s1 = "upd_port p (\<lambda>q. q\<lparr>sp_pending_select_mode := m,
                 sp_pending_select_deadline := clk + MSEC2TICK LEGOSENSOR_PENDING_TIMEOUT_MS\<rparr>) s"
  have s': "s' = (if x < 0 then upd_port p (\<lambda>q. q\<lparr>sp_pending_select_mode := LEGOSENSOR_NO_PENDING\<rparr>) (?s1\<lparr>hub_lump := g\<rparr>)
      else ?s1\<lparr>hub_lump := g\<rparr>)"
    using assms(2) g unfolding select_port_def Let_def by (cases "x < 0") auto
  have "hub_lump s' = g" "hub_class s' = hub_class s" "hub_pwm s' = hub_pwm s" unfolding s' by simp_all
  moreover have "port_same (hub_port s q) (hub_port s' q)" for q unfolding s' by (simp add: port_same_def)
  ultimately show ?thesis using engine_written [OF assms(1)] select_writes [OF g] by simp
qed

lemma claims_written:
  "claim_class c f s = (r, s') \<Longrightarrow> written d f s s'" "release_class c f s = (r, s') \<Longrightarrow> written d f s s'"
  "legosensor_close c f s = (r, s') \<Longrightarrow> written d f s s'"
  by (auto simp: claim_class_def release_class_def legosensor_close_def Let_def written_def port_same_def split: if_splits)

lemma control_written:
  assumes "legosensor_control clk lk c f cmd s = (r, a, s')"
  shows "written c f s s'"
proof -
  note m = assms [unfolded legosensor_control_def Let_def]
  show ?thesis
  proof (cases cmd)
    case (LEGOSENSOR_SELECT x)
    show ?thesis
    proof (rule from_user_cases [OF m [unfolded LEGOSENSOR_SELECT legosensor_cmd.case]])
      fix y assume w: "with_claim c f s (\<lambda>port. case select_port clk y port s of (r, s') \<Rightarrow> (r, No_Answer, s')) = (r, a, s')"
      show ?thesis
        by (rule with_claim_cases [OF w]) (use select_written in \<open>auto split: prod.splits\<close>)
    qed simp
  next
    case (LEGOSENSOR_SEND x)
    show ?thesis
    proof (rule from_user_cases [OF m [unfolded LEGOSENSOR_SEND legosensor_cmd.case]])
      fix y assume w: "(if sa_len y = 0 \<or> unat (sa_len y) > LUMP_MAX_PAYLOAD then (- EINVAL, No_Answer, s)
          else with_claim c f s (\<lambda>port.
            case lump_send_data port (sa_mode y) (Buf (take (unat (sa_len y)) (sa_data y))) (hub_lump s) of (r, g) \<Rightarrow>
              (r, No_Answer, s\<lparr>hub_lump := g\<rparr>))) = (r, a, s')"
      show ?thesis
      proof (cases "sa_len y = 0 \<or> unat (sa_len y) > LUMP_MAX_PAYLOAD")
        case False
        show ?thesis
        proof (rule with_claim_cases [OF w [unfolded if_not_P [OF False]]])
          fix p assume p: "legosensor_check_write_claim (hub_class s c) f = (OK, int p)"
            "(case lump_send_data (int p) (sa_mode y) (Buf (take (unat (sa_len y)) (sa_data y))) (hub_lump s) of (r, g) \<Rightarrow>
              (r, No_Answer, s\<lparr>hub_lump := g\<rparr>)) = (r, a, s')"
          obtain q g where g: "lump_send_data (int p) (sa_mode y) (Buf (take (unat (sa_len y)) (sa_data y))) (hub_lump s) = (q, g)"
            by (metis prod.exhaust)
          have "s' = s\<lparr>hub_lump := g\<rparr>" using p(2) g by simp
          then show ?thesis using engine_written [OF p(1), of s'] send_writes [OF g] by (simp add: port_same_def)
        qed simp
      qed (use w in simp)
    qed simp
  next
    case (LEGOSENSOR_SET_PWM x)
    show ?thesis
      by (rule from_user_cases [OF m [unfolded LEGOSENSOR_SET_PWM legosensor_cmd.case]]) (auto dest: set_pwm_written)
  qed (use m claims_written passive_written in \<open>auto simp: is_motor_def from_user_def split: uarg.splits if_splits prod.splits\<close>)
qed


lemma written_good:
  assumes "hub_ok opened s" "written c f s s'"
  shows "good_step opened s [] opened s'"
proof -
  have w: "\<And>d. bound_port (hub_class s' d) = bound_port (hub_class s d)" "\<And>q. port_same (hub_port s q) (hub_port s' q)"
    "map le_info (hub_lump s') = map le_info (hub_lump s)"
    using assms(2) by (auto simp: written_def touches_def engine_write_def)
  show ?thesis
    using quiet_step [OF assms(1) w(1,2)] engines_ok_cong [OF hub_okD(5) [OF assms(1)] w(3)] .
qed

lemma hub_step_good:
  assumes "hub_ok opened s" "allowed ev opened = Some opened'" "hub_do ev s = (out, s')"
  shows "good_step opened s out opened' s'"
proof (cases ev)
  case (Ev_Sync ts1 ts2 p i)
  then show ?thesis using sync_good [OF assms(1)] assms(2,3) by (auto split: if_splits)
next
  case (Ev_Data ts0 now ts p mode data)
  then show ?thesis using data_good [OF assms(1)] assms(2,3) by (auto split: if_splits)
next
  case (Ev_Error ts p m)
  then show ?thesis using error_good [OF assms(1)] assms(2,3) by (auto split: if_splits)
next
  case (Ev_Ioctl clk lk c f cmd)
  obtain r a t where "legosensor_control clk lk c f cmd s = (r, a, t)" by (metis prod_cases3)
  then show ?thesis using Ev_Ioctl written_good [OF assms(1) control_written] assms(2,3) by simp
next
  case (Ev_Close c f)
  obtain r t where "legosensor_close c f s = (r, t)" by (metis prod.exhaust)
  then show ?thesis using Ev_Close written_good [OF assms(1) claims_written(3)] assms(2,3) by simp
next
  case (Ev_Engines g)
  then show ?thesis
    using quiet_step [OF assms(1), of "s\<lparr>hub_lump := g\<rparr>"] assms(2,3) by (auto simp: port_same_def split: if_splits)
next
  case (Ev_Bridge b)
  then show ?thesis
    using quiet_step [OF assms(1), of "s\<lparr>hub_pwm := b\<rparr>"] hub_okD(5) [OF assms(1)] assms(2,3) by (auto simp: port_same_def)
qed

section \<open>Start\<close>

lemma attach_fresh:
  assumes "p < 6" "length (hub_lump s) = 6" "\<not> lump_synced (hub_lump s ! p)" "\<not> cb_attached (hub_lump s ! p)"
    "\<not> in_callback (hub_lump s ! p)"
  shows "\<exists>s'. legosensor_attach_port ts1 ts2 p s = (OK, [], s') \<and> hub_class s' = hub_class s \<and> hub_pwm s' = hub_pwm s \<and>
    hub_port s' = (hub_port s)(p := (fresh_port p)\<lparr>sp_attached := True\<rparr>) \<and>
    map le_info (hub_lump s') = map le_info (hub_lump s) \<and> (\<forall>j. j \<noteq> p \<longrightarrow> hub_lump s' ! j = hub_lump s ! j)"
  using assms
  by (auto simp: legosensor_attach_port_def lump_attach_def lump_port_ok_def Let_def OK_def lump_synced_def same_infos fun_eq_iff)

lemma attach_all:
  assumes "distinct ps" "set ps \<subseteq> {..<6}" "length (hub_lump s) = 6"
    "list_all (\<lambda>p. \<not> lump_synced (hub_lump s ! p) \<and> \<not> cb_attached (hub_lump s ! p) \<and> \<not> in_callback (hub_lump s ! p)) ps"
  shows "\<exists>s'. attach_ports ts1 ts2 before ps s = (OK, [], s') \<and> hub_class s' = hub_class s \<and> hub_pwm s' = hub_pwm s \<and>
    (\<forall>p. hub_port s' p = (if p \<in> set ps then (fresh_port p)\<lparr>sp_attached := True\<rparr> else hub_port s p)) \<and>
    map le_info (hub_lump s') = map le_info (hub_lump s)"
  using assms
proof (induction ps arbitrary: before s)
  case (Cons p ps)
  obtain s1 where 1: "legosensor_attach_port ts1 ts2 p s = (OK, [], s1)" "hub_class s1 = hub_class s \<and> hub_pwm s1 = hub_pwm s"
    "hub_port s1 = (hub_port s)(p := (fresh_port p)\<lparr>sp_attached := True\<rparr>)"
    "map le_info (hub_lump s1) = map le_info (hub_lump s)" "\<And>j. j \<noteq> p \<Longrightarrow> hub_lump s1 ! j = hub_lump s ! j"
    using attach_fresh [of p s ts1 ts2] Cons.prems by auto
  have "length (hub_lump s1) = 6" using 1(4) Cons.prems(3) by (metis length_map)
  moreover have "list_all (\<lambda>p. \<not> lump_synced (hub_lump s1 ! p) \<and> \<not> cb_attached (hub_lump s1 ! p) \<and> \<not> in_callback (hub_lump s1 ! p)) ps"
    unfolding list_all_iff
  proof
    fix q assume "q \<in> set ps"
    moreover from this have "hub_lump s1 ! q = hub_lump s ! q" using Cons.prems(1) by (intro 1(5)) auto
    ultimately show "\<not> lump_synced (hub_lump s1 ! q) \<and> \<not> cb_attached (hub_lump s1 ! q) \<and> \<not> in_callback (hub_lump s1 ! q)"
      using Cons.prems(4) by (simp add: list_all_iff)
  qed
  ultimately obtain s2 where 2: "attach_ports ts1 ts2 (before @ [p]) ps s1 = (OK, [], s2)" "hub_class s2 = hub_class s1 \<and> hub_pwm s2 = hub_pwm s1"
    "\<forall>q. hub_port s2 q = (if q \<in> set ps then (fresh_port q)\<lparr>sp_attached := True\<rparr> else hub_port s1 q)"
    "map le_info (hub_lump s2) = map le_info (hub_lump s1)"
    using Cons.IH [of s1 "before @ [p]"] Cons.prems(1,2) by auto
  have "attach_ports ts1 ts2 before (p # ps) s = (OK, [], s2)" using 1(1) 2(1) by (simp add: OK_def)
  then show ?case using 1(2-4) 2(2-4) by auto
qed simp

lemma register_classes_keep:
  "register_classes before cs rc s = (r, s') \<Longrightarrow> hub_class s' = hub_class s \<and> hub_port s' = hub_port s \<and> hub_lump s' = hub_lump s"
proof (induction cs arbitrary: before s)
  case (Cons c cs)
  have "hub_class (fold legosensor_unregister_class xs t) = hub_class t \<and> hub_port (fold legosensor_unregister_class xs t) = hub_port t \<and>
      hub_lump (fold legosensor_unregister_class xs t) = hub_lump t" for xs t
    by (induction xs arbitrary: t) (simp_all add: legosensor_unregister_class_def)
  then show ?case using Cons by (auto split: if_splits)
qed simp

lemma boot_attaches:
  assumes "boot_hub s0" "hub_lump s1 = hub_lump s0"
  shows "\<exists>s2. attach_ports ts1 ts2 [] [0 ..< LEGOSENSOR_NUM_PORTS] s1 = (OK, [], s2) \<and> hub_class s2 = hub_class s1 \<and>
    hub_pwm s2 = hub_pwm s1 \<and> (\<forall>p < 6. hub_port s2 p = (fresh_port p)\<lparr>sp_attached := True\<rparr>) \<and> engines_ok (hub_lump s2)"
proof -
  have b: "length (hub_lump s1) = 6" "\<And>e. e \<in> set (hub_lump s1) \<Longrightarrow> \<not> lump_synced e \<and> \<not> cb_attached e \<and> \<not> in_callback e"
    using assms by (auto simp: boot_hub_def list_all_iff)
  have q: "list_all (\<lambda>p. \<not> lump_synced (hub_lump s1 ! p) \<and> \<not> cb_attached (hub_lump s1 ! p) \<and> \<not> in_callback (hub_lump s1 ! p))
      [0 ..< LEGOSENSOR_NUM_PORTS]"
    unfolding list_all_iff by (intro ballI b(2) nth_mem) (simp add: b(1) LEGOSENSOR_NUM_PORTS_def)
  have "engines_ok (hub_lump s1)" using b by (auto simp: engines_ok_def list_all_iff)
  then show ?thesis
    using attach_all [OF _ _ b(1) q, of ts1 ts2 "[]"] engines_ok_cong by (auto simp: LEGOSENSOR_NUM_PORTS_def atLeast0LessThan)
qed

lemma boot_good:
  assumes "boot_hub s0" "legosensor_uorb_register rc ts1 ts2 s0 = (OK, evs, s)"
  shows "evs = []" "hub_ok (\<lambda>_. False) s" "\<And>c. bound_port (hub_class s c) = - 1"
proof -
  obtain r s1 where 1: "register_classes [] all_classes rc (s0\<lparr>hub_class := (\<lambda>_. unbound_class)\<rparr>) = (r, s1)"
    by (metis prod.exhaust)
  note k = register_classes_keep [OF 1, simplified]
  have r: "\<not> r < 0" using assms(2) 1 by (auto simp: legosensor_uorb_register_def OK_def split: if_splits)
  obtain s2 where 2: "attach_ports ts1 ts2 [] [0 ..< LEGOSENSOR_NUM_PORTS] s1 = (OK, [], s2)" "hub_class s2 = hub_class s1"
    "\<forall>p < 6. hub_port s2 p = (fresh_port p)\<lparr>sp_attached := True\<rparr>" "engines_ok (hub_lump s2)"
    using boot_attaches [OF assms(1), of s1] k by blast
  have s: "evs = []" "s = s2" using assms(2) 1 r 2(1) by (auto simp: legosensor_uorb_register_def)
  show "evs = []" by (rule s(1))
  show u: "bound_port (hub_class s c) = - 1" for c using s(2) 2(2) k by (simp add: unbound_class_def)
  show "hub_ok (\<lambda>_. False) s"
    using u 2(3,4) s(2) by (simp add: hub_ok_def bound_ok_def port_fine_def fresh_port_def)
qed

lemma boot_registers:
  assumes "boot_hub s0"
  shows "\<exists>s. legosensor_uorb_register (\<lambda>_. OK) ts1 ts2 s0 = (OK, [], s) \<and> hub_pwm s = hub_pwm s0 \<and>
    hub_class s = (\<lambda>_. unbound_class) \<and> (\<forall>p < 6. hub_port s p = (fresh_port p)\<lparr>sp_attached := True\<rparr>)"
proof -
  let ?s0 = "s0\<lparr>hub_class := (\<lambda>_. unbound_class)\<rparr>"
  obtain s1 where 1: "register_classes [] all_classes (\<lambda>_. OK) ?s0 = (OK, s1)" "hub_pwm s1 = hub_pwm s0"
    by (simp add: all_classes_def OK_def)
  then show ?thesis
    using boot_attaches [OF assms, of s1 ts1 ts2] register_classes_keep [OF 1(1)]
    by (auto simp: legosensor_uorb_register_def OK_def)
qed

lemma run_good:
  assumes "hub_run opened tr s"
  shows "hub_ok opened s \<and> (\<forall>c. topic_run None (topic c tr) = Some (topic_state c s)) \<and>
    (\<forall>c p. bound_port (hub_class s c) = int p \<longrightarrow> sp_latest_valid (hub_port s p) \<longrightarrow>
       topic c tr \<noteq> [] \<and> last (topic c tr) = sp_latest (hub_port s p))"
  using assms
proof (induction rule: hub_run.induct)
  case (start s0 rc ts1 ts2 evs s)
  note b = boot_good [OF start]
  show ?case using b by (simp add: topic_state_def)
next
  case (step opened tr s ev opened' out s')
  have g: "good_step opened s out opened' s'" using hub_step_good [OF _ step.hyps(2,3)] step.IH by blast
  have t: "topic_run None (topic c (tr @ out)) = Some (topic_state c s')" for c
    using g step.IH by (simp add: good_step_def topic_run_append)
  have l: "topic c (tr @ out) \<noteq> [] \<and> last (topic c (tr @ out)) = sp_latest (hub_port s' p)"
    if "bound_port (hub_class s' c) = int p" "sp_latest_valid (hub_port s' p)" for c p
  proof (cases "topic c out = []")
    case True
    then show ?thesis using g that step.IH by (simp add: good_step_def latest_step_def)
  next
    case False
    then show ?thesis using g that by (simp add: good_step_def latest_step_def)
  qed
  show ?case using g t l by (simp add: good_step_def)
qed

end
