(* ===== verification/Legosensor_Service.thy ===== *)
theory Legosensor_Service
  imports Legosensor_Laws
begin

text \<open>
  What clients of the lego sensor topics (src/boards/spike-prime-hub/src/legosensor\_uorb.c) can rely on: bindings,
  the contract of the published streams, claims and writes, consistent reads under interleaving, what remains
  of a motor whose port is displaced, and the callback protocol of the port engines as the condition of it all.
\<close>

section \<open>What clients can rely on\<close>

text \<open>Two wheel motors and a hub on which the first one is already connected, for the witnesses.\<close>

definition motor_info :: lump_device_info_s where
  "motor_info = zero_info\<lparr>di_type_id := LPF2_TYPE_SPIKE_MEDIUM_MOTOR, di_num_modes := 1, di_flags := 1\<rparr>"

lemma motor_announced: "announced motor_info"
  by (simp add: announced_def motor_info_def info_ok_def mode_ok_def zero_info_def zero_mode_def LUMP_MAX_MODES_def
      LUMP_MAX_NAME_LEN_def LUMP_MAX_UNITS_LEN_def lpf2_types LUMP_TYPE_ID_MIN_def LUMP_TYPE_ID_MAX_def list_all_iff)

definition off_hub :: hub where
  "off_hub = \<lparr>hub_class = (\<lambda>_. unbound_class), hub_registered = (\<lambda>_. False), hub_port = fresh_port,
     hub_lump = map zero_engine [0 ..< 6], hub_pwm = demo_pwm\<rparr>"

definition idle_hub :: hub where
  "idle_hub = snd (snd (legosensor_uorb_register (\<lambda>_. OK) 0 0 off_hub))"

lemma idle_facts: "hub_run (\<lambda>_. False) [] idle_hub" "hub_pwm idle_hub = demo_pwm" "hub_class idle_hub = (\<lambda>_. unbound_class)"
proof -
  have b: "boot_hub off_hub"
    by (simp add: boot_hub_def off_hub_def list_all_iff zero_engine_def lump_synced_def zero_info_def)
  obtain s where e: "legosensor_uorb_register (\<lambda>_. OK) 0 0 off_hub = (OK, [], s)" "hub_pwm s = hub_pwm off_hub"
    "hub_class s = (\<lambda>_. unbound_class)"
    using boot_registers [OF b] by blast
  have i: "idle_hub = s" by (simp add: idle_hub_def e(1))
  show "hub_run (\<lambda>_. False) [] idle_hub" "hub_pwm idle_hub = demo_pwm" "hub_class idle_hub = (\<lambda>_. unbound_class)"
    using hub_run.start [OF b e(1)] e(2,3) by (simp_all add: i off_hub_def)
qed

definition wheel_hub :: hub where
  "wheel_hub = snd (legosensor_on_sync 1 2 2 motor_info idle_hub)"

lemma wheel_class:
  "hub_class wheel_hub = (hub_class idle_hub)(LEGOSENSOR_CLASS_MOTOR_R := unbound_class\<lparr>bound_port := 2, bind_generation := 1\<rparr>)"
  "hub_pwm wheel_hub = demo_pwm"
  by (simp_all add: wheel_hub_def legosensor_on_sync_def on_sync_port_def Let_def legosensor_classify_def motor_info_def lpf2_types
      legosensor_try_bind_def idle_facts unbound_class_def on_sync_publish_def)

lemma wheel_run: "\<exists>tr. hub_run ((\<lambda>_. False)(2 := True)) tr wheel_hub"
proof -
  obtain out s where e: "legosensor_on_sync 1 2 2 motor_info idle_hub = (out, s)" by (metis prod.exhaust)
  have "hub_run ((\<lambda>_. False)(2 := True)) ([] @ out) s"
    by (rule hub_run.step [OF idle_facts(1), of "Ev_Sync 1 2 2 motor_info"]) (simp_all add: motor_announced e)
  then show ?thesis using e by (auto simp: wheel_hub_def)
qed

lemma wheel_bound: "bound_port (hub_class wheel_hub LEGOSENSOR_CLASS_MOTOR_R) = 2"
  by (simp add: wheel_class)

text \<open>
  Fact. At any time every port serves at most one class, only a port whose device is connected serves one, right
  wheels sit on even and left wheels on odd ports, whatever callbacks and file operations happened before.
\<close>

theorem topic_binding_sound:
  assumes "hub_run opened tr s" "bound_port (hub_class s c) \<ge> 0"
  shows "\<exists>p < 6. bound_port (hub_class s c) = int p \<and> opened p \<and> sp_synced (hub_port s p) \<and>
    legosensor_class_of p s = Some c \<and> (c = LEGOSENSOR_CLASS_MOTOR_R \<longrightarrow> even p) \<and> (c = LEGOSENSOR_CLASS_MOTOR_L \<longrightarrow> odd p)"
proof -
  have ok: "hub_ok opened s" using run_good [OF assms(1)] by blast
  obtain p where p: "p < 6" "bound_port (hub_class s c) = int p" "opened p" "fits c p"
    using hub_okD(1) [OF ok, of c] assms(2) by auto
  have "legosensor_class_of p s = Some c"
  proof (cases "legosensor_class_of p s")
    case None
    then show ?thesis using p(2) by (simp add: class_of_None)
  next
    case (Some d)
    then show ?thesis using class_of_Some [OF Some] hub_okD(2) [OF ok, of c d] p(2) assms(2) by simp
  qed
  then show ?thesis using p hub_okD(4) [OF ok p(1,3)] by (auto simp: fits_def)
qed

theorem topic_binding_sound_witness:
  "\<exists>p < 6. bound_port (hub_class wheel_hub LEGOSENSOR_CLASS_MOTOR_R) = int p \<and> even p"
proof -
  obtain tr where r: "hub_run ((\<lambda>_. False)(2 := True)) tr wheel_hub" using wheel_run by blast
  show ?thesis using topic_binding_sound [OF r, of LEGOSENSOR_CLASS_MOTOR_R] wheel_bound by auto
qed



text \<open>
  C9. Nobody drives what he has not claimed: an operation that changes anything below the topics is made by a
  file that holds the claim of its class for the current binding, changes only the bound port, and reaches
  the H-bridge only through a motor class.
\<close>

theorem writes_need_current_claim:
  assumes "legosensor_control clk lk c f cmd s = (r, a, s')" "hub_lump s' \<noteq> hub_lump s \<or> hub_pwm s' \<noteq> hub_pwm s"
  shows "\<exists>p. bound_port (hub_class s c) = int p \<and> claim_owner (hub_class s c) = Some f \<and>
    claim_bind_gen (hub_class s c) = bind_generation (hub_class s c) \<and>
    (\<forall>j < 6. j \<noteq> p \<longrightarrow> hub_lump s' ! j = hub_lump s ! j \<and> view j (hub_pwm s') = view j (hub_pwm s)) \<and>
    (hub_pwm s' \<noteq> hub_pwm s \<longrightarrow> is_motor c)"
proof -
  obtain p where p: "legosensor_check_write_claim (hub_class s c) f = (OK, int p)" "touches p c s s'"
    using control_written [OF assms(1)] assms(2) by (auto simp: written_def)
  then have "bound_port (hub_class s c) = int p" "claim_owner (hub_class s c) = Some f"
    "claim_bind_gen (hub_class s c) = bind_generation (hub_class s c)"
    by (auto simp: legosensor_check_write_claim_def OK_def ENODEV_def EACCES_def split: if_splits)
  then show ?thesis using p(2) by (auto simp: touches_def engine_write_def)
qed

text \<open>The wheel is claimed by file 7 and driven at half speed.\<close>

definition claimed_hub :: hub where
  "claimed_hub = snd (claim_class LEGOSENSOR_CLASS_MOTOR_R 7 wheel_hub)"

definition half_speed :: legosensor_cmd where
  "half_speed = LEGOSENSOR_SET_PWM (U_Ok \<lparr>pa_num_channels = 1, pa_channels = [5000, 0, 0, 0]\<rparr>)"

definition driven_hub :: hub where
  "driven_hub = snd (snd (legosensor_control 0 0 LEGOSENSOR_CLASS_MOTOR_R 7 half_speed claimed_hub))"

lemma claimed_class:
  "hub_class claimed_hub LEGOSENSOR_CLASS_MOTOR_R = \<lparr>bound_port = 2, bind_generation = 1, claim_owner = Some 7, claim_bind_gen = 1\<rparr>"
  "hub_pwm claimed_hub = demo_pwm"
  by (simp_all add: claimed_hub_def claim_class_def Let_def wheel_class unbound_class_def)

lemma driven_pwm: "hub_pwm driven_hub = final demo_pwm (snd (stm32_legoport_pwm_set_duty 0 2 5000 demo_pwm))"
  by (simp add: driven_hub_def half_speed_def legosensor_control_def from_user_def set_pwm_def is_motor_def with_claim_def
      legosensor_check_write_claim_def claimed_class OK_def drive_bridge_def split_beta)

lemma driven_duty: "pw_duty (g_devs (hub_pwm driven_hub) ! 2) = 5000" "pin1 2 (hub_pwm driven_hub) = Pin_Af"
    "pw_duty (g_devs demo_pwm ! 2) = 0"
proof -
  show "pw_duty (g_devs demo_pwm ! 2) = 0" by code_simp
  have "pw_initialized (g_devs demo_pwm ! 2)" "\<not> pw_pinned (g_devs demo_pwm ! 2)" by code_simp+
  then show "pw_duty (g_devs (hub_pwm driven_hub) ! 2) = 5000" "pin1 2 (hub_pwm driven_hub) = Pin_Af"
    using bridge_duty_effect [OF demo_pwm_reach, of 2 0 5000] unfolding driven_pwm by (auto simp: Let_def split: prod.splits)
qed

theorem writes_need_current_claim_witness:
  "\<exists>p. bound_port (hub_class claimed_hub LEGOSENSOR_CLASS_MOTOR_R) = int p \<and> view 4 (hub_pwm driven_hub) = view 4 (hub_pwm claimed_hub)"
proof -
  obtain r a where c: "legosensor_control 0 0 LEGOSENSOR_CLASS_MOTOR_R 7 half_speed claimed_hub = (r, a, driven_hub)"
    unfolding driven_hub_def by (metis prod.collapse)
  have d: "hub_lump driven_hub \<noteq> hub_lump claimed_hub \<or> hub_pwm driven_hub \<noteq> hub_pwm claimed_hub"
    using driven_duty(1,3) claimed_class(2) by auto
  show ?thesis using writes_need_current_claim [OF c d] claimed_class(1) by auto
qed

section \<open>Interleavings\<close>

text \<open>Events after a history, with the ports that are open and what has been published.\<close>

fun hub_evs :: "hub_ev list \<Rightarrow> (nat \<Rightarrow> bool) \<times> event list \<times> hub \<Rightarrow> ((nat \<Rightarrow> bool) \<times> event list \<times> hub) option" where
  "hub_evs [] st = Some st"
| "hub_evs (ev # es) (opened, tr, s) =
     (case allowed ev opened of None \<Rightarrow> None
      | Some opened' \<Rightarrow> (case hub_do ev s of (out, s') \<Rightarrow> hub_evs es (opened', tr @ out, s')))"

lemma hub_evs_run: "hub_evs es (opened, tr, s) = Some (o', tr', s') \<Longrightarrow> hub_run opened tr s \<Longrightarrow> hub_run o' tr' s'"
proof (induction es arbitrary: opened tr s)
  case (Cons ev es)
  then show ?case by (auto split: option.splits prod.splits intro: hub_run.step)
qed simp

text \<open>A class is rebound or its binding is untouched.\<close>

definition rebound :: "legosensor_class_e \<Rightarrow> nat \<Rightarrow> hub \<Rightarrow> hub \<Rightarrow> bool" where
  "rebound c n s s' \<longleftrightarrow> bind_generation (hub_class s' c) = bind_generation (hub_class s c) + of_nat n \<and>
     (n = 0 \<longrightarrow> bound_port (hub_class s' c) = bound_port (hub_class s c))"

lemma written_rebound: "written d f s s' \<Longrightarrow> rebound c 0 s s'"
  by (simp add: written_def rebound_def)

lemma publish_class [simp]: "hub_class (snd (on_sync_publish t1 t2 p c b d s)) = hub_class s"
    "hub_pwm (snd (on_sync_publish t1 t2 p c b d s)) = hub_pwm s"
  by (simp_all add: on_sync_publish_def split_beta)

lemma sync_class:
  "hub_class (snd (legosensor_on_sync t1 t2 p i s)) =
     (case legosensor_classify (di_type_id i) p of None \<Rightarrow> hub_class s | Some c \<Rightarrow> hub_class (snd (snd (legosensor_try_bind p (Some c) s))))"
  "hub_pwm (snd (legosensor_on_sync t1 t2 p i s)) = hub_pwm s"
  by (auto simp: legosensor_on_sync_def on_sync_port_def Let_def legosensor_try_bind_def upd_class_def upd_port_def split: option.splits)

lemma data_class:
  "hub_class (snd (legosensor_on_data t0 now t p m d s)) = hub_class s"
  "hub_pwm (snd (legosensor_on_data t0 now t p m d s)) = hub_pwm s"
  by (auto simp: legosensor_on_data_def on_data_hydrate_def on_data_commit_def Let_def split: option.splits prod.splits)

lemma error_class:
  "hub_class (snd (legosensor_on_error t p s)) = hub_class (snd (legosensor_unbind p s))"
  "hub_pwm (snd (legosensor_on_error t p s)) = hub_pwm s"
  by (auto simp: legosensor_on_error_def legosensor_unbind_def Let_def split: option.splits prod.splits)

lemma step_rebound: "\<exists>n \<le> 1. rebound c n s (snd (hub_do ev s))"
proof (cases ev)
  case (Ev_Sync t1 t2 p i)
  show ?thesis
  proof (cases "legosensor_classify (di_type_id i) p")
    case None
    then show ?thesis by (intro exI [of _ 0]) (simp add: Ev_Sync rebound_def sync_class)
  next
    case (Some d)
    let ?t = "hub_class (snd (snd (legosensor_try_bind p (Some d) s))) c"
    have "?t = hub_class s c \<or> bind_generation ?t = bind_generation (hub_class s c) + of_nat 1"
      by (simp add: legosensor_try_bind_def Let_def)
    then show ?thesis
    proof
      assume "?t = hub_class s c"
      then show ?thesis by (intro exI [of _ 0]) (simp add: Ev_Sync rebound_def sync_class Some)
    next
      assume "bind_generation ?t = bind_generation (hub_class s c) + of_nat 1"
      then show ?thesis by (intro exI [of _ 1]) (simp add: Ev_Sync rebound_def sync_class Some)
    qed
  qed
next
  case (Ev_Data t0 now t p m d)
  then show ?thesis by (auto simp: rebound_def data_class)
next
  case (Ev_Error t p m)
  show ?thesis
  proof (rule unbind_cases [of p s])
    assume "legosensor_unbind p s = (None, s)"
    then show ?thesis by (intro exI [of _ 0]) (simp add: Ev_Error rebound_def error_class)
  next
    fix d assume u: "legosensor_unbind p s = (Some d, upd_class d (\<lambda>cs. cs\<lparr>bound_port := - 1, bind_generation := bind_generation cs + 1\<rparr>) s)"
    show ?thesis
      by (cases "c = d") (intro exI [of _ 1], simp add: Ev_Error rebound_def error_class u, intro exI [of _ 0], simp add: Ev_Error rebound_def error_class u)
  qed
next
  case (Ev_Ioctl clk lk d f cmd)
  obtain r a s' where "legosensor_control clk lk d f cmd s = (r, a, s')" by (metis prod_cases3)
  then show ?thesis using written_rebound [OF control_written] by (auto simp: Ev_Ioctl)
next
  case (Ev_Close d f)
  obtain r s' where "legosensor_close d f s = (r, s')" by (metis prod.exhaust)
  then show ?thesis using written_rebound [OF claims_written(3)] by (auto simp: Ev_Close)
qed (auto simp: rebound_def)

lemma rebound_trans: "rebound c n s s' \<Longrightarrow> rebound c m s' s'' \<Longrightarrow> rebound c (n + m) s s''"
  by (simp add: rebound_def)

lemma evs_rebound: "hub_evs es (opened, tr, s) = Some (o', tr', s') \<Longrightarrow> \<exists>n \<le> length es. rebound c n s s'"
proof (induction es arbitrary: opened tr s)
  case (Cons ev es)
  obtain o1 where 1: "allowed ev opened = Some o1" using Cons.prems by (auto split: option.splits)
  obtain out s1 where 2: "hub_do ev s = (out, s1)" by (metis prod.exhaust)
  obtain n where n: "n \<le> length es" "rebound c n s1 s'" using Cons.IH [of o1 "tr @ out" s1] Cons.prems 1 2 by auto
  obtain m where m: "m \<le> 1" "rebound c m s s1" using step_rebound [of c s ev] 2 by auto
  then show ?case using rebound_trans [OF m(2) n(2)] n(1) by (intro exI [of _ "m + n"]) auto
qed (auto simp: rebound_def)

lemma same_generation:
  assumes "rebound c n s s'" "n < 2 ^ 32" "bind_generation (hub_class s' c) = bind_generation (hub_class s c)"
  shows "n = 0"
proof -
  have "(of_nat n :: 32 word) = 0" using assms(1,3) by (simp add: rebound_def)
  then have "2 ^ 32 dvd n" by (simp add: word_of_nat_eq_0_iff)
  then show ?thesis using assms(2) by (meson dvd_imp_le not_le zero_less_iff_neq_zero)
qed

lemma topic_run_last:
  assumes "topic_run st (xs @ [x]) = Some (Some (b, q))"
  shows "ls_port x = b"
  using assms by (auto simp: topic_run_append topic_next_def Let_def split: option.splits if_splits)


text \<open>The wheel reports its position in mode 0.\<close>

definition reporting_hub :: hub where
  "reporting_hub = snd (legosensor_on_data 0 0 0 2 0 [5] wheel_hub)"

lemma wheel_port: "sp_synced (hub_port wheel_hub 2)" "di_num_modes (sp_info_cache (hub_port wheel_hub 2)) = 1"
  by (simp_all add: wheel_hub_def legosensor_on_sync_def on_sync_port_def Let_def legosensor_classify_def motor_info_def lpf2_types
      legosensor_try_bind_def idle_facts unbound_class_def on_sync_publish_def bump_def)

lemma reporting_facts:
  "hub_class reporting_hub = hub_class wheel_hub" "sp_latest_valid (hub_port reporting_hub 2)"
proof -
  show "hub_class reporting_hub = hub_class wheel_hub" by (simp add: reporting_hub_def data_class)
  have "legosensor_class_of 2 wheel_hub = Some LEGOSENSOR_CLASS_MOTOR_R"
    by (simp add: legosensor_class_of_def all_classes_def wheel_class idle_facts unbound_class_def)
  then show "sp_latest_valid (hub_port reporting_hub 2)"
    by (simp add: reporting_hub_def legosensor_on_data_def on_data_hydrate_def Let_def wheel_port on_data_commit_def)
qed

lemma reporting_run: "\<exists>tr. hub_run ((\<lambda>_. False)(2 := True)) tr reporting_hub"
proof -
  obtain tr where r: "hub_run ((\<lambda>_. False)(2 := True)) tr wheel_hub" using wheel_run by blast
  obtain out s where e: "legosensor_on_data 0 0 0 2 0 [5] wheel_hub = (out, s)" by (metis prod.exhaust)
  have "hub_run ((\<lambda>_. False)(2 := True)) (tr @ out) s"
    by (rule hub_run.step [OF r, of "Ev_Data 0 0 0 2 0 [5]"]) (simp_all add: e)
  then show ?thesis using e by (auto simp: reporting_hub_def)
qed


text \<open>Claims only appear when they are made.\<close>

lemma from_user_class: "(\<And>y. hub_class (snd (snd (k y))) = hub_class s) \<Longrightarrow> hub_class (snd (snd (from_user a s k))) = hub_class s"
  by (simp add: from_user_def split: uarg.split)

lemma with_claim_class: "(\<And>p. hub_class (snd (snd (k p))) = hub_class s) \<Longrightarrow> hub_class (snd (snd (with_claim c f s k))) = hub_class s"
  by (simp add: with_claim_def split_beta)

lemma drive_class [simp]: "hub_class (snd (snd (drive_bridge b s))) = hub_class s"
  by (simp add: drive_bridge_def split_beta)

lemma passive_class: "hub_class (snd (snd (motor_passive lk e b c f s))) = hub_class s"
  unfolding motor_passive_def by (auto intro!: with_claim_class)

lemma control_class:
  assumes "cmd \<noteq> LEGOSENSOR_CLAIM" "cmd \<noteq> LEGOSENSOR_RELEASE"
  shows "hub_class (snd (snd (legosensor_control clk lk c f cmd s))) = hub_class s"
proof (cases cmd)
  case (LEGOSENSOR_SELECT x)
  show ?thesis
    by (auto simp: LEGOSENSOR_SELECT legosensor_control_def select_port_def Let_def split_beta intro!: from_user_class with_claim_class)
next
  case (LEGOSENSOR_SEND x)
  show ?thesis
    by (auto simp: LEGOSENSOR_SEND legosensor_control_def split_beta intro!: from_user_class with_claim_class)
next
  case (LEGOSENSOR_SET_PWM x)
  show ?thesis
    by (auto simp: LEGOSENSOR_SET_PWM legosensor_control_def set_pwm_def intro!: from_user_class with_claim_class)
qed (use assms in \<open>auto simp: legosensor_control_def passive_class Let_def split_beta intro!: from_user_class\<close>)


definition current :: "legosensor_class_e \<Rightarrow> filep \<Rightarrow> hub \<Rightarrow> bool" where
  "current c f s \<longleftrightarrow> claim_owner (hub_class s c) = Some f"

lemma step_claim:
  assumes "\<And>clk lk. ev \<noteq> Ev_Ioctl clk lk c f LEGOSENSOR_CLAIM" "claim_owner (hub_class (snd (hub_do ev s)) c) = Some f"
  shows "claim_owner (hub_class s c) = Some f \<and>
    claim_bind_gen (hub_class (snd (hub_do ev s)) c) = claim_bind_gen (hub_class s c)"
proof (cases ev)
  case (Ev_Sync t1 t2 p i)
  show ?thesis using assms(2)
    by (auto simp: Ev_Sync sync_class legosensor_try_bind_def Let_def split: option.splits if_splits)
next
  case (Ev_Data t0 now t p m d)
  then show ?thesis using assms(2) by (simp add: data_class)
next
  case (Ev_Error t p m)
  show ?thesis using assms(2)
    by (auto simp: Ev_Error error_class legosensor_unbind_def Let_def split: option.splits if_splits)
next
  case (Ev_Ioctl clk lk d g cmd)
  consider "cmd = LEGOSENSOR_CLAIM" | "cmd = LEGOSENSOR_RELEASE" | "cmd \<noteq> LEGOSENSOR_CLAIM" "cmd \<noteq> LEGOSENSOR_RELEASE" by blast
  then show ?thesis
  proof cases
    case 1
    then have "d \<noteq> c \<or> g \<noteq> f" using assms(1) Ev_Ioctl by blast
    then show ?thesis using assms(2) 1
      by (auto simp: Ev_Ioctl legosensor_control_def claim_class_def Let_def split: if_splits)
  next
    case 2
    then show ?thesis using assms(2)
      by (auto simp: Ev_Ioctl legosensor_control_def release_class_def Let_def split: if_splits)
  next
    case 3
    then show ?thesis using assms(2) by (simp add: Ev_Ioctl control_class)
  qed
next
  case (Ev_Close d g)
  then show ?thesis using assms(2) by (auto simp: legosensor_close_def split: if_splits)
qed (use assms(2) in auto)

definition claims :: "legosensor_class_e \<Rightarrow> filep \<Rightarrow> hub_ev \<Rightarrow> bool" where
  "claims c f ev \<longleftrightarrow> (case ev of Ev_Ioctl clk lk d g cmd \<Rightarrow> d = c \<and> g = f \<and> cmd = LEGOSENSOR_CLAIM | _ \<Rightarrow> False)"

lemma evs_claim:
  "hub_evs es (opened, tr, s) = Some (o', tr', s') \<Longrightarrow> list_all (\<lambda>ev. \<not> claims c f ev) es \<Longrightarrow>
   claim_owner (hub_class s' c) = Some f \<Longrightarrow>
   claim_owner (hub_class s c) = Some f \<and> claim_bind_gen (hub_class s' c) = claim_bind_gen (hub_class s c)"
proof (induction es arbitrary: opened tr s)
  case (Cons ev es)
  obtain o1 where 1: "allowed ev opened = Some o1" using Cons.prems by (auto split: option.splits)
  obtain out s1 where 2: "hub_do ev s = (out, s1)" by (metis prod.exhaust)
  have "claim_owner (hub_class s1 c) = Some f \<and> claim_bind_gen (hub_class s' c) = claim_bind_gen (hub_class s1 c)"
    using Cons.IH [of o1 "tr @ out" s1] Cons.prems 1 2 by auto
  moreover have "\<And>clk lk. ev \<noteq> Ev_Ioctl clk lk c f LEGOSENSOR_CLAIM" using Cons.prems(2) by (auto simp: claims_def)
  ultimately show ?case using step_claim [of ev c f s] 2 by simp
qed simp

lemma evs_append: "hub_evs (es1 @ es2) st = (case hub_evs es1 st of None \<Rightarrow> None | Some st' \<Rightarrow> hub_evs es2 st')"
  by (induction es1 st rule: hub_evs.induct) (auto split: option.splits prod.splits)

text \<open>
  Fact. A claim is worth nothing once the device has been exchanged: if a file may still write with a claim it
  made earlier, then the port it writes to is the one it claimed, and that port stayed bound to the class
  the whole time in between, whatever happened.
\<close>

theorem claim_pins_binding:
  assumes "hub_evs es1 (opened, tr, s) = Some (o1, tr1, s1)" "hub_evs es2 (o1, tr1, s1) = Some (o2, tr2, s2)"
    "list_all (\<lambda>ev. \<not> claims c f ev) (es1 @ es2)" "length (es1 @ es2) < 2 ^ 32"
    "legosensor_check_write_claim (hub_class s c) f = (OK, p)" "legosensor_check_write_claim (hub_class s2 c) f = (OK, p')"
  shows "p' = p \<and> bound_port (hub_class s1 c) = p"
proof -
  have ok: "claim_owner cs = Some f \<and> claim_bind_gen cs = bind_generation cs \<and> bound_port cs = q"
    if "legosensor_check_write_claim cs f = (OK, q)" for cs q
    using that by (auto simp: legosensor_check_write_claim_def OK_def ENODEV_def EACCES_def split: if_splits)
  have "hub_evs (es1 @ es2) (opened, tr, s) = Some (o2, tr2, s2)" using assms(1,2) by (simp add: evs_append)
  then have g: "claim_bind_gen (hub_class s2 c) = claim_bind_gen (hub_class s c)"
    using evs_claim [OF _ assms(3)] ok [OF assms(6)] by blast
  obtain n1 where n1: "n1 \<le> length es1" "rebound c n1 s s1" using evs_rebound [OF assms(1)] by blast
  obtain n2 where n2: "n2 \<le> length es2" "rebound c n2 s1 s2" using evs_rebound [OF assms(2)] by blast
  have "n1 + n2 = 0"
    using same_generation [OF rebound_trans [OF n1(2) n2(2)]] n1(1) n2(1) assms(4) g ok [OF assms(5)] ok [OF assms(6)] by simp
  then show ?thesis using n1(2) n2(2) ok [OF assms(5)] ok [OF assms(6)] by (simp add: rebound_def)
qed

theorem claim_pins_binding_witness:
  "legosensor_check_write_claim (hub_class (snd (legosensor_on_data 0 0 0 2 0 [5] claimed_hub)) LEGOSENSOR_CLASS_MOTOR_R) 7 = (OK, 2)"
proof -
  let ?s = "snd (legosensor_on_data 0 0 0 2 0 [5] claimed_hub)"
  let ?d = "Ev_Data 0 0 0 2 0 [5]"
  have c: "legosensor_check_write_claim (hub_class claimed_hub LEGOSENSOR_CLASS_MOTOR_R) 7 = (OK, 2)"
    "legosensor_check_write_claim (hub_class ?s LEGOSENSOR_CLASS_MOTOR_R) 7 = (OK, bound_port (hub_class ?s LEGOSENSOR_CLASS_MOTOR_R))"
    by (simp_all add: legosensor_check_write_claim_def claimed_class data_class)
  obtain out t where d: "legosensor_on_data 0 0 0 2 0 [5] claimed_hub = (out, t)" by (metis prod.exhaust)
  have e: "hub_evs [?d] (\<lambda>_. True, [], claimed_hub) = Some (\<lambda>_. True, out, t)" "hub_evs [] (\<lambda>_. True, out, t) = Some (\<lambda>_. True, out, t)"
    using d by simp_all
  show ?thesis
    using claim_pins_binding [OF e, of LEGOSENSOR_CLASS_MOTOR_R 7] c d by (simp add: claims_def)
qed

text \<open>A port that has lost its class does not get it back by anything but its own synchronisation.\<close>

definition syncs :: "nat \<Rightarrow> hub_ev \<Rightarrow> bool" where
  "syncs q ev \<longleftrightarrow> (case ev of Ev_Sync t1 t2 p i \<Rightarrow> p = q | _ \<Rightarrow> False)"

definition drives :: "hub_ev \<Rightarrow> bool" where
  "drives ev \<longleftrightarrow> (case ev of Ev_Bridge b \<Rightarrow> True | _ \<Rightarrow> False)"

definition unbound :: "nat \<Rightarrow> hub \<Rightarrow> bool" where
  "unbound q s \<longleftrightarrow> (\<forall>c. bound_port (hub_class s c) \<noteq> int q)"

lemma step_unbound:
  assumes "unbound q s" "\<not> syncs q ev" "\<not> drives ev" "q < 6"
  shows "unbound q (snd (hub_do ev s)) \<and> view q (hub_pwm (snd (hub_do ev s))) = view q (hub_pwm s)"
proof (cases ev)
  case (Ev_Sync t1 t2 p i)
  then have "p \<noteq> q" using assms(2) by (simp add: syncs_def)
  then show ?thesis using assms(1)
    by (auto simp: Ev_Sync unbound_def sync_class legosensor_try_bind_def Let_def split: option.splits)
next
  case (Ev_Data t0 now t p m d)
  then show ?thesis using assms(1) by (simp add: unbound_def data_class)
next
  case (Ev_Error t p m)
  show ?thesis using assms(1)
    by (auto simp: Ev_Error unbound_def error_class legosensor_unbind_def Let_def split: option.splits)
next
  case (Ev_Ioctl clk lk d f cmd)
  obtain r a s' where m: "legosensor_control clk lk d f cmd s = (r, a, s')" by (metis prod_cases3)
  have "view q (hub_pwm s') = view q (hub_pwm s)"
  proof (cases "hub_pwm s' = hub_pwm s")
    case False
    then obtain p where p: "legosensor_check_write_claim (hub_class s d) f = (OK, int p)" "touches p d s s'"
      using control_written [OF m] by (auto simp: written_def)
    have "bound_port (hub_class s d) = int p"
      using p(1) by (auto simp: legosensor_check_write_claim_def OK_def ENODEV_def EACCES_def split: if_splits)
    then have "q \<noteq> p" using assms(1) by (auto simp: unbound_def)
    then show ?thesis using p(2) assms(4) by (simp add: touches_def)
  qed simp
  then show ?thesis using control_written [OF m] assms(1) by (simp add: Ev_Ioctl m written_def unbound_def)
next
  case (Ev_Close d f)
  then show ?thesis using assms(1) by (auto simp: unbound_def legosensor_close_def)
qed (use assms in \<open>auto simp: unbound_def drives_def\<close>)

lemma evs_unbound:
  "hub_evs es (opened, tr, s) = Some (o', tr', s') \<Longrightarrow> unbound q s \<Longrightarrow> q < 6 \<Longrightarrow>
   list_all (\<lambda>ev. \<not> syncs q ev \<and> \<not> drives ev) es \<Longrightarrow> view q (hub_pwm s') = view q (hub_pwm s)"
proof (induction es arbitrary: opened tr s)
  case (Cons ev es)
  obtain o1 where 1: "allowed ev opened = Some o1" using Cons.prems by (auto split: option.splits)
  obtain out s1 where 2: "hub_do ev s = (out, s1)" by (metis prod.exhaust)
  have "unbound q s1 \<and> view q (hub_pwm s1) = view q (hub_pwm s)"
    using step_unbound [OF Cons.prems(2), of ev] Cons.prems(3,4) 2 by simp
  then show ?case using Cons.IH [of o1 "tr @ out" s1] Cons.prems 1 2 by simp
qed simp

text \<open>
  C31. A motor whose port is displaced keeps running: when a wheel motor on a lower port takes the class over,
  nothing that any file does through the topics, and nothing that happens on any port, brings the H-bridge of
  the displaced port to another state, until that device itself is plugged in again; only a caller of the
  H-bridge driver itself could. The file that commanded the duty can no longer stop the motor.
\<close>

theorem displaced_motor_keeps_running:
  assumes "hub_run opened tr s" "bound_port (hub_class s c) = int q" "p < q" "\<not> opened p" "announced i"
    "legosensor_classify (di_type_id i) p = Some c" "legosensor_on_sync ts1 ts2 p i s = (out, s1)"
    "hub_evs es (opened(p := True), tr @ out, s1) = Some (o2, tr2, s2)"
    "list_all (\<lambda>ev. \<not> syncs q ev \<and> \<not> drives ev) es"
  shows "bound_port (hub_class s1 c) = int p \<and> view q (hub_pwm s2) = view q (hub_pwm s)"
proof -
  have ok: "hub_ok opened s" using run_good [OF assms(1)] by blast
  have q: "q < 6" using hub_okD(1) [OF ok, of c] assms(2) by auto
  have s1: "s1 = snd (legosensor_on_sync ts1 ts2 p i s)" using assms(7) by simp
  have c1: "hub_class s1 = (hub_class s)(c := (hub_class s c)\<lparr>bound_port := int p, bind_generation := bind_generation (hub_class s c) + 1\<rparr>)"
    using assms(2,3,6) by (simp add: s1 sync_class legosensor_try_bind_def Let_def)
  have "bound_port (hub_class s1 d) \<noteq> int q" for d
    using c1 hub_okD(2) [OF ok, of c d] assms(2,3) by (cases "d = c") auto
  then have "unbound q s1" by (simp add: unbound_def)
  moreover have "hub_pwm s1 = hub_pwm s" by (simp add: s1 sync_class)
  ultimately show ?thesis using evs_unbound [OF assms(8) _ q assms(9)] c1 by simp
qed

lemma driven_run: "\<exists>tr. hub_run ((\<lambda>_. False)(2 := True)) tr driven_hub"
proof -
  obtain tr where r: "hub_run ((\<lambda>_. False)(2 := True)) tr wheel_hub" using wheel_run by blast
  let ?es = "[Ev_Ioctl 0 0 LEGOSENSOR_CLASS_MOTOR_R 7 LEGOSENSOR_CLAIM, Ev_Ioctl 0 0 LEGOSENSOR_CLASS_MOTOR_R 7 half_speed]"
  have "hub_evs ?es ((\<lambda>_. False)(2 := True), tr, wheel_hub) = Some ((\<lambda>_. False)(2 := True), tr, driven_hub)"
    by (simp add: driven_hub_def claimed_hub_def legosensor_control_def split_beta Let_def)
  then show ?thesis using hub_evs_run [OF _ r] by blast
qed

lemma driven_class: "hub_class driven_hub = hub_class claimed_hub"
  by (simp add: driven_hub_def half_speed_def legosensor_control_def from_user_def set_pwm_def is_motor_def with_claim_class)

text \<open>Another wheel motor is plugged into port 0; file 7 brakes and closes its class device.\<close>

theorem displaced_motor_keeps_running_witness:
  "let s1 = snd (legosensor_on_sync 3 4 0 motor_info driven_hub);
       s2 = snd (legosensor_close LEGOSENSOR_CLASS_MOTOR_R 7
              (snd (snd (legosensor_control 0 0 LEGOSENSOR_CLASS_MOTOR_R 7 LEGOSENSOR_MOTOR_R_BRAKE s1)))) in
   bound_port (hub_class s1 LEGOSENSOR_CLASS_MOTOR_R) = 0 \<and> pw_duty (g_devs (hub_pwm s2) ! 2) = 5000"
proof -
  obtain tr where r: "hub_run ((\<lambda>_. False)(2 := True)) tr driven_hub" using driven_run by blast
  obtain out s1 where 1: "legosensor_on_sync 3 4 0 motor_info driven_hub = (out, s1)" by (metis prod.exhaust)
  let ?es = "[Ev_Ioctl 0 0 LEGOSENSOR_CLASS_MOTOR_R 7 LEGOSENSOR_MOTOR_R_BRAKE, Ev_Close LEGOSENSOR_CLASS_MOTOR_R 7]"
  let ?s2 = "snd (legosensor_close LEGOSENSOR_CLASS_MOTOR_R 7
              (snd (snd (legosensor_control 0 0 LEGOSENSOR_CLASS_MOTOR_R 7 LEGOSENSOR_MOTOR_R_BRAKE s1))))"
  have e: "hub_evs ?es ((\<lambda>_. False)(2 := True, 0 := True), tr @ out, s1) = Some ((\<lambda>_. False)(2 := True, 0 := True), tr @ out, ?s2)"
    by simp
  have b: "bound_port (hub_class driven_hub LEGOSENSOR_CLASS_MOTOR_R) = int 2"
    by (simp add: driven_class claimed_class)
  have k: "legosensor_classify (di_type_id motor_info) 0 = Some LEGOSENSOR_CLASS_MOTOR_R"
    by (simp add: legosensor_classify_def motor_info_def lpf2_types)
  have "bound_port (hub_class s1 LEGOSENSOR_CLASS_MOTOR_R) = int 0 \<and> view 2 (hub_pwm ?s2) = view 2 (hub_pwm driven_hub)"
    using displaced_motor_keeps_running [OF r b _ _ motor_announced k 1 e] by (simp add: syncs_def drives_def)
  then show ?thesis using driven_duty(1) 1 by (simp add: view_def)
qed

text \<open>
  Fact. The data callback looks the class up before it publishes and holds no lock in between: if a lower port
  takes the class over at that moment, the displaced port still publishes its sample on a topic that already
  belongs to the new port, which breaks the contract of the topic.
\<close>

theorem data_after_takeover:
  assumes "hub_run opened tr s" "bound_port (hub_class s c) = int q" "p < q" "\<not> opened p" "announced i"
    "legosensor_classify (di_type_id i) p = Some c" "legosensor_on_sync ts1 ts2 p i s = (out, s1)"
    "on_data_commit now ts q mode d s1 = (x, s2)"
  shows "ls_port x = int q \<and> bound_port (hub_class s1 c) = int p \<and> topic_run None (topic c (tr @ out @ [(c, x)])) = None"
proof -
  have ok: "hub_ok opened s" using run_good [OF assms(1)] by blast
  have q: "q < 6" "opened q" using hub_okD(1) [OF ok, of c] assms(2) by auto
  have p: "p < 6" using assms(3) q(1) by simp
  have r: "hub_run (opened(p := True)) (tr @ out) s1"
    by (rule hub_run.step [OF assms(1), of "Ev_Sync ts1 ts2 p i"]) (use assms(4,5,7) p in simp_all)
  have g: "hub_ok (opened(p := True)) s1" "topic_run None (topic c (tr @ out)) = Some (topic_state c s1)"
    using run_good [OF r] by blast+
  note k = commit_good [OF g(1) q(1) assms(8)]
  have "hub_class s1 = (hub_class s)(c := (hub_class s c)\<lparr>bound_port := int p, bind_generation := bind_generation (hub_class s c) + 1\<rparr>)"
    using assms(2,3,6,7) sync_class(1) [of ts1 ts2 p i s] by (simp add: legosensor_try_bind_def Let_def)
  then have b: "bound_port (hub_class s1 c) = int p" by simp
  then have st: "topic_state c s1 = Some (int p, sp_seq (hub_port s1 p))" by (simp add: topic_state_def)
  have "ls_type_id x \<noteq> 0" using hub_okD(4) [OF g(1) q(1)] q(2) k(7) by (simp add: unsigned_eq_0_iff)
  then have "topic_next (topic_state c s1) x = None" using st k(5) assms(3) by (simp add: topic_next_def Let_def)
  then have "topic_run None (topic c (tr @ out) @ [x]) = None" by (simp add: topic_run_append g(2) del: topic_simps(3))
  then show ?thesis using k(5) b by simp
qed

theorem data_after_takeover_witness:
  "\<exists>tr out. topic_run None (topic LEGOSENSOR_CLASS_MOTOR_R
     (tr @ out @ [(LEGOSENSOR_CLASS_MOTOR_R, fst (on_data_commit 0 5 2 0 [9] (snd (legosensor_on_sync 3 4 0 motor_info driven_hub))))])) = None"
proof -
  obtain tr where r: "hub_run ((\<lambda>_. False)(2 := True)) tr driven_hub" using driven_run by blast
  obtain out s1 where 1: "legosensor_on_sync 3 4 0 motor_info driven_hub = (out, s1)" by (metis prod.exhaust)
  obtain x s2 where 2: "on_data_commit 0 5 2 0 [9] s1 = (x, s2)" by (metis prod.exhaust)
  have b: "bound_port (hub_class driven_hub LEGOSENSOR_CLASS_MOTOR_R) = int 2"
    by (simp add: driven_class claimed_class)
  have k: "legosensor_classify (di_type_id motor_info) 0 = Some LEGOSENSOR_CLASS_MOTOR_R"
    by (simp add: legosensor_classify_def motor_info_def lpf2_types)
  show ?thesis using data_after_takeover [OF r b _ _ motor_announced k 1 2] 1 2 by auto
qed

section \<open>Topics over the engines\<close>

text \<open>The callbacks of a port among the events; the mode reported with an error is not used by the topics.\<close>

fun cb_of :: "nat \<Rightarrow> hub_ev \<Rightarrow> lump_out list" where
  "cb_of p (Ev_Sync ts1 ts2 q i) = (if q = p then [Cb_Sync i] else [])"
| "cb_of p (Ev_Data ts0 now ts q m d) = (if q = p then [Cb_Data m d] else [])"
| "cb_of p (Ev_Error ts q m) = (if q = p then [Cb_Error m] else [])"
| "cb_of p _ = []"

fun is_cb :: "lump_out \<Rightarrow> bool" where
  "is_cb (Cb_Sync i) = True" | "is_cb (Cb_Data m d) = True" | "is_cb (Cb_Error m) = True" | "is_cb _ = False"

lemma cb_run_filter: "cb_run b (filter is_cb tr) = cb_run b tr"
proof (induction tr arbitrary: b)
  case (Cons a tr)
  then show ?case by (cases a) (simp_all split: option.splits)
qed simp

definition ports_ok :: "hub_ev \<Rightarrow> bool" where
  "ports_ok ev \<longleftrightarrow> (case ev of Ev_Sync ts1 ts2 p i \<Rightarrow> p < 6 | Ev_Data ts0 now ts p m d \<Rightarrow> p < 6 | Ev_Error ts p m \<Rightarrow> p < 6
     | Ev_Engines g \<Rightarrow> engines_ok g | _ \<Rightarrow> True)"

text \<open>The condition the topics put on their events is the callback protocol of the ports.\<close>

lemma evs_accepted:
  "list_all ports_ok es \<Longrightarrow> (\<And>p. p < 6 \<Longrightarrow> cb_run (opened p) (concat (map (cb_of p) es)) = Some (live p)) \<Longrightarrow>
   \<exists>o' tr' s'. hub_evs es (opened, tr, s) = Some (o', tr', s') \<and> (\<forall>p < 6. o' p = live p)"
proof (induction es arbitrary: opened tr s)
  case (Cons ev es)
  obtain out s1 where 2: "hub_do ev s = (out, s1)" by (metis prod.exhaust)
  have "\<exists>o1. allowed ev opened = Some o1 \<and> (\<forall>p < 6. cb_run (opened p) (cb_of p ev) = Some (o1 p))"
  proof (cases ev)
    case (Ev_Sync ts1 ts2 q i)
    have q: "q < 6" using Cons.prems(1) by (simp add: Ev_Sync ports_ok_def)
    have "\<not> opened q" "announced i"
      using Cons.prems(2) [OF q] by (auto simp: Ev_Sync split: if_splits)
    then show ?thesis using q by (auto simp: Ev_Sync)
  qed (use Cons.prems(1) in \<open>auto simp: ports_ok_def\<close>)
  then obtain o1 where 1: "allowed ev opened = Some o1" "\<And>p. p < 6 \<Longrightarrow> cb_run (opened p) (cb_of p ev) = Some (o1 p)" by blast
  have "cb_run (o1 p) (concat (map (cb_of p) es)) = Some (live p)" if "p < 6" for p
    using Cons.prems(2) [OF that] 1(2) [OF that] by (simp add: cb_run_append)
  then show ?case using Cons.IH [of o1 "tr @ out" s1] Cons.prems(1) 1(1) 2 by simp
qed simp

end
