(* ===== verification/Legoport_Dcm.thy ===== *)
theory Legoport_Dcm
  imports Legoport_Pwm Lump_Engine
begin

text \<open>
  The device connection manager of the six ports, \<^verbatim>\<open>boards/spike-prime-hub/src/stm32_legoport.c\<close>: a
  state machine that finds out what is plugged in by driving and sampling the identification pins of a
  port, confirms a result that repeats, and hands the port to the protocol engine when the device speaks
  UART. This theory holds the data and the operations.

  The electrical side is an argument: a sampled level is a function of the pin sampled and of how all pins
  of the port are configured at that moment. Every access to a pin is recorded, in order, so that what the
  scan does to the socket can be stated. A tick of the machine ends where the code returns to its work
  queue, or where it leaves the lock to call the handoff callback; the two critical sections around that
  call are definitions of their own.
\<close>

section \<open>Data\<close>

datatype legoport_type_id_e =
    LEGOPORT_TYPE_NONE | LEGOPORT_TYPE_LPF2_MMOTOR | LEGOPORT_TYPE_LPF2_TRAIN | LEGOPORT_TYPE_LPF2_TURN
  | LEGOPORT_TYPE_LPF2_POWER | LEGOPORT_TYPE_LPF2_TOUCH | LEGOPORT_TYPE_LPF2_LMOTOR | LEGOPORT_TYPE_LPF2_XMOTOR
  | LEGOPORT_TYPE_LPF2_LIGHT | LEGOPORT_TYPE_LPF2_LIGHT1 | LEGOPORT_TYPE_LPF2_LIGHT2 | LEGOPORT_TYPE_LPF2_TPOINT
  | LEGOPORT_TYPE_LPF2_EXPLOD | LEGOPORT_TYPE_LPF2_3_PART | LEGOPORT_TYPE_LPF2_UNKNOWN_UART

fun type_code :: "legoport_type_id_e \<Rightarrow> nat" where
  "type_code LEGOPORT_TYPE_NONE = 0"
| "type_code LEGOPORT_TYPE_LPF2_MMOTOR = 1"
| "type_code LEGOPORT_TYPE_LPF2_TRAIN = 2"
| "type_code LEGOPORT_TYPE_LPF2_TURN = 3"
| "type_code LEGOPORT_TYPE_LPF2_POWER = 4"
| "type_code LEGOPORT_TYPE_LPF2_TOUCH = 5"
| "type_code LEGOPORT_TYPE_LPF2_LMOTOR = 6"
| "type_code LEGOPORT_TYPE_LPF2_XMOTOR = 7"
| "type_code LEGOPORT_TYPE_LPF2_LIGHT = 8"
| "type_code LEGOPORT_TYPE_LPF2_LIGHT1 = 9"
| "type_code LEGOPORT_TYPE_LPF2_LIGHT2 = 10"
| "type_code LEGOPORT_TYPE_LPF2_TPOINT = 11"
| "type_code LEGOPORT_TYPE_LPF2_EXPLOD = 12"
| "type_code LEGOPORT_TYPE_LPF2_3_PART = 13"
| "type_code LEGOPORT_TYPE_LPF2_UNKNOWN_UART = 14"

definition DEV_ID_GROUP_GND :: nat where "DEV_ID_GROUP_GND = 0"
definition DEV_ID_GROUP_VCC :: nat where "DEV_ID_GROUP_VCC = 1"
definition DEV_ID_GROUP_PULL_DOWN :: nat where "DEV_ID_GROUP_PULL_DOWN = 2"
definition DEV_ID_GROUP_OPEN :: nat where "DEV_ID_GROUP_OPEN = 3"

lemmas dev_id_groups = DEV_ID_GROUP_GND_def DEV_ID_GROUP_VCC_def DEV_ID_GROUP_PULL_DOWN_def DEV_ID_GROUP_OPEN_def

definition g_type_lookup :: "legoport_type_id_e list list" where
  "g_type_lookup =
     [[LEGOPORT_TYPE_LPF2_POWER, LEGOPORT_TYPE_LPF2_TURN, LEGOPORT_TYPE_LPF2_LIGHT2],
      [LEGOPORT_TYPE_LPF2_TRAIN, LEGOPORT_TYPE_LPF2_LMOTOR, LEGOPORT_TYPE_LPF2_LIGHT1],
      [LEGOPORT_TYPE_LPF2_MMOTOR, LEGOPORT_TYPE_LPF2_XMOTOR, LEGOPORT_TYPE_LPF2_LIGHT]]"

definition LEGOPORT_TICK_MS :: int where "LEGOPORT_TICK_MS = 2"
definition LEGOPORT_AFFIRMATIVE_MATCH :: nat where "LEGOPORT_AFFIRMATIVE_MATCH = 20"
definition LEGOPORT_UNOWNED_PROBE_MS :: int where "LEGOPORT_UNOWNED_PROBE_MS = 100"
definition LEGOPORT_UNOWNED_DISCONNECT_K :: nat where "LEGOPORT_UNOWNED_DISCONNECT_K = 3"

definition LEGOPORT_FLAG_CONNECTED :: byte where "LEGOPORT_FLAG_CONNECTED = 1"
definition LEGOPORT_FLAG_IS_UART :: byte where "LEGOPORT_FLAG_IS_UART = 2"
definition LEGOPORT_FLAG_IS_PASSIVE :: byte where "LEGOPORT_FLAG_IS_PASSIVE = 4"
definition LEGOPORT_FLAG_HANDOFF_OK :: byte where "LEGOPORT_FLAG_HANDOFF_OK = 8"

lemmas legoport_flags = LEGOPORT_FLAG_CONNECTED_def LEGOPORT_FLAG_IS_UART_def LEGOPORT_FLAG_IS_PASSIVE_def
  LEGOPORT_FLAG_HANDOFF_OK_def

datatype dcm_state_e =
    DCM_S0_INIT | DCM_S1_READ_ID2_A | DCM_S2_READ_ID2_B | DCM_S2A_TOUCH_SETTLE | DCM_S2B_TOUCH_SAMPLE
  | DCM_S3_READ_ID1_A | DCM_S3_READ_ID1_B | DCM_S4_OPEN_PD | DCM_S4_ID1_SETTLE_WAIT | DCM_S5_DRIVE_ID2_HI
  | DCM_S6_READ_ID1_C | DCM_S6_READ_ID1_D | DCM_S7_PROBE_RX | DCM_S7_READ_RX_HI | DCM_S7B_READ_RX_LO
  | DCM_S8_PRE_FINAL_WAIT | DCM_S8_FINALIZE | DCM_LATCHED_UART_OWNED | DCM_LATCHED_UART_UNOWNED_IDLE

text \<open>
  The state of a port. The two sample registers hold 0 or 1 and are booleans; the callback pointer is
  absent or the identity of a function. Of the mutex nothing is left, the semaphores are their counts
  (below zero: threads waiting).
\<close>

record legoport_state_s =
  dc_state :: dcm_state_e
  type_id :: legoport_type_id_e
  prev_type_id :: legoport_type_id_e
  confirmed_type :: legoport_type_id_e
  id1_group :: nat
  match_count :: nat
  gpio_value :: bool
  prev_gpio_value :: bool
  unowned_disc_streak :: nat
  unowned_other_streak :: nat
  unowned_other_type :: legoport_type_id_e
  in_unowned_rescan :: bool
  unowned_idle_until :: int
  handoff_cb :: "nat option"
  handoff_priv :: nat
  handoff_generation :: "32 word"
  handoff_inflight :: "32 word"
  handoff_waiters :: "32 word"
  handoff_quiescent :: int
  event_counter :: "32 word"
  state_change_sem :: int
  dc_flags :: byte

section \<open>Pins\<close>

datatype dcm_pin = Gpio1 | Gpio2 | Uart_Tx | Uart_Rx | Uart_Buf

datatype pin_cfg = P_In | P_Lo | P_Hi | P_Af

datatype pin_io = Cfg dcm_pin pin_cfg | Sample dcm_pin bool

record dcm_hw =
  hw_pin :: "dcm_pin \<Rightarrow> pin_cfg"
  hw_io :: "pin_io list"

type_synonym dcm_env = "(dcm_pin \<Rightarrow> pin_cfg) \<Rightarrow> dcm_pin \<Rightarrow> bool"

definition configgpio :: "dcm_pin \<Rightarrow> pin_cfg \<Rightarrow> dcm_hw \<Rightarrow> dcm_hw" where
  "configgpio p c h = h\<lparr>hw_pin := (hw_pin h)(p := c), hw_io := hw_io h @ [Cfg p c]\<rparr>"

definition gpioread :: "dcm_env \<Rightarrow> dcm_pin \<Rightarrow> dcm_hw \<Rightarrow> bool \<times> dcm_hw" where
  "gpioread env p h = (env (hw_pin h) p, h\<lparr>hw_io := hw_io h @ [Sample p (env (hw_pin h) p)]\<rparr>)"

text \<open>
  The wiring: the package pin of each role, per port, the drive strength class (backup-domain pins are
  slow) and the alternate function of the UART.
\<close>

datatype gpio_speed = Speed_2MHz | Speed_50MHz

record legoport_pin_s =
  lp_gpio1 :: "gpio \<times> gpio_speed"
  lp_gpio2 :: "gpio \<times> gpio_speed"
  lp_uart_tx :: gpio
  lp_uart_rx :: gpio
  lp_uart_buf :: gpio
  lp_af :: nat
  port_index :: nat

definition g_legoport_pins :: "legoport_pin_s list" where
  "g_legoport_pins =
     [\<lparr>lp_gpio1 = ((CHR ''D'', 7), Speed_50MHz), lp_gpio2 = ((CHR ''D'', 8), Speed_50MHz),
       lp_uart_tx = (CHR ''E'', 8), lp_uart_rx = (CHR ''E'', 7), lp_uart_buf = (CHR ''A'', 10), lp_af = 8, port_index = 0\<rparr>,
      \<lparr>lp_gpio1 = ((CHR ''D'', 9), Speed_50MHz), lp_gpio2 = ((CHR ''D'', 10), Speed_50MHz),
       lp_uart_tx = (CHR ''D'', 1), lp_uart_rx = (CHR ''D'', 0), lp_uart_buf = (CHR ''A'', 8), lp_af = 11, port_index = 1\<rparr>,
      \<lparr>lp_gpio1 = ((CHR ''D'', 11), Speed_50MHz), lp_gpio2 = ((CHR ''E'', 4), Speed_50MHz),
       lp_uart_tx = (CHR ''E'', 1), lp_uart_rx = (CHR ''E'', 0), lp_uart_buf = (CHR ''E'', 5), lp_af = 8, port_index = 2\<rparr>,
      \<lparr>lp_gpio1 = ((CHR ''C'', 15), Speed_2MHz), lp_gpio2 = ((CHR ''C'', 14), Speed_2MHz),
       lp_uart_tx = (CHR ''C'', 12), lp_uart_rx = (CHR ''D'', 2), lp_uart_buf = (CHR ''B'', 2), lp_af = 8, port_index = 3\<rparr>,
      \<lparr>lp_gpio1 = ((CHR ''C'', 13), Speed_2MHz), lp_gpio2 = ((CHR ''E'', 12), Speed_50MHz),
       lp_uart_tx = (CHR ''E'', 3), lp_uart_rx = (CHR ''E'', 2), lp_uart_buf = (CHR ''B'', 5), lp_af = 11, port_index = 4\<rparr>,
      \<lparr>lp_gpio1 = ((CHR ''C'', 11), Speed_2MHz), lp_gpio2 = ((CHR ''E'', 6), Speed_50MHz),
       lp_uart_tx = (CHR ''D'', 15), lp_uart_rx = (CHR ''D'', 14), lp_uart_buf = (CHR ''C'', 5), lp_af = 11, port_index = 5\<rparr>]"

definition socket_pins :: "legoport_pin_s \<Rightarrow> gpio list" where
  "socket_pins p = [fst (lp_gpio1 p), fst (lp_gpio2 p), lp_uart_tx p, lp_uart_rx p, lp_uart_buf p]"

section \<open>Publication\<close>

definition legoport_update_flags :: "legoport_state_s \<Rightarrow> legoport_state_s" where
  "legoport_update_flags s =
     (let f0 = (0 :: byte);
          f1 = (if confirmed_type s \<noteq> LEGOPORT_TYPE_NONE then f0 OR LEGOPORT_FLAG_CONNECTED else f0);
          f2 = (if confirmed_type s = LEGOPORT_TYPE_LPF2_UNKNOWN_UART then f1 OR LEGOPORT_FLAG_IS_UART
                else if confirmed_type s \<noteq> LEGOPORT_TYPE_NONE then f1 OR LEGOPORT_FLAG_IS_PASSIVE else f1);
          f3 = (if dc_state s = DCM_LATCHED_UART_OWNED then f2 OR LEGOPORT_FLAG_HANDOFF_OK else f2)
      in s\<lparr>dc_flags := f3\<rparr>)"

definition legoport_post_change :: "legoport_type_id_e \<Rightarrow> legoport_state_s \<Rightarrow> legoport_state_s" where
  "legoport_post_change new_type s =
     (if confirmed_type s = new_type then s
      else
        let s1 = legoport_update_flags (s\<lparr>confirmed_type := new_type, event_counter := event_counter s + 1\<rparr>) in
        if state_change_sem s1 \<le> 0 then s1\<lparr>state_change_sem := state_change_sem s1 + 1\<rparr> else s1)"

section \<open>Handoff\<close>

definition ENOSYS :: int where "ENOSYS = 38"

definition unowned_gate :: "int \<Rightarrow> int" where
  "unowned_gate now = u64 (now + MSEC2TICK LEGOPORT_UNOWNED_PROBE_MS)"

definition enter_unowned :: "int \<Rightarrow> legoport_state_s \<Rightarrow> legoport_state_s" where
  "enter_unowned now s =
     s\<lparr>dc_state := DCM_LATCHED_UART_UNOWNED_IDLE, in_unowned_rescan := False, unowned_disc_streak := 0,
       unowned_other_streak := 0, unowned_other_type := LEGOPORT_TYPE_NONE, unowned_idle_until := unowned_gate now\<rparr>"

text \<open>
  Up to the call: what the function keeps in its locals is the callback, its argument and the generation.
\<close>

type_synonym handoff_locals = "nat option \<times> nat \<times> 32 word"

definition handoff_enter :: "legoport_state_s \<Rightarrow> handoff_locals \<times> legoport_state_s" where
  "handoff_enter s =
     ((handoff_cb s, handoff_priv s, handoff_generation s),
      if handoff_cb s \<noteq> None then s\<lparr>handoff_inflight := handoff_inflight s + 1\<rparr> else s)"

text \<open>After the call, which returned \<open>ret\<close> (or was not made when no callback was registered).\<close>

definition handoff_result :: "int \<Rightarrow> int \<Rightarrow> handoff_locals \<Rightarrow> legoport_state_s \<Rightarrow> legoport_state_s" where
  "handoff_result now ret loc s =
     (case loc of (cb_local, priv_local, gen_local) \<Rightarrow>
        if cb_local \<noteq> None \<and> gen_local = handoff_generation s then
          if ret = OK then s\<lparr>dc_state := DCM_LATCHED_UART_OWNED, dc_flags := dc_flags s OR LEGOPORT_FLAG_HANDOFF_OK\<rparr>
          else enter_unowned now s
        else if cb_local = None then enter_unowned now s
        else s)"

definition handoff_leave :: "handoff_locals \<Rightarrow> legoport_state_s \<Rightarrow> legoport_state_s" where
  "handoff_leave loc s =
     (if fst loc \<noteq> None then
        let s1 = s\<lparr>handoff_inflight := handoff_inflight s - 1\<rparr> in
        if handoff_inflight s1 = 0 \<and> handoff_waiters s1 > 0 then s1\<lparr>handoff_quiescent := handoff_quiescent s1 + 1\<rparr>
        else s1
      else s)"

definition handoff_exit :: "int \<Rightarrow> int \<Rightarrow> handoff_locals \<Rightarrow> legoport_state_s \<Rightarrow> legoport_state_s" where
  "handoff_exit now ret loc s = handoff_leave loc (handoff_result now ret loc s)"

text \<open>The whole function when no other thread touches the port during the call.\<close>

definition legoport_invoke_handoff :: "int \<Rightarrow> int \<Rightarrow> legoport_state_s \<Rightarrow> legoport_state_s" where
  "legoport_invoke_handoff now cb_ret s =
     (case handoff_enter s of (loc, s1) \<Rightarrow> handoff_exit now (if fst loc = None then - ENOSYS else cb_ret) loc s1)"

section \<open>One state of the scan\<close>

text \<open>
  What a \<^verbatim>\<open>case\<close> of the state machine ends in: the code returns to the work queue, goes round the loop
  again, or calls the handoff.
\<close>

datatype dcm_verdict = Yield | Again | Invoke_Handoff

type_synonym dcm_result = "dcm_verdict \<times> legoport_state_s \<times> dcm_hw"

definition dcm_unowned_idle :: "int \<Rightarrow> legoport_state_s \<Rightarrow> dcm_hw \<Rightarrow> dcm_result" where
  "dcm_unowned_idle now s h =
     (if i64 (now - unowned_idle_until s) < 0 then (Yield, s, h)
      else (Again, s\<lparr>dc_state := DCM_S0_INIT, in_unowned_rescan := True, match_count := 0,
                     prev_type_id := LEGOPORT_TYPE_NONE\<rparr>, h))"

definition dcm_s0_init :: "legoport_state_s \<Rightarrow> dcm_hw \<Rightarrow> dcm_result" where
  "dcm_s0_init s h =
     (Yield, s\<lparr>type_id := LEGOPORT_TYPE_NONE, id1_group := DEV_ID_GROUP_OPEN, dc_state := DCM_S1_READ_ID2_A\<rparr>,
      configgpio Gpio2 P_In (configgpio Uart_Buf P_Lo (configgpio Uart_Tx P_Hi h)))"

definition dcm_s1_read_id2_a :: "dcm_env \<Rightarrow> legoport_state_s \<Rightarrow> dcm_hw \<Rightarrow> dcm_result" where
  "dcm_s1_read_id2_a env s h =
     (case gpioread env Gpio2 h of (v, h1) \<Rightarrow>
        (Yield, s\<lparr>prev_gpio_value := v, dc_state := DCM_S2_READ_ID2_B\<rparr>, configgpio Uart_Tx P_Lo h1))"

definition dcm_s2_read_id2_b :: "dcm_env \<Rightarrow> legoport_state_s \<Rightarrow> dcm_hw \<Rightarrow> dcm_result" where
  "dcm_s2_read_id2_b env s h =
     (case gpioread env Gpio2 h of (v, h1) \<Rightarrow>
        let s1 = s\<lparr>gpio_value := v\<rparr> in
        if prev_gpio_value s1 \<and> \<not> gpio_value s1 then
          (Yield, s1\<lparr>type_id := LEGOPORT_TYPE_LPF2_TOUCH, dc_state := DCM_S2A_TOUCH_SETTLE\<rparr>,
           configgpio Uart_Tx P_In (configgpio Uart_Buf P_Hi h1))
        else if \<not> prev_gpio_value s1 \<and> gpio_value s1 then
          (Again, s1\<lparr>type_id := LEGOPORT_TYPE_LPF2_TPOINT, dc_state := DCM_S8_PRE_FINAL_WAIT\<rparr>, h1)
        else (Again, s1\<lparr>dc_state := DCM_S3_READ_ID1_A\<rparr>, h1))"

definition dcm_s2a_touch_settle :: "legoport_state_s \<Rightarrow> dcm_hw \<Rightarrow> dcm_result" where
  "dcm_s2a_touch_settle s h = (Again, s\<lparr>dc_state := DCM_S2B_TOUCH_SAMPLE\<rparr>, h)"

definition dcm_s2b_touch_sample :: "dcm_env \<Rightarrow> legoport_state_s \<Rightarrow> dcm_hw \<Rightarrow> dcm_result" where
  "dcm_s2b_touch_sample env s h =
     (case gpioread env Gpio1 h of (v, h1) \<Rightarrow> (Again, s\<lparr>dc_state := DCM_S8_PRE_FINAL_WAIT\<rparr>, h1))"

definition dcm_s3_read_id1_a :: "dcm_env \<Rightarrow> legoport_state_s \<Rightarrow> dcm_hw \<Rightarrow> dcm_result" where
  "dcm_s3_read_id1_a env s h =
     (case gpioread env Gpio1 h of (v, h1) \<Rightarrow>
        (Yield, s\<lparr>prev_gpio_value := v, dc_state := DCM_S3_READ_ID1_B\<rparr>, configgpio Uart_Tx P_Hi h1))"

definition dcm_s3_read_id1_b :: "dcm_env \<Rightarrow> legoport_state_s \<Rightarrow> dcm_hw \<Rightarrow> dcm_result" where
  "dcm_s3_read_id1_b env s h =
     (case gpioread env Gpio1 h of (v, h1) \<Rightarrow>
        let s1 = s\<lparr>gpio_value := v\<rparr> in
        if prev_gpio_value s1 \<and> gpio_value s1 then
          (Again, s1\<lparr>id1_group := DEV_ID_GROUP_VCC, dc_state := DCM_S4_ID1_SETTLE_WAIT\<rparr>, h1)
        else if \<not> prev_gpio_value s1 \<and> \<not> gpio_value s1 then
          (Again, s1\<lparr>id1_group := DEV_ID_GROUP_GND, dc_state := DCM_S4_ID1_SETTLE_WAIT\<rparr>, h1)
        else
          (Yield, s1\<lparr>dc_state := DCM_S4_OPEN_PD\<rparr>, configgpio Uart_Tx P_In (configgpio Uart_Buf P_Hi h1)))"

definition dcm_s4_open_pd :: "dcm_env \<Rightarrow> legoport_state_s \<Rightarrow> dcm_hw \<Rightarrow> dcm_result" where
  "dcm_s4_open_pd env s h =
     (case gpioread env Gpio1 h of (v, h1) \<Rightarrow>
        (Again, s\<lparr>id1_group := (if v then DEV_ID_GROUP_OPEN else DEV_ID_GROUP_PULL_DOWN),
                  dc_state := DCM_S4_ID1_SETTLE_WAIT\<rparr>, h1))"

definition dcm_s4_id1_settle_wait :: "legoport_state_s \<Rightarrow> dcm_hw \<Rightarrow> dcm_result" where
  "dcm_s4_id1_settle_wait s h = (Yield, s\<lparr>dc_state := DCM_S5_DRIVE_ID2_HI\<rparr>, h)"

definition dcm_s5_drive_id2_hi :: "legoport_state_s \<Rightarrow> dcm_hw \<Rightarrow> dcm_result" where
  "dcm_s5_drive_id2_hi s h =
     (Yield, s\<lparr>dc_state := DCM_S6_READ_ID1_C\<rparr>,
      configgpio Gpio2 P_Hi (configgpio Uart_Tx P_In (configgpio Uart_Buf P_Hi h)))"

definition dcm_s6_read_id1_c :: "dcm_env \<Rightarrow> legoport_state_s \<Rightarrow> dcm_hw \<Rightarrow> dcm_result" where
  "dcm_s6_read_id1_c env s h =
     (case gpioread env Gpio1 h of (v, h1) \<Rightarrow>
        (Yield, s\<lparr>prev_gpio_value := v, dc_state := DCM_S6_READ_ID1_D\<rparr>, configgpio Gpio2 P_Lo h1))"

definition dcm_s6_read_id1_d :: "dcm_env \<Rightarrow> legoport_state_s \<Rightarrow> dcm_hw \<Rightarrow> dcm_result" where
  "dcm_s6_read_id1_d env s h =
     (case gpioread env Gpio1 h of (v, h1) \<Rightarrow>
        let s1 = s\<lparr>gpio_value := v\<rparr> in
        if prev_gpio_value s1 \<and> \<not> gpio_value s1 then
          (Again, s1\<lparr>type_id := (if id1_group s1 = DEV_ID_GROUP_OPEN then LEGOPORT_TYPE_LPF2_3_PART else type_id s1),
                     dc_state := DCM_S8_PRE_FINAL_WAIT\<rparr>, h1)
        else if \<not> prev_gpio_value s1 \<and> gpio_value s1 then
          (Again, s1\<lparr>type_id := LEGOPORT_TYPE_LPF2_EXPLOD, dc_state := DCM_S8_PRE_FINAL_WAIT\<rparr>, h1)
        else
          (Yield, s1\<lparr>dc_state := DCM_S7_PROBE_RX\<rparr>,
           configgpio Gpio2 P_Hi (configgpio Uart_Buf P_Lo (configgpio Uart_Tx P_Hi h1))))"

definition dcm_s7_probe_rx :: "dcm_env \<Rightarrow> legoport_state_s \<Rightarrow> dcm_hw \<Rightarrow> dcm_result" where
  "dcm_s7_probe_rx env s h =
     (case gpioread env Uart_Rx h of (v, h1) \<Rightarrow>
        if v then
          (Yield, s\<lparr>dc_state := DCM_S7_READ_RX_HI\<rparr>, configgpio Uart_Rx P_Lo (configgpio Gpio2 P_Lo h1))
        else
          (Again, s\<lparr>type_id := (if id1_group s < 3 then g_type_lookup ! id1_group s ! DEV_ID_GROUP_GND
                                else LEGOPORT_TYPE_LPF2_UNKNOWN_UART),
                    dc_state := DCM_S8_PRE_FINAL_WAIT\<rparr>, h1))"

definition dcm_s7_read_rx_hi :: "dcm_env \<Rightarrow> legoport_state_s \<Rightarrow> dcm_hw \<Rightarrow> dcm_result" where
  "dcm_s7_read_rx_hi env s h =
     (case gpioread env Uart_Rx (configgpio Uart_Rx P_In h) of (v, h1) \<Rightarrow>
        (Again, s\<lparr>type_id := (if id1_group s < 3
                    then g_type_lookup ! id1_group s ! (if \<not> v then DEV_ID_GROUP_PULL_DOWN else DEV_ID_GROUP_VCC)
                    else type_id s),
                  dc_state := DCM_S7B_READ_RX_LO\<rparr>, h1))"

definition dcm_s7b_read_rx_lo :: "legoport_state_s \<Rightarrow> dcm_hw \<Rightarrow> dcm_result" where
  "dcm_s7b_read_rx_lo s h = (Again, s\<lparr>dc_state := DCM_S8_PRE_FINAL_WAIT\<rparr>, h)"

definition dcm_s8_pre_final_wait :: "legoport_state_s \<Rightarrow> dcm_hw \<Rightarrow> dcm_result" where
  "dcm_s8_pre_final_wait s h = (Yield, s\<lparr>dc_state := DCM_S8_FINALIZE\<rparr>, h)"

section \<open>The end of a scan\<close>

definition scan_baseline :: "dcm_hw \<Rightarrow> dcm_hw" where
  "scan_baseline h = configgpio Uart_Rx P_In (configgpio Uart_Buf P_Lo (configgpio Uart_Tx P_Hi (configgpio Gpio2 P_In h)))"

definition rearm_gate :: "int \<Rightarrow> legoport_state_s \<Rightarrow> legoport_state_s" where
  "rearm_gate now s =
     s\<lparr>in_unowned_rescan := False, dc_state := DCM_LATCHED_UART_UNOWNED_IDLE, unowned_idle_until := unowned_gate now\<rparr>"

definition drop_latch :: "legoport_state_s \<Rightarrow> legoport_state_s" where
  "drop_latch s =
     s\<lparr>in_unowned_rescan := False, dc_state := DCM_S0_INIT, match_count := 0, prev_type_id := LEGOPORT_TYPE_NONE\<rparr>"

text \<open>The confirmation of a type while a UART device nobody owns is being watched.\<close>

definition dcm_unowned_confirm :: "int \<Rightarrow> legoport_type_id_e \<Rightarrow> legoport_state_s \<Rightarrow> legoport_state_s" where
  "dcm_unowned_confirm now new_confirmed s =
     (if new_confirmed = LEGOPORT_TYPE_LPF2_UNKNOWN_UART then
        rearm_gate now (s\<lparr>unowned_disc_streak := 0, unowned_other_streak := 0\<rparr>)
      else if new_confirmed = LEGOPORT_TYPE_NONE then
        let s1 = s\<lparr>unowned_disc_streak := (unowned_disc_streak s + 1) mod 256\<rparr> in
        if unowned_disc_streak s1 \<ge> LEGOPORT_UNOWNED_DISCONNECT_K then drop_latch s1 else rearm_gate now s1
      else
        let s1 = (if unowned_other_type s = new_confirmed
                  then s\<lparr>unowned_other_streak := (unowned_other_streak s + 1) mod 256\<rparr>
                  else s\<lparr>unowned_other_streak := 1, unowned_other_type := new_confirmed\<rparr>) in
        if unowned_other_streak s1 \<ge> LEGOPORT_UNOWNED_DISCONNECT_K then drop_latch s1 else rearm_gate now s1)"

definition restart_scan :: "legoport_state_s \<Rightarrow> legoport_state_s" where
  "restart_scan s = s\<lparr>prev_type_id := type_id s, dc_state := DCM_S0_INIT\<rparr>"

definition dcm_s8_finalize :: "int \<Rightarrow> legoport_state_s \<Rightarrow> dcm_hw \<Rightarrow> dcm_result" where
  "dcm_s8_finalize now s h =
     (let h1 = scan_baseline h in
      if type_id s = prev_type_id s then
        let s1 = (if match_count s < 255 then s\<lparr>match_count := match_count s + 1\<rparr> else s) in
        if match_count s1 \<ge> LEGOPORT_AFFIRMATIVE_MATCH then
          let new_confirmed = type_id s1; s2 = legoport_post_change new_confirmed s1 in
          if in_unowned_rescan s2 then (Yield, dcm_unowned_confirm now new_confirmed s2, h1)
          else if new_confirmed = LEGOPORT_TYPE_LPF2_UNKNOWN_UART then (Invoke_Handoff, s2, h1)
          else (Yield, restart_scan s2, h1)
        else (Yield, restart_scan s1, h1)
      else (Yield, restart_scan (s\<lparr>match_count := 0\<rparr>), h1))"

section \<open>The step\<close>

definition dcm_case :: "dcm_env \<Rightarrow> int \<Rightarrow> legoport_state_s \<Rightarrow> dcm_hw \<Rightarrow> dcm_result" where
  "dcm_case env now s h =
     (case dc_state s of
        DCM_LATCHED_UART_OWNED \<Rightarrow> (Yield, s, h)
      | DCM_LATCHED_UART_UNOWNED_IDLE \<Rightarrow> dcm_unowned_idle now s h
      | DCM_S0_INIT \<Rightarrow> dcm_s0_init s h
      | DCM_S1_READ_ID2_A \<Rightarrow> dcm_s1_read_id2_a env s h
      | DCM_S2_READ_ID2_B \<Rightarrow> dcm_s2_read_id2_b env s h
      | DCM_S2A_TOUCH_SETTLE \<Rightarrow> dcm_s2a_touch_settle s h
      | DCM_S2B_TOUCH_SAMPLE \<Rightarrow> dcm_s2b_touch_sample env s h
      | DCM_S3_READ_ID1_A \<Rightarrow> dcm_s3_read_id1_a env s h
      | DCM_S3_READ_ID1_B \<Rightarrow> dcm_s3_read_id1_b env s h
      | DCM_S4_OPEN_PD \<Rightarrow> dcm_s4_open_pd env s h
      | DCM_S4_ID1_SETTLE_WAIT \<Rightarrow> dcm_s4_id1_settle_wait s h
      | DCM_S5_DRIVE_ID2_HI \<Rightarrow> dcm_s5_drive_id2_hi s h
      | DCM_S6_READ_ID1_C \<Rightarrow> dcm_s6_read_id1_c env s h
      | DCM_S6_READ_ID1_D \<Rightarrow> dcm_s6_read_id1_d env s h
      | DCM_S7_PROBE_RX \<Rightarrow> dcm_s7_probe_rx env s h
      | DCM_S7_READ_RX_HI \<Rightarrow> dcm_s7_read_rx_hi env s h
      | DCM_S7B_READ_RX_LO \<Rightarrow> dcm_s7b_read_rx_lo s h
      | DCM_S8_PRE_FINAL_WAIT \<Rightarrow> dcm_s8_pre_final_wait s h
      | DCM_S8_FINALIZE \<Rightarrow> dcm_s8_finalize now s h)"

lemmas dcm_case_defs = dcm_unowned_idle_def dcm_s0_init_def dcm_s1_read_id2_a_def dcm_s2_read_id2_b_def
  dcm_s2a_touch_settle_def dcm_s2b_touch_sample_def dcm_s3_read_id1_a_def dcm_s3_read_id1_b_def dcm_s4_open_pd_def
  dcm_s4_id1_settle_wait_def dcm_s5_drive_id2_hi_def dcm_s6_read_id1_c_def dcm_s6_read_id1_d_def dcm_s7_probe_rx_def
  dcm_s7_read_rx_hi_def dcm_s7b_read_rx_lo_def dcm_s8_pre_final_wait_def

text \<open>
  The loop of the step goes round only towards a later state of the scan, and the idle state only to its
  start: the number of rounds left is bounded by the position of the state.
\<close>

fun dcm_rank :: "dcm_state_e \<Rightarrow> nat" where
  "dcm_rank DCM_LATCHED_UART_UNOWNED_IDLE = 1"
| "dcm_rank DCM_S2_READ_ID2_B = 1"
| "dcm_rank DCM_S2A_TOUCH_SETTLE = 2"
| "dcm_rank DCM_S2B_TOUCH_SAMPLE = 1"
| "dcm_rank DCM_S3_READ_ID1_B = 1"
| "dcm_rank DCM_S4_OPEN_PD = 1"
| "dcm_rank DCM_S6_READ_ID1_D = 1"
| "dcm_rank DCM_S7_PROBE_RX = 1"
| "dcm_rank DCM_S7_READ_RX_HI = 2"
| "dcm_rank DCM_S7B_READ_RX_LO = 1"
| "dcm_rank _ = 0"

lemma dcm_again_rank:
  assumes "dcm_case env now s h = (Again, s', h')"
  shows "dcm_rank (dc_state s') < dcm_rank (dc_state s)"
proof (cases "dc_state s = DCM_S8_FINALIZE")
  case True
  with assms show ?thesis
    by (simp add: dcm_case_def dcm_s8_finalize_def Let_def split: if_splits)
next
  case False
  with assms show ?thesis
    by (cases "dc_state s") (auto simp: dcm_case_def dcm_case_defs gpioread_def Let_def split: if_splits)
qed

text \<open>The result says whether the step stopped at the call of the handoff.\<close>

function legoport_dcm_step :: "dcm_env \<Rightarrow> int \<Rightarrow> legoport_state_s \<Rightarrow> dcm_hw \<Rightarrow> bool \<times> legoport_state_s \<times> dcm_hw" where
  "legoport_dcm_step env now s h =
     (case dcm_case env now s h of
        (Yield, s', h') \<Rightarrow> (False, s', h')
      | (Again, s', h') \<Rightarrow> legoport_dcm_step env now s' h'
      | (Invoke_Handoff, s', h') \<Rightarrow> (True, s', h'))"
  by pat_completeness auto

termination
  by (relation "measure (\<lambda>(env, now, s, h). dcm_rank (dc_state s))") (auto dest: dcm_again_rank [OF sym])

declare legoport_dcm_step.simps [simp del]

section \<open>The worker\<close>

text \<open>
  One port's turn when nothing interleaves with the callback, whose outcome is an argument, as is the
  clock at the moment it is read.
\<close>

definition legoport_dcm_turn :: "dcm_env \<Rightarrow> int \<Rightarrow> int \<Rightarrow> legoport_state_s \<Rightarrow> dcm_hw \<Rightarrow> legoport_state_s \<times> dcm_hw" where
  "legoport_dcm_turn env now cb_ret s h =
     (case legoport_dcm_step env now s h of (call, s', h') \<Rightarrow>
        (if call then legoport_invoke_handoff now cb_ret s' else s', h'))"

record legoport_stats_s =
  max_step_us :: "32 word"
  max_interval_us :: "32 word"
  total_invocations :: "32 word"
  late_4ms :: "32 word"
  late_10ms :: "32 word"
  late_100ms :: "32 word"

record legoport_driver =
  g_legoport_state :: "(legoport_state_s \<times> dcm_hw) list"
  g_stats :: legoport_stats_s
  g_last_invoke_ticks :: int
  g_legoport_initialized :: bool
  g_work_queued :: bool

definition TICK2USEC :: "int \<Rightarrow> int" where "TICK2USEC t = t * 10"

definition worker_stats_enter :: "int \<Rightarrow> legoport_driver \<Rightarrow> legoport_driver" where
  "worker_stats_enter now_ticks g =
     (let st0 = (g_stats g)\<lparr>total_invocations := total_invocations (g_stats g) + 1\<rparr>;
          interval = (word_of_int (TICK2USEC (i64 (now_ticks - g_last_invoke_ticks g))) :: 32 word);
          st1 = (if max_interval_us st0 < interval then st0\<lparr>max_interval_us := interval\<rparr> else st0);
          st2 = (if 4000 < interval then st1\<lparr>late_4ms := late_4ms st1 + 1\<rparr> else st1);
          st3 = (if 10000 < interval then st2\<lparr>late_10ms := late_10ms st2 + 1\<rparr> else st2);
          st4 = (if 100000 < interval then st3\<lparr>late_100ms := late_100ms st3 + 1\<rparr> else st3)
      in g\<lparr>g_stats := (if g_last_invoke_ticks g \<noteq> 0 then st4 else st0), g_last_invoke_ticks := now_ticks\<rparr>)"

definition worker_stats_leave :: "int \<Rightarrow> int \<Rightarrow> legoport_driver \<Rightarrow> legoport_driver" where
  "worker_stats_leave t0_ticks end_ticks g =
     (let dt = (word_of_int (TICK2USEC end_ticks) :: 32 word) - word_of_int (TICK2USEC t0_ticks) in
      if max_step_us (g_stats g) < dt then g\<lparr>g_stats := (g_stats g)\<lparr>max_step_us := dt\<rparr>\<rparr> else g)"

text \<open>What the environment shows one invocation: the levels, the clock and the callback's answer, per port.\<close>

record worker_env =
  we_start :: int
  we_level :: "nat \<Rightarrow> dcm_env"
  we_now :: "nat \<Rightarrow> int"
  we_cb :: "nat \<Rightarrow> int"
  we_end :: int

definition legoport_dcm_worker :: "worker_env \<Rightarrow> legoport_driver \<Rightarrow> legoport_driver" where
  "legoport_dcm_worker w g =
     (let g1 = worker_stats_enter (we_start w) g;
          g2 = fold (\<lambda>p d. d\<lparr>g_legoport_state := (g_legoport_state d)[p := 
                  (case g_legoport_state d ! p of (s, h) \<Rightarrow> legoport_dcm_turn (we_level w p) (we_now w p) (we_cb w p) s h)]\<rparr>)
                 [0..<BOARD_LEGOPORT_COUNT] g1
      in (worker_stats_leave (we_start w) (we_end w) g2)\<lparr>g_work_queued := True\<rparr>)"

section \<open>Interface\<close>

definition legoport_boot :: legoport_state_s where
  "legoport_boot =
     \<lparr>dc_state = DCM_S0_INIT, type_id = LEGOPORT_TYPE_NONE, prev_type_id = LEGOPORT_TYPE_NONE,
      confirmed_type = LEGOPORT_TYPE_NONE, id1_group = 0, match_count = 0, gpio_value = False,
      prev_gpio_value = False, unowned_disc_streak = 0, unowned_other_streak = 0,
      unowned_other_type = LEGOPORT_TYPE_NONE, in_unowned_rescan = False, unowned_idle_until = 0,
      handoff_cb = None, handoff_priv = 0, handoff_generation = 0, handoff_inflight = 0, handoff_waiters = 0,
      handoff_quiescent = 0, event_counter = 0, state_change_sem = 0, dc_flags = 0\<rparr>"

definition port_baseline :: "dcm_hw \<Rightarrow> dcm_hw" where
  "port_baseline h =
     configgpio Uart_Rx P_In (configgpio Gpio1 P_In (configgpio Gpio2 P_In (configgpio Uart_Buf P_Lo
       (configgpio Uart_Tx P_Hi h))))"

text \<open>The outcome of queueing the worker is an argument.\<close>

definition stm32_legoport_initialize :: "int \<Rightarrow> legoport_driver \<Rightarrow> int \<times> legoport_driver" where
  "stm32_legoport_initialize wq g =
     (if g_legoport_initialized g then (OK, g)
      else
        (wq, g\<lparr>g_legoport_state := map (\<lambda>(s, h). (legoport_boot, port_baseline h)) (g_legoport_state g),
               g_stats := (g_stats g)\<lparr>max_step_us := 0, max_interval_us := 0\<rparr>,
               g_last_invoke_ticks := 0, g_legoport_initialized := True, g_work_queued := (0 \<le> wq)\<rparr>))"

definition legoport_port_ok :: "int \<Rightarrow> bool" where
  "legoport_port_ok port \<longleftrightarrow> 0 \<le> port \<and> port < int BOARD_LEGOPORT_COUNT"

text \<open>
  Registering and releasing begin with a critical section that invalidates the callback in flight; while
  there is one, the caller waits: it counts itself as a waiter, drops the lock and sleeps, and when it
  wakes it takes itself off the count and looks again.
\<close>

definition register_begin :: "nat option \<Rightarrow> nat \<Rightarrow> legoport_state_s \<Rightarrow> legoport_state_s" where
  "register_begin cb priv s =
     s\<lparr>handoff_cb := cb, handoff_priv := priv, handoff_generation := handoff_generation s + 1\<rparr>"

definition drain_sleep :: "legoport_state_s \<Rightarrow> legoport_state_s" where
  "drain_sleep s = s\<lparr>handoff_waiters := handoff_waiters s + 1, handoff_quiescent := handoff_quiescent s - 1\<rparr>"

definition drain_wake :: "legoport_state_s \<Rightarrow> legoport_state_s" where
  "drain_wake s = s\<lparr>handoff_waiters := handoff_waiters s - 1\<rparr>"

definition release_finish :: "legoport_state_s \<Rightarrow> dcm_hw \<Rightarrow> legoport_state_s \<times> dcm_hw" where
  "release_finish s h =
     (legoport_post_change LEGOPORT_TYPE_NONE
        (s\<lparr>dc_state := DCM_S0_INIT, match_count := 0, prev_type_id := LEGOPORT_TYPE_NONE, in_unowned_rescan := False,
           unowned_disc_streak := 0, unowned_other_streak := 0, unowned_other_type := LEGOPORT_TYPE_NONE,
           dc_flags := dc_flags s AND NOT LEGOPORT_FLAG_HANDOFF_OK\<rparr>),
      port_baseline h)"

text \<open>The two functions when no callback is in flight.\<close>

definition stm32_legoport_register_uart_handoff ::
    "int \<Rightarrow> nat option \<Rightarrow> nat \<Rightarrow> legoport_driver \<Rightarrow> int \<times> legoport_driver" where
  "stm32_legoport_register_uart_handoff port cb priv g =
     (if \<not> legoport_port_ok port then (- EINVAL, g)
      else case g_legoport_state g ! nat port of (s, h) \<Rightarrow>
        (OK, g\<lparr>g_legoport_state := (g_legoport_state g)[nat port := (register_begin cb priv s, h)]\<rparr>))"

definition stm32_legoport_release_uart :: "int \<Rightarrow> legoport_driver \<Rightarrow> int \<times> legoport_driver" where
  "stm32_legoport_release_uart port g =
     (if \<not> legoport_port_ok port then (- EINVAL, g)
      else case g_legoport_state g ! nat port of (s, h) \<Rightarrow>
        (OK, g\<lparr>g_legoport_state := (g_legoport_state g)[nat port := release_finish (register_begin None 0 s) h]\<rparr>))"

definition stm32_legoport_get_max_step_us :: "legoport_driver \<Rightarrow> 32 word" where
  "stm32_legoport_get_max_step_us g = max_step_us (g_stats g)"

definition stm32_legoport_get_max_interval_us :: "legoport_driver \<Rightarrow> 32 word" where
  "stm32_legoport_get_max_interval_us g = max_interval_us (g_stats g)"

definition stm32_legoport_reset_stats :: "legoport_driver \<Rightarrow> legoport_driver" where
  "stm32_legoport_reset_stats g =
     g\<lparr>g_stats := \<lparr>max_step_us = 0, max_interval_us = 0, total_invocations = 0, late_4ms = 0, late_10ms = 0,
                  late_100ms = 0\<rparr>, g_last_invoke_ticks := 0\<rparr>"

definition stm32_legoport_get_stats :: "legoport_driver \<Rightarrow> legoport_stats_s" where
  "stm32_legoport_get_stats g = g_stats g"

record legoport_info_s =
  device_type :: nat
  li_flags :: byte
  li_event_counter :: "32 word"

definition stm32_legoport_get_info :: "int \<Rightarrow> bool \<Rightarrow> legoport_driver \<Rightarrow> int \<times> legoport_info_s option" where
  "stm32_legoport_get_info port out_given g =
     (if \<not> legoport_port_ok port \<or> \<not> out_given then (- EINVAL, None)
      else
        let s = fst (g_legoport_state g ! nat port) in
        (OK, Some \<lparr>device_type = type_code (confirmed_type s), li_flags = dc_flags s, li_event_counter = event_counter s\<rparr>))"

text \<open>
  Waiting for a change. Between two looks at the counter the thread sleeps on the semaphore; what happens
  meanwhile is one round of the environment: how the wait ended, and the counter at the next look. The
  rounds that end in neither a timeout nor a signal go on; running out of rounds is still waiting.
\<close>

fun wait_change_loop :: "(int \<times> 32 word) list \<Rightarrow> 32 word \<Rightarrow> 32 word \<Rightarrow> (int \<times> 32 word option) option" where
  "wait_change_loop rounds snapshot cur =
     (if cur \<noteq> snapshot then Some (OK, Some cur)
      else case rounds of
        [] \<Rightarrow> None
      | (ret, cur') # rest \<Rightarrow>
          if ret = - ETIMEDOUT then Some (- ETIMEDOUT, None)
          else if ret = - EINTR then Some (- EINTR, None)
          else wait_change_loop rest snapshot cur')"

definition stm32_legoport_wait_change ::
    "int \<Rightarrow> 32 word \<Rightarrow> (int \<times> 32 word) list \<Rightarrow> 32 word \<Rightarrow> (int \<times> 32 word option) option" where
  "stm32_legoport_wait_change port snapshot rounds cur =
     (if \<not> legoport_port_ok port then Some (- EINVAL, None) else wait_change_loop rounds snapshot cur)"

end
