(* ===== verification/Legoport_Detect.thy ===== *)
theory Legoport_Detect
  imports Legoport_Dcm
begin

text \<open>
  What one port's detection does by itself: every step returns after at most three rounds, a scan of a
  device that does not move computes a decision table over its levels, and a device that stays is
  published after a bounded number of ticks.
\<close>

section \<open>A step returns\<close>

text \<open>The loop of the step with the number of rounds it may take.\<close>

fun dcm_rounds :: "nat \<Rightarrow> dcm_env \<Rightarrow> int \<Rightarrow> legoport_state_s \<Rightarrow> dcm_hw \<Rightarrow> (bool \<times> legoport_state_s \<times> dcm_hw) option" where
  "dcm_rounds 0 env now s h = None"
| "dcm_rounds (Suc n) env now s h =
     (case dcm_case env now s h of
        (Yield, s', h') \<Rightarrow> Some (False, s', h')
      | (Again, s', h') \<Rightarrow> dcm_rounds n env now s' h'
      | (Invoke_Handoff, s', h') \<Rightarrow> Some (True, s', h'))"

lemma dcm_rounds_enough:
  "dcm_rank (dc_state s) < n \<Longrightarrow> dcm_rounds n env now s h = Some (legoport_dcm_step env now s h)"
proof (induction n arbitrary: s h)
  case (Suc n)
  obtain v s' h' where c: "dcm_case env now s h = (v, s', h')" by (cases "dcm_case env now s h")
  show ?case
  proof (cases v)
    case Again
    then have "dcm_rank (dc_state s') < n" using dcm_again_rank [of env now s h s' h'] c Suc.prems by simp
    then show ?thesis using Suc.IH Again c by (simp add: legoport_dcm_step.simps [of env now s h])
  qed (simp_all add: c legoport_dcm_step.simps [of env now s h])
qed simp

lemma dcm_rank_bound: "dcm_rank st < 3"
  by (cases st) simp_all

section \<open>Symbolic ticks\<close>

text \<open>The configuration of a socket as far as a scan changes it: ID1 is always an input.\<close>

fun socket :: "pin_cfg \<Rightarrow> pin_cfg \<Rightarrow> pin_cfg \<Rightarrow> pin_cfg \<Rightarrow> dcm_pin \<Rightarrow> pin_cfg" where
  "socket tx buf g2 rx Gpio1 = P_In"
| "socket tx buf g2 rx Gpio2 = g2"
| "socket tx buf g2 rx Uart_Tx = tx"
| "socket tx buf g2 rx Uart_Rx = rx"
| "socket tx buf g2 rx Uart_Buf = buf"

lemma socket_upd [simp]:
  "(socket tx buf g2 rx)(Uart_Tx := c) = socket c buf g2 rx"
  "(socket tx buf g2 rx)(Uart_Buf := c) = socket tx c g2 rx"
  "(socket tx buf g2 rx)(Gpio2 := c) = socket tx buf c rx"
  "(socket tx buf g2 rx)(Uart_Rx := c) = socket tx buf g2 c"
  by (rule ext, case_tac x; simp)+

lemma socket_intro:
  assumes "p Gpio1 = P_In"
  shows "p = socket (p Uart_Tx) (p Uart_Buf) (p Gpio2) (p Uart_Rx)"
proof
  fix x show "p x = socket (p Uart_Tx) (p Uart_Buf) (p Gpio2) (p Uart_Rx) x" using assms by (cases x) simp_all
qed

text \<open>A tick of the environment: the clock, and what the callback would answer.\<close>

definition dcm_tick :: "dcm_env \<Rightarrow> int \<times> int \<Rightarrow> legoport_state_s \<times> dcm_hw \<Rightarrow> legoport_state_s \<times> dcm_hw" where
  "dcm_tick env e c = legoport_dcm_turn env (fst e) (snd e) (fst c) (snd c)"

lemma configgpio_rec [simp]: "configgpio p c \<lparr>hw_pin = f, hw_io = io\<rparr> = \<lparr>hw_pin = f(p := c), hw_io = io @ [Cfg p c]\<rparr>"
  by (simp add: configgpio_def)

lemma gpioread_rec [simp]: "gpioread env p \<lparr>hw_pin = f, hw_io = io\<rparr> = (env f p, \<lparr>hw_pin = f, hw_io = io @ [Sample p (env f p)]\<rparr>)"
  by (simp add: gpioread_def)

lemmas step_unfold = legoport_dcm_step.simps dcm_case_def dcm_case_defs

text \<open>What a device looks like on the probes of a scan, in the order the scan makes them.\<close>

definition id2_hi :: "dcm_env \<Rightarrow> bool" where "id2_hi env = env (socket P_Hi P_Lo P_In P_In) Gpio2"
definition id2_lo :: "dcm_env \<Rightarrow> bool" where "id2_lo env = env (socket P_Lo P_Lo P_In P_In) Gpio2"
definition id1_lo :: "dcm_env \<Rightarrow> bool" where "id1_lo env = env (socket P_Lo P_Lo P_In P_In) Gpio1"
definition id1_hi :: "dcm_env \<Rightarrow> bool" where "id1_hi env = env (socket P_Hi P_Lo P_In P_In) Gpio1"
definition id1_free :: "dcm_env \<Rightarrow> bool" where "id1_free env = env (socket P_In P_Hi P_In P_In) Gpio1"
definition id1_id2_hi :: "dcm_env \<Rightarrow> bool" where "id1_id2_hi env = env (socket P_In P_Hi P_Hi P_In) Gpio1"
definition id1_id2_lo :: "dcm_env \<Rightarrow> bool" where "id1_id2_lo env = env (socket P_In P_Hi P_Lo P_In) Gpio1"
definition rx_id2_hi :: "dcm_env \<Rightarrow> bool" where "rx_id2_hi env = env (socket P_Hi P_Lo P_Hi P_In) Uart_Rx"
definition rx_id2_lo :: "dcm_env \<Rightarrow> bool" where "rx_id2_lo env = env (socket P_Hi P_Lo P_Lo P_In) Uart_Rx"

lemmas probes = id2_hi_def id2_lo_def id1_lo_def id1_hi_def id1_free_def id1_id2_hi_def id1_id2_lo_def
  rx_id2_hi_def rx_id2_lo_def

definition id1_class :: "dcm_env \<Rightarrow> nat" where
  "id1_class env =
     (if id1_lo env \<and> id1_hi env then DEV_ID_GROUP_VCC
      else if \<not> id1_lo env \<and> \<not> id1_hi env then DEV_ID_GROUP_GND
      else if id1_free env then DEV_ID_GROUP_OPEN else DEV_ID_GROUP_PULL_DOWN)"

definition classify :: "dcm_env \<Rightarrow> legoport_type_id_e" where
  "classify env =
     (if id2_hi env \<and> \<not> id2_lo env then LEGOPORT_TYPE_LPF2_TOUCH
      else if \<not> id2_hi env \<and> id2_lo env then LEGOPORT_TYPE_LPF2_TPOINT
      else if id1_id2_hi env \<and> \<not> id1_id2_lo env then
        (if id1_class env = DEV_ID_GROUP_OPEN then LEGOPORT_TYPE_LPF2_3_PART else LEGOPORT_TYPE_NONE)
      else if \<not> id1_id2_hi env \<and> id1_id2_lo env then LEGOPORT_TYPE_LPF2_EXPLOD
      else if \<not> rx_id2_hi env then
        (if id1_class env = DEV_ID_GROUP_OPEN then LEGOPORT_TYPE_LPF2_UNKNOWN_UART
         else g_type_lookup ! id1_class env ! DEV_ID_GROUP_GND)
      else if id1_class env = DEV_ID_GROUP_OPEN then LEGOPORT_TYPE_NONE
      else g_type_lookup ! id1_class env ! (if rx_id2_lo env then DEV_ID_GROUP_VCC else DEV_ID_GROUP_PULL_DOWN))"

text \<open>The ticks of a scan up to its last one, which finalizes it.\<close>

definition scan_len :: "dcm_env \<Rightarrow> nat" where
  "scan_len env =
     (if id2_hi env \<and> \<not> id2_lo env then 4
      else if \<not> id2_hi env \<and> id2_lo env then 3
      else (if id1_lo env = id1_hi env then 7 else 8) +
           (if id1_id2_hi env \<noteq> id1_id2_lo env then 0 else if \<not> rx_id2_hi env then 1 else 2))"

text \<open>Some ticks of an undisturbed scan, whatever the clock shows and whatever was recorded before.\<close>

primrec dcm_ticks :: "dcm_env \<Rightarrow> (nat \<Rightarrow> int \<times> int) \<Rightarrow> nat \<Rightarrow> legoport_state_s \<times> dcm_hw \<Rightarrow> legoport_state_s \<times> dcm_hw" where
  "dcm_ticks env clock 0 c = c"
| "dcm_ticks env clock (Suc n) c = dcm_tick env (clock n) (dcm_ticks env clock n c)"

lemma dcm_ticks_add: "dcm_ticks env clock (n + m) c = dcm_ticks env (\<lambda>i. clock (n + i)) m (dcm_ticks env clock n c)"
  by (induction m) simp_all

definition leads ::
    "dcm_env \<Rightarrow> nat \<Rightarrow> legoport_state_s \<Rightarrow> (dcm_pin \<Rightarrow> pin_cfg) \<Rightarrow> legoport_state_s \<Rightarrow> (dcm_pin \<Rightarrow> pin_cfg) \<Rightarrow> bool" where
  "leads env n s p s' p' \<longleftrightarrow>
     (\<forall>clock io. \<exists>io'. dcm_ticks env clock n (s, \<lparr>hw_pin = p, hw_io = io\<rparr>) = (s', \<lparr>hw_pin = p', hw_io = io'\<rparr>))"

lemma leads_trans:
  assumes "leads env n s p s' p'" "leads env m s' p' s'' p''"
  shows "leads env (n + m) s p s'' p''"
  unfolding leads_def
proof (intro allI)
  fix clock io
  obtain io' where "dcm_ticks env clock n (s, \<lparr>hw_pin = p, hw_io = io\<rparr>) = (s', \<lparr>hw_pin = p', hw_io = io'\<rparr>)"
    using assms(1) by (auto simp: leads_def)
  then show "\<exists>io'. dcm_ticks env clock (n + m) (s, \<lparr>hw_pin = p, hw_io = io\<rparr>) = (s'', \<lparr>hw_pin = p'', hw_io = io'\<rparr>)"
    using assms(2) by (simp add: leads_def dcm_ticks_add)
qed

lemma leads_sum:
  assumes "leads env n s p s' p'" "leads env m s' p' s'' p''" "n + m = k"
  shows "leads env k s p s'' p''"
  using leads_trans [OF assms(1,2)] assms(3) by simp

lemma leads_tick:
  assumes "\<And>now io. \<exists>io'. legoport_dcm_step env now s \<lparr>hw_pin = p, hw_io = io\<rparr> = (False, s', \<lparr>hw_pin = p', hw_io = io'\<rparr>)"
  shows "leads env 1 s p s' p'"
  unfolding leads_def
proof (intro allI)
  fix clock :: "nat \<Rightarrow> int \<times> int" and io
  obtain io' where "legoport_dcm_step env (fst (clock 0)) s \<lparr>hw_pin = p, hw_io = io\<rparr> = (False, s', \<lparr>hw_pin = p', hw_io = io'\<rparr>)"
    using assms by blast
  then show "\<exists>io'. dcm_ticks env clock 1 (s, \<lparr>hw_pin = p, hw_io = io\<rparr>) = (s', \<lparr>hw_pin = p', hw_io = io'\<rparr>)"
    by (simp add: dcm_tick_def legoport_dcm_turn_def)
qed

text \<open>What a scan keeps: everything but its place and its scratch registers.\<close>

definition scratch :: "dcm_state_e \<Rightarrow> legoport_type_id_e \<Rightarrow> nat \<Rightarrow> bool \<Rightarrow> bool \<Rightarrow> legoport_state_s \<Rightarrow> legoport_state_s" where
  "scratch st t g v pv s = s\<lparr>dc_state := st, type_id := t, id1_group := g, gpio_value := v, prev_gpio_value := pv\<rparr>"

lemma scratch_simps [simp]:
  "dc_state (scratch st t g v pv s) = st" "type_id (scratch st t g v pv s) = t"
  "id1_group (scratch st t g v pv s) = g" "gpio_value (scratch st t g v pv s) = v"
  "prev_gpio_value (scratch st t g v pv s) = pv"
  "(scratch st t g v pv s)\<lparr>dc_state := st'\<rparr> = scratch st' t g v pv s"
  "(scratch st t g v pv s)\<lparr>type_id := t'\<rparr> = scratch st t' g v pv s"
  "(scratch st t g v pv s)\<lparr>id1_group := g'\<rparr> = scratch st t g' v pv s"
  "(scratch st t g v pv s)\<lparr>gpio_value := v'\<rparr> = scratch st t g v' pv s"
  "(scratch st t g v pv s)\<lparr>prev_gpio_value := pv'\<rparr> = scratch st t g v pv' s"
  by (simp_all add: scratch_def)

lemma scratch_intro: "s = scratch (dc_state s) (type_id s) (id1_group s) (gpio_value s) (prev_gpio_value s) s"
  by (simp add: scratch_def)

text \<open>One tick in each state of the scan.\<close>

lemma tick_s0:
  "leads env 1 (scratch DCM_S0_INIT t g v pv s) (socket tx buf g2 rx)
     (scratch DCM_S1_READ_ID2_A LEGOPORT_TYPE_NONE DEV_ID_GROUP_OPEN v pv s) (socket P_Hi P_Lo P_In rx)"
  by (rule leads_tick) (simp add: legoport_dcm_step.simps dcm_case_def dcm_s0_init_def)

lemma tick_s1:
  "leads env 1 (scratch DCM_S1_READ_ID2_A t g v pv s) (socket tx buf g2 rx)
     (scratch DCM_S2_READ_ID2_B t g v (env (socket tx buf g2 rx) Gpio2) s) (socket P_Lo buf g2 rx)"
  by (rule leads_tick) (simp add: legoport_dcm_step.simps dcm_case_def dcm_s1_read_id2_a_def)

lemma tick_s2_touch:
  assumes "pv" "\<not> env (socket tx buf g2 rx) Gpio2"
  shows "leads env 1 (scratch DCM_S2_READ_ID2_B t g v pv s) (socket tx buf g2 rx)
     (scratch DCM_S2A_TOUCH_SETTLE LEGOPORT_TYPE_LPF2_TOUCH g False pv s) (socket P_In P_Hi g2 rx)"
  using assms by (intro leads_tick) (simp add: legoport_dcm_step.simps dcm_case_def dcm_s2_read_id2_b_def)

lemma wait_final:
  "legoport_dcm_step env now (scratch DCM_S8_PRE_FINAL_WAIT t g v pv s) h = (False, scratch DCM_S8_FINALIZE t g v pv s, h)"
  by (simp add: legoport_dcm_step.simps dcm_case_def dcm_s8_pre_final_wait_def)

lemma wait_settle:
  "legoport_dcm_step env now (scratch DCM_S4_ID1_SETTLE_WAIT t g v pv s) h = (False, scratch DCM_S5_DRIVE_ID2_HI t g v pv s, h)"
  by (simp add: legoport_dcm_step.simps dcm_case_def dcm_s4_id1_settle_wait_def)

lemma step_again:
  "dcm_case env now s h = (Again, s', h') \<Longrightarrow> legoport_dcm_step env now s h = legoport_dcm_step env now s' h'"
  by (simp add: legoport_dcm_step.simps [of env now s h])

lemma tick_s2a:
  "leads env 1 (scratch DCM_S2A_TOUCH_SETTLE t g v pv s) (socket tx buf g2 rx)
     (scratch DCM_S8_FINALIZE t g v pv s) (socket tx buf g2 rx)"
proof (rule leads_tick)
  fix now io
  let ?h = "\<lparr>hw_pin = socket tx buf g2 rx, hw_io = io\<rparr>"
  have "legoport_dcm_step env now (scratch DCM_S2A_TOUCH_SETTLE t g v pv s) ?h =
      legoport_dcm_step env now (scratch DCM_S2B_TOUCH_SAMPLE t g v pv s) ?h"
    by (rule step_again) (simp add: dcm_case_def dcm_s2a_touch_settle_def)
  also have "\<dots> = legoport_dcm_step env now (scratch DCM_S8_PRE_FINAL_WAIT t g v pv s) (snd (gpioread env Gpio1 ?h))"
    by (rule step_again) (simp add: dcm_case_def dcm_s2b_touch_sample_def)
  finally show "\<exists>io'. legoport_dcm_step env now (scratch DCM_S2A_TOUCH_SETTLE t g v pv s) ?h =
      (False, scratch DCM_S8_FINALIZE t g v pv s, \<lparr>hw_pin = socket tx buf g2 rx, hw_io = io'\<rparr>)"
    by (simp add: wait_final)
qed

lemma tick_s2_tpoint:
  assumes "\<not> pv" "env (socket tx buf g2 rx) Gpio2"
  shows "leads env 1 (scratch DCM_S2_READ_ID2_B t g v pv s) (socket tx buf g2 rx)
     (scratch DCM_S8_FINALIZE LEGOPORT_TYPE_LPF2_TPOINT g True pv s) (socket tx buf g2 rx)"
  using assms
  by (intro leads_tick) (simp add: legoport_dcm_step.simps [of _ _ "scratch DCM_S2_READ_ID2_B _ _ _ _ _"] dcm_case_def
      dcm_s2_read_id2_b_def wait_final)

lemma tick_s2_other:
  assumes "pv = env (socket tx buf g2 rx) Gpio2"
  shows "leads env 1 (scratch DCM_S2_READ_ID2_B t g v pv s) (socket tx buf g2 rx)
     (scratch DCM_S3_READ_ID1_B t g pv (env (socket tx buf g2 rx) Gpio1) s) (socket P_Hi buf g2 rx)"
  using assms
  by (intro leads_tick) (simp add: legoport_dcm_step.simps [of _ _ "scratch DCM_S2_READ_ID2_B _ _ _ _ _"]
      legoport_dcm_step.simps [of _ _ "scratch DCM_S3_READ_ID1_A _ _ _ _ _"] dcm_case_def
      dcm_s2_read_id2_b_def dcm_s3_read_id1_a_def)

lemma tick_s3b_same:
  assumes "pv = env (socket tx buf g2 rx) Gpio1"
  shows "leads env 1 (scratch DCM_S3_READ_ID1_B t g v pv s) (socket tx buf g2 rx)
     (scratch DCM_S5_DRIVE_ID2_HI t (if pv then DEV_ID_GROUP_VCC else DEV_ID_GROUP_GND) pv pv s) (socket tx buf g2 rx)"
  using assms
  by (intro leads_tick) (simp add: legoport_dcm_step.simps [of _ _ "scratch DCM_S3_READ_ID1_B _ _ _ _ _"] dcm_case_def
      dcm_s3_read_id1_b_def wait_settle)

lemma tick_s3b_diff:
  assumes "pv \<noteq> env (socket tx buf g2 rx) Gpio1"
  shows "leads env 1 (scratch DCM_S3_READ_ID1_B t g v pv s) (socket tx buf g2 rx)
     (scratch DCM_S4_OPEN_PD t g (\<not> pv) pv s) (socket P_In P_Hi g2 rx)"
  using assms
  by (intro leads_tick) (simp add: legoport_dcm_step.simps [of _ _ "scratch DCM_S3_READ_ID1_B _ _ _ _ _"] dcm_case_def
      dcm_s3_read_id1_b_def)

lemma tick_s4:
  "leads env 1 (scratch DCM_S4_OPEN_PD t g v pv s) (socket tx buf g2 rx)
     (scratch DCM_S5_DRIVE_ID2_HI t (if env (socket tx buf g2 rx) Gpio1 then DEV_ID_GROUP_OPEN else DEV_ID_GROUP_PULL_DOWN)
        v pv s) (socket tx buf g2 rx)"
  by (intro leads_tick) (simp add: legoport_dcm_step.simps [of _ _ "scratch DCM_S4_OPEN_PD _ _ _ _ _"] dcm_case_def
      dcm_s4_open_pd_def wait_settle)

lemma tick_s5:
  "leads env 1 (scratch DCM_S5_DRIVE_ID2_HI t g v pv s) (socket tx buf g2 rx)
     (scratch DCM_S6_READ_ID1_C t g v pv s) (socket P_In P_Hi P_Hi rx)"
  by (intro leads_tick) (simp add: legoport_dcm_step.simps dcm_case_def dcm_s5_drive_id2_hi_def)

lemma tick_s6c:
  "leads env 1 (scratch DCM_S6_READ_ID1_C t g v pv s) (socket tx buf g2 rx)
     (scratch DCM_S6_READ_ID1_D t g v (env (socket tx buf g2 rx) Gpio1) s) (socket tx buf P_Lo rx)"
  by (intro leads_tick) (simp add: legoport_dcm_step.simps dcm_case_def dcm_s6_read_id1_c_def)

lemma tick_s6d_diff:
  assumes "pv \<noteq> env (socket tx buf g2 rx) Gpio1"
  shows "leads env 1 (scratch DCM_S6_READ_ID1_D t g v pv s) (socket tx buf g2 rx)
     (scratch DCM_S8_FINALIZE
        (if pv then if g = DEV_ID_GROUP_OPEN then LEGOPORT_TYPE_LPF2_3_PART else t else LEGOPORT_TYPE_LPF2_EXPLOD)
        g (\<not> pv) pv s) (socket tx buf g2 rx)"
  using assms
  by (intro leads_tick) (simp add: legoport_dcm_step.simps [of _ _ "scratch DCM_S6_READ_ID1_D _ _ _ _ _"] dcm_case_def
      dcm_s6_read_id1_d_def wait_final)

lemma tick_s6d_same:
  assumes "pv = env (socket tx buf g2 rx) Gpio1"
  shows "leads env 1 (scratch DCM_S6_READ_ID1_D t g v pv s) (socket tx buf g2 rx)
     (scratch DCM_S7_PROBE_RX t g pv pv s) (socket P_Hi P_Lo P_Hi rx)"
  using assms
  by (intro leads_tick) (simp add: legoport_dcm_step.simps [of _ _ "scratch DCM_S6_READ_ID1_D _ _ _ _ _"] dcm_case_def
      dcm_s6_read_id1_d_def)

lemma tick_s7_low:
  assumes "\<not> env (socket tx buf g2 rx) Uart_Rx"
  shows "leads env 1 (scratch DCM_S7_PROBE_RX t g v pv s) (socket tx buf g2 rx)
     (scratch DCM_S8_FINALIZE
        (if g < 3 then g_type_lookup ! g ! DEV_ID_GROUP_GND else LEGOPORT_TYPE_LPF2_UNKNOWN_UART) g v pv s)
     (socket tx buf g2 rx)"
  using assms
  by (intro leads_tick) (simp add: legoport_dcm_step.simps [of _ _ "scratch DCM_S7_PROBE_RX _ _ _ _ _"] dcm_case_def
      dcm_s7_probe_rx_def wait_final)

lemma tick_s7_high:
  assumes "env (socket tx buf g2 rx) Uart_Rx"
  shows "leads env 1 (scratch DCM_S7_PROBE_RX t g v pv s) (socket tx buf g2 rx)
     (scratch DCM_S7_READ_RX_HI t g v pv s) (socket tx buf P_Lo P_Lo)"
  using assms
  by (intro leads_tick) (simp add: legoport_dcm_step.simps [of _ _ "scratch DCM_S7_PROBE_RX _ _ _ _ _"] dcm_case_def
      dcm_s7_probe_rx_def)

lemma tick_s7_read:
  "leads env 1 (scratch DCM_S7_READ_RX_HI t g v pv s) (socket tx buf g2 rx)
     (scratch DCM_S8_FINALIZE
        (if g < 3 then g_type_lookup ! g ! (if env (socket tx buf g2 P_In) Uart_Rx then DEV_ID_GROUP_VCC
                                            else DEV_ID_GROUP_PULL_DOWN) else t) g v pv s)
     (socket tx buf g2 P_In)"
  by (intro leads_tick) (simp add: legoport_dcm_step.simps [of _ _ "scratch DCM_S7_READ_RX_HI _ _ _ _ _"]
      legoport_dcm_step.simps [of _ _ "scratch DCM_S7B_READ_RX_LO _ _ _ _ _"] dcm_case_def
      dcm_s7_read_rx_hi_def dcm_s7b_read_rx_lo_def wait_final)

section \<open>A scan computes the table\<close>

text \<open>Up to the second look at ID2, up to the class of ID1, and from there to the end.\<close>

lemma scan_to_id2:
  "leads env 2 (scratch DCM_S0_INIT t g v pv s) (socket tx buf g2 P_In)
     (scratch DCM_S2_READ_ID2_B LEGOPORT_TYPE_NONE DEV_ID_GROUP_OPEN v (id2_hi env) s) (socket P_Lo P_Lo P_In P_In)"
  by (rule leads_sum [OF tick_s0]) (simp_all add: id2_hi_def tick_s1 [unfolded One_nat_def])

lemma scan_id1:
  assumes "id2_hi env = id2_lo env"
  shows "\<exists>v' pv' tx' buf'. leads env (if id1_lo env = id1_hi env then 2 else 3)
     (scratch DCM_S2_READ_ID2_B t g v (id2_hi env) s) (socket P_Lo P_Lo P_In P_In)
     (scratch DCM_S5_DRIVE_ID2_HI t (id1_class env) v' pv' s) (socket tx' buf' P_In P_In)"
proof -
  have a: "leads env 1 (scratch DCM_S2_READ_ID2_B t g v (id2_hi env) s) (socket P_Lo P_Lo P_In P_In)
      (scratch DCM_S3_READ_ID1_B t g (id2_hi env) (id1_lo env) s) (socket P_Hi P_Lo P_In P_In)"
    using tick_s2_other [of "id2_hi env" env P_Lo P_Lo P_In P_In] assms by (simp add: id2_lo_def id1_lo_def)
  show ?thesis
  proof (cases "id1_lo env = id1_hi env")
    case True
    then have "leads env 1 (scratch DCM_S3_READ_ID1_B t g (id2_hi env) (id1_lo env) s) (socket P_Hi P_Lo P_In P_In)
        (scratch DCM_S5_DRIVE_ID2_HI t (id1_class env) (id1_lo env) (id1_lo env) s) (socket P_Hi P_Lo P_In P_In)"
      using tick_s3b_same [of "id1_lo env" env P_Hi P_Lo P_In P_In t g "id2_hi env" s]
      by (cases "id1_lo env") (simp_all add: id1_hi_def id1_class_def)
    from leads_sum [OF a this, of 2] True show ?thesis by (simp only: if_True) fastforce
  next
    case False
    then have "leads env 1 (scratch DCM_S3_READ_ID1_B t g (id2_hi env) (id1_lo env) s) (socket P_Hi P_Lo P_In P_In)
        (scratch DCM_S4_OPEN_PD t g (\<not> id1_lo env) (id1_lo env) s) (socket P_In P_Hi P_In P_In)"
      by (intro tick_s3b_diff) (simp add: id1_hi_def)
    moreover have "leads env 1 (scratch DCM_S4_OPEN_PD t g (\<not> id1_lo env) (id1_lo env) s) (socket P_In P_Hi P_In P_In)
        (scratch DCM_S5_DRIVE_ID2_HI t (id1_class env) (\<not> id1_lo env) (id1_lo env) s) (socket P_In P_Hi P_In P_In)"
      using tick_s4 [of env t g "\<not> id1_lo env" "id1_lo env" s P_In P_Hi P_In P_In] False
      by (cases "id1_lo env"; simp add: id1_free_def id1_class_def)
    ultimately have "leads env (1 + 1 + 1) (scratch DCM_S2_READ_ID2_B t g v (id2_hi env) s) (socket P_Lo P_Lo P_In P_In)
        (scratch DCM_S5_DRIVE_ID2_HI t (id1_class env) (\<not> id1_lo env) (id1_lo env) s) (socket P_In P_Hi P_In P_In)"
      using a by (blast intro: leads_trans)
    then show ?thesis using False by (auto simp: numeral_eq_Suc)
  qed
qed

definition tail_type :: "dcm_env \<Rightarrow> nat \<Rightarrow> legoport_type_id_e" where
  "tail_type env g =
     (if id1_id2_hi env \<and> \<not> id1_id2_lo env then
        (if g = DEV_ID_GROUP_OPEN then LEGOPORT_TYPE_LPF2_3_PART else LEGOPORT_TYPE_NONE)
      else if \<not> id1_id2_hi env \<and> id1_id2_lo env then LEGOPORT_TYPE_LPF2_EXPLOD
      else if \<not> rx_id2_hi env then
        (if g < 3 then g_type_lookup ! g ! DEV_ID_GROUP_GND else LEGOPORT_TYPE_LPF2_UNKNOWN_UART)
      else if g < 3 then g_type_lookup ! g ! (if rx_id2_lo env then DEV_ID_GROUP_VCC else DEV_ID_GROUP_PULL_DOWN)
      else LEGOPORT_TYPE_NONE)"

lemma scan_tail:
  "\<exists>v' pv' tx' buf' g2'. leads env (if id1_id2_hi env \<noteq> id1_id2_lo env then 3 else if \<not> rx_id2_hi env then 4 else 5)
     (scratch DCM_S5_DRIVE_ID2_HI LEGOPORT_TYPE_NONE g v pv s) (socket tx buf P_In P_In)
     (scratch DCM_S8_FINALIZE (tail_type env g) g v' pv' s) (socket tx' buf' g2' P_In)"
proof -
  have a: "leads env 2 (scratch DCM_S5_DRIVE_ID2_HI LEGOPORT_TYPE_NONE g v pv s) (socket tx buf P_In P_In)
      (scratch DCM_S6_READ_ID1_D LEGOPORT_TYPE_NONE g v (id1_id2_hi env) s) (socket P_In P_Hi P_Lo P_In)"
    by (rule leads_sum [OF tick_s5]) (simp_all add: id1_id2_hi_def tick_s6c [unfolded One_nat_def])
  show ?thesis
  proof (cases "id1_id2_hi env = id1_id2_lo env")
    case False
    then have "leads env 1 (scratch DCM_S6_READ_ID1_D LEGOPORT_TYPE_NONE g v (id1_id2_hi env) s) (socket P_In P_Hi P_Lo P_In)
        (scratch DCM_S8_FINALIZE (tail_type env g) g (\<not> id1_id2_hi env) (id1_id2_hi env) s) (socket P_In P_Hi P_Lo P_In)"
      using tick_s6d_diff [of "id1_id2_hi env" env P_In P_Hi P_Lo P_In LEGOPORT_TYPE_NONE g v s]
      by (cases "id1_id2_hi env") (simp_all add: id1_id2_lo_def tail_type_def)
    with leads_trans [OF a this] False show ?thesis by (simp, blast)
  next
    case True
    then have b: "leads env 1 (scratch DCM_S6_READ_ID1_D LEGOPORT_TYPE_NONE g v (id1_id2_hi env) s) (socket P_In P_Hi P_Lo P_In)
        (scratch DCM_S7_PROBE_RX LEGOPORT_TYPE_NONE g (id1_id2_hi env) (id1_id2_hi env) s) (socket P_Hi P_Lo P_Hi P_In)"
      by (intro tick_s6d_same) (simp add: id1_id2_lo_def)
    note ab = leads_trans [OF a b]
    show ?thesis
    proof (cases "rx_id2_hi env")
      case False
      then have "leads env 1 (scratch DCM_S7_PROBE_RX LEGOPORT_TYPE_NONE g (id1_id2_hi env) (id1_id2_hi env) s) (socket P_Hi P_Lo P_Hi P_In)
          (scratch DCM_S8_FINALIZE (tail_type env g) g (id1_id2_hi env) (id1_id2_hi env) s) (socket P_Hi P_Lo P_Hi P_In)"
        using tick_s7_low [of env P_Hi P_Lo P_Hi P_In LEGOPORT_TYPE_NONE g "id1_id2_hi env" "id1_id2_hi env" s] True
        by (simp add: rx_id2_hi_def tail_type_def)
      with leads_trans [OF ab this] True False show ?thesis by (simp, blast)
    next
      case hi: True
      then have c: "leads env 1 (scratch DCM_S7_PROBE_RX LEGOPORT_TYPE_NONE g (id1_id2_hi env) (id1_id2_hi env) s) (socket P_Hi P_Lo P_Hi P_In)
          (scratch DCM_S7_READ_RX_HI LEGOPORT_TYPE_NONE g (id1_id2_hi env) (id1_id2_hi env) s) (socket P_Hi P_Lo P_Lo P_Lo)"
        by (intro tick_s7_high) (simp add: rx_id2_hi_def)
      have "leads env 1 (scratch DCM_S7_READ_RX_HI LEGOPORT_TYPE_NONE g (id1_id2_hi env) (id1_id2_hi env) s) (socket P_Hi P_Lo P_Lo P_Lo)
          (scratch DCM_S8_FINALIZE (tail_type env g) g (id1_id2_hi env) (id1_id2_hi env) s) (socket P_Hi P_Lo P_Lo P_In)"
      proof -
        have "tail_type env g = (if g < 3 then g_type_lookup ! g ! (if env (socket P_Hi P_Lo P_Lo P_In) Uart_Rx
            then DEV_ID_GROUP_VCC else DEV_ID_GROUP_PULL_DOWN) else LEGOPORT_TYPE_NONE)"
          using True hi by (simp add: rx_id2_lo_def tail_type_def)
        then show ?thesis by (simp only: tick_s7_read)
      qed
      with leads_trans [OF leads_trans [OF ab c] this] True hi show ?thesis by (simp, blast)
    qed
  qed
qed

lemma tail_type_class: "id2_hi env = id2_lo env \<Longrightarrow> tail_type env (id1_class env) = classify env"
  by (auto simp: tail_type_def classify_def id1_class_def dev_id_groups)

lemma scan_leads:
  "\<exists>g' v' pv' tx' buf' g2'. leads env (scan_len env) (scratch DCM_S0_INIT t g v pv s) (socket tx buf g2 P_In)
     (scratch DCM_S8_FINALIZE (classify env) g' v' pv' s) (socket tx' buf' g2' P_In)"
proof -
  let ?c = "scratch DCM_S2_READ_ID2_B LEGOPORT_TYPE_NONE DEV_ID_GROUP_OPEN v (id2_hi env) s"
  note a = scan_to_id2 [of env t g v pv s tx buf g2]
  consider "id2_hi env" "\<not> id2_lo env" | "\<not> id2_hi env" "id2_lo env" | "id2_hi env = id2_lo env" by blast
  then show ?thesis
  proof cases
    case 1
    then have "leads env 1 ?c (socket P_Lo P_Lo P_In P_In)
        (scratch DCM_S2A_TOUCH_SETTLE LEGOPORT_TYPE_LPF2_TOUCH DEV_ID_GROUP_OPEN False (id2_hi env) s) (socket P_In P_Hi P_In P_In)"
      by (intro tick_s2_touch) (simp_all add: id2_lo_def)
    from leads_trans [OF leads_trans [OF a this] tick_s2a] 1 show ?thesis unfolding scan_len_def classify_def
      by (simp only: simp_thms if_True if_False) (simp, blast)
  next
    case 2
    then have "leads env 1 ?c (socket P_Lo P_Lo P_In P_In)
        (scratch DCM_S8_FINALIZE LEGOPORT_TYPE_LPF2_TPOINT DEV_ID_GROUP_OPEN True (id2_hi env) s) (socket P_Lo P_Lo P_In P_In)"
      by (intro tick_s2_tpoint) (simp_all add: id2_lo_def)
    from leads_trans [OF a this] 2 show ?thesis unfolding scan_len_def classify_def
      by (simp only: simp_thms if_True if_False) (simp, blast)
  next
    case 3
    obtain v1 pv1 tx1 buf1 where b: "leads env (if id1_lo env = id1_hi env then 2 else 3) ?c (socket P_Lo P_Lo P_In P_In)
        (scratch DCM_S5_DRIVE_ID2_HI LEGOPORT_TYPE_NONE (id1_class env) v1 pv1 s) (socket tx1 buf1 P_In P_In)"
      using scan_id1 [OF 3] by blast
    obtain v2 pv2 tx2 buf2 g22 where c: "leads env (if id1_id2_hi env \<noteq> id1_id2_lo env then 3 else if \<not> rx_id2_hi env then 4 else 5)
        (scratch DCM_S5_DRIVE_ID2_HI LEGOPORT_TYPE_NONE (id1_class env) v1 pv1 s) (socket tx1 buf1 P_In P_In)
        (scratch DCM_S8_FINALIZE (tail_type env (id1_class env)) (id1_class env) v2 pv2 s) (socket tx2 buf2 g22 P_In)"
      using scan_tail by blast
    have "scan_len env = 2 + (if id1_lo env = id1_hi env then 2 else 3) +
        (if id1_id2_hi env \<noteq> id1_id2_lo env then 3 else if \<not> rx_id2_hi env then 4 else 5)"
      using 3 by (simp add: scan_len_def)
    with leads_trans [OF leads_trans [OF a b] c] show ?thesis unfolding tail_type_class [OF 3] by metis
  qed
qed

section \<open>Rounds of scans\<close>

text \<open>The state after the last tick of a scan that found \<open>t\<close>: the counters, or the confirmation.\<close>

definition scan_confirm :: "int \<times> int \<Rightarrow> legoport_type_id_e \<Rightarrow> legoport_state_s \<Rightarrow> legoport_state_s" where
  "scan_confirm e t s =
     (let s2 = legoport_post_change t s in
      if in_unowned_rescan s then dcm_unowned_confirm (fst e) t s2
      else if t = LEGOPORT_TYPE_LPF2_UNKNOWN_UART then legoport_invoke_handoff (fst e) (snd e) s2
      else s2\<lparr>prev_type_id := t, dc_state := DCM_S0_INIT\<rparr>)"

definition scan_end :: "int \<times> int \<Rightarrow> legoport_type_id_e \<Rightarrow> legoport_state_s \<Rightarrow> legoport_state_s" where
  "scan_end e t s =
     (if t \<noteq> prev_type_id s then s\<lparr>match_count := 0, prev_type_id := t, dc_state := DCM_S0_INIT\<rparr>
      else
        let s1 = (if match_count s < 255 then s\<lparr>match_count := match_count s + 1\<rparr> else s) in
        if match_count s1 < LEGOPORT_AFFIRMATIVE_MATCH then s1\<lparr>prev_type_id := t, dc_state := DCM_S0_INIT\<rparr>
        else scan_confirm e t s1)"

lemma post_change_keeps [simp]:
  "match_count (legoport_post_change t s) = match_count s" "prev_type_id (legoport_post_change t s) = prev_type_id s"
  "type_id (legoport_post_change t s) = type_id s" "in_unowned_rescan (legoport_post_change t s) = in_unowned_rescan s"
  "dc_state (legoport_post_change t s) = dc_state s" "confirmed_type (legoport_post_change t s) = t"
  "handoff_cb (legoport_post_change t s) = handoff_cb s" "handoff_priv (legoport_post_change t s) = handoff_priv s"
  "handoff_generation (legoport_post_change t s) = handoff_generation s"
  "handoff_inflight (legoport_post_change t s) = handoff_inflight s"
  "handoff_waiters (legoport_post_change t s) = handoff_waiters s"
  "handoff_quiescent (legoport_post_change t s) = handoff_quiescent s"
  "unowned_disc_streak (legoport_post_change t s) = unowned_disc_streak s"
  "unowned_other_streak (legoport_post_change t s) = unowned_other_streak s"
  "unowned_other_type (legoport_post_change t s) = unowned_other_type s"
  by (simp_all add: legoport_post_change_def legoport_update_flags_def Let_def)

lemma finalize_tick:
  assumes "dc_state s = DCM_S8_FINALIZE"
  shows "\<exists>io'. dcm_tick env e (s, \<lparr>hw_pin = socket tx buf g2 rx, hw_io = io\<rparr>) =
    (scan_end e (type_id s) s, \<lparr>hw_pin = socket P_Hi P_Lo P_In P_In, hw_io = io'\<rparr>)"
proof -
  have c: "dcm_case env now s h = dcm_s8_finalize now s h" for now h by (simp add: dcm_case_def assms)
  have b: "\<exists>io'. scan_baseline \<lparr>hw_pin = socket tx buf g2 rx, hw_io = io\<rparr> = \<lparr>hw_pin = socket P_Hi P_Lo P_In P_In, hw_io = io'\<rparr>"
    by (simp add: scan_baseline_def)
  have "dcm_tick env e (s, h) = (scan_end e (type_id s) s, scan_baseline h)" for h
    by (cases "type_id s = prev_type_id s"; cases "match_count s < 255"; cases "in_unowned_rescan s";
        cases "type_id s = LEGOPORT_TYPE_LPF2_UNKNOWN_UART")
      (simp_all add: dcm_tick_def legoport_dcm_turn_def legoport_dcm_step.simps [of env "fst e" s] c dcm_s8_finalize_def
        scan_end_def scan_confirm_def restart_scan_def Let_def)
  with b show ?thesis by simp
qed

lemma scan_len_bound: "scan_len env \<le> 10"
  by (simp add: scan_len_def)

lemma scan_round:
  assumes "dc_state s = DCM_S0_INIT"
  shows "\<exists>g v pv io'. dcm_ticks env clock (Suc (scan_len env)) (s, \<lparr>hw_pin = socket tx buf g2 P_In, hw_io = io\<rparr>) =
    (scan_end (clock (scan_len env)) (classify env) (scratch DCM_S8_FINALIZE (classify env) g v pv s),
     \<lparr>hw_pin = socket P_Hi P_Lo P_In P_In, hw_io = io'\<rparr>)"
proof -
  obtain g' v' pv' tx' buf' g2' where
    "leads env (scan_len env) (scratch (dc_state s) (type_id s) (id1_group s) (gpio_value s) (prev_gpio_value s) s)
       (socket tx buf g2 P_In) (scratch DCM_S8_FINALIZE (classify env) g' v' pv' s) (socket tx' buf' g2' P_In)"
    using scan_leads assms by metis
  then obtain io' where "dcm_ticks env clock (scan_len env) (s, \<lparr>hw_pin = socket tx buf g2 P_In, hw_io = io\<rparr>) =
      (scratch DCM_S8_FINALIZE (classify env) g' v' pv' s, \<lparr>hw_pin = socket tx' buf' g2' P_In, hw_io = io'\<rparr>)"
    unfolding scratch_intro [symmetric] leads_def by blast
  then show ?thesis
    using finalize_tick [of "scratch DCM_S8_FINALIZE (classify env) g' v' pv' s" env "clock (scan_len env)" tx' buf' g2' P_In io']
    by (simp add: scratch_def) blast
qed

lemma scan_end_confirms:
  assumes "prev_type_id s = t" "19 \<le> match_count s"
  shows "\<exists>m. scan_end e t s = scan_confirm e t (s\<lparr>match_count := m\<rparr>)"
proof -
  have "scan_end e t s = scan_confirm e t (s\<lparr>match_count := if match_count s < 255 then match_count s + 1 else match_count s\<rparr>)"
    using assms by (simp add: scan_end_def LEGOPORT_AFFIRMATIVE_MATCH_def Let_def)
  then show ?thesis by blast
qed

lemma scan_end_counts:
  assumes "prev_type_id s = t" "match_count s < 19"
  shows "scan_end e t s = s\<lparr>match_count := match_count s + 1, prev_type_id := t, dc_state := DCM_S0_INIT\<rparr>"
  using assms by (simp add: scan_end_def LEGOPORT_AFFIRMATIVE_MATCH_def Let_def)

lemma scratch_keeps [simp]:
  "prev_type_id (scratch st t g v pv s) = prev_type_id s" "match_count (scratch st t g v pv s) = match_count s"
  "in_unowned_rescan (scratch st t g v pv s) = in_unowned_rescan s" "handoff_cb (scratch st t g v pv s) = handoff_cb s"
  by (simp_all add: scratch_def)

text \<open>The state a run of matching scans ends in, up to the scratch registers and the count.\<close>

definition confirmed_from :: "int \<times> int \<Rightarrow> legoport_type_id_e \<Rightarrow> legoport_state_s \<Rightarrow> legoport_state_s \<Rightarrow> bool" where
  "confirmed_from e t s s' \<longleftrightarrow>
     (\<exists>m g v pv. s' = scan_confirm e t ((scratch DCM_S8_FINALIZE t g v pv s)\<lparr>match_count := m, prev_type_id := t\<rparr>))"

lemma confirmed_from_counted:
  "confirmed_from e t ((scratch st t' g v pv s)\<lparr>match_count := m, prev_type_id := t, dc_state := DCM_S0_INIT\<rparr>) s' \<Longrightarrow>
   confirmed_from e t s s'"
  by (auto simp: confirmed_from_def scratch_def)

lemma matching_scans_confirm:
  assumes "dc_state s = DCM_S0_INIT" "prev_type_id s = classify env" "20 \<le> match_count s + k" "0 < k"
  shows "\<exists>n \<le> k * Suc (scan_len env). \<exists>s' io'. 0 < n \<and> confirmed_from (clock (n - 1)) (classify env) s s' \<and>
    dcm_ticks env clock n (s, \<lparr>hw_pin = socket tx buf g2 P_In, hw_io = io\<rparr>) =
      (s', \<lparr>hw_pin = socket P_Hi P_Lo P_In P_In, hw_io = io'\<rparr>)"
  using assms
proof (induction k arbitrary: s clock tx buf g2 io)
  case (Suc k)
  let ?L = "Suc (scan_len env)" and ?t = "classify env"
  obtain g v pv io' where r: "dcm_ticks env clock ?L (s, \<lparr>hw_pin = socket tx buf g2 P_In, hw_io = io\<rparr>) =
      (scan_end (clock (scan_len env)) ?t (scratch DCM_S8_FINALIZE ?t g v pv s),
       \<lparr>hw_pin = socket P_Hi P_Lo P_In P_In, hw_io = io'\<rparr>)"
    using scan_round [OF Suc.prems(1)] by blast
  let ?s = "scratch DCM_S8_FINALIZE ?t g v pv s"
  show ?case
  proof (cases "19 \<le> match_count s")
    case True
    then obtain m where "scan_end (clock (scan_len env)) ?t ?s = scan_confirm (clock (scan_len env)) ?t (?s\<lparr>match_count := m\<rparr>)"
      using scan_end_confirms [of ?s ?t "clock (scan_len env)"] Suc.prems(2) by auto
    moreover have "?s\<lparr>match_count := m\<rparr> = ?s\<lparr>match_count := m, prev_type_id := ?t\<rparr>"
      using Suc.prems(2) by (simp add: scratch_def)
    ultimately have "confirmed_from (clock (?L - 1)) ?t s (scan_end (clock (scan_len env)) ?t ?s)"
      unfolding confirmed_from_def by (metis diff_Suc_1)
    with r show ?thesis by (intro exI [of _ ?L]) auto
  next
    case False
    then have k: "0 < k" using Suc.prems(3) by simp
    let ?s' = "?s\<lparr>match_count := match_count s + 1, prev_type_id := ?t, dc_state := DCM_S0_INIT\<rparr>"
    have e: "scan_end (clock (scan_len env)) ?t ?s = ?s'"
      using scan_end_counts [of ?s ?t] False Suc.prems(2) by simp
    obtain n s'' io'' where n: "n \<le> k * ?L" "0 < n" "confirmed_from (clock (?L + (n - 1))) ?t ?s' s''"
      "dcm_ticks env (\<lambda>i. clock (?L + i)) n (?s', \<lparr>hw_pin = socket P_Hi P_Lo P_In P_In, hw_io = io'\<rparr>) =
         (s'', \<lparr>hw_pin = socket P_Hi P_Lo P_In P_In, hw_io = io''\<rparr>)"
      using Suc.IH [of ?s' "\<lambda>i. clock (?L + i)" P_Hi P_Lo P_In io'] Suc.prems k by auto
    have i: "?L + (n - 1) = ?L + n - 1" using n(2) by simp
    have "dcm_ticks env clock (?L + n) (s, \<lparr>hw_pin = socket tx buf g2 P_In, hw_io = io\<rparr>) =
        (s'', \<lparr>hw_pin = socket P_Hi P_Lo P_In P_In, hw_io = io''\<rparr>)"
      unfolding dcm_ticks_add r e using n(4) by simp
    moreover have "confirmed_from (clock (?L + n - 1)) ?t s s''"
      using confirmed_from_counted [OF n(3)] i by simp
    ultimately show ?thesis using n(1,2) by (intro exI [of _ "?L + n"]) auto
  qed
qed simp

text \<open>From any start of a scan one more round may be needed, to see that the type is a new one.\<close>

lemma steady_scans_confirm:
  assumes "dc_state s = DCM_S0_INIT"
  shows "\<exists>n \<le> 231. \<exists>s' io'. 0 < n \<and> confirmed_from (clock (n - 1)) (classify env) s s' \<and>
    dcm_ticks env clock n (s, \<lparr>hw_pin = socket tx buf g2 P_In, hw_io = io\<rparr>) =
      (s', \<lparr>hw_pin = socket P_Hi P_Lo P_In P_In, hw_io = io'\<rparr>)"
proof (cases "prev_type_id s = classify env")
  case True
  obtain n s' io' where n: "n \<le> 20 * Suc (scan_len env)" "0 < n" "confirmed_from (clock (n - 1)) (classify env) s s'"
    "dcm_ticks env clock n (s, \<lparr>hw_pin = socket tx buf g2 P_In, hw_io = io\<rparr>) =
      (s', \<lparr>hw_pin = socket P_Hi P_Lo P_In P_In, hw_io = io'\<rparr>)"
    using matching_scans_confirm [OF assms True, of 20 clock tx buf g2 io] by auto
  have "n \<le> 231" using n(1) scan_len_bound [of env] by simp
  with n(2-4) show ?thesis by blast
next
  case False
  let ?L = "Suc (scan_len env)" and ?t = "classify env"
  obtain g v pv io' where r: "dcm_ticks env clock ?L (s, \<lparr>hw_pin = socket tx buf g2 P_In, hw_io = io\<rparr>) =
      (scan_end (clock (scan_len env)) ?t (scratch DCM_S8_FINALIZE ?t g v pv s),
       \<lparr>hw_pin = socket P_Hi P_Lo P_In P_In, hw_io = io'\<rparr>)"
    using scan_round [OF assms] by blast
  let ?s' = "(scratch DCM_S8_FINALIZE ?t g v pv s)\<lparr>match_count := 0, prev_type_id := ?t, dc_state := DCM_S0_INIT\<rparr>"
  have e: "scan_end (clock (scan_len env)) ?t (scratch DCM_S8_FINALIZE ?t g v pv s) = ?s'"
    using False by (simp add: scan_end_def)
  obtain n s'' io'' where n: "n \<le> 20 * ?L" "0 < n" "confirmed_from (clock (?L + (n - 1))) ?t ?s' s''"
    "dcm_ticks env (\<lambda>i. clock (?L + i)) n (?s', \<lparr>hw_pin = socket P_Hi P_Lo P_In P_In, hw_io = io'\<rparr>) =
       (s'', \<lparr>hw_pin = socket P_Hi P_Lo P_In P_In, hw_io = io''\<rparr>)"
    using matching_scans_confirm [of ?s' env 20 "\<lambda>i. clock (?L + i)" P_Hi P_Lo P_In io'] by auto
  have i: "?L + (n - 1) = ?L + n - 1" "?L + n \<le> 231" using n(1,2) scan_len_bound [of env] by simp_all
  have "dcm_ticks env clock (?L + n) (s, \<lparr>hw_pin = socket tx buf g2 P_In, hw_io = io\<rparr>) =
      (s'', \<lparr>hw_pin = socket P_Hi P_Lo P_In P_In, hw_io = io''\<rparr>)"
    unfolding dcm_ticks_add r e using n(4) by simp
  moreover have "confirmed_from (clock (?L + n - 1)) ?t s s''"
    using confirmed_from_counted [OF n(3)] i(1) by simp
  ultimately show ?thesis using i(2) by blast
qed

section \<open>Properties\<close>

lemma invoke_simps [simp]:
  "confirmed_type (legoport_invoke_handoff now r s) = confirmed_type s"
  "dc_state (legoport_invoke_handoff now r s) =
     (if handoff_cb s \<noteq> None \<and> r = OK then DCM_LATCHED_UART_OWNED else DCM_LATCHED_UART_UNOWNED_IDLE)"
  by (simp_all add: legoport_invoke_handoff_def handoff_enter_def handoff_exit_def handoff_leave_def handoff_result_def
      enter_unowned_def Let_def)

text \<open>
  Fact. A step of the detection always returns to the work queue: whatever the levels, the clock and the
  state, the loop inside it goes round at most three times.
\<close>

theorem dcm_step_returns: "dcm_rounds 3 env now s h = Some (legoport_dcm_step env now s h)"
  by (rule dcm_rounds_enough) (rule dcm_rank_bound)

text \<open>What a port has reached when a device of type \<open>t\<close> is published.\<close>

definition settled :: "legoport_type_id_e \<Rightarrow> bool \<Rightarrow> legoport_state_s \<Rightarrow> bool" where
  "settled t accepted s \<longleftrightarrow>
     confirmed_type s = t \<and>
     dc_state s = (if t \<noteq> LEGOPORT_TYPE_LPF2_UNKNOWN_UART then DCM_S0_INIT
                   else if accepted then DCM_LATCHED_UART_OWNED else DCM_LATCHED_UART_UNOWNED_IDLE)"

lemma confirmed_from_settled:
  assumes "confirmed_from e t s s'" "\<not> in_unowned_rescan s"
  shows "settled t (handoff_cb s \<noteq> None \<and> snd e = OK) s'"
proof -
  obtain m g v pv where s': "s' = scan_confirm e t ((scratch DCM_S8_FINALIZE t g v pv s)\<lparr>match_count := m, prev_type_id := t\<rparr>)"
    using assms(1) by (auto simp: confirmed_from_def)
  show ?thesis using assms(2) unfolding s' by (simp add: scan_confirm_def settled_def Let_def)
qed

text \<open>
  C11. A device that stays plugged in is found. Whatever its levels are, within 231 ticks (462 ms) of the
  start of a scan the port publishes exactly the type of the decision table; a UART device is handed to
  the registered callback in the same tick, and the port is owned if the callback accepts.
\<close>

theorem steady_device_confirmed:
  assumes "dc_state s = DCM_S0_INIT" "\<not> in_unowned_rescan s" "hw_pin h Gpio1 = P_In" "hw_pin h Uart_Rx = P_In"
  shows "\<exists>n. n \<le> 231 \<and> settled (classify env) (handoff_cb s \<noteq> None \<and> snd (clock (n - 1)) = OK)
    (fst (dcm_ticks env clock n (s, h)))"
proof -
  have h: "h = \<lparr>hw_pin = socket (hw_pin h Uart_Tx) (hw_pin h Uart_Buf) (hw_pin h Gpio2) P_In, hw_io = hw_io h\<rparr>"
    using socket_intro [of "hw_pin h"] assms(3,4) by simp
  obtain n s' io' where "n \<le> 231" "confirmed_from (clock (n - 1)) (classify env) s s'"
    "dcm_ticks env clock n (s, h) = (s', \<lparr>hw_pin = socket P_Hi P_Lo P_In P_In, hw_io = io'\<rparr>)"
    using steady_scans_confirm [OF assms(1), of clock env "hw_pin h Uart_Tx" "hw_pin h Uart_Buf" "hw_pin h Gpio2" "hw_io h"]
    unfolding h [symmetric] by blast
  then show ?thesis using confirmed_from_settled [OF _ assms(2)] by (intro exI [of _ n]) simp
qed

text \<open>A medium motor: ID1 pulled down, ID2 on ground.\<close>

definition demo_motor :: dcm_env where
  "demo_motor pin p = (case p of
      Gpio1 \<Rightarrow> pin Uart_Tx = P_Hi \<and> pin Uart_Buf = P_Lo
    | Gpio2 \<Rightarrow> False | Uart_Rx \<Rightarrow> False | _ \<Rightarrow> pin p = P_Hi)"

lemma demo_motor_class: "classify demo_motor = LEGOPORT_TYPE_LPF2_MMOTOR"
  by (simp add: classify_def id1_class_def probes demo_motor_def dev_id_groups g_type_lookup_def)

theorem steady_device_confirmed_witness:
  "\<exists>n. n \<le> 231 \<and> settled LEGOPORT_TYPE_LPF2_MMOTOR False
     (fst (dcm_ticks demo_motor (\<lambda>i. (int i, 0)) n (legoport_boot, port_baseline \<lparr>hw_pin = (\<lambda>_. P_Af), hw_io = []\<rparr>)))"
  using steady_device_confirmed [of legoport_boot "port_baseline \<lparr>hw_pin = (\<lambda>_. P_Af), hw_io = []\<rparr>" demo_motor "\<lambda>i. (int i, 0)"]
  by (simp add: legoport_boot_def port_baseline_def demo_motor_class)

section \<open>A UART device nobody took\<close>

lemma idle_tick:
  assumes "dc_state s = DCM_LATCHED_UART_UNOWNED_IDLE" "0 \<le> i64 (fst e - unowned_idle_until s)"
  shows "dcm_tick env e (s, h) = dcm_tick env e
    (s\<lparr>dc_state := DCM_S0_INIT, in_unowned_rescan := True, match_count := 0, prev_type_id := LEGOPORT_TYPE_NONE\<rparr>, h)"
  using step_again [of env "fst e" s h] assms
  by (simp add: dcm_tick_def legoport_dcm_turn_def dcm_case_def dcm_unowned_idle_def)

lemma idle_ticks:
  assumes "dc_state s = DCM_LATCHED_UART_UNOWNED_IDLE" "0 \<le> i64 (fst (clock 0) - unowned_idle_until s)" "0 < n"
  shows "dcm_ticks env clock n (s, h) = dcm_ticks env clock n
    (s\<lparr>dc_state := DCM_S0_INIT, in_unowned_rescan := True, match_count := 0, prev_type_id := LEGOPORT_TYPE_NONE\<rparr>, h)"
proof -
  have "n = 1 + (n - 1)" using assms(3) by simp
  then show ?thesis using dcm_ticks_add [of env clock 1 "n - 1"] idle_tick [OF assms(1,2)] by simp
qed

text \<open>What a rescan that found \<open>t\<close> makes of the latch.\<close>

definition latch_dropped :: "legoport_type_id_e \<Rightarrow> legoport_state_s \<Rightarrow> bool" where
  "latch_dropped t s \<longleftrightarrow>
     (if t = LEGOPORT_TYPE_LPF2_UNKNOWN_UART then False
      else if t = LEGOPORT_TYPE_NONE then LEGOPORT_UNOWNED_DISCONNECT_K \<le> unowned_disc_streak s + 1
      else unowned_other_type s = t \<and> LEGOPORT_UNOWNED_DISCONNECT_K \<le> unowned_other_streak s + 1)"


text \<open>A UART device on an idle port with a callback registered, the last rescan having found the port empty.\<close>

definition demo_uart :: dcm_env where
  "demo_uart pin p = (case p of
      Gpio1 \<Rightarrow> (if pin Uart_Buf = P_Hi then True else pin Uart_Tx = P_Hi)
    | Gpio2 \<Rightarrow> False | Uart_Rx \<Rightarrow> False | _ \<Rightarrow> pin p = P_Hi)"

definition demo_unowned :: legoport_state_s where
  "demo_unowned = legoport_boot\<lparr>dc_state := DCM_LATCHED_UART_UNOWNED_IDLE, unowned_disc_streak := 1, handoff_cb := Some 7\<rparr>"


section \<open>Wiring\<close>

text \<open>
  Fact. The six sockets share no pin with each other, and none with the H-bridges: what the detection of one
  port drives cannot disturb another port or a motor.
\<close>

theorem sockets_share_no_pin:
  "distinct (concat (map socket_pins g_legoport_pins) @ concat (map pins g_pdata)) \<and>
   map port_index g_legoport_pins = [0..<BOARD_LEGOPORT_COUNT]"
  by (simp add: g_legoport_pins_def socket_pins_def g_pdata_def pins_def BOARD_LEGOPORT_COUNT_def upt_rec)

end
