(* ===== verification/Legoport_Handoff.thy ===== *)
theory Legoport_Handoff
  imports Legoport_Detect
begin

text \<open>
  One port with everybody who touches it: the worker, which steps the detection and calls the handoff
  callback outside the lock; threads that register a callback or release the port, and sleep while a
  callback is in flight; the owner of an accepted port, who uses its UART pins. The invariant is proved by
  rule induction, and with it that the flags tell the truth, that a type is published only after twenty
  equal scans, that a callback's argument outlives the call, and that only inputs are sampled.
\<close>

section \<open>The system\<close>

datatype dcm_client = Registering "nat option" nat | Releasing

text \<open>
  \<open>dp_call\<close> is what the worker holds while it is between the two critical sections of a handoff, \<open>dp_sleep\<close>
  the clients that drain, and \<open>dp_scans\<close> the results of all scans, the last one first.
\<close>

record dcm_port =
  dp_st :: legoport_state_s
  dp_hw :: dcm_hw
  dp_call :: "handoff_locals option"
  dp_sleep :: "dcm_client list"
  dp_scans :: "legoport_type_id_e list"

definition note_scan :: "dcm_port \<Rightarrow> legoport_type_id_e list" where
  "note_scan c = (if dc_state (dp_st c) = DCM_S8_FINALIZE then type_id (dp_st c) # dp_scans c else dp_scans c)"

fun client_begin :: "dcm_client \<Rightarrow> legoport_state_s \<Rightarrow> legoport_state_s" where
  "client_begin (Registering cb priv) s = register_begin cb priv s"
| "client_begin Releasing s = register_begin None 0 s"

fun client_finish :: "dcm_client \<Rightarrow> dcm_port \<Rightarrow> dcm_port" where
  "client_finish (Registering cb priv) c = c"
| "client_finish Releasing c =
     (case release_finish (dp_st c) (dp_hw c) of (s, h) \<Rightarrow> c\<lparr>dp_st := s, dp_hw := h\<rparr>)"

text \<open>The pins a callback or an owner may configure are those of the UART.\<close>

definition uart_pins_only :: "dcm_hw \<Rightarrow> dcm_hw \<Rightarrow> bool" where
  "uart_pins_only h h' \<longleftrightarrow> hw_pin h' Gpio1 = hw_pin h Gpio1 \<and> hw_pin h' Gpio2 = hw_pin h Gpio2 \<and> hw_io h' = hw_io h"

definition boot_port :: "dcm_hw \<Rightarrow> dcm_port" where
  "boot_port h = \<lparr>dp_st = legoport_boot, dp_hw = port_baseline h, dp_call = None, dp_sleep = [], dp_scans = []\<rparr>"

text \<open>
  A move of the port; the label is the client whose call returns with it. A callback that refuses leaves
  the pins as it found them. A sleeping client may go on when fewer clients are blocked in the semaphore
  than sleep.
\<close>

definition may_wake :: "dcm_port \<Rightarrow> bool" where
  "may_wake c \<longleftrightarrow> - handoff_quiescent (dp_st c) < int (length (dp_sleep c))"

inductive port_move :: "dcm_port \<Rightarrow> dcm_client option \<Rightarrow> dcm_port \<Rightarrow> bool" where
  tick: "dp_call c = None \<Longrightarrow> legoport_dcm_step env now (dp_st c) (dp_hw c) = (False, s', h') \<Longrightarrow>
    port_move c None (c\<lparr>dp_st := s', dp_hw := h', dp_scans := note_scan c\<rparr>)"
| tick_call: "dp_call c = None \<Longrightarrow> legoport_dcm_step env now (dp_st c) (dp_hw c) = (True, s', h') \<Longrightarrow>
    handoff_enter s' = (loc, s'') \<Longrightarrow>
    port_move c None (c\<lparr>dp_st := s'', dp_hw := h', dp_call := Some loc, dp_scans := note_scan c\<rparr>)"
| cb_return: "dp_call c = Some loc \<Longrightarrow> (if fst loc = None then ret = - ENOSYS else True) \<Longrightarrow>
    (if ret = OK then uart_pins_only (dp_hw c) h' else h' = dp_hw c) \<Longrightarrow>
    port_move c None (c\<lparr>dp_st := handoff_exit now ret loc (dp_st c), dp_hw := h', dp_call := None\<rparr>)"
| owner: "dc_state (dp_st c) = DCM_LATCHED_UART_OWNED \<Longrightarrow> uart_pins_only (dp_hw c) h' \<Longrightarrow>
    port_move c None (c\<lparr>dp_hw := h'\<rparr>)"
| enter_done: "s = client_begin cl (dp_st c) \<Longrightarrow> handoff_inflight s = 0 \<Longrightarrow>
    port_move c (Some cl) (client_finish cl (c\<lparr>dp_st := s\<rparr>))"
| enter_wait: "s = client_begin cl (dp_st c) \<Longrightarrow> handoff_inflight s \<noteq> 0 \<Longrightarrow>
    port_move c None (c\<lparr>dp_st := drain_sleep s, dp_sleep := cl # dp_sleep c\<rparr>)"
| wake_done: "cl \<in> set (dp_sleep c) \<Longrightarrow> may_wake c \<Longrightarrow>
    handoff_inflight (dp_st c) = 0 \<Longrightarrow>
    port_move c (Some cl) (client_finish cl (c\<lparr>dp_st := drain_wake (dp_st c), dp_sleep := remove1 cl (dp_sleep c)\<rparr>))"
| wake_again: "cl \<in> set (dp_sleep c) \<Longrightarrow> may_wake c \<Longrightarrow>
    handoff_inflight (dp_st c) \<noteq> 0 \<Longrightarrow>
    port_move c None (c\<lparr>dp_st := drain_sleep (drain_wake (dp_st c))\<rparr>)"

inductive port_reach :: "dcm_port \<Rightarrow> bool" where
  boot: "port_reach (boot_port h)"
| move: "port_reach c \<Longrightarrow> port_move c l c' \<Longrightarrow> port_reach c'"

section \<open>What a step changes\<close>

text \<open>
  Everything a step of the detection can do to the published part of a port, to its registration and to its
  counters, in one relation: it is kept by going round the loop.
\<close>

definition registration :: "legoport_state_s \<Rightarrow> nat option \<times> nat \<times> 32 word \<times> 32 word \<times> 32 word \<times> int" where
  "registration s = (handoff_cb s, handoff_priv s, handoff_generation s, handoff_inflight s, handoff_waiters s,
     handoff_quiescent s)"

definition published :: "legoport_state_s \<Rightarrow> legoport_type_id_e \<times> byte \<times> 32 word" where
  "published s = (confirmed_type s, dc_flags s, event_counter s)"

definition type_flags :: "legoport_type_id_e \<Rightarrow> byte" where
  "type_flags t = (if t = LEGOPORT_TYPE_NONE then 0
     else if t = LEGOPORT_TYPE_LPF2_UNKNOWN_UART then LEGOPORT_FLAG_CONNECTED OR LEGOPORT_FLAG_IS_UART
     else LEGOPORT_FLAG_CONNECTED OR LEGOPORT_FLAG_IS_PASSIVE)"

definition true_flags :: "legoport_state_s \<Rightarrow> byte" where
  "true_flags s = (if dc_state s = DCM_LATCHED_UART_OWNED then type_flags (confirmed_type s) OR LEGOPORT_FLAG_HANDOFF_OK
     else type_flags (confirmed_type s))"

text \<open>In any state but the last of a scan, a round of the loop publishes nothing and registers nothing.\<close>

lemma case_quiet:
  assumes "dcm_case env now s h = (v, s', h')" "dc_state s \<noteq> DCM_S8_FINALIZE"
  shows "published s' = published s \<and> registration s' = registration s \<and> v \<noteq> Invoke_Handoff \<and>
    (dc_state s' = DCM_LATCHED_UART_OWNED \<longleftrightarrow> dc_state s = DCM_LATCHED_UART_OWNED)"
  using assms
  by (cases "dc_state s")
    (auto simp: dcm_case_def dcm_case_defs gpioread_def published_def registration_def Let_def split: if_splits)

text \<open>The loop ends in the last state of a scan only when it started there.\<close>

lemma case_final:
  assumes "dcm_case env now s h = (Again, s', h')"
  shows "dc_state s' \<noteq> DCM_S8_FINALIZE \<and> dc_state s \<noteq> DCM_S8_FINALIZE"
proof -
  have "dc_state s \<noteq> DCM_S8_FINALIZE"
    using assms by (auto simp: dcm_case_def dcm_s8_finalize_def Let_def split: if_splits)
  then show ?thesis
    using assms by (cases "dc_state s") (auto simp: dcm_case_def dcm_case_defs gpioread_def Let_def split: if_splits)
qed

lemma step_quiet:
  assumes "legoport_dcm_step env now s h = (call, s', h')" "dc_state s \<noteq> DCM_S8_FINALIZE"
  shows "published s' = published s \<and> registration s' = registration s \<and> \<not> call \<and>
    (dc_state s' = DCM_LATCHED_UART_OWNED \<longleftrightarrow> dc_state s = DCM_LATCHED_UART_OWNED)"
  using assms
proof (induction env now s h arbitrary: call s' h' rule: legoport_dcm_step.induct)
  case (1 env now s h)
  obtain v s1 h1 where c: "dcm_case env now s h = (v, s1, h1)" by (cases "dcm_case env now s h")
  note q = case_quiet [OF c 1(3)]
  show ?case
  proof (cases v)
    case Again
    then have "legoport_dcm_step env now s1 h1 = (call, s', h')"
      using 1(2) c by (simp add: legoport_dcm_step.simps [of env now s h])
    then show ?thesis using 1(1) [of Again "(s1, h1)" s1 h1 call s' h'] c Again q case_final [of env now s h s1 h1] by simp
  next
    case Yield
    then show ?thesis using 1(2) c q by (simp add: legoport_dcm_step.simps [of env now s h])
  next
    case Invoke_Handoff
    then show ?thesis using q by simp
  qed
qed

lemma step_final:
  assumes "dc_state s = DCM_S8_FINALIZE"
  shows "legoport_dcm_step env now s h =
    (case dcm_s8_finalize now s h of (v, s', h') \<Rightarrow> (v = Invoke_Handoff, s', h'))"
proof -
  obtain v s' h' where c: "dcm_s8_finalize now s h = (v, s', h')" by (cases "dcm_s8_finalize now s h")
  have d: "dcm_case env now s h = (v, s', h')" by (simp add: dcm_case_def assms c)
  then have "v \<noteq> Again" using case_final [of env now s h s' h'] assms by auto
  then show ?thesis using c d by (cases v) (simp_all add: legoport_dcm_step.simps [of env now s h])
qed

section \<open>The end of a scan\<close>

lemma post_change_registration [simp]: "registration (legoport_post_change t s) = registration s"
  by (simp add: registration_def legoport_post_change_def legoport_update_flags_def Let_def)

lemma post_change_counts:
  "event_counter (legoport_post_change t s) = event_counter s + (if t = confirmed_type s then 0 else 1)"
  by (simp add: legoport_post_change_def legoport_update_flags_def Let_def)

lemma post_change_flags:
  assumes "dc_state s \<noteq> DCM_LATCHED_UART_OWNED" "dc_flags s = type_flags (confirmed_type s)"
  shows "dc_flags (legoport_post_change t s) = type_flags t"
  using assms by (auto simp: legoport_post_change_def legoport_update_flags_def type_flags_def Let_def)

lemma restart_quiet [simp]:
  "published (restart_scan s) = published s" "registration (restart_scan s) = registration s"
  "match_count (restart_scan s) = match_count s" "prev_type_id (restart_scan s) = type_id s"
  "dc_state (restart_scan s) = DCM_S0_INIT"
  "registration (s\<lparr>match_count := m\<rparr>) = registration s" "published (s\<lparr>match_count := m\<rparr>) = published s"
  by (simp_all add: restart_scan_def published_def registration_def)

lemma unowned_confirm_quiet:
  "published (dcm_unowned_confirm now t s) = published s" "registration (dcm_unowned_confirm now t s) = registration s"
  "dc_state (dcm_unowned_confirm now t s) \<in> {DCM_S0_INIT, DCM_LATCHED_UART_UNOWNED_IDLE}"
  "match_count (dcm_unowned_confirm now t s) \<le> match_count s"
  "prev_type_id (dcm_unowned_confirm now t s) = prev_type_id s \<or> match_count (dcm_unowned_confirm now t s) = 0"
  by (simp_all add: dcm_unowned_confirm_def rearm_gate_def drop_latch_def published_def registration_def Let_def)

text \<open>
  The last tick of a scan: nothing is published, or the type found is, and then the scan agreed with at
  least nineteen before it.
\<close>

definition bump_count :: "legoport_state_s \<Rightarrow> legoport_state_s" where
  "bump_count s = (if match_count s < 255 then s\<lparr>match_count := match_count s + 1\<rparr> else s)"

lemma bump_count_simps [simp]:
  "match_count (bump_count s) \<le> match_count s + 1" "prev_type_id (bump_count s) = prev_type_id s"
  "type_id (bump_count s) = type_id s" "registration (bump_count s) = registration s"
  "published (bump_count s) = published s" "dc_state (bump_count s) = dc_state s"
  "published (legoport_post_change t (bump_count s)) = published (legoport_post_change t s)"
  by (simp_all add: bump_count_def registration_def published_def legoport_post_change_def legoport_update_flags_def Let_def)

lemma finalize_outcomes:
  assumes "dcm_s8_finalize now s h = (v, s', h')"
  obtains (new) "type_id s \<noteq> prev_type_id s" "v = Yield" "s' = restart_scan (s\<lparr>match_count := 0\<rparr>)"
    | (count) "type_id s = prev_type_id s" "v = Yield" "s' = restart_scan (bump_count s)"
    | (again) "type_id s = prev_type_id s" "19 \<le> match_count s" "v = Yield"
        "s' = dcm_unowned_confirm now (type_id s) (legoport_post_change (type_id s) (bump_count s))"
    | (uart) "type_id s = prev_type_id s" "19 \<le> match_count s" "v = Invoke_Handoff"
        "s' = legoport_post_change (type_id s) (bump_count s)"
    | (conf) "type_id s = prev_type_id s" "19 \<le> match_count s" "v = Yield"
        "s' = restart_scan (legoport_post_change (type_id s) (bump_count s))"
proof -
  have t: "type_id (bump_count s) = type_id s" by simp
  have m: "\<not> LEGOPORT_AFFIRMATIVE_MATCH \<le> match_count (bump_count s) \<or> 19 \<le> match_count s"
    by (auto simp: LEGOPORT_AFFIRMATIVE_MATCH_def bump_count_def)
  show thesis
    using assms that m unfolding dcm_s8_finalize_def Let_def bump_count_def [symmetric] t by (auto split: if_splits)
qed

lemma finalize_keeps:
  assumes "dcm_s8_finalize now s h = (v, s', h')" "dc_state s = DCM_S8_FINALIZE"
  shows "h' = scan_baseline h" "registration s' = registration s"
    "dc_state s' \<in> (if v = Invoke_Handoff then {DCM_S8_FINALIZE} else {DCM_S0_INIT, DCM_LATCHED_UART_UNOWNED_IDLE})"
proof -
  show "h' = scan_baseline h" using assms(1) by (auto simp: dcm_s8_finalize_def Let_def split: if_splits)
  show "registration s' = registration s"
    using assms(1) by (cases rule: finalize_outcomes) (simp_all add: unowned_confirm_quiet)
  show "dc_state s' \<in> (if v = Invoke_Handoff then {DCM_S8_FINALIZE} else {DCM_S0_INIT, DCM_LATCHED_UART_UNOWNED_IDLE})"
    using assms(1)
  proof (cases rule: finalize_outcomes)
    case again
    then show ?thesis using unowned_confirm_quiet(3) by auto
  qed (simp_all add: assms(2))
qed

lemma finalize_publishes:
  assumes "dcm_s8_finalize now s h = (v, s', h')"
  shows "published s' = published s \<or>
     published s' = published (legoport_post_change (type_id s) s) \<and> type_id s = prev_type_id s \<and> 19 \<le> match_count s"
  using assms by (cases rule: finalize_outcomes) (simp_all add: unowned_confirm_quiet)

lemma finalize_counts:
  assumes "dcm_s8_finalize now s h = (v, s', h')"
  shows "match_count s' = 0 \<or> prev_type_id s' = type_id s \<and> type_id s = prev_type_id s \<and> match_count s' \<le> match_count s + 1"
  using assms
proof (cases rule: finalize_outcomes)
  case again
  let ?u = "legoport_post_change (type_id s) (bump_count s)"
  have "match_count (dcm_unowned_confirm now (type_id s) ?u) \<le> match_count s + 1"
    using unowned_confirm_quiet(4) [of now "type_id s" ?u] bump_count_simps(1) [of s] by simp
  then show ?thesis using again unowned_confirm_quiet(5) [of now "type_id s" ?u] by auto
next
  case count
  then show ?thesis using bump_count_simps(1) [of s] by simp
next
  case uart
  then show ?thesis using bump_count_simps(1) [of s] by simp
next
  case conf
  then show ?thesis using bump_count_simps(1) [of s] by simp
qed simp

text \<open>Both kinds of tick in one statement.\<close>

definition tick_facts :: "bool \<Rightarrow> legoport_state_s \<Rightarrow> dcm_hw \<Rightarrow> legoport_state_s \<Rightarrow> dcm_hw \<Rightarrow> bool" where
  "tick_facts call s h s' h' \<longleftrightarrow>
     registration s' = registration s \<and>
     (published s' = published s \<or> published s' = published (legoport_post_change (type_id s) s) \<and>
       dc_state s = DCM_S8_FINALIZE \<and> type_id s = prev_type_id s \<and> 19 \<le> match_count s) \<and>
     (dc_state s' = DCM_LATCHED_UART_OWNED \<longleftrightarrow> dc_state s = DCM_LATCHED_UART_OWNED) \<and>
     (call \<longrightarrow> dc_state s' = DCM_S8_FINALIZE \<and> dc_state s = DCM_S8_FINALIZE \<and> h' = scan_baseline h)"

lemma step_tick_facts:
  assumes "legoport_dcm_step env now s h = (call, s', h')"
  shows "tick_facts call s h s' h'"
proof (cases "dc_state s = DCM_S8_FINALIZE")
  case False
  then show ?thesis using step_quiet [OF assms] by (simp add: tick_facts_def)
next
  case True
  obtain v where v: "dcm_s8_finalize now s h = (v, s', h')" "call = (v = Invoke_Handoff)"
    using assms step_final [OF True, of env now h] by (auto split: prod.splits)
  show ?thesis
    using finalize_keeps [OF v(1) True] finalize_publishes [OF v(1)] v(2) True
    by (auto simp: tick_facts_def split: if_splits)
qed

lemma step_publishes:
  assumes "legoport_dcm_step env now s h = (call, s', h')"
  shows "registration s' = registration s"
    "published s' = published s \<or> published s' = published (legoport_post_change (type_id s) s) \<and>
       dc_state s = DCM_S8_FINALIZE \<and> type_id s = prev_type_id s \<and> 19 \<le> match_count s"
    "dc_state s' = DCM_LATCHED_UART_OWNED \<longleftrightarrow> dc_state s = DCM_LATCHED_UART_OWNED"
    "call \<Longrightarrow> dc_state s' = DCM_S8_FINALIZE \<and> dc_state s = DCM_S8_FINALIZE \<and> h' = scan_baseline h"
  using step_tick_facts [OF assms] by (auto simp: tick_facts_def)

section \<open>The invariant\<close>

definition port_flags_ok :: "legoport_state_s \<Rightarrow> bool" where
  "port_flags_ok s \<longleftrightarrow> dc_flags s = true_flags s"

text \<open>
  While the worker is in a callback: no client has finished, so the port still stands at the end of its
  scan, and exactly this call is counted.
\<close>

definition call_ok :: "dcm_port \<Rightarrow> bool" where
  "call_ok c \<longleftrightarrow>
     handoff_inflight (dp_st c) = (case dp_call c of Some (Some cb, p, g) \<Rightarrow> 1 | _ \<Rightarrow> 0) \<and>
     (case dp_call c of
        None \<Rightarrow> True
      | Some loc \<Rightarrow> dc_state (dp_st c) \<noteq> DCM_LATCHED_UART_OWNED \<and>
          (fst loc \<noteq> None \<longrightarrow> dc_state (dp_st c) = DCM_S8_FINALIZE))"

definition scans_ok :: "dcm_port \<Rightarrow> bool" where
  "scans_ok c \<longleftrightarrow> match_count (dp_st c) \<le> length (takeWhile (\<lambda>t. t = prev_type_id (dp_st c)) (dp_scans c))"

lemma flags_step:
  assumes "port_flags_ok s" "legoport_dcm_step env now s h = (call, s', h')"
  shows "port_flags_ok s'"
proof (cases "published s' = published s")
  case True
  then show ?thesis
    using assms(1) step_publishes(3) [OF assms(2)] by (simp add: port_flags_ok_def true_flags_def published_def)
next
  case False
  then have p: "published s' = published (legoport_post_change (type_id s) s)" "dc_state s = DCM_S8_FINALIZE"
    using step_publishes(2) [OF assms(2)] by simp_all
  have "dc_flags (legoport_post_change (type_id s) s) = type_flags (type_id s)"
    using assms(1) p(2) by (intro post_change_flags) (simp_all add: port_flags_ok_def true_flags_def)
  then show ?thesis
    using p step_publishes(3) [OF assms(2)] by (simp add: port_flags_ok_def true_flags_def published_def)
qed

lemma flag_bits:
  "(type_flags t OR LEGOPORT_FLAG_HANDOFF_OK) AND NOT LEGOPORT_FLAG_HANDOFF_OK = type_flags t"
  "type_flags t AND NOT LEGOPORT_FLAG_HANDOFF_OK = type_flags t"
  by (simp_all add: type_flags_def legoport_flags)

lemma flags_release:
  assumes "port_flags_ok s"
  shows "port_flags_ok (fst (release_finish s h))"
proof -
  let ?s = "s\<lparr>dc_state := DCM_S0_INIT, match_count := 0, prev_type_id := LEGOPORT_TYPE_NONE, in_unowned_rescan := False,
      unowned_disc_streak := 0, unowned_other_streak := 0, unowned_other_type := LEGOPORT_TYPE_NONE,
      dc_flags := dc_flags s AND NOT LEGOPORT_FLAG_HANDOFF_OK\<rparr>"
  have "dc_flags ?s = type_flags (confirmed_type ?s)"
    using assms by (simp add: port_flags_ok_def true_flags_def flag_bits split: if_splits)
  then have "dc_flags (legoport_post_change LEGOPORT_TYPE_NONE ?s) = type_flags LEGOPORT_TYPE_NONE"
    by (intro post_change_flags) simp_all
  then show ?thesis by (simp add: release_finish_def port_flags_ok_def true_flags_def)
qed

lemma flags_client [simp]: "port_flags_ok (client_begin cl s) = port_flags_ok s" "port_flags_ok (drain_sleep s) = port_flags_ok s"
  "port_flags_ok (drain_wake s) = port_flags_ok s"
  by (cases cl; simp add: register_begin_def port_flags_ok_def true_flags_def)
    (simp_all add: drain_sleep_def drain_wake_def port_flags_ok_def true_flags_def)

lemma flags_finish: "port_flags_ok (dp_st c) \<Longrightarrow> port_flags_ok (dp_st (client_finish cl c))"
  using flags_release [of "dp_st c" "dp_hw c"] by (cases cl) (auto split: prod.splits)

lemma flags_exit:
  assumes "port_flags_ok s" "dc_state s \<noteq> DCM_LATCHED_UART_OWNED"
  shows "port_flags_ok (handoff_exit now ret loc s)"
proof -
  have "port_flags_ok (handoff_result now ret loc s)"
    using assms by (cases loc) (simp add: handoff_result_def port_flags_ok_def true_flags_def enter_unowned_def)
  then show ?thesis by (simp add: handoff_exit_def handoff_leave_def port_flags_ok_def true_flags_def Let_def)
qed

text \<open>The count of matching scans never exceeds the run of equal results.\<close>

lemma case_counts:
  assumes "dcm_case env now s h = (v, s', h')" "dc_state s \<noteq> DCM_S8_FINALIZE"
  shows "match_count s' = 0 \<or> match_count s' = match_count s \<and> prev_type_id s' = prev_type_id s"
  using assms
  by (cases "dc_state s") (auto simp: dcm_case_def dcm_case_defs gpioread_def Let_def split: if_splits)

lemma step_counts:
  assumes "legoport_dcm_step env now s h = (call, s', h')" "dc_state s \<noteq> DCM_S8_FINALIZE"
  shows "match_count s' = 0 \<or> match_count s' = match_count s \<and> prev_type_id s' = prev_type_id s"
  using assms
proof (induction env now s h arbitrary: call s' h' rule: legoport_dcm_step.induct)
  case (1 env now s h)
  obtain v s1 h1 where c: "dcm_case env now s h = (v, s1, h1)" by (cases "dcm_case env now s h")
  note q = case_counts [OF c 1(3)]
  show ?case
  proof (cases v)
    case Again
    then have "legoport_dcm_step env now s1 h1 = (call, s', h')"
      using 1(2) c by (simp add: legoport_dcm_step.simps [of env now s h])
    then show ?thesis using 1(1) [of Again "(s1, h1)" s1 h1 call s' h'] c Again q case_final [of env now s h s1 h1] by auto
  qed (use 1(2) c q in \<open>simp_all add: legoport_dcm_step.simps [of env now s h]\<close>)
qed

lemma scans_step:
  assumes "scans_ok c" "legoport_dcm_step env now (dp_st c) (dp_hw c) = (call, s', h')"
    and "dp_st c' = s'" "dp_scans c' = note_scan c"
  shows "scans_ok c'"
proof (cases "dc_state (dp_st c) = DCM_S8_FINALIZE")
  case False
  then show ?thesis
    using assms(1) step_counts [OF assms(2) False] by (auto simp: scans_ok_def assms(3,4) note_scan_def)
next
  case True
  obtain v where v: "dcm_s8_finalize now (dp_st c) (dp_hw c) = (v, s', h')"
    using assms(2) step_final [OF True, of env now "dp_hw c"] by (auto split: prod.splits)
  show ?thesis
    using assms(1) finalize_counts [OF v] True by (auto simp: scans_ok_def assms(3,4) note_scan_def)
qed

lemma scans_same:
  assumes "scans_ok c" "dp_scans c' = dp_scans c" "match_count (dp_st c') = match_count (dp_st c)"
    "prev_type_id (dp_st c') = prev_type_id (dp_st c)"
  shows "scans_ok c'"
  using assms by (simp add: scans_ok_def)

lemma client_counts [simp]:
  "match_count (client_begin cl s) = match_count s" "prev_type_id (client_begin cl s) = prev_type_id s"
  "match_count (drain_sleep s) = match_count s" "prev_type_id (drain_sleep s) = prev_type_id s"
  "match_count (drain_wake s) = match_count s" "prev_type_id (drain_wake s) = prev_type_id s"
  by (cases cl; simp add: register_begin_def)+ (simp_all add: drain_sleep_def drain_wake_def)

lemma scans_finish:
  assumes "scans_ok c"
  shows "scans_ok (client_finish cl c)"
  using assms by (cases cl) (simp_all add: scans_ok_def release_finish_def)

lemma exit_counts [simp]:
  "match_count (handoff_exit now ret loc s) = match_count s" "prev_type_id (handoff_exit now ret loc s) = prev_type_id s"
  by (cases loc; simp add: handoff_exit_def handoff_leave_def handoff_result_def enter_unowned_def Let_def)+

lemma enter_counts [simp]:
  "match_count (snd (handoff_enter s)) = match_count s" "prev_type_id (snd (handoff_enter s)) = prev_type_id s"
  "published (snd (handoff_enter s)) = published s" "dc_state (snd (handoff_enter s)) = dc_state s"
  by (simp_all add: handoff_enter_def published_def)

theorem port_scans:
  "port_reach c \<Longrightarrow> scans_ok c"
proof (induction rule: port_reach.induct)
  case (boot h)
  then show ?case by (simp add: scans_ok_def boot_port_def legoport_boot_def)
next
  case (move c l c')
  from move.hyps(2) move.IH show ?case
  proof cases
    case (tick env now s' h')
    then show ?thesis using scans_step [OF move.IH tick(4), of c'] by simp
  next
    case (tick_call env now s' h' loc s'')
    have "scans_ok (c\<lparr>dp_st := s', dp_scans := note_scan c\<rparr>)"
      using scans_step [OF move.IH tick_call(4), of "c\<lparr>dp_st := s', dp_scans := note_scan c\<rparr>"] by simp
    then show ?thesis using tick_call(2,5) enter_counts(1,2) [of s'] by (simp add: scans_ok_def)
  next
    case (enter_done s cl)
    have "scans_ok (c\<lparr>dp_st := s\<rparr>)" using move.IH by (simp add: scans_ok_def enter_done(3))
    then show ?thesis unfolding enter_done(2) by (rule scans_finish)
  next
    case (wake_done cl)
    have "scans_ok (c\<lparr>dp_st := drain_wake (dp_st c), dp_sleep := remove1 cl (dp_sleep c)\<rparr>)"
      using move.IH by (simp add: scans_ok_def)
    then show ?thesis unfolding wake_done(2) by (rule scans_finish)
  qed (simp_all add: scans_ok_def)
qed

lemma call_finish:
  assumes "call_ok c" "handoff_inflight (dp_st c) = 0"
  shows "call_ok (client_finish cl c)"
proof (cases cl)
  case Releasing
  have r: "handoff_inflight (fst (release_finish (dp_st c) (dp_hw c))) = 0"
    "dc_state (fst (release_finish (dp_st c) (dp_hw c))) = DCM_S0_INIT"
    using assms(2) by (simp_all add: release_finish_def)
  have "fst loc = None" if "dp_call c = Some loc" for loc
    using assms that by (cases loc) (auto simp: call_ok_def split: option.splits)
  then show ?thesis
    using r assms unfolding Releasing by (auto simp: call_ok_def split: prod.splits option.splits)
qed (use assms in simp)

lemma call_client [simp]:
  "handoff_inflight (client_begin cl s) = handoff_inflight s" "dc_state (client_begin cl s) = dc_state s"
  "handoff_inflight (drain_sleep s) = handoff_inflight s" "dc_state (drain_sleep s) = dc_state s"
  "handoff_inflight (drain_wake s) = handoff_inflight s" "dc_state (drain_wake s) = dc_state s"
  by (cases cl; simp add: register_begin_def)+ (simp_all add: drain_sleep_def drain_wake_def)

lemma call_exit:
  assumes "call_ok c" "dp_call c = Some loc"
  shows "handoff_inflight (handoff_exit now ret loc (dp_st c)) = 0"
  using assms by (cases loc) (auto simp: call_ok_def handoff_exit_def handoff_leave_def handoff_result_def enter_unowned_def Let_def
      split: option.splits)

theorem port_calls:
  "port_reach c \<Longrightarrow> call_ok c"
proof (induction rule: port_reach.induct)
  case (boot h)
  then show ?case by (simp add: call_ok_def boot_port_def legoport_boot_def)
next
  case (move c l c')
  from move.hyps(2) move.IH show ?case
  proof cases
    case (tick env now s' h')
    then show ?thesis
      using step_publishes(1) [OF tick(4)] move.IH by (simp add: call_ok_def registration_def)
  next
    case (tick_call env now s' h' loc s'')
    then show ?thesis
      using step_publishes(1,4) [OF tick_call(4)] move.IH
      by (auto simp: call_ok_def registration_def handoff_enter_def split: option.splits if_splits)
  next
    case (cb_return loc ret h' now)
    then show ?thesis using call_exit [OF move.IH cb_return(3)] by (simp add: call_ok_def)
  next
    case (owner h')
    then show ?thesis using move.IH by (auto simp: call_ok_def split: option.splits)
  next
    case (enter_done s cl)
    have "call_ok (c\<lparr>dp_st := s\<rparr>)" using move.IH by (auto simp: call_ok_def enter_done(3) split: option.splits)
    then show ?thesis unfolding enter_done(2) using enter_done(4) by (intro call_finish) simp_all
  next
    case (enter_wait s cl)
    then show ?thesis using move.IH by (auto simp: call_ok_def split: option.splits)
  next
    case (wake_done cl)
    have "call_ok (c\<lparr>dp_st := drain_wake (dp_st c), dp_sleep := remove1 cl (dp_sleep c)\<rparr>)"
      using move.IH by (auto simp: call_ok_def split: option.splits)
    then show ?thesis unfolding wake_done(2) using wake_done(5) by (intro call_finish) simp_all
  next
    case (wake_again cl)
    then show ?thesis using move.IH by (auto simp: call_ok_def split: option.splits)
  qed
qed

text \<open>
  Fact. The published flags always tell the truth, however the detection, the handoff and the clients
  interleave: connected and passive or UART exactly as the confirmed type says, and handed off exactly while
  the port is owned.
\<close>

theorem port_flags_true:
  assumes "port_reach c"
  shows "dc_flags (dp_st c) = true_flags (dp_st c)"
proof -
  have "port_flags_ok (dp_st c)" using assms
  proof (induction rule: port_reach.induct)
    case (boot h)
    then show ?case by (simp add: port_flags_ok_def true_flags_def type_flags_def boot_port_def legoport_boot_def)
  next
    case (move c l c')
    from move.hyps(2) move.IH show ?case
    proof cases
      case (tick_call env now s' h' loc s'')
      then show ?thesis
        using flags_step [OF move.IH tick_call(4)] enter_counts(3,4) [of s']
        by (simp add: port_flags_ok_def true_flags_def published_def)
    next
      case (cb_return loc ret h' now)
      have "dc_state (dp_st c) \<noteq> DCM_LATCHED_UART_OWNED"
        using port_calls [OF move.hyps(1)] cb_return(3) by (simp add: call_ok_def)
      then show ?thesis using cb_return flags_exit [OF move.IH] by simp
    next
      case (tick env now s' h')
      then show ?thesis using flags_step [OF move.IH tick(4)] by simp
    qed (simp_all add: flags_finish)
  qed
  then show ?thesis by (simp add: port_flags_ok_def)
qed

section \<open>Publication\<close>

lemma client_published [simp]:
  "published (client_begin cl s) = published s" "published (drain_sleep s) = published s" "published (drain_wake s) = published s"
  by (cases cl; simp add: register_begin_def published_def) (simp_all add: drain_sleep_def drain_wake_def published_def)

lemma exit_published:
  "confirmed_type (handoff_exit now ret loc s) = confirmed_type s" "event_counter (handoff_exit now ret loc s) = event_counter s"
  by (cases loc; simp add: handoff_exit_def handoff_leave_def handoff_result_def enter_unowned_def Let_def)+

lemma release_counts:
  "event_counter (fst (release_finish s h)) = event_counter s + (if confirmed_type s = LEGOPORT_TYPE_NONE then 0 else 1)"
  "confirmed_type (fst (release_finish s h)) = LEGOPORT_TYPE_NONE"
  by (auto simp: release_finish_def post_change_counts)

lemma finish_counts:
  "event_counter (dp_st (client_finish cl c)) = event_counter (dp_st c) +
     (if confirmed_type (dp_st (client_finish cl c)) = confirmed_type (dp_st c) then 0 else 1)"
  "confirmed_type (dp_st (client_finish cl c)) \<in> {confirmed_type (dp_st c), LEGOPORT_TYPE_NONE}"
  using release_counts [of "dp_st c" "dp_hw c"] by (cases cl; auto split: prod.splits)+

text \<open>A tick that publishes.\<close>

lemma tick_published:
  assumes "legoport_dcm_step env now s h = (call, s', h')"
  shows "event_counter s' = event_counter s + (if confirmed_type s' = confirmed_type s then 0 else 1)"
    "confirmed_type s' \<noteq> confirmed_type s \<Longrightarrow>
       confirmed_type s' = type_id s \<and> dc_state s = DCM_S8_FINALIZE \<and> type_id s = prev_type_id s \<and> 19 \<le> match_count s"
  using step_publishes(2) [OF assms] post_change_counts [of "type_id s" s] by (auto simp: published_def)

lemma client_confirmed [simp]:
  "confirmed_type (client_begin cl s) = confirmed_type s" "event_counter (client_begin cl s) = event_counter s"
  "confirmed_type (drain_sleep s) = confirmed_type s" "event_counter (drain_sleep s) = event_counter s"
  "confirmed_type (drain_wake s) = confirmed_type s" "event_counter (drain_wake s) = event_counter s"
  "confirmed_type (snd (handoff_enter t)) = confirmed_type t" "event_counter (snd (handoff_enter t)) = event_counter t"
  using client_published(1) [of cl s] client_published(2,3) [of s] enter_counts(3) [of t] by (simp_all add: published_def)

text \<open>
  Fact. The event counter counts the changes of the published type, one for each, in every interleaving: a
  client that compares it with an earlier value misses no
  change, as long as fewer than a full turn of its 32 bits lie between the two.
\<close>

theorem event_counter_counts:
  assumes "port_move c l c'"
  shows "event_counter (dp_st c') = event_counter (dp_st c) +
    (if confirmed_type (dp_st c') = confirmed_type (dp_st c) then 0 else 1)"
  using assms
proof cases
  case (tick env now s' h')
  then show ?thesis using tick_published(1) [OF tick(4)] by simp
next
  case (tick_call env now s' h' loc s'')
  have "s'' = snd (handoff_enter s')" using tick_call(5) by simp
  then show ?thesis using tick_published(1) [OF tick_call(4)] unfolding tick_call(2) by simp
next
  case (enter_done s cl)
  then show ?thesis using finish_counts(1) [of cl "c\<lparr>dp_st := s\<rparr>"] unfolding enter_done(2) by simp
next
  case (wake_done cl)
  then show ?thesis
    using finish_counts(1) [of cl "c\<lparr>dp_st := drain_wake (dp_st c), dp_sleep := remove1 cl (dp_sleep c)\<rparr>"]
    unfolding wake_done(2) by simp
qed (simp_all add: exit_published)

text \<open>A change to a device is the work of a tick.\<close>

lemma move_publishes:
  assumes "port_move c l c'" "confirmed_type (dp_st c') \<noteq> confirmed_type (dp_st c)"
    and "confirmed_type (dp_st c') \<noteq> LEGOPORT_TYPE_NONE"
  shows "\<exists>env now call s' h'. legoport_dcm_step env now (dp_st c) (dp_hw c) = (call, s', h') \<and>
    confirmed_type (dp_st c') = confirmed_type s' \<and> dp_scans c' = note_scan c"
  using assms(1)
proof cases
  case (tick env now s' h')
  show ?thesis by (intro exI conjI, rule tick(4)) (simp_all add: tick(2))
next
  case (tick_call env now s' h' loc s'')
  have "s'' = snd (handoff_enter s')" using tick_call(5) by simp
  note e = this
  show ?thesis by (intro exI conjI, rule tick_call(4)) (simp_all add: tick_call(2) e)
next
  case (enter_done s cl)
  then show ?thesis using finish_counts(2) [of cl "c\<lparr>dp_st := s\<rparr>"] assms(2,3) by auto
next
  case (wake_done cl)
  then show ?thesis
    using finish_counts(2) [of cl "c\<lparr>dp_st := drain_wake (dp_st c), dp_sleep := remove1 cl (dp_sleep c)\<rparr>"] assms(2,3) by auto
qed (use assms(2) in \<open>simp_all add: exit_published\<close>)

lemma takeWhile_replicate:
  "n \<le> length (takeWhile (\<lambda>x. x = a) xs) \<Longrightarrow> take n xs = replicate n a"
proof (induction xs arbitrary: n)
  case (Cons x xs)
  then show ?case by (cases n) (auto split: if_splits)
qed simp

text \<open>
  C12. What a port publishes has been seen twenty times. Whatever happened before, and whoever else acts on
  the port, when the published type changes to a device, the last twenty scans all ended in that type: no
  shorter glitch is ever published.
\<close>

theorem published_after_twenty_scans:
  assumes "port_reach c" "port_move c l c'"
    and "confirmed_type (dp_st c') \<noteq> confirmed_type (dp_st c)" "confirmed_type (dp_st c') \<noteq> LEGOPORT_TYPE_NONE"
  shows "take 20 (dp_scans c') = replicate 20 (confirmed_type (dp_st c'))"
proof -
  obtain env now call s' h' where st: "legoport_dcm_step env now (dp_st c) (dp_hw c) = (call, s', h')"
    and c': "confirmed_type (dp_st c') = confirmed_type s'" "dp_scans c' = note_scan c"
    using move_publishes [OF assms(2-4)] by blast
  have p: "confirmed_type s' = type_id (dp_st c) \<and> dc_state (dp_st c) = DCM_S8_FINALIZE \<and>
      type_id (dp_st c) = prev_type_id (dp_st c) \<and> 19 \<le> match_count (dp_st c)"
    using tick_published(2) [OF st] assms(3) c'(1) by simp
  then have "19 \<le> length (takeWhile (\<lambda>t. t = type_id (dp_st c)) (dp_scans c))"
    using port_scans [OF assms(1)] by (simp add: scans_ok_def)
  then have "take 19 (dp_scans c) = replicate 19 (type_id (dp_st c))" by (rule takeWhile_replicate)
  then show ?thesis using p by (simp add: c' note_scan_def numeral_eq_Suc)
qed

section \<open>The lifetime of a callback's argument\<close>

text \<open>
  C14. When a call that registers a callback or releases the port returns, no callback is running, in
  whatever way the detection and other clients interleave: the argument of the one it replaced can be
  freed.
\<close>

theorem no_callback_after_return:
  assumes "port_reach c" "port_move c (Some cl) c'"
  shows "case dp_call c' of None \<Rightarrow> True | Some (cb, priv, gen) \<Rightarrow> cb = None"
proof -
  have "handoff_inflight (dp_st c) = 0 \<and> dp_call c' = dp_call c"
    using assms(2)
  proof cases
    case enter_done
    have "dp_call (client_finish cl d) = dp_call d" for d by (cases cl) (simp_all add: release_finish_def)
    with enter_done show ?thesis by simp
  next
    case wake_done
    have "dp_call (client_finish cl d) = dp_call d" for d by (cases cl) (simp_all add: release_finish_def)
    with wake_done show ?thesis by simp
  qed
  then show ?thesis using port_calls [OF assms(1)] by (auto simp: call_ok_def split: option.splits)
qed

section \<open>Runs of the worker\<close>

text \<open>Ticks that do not call the callback, as moves of the port.\<close>

lemma ticks_reach:
  assumes "port_reach c" "dp_call c = None"
    and "\<forall>i < n. \<not> fst (legoport_dcm_step env (fst (clock i)) (fst (dcm_ticks env clock i (dp_st c, dp_hw c)))
      (snd (dcm_ticks env clock i (dp_st c, dp_hw c))))"
  shows "\<exists>c'. port_reach c' \<and> dp_call c' = None \<and> dp_sleep c' = dp_sleep c \<and>
    dcm_ticks env clock n (dp_st c, dp_hw c) = (dp_st c', dp_hw c') \<and>
    registration (dp_st c') = registration (dp_st c) \<and>
    (dc_state (dp_st c) \<noteq> DCM_LATCHED_UART_OWNED \<longrightarrow> dc_state (dp_st c') \<noteq> DCM_LATCHED_UART_OWNED)"
  using assms(3)
proof (induction n)
  case 0
  then show ?case using assms(1,2) by auto
next
  case (Suc n)
  obtain c1 where c1: "port_reach c1" "dp_call c1 = None" "dp_sleep c1 = dp_sleep c"
    "dcm_ticks env clock n (dp_st c, dp_hw c) = (dp_st c1, dp_hw c1)" "registration (dp_st c1) = registration (dp_st c)"
    "dc_state (dp_st c) \<noteq> DCM_LATCHED_UART_OWNED \<longrightarrow> dc_state (dp_st c1) \<noteq> DCM_LATCHED_UART_OWNED"
    using Suc by (metis less_SucI)
  obtain s' h' where st: "legoport_dcm_step env (fst (clock n)) (dp_st c1) (dp_hw c1) = (False, s', h')"
    using Suc.prems c1(4) by (cases "legoport_dcm_step env (fst (clock n)) (dp_st c1) (dp_hw c1)") auto
  let ?c = "c1\<lparr>dp_st := s', dp_hw := h', dp_scans := note_scan c1\<rparr>"
  have "port_reach ?c" using port_reach.move [OF c1(1) port_move.tick [OF c1(2) st]] .
  moreover have "dcm_ticks env clock (Suc n) (dp_st c, dp_hw c) = (s', h')"
    using c1(4) st by (simp add: dcm_tick_def legoport_dcm_turn_def)
  ultimately show ?case
    using c1 step_publishes(1,3) [OF st] by (intro exI [of _ ?c]) simp
qed

text \<open>With a UART device plugged in and a callback registered, the worker comes to call it.\<close>

lemma call_reached:
  assumes "port_reach c" "dp_call c = None" "dc_state (dp_st c) = DCM_S0_INIT" "\<not> in_unowned_rescan (dp_st c)"
    and "hw_pin (dp_hw c) Gpio1 = P_In" "hw_pin (dp_hw c) Uart_Rx = P_In"
    and "classify env = LEGOPORT_TYPE_LPF2_UNKNOWN_UART" "handoff_cb (dp_st c) = Some cb"
  shows "\<exists>c1 s' h'. port_reach c1 \<and> dp_call c1 = None \<and> dp_sleep c1 = dp_sleep c \<and>
    registration (dp_st c1) = registration (dp_st c) \<and> legoport_dcm_step env 0 (dp_st c1) (dp_hw c1) = (True, s', h')"
proof -
  let ?clock = "\<lambda>i :: nat. (0 :: int, OK)"
  let ?at = "\<lambda>i. dcm_ticks env ?clock i (dp_st c, dp_hw c)"
  let ?calls = "\<lambda>i. fst (legoport_dcm_step env 0 (fst (?at i)) (snd (?at i)))"
  have h: "dp_hw c = \<lparr>hw_pin = socket (hw_pin (dp_hw c) Uart_Tx) (hw_pin (dp_hw c) Uart_Buf) (hw_pin (dp_hw c) Gpio2) P_In,
      hw_io = hw_io (dp_hw c)\<rparr>"
    using socket_intro [of "hw_pin (dp_hw c)"] assms(5,6) by simp
  obtain n s1 io1 where n: "confirmed_from (?clock (n - 1)) (classify env) (dp_st c) s1"
    "?at n = (s1, \<lparr>hw_pin = socket P_Hi P_Lo P_In P_In, hw_io = io1\<rparr>)"
    using steady_scans_confirm [OF assms(3), of ?clock env "hw_pin (dp_hw c) Uart_Tx" "hw_pin (dp_hw c) Uart_Buf"
        "hw_pin (dp_hw c) Gpio2" "hw_io (dp_hw c)"] unfolding h [symmetric] by blast
  have owned: "dc_state (fst (?at n)) = DCM_LATCHED_UART_OWNED"
    using confirmed_from_settled [OF n(1) assms(4)] assms(7,8) n(2) by (simp add: settled_def)
  have "\<exists>i < n. ?calls i"
  proof (rule ccontr)
    assume "\<not> ?thesis"
    then have f: "\<forall>i < n. \<not> fst (legoport_dcm_step env (fst (?clock i)) (fst (?at i)) (snd (?at i)))" by simp
    from ticks_reach [OF assms(1,2) f]
    obtain c' :: dcm_port where "?at n = (dp_st c', dp_hw c')"
      "dc_state (dp_st c) \<noteq> DCM_LATCHED_UART_OWNED \<longrightarrow> dc_state (dp_st c') \<noteq> DCM_LATCHED_UART_OWNED"
      by blast
    then show False using owned assms(3) by simp
  qed
  then have ex: "\<exists>i. ?calls i" by blast
  define k where "k = (LEAST i. ?calls i)"
  have k: "?calls k" "\<And>i. i < k \<Longrightarrow> \<not> ?calls i"
    unfolding k_def using LeastI_ex [OF ex] not_less_Least by auto
  have f: "\<forall>i < k. \<not> fst (legoport_dcm_step env (fst (?clock i)) (fst (?at i)) (snd (?at i)))" using k(2) by simp
  obtain c1 where "port_reach c1" "dp_call c1 = None" "dp_sleep c1 = dp_sleep c" "?at k = (dp_st c1, dp_hw c1)"
    "registration (dp_st c1) = registration (dp_st c)"
    using ticks_reach [OF assms(1,2) f] by blast
  then show ?thesis using k(1) by (intro exI [of _ c1]) (auto simp: prod_eq_iff)
qed

text \<open>The port in a callback that can be freed of its argument: two clients then come to drain.\<close>

definition uart_port :: dcm_port where
  "uart_port = (boot_port \<lparr>hw_pin = (\<lambda>_. P_In), hw_io = []\<rparr>)\<lparr>dp_st := register_begin (Some 7) 0 legoport_boot\<rparr>"

lemma uart_port_reach: "port_reach uart_port"
proof -
  have "port_move (boot_port \<lparr>hw_pin = (\<lambda>_. P_In), hw_io = []\<rparr>) (Some (Registering (Some 7) 0))
      (client_finish (Registering (Some 7) 0) uart_port)"
    unfolding uart_port_def
    by (rule port_move.enter_done) (simp_all add: boot_port_def legoport_boot_def register_begin_def)
  from port_reach.move [OF port_reach.boot this] show ?thesis by simp
qed

lemma demo_uart_class: "classify demo_uart = LEGOPORT_TYPE_LPF2_UNKNOWN_UART"
  by (simp add: classify_def id1_class_def probes demo_uart_def dev_id_groups)

lemma uart_port_calls:
  "\<exists>c. port_reach c \<and> dp_call c = Some (Some 7, 0, 1) \<and> dp_sleep c = [] \<and>
     registration (dp_st c) = (Some 7, 0, 1, 1, 0, 0)"
proof -
  have "hw_pin (dp_hw uart_port) Gpio1 = P_In" "hw_pin (dp_hw uart_port) Uart_Rx = P_In" "dp_call uart_port = None"
    "dc_state (dp_st uart_port) = DCM_S0_INIT" "\<not> in_unowned_rescan (dp_st uart_port)" "handoff_cb (dp_st uart_port) = Some 7"
    "dp_sleep uart_port = []" "registration (dp_st uart_port) = (Some 7, 0, 1, 0, 0, 0)"
    by (simp_all add: uart_port_def boot_port_def port_baseline_def configgpio_def legoport_boot_def register_begin_def
        registration_def)
  then obtain c1 :: dcm_port and s' h' where c1: "port_reach c1" "dp_call c1 = None" "dp_sleep c1 = []"
    "registration (dp_st c1) = (Some 7, 0, 1, 0, 0, 0)" "legoport_dcm_step demo_uart 0 (dp_st c1) (dp_hw c1) = (True, s', h')"
    using call_reached [OF uart_port_reach, of demo_uart 7] demo_uart_class by auto
  have r: "registration s' = (Some 7, 0, 1, 0, 0, 0)" using step_publishes(1) [OF c1(5)] c1(4) by simp
  obtain loc s'' where e: "handoff_enter s' = (loc, s'')" by (cases "handoff_enter s'")
  have l: "loc = (Some 7, 0, 1)" "registration s'' = (Some 7, 0, 1, 1, 0, 0)"
    using e r by (auto simp: handoff_enter_def registration_def)
  let ?c = "c1\<lparr>dp_st := s'', dp_hw := h', dp_call := Some loc, dp_scans := note_scan c1\<rparr>"
  have "port_reach ?c" by (rule port_reach.move [OF c1(1) port_move.tick_call [OF c1(2,5) e]])
  then show ?thesis using l c1(3) by (intro exI [of _ ?c]) simp
qed


section \<open>Pins\<close>

text \<open>
  A record of accesses, from a configuration on: every sample is taken from a pin that is an input at that
  moment, and the ID1 pin is never reconfigured.
\<close>

fun io_pins :: "(dcm_pin \<Rightarrow> pin_cfg) \<Rightarrow> pin_io list \<Rightarrow> dcm_pin \<Rightarrow> pin_cfg" where
  "io_pins p [] = p"
| "io_pins p (Cfg i c # xs) = io_pins (p(i := c)) xs"
| "io_pins p (Sample i v # xs) = io_pins p xs"

fun io_ok :: "(dcm_pin \<Rightarrow> pin_cfg) \<Rightarrow> pin_io list \<Rightarrow> bool" where
  "io_ok p [] = True"
| "io_ok p (Cfg i c # xs) = (i \<noteq> Gpio1 \<and> io_ok (p(i := c)) xs)"
| "io_ok p (Sample i v # xs) = (p i = P_In \<and> io_ok p xs)"

lemma io_append: "io_ok p (xs @ ys) = (io_ok p xs \<and> io_ok (io_pins p xs) ys)" "io_pins p (xs @ ys) = io_pins (io_pins p xs) ys"
  by (induction p xs rule: io_ok.induct) auto

text \<open>What the states of the scan rely on.\<close>

definition pins_ok :: "dcm_state_e \<Rightarrow> (dcm_pin \<Rightarrow> pin_cfg) \<Rightarrow> bool" where
  "pins_ok st p \<longleftrightarrow> p Gpio1 = P_In \<and>
     (st = DCM_S1_READ_ID2_A \<or> st = DCM_S2_READ_ID2_B \<longrightarrow> p Gpio2 = P_In) \<and>
     (st \<notin> {DCM_S7_READ_RX_HI, DCM_S8_FINALIZE, DCM_LATCHED_UART_OWNED} \<longrightarrow> p Uart_Rx = P_In)"

definition good_io :: "dcm_hw \<Rightarrow> dcm_hw \<Rightarrow> bool" where
  "good_io h h' \<longleftrightarrow> (\<exists>new. hw_io h' = hw_io h @ new \<and> io_ok (hw_pin h) new \<and> hw_pin h' = io_pins (hw_pin h) new)"

lemma good_io_refl [simp]: "good_io h h"
  by (simp add: good_io_def)

lemma good_io_trans:
  assumes "good_io h h1" "good_io h1 h2"
  shows "good_io h h2"
proof -
  obtain a b where "hw_io h1 = hw_io h @ a" "io_ok (hw_pin h) a" "hw_pin h1 = io_pins (hw_pin h) a"
    "hw_io h2 = hw_io h1 @ b" "io_ok (hw_pin h1) b" "hw_pin h2 = io_pins (hw_pin h1) b"
    using assms by (auto simp: good_io_def)
  then show ?thesis unfolding good_io_def by (intro exI [of _ "a @ b"]) (simp add: io_append)
qed

lemma good_cfg: "good_io h h1 \<Longrightarrow> i \<noteq> Gpio1 \<Longrightarrow> good_io h (configgpio i c h1)"
  by (erule good_io_trans) (simp add: good_io_def configgpio_def)

lemma good_sample: "good_io h h1 \<Longrightarrow> hw_pin h1 i = P_In \<Longrightarrow> good_io h (snd (gpioread env i h1))"
  by (erule good_io_trans) (simp add: good_io_def gpioread_def)

lemma hw_pin_simps [simp]:
  "hw_pin (configgpio i c h) = (hw_pin h)(i := c)" "hw_pin (snd (gpioread env i h)) = hw_pin h"
  by (simp_all add: configgpio_def gpioread_def)

lemma case_pins:
  assumes "dcm_case env now s h = (v, s', h')" "pins_ok (dc_state s) (hw_pin h)"
  shows "pins_ok (dc_state s') (hw_pin h') \<and> good_io h h'"
proof (cases "dc_state s = DCM_S8_FINALIZE")
  case True
  have f: "dcm_s8_finalize now s h = (v, s', h')" using assms(1) True by (simp add: dcm_case_def)
  have "pins_ok st (hw_pin (scan_baseline h))" if "st \<in> {DCM_S8_FINALIZE, DCM_S0_INIT, DCM_LATCHED_UART_UNOWNED_IDLE}" for st
    using assms(2) that by (auto simp: pins_ok_def scan_baseline_def)
  moreover have "good_io h (scan_baseline h)" by (simp add: scan_baseline_def good_cfg)
  ultimately show ?thesis using finalize_keeps [OF f True] by (auto split: if_splits)
next
  case False
  with assms show ?thesis
    by (cases "dc_state s")
      (auto simp: dcm_case_def dcm_case_defs Let_def pins_ok_def split_def good_cfg good_sample split: if_splits)
qed

lemma step_pins:
  assumes "legoport_dcm_step env now s h = (call, s', h')" "pins_ok (dc_state s) (hw_pin h)"
  shows "pins_ok (dc_state s') (hw_pin h') \<and> good_io h h'"
  using assms
proof (induction env now s h arbitrary: call s' h' rule: legoport_dcm_step.induct)
  case (1 env now s h)
  obtain v s1 h1 where c: "dcm_case env now s h = (v, s1, h1)" by (cases "dcm_case env now s h")
  note q = case_pins [OF c 1(3)]
  show ?case
  proof (cases v)
    case Again
    then have "legoport_dcm_step env now s1 h1 = (call, s', h')"
      using 1(2) c by (simp add: legoport_dcm_step.simps [of env now s h])
    then show ?thesis using 1(1) [of Again "(s1, h1)" s1 h1 call s' h'] c Again q good_io_trans by auto
  qed (use 1(2) c q in \<open>simp_all add: legoport_dcm_step.simps [of env now s h]\<close>)
qed

definition port_pins_ok :: "dcm_port \<Rightarrow> bool" where
  "port_pins_ok c \<longleftrightarrow> pins_ok (dc_state (dp_st c)) (hw_pin (dp_hw c)) \<and> (dp_call c \<noteq> None \<longrightarrow> hw_pin (dp_hw c) Uart_Rx = P_In)"

lemma pins_finish:
  assumes "port_pins_ok c"
  shows "port_pins_ok (client_finish cl c)"
  using assms by (cases cl) (simp_all add: port_pins_ok_def release_finish_def pins_ok_def port_baseline_def)

lemma exit_pins:
  assumes "call_ok c" "port_pins_ok c" "dp_call c = Some loc" "fst loc = None \<longrightarrow> ret = - ENOSYS"
    and "if ret = OK then uart_pins_only (dp_hw c) h' else h' = dp_hw c"
  shows "pins_ok (dc_state (handoff_exit now ret loc (dp_st c))) (hw_pin h')"
proof -
  have st: "dc_state (handoff_exit now ret loc s) = dc_state (handoff_result now ret loc s)" for s
    by (simp add: handoff_exit_def handoff_leave_def Let_def)
  show ?thesis
  proof (cases "ret = OK")
    case True
    then have cb: "fst loc \<noteq> None" using assms(4) by (auto simp: OK_def ENOSYS_def)
    then have "dc_state (dp_st c) = DCM_S8_FINALIZE" using assms(1,3) by (simp add: call_ok_def)
    then have "dc_state (handoff_result now ret loc (dp_st c)) \<in> {DCM_LATCHED_UART_OWNED, DCM_S8_FINALIZE}"
      using True cb by (cases loc) (auto simp: handoff_result_def)
    then show ?thesis unfolding st using assms(2,5) True by (auto simp: pins_ok_def port_pins_ok_def uart_pins_only_def)
  next
    case False
    have "dc_state (handoff_result now ret loc (dp_st c)) \<in> {DCM_LATCHED_UART_UNOWNED_IDLE, dc_state (dp_st c)}"
      using False by (cases loc) (simp add: handoff_result_def enter_unowned_def)
    then show ?thesis unfolding st using assms(2,3,5) False by (auto simp: pins_ok_def port_pins_ok_def)
  qed
qed

lemma port_pins:
  "port_reach c \<Longrightarrow> port_pins_ok c"
proof (induction rule: port_reach.induct)
  case (boot h)
  then show ?case by (simp add: port_pins_ok_def pins_ok_def boot_port_def legoport_boot_def port_baseline_def)
next
  case (move c l c')
  from move.hyps(2) move.IH show ?case
  proof cases
    case (tick env now s' h')
    then show ?thesis using step_pins [OF tick(4)] move.IH by (simp add: port_pins_ok_def)
  next
    case (tick_call env now s' h' loc s'')
    have "s'' = snd (handoff_enter s')" using tick_call(5) by simp
    then show ?thesis
      using step_pins [OF tick_call(4)] step_publishes(4) [OF tick_call(4)] move.IH unfolding tick_call(2)
      by (simp add: port_pins_ok_def scan_baseline_def)
  next
    case (cb_return loc ret h' now)
    then show ?thesis
      using exit_pins [OF port_calls [OF move.hyps(1)] move.IH cb_return(3), of ret h' now]
      by (simp add: port_pins_ok_def split: if_splits)
  next
    case (owner h')
    have "dp_call c = None"
      using port_calls [OF move.hyps(1)] owner(3) by (auto simp: call_ok_def split: option.splits)
    then show ?thesis using owner move.IH by (simp add: port_pins_ok_def pins_ok_def uart_pins_only_def)
  next
    case (enter_done s cl)
    have "port_pins_ok (c\<lparr>dp_st := s\<rparr>)" using move.IH by (simp add: port_pins_ok_def enter_done(3))
    then show ?thesis unfolding enter_done(2) by (rule pins_finish)
  next
    case (wake_done cl)
    have "port_pins_ok (c\<lparr>dp_st := drain_wake (dp_st c), dp_sleep := remove1 cl (dp_sleep c)\<rparr>)"
      using move.IH by (simp add: port_pins_ok_def)
    then show ?thesis unfolding wake_done(2) by (rule pins_finish)
  qed (simp_all add: port_pins_ok_def)
qed

text \<open>
  C21. The detection samples inputs only. In every reachable state, also after a handoff was refused or its
  result discarded and after a release, each level a tick reads is read from a pin that is configured as an
  input at that moment (the receive pin, driven low to discharge it, is turned round first), and the ID1
  pin is never driven.
\<close>

theorem only_inputs_sampled:
  assumes "port_reach c" "legoport_dcm_step env now (dp_st c) (dp_hw c) = (call, s', h')"
  shows "\<exists>new. hw_io h' = hw_io (dp_hw c) @ new \<and> io_ok (hw_pin (dp_hw c)) new"
proof -
  have "pins_ok (dc_state (dp_st c)) (hw_pin (dp_hw c))" using port_pins [OF assms(1)] by (simp add: port_pins_ok_def)
  then show ?thesis using step_pins [OF assms(2)] by (auto simp: good_io_def)
qed

section \<open>Witnesses\<close>

lemma register_move:
  "port_move (boot_port h) (Some (Registering (Some 7) 0)) ((boot_port h)\<lparr>dp_st := register_begin (Some 7) 0 legoport_boot\<rparr>)"
  using port_move.enter_done [OF refl, of "Registering (Some 7) 0" "boot_port h"]
  by (simp add: boot_port_def legoport_boot_def register_begin_def)

theorem port_flags_true_witness:
  "port_reach uart_port \<and> dc_flags (dp_st uart_port) = true_flags (dp_st uart_port)"
  using port_flags_true [OF uart_port_reach] uart_port_reach by simp

theorem event_counter_counts_witness:
  "event_counter (register_begin (Some 7) 0 legoport_boot) = 0"
  using event_counter_counts [OF register_move] by (simp add: boot_port_def) (simp add: legoport_boot_def register_begin_def)

theorem no_callback_after_return_witness:
  "port_reach (boot_port \<lparr>hw_pin = (\<lambda>_. P_In), hw_io = []\<rparr>) \<and> dp_call uart_port = None"
  using no_callback_after_return [OF port_reach.boot register_move, of "\<lparr>hw_pin = (\<lambda>_. P_In), hw_io = []\<rparr>"]
  by (simp add: port_reach.boot) (simp add: uart_port_def boot_port_def)

theorem only_inputs_sampled_witness:
  "\<exists>new. hw_io (snd (snd (legoport_dcm_step demo_motor 0 (dp_st uart_port) (dp_hw uart_port)))) = hw_io (dp_hw uart_port) @ new \<and>
     io_ok (hw_pin (dp_hw uart_port)) new"
  by (rule only_inputs_sampled [OF uart_port_reach, of demo_motor 0
        "fst (legoport_dcm_step demo_motor 0 (dp_st uart_port) (dp_hw uart_port))"
        "fst (snd (legoport_dcm_step demo_motor 0 (dp_st uart_port) (dp_hw uart_port)))"]) simp

text \<open>A run that publishes: the first tick of a port with a device plugged in after which it is not empty.\<close>

lemma call_is_uart:
  assumes "legoport_dcm_step env now s h = (True, s', h')"
  shows "confirmed_type s' = LEGOPORT_TYPE_LPF2_UNKNOWN_UART"
proof -
  have f: "dc_state s = DCM_S8_FINALIZE" using step_publishes(4) [OF assms] by simp
  then have "dcm_s8_finalize now s h = (Invoke_Handoff, s', h')"
    using assms step_final [OF f, of env now h] by (auto split: prod.splits)
  then show ?thesis by (auto simp: dcm_s8_finalize_def Let_def split: if_splits)
qed

lemma publication_reached:
  "\<exists>c c'. port_reach c \<and> port_move c None c' \<and> confirmed_type (dp_st c) = LEGOPORT_TYPE_NONE \<and>
     confirmed_type (dp_st c') \<noteq> LEGOPORT_TYPE_NONE"
proof -
  let ?c = "boot_port \<lparr>hw_pin = (\<lambda>_. P_In), hw_io = []\<rparr>" and ?clock = "\<lambda>i :: nat. (0 :: int, OK)"
  let ?at = "\<lambda>i. dcm_ticks demo_motor ?clock i (dp_st ?c, dp_hw ?c)"
  let ?step = "\<lambda>i. legoport_dcm_step demo_motor 0 (fst (?at i)) (snd (?at i))"
  let ?P = "\<lambda>i. fst (?step i) \<or> confirmed_type (fst (?at (Suc i))) \<noteq> LEGOPORT_TYPE_NONE"
  have b: "dc_state (dp_st ?c) = DCM_S0_INIT" "\<not> in_unowned_rescan (dp_st ?c)" "dp_call ?c = None"
    "confirmed_type (dp_st ?c) = LEGOPORT_TYPE_NONE"
    "dp_hw ?c = \<lparr>hw_pin = socket P_Hi P_Lo P_In P_In, hw_io = hw_io (dp_hw ?c)\<rparr>"
    using socket_intro [of "hw_pin (dp_hw ?c)"] by (simp_all add: boot_port_def legoport_boot_def port_baseline_def)
  obtain n s1 io1 where n: "0 < n" "confirmed_from (?clock (n - 1)) (classify demo_motor) (dp_st ?c) s1"
    "?at n = (s1, \<lparr>hw_pin = socket P_Hi P_Lo P_In P_In, hw_io = io1\<rparr>)"
    using steady_scans_confirm [OF b(1), of ?clock demo_motor P_Hi P_Lo P_In "hw_io (dp_hw ?c)"] unfolding b(5) [symmetric] by blast
  have "confirmed_type (fst (?at n)) \<noteq> LEGOPORT_TYPE_NONE"
    using confirmed_from_settled [OF n(2) b(2)] n(3) by (simp add: settled_def demo_motor_class)
  then have ex: "\<exists>i. ?P i" using n(1) by (metis Suc_pred')
  define k where "k = (LEAST i. ?P i)"
  have k: "?P k" "\<And>i. i < k \<Longrightarrow> \<not> ?P i" unfolding k_def using LeastI_ex [OF ex] not_less_Least by auto
  have none: "confirmed_type (fst (?at k)) = LEGOPORT_TYPE_NONE"
    using b(4) k(2) [of "k - 1"] by (cases k) simp_all
  have f: "\<forall>i < k. \<not> fst (legoport_dcm_step demo_motor (fst (?clock i)) (fst (?at i)) (snd (?at i)))" using k(2) by simp
  obtain c1 :: dcm_port where c1: "port_reach c1" "dp_call c1 = None" "?at k = (dp_st c1, dp_hw c1)"
    using ticks_reach [OF port_reach.boot b(3) f] by blast
  obtain call s' h' where st: "legoport_dcm_step demo_motor 0 (dp_st c1) (dp_hw c1) = (call, s', h')"
    by (cases "legoport_dcm_step demo_motor 0 (dp_st c1) (dp_hw c1)")
  have c0: "confirmed_type (dp_st c1) = LEGOPORT_TYPE_NONE" using none c1(3) by simp
  show ?thesis
  proof (cases call)
    case True
    obtain loc s'' where e: "handoff_enter s' = (loc, s'')" by (cases "handoff_enter s'")
    have "s'' = snd (handoff_enter s')" using e by simp
    then have "confirmed_type s'' \<noteq> LEGOPORT_TYPE_NONE" using call_is_uart [of demo_motor 0 "dp_st c1" "dp_hw c1" s' h'] st True by simp
    moreover have "port_move c1 None (c1\<lparr>dp_st := s'', dp_hw := h', dp_call := Some loc, dp_scans := note_scan c1\<rparr>)"
      using port_move.tick_call [OF c1(2) _ e, of demo_motor 0 h'] st True by simp
    ultimately show ?thesis using c1(1) c0 by (intro exI [of _ c1] exI [of _ "c1\<lparr>dp_st := s'', dp_hw := h', dp_call := Some loc, dp_scans := note_scan c1\<rparr>"]) simp
  next
    case False
    then have "?at (Suc k) = (s', h')" using c1(3) st by (simp add: dcm_tick_def legoport_dcm_turn_def)
    then have "confirmed_type s' \<noteq> LEGOPORT_TYPE_NONE" using k(1) c1(3) st False by simp
    moreover have "port_move c1 None (c1\<lparr>dp_st := s', dp_hw := h', dp_scans := note_scan c1\<rparr>)"
      using port_move.tick [OF c1(2)] st False by simp
    ultimately show ?thesis using c1(1) c0 by (intro exI [of _ c1] exI [of _ "c1\<lparr>dp_st := s', dp_hw := h', dp_scans := note_scan c1\<rparr>"]) simp
  qed
qed

theorem published_after_twenty_scans_witness:
  "\<exists>c t. port_reach c \<and> t \<noteq> LEGOPORT_TYPE_NONE \<and> confirmed_type (dp_st c) = t \<and> take 20 (dp_scans c) = replicate 20 t"
proof -
  obtain c c' where c: "port_reach c" "port_move c None c'" "confirmed_type (dp_st c) = LEGOPORT_TYPE_NONE"
    "confirmed_type (dp_st c') \<noteq> LEGOPORT_TYPE_NONE"
    using publication_reached by blast
  then have "take 20 (dp_scans c') = replicate 20 (confirmed_type (dp_st c'))"
    using published_after_twenty_scans [OF c(1,2)] by simp
  then show ?thesis using c port_reach.move [OF c(1,2)] by blast
qed

end
