(* ===== verification/Legoport_Chardev.thy ===== *)
theory Legoport_Chardev
  imports Legoport_Dcm Legosensor
begin

text \<open>
  The character devices of the six ports, \<^verbatim>\<open>boards/spike-prime-hub/src/stm32_legoport_chardev.c\<close>: one open
  session per port, with the detection's state, the protocol engine and the H-bridge behind its ioctls. A
  user pointer is absent, outside the caller's memory, or the object it points to. What the theorems show is
  the life of a session: there is one at a time, and it leaves no motor running that it started.
\<close>

section \<open>State\<close>

definition LEGOPORT_MAX_POLLWAITERS :: nat where "LEGOPORT_MAX_POLLWAITERS = 2"

record legoport_cdev_s =
  cd_open :: bool
  cd_drove :: bool
  cd_last_seen :: "32 word"
  cd_fds :: "nat option list"

text \<open>The devices, and the drivers they are a front of.\<close>

record port_system =
  ps_cdev :: "legoport_cdev_s list"
  ps_dcm :: legoport_driver
  ps_pwm :: pwm_system
  ps_lump :: "lump_engine_s list"

definition upd_cdev :: "nat \<Rightarrow> (legoport_cdev_s \<Rightarrow> legoport_cdev_s) \<Rightarrow> port_system \<Rightarrow> port_system" where
  "upd_cdev p f s = s\<lparr>ps_cdev := (ps_cdev s)[p := f (ps_cdev s ! p)]\<rparr>"

section \<open>Sessions\<close>

text \<open>The outcome of taking the device's mutex is an argument.\<close>

definition legoport_cdev_open :: "int \<Rightarrow> nat \<Rightarrow> port_system \<Rightarrow> int \<times> port_system" where
  "legoport_cdev_open lk p s =
     (if lk < 0 then (lk, s)
      else if cd_open (ps_cdev s ! p) then (- EBUSY, s)
      else (OK, upd_cdev p (\<lambda>d. d\<lparr>cd_open := True, cd_drove := False, cd_last_seen := 0\<rparr>) s))"

text \<open>\<open>plk\<close> is the outcome of taking the bridge's mutex.\<close>

definition legoport_cdev_close :: "int \<Rightarrow> nat \<Rightarrow> port_system \<Rightarrow> int \<times> port_system" where
  "legoport_cdev_close plk p s =
     (let s1 = (if cd_drove (ps_cdev s ! p)
                then s\<lparr>ps_pwm := final (ps_pwm s) (snd (stm32_legoport_pwm_close_cleanup plk (int p) (ps_pwm s)))\<rparr> else s)
      in (OK, upd_cdev p (\<lambda>d. d\<lparr>cd_open := False, cd_drove := False\<rparr>) s1))"

definition legoport_cdev_read :: "nat \<Rightarrow> port_system \<Rightarrow> int" where
  "legoport_cdev_read p s = - EAGAIN"

definition legoport_cdev_write :: "nat \<Rightarrow> port_system \<Rightarrow> int" where
  "legoport_cdev_write p s = - ENOTSUP"

section \<open>Requests\<close>

record legoport_lump_send_arg_s =
  ls_mode :: byte
  ls_len :: byte
  ls_data :: "byte list"

datatype legoport_cmd =
    LEGOPORT_GET_DEVICE_TYPE "unit uarg"
  | LEGOPORT_GET_DEVICE_INFO "unit uarg"
  | LEGOPORT_WAIT_CONNECT "32 word"
  | LEGOPORT_WAIT_DISCONNECT "32 word"
  | LEGOPORT_GET_STATS "unit uarg"
  | LEGOPORT_RESET_STATS
  | LEGOPORT_LUMP_HW_DUMP
  | LEGOPORT_LUMP_GET_INFO "unit uarg"
  | LEGOPORT_LUMP_SELECT byte
  | LEGOPORT_LUMP_SEND "legoport_lump_send_arg_s uarg"
  | LEGOPORT_LUMP_POLL_DATA "unit uarg"
  | LEGOPORT_LUMP_POLL_DATA_SESSION "unit uarg"
  | LEGOPORT_LUMP_GET_STATUS_EX "unit uarg"
  | LEGOPORT_PWM_SET_DUTY int
  | LEGOPORT_PWM_COAST
  | LEGOPORT_PWM_BRAKE
  | LEGOPORT_PWM_GET_STATUS "unit uarg"
  | LEGOPORT_UNKNOWN_CMD

datatype legoport_answer =
    Ans_None
  | Ans_Type nat
  | Ans_Info legoport_info_s
  | Ans_Stats legoport_stats_s
  | Ans_Lump_Info lump_device_info_s
  | Ans_Frame lump_data_frame_s
  | Ans_Session_Frame lump_data_session_frame_s
  | Ans_Status lump_status_full_s
  | Ans_Pwm legoport_pwm_status_s

type_synonym legoport_reply = "int \<times> legoport_answer \<times> port_system"

definition to_user :: "'a uarg \<Rightarrow> port_system \<Rightarrow> ('a \<Rightarrow> legoport_reply) \<Rightarrow> legoport_reply" where
  "to_user a s k = (case a of U_Null \<Rightarrow> (- EINVAL, Ans_None, s) | U_Fault \<Rightarrow> (- EFAULT, Ans_None, s) | U_Ok x \<Rightarrow> k x)"

text \<open>Copying a result out, or returning the error the driver gave.\<close>

definition copy_out :: "port_system \<Rightarrow> ('b \<Rightarrow> legoport_answer) \<Rightarrow> int \<times> 'b option \<Rightarrow> legoport_reply" where
  "copy_out s f r = (case r of (rc, x) \<Rightarrow> if rc < 0 then (rc, Ans_None, s)
     else (OK, (case x of None \<Rightarrow> Ans_None | Some y \<Rightarrow> f y), s))"

definition pwm_request :: "nat \<Rightarrow> (pwm_system \<Rightarrow> int \<times> pwm_system list) \<Rightarrow> port_system \<Rightarrow> legoport_reply" where
  "pwm_request p f s =
     (case f (ps_pwm s) of (rc, tr) \<Rightarrow>
        let s1 = s\<lparr>ps_pwm := final (ps_pwm s) tr\<rparr> in
        (rc, Ans_None, if rc = OK then upd_cdev p (\<lambda>d. d\<lparr>cd_drove := True\<rparr>) s1 else s1))"

text \<open>
  Waiting for a device to come or go. One observation is what a round of the loop meets: the counter at the
  first look of the wait, how the sleeps on the semaphore end, and the port's information afterwards.
\<close>

record wait_obs =
  wo_counter :: "32 word"
  wo_rounds :: "(int \<times> 32 word) list"
  wo_info :: legoport_info_s

definition info_connected :: "legoport_info_s \<Rightarrow> bool" where
  "info_connected i \<longleftrightarrow> li_flags i AND LEGOPORT_FLAG_CONNECTED \<noteq> 0"

fun wait_rounds :: "nat \<Rightarrow> bool \<Rightarrow> wait_obs list \<Rightarrow> 32 word \<Rightarrow> (int \<times> 32 word option) option" where
  "wait_rounds p target [] snapshot = None"
| "wait_rounds p target (ob # obs) snapshot =
     (case stm32_legoport_wait_change (int p) snapshot (wo_rounds ob) (wo_counter ob) of
        None \<Rightarrow> None
      | Some (rc, nc) \<Rightarrow>
          if rc < 0 then Some (rc, None)
          else if info_connected (wo_info ob) = target then Some (OK, Some (li_event_counter (wo_info ob)))
          else wait_rounds p target obs (case nc of None \<Rightarrow> snapshot | Some n \<Rightarrow> n))"

text \<open>The request as a whole; \<open>None\<close> while it is still waiting when the observations end.\<close>

definition wait_request :: "nat \<Rightarrow> bool \<Rightarrow> wait_obs list \<Rightarrow> port_system \<Rightarrow> legoport_reply option" where
  "wait_request p target obs s =
     (let snapshot = cd_last_seen (ps_cdev s ! p);
          seen = (\<lambda>n. upd_cdev p (\<lambda>d. d\<lparr>cd_last_seen := n\<rparr>) s) in
      case stm32_legoport_get_info (int p) True (ps_dcm s) of
        (rc, None) \<Rightarrow> Some (rc, Ans_None, s)
      | (rc, Some i) \<Rightarrow>
          if li_event_counter i \<noteq> snapshot \<and> info_connected i = target then
            Some (OK, Ans_None, seen (li_event_counter i))
          else
            case wait_rounds p target obs snapshot of
              None \<Rightarrow> None
            | Some (r, None) \<Rightarrow> Some (r, Ans_None, s)
            | Some (r, Some n) \<Rightarrow> Some (r, Ans_None, seen n))"

text \<open>All other requests.\<close>

definition plain_request :: "int \<Rightarrow> nat \<Rightarrow> legoport_cmd \<Rightarrow> port_system \<Rightarrow> legoport_reply" where
  "plain_request lk p cmd s =
     (case cmd of
        LEGOPORT_GET_DEVICE_TYPE a \<Rightarrow> to_user a s (\<lambda>_.
          copy_out s (\<lambda>i. Ans_Type (device_type i)) (stm32_legoport_get_info (int p) True (ps_dcm s)))
      | LEGOPORT_GET_DEVICE_INFO a \<Rightarrow> to_user a s (\<lambda>_.
          case stm32_legoport_get_info (int p) True (ps_dcm s) of
            (rc, None) \<Rightarrow> (rc, Ans_None, s)
          | (rc, Some i) \<Rightarrow> (OK, Ans_Info i, upd_cdev p (\<lambda>d. d\<lparr>cd_last_seen := li_event_counter i\<rparr>) s))
      | LEGOPORT_GET_STATS a \<Rightarrow> to_user a s (\<lambda>_. (OK, Ans_Stats (stm32_legoport_get_stats (ps_dcm s)), s))
      | LEGOPORT_RESET_STATS \<Rightarrow> (OK, Ans_None, s\<lparr>ps_dcm := stm32_legoport_reset_stats (ps_dcm s)\<rparr>)
      | LEGOPORT_LUMP_HW_DUMP \<Rightarrow> (OK, Ans_None, s)
      | LEGOPORT_LUMP_GET_INFO a \<Rightarrow> to_user a s (\<lambda>_. copy_out s Ans_Lump_Info (lump_get_info (int p) (ps_lump s)))
      | LEGOPORT_LUMP_SELECT m \<Rightarrow> (case lump_select_mode (int p) m (ps_lump s) of (rc, g) \<Rightarrow> (rc, Ans_None, s\<lparr>ps_lump := g\<rparr>))
      | LEGOPORT_LUMP_SEND a \<Rightarrow> to_user a s (\<lambda>x.
          if ls_len x = 0 \<or> ls_len x > 32 then (- EINVAL, Ans_None, s)
          else case lump_send_data (int p) (ls_mode x) (Buf (take (unat (ls_len x)) (ls_data x))) (ps_lump s) of
            (rc, g) \<Rightarrow> (rc, Ans_None, s\<lparr>ps_lump := g\<rparr>))
      | LEGOPORT_LUMP_POLL_DATA a \<Rightarrow> to_user a s (\<lambda>_.
          case lump_pop_data_frame (int p) True (ps_lump s) of (rc, fr, g) \<Rightarrow>
            copy_out (s\<lparr>ps_lump := g\<rparr>) Ans_Frame (rc, fr))
      | LEGOPORT_LUMP_POLL_DATA_SESSION a \<Rightarrow> to_user a s (\<lambda>_.
          case lump_pop_data_session_frame (int p) True (ps_lump s) of (rc, fr, g) \<Rightarrow>
            copy_out (s\<lparr>ps_lump := g\<rparr>) Ans_Session_Frame (rc, fr))
      | LEGOPORT_LUMP_GET_STATUS_EX a \<Rightarrow> to_user a s (\<lambda>_.
          copy_out s Ans_Status (lump_get_status_full (int p) True (ps_lump s)))
      | LEGOPORT_PWM_SET_DUTY d \<Rightarrow> pwm_request p (stm32_legoport_pwm_set_duty lk (int p) (i16 d)) s
      | LEGOPORT_PWM_COAST \<Rightarrow> pwm_request p (stm32_legoport_pwm_coast lk (int p)) s
      | LEGOPORT_PWM_BRAKE \<Rightarrow> pwm_request p (stm32_legoport_pwm_brake lk (int p)) s
      | LEGOPORT_PWM_GET_STATUS a \<Rightarrow> to_user a s (\<lambda>_.
          copy_out s Ans_Pwm (stm32_legoport_pwm_get_status lk (int p) True (ps_pwm s)))
      | _ \<Rightarrow> (- ENOTTY, Ans_None, s))"

definition legoport_cdev_ioctl ::
    "int \<Rightarrow> wait_obs list \<Rightarrow> nat \<Rightarrow> legoport_cmd \<Rightarrow> port_system \<Rightarrow> legoport_reply option" where
  "legoport_cdev_ioctl lk obs p cmd s =
     (case cmd of
        LEGOPORT_WAIT_CONNECT timeout_ms \<Rightarrow> wait_request p True obs s
      | LEGOPORT_WAIT_DISCONNECT timeout_ms \<Rightarrow> wait_request p False obs s
      | _ \<Rightarrow> Some (plain_request lk p cmd s))"

section \<open>Polling\<close>

text \<open>
  A pollfd is an identity; it asks for input or not, and remembers the slot it was given. The result says
  whether it is notified.
\<close>

fun free_slot :: "nat option list \<Rightarrow> nat option" where
  "free_slot [] = None"
| "free_slot (None # xs) = Some 0"
| "free_slot (Some f # xs) = map_option Suc (free_slot xs)"

definition legoport_cdev_poll_setup :: "nat \<Rightarrow> bool \<Rightarrow> nat \<Rightarrow> port_system \<Rightarrow> int \<times> nat option \<times> bool \<times> port_system" where
  "legoport_cdev_poll_setup fd pollin p s =
     (case free_slot (cd_fds (ps_cdev s ! p)) of
        None \<Rightarrow> (- EBUSY, None, False, s)
      | Some i \<Rightarrow>
          let s1 = upd_cdev p (\<lambda>d. d\<lparr>cd_fds := (cd_fds d)[i := Some fd]\<rparr>) s in
          (OK, Some i,
           pollin \<and> (case stm32_legoport_get_info (int p) True (ps_dcm s1) of
              (rc, Some x) \<Rightarrow> rc = OK \<and> li_event_counter x \<noteq> cd_last_seen (ps_cdev s1 ! p) | _ \<Rightarrow> False), s1))"

definition legoport_cdev_poll_teardown :: "nat option \<Rightarrow> nat \<Rightarrow> port_system \<Rightarrow> int \<times> port_system" where
  "legoport_cdev_poll_teardown slot p s =
     (OK, case slot of None \<Rightarrow> s | Some i \<Rightarrow> upd_cdev p (\<lambda>d. d\<lparr>cd_fds := (cd_fds d)[i := None]\<rparr>) s)"

text \<open>Registration stops at the first device the system refuses; the outcomes are arguments.\<close>

fun register_devices :: "int list \<Rightarrow> nat \<Rightarrow> port_system \<Rightarrow> int \<times> port_system" where
  "register_devices [] p s = (OK, s)"
| "register_devices (rc # rcs) p s =
     (let s1 = upd_cdev p (\<lambda>d. \<lparr>cd_open = False, cd_drove = False, cd_last_seen = 0,
                                cd_fds = replicate LEGOPORT_MAX_POLLWAITERS None\<rparr>) s in
      if rc < 0 then (rc, s1) else register_devices rcs (Suc p) s1)"

definition stm32_legoport_chardev_register :: "int list \<Rightarrow> port_system \<Rightarrow> int \<times> port_system" where
  "stm32_legoport_chardev_register rcs s = register_devices (take BOARD_LEGOPORT_COUNT rcs) 0 s"

section \<open>A session drives only what it says\<close>

fun drive_request :: "legoport_cmd \<Rightarrow> bool" where
  "drive_request (LEGOPORT_PWM_SET_DUTY d) = True"
| "drive_request LEGOPORT_PWM_COAST = True"
| "drive_request LEGOPORT_PWM_BRAKE = True"
| "drive_request _ = False"

text \<open>
  The life of a session on port \<open>p\<close>: it is opened, makes requests, and everybody else does what they like to
  everything but the devices. The flag says whether a request that drives the bridge has succeeded.
\<close>

inductive port_session :: "nat \<Rightarrow> bool \<Rightarrow> port_system \<Rightarrow> bool" for p where
  opened: "legoport_cdev_open lk p s = (OK, s') \<Longrightarrow> p < length (ps_cdev s) \<Longrightarrow> port_session p False s'"
| request: "port_session p b s \<Longrightarrow> legoport_cdev_ioctl lk obs p cmd s = Some (rc, a, s') \<Longrightarrow>
    port_session p (b \<or> rc = OK \<and> drive_request cmd) s'"
| others: "port_session p b s \<Longrightarrow> ps_cdev s' = ps_cdev s \<Longrightarrow> port_session p b s'"

lemma upd_cdev_simps [simp]:
  "length (ps_cdev (upd_cdev p f s)) = length (ps_cdev s)" "ps_pwm (upd_cdev p f s) = ps_pwm s"
  "ps_dcm (upd_cdev p f s) = ps_dcm s" "ps_lump (upd_cdev p f s) = ps_lump s"
  "p < length (ps_cdev s) \<Longrightarrow> ps_cdev (upd_cdev p f s) ! p = f (ps_cdev s ! p)"
  by (simp_all add: upd_cdev_def)

text \<open>Every request leaves the session open and marks it exactly when it drove the bridge.\<close>

definition session_mark :: "nat \<Rightarrow> port_system \<Rightarrow> nat \<times> bool \<times> bool" where
  "session_mark p s = (length (ps_cdev s), cd_open (ps_cdev s ! p), cd_drove (ps_cdev s ! p))"

lemma mark_simps [simp]:
  "session_mark p (s\<lparr>ps_lump := g\<rparr>) = session_mark p s" "session_mark p (s\<lparr>ps_dcm := d\<rparr>) = session_mark p s"
  "session_mark p (s\<lparr>ps_pwm := w\<rparr>) = session_mark p s"
  "p < length (ps_cdev s) \<Longrightarrow> session_mark p (upd_cdev p (\<lambda>d. d\<lparr>cd_last_seen := n\<rparr>) s) = session_mark p s"
  by (simp_all add: session_mark_def)

lemma copy_out_state [simp]: "snd (snd (copy_out s f r)) = s"
  by (simp add: copy_out_def split: prod.splits)

lemma to_user_state:
  "(\<And>x. snd (snd (k x)) = s) \<Longrightarrow> snd (snd (to_user a s k)) = s"
  by (cases a) (simp_all add: to_user_def)

lemma to_user_mark:
  "(\<And>x. session_mark p (snd (snd (k x))) = session_mark p s) \<Longrightarrow> session_mark p (snd (snd (to_user a s k))) = session_mark p s"
  by (cases a) (simp_all add: to_user_def)

lemma pwm_request_mark:
  assumes "p < length (ps_cdev s)"
  shows "session_mark p (snd (snd (pwm_request p f s))) =
    (length (ps_cdev s), cd_open (ps_cdev s ! p), cd_drove (ps_cdev s ! p) \<or> fst (pwm_request p f s) = OK)"
  using assms by (simp add: pwm_request_def session_mark_def Let_def split: prod.splits)

lemma plain_request_mark:
  assumes "p < length (ps_cdev s)" "\<not> drive_request cmd"
  shows "session_mark p (snd (snd (plain_request lk p cmd s))) = session_mark p s"
proof (cases cmd)
  case (LEGOPORT_GET_DEVICE_INFO a)
  have "session_mark p (snd (snd (case stm32_legoport_get_info (int p) True (ps_dcm s) of
      (rc, None) \<Rightarrow> (rc, Ans_None, s)
    | (rc, Some i) \<Rightarrow> (OK, Ans_Info i, upd_cdev p (\<lambda>d. d\<lparr>cd_last_seen := li_event_counter i\<rparr>) s)))) = session_mark p s"
    using assms(1) by (simp split: prod.splits option.splits)
  then show ?thesis unfolding LEGOPORT_GET_DEVICE_INFO plain_request_def legoport_cmd.case by (rule to_user_mark)
next
  case (LEGOPORT_LUMP_SEND a)
  have "session_mark p (snd (snd (if ls_len x = 0 \<or> ls_len x > 32 then (- EINVAL, Ans_None, s)
      else case lump_send_data (int p) (ls_mode x) (Buf (take (unat (ls_len x)) (ls_data x))) (ps_lump s) of
        (rc, g) \<Rightarrow> (rc, Ans_None, s\<lparr>ps_lump := g\<rparr>)))) = session_mark p s" for x
    by (simp split: prod.splits)
  then show ?thesis unfolding LEGOPORT_LUMP_SEND plain_request_def legoport_cmd.case by (rule to_user_mark)
next
  case (LEGOPORT_LUMP_POLL_DATA a)
  then show ?thesis by (simp add: plain_request_def to_user_mark split: prod.splits)
next
  case (LEGOPORT_LUMP_POLL_DATA_SESSION a)
  then show ?thesis by (simp add: plain_request_def to_user_mark split: prod.splits)
qed (use assms in \<open>simp_all add: plain_request_def to_user_state split: prod.splits\<close>)

lemma wait_request_mark:
  assumes "p < length (ps_cdev s)" "wait_request p target obs s = Some (rc, a, s')"
  shows "session_mark p s' = session_mark p s"
  using assms by (auto simp: wait_request_def Let_def split: prod.splits option.splits if_splits)

lemma ioctl_mark:
  assumes "p < length (ps_cdev s)" "legoport_cdev_ioctl lk obs p cmd s = Some (rc, a, s')"
  shows "session_mark p s' = (length (ps_cdev s), cd_open (ps_cdev s ! p), cd_drove (ps_cdev s ! p) \<or> rc = OK \<and> drive_request cmd)"
proof (cases "drive_request cmd")
  case True
  then have "plain_request lk p cmd s = (rc, a, s')" using assms(2) by (cases cmd) (simp_all add: legoport_cdev_ioctl_def)
  moreover obtain f where "plain_request lk p cmd s = pwm_request p f s"
    using True by (cases cmd) (simp_all add: plain_request_def)
  ultimately show ?thesis using pwm_request_mark [OF assms(1), of f] True by simp
next
  case False
  have "session_mark p s' = session_mark p s"
  proof (cases "\<exists>t. cmd = LEGOPORT_WAIT_CONNECT t \<or> cmd = LEGOPORT_WAIT_DISCONNECT t")
    case True
    then show ?thesis using assms wait_request_mark by (auto simp: legoport_cdev_ioctl_def)
  next
    case other: False
    then have "plain_request lk p cmd s = (rc, a, s')"
      using assms(2) by (cases cmd) (simp_all add: legoport_cdev_ioctl_def)
    then show ?thesis using plain_request_mark [OF assms(1) False, of lk] by simp
  qed
  then show ?thesis using False by (simp add: session_mark_def)
qed

lemma session_marked:
  "port_session p b s \<Longrightarrow> p < length (ps_cdev s) \<and> cd_open (ps_cdev s ! p) \<and> cd_drove (ps_cdev s ! p) = b"
proof (induction rule: port_session.induct)
  case (opened lk s s')
  then show ?case by (auto simp: legoport_cdev_open_def OK_def EBUSY_def split: if_splits)
next
  case (request b s lk obs cmd rc a s')
  then show ?case using ioctl_mark [OF _ request.hyps(2)] by (auto simp: session_mark_def)
qed simp_all

text \<open>
  C26. Closing a port's device stops what its session started, and nothing else. If some request of the
  session drove the bridge, the port is not driven any more after the close, unless the engine holds it as a
  supply; if none did, the close leaves the bridge exactly as it is, however others drive it meanwhile. The
  device can be opened again.
\<close>

theorem close_stops_own_motor:
  assumes "port_session p b s" "legoport_cdev_close plk p s = (rc, s')" "0 \<le> plk"
    and "p < 6" "length (g_devs (ps_pwm s)) = 6" "pw_initialized (g_devs (ps_pwm s) ! p)"
  shows "(if b then pw_state (g_devs (ps_pwm s') ! p) \<noteq> LEGOPORT_PWM_STATE_PWM \<or> pw_pinned (g_devs (ps_pwm s') ! p)
    else ps_pwm s' = ps_pwm s) \<and> \<not> cd_open (ps_cdev s' ! p)"
proof -
  note m = session_marked [OF assms(1)]
  let ?tr = "snd (stm32_legoport_pwm_close_cleanup plk (int p) (ps_pwm s))" and ?d = "g_devs (ps_pwm s) ! p"
  have s': "s' = upd_cdev p (\<lambda>d. d\<lparr>cd_open := False, cd_drove := False\<rparr>)
      (if b then s\<lparr>ps_pwm := final (ps_pwm s) ?tr\<rparr> else s)"
    using assms(2) m by (simp add: legoport_cdev_close_def Let_def)
  have tr: "?tr = (if \<not> pw_pinned ?d \<and> pw_state ?d = LEGOPORT_PWM_STATE_PWM then hbridge_apply_coast p (ps_pwm s) else [])"
    using assms(3-6) by (simp add: stm32_legoport_pwm_close_cleanup_def with_port_def BOARD_LEGOPORT_COUNT_def)
  have "view p (last (hbridge_apply_coast p (ps_pwm s))) =
      (?d\<lparr>pw_state := LEGOPORT_PWM_STATE_COAST, pw_duty := 0\<rparr>, Pin_Lo, Pin_Lo, ccr1 p (ps_pwm s), ccr2 p (ps_pwm s))"
    using own_final(1) [OF assms(4,5)] .
  then have "g_devs (last (hbridge_apply_coast p (ps_pwm s))) ! p = ?d\<lparr>pw_state := LEGOPORT_PWM_STATE_COAST, pw_duty := 0\<rparr>"
    by (simp add: view_def)
  moreover have "hbridge_apply_coast p (ps_pwm s) \<noteq> []" by (simp add: hbridge_apply_coast_def)
  ultimately show ?thesis unfolding s' tr using m by (auto simp: final_def)
qed

text \<open>A motor turning slowly, which the session speeds up.\<close>

definition slow_dev :: legoport_pwm_dev_s where
  "slow_dev = \<lparr>pw_duty = 1000, pw_state = LEGOPORT_PWM_STATE_PWM, pw_initialized = True, pw_pinned = False\<rparr>"

definition slow_pwm :: pwm_system where
  "slow_pwm = \<lparr>g_devs = replicate 6 slow_dev, gpio_mode = (\<lambda>_. Pin_Hi), tim_ccr = (\<lambda>_. 0)\<rparr>"

definition demo_ports :: port_system where
  "demo_ports =
     \<lparr>ps_cdev = replicate 6 \<lparr>cd_open = False, cd_drove = False, cd_last_seen = 0, cd_fds = [None, None]\<rparr>,
      ps_dcm = \<lparr>g_legoport_state = [], g_stats = \<lparr>max_step_us = 0, max_interval_us = 0, total_invocations = 0,
                 late_4ms = 0, late_10ms = 0, late_100ms = 0\<rparr>, g_last_invoke_ticks = 0,
                g_legoport_initialized = True, g_work_queued = True\<rparr>,
      ps_pwm = slow_pwm, ps_lump = []\<rparr>"

definition session_pwm :: pwm_system where
  "session_pwm = final slow_pwm (snd (stm32_legoport_pwm_set_duty 0 2 5000 slow_pwm))"

lemma driven_pwm_facts:
  "fst (stm32_legoport_pwm_set_duty 0 2 5000 slow_pwm) = OK"
  "length (g_devs session_pwm) = 6" "pw_initialized (g_devs session_pwm ! 2)"
  "pw_state (g_devs session_pwm ! 2) = LEGOPORT_PWM_STATE_PWM" "\<not> pw_pinned (g_devs session_pwm ! 2)"
  by (simp_all add: session_pwm_def stm32_legoport_pwm_set_duty_def with_port_def hbridge_set_duty_internal_def slow_pwm_def
      slow_dev_def final_def pwm_consts Let_def set_dev_def putreg_ccr_def split: option.splits)

definition driven_ports :: port_system where
  "driven_ports = upd_cdev 2 (\<lambda>d. d\<lparr>cd_drove := True\<rparr>) ((snd (legoport_cdev_open 0 2 demo_ports))\<lparr>ps_pwm := session_pwm\<rparr>)"

lemma demo_open: "legoport_cdev_open 0 2 demo_ports =
    (OK, upd_cdev 2 (\<lambda>d. d\<lparr>cd_open := True, cd_drove := False, cd_last_seen := 0\<rparr>) demo_ports)"
  by (simp add: legoport_cdev_open_def demo_ports_def)

lemma driven_ports_session: "port_session 2 True driven_ports"
proof -
  let ?s1 = "snd (legoport_cdev_open 0 2 demo_ports)"
  have "port_session 2 False ?s1"
    by (rule port_session.opened [of 0 2 demo_ports]) (simp_all add: demo_open, simp add: demo_ports_def)
  moreover have "ps_pwm ?s1 = slow_pwm" by (simp add: demo_open) (simp add: demo_ports_def)
  then have "legoport_cdev_ioctl 0 [] 2 (LEGOPORT_PWM_SET_DUTY 5000) ?s1 = Some (OK, Ans_None, driven_ports)"
    using driven_pwm_facts(1)
    by (cases "stm32_legoport_pwm_set_duty 0 2 5000 slow_pwm")
      (simp add: legoport_cdev_ioctl_def plain_request_def pwm_request_def driven_ports_def session_pwm_def wrap_s_def Let_def)
  ultimately show ?thesis using port_session.request [of 2 False ?s1 0 "[]" "LEGOPORT_PWM_SET_DUTY 5000"] by simp
qed

lemma driven_ports_pwm: "ps_pwm driven_ports = session_pwm" "cd_drove (ps_cdev driven_ports ! 2)"
  by (simp_all add: driven_ports_def demo_open) (simp add: demo_ports_def)

theorem close_stops_own_motor_witness:
  "pw_state (g_devs (ps_pwm driven_ports) ! 2) = LEGOPORT_PWM_STATE_PWM \<and>
   pw_state (g_devs (ps_pwm (snd (legoport_cdev_close 0 2 driven_ports))) ! 2) \<noteq> LEGOPORT_PWM_STATE_PWM"
  using close_stops_own_motor [OF driven_ports_session, of 0 "fst (legoport_cdev_close 0 2 driven_ports)"
      "snd (legoport_cdev_close 0 2 driven_ports)"] driven_pwm_facts driven_ports_pwm
  by (simp add: legoport_cdev_close_def stm32_legoport_pwm_close_cleanup_def with_port_def pwm_consts final_def
      hbridge_apply_coast_def set_dev_def stm32_configgpio_def)

text \<open>
  Fact. There is one session at a time: while one is under way every further open is refused and changes
  nothing.
\<close>

theorem one_session:
  assumes "port_session p b s"
  shows "0 \<le> lk \<longrightarrow> legoport_cdev_open lk p s = (- EBUSY, s)"
  using session_marked [OF assms] by (simp add: legoport_cdev_open_def)

lemma wait_rounds_last:
  "wait_rounds p target obs snapshot = Some (OK, Some n) \<Longrightarrow>
   \<exists>ob \<in> set obs. info_connected (wo_info ob) = target \<and> li_event_counter (wo_info ob) = n"
  by (induction p target obs snapshot rule: wait_rounds.induct) (auto split: option.splits prod.splits if_splits)

lemma wait_rounds_result:
  "wait_rounds p target obs snapshot = Some (r, n) \<Longrightarrow> (case n of None \<Rightarrow> r < 0 | Some m \<Rightarrow> r = OK)"
  by (induction p target obs snapshot rule: wait_rounds.induct) (auto split: option.splits prod.splits if_splits)

text \<open>
  Fact. A wait that succeeds reports what its last look at the port showed: the state waited for, at the
  counter the session remembers from then on.
\<close>

theorem wait_reports_target:
  assumes "wait_request p target obs s = Some (OK, a, s')" "p < length (ps_cdev s)" "p < 6"
  shows "\<exists>i. info_connected i = target \<and> cd_last_seen (ps_cdev s' ! p) = li_event_counter i \<and>
    (stm32_legoport_get_info (int p) True (ps_dcm s) = (OK, Some i) \<or> i \<in> wo_info ` set obs)"
proof -
  obtain i where i: "stm32_legoport_get_info (int p) True (ps_dcm s) = (OK, Some i)"
    using assms(3) by (simp add: stm32_legoport_get_info_def legoport_port_ok_def BOARD_LEGOPORT_COUNT_def Let_def)
  show ?thesis
  proof (cases "li_event_counter i \<noteq> cd_last_seen (ps_cdev s ! p) \<and> info_connected i = target")
    case True
    then show ?thesis using assms(1,2) i by (intro exI [of _ i]) (auto simp: wait_request_def Let_def)
  next
    case False
    obtain r where r: "wait_rounds p target obs (cd_last_seen (ps_cdev s ! p)) = Some r"
      using assms(1) i False by (auto simp: wait_request_def Let_def split: option.splits if_splits)
    obtain rc n where rn: "r = (rc, n)" by (cases r)
    then obtain m where m: "n = Some m" "rc = OK" "s' = upd_cdev p (\<lambda>d. d\<lparr>cd_last_seen := m\<rparr>) s"
      using assms(1) i False r wait_rounds_result [of p target obs "cd_last_seen (ps_cdev s ! p)" rc n]
      by (cases n) (auto simp: wait_request_def OK_def split: if_splits)
    then obtain ob where "ob \<in> set obs" "info_connected (wo_info ob) = target" "li_event_counter (wo_info ob) = m"
      using wait_rounds_last r rn by blast
    then show ?thesis using m(3) assms(2) by (intro exI [of _ "wo_info ob"]) simp
  qed
qed

end
