(* ===== verification/Db_Config.thy ===== *)
theory Db_Config
  imports Db_Settings Db_Motor
begin

text \<open>
  The configuration file of the drive base, \<^verbatim>\<open>apps/drivebase/drivebase_config.c\<close>: one \<^verbatim>\<open>key = value\<close> per
  line, with comments, blank lines, both line endings and a byte order mark, applied to the settings before
  they are frozen. The file is the string of its bytes; the system log is a list of events. The theorems show
  that no file breaks the ranges of the settings, that a line that is rejected leaves no trace, and that what
  is written in any of the accepted layouts is read back.
\<close>

section \<open>Characters and numbers\<close>

definition is_space :: "char \<Rightarrow> bool" where
  "is_space c \<longleftrightarrow> c = CHR '' '' \<or> c \<in> {CHR 0x09, CHR 0x0A, CHR 0x0B, CHR 0x0C, CHR 0x0D}"

definition is_digit :: "char \<Rightarrow> bool" where
  "is_digit c \<longleftrightarrow> c \<in> set ''0123456789''"

definition digit_val :: "char \<Rightarrow> int" where
  "digit_val c = of_char c - 48"

definition CR :: char where "CR = CHR 0x0D"
definition LF :: char where "LF = CHR 0x0A"
definition NUL :: char where "NUL = CHR 0x00"

text \<open>A C string is what precedes the first NUL.\<close>

definition c_str :: "string \<Rightarrow> string" where
  "c_str s = takeWhile (\<lambda>c. c \<noteq> NUL) s"

text \<open>
  \<^verbatim>\<open>strtol(s, &end, 10)\<close>: the value and what follows it, or nothing when there is no number. The value is
  unbounded here; both callers refuse what does not fit 32 bits, whether the library reports an overflow or not.
\<close>

fun num_val :: "int \<Rightarrow> string \<Rightarrow> int" where
  "num_val acc [] = acc"
| "num_val acc (c # cs) = num_val (acc * 10 + digit_val c) cs"

definition strtol_10 :: "string \<Rightarrow> (int \<times> string) option" where
  "strtol_10 s =
     (let s1 = dropWhile is_space s;
          neg = (s1 \<noteq> [] \<and> hd s1 = CHR ''-'');
          s2 = (if s1 \<noteq> [] \<and> (hd s1 = CHR ''-'' \<or> hd s1 = CHR ''+'') then tl s1 else s1);
          ds = takeWhile is_digit s2
      in if ds = [] then None
         else Some ((if neg then - num_val 0 ds else num_val 0 ds), dropWhile is_digit s2))"

definition parse_i32 :: "string \<Rightarrow> int + int" where
  "parse_i32 s =
     (if s = [] then Inl (- EINVAL)
      else case strtol_10 s of
        None \<Rightarrow> Inl (- EINVAL)
      | Some (v, rest) \<Rightarrow>
          if \<not> list_all is_space rest then Inl (- EINVAL)
          else if v < INT32_MIN \<or> v > INT32_MAX then Inl (- EINVAL)
          else Inr v)"

definition parse_u32 :: "string \<Rightarrow> int + int" where
  "parse_u32 s = (case parse_i32 s of Inl e \<Rightarrow> Inl e | Inr v \<Rightarrow> if v < 0 then Inl (- EINVAL) else Inr v)"

section \<open>Keys\<close>

record db_config_start_defaults_s =
  sd_wheel_d_um :: int
  sd_axle_t_um :: int
  sd_tick_us :: int
  sd_use_gyro_plus1 :: int

record cfg_state =
  cf_settings :: db_settings
  cf_defaults :: db_config_start_defaults_s

text \<open>What an entry of the dispatch table calls: which parser, and which setter.\<close>

datatype cfg_target =
    Axis_I32 axis_key int
  | Axis_U32 axis_key int
  | Global_I32 global_key
  | Global_U32 global_key
  | Set_Wheel
  | Set_Axle
  | Set_Tick
  | Set_Gyro

definition with_value :: "(string \<Rightarrow> int + int) \<Rightarrow> (int \<Rightarrow> cfg_state \<Rightarrow> int \<times> cfg_state) \<Rightarrow> string \<Rightarrow> cfg_state \<Rightarrow> int \<times> cfg_state" where
  "with_value parse put value c = (case parse value of Inl e \<Rightarrow> (e, c) | Inr v \<Rightarrow> put v c)"

definition put_settings :: "(int \<Rightarrow> db_settings \<Rightarrow> int \<times> db_settings) \<Rightarrow> int \<Rightarrow> cfg_state \<Rightarrow> int \<times> cfg_state" where
  "put_settings f v c = (case f v (cf_settings c) of (rc, s) \<Rightarrow> (rc, c\<lparr>cf_settings := s\<rparr>))"

definition put_default :: "(db_config_start_defaults_s \<Rightarrow> db_config_start_defaults_s) \<Rightarrow> int \<Rightarrow> cfg_state \<Rightarrow> int \<times> cfg_state" where
  "put_default f v c = (if v = 0 then (- EINVAL, c) else (0, c\<lparr>cf_defaults := f (cf_defaults c)\<rparr>))"

text \<open>The retired mode 2 stands for 3; the notice about it is not part of the recorded log.\<close>

definition set_use_gyro_plus1 :: "int \<Rightarrow> cfg_state \<Rightarrow> int \<times> cfg_state" where
  "set_use_gyro_plus1 v c =
     (if v > 3 then (- EINVAL, c)
      else (0, c\<lparr>cf_defaults := (cf_defaults c)\<lparr>sd_use_gyro_plus1 := (if v = 2 then 3 else v)\<rparr>\<rparr>))"

fun cfg_setter :: "cfg_target \<Rightarrow> string \<Rightarrow> cfg_state \<Rightarrow> int \<times> cfg_state" where
  "cfg_setter (Axis_I32 k axis) = with_value parse_i32 (put_settings (axis_setter k axis))"
| "cfg_setter (Axis_U32 k axis) = with_value parse_u32 (put_settings (axis_setter k axis))"
| "cfg_setter (Global_I32 k) = with_value parse_i32 (put_settings (global_setter k))"
| "cfg_setter (Global_U32 k) = with_value parse_u32 (put_settings (global_setter k))"
| "cfg_setter Set_Wheel = with_value parse_u32 (\<lambda>v. put_default (\<lambda>d. d\<lparr>sd_wheel_d_um := v\<rparr>) v)"
| "cfg_setter Set_Axle = with_value parse_u32 (\<lambda>v. put_default (\<lambda>d. d\<lparr>sd_axle_t_um := v\<rparr>) v)"
| "cfg_setter Set_Tick = with_value parse_u32 (\<lambda>v. put_default (\<lambda>d. d\<lparr>sd_tick_us := v\<rparr>) v)"
| "cfg_setter Set_Gyro = with_value parse_u32 set_use_gyro_plus1"

definition g_config_table :: "(string \<times> cfg_target) list" where
  "g_config_table =
     [(''pid_dist_kp_pos'', Axis_I32 K_pid_kp_pos DB_AXIS_DISTANCE),
      (''pid_dist_ki_pos'', Axis_I32 K_pid_ki_pos DB_AXIS_DISTANCE),
      (''pid_dist_kd_pos'', Axis_I32 K_pid_kd_pos DB_AXIS_DISTANCE),
      (''pid_dist_kp_speed'', Axis_I32 K_pid_kp_speed DB_AXIS_DISTANCE),
      (''pid_dist_ki_speed'', Axis_I32 K_pid_ki_speed DB_AXIS_DISTANCE),
      (''pid_dist_deadband_mdeg'', Axis_I32 K_pid_deadband_mdeg DB_AXIS_DISTANCE),
      (''pid_dist_out_max'', Axis_I32 K_pid_out_max DB_AXIS_DISTANCE),
      (''pid_head_kp_pos'', Axis_I32 K_pid_kp_pos DB_AXIS_HEADING),
      (''pid_head_ki_pos'', Axis_I32 K_pid_ki_pos DB_AXIS_HEADING),
      (''pid_head_kd_pos'', Axis_I32 K_pid_kd_pos DB_AXIS_HEADING),
      (''pid_head_kp_speed'', Axis_I32 K_pid_kp_speed DB_AXIS_HEADING),
      (''pid_head_ki_speed'', Axis_I32 K_pid_ki_speed DB_AXIS_HEADING),
      (''pid_head_deadband_mdeg'', Axis_I32 K_pid_deadband_mdeg DB_AXIS_HEADING),
      (''pid_head_out_max'', Axis_I32 K_pid_out_max DB_AXIS_HEADING),
      (''comp_dist_pos_tol_mdeg'', Axis_I32 K_comp_pos_tol_mdeg DB_AXIS_DISTANCE),
      (''comp_dist_speed_tol_mdegps'', Axis_I32 K_comp_speed_tol_mdegps DB_AXIS_DISTANCE),
      (''comp_dist_smart_continue_mdeg'', Axis_I32 K_comp_smart_continue_mdeg DB_AXIS_DISTANCE),
      (''comp_dist_done_window_ms'', Axis_U32 K_comp_done_window_ms DB_AXIS_DISTANCE),
      (''comp_dist_smart_passive_hold_ms'', Axis_U32 K_comp_smart_passive_hold_ms DB_AXIS_DISTANCE),
      (''comp_head_pos_tol_mdeg'', Axis_I32 K_comp_pos_tol_mdeg DB_AXIS_HEADING),
      (''comp_head_speed_tol_mdegps'', Axis_I32 K_comp_speed_tol_mdegps DB_AXIS_HEADING),
      (''comp_head_smart_continue_mdeg'', Axis_I32 K_comp_smart_continue_mdeg DB_AXIS_HEADING),
      (''comp_head_done_window_ms'', Axis_U32 K_comp_done_window_ms DB_AXIS_HEADING),
      (''comp_head_smart_passive_hold_ms'', Axis_U32 K_comp_smart_passive_hold_ms DB_AXIS_HEADING),
      (''ff_dist_kV'', Axis_I32 K_ff_kV DB_AXIS_DISTANCE),
      (''ff_dist_kA'', Axis_I32 K_ff_kA DB_AXIS_DISTANCE),
      (''ff_head_kV'', Axis_I32 K_ff_kV DB_AXIS_HEADING),
      (''ff_head_kA'', Axis_I32 K_ff_kA DB_AXIS_HEADING),
      (''ff_motor_kS'', Global_I32 K_ff_kS),
      (''ff_v_hyst_enter_mdegps'', Global_I32 K_ff_v_hyst_enter_mdegps),
      (''ff_v_hyst_exit_mdegps'', Global_I32 K_ff_v_hyst_exit_mdegps),
      (''ff_terminal_breakaway'', Global_I32 K_ff_terminal_breakaway),
      (''battery_nominal_mv'', Global_I32 K_battery_nominal_mv),
      (''battery_min_mv'', Global_I32 K_battery_min_mv),
      (''stall_speed_mdegps'', Global_I32 K_stall_speed_mdegps),
      (''stall_duty_min'', Global_I32 K_stall_duty_min),
      (''stall_window_ms'', Global_U32 K_stall_window_ms),
      (''wheel_d_um'', Set_Wheel),
      (''axle_t_um'', Set_Axle),
      (''tick_us'', Set_Tick),
      (''use_gyro_plus1'', Set_Gyro)]"

fun find_entry :: "(string \<times> cfg_target) list \<Rightarrow> string \<Rightarrow> cfg_target option" where
  "find_entry [] key = None"
| "find_entry ((k, t) # es) key = (if k = key then Some t else find_entry es key)"

section \<open>Lines\<close>

definition lstrip :: "string \<Rightarrow> string" where
  "lstrip s = dropWhile is_space s"

definition rstrip :: "string \<Rightarrow> string" where
  "rstrip s = rev (dropWhile is_space (rev s))"

datatype cfg_event =
    Missing_Equals nat
  | Empty_Key nat
  | Unknown_Key nat string
  | Value_Rejected nat string string int
  | Line_Too_Long nat
  | Cannot_Open int
  | Loaded_Keys nat nat
  | No_Key_Applied nat

text \<open>
  One line, a C string: 1 when a key was applied, 0 when there was nothing to do, -1 when the line was
  reported as an error.
\<close>

definition process_line :: "string \<Rightarrow> nat \<Rightarrow> cfg_state \<Rightarrow> int \<times> cfg_event list \<times> cfg_state" where
  "process_line line line_no c =
     (let l1 = (if line_no = 1 \<and> take 3 line = [CHR 0xEF, CHR 0xBB, CHR 0xBF] then drop 3 line else line);
          p = lstrip l1
      in if p = [] \<or> hd p = CHR ''#'' then (0, [], c)
         else if CHR ''='' \<notin> set p then (- 1, [Missing_Equals line_no], c)
         else
           let key = rstrip (takeWhile (\<lambda>x. x \<noteq> CHR ''='') p);
               val = rstrip (lstrip (takeWhile (\<lambda>x. x \<noteq> CHR ''#'') (tl (dropWhile (\<lambda>x. x \<noteq> CHR ''='') p))))
           in if key = [] then (- 1, [Empty_Key line_no], c)
              else case find_entry g_config_table key of
                None \<Rightarrow> (- 1, [Unknown_Key line_no key], c)
              | Some t \<Rightarrow>
                  (case cfg_setter t val c of (rc, c') \<Rightarrow>
                     if rc < 0 then (- 1, [Value_Rejected line_no key val rc], c') else (1, [], c')))"

section \<open>Files\<close>

definition DB_CONFIG_LINE_MAX :: nat where "DB_CONFIG_LINE_MAX = 256"

text \<open>\<^verbatim>\<open>fgets\<close> with room for \<open>n\<close> characters: what is read and what is left.\<close>

fun fgets :: "nat \<Rightarrow> string \<Rightarrow> string \<times> string" where
  "fgets 0 s = ([], s)"
| "fgets (Suc n) [] = ([], [])"
| "fgets (Suc n) (c # cs) = (if c = LF then ([c], cs) else case fgets n cs of (a, b) \<Rightarrow> (c # a, b))"

text \<open>Skipping to the end of the physical line.\<close>

definition skip_line :: "string \<Rightarrow> string" where
  "skip_line s = tl (dropWhile (\<lambda>c. c \<noteq> LF) s)"

definition chomp :: "char \<Rightarrow> string \<Rightarrow> string" where
  "chomp c s = (if s \<noteq> [] \<and> last s = c then butlast s else s)"

record cfg_load =
  cl_line_no :: nat
  cl_applied :: nat
  cl_bad :: nat
  cl_log :: "cfg_event list"
  cl_state :: cfg_state

definition count_line :: "int \<times> cfg_event list \<times> cfg_state \<Rightarrow> cfg_load \<Rightarrow> cfg_load" where
  "count_line r g =
     (case r of (rc, evs, c) \<Rightarrow>
        g\<lparr>cl_applied := (if rc > 0 then cl_applied g + 1 else cl_applied g),
          cl_bad := (if rc < 0 then cl_bad g + 1 else cl_bad g), cl_log := cl_log g @ evs, cl_state := c\<rparr>)"

text \<open>One pass of the loop over the buffer \<^verbatim>\<open>fgets\<close> filled, with the input that is left.\<close>

definition load_buf :: "string \<Rightarrow> string \<Rightarrow> cfg_load \<Rightarrow> cfg_load \<times> string" where
  "load_buf buf rest g0 =
     (let g = g0\<lparr>cl_line_no := cl_line_no g0 + 1\<rparr>; s = c_str buf in
      if length s = DB_CONFIG_LINE_MAX + 1 \<and> last s \<noteq> LF then
        (g\<lparr>cl_bad := cl_bad g + 1, cl_log := cl_log g @ [Line_Too_Long (cl_line_no g)]\<rparr>, skip_line rest)
      else (count_line (process_line (chomp CR (chomp LF s)) (cl_line_no g) (cl_state g)) g, rest))"

lemma fgets_le: "length (snd (fgets n s)) \<le> length s"
  by (induction n s rule: fgets.induct) (auto split: prod.splits)

lemma fgets_shrinks: "fgets (Suc n) (c # cs) = (a, b) \<Longrightarrow> length b \<le> length cs"
  using fgets_le [of n cs] by (auto split: if_splits prod.splits)

lemma skip_shrinks: "length (skip_line s) \<le> length s"
  unfolding skip_line_def using length_dropWhile_le [of "\<lambda>c. c \<noteq> LF" s] by (simp add: le_diff_conv)

lemma load_buf_shrinks: "length (snd (load_buf buf rest g)) \<le> length rest"
  using skip_shrinks by (simp add: load_buf_def Let_def)

lemma load_step_shrinks:
  assumes "s \<noteq> []" "fgets (DB_CONFIG_LINE_MAX + 1) s = (buf, rest)" "load_buf buf rest g = (g', rest')"
  shows "length rest' < length s"
proof -
  obtain c cs where s: "s = c # cs" using assms(1) by (cases s) auto
  have "length rest \<le> length cs" using assms(2) fgets_shrinks [of DB_CONFIG_LINE_MAX c cs buf rest] by (simp add: s)
  moreover have "length rest' \<le> length rest" using load_buf_shrinks [of buf rest g] assms(3) by simp
  ultimately show ?thesis by (simp add: s)
qed

function load_loop :: "string \<Rightarrow> cfg_load \<Rightarrow> cfg_load" where
  "load_loop s g =
     (if s = [] then g
      else case fgets (DB_CONFIG_LINE_MAX + 1) s of (buf, rest) \<Rightarrow>
        case load_buf buf rest g of (g', rest') \<Rightarrow> load_loop rest' g')"
  by pat_completeness auto

termination
  by (relation "measure (\<lambda>(s, g). length s)") (auto dest!: load_step_shrinks [OF _ sym sym])

declare load_loop.simps [simp del]

definition start_defaults :: db_config_start_defaults_s where
  "start_defaults = \<lparr>sd_wheel_d_um = 0, sd_axle_t_um = 0, sd_tick_us = 0, sd_use_gyro_plus1 = 3\<rparr>"

text \<open>The file as the environment has it: the error of the open, or its content.\<close>

definition db_config_load :: "int + string \<Rightarrow> cfg_state \<Rightarrow> int \<times> cfg_event list \<times> cfg_state" where
  "db_config_load fopen c0 =
     (let c = c0\<lparr>cf_defaults := start_defaults\<rparr> in
      case fopen of
        Inl e \<Rightarrow> (0, (if e = ENOENT then [] else [Cannot_Open e]), c)
      | Inr content \<Rightarrow>
          let g = load_loop content \<lparr>cl_line_no = 0, cl_applied = 0, cl_bad = 0, cl_log = [], cl_state = c\<rparr> in
          (0, cl_log g @ (if cl_applied g > 0 then [Loaded_Keys (cl_applied g) (cl_bad g)]
                          else if cl_bad g > 0 then [No_Key_Applied (cl_bad g)] else []), cl_state g))"

definition db_config_get_start_defaults :: "cfg_state \<Rightarrow> db_config_start_defaults_s" where
  "db_config_get_start_defaults c = cf_defaults c"

section \<open>A rejected line leaves no trace\<close>

definition defaults_ok :: "db_config_start_defaults_s \<Rightarrow> bool" where
  "defaults_ok d \<longleftrightarrow> 0 \<le> sd_wheel_d_um d \<and> sd_wheel_d_um d \<le> INT32_MAX \<and> 0 \<le> sd_axle_t_um d \<and> sd_axle_t_um d \<le> INT32_MAX \<and>
     0 \<le> sd_tick_us d \<and> sd_tick_us d \<le> INT32_MAX \<and> sd_use_gyro_plus1 d \<in> {0, 1, 3}"

definition cfg_ok :: "cfg_state \<Rightarrow> bool" where
  "cfg_ok c \<longleftrightarrow> settings_ok (cf_settings c) \<and> defaults_ok (cf_defaults c)"

text \<open>What every setter of the table does to the state: nothing when it fails, something sound when it works.\<close>

definition sound_cfg :: "cfg_state \<Rightarrow> int \<times> cfg_state \<Rightarrow> bool" where
  "sound_cfg c r \<longleftrightarrow>
     (fst r < 0 \<longrightarrow> snd r = c) \<and> fst r \<le> 0 \<and> (cfg_ok c \<longrightarrow> cfg_ok (snd r)) \<and>
     (g_settings_frozen (cf_settings c) \<longrightarrow> cf_settings (snd r) = cf_settings c)"

lemma parse_i32_range: "parse_i32 s = Inr v \<Longrightarrow> INT32_MIN \<le> v \<and> v \<le> INT32_MAX"
  by (auto simp: parse_i32_def split: if_splits option.splits)

lemma parse_u32_range: "parse_u32 s = Inr v \<Longrightarrow> 0 \<le> v \<and> v \<le> INT32_MAX"
  using parse_i32_range [of s] by (auto simp: parse_u32_def split: sum.splits if_splits)

lemma parse_error: "parse_i32 s = Inl e \<Longrightarrow> e < 0" "parse_u32 s = Inl e \<Longrightarrow> e < 0"
  by (auto simp: parse_u32_def parse_i32_def EINVAL_def split: sum.splits if_splits option.splits)

lemma sound_same: "e < 0 \<Longrightarrow> sound_cfg c (e, c)"
  by (simp add: sound_cfg_def)

lemma sound_settings:
  assumes "sound_write (cf_settings c) (f v (cf_settings c))"
  shows "sound_cfg c (put_settings f v c)"
  using assms sound_writeD(2-5) [OF assms]
  by (auto simp: sound_cfg_def put_settings_def sound_write_def cfg_ok_def settings_ok_def split: prod.splits)

lemma sound_with_value:
  assumes "\<And>v. parse value = Inr v \<Longrightarrow> sound_cfg c (put v c)" "\<And>e. parse value = Inl e \<Longrightarrow> e < 0"
  shows "sound_cfg c (with_value parse put value c)"
  using assms by (auto simp: with_value_def intro: sound_same split: sum.splits)

lemma sound_default:
  assumes "\<And>d. defaults_ok d \<Longrightarrow> defaults_ok (f d)"
  shows "sound_cfg c (put_default f v c)"
  using assms by (simp add: put_default_def sound_cfg_def cfg_ok_def EINVAL_def)

lemma cfg_setter_sound: "sound_cfg c (cfg_setter t val c)"
proof (cases t)
  case (Axis_I32 k axis)
  then show ?thesis by (simp add: sound_with_value sound_settings axis_setter_sound parse_error)
next
  case (Axis_U32 k axis)
  then show ?thesis by (simp add: sound_with_value sound_settings axis_setter_sound parse_error)
next
  case (Global_I32 k)
  then show ?thesis by (simp add: sound_with_value sound_settings global_setter_sound parse_error)
next
  case (Global_U32 k)
  then show ?thesis by (simp add: sound_with_value sound_settings global_setter_sound parse_error)
next
  case Set_Gyro
  have "sound_cfg c (set_use_gyro_plus1 v c)" if "parse_u32 val = Inr v" for v
  proof -
    have "v \<in> {0, 1, 2, 3}" if "v \<le> 3" using parse_u32_range [OF \<open>parse_u32 val = Inr v\<close>] that by auto
    then show ?thesis
      by (auto simp: sound_cfg_def set_use_gyro_plus1_def cfg_ok_def defaults_ok_def EINVAL_def)
  qed
  then show ?thesis using Set_Gyro by (simp add: sound_with_value parse_error)
next
  case Set_Wheel
  then show ?thesis
    by (simp, intro sound_with_value sound_default) (auto dest: parse_u32_range simp: defaults_ok_def parse_error)
next
  case Set_Axle
  then show ?thesis
    by (simp, intro sound_with_value sound_default) (auto dest: parse_u32_range simp: defaults_ok_def parse_error)
next
  case Set_Tick
  then show ?thesis
    by (simp, intro sound_with_value sound_default) (auto dest: parse_u32_range simp: defaults_ok_def parse_error)
qed

lemma cfg_setter_soundD:
  "cfg_setter t val c = (rc, c') \<Longrightarrow> (rc < 0 \<longrightarrow> c' = c) \<and> (cfg_ok c \<longrightarrow> cfg_ok c') \<and>
   (g_settings_frozen (cf_settings c) \<longrightarrow> cf_settings c' = cf_settings c)"
  using cfg_setter_sound [of c t val] by (simp add: sound_cfg_def)

lemma process_line_sound:
  "process_line line n c = (rc, evs, c') \<Longrightarrow>
   (rc \<le> 0 \<longrightarrow> c' = c) \<and> (cfg_ok c \<longrightarrow> cfg_ok c') \<and>
   (g_settings_frozen (cf_settings c) \<longrightarrow> cf_settings c' = cf_settings c)"
  unfolding process_line_def Let_def
  by (auto dest!: cfg_setter_soundD split: if_splits option.splits prod.splits)

lemma load_buf_sound:
  assumes "load_buf buf rest g = (g', rest')"
  shows "(cfg_ok (cl_state g) \<longrightarrow> cfg_ok (cl_state g')) \<and>
    (g_settings_frozen (cf_settings (cl_state g)) \<longrightarrow> cf_settings (cl_state g') = cf_settings (cl_state g))"
proof -
  obtain rc evs c' where p: "process_line (chomp CR (chomp LF (c_str buf))) (cl_line_no g + 1) (cl_state g) = (rc, evs, c')"
    by (metis prod.collapse)
  show ?thesis using assms process_line_sound [OF p] p by (auto simp: load_buf_def count_line_def Let_def split: if_splits)
qed

lemma load_loop_sound:
  "(cfg_ok (cl_state g) \<longrightarrow> cfg_ok (cl_state (load_loop s g))) \<and>
   (g_settings_frozen (cf_settings (cl_state g)) \<longrightarrow> cf_settings (cl_state (load_loop s g)) = cf_settings (cl_state g))"
proof (induction s g rule: load_loop.induct)
  case (1 s g)
  show ?case
  proof (cases "s = []")
    case False
    obtain buf rest where f: "fgets (DB_CONFIG_LINE_MAX + 1) s = (buf, rest)" by fastforce
    obtain g' rest' where b: "load_buf buf rest g = (g', rest')" by fastforce
    show ?thesis
      using 1 [OF False f [symmetric] b [symmetric]] load_buf_sound [OF b] False f b
      by (simp add: load_loop.simps [of s g])
  qed (simp add: load_loop.simps)
qed

text \<open>
  Fact. No configuration file can break the drive base. Whatever bytes the file holds, or whatever error its
  open returns, the load reports success, leaves every tunable in its range and every start value either
  unset or positive, and the gyro mode one the daemon knows; after the settings are frozen a load changes
  none of them.
\<close>

theorem config_load_safe:
  assumes "settings_ok (cf_settings c)"
  shows "case db_config_load f c of (rc, log, c') \<Rightarrow>
    rc = 0 \<and> settings_ok (cf_settings c') \<and> defaults_ok (cf_defaults c') \<and>
    (g_settings_frozen (cf_settings c) \<longrightarrow> cf_settings c' = cf_settings c)"
proof -
  let ?c = "c\<lparr>cf_defaults := start_defaults\<rparr>"
  have "cfg_ok ?c" using assms by (simp add: cfg_ok_def defaults_ok_def start_defaults_def INT32_MAX_def)
  then show ?thesis
    using load_loop_sound [of "\<lparr>cl_line_no = 0, cl_applied = 0, cl_bad = 0, cl_log = [], cl_state = ?c\<rparr>"]
    by (cases f) (simp_all add: db_config_load_def cfg_ok_def Let_def)
qed

theorem config_load_safe_witness:
  "case db_config_load (Inr (''wheel_d_um = 0'' @ [LF] @ ''pid_dist_kp_pos = 99999999'')) 
      \<lparr>cf_settings = init_settings, cf_defaults = start_defaults\<rparr> of (rc, log, c') \<Rightarrow> rc = 0 \<and> settings_ok (cf_settings c')"
  using config_load_safe [of "\<lparr>cf_settings = init_settings, cf_defaults = start_defaults\<rparr>"
      "Inr (''wheel_d_um = 0'' @ [LF] @ ''pid_dist_kp_pos = 99999999'')"] reach_ok [of "[]"]
  by (simp add: settings_run_def split: prod.splits)

section \<open>Lines of a file\<close>

text \<open>
  What one physical line does, with its number: a line that is too long is skipped, any other one is handed
  over without its line ending. A plain line holds no line feed and no NUL.
\<close>

definition plain :: "string \<Rightarrow> bool" where
  "plain l \<longleftrightarrow> LF \<notin> set l \<and> NUL \<notin> set l"

definition line_effect :: "string \<Rightarrow> cfg_load \<Rightarrow> cfg_load" where
  "line_effect l g0 =
     (let g = g0\<lparr>cl_line_no := cl_line_no g0 + 1\<rparr> in
      if length l > DB_CONFIG_LINE_MAX then
        g\<lparr>cl_bad := cl_bad g + 1, cl_log := cl_log g @ [Line_Too_Long (cl_line_no g)]\<rparr>
      else count_line (process_line (chomp CR l) (cl_line_no g) (cl_state g)) g)"

definition file_of :: "string list \<Rightarrow> string" where
  "file_of ls = concat (map (\<lambda>l. l @ [LF]) ls)"

lemma c_str_plain: "NUL \<notin> set s \<Longrightarrow> c_str s = s"
  by (auto simp: c_str_def takeWhile_eq_all_conv)

lemma fgets_short: "LF \<notin> set l \<Longrightarrow> length l < n \<Longrightarrow> fgets n (l @ LF # rest) = (l @ [LF], rest)"
proof (induction l arbitrary: n)
  case Nil
  then show ?case by (cases n) simp_all
next
  case (Cons c l)
  then show ?case by (cases n) auto
qed

lemma fgets_long: "LF \<notin> set l \<Longrightarrow> n \<le> length l \<Longrightarrow> fgets n (l @ rest) = (take n l, drop n l @ rest)"
proof (induction l arbitrary: n)
  case Nil
  then show ?case by simp
next
  case (Cons c l)
  then show ?case by (cases n) auto
qed

lemma skip_line_at: "LF \<notin> set l \<Longrightarrow> skip_line (l @ LF # rest) = rest"
proof -
  assume "LF \<notin> set l"
  then have "dropWhile (\<lambda>c. c \<noteq> LF) (l @ LF # rest) = LF # rest" by (subst dropWhile_append2) auto
  then show ?thesis by (simp add: skip_line_def)
qed

lemma LF_NUL: "LF \<noteq> NUL" "CR \<noteq> LF" "CR \<noteq> NUL"
  by (simp_all add: LF_def NUL_def CR_def)

lemma load_line:
  assumes "plain l"
  shows "load_loop (l @ LF # rest) g = load_loop rest (line_effect l g)"
proof (cases "length l > DB_CONFIG_LINE_MAX")
  case False
  then have f: "fgets (DB_CONFIG_LINE_MAX + 1) (l @ LF # rest) = (l @ [LF], rest)"
    using assms by (intro fgets_short) (simp_all add: plain_def)
  have "c_str (l @ [LF]) = l @ [LF]" using assms LF_NUL by (intro c_str_plain) (auto simp: plain_def)
  then have "load_buf (l @ [LF]) rest g = (line_effect l g, rest)"
    using False by (simp add: load_buf_def line_effect_def chomp_def Let_def)
  then show ?thesis using f by (simp add: load_loop.simps [of "l @ LF # rest"])
next
  case True
  let ?b = "take (DB_CONFIG_LINE_MAX + 1) l"
  have f: "fgets (DB_CONFIG_LINE_MAX + 1) (l @ LF # rest) = (?b, drop (DB_CONFIG_LINE_MAX + 1) l @ LF # rest)"
    using assms True by (intro fgets_long) (simp_all add: plain_def)
  have b: "c_str ?b = ?b" using assms by (intro c_str_plain) (auto simp: plain_def dest: in_set_takeD)
  have "?b \<noteq> []" using True by auto
  then have "last ?b \<in> set l" by (rule in_set_takeD [OF last_in_set])
  then have n: "length ?b = DB_CONFIG_LINE_MAX + 1" "last ?b \<noteq> LF"
    using True assms by (auto simp: plain_def)
  have "skip_line (drop (DB_CONFIG_LINE_MAX + 1) l @ LF # rest) = rest"
    using assms by (intro skip_line_at) (auto simp: plain_def dest: in_set_dropD)
  then have "load_buf ?b (drop (DB_CONFIG_LINE_MAX + 1) l @ LF # rest) g = (line_effect l g, rest)"
    using True b n by (simp add: load_buf_def line_effect_def Let_def)
  then show ?thesis using f by (simp add: load_loop.simps [of "l @ LF # rest"])
qed

lemma load_lines: "list_all plain ls \<Longrightarrow> load_loop (file_of ls) g = fold line_effect ls g"
proof (induction ls arbitrary: g)
  case Nil
  then show ?case by (simp add: file_of_def load_loop.simps)
next
  case (Cons l ls)
  then show ?case using load_line [of l "file_of ls" g] by (simp add: file_of_def)
qed

text \<open>A line that applies no key leaves the state as it found it; a line past the first is read without its number.\<close>

lemma line_effect_state:
  "cl_state (line_effect l g) =
     (if length l > DB_CONFIG_LINE_MAX then cl_state g
      else snd (snd (process_line (chomp CR l) (cl_line_no g + 1) (cl_state g))))"
  by (simp add: line_effect_def count_line_def Let_def split: prod.splits)

lemma line_effect_no: "cl_line_no (line_effect l g) = cl_line_no g + 1"
  by (simp add: line_effect_def count_line_def Let_def split: prod.splits)

section \<open>What is written is read back\<close>

text \<open>Decimal notation.\<close>

definition digit :: "nat \<Rightarrow> char" where
  "digit d = ''0123456789'' ! d"

fun show_nat :: "nat \<Rightarrow> string" where
  "show_nat n = (if n < 10 then [digit n] else show_nat (n div 10) @ [digit (n mod 10)])"

declare show_nat.simps [simp del]

definition show_int :: "int \<Rightarrow> string" where
  "show_int v = (if v < 0 then CHR ''-'' # show_nat (nat (- v)) else show_nat (nat v))"

lemma digit_facts:
  assumes "d < 10"
  shows "is_digit (digit d)" "digit_val (digit d) = int d"
proof -
  have "d = 0 \<or> d = 1 \<or> d = 2 \<or> d = 3 \<or> d = 4 \<or> d = 5 \<or> d = 6 \<or> d = 7 \<or> d = 8 \<or> d = 9" using assms by auto
  then show "is_digit (digit d)" "digit_val (digit d) = int d"
    by (auto simp: is_digit_def digit_def digit_val_def)
qed

lemma is_digit_not:
  "is_digit c \<Longrightarrow> \<not> is_space c \<and> c \<noteq> CHR ''-'' \<and> c \<noteq> CHR ''+'' \<and> c \<noteq> CHR ''#''"
  by (auto simp: is_digit_def is_space_def)

lemma num_val_append: "num_val acc (xs @ [c]) = num_val acc xs * 10 + digit_val c"
  by (induction acc xs rule: num_val.induct) simp_all

lemma show_nat_facts: "list_all is_digit (show_nat n) \<and> show_nat n \<noteq> [] \<and> num_val 0 (show_nat n) = int n"
proof (induction n rule: show_nat.induct)
  case (1 n)
  show ?case
  proof (cases "n < 10")
    case True
    then show ?thesis by (simp add: show_nat.simps [of n] digit_facts)
  next
    case False
    then show ?thesis
      using 1 digit_facts [of "n mod 10"] by (simp add: show_nat.simps [of n] num_val_append) presburger
  qed
qed

lemma show_nat_all [simp]: "takeWhile is_digit (show_nat n) = show_nat n" "dropWhile is_digit (show_nat n) = []"
  using show_nat_facts [of n] by (auto simp: list_all_iff takeWhile_eq_all_conv)

lemma hd_show_nat: "is_digit (hd (show_nat n))" "show_nat n \<noteq> []"
  using show_nat_facts [of n] by (auto simp: list_all_iff)

lemma strtol_show: "strtol_10 (show_int v) = Some (v, [])"
proof (cases "v < 0")
  case True
  then show ?thesis
    using show_nat_facts [of "nat (- v)"]
    by (simp add: strtol_10_def show_int_def is_space_def Let_def)
next
  case False
  obtain c cs where c: "show_nat (nat v) = c # cs" using hd_show_nat(2) by (cases "show_nat (nat v)") auto
  then have "is_digit c" using hd_show_nat(1) [of "nat v"] by simp
  then have "\<not> is_space c" "c \<noteq> CHR ''-''" "c \<noteq> CHR ''+''" using is_digit_not by auto
  with c have "dropWhile is_space (show_nat (nat v)) = show_nat (nat v)" "hd (show_nat (nat v)) \<noteq> CHR ''-''"
    "hd (show_nat (nat v)) \<noteq> CHR ''+''" by simp_all
  then show ?thesis using False show_nat_facts [of "nat v"] by (simp add: strtol_10_def show_int_def Let_def)
qed

lemma show_int_not_empty: "show_int v \<noteq> []"
  using hd_show_nat(2) by (simp add: show_int_def)

lemma parse_show:
  "INT32_MIN \<le> v \<Longrightarrow> v \<le> INT32_MAX \<Longrightarrow> parse_i32 (show_int v) = Inr v"
  by (simp add: parse_i32_def strtol_show show_int_not_empty)


text \<open>What an entry does with a value it was given.\<close>

fun put_key :: "cfg_target \<Rightarrow> int \<Rightarrow> cfg_state \<Rightarrow> int \<times> cfg_state" where
  "put_key (Axis_I32 k axis) v c = put_settings (axis_setter k axis) v c"
| "put_key (Axis_U32 k axis) v c = (if v < 0 then (- EINVAL, c) else put_settings (axis_setter k axis) v c)"
| "put_key (Global_I32 k) v c = put_settings (global_setter k) v c"
| "put_key (Global_U32 k) v c = (if v < 0 then (- EINVAL, c) else put_settings (global_setter k) v c)"
| "put_key Set_Wheel v c = (if v < 0 then (- EINVAL, c) else put_default (\<lambda>d. d\<lparr>sd_wheel_d_um := v\<rparr>) v c)"
| "put_key Set_Axle v c = (if v < 0 then (- EINVAL, c) else put_default (\<lambda>d. d\<lparr>sd_axle_t_um := v\<rparr>) v c)"
| "put_key Set_Tick v c = (if v < 0 then (- EINVAL, c) else put_default (\<lambda>d. d\<lparr>sd_tick_us := v\<rparr>) v c)"
| "put_key Set_Gyro v c = (if v < 0 then (- EINVAL, c) else set_use_gyro_plus1 v c)"

lemma cfg_setter_show:
  assumes "INT32_MIN \<le> v" "v \<le> INT32_MAX"
  shows "cfg_setter t (show_int v) c = put_key t v c"
  by (cases t) (simp_all add: with_value_def parse_u32_def parse_show [OF assms])

lemma lstrip_append:
  assumes "list_all is_space w" "x \<noteq> []" "\<not> is_space (hd x)"
  shows "lstrip (w @ x) = x"
proof -
  have "lstrip (w @ x) = dropWhile is_space x"
    using assms(1) unfolding lstrip_def by (intro dropWhile_append2) (simp add: list_all_iff)
  then show ?thesis using assms(2,3) by (cases x) simp_all
qed

lemma rstrip_append:
  assumes "list_all is_space w" "x \<noteq> []" "\<not> is_space (last x)"
  shows "rstrip (x @ w) = x"
  using lstrip_append [of "rev w" "rev x"] assms by (simp add: rstrip_def lstrip_def hd_rev)

text \<open>A line that assigns a value, in any layout: white space around both parts, and a comment after them.\<close>

record cfg_layout =
  ly_before :: string
  ly_after :: string
  ly_gap :: string
  ly_end :: string
  ly_comment :: string

definition line_of :: "cfg_layout \<Rightarrow> string \<Rightarrow> int \<Rightarrow> string" where
  "line_of ly k v = ly_before ly @ k @ ly_after ly @ ''='' @ ly_gap ly @ show_int v @ ly_end ly @ ly_comment ly"

definition comment_ok :: "string \<Rightarrow> bool" where
  "comment_ok cm \<longleftrightarrow> (cm \<noteq> [] \<longrightarrow> hd cm = CHR ''#'') \<and> plain cm"

definition layout_ok :: "cfg_layout \<Rightarrow> bool" where
  "layout_ok ly \<longleftrightarrow> list_all is_space (ly_before ly @ ly_after ly @ ly_gap ly @ ly_end ly) \<and>
     LF \<notin> set (ly_before ly @ ly_after ly @ ly_gap ly @ ly_end ly) \<and> comment_ok (ly_comment ly)"

definition key_ok :: "string \<Rightarrow> bool" where
  "key_ok k \<longleftrightarrow> k \<noteq> [] \<and> list_all (\<lambda>c. \<not> is_space c \<and> c \<notin> {CHR ''='', CHR ''#'', CHR 0xEF, LF, NUL}) k"

lemma table_keys_ok: "list_all key_ok (map fst g_config_table)"
  by (simp add: g_config_table_def key_ok_def is_space_def LF_def NUL_def)

lemma is_space_facts: "is_space c \<Longrightarrow> c \<noteq> CHR ''='' \<and> c \<noteq> CHR ''#'' \<and> c \<noteq> NUL \<and> c \<noteq> CHR 0xEF"
  by (auto simp: is_space_def NUL_def)

lemma digit_char: "is_digit c \<Longrightarrow> c \<noteq> CHR ''#'' \<and> c \<noteq> CR \<and> c \<noteq> LF \<and> c \<noteq> NUL \<and> \<not> is_space c"
  by (auto simp: is_digit_def is_space_def CR_def LF_def NUL_def)

lemma show_int_chars: "c \<in> set (show_int v) \<Longrightarrow> c = CHR ''-'' \<or> is_digit c"
  using show_nat_facts [of "nat v"] show_nat_facts [of "nat (- v)"]
  by (auto simp: show_int_def list_all_iff split: if_splits)

lemma show_int_char: "c \<in> set (show_int v) \<Longrightarrow> c \<noteq> CHR ''#'' \<and> c \<noteq> CR \<and> c \<noteq> LF \<and> c \<noteq> NUL \<and> \<not> is_space c"
  using show_int_chars [of c v] digit_char [of c] by (auto simp: is_space_def CR_def LF_def NUL_def)

lemma space_no: "list_all is_space w \<Longrightarrow> CHR ''='' \<notin> set w \<and> CHR ''#'' \<notin> set w \<and> NUL \<notin> set w \<and> CHR 0xEF \<notin> set w"
  by (induction w) (use is_space_facts in fastforce)+

lemma show_int_no: "CHR ''#'' \<notin> set (show_int v) \<and> CR \<notin> set (show_int v) \<and> LF \<notin> set (show_int v) \<and> NUL \<notin> set (show_int v)"
  using show_int_char [of _ v] by blast

lemma split_first:
  "x \<notin> set a \<Longrightarrow> takeWhile (\<lambda>c. c \<noteq> x) (a @ x # b) = a \<and> dropWhile (\<lambda>c. c \<noteq> x) (a @ x # b) = x # b"
  by (induction a) auto

lemma before_comment:
  assumes "comment_ok cm" "CHR ''#'' \<notin> set x"
  shows "takeWhile (\<lambda>c. c \<noteq> CHR ''#'') (x @ cm) = x"
proof -
  have "takeWhile (\<lambda>c. c \<noteq> CHR ''#'') (x @ cm) = x @ takeWhile (\<lambda>c. c \<noteq> CHR ''#'') cm"
    using assms(2) by (intro takeWhile_append2) auto
  moreover have "takeWhile (\<lambda>c. c \<noteq> CHR ''#'') cm = []" using assms(1) by (cases cm) (simp_all add: comment_ok_def)
  ultimately show ?thesis by simp
qed

lemma process_entry:
  assumes "layout_ok ly" "find_entry g_config_table k = Some t" "key_ok k" "INT32_MIN \<le> v" "v \<le> INT32_MAX"
  shows "snd (snd (process_line (line_of ly k v) n c)) = snd (put_key t v c)"
proof -
  let ?r = "ly_gap ly @ show_int v @ ly_end ly @ ly_comment ly"
  let ?p = "k @ ly_after ly @ CHR ''='' # ?r"
  have ly: "list_all is_space (ly_before ly)" "list_all is_space (ly_after ly)" "list_all is_space (ly_gap ly)"
    "list_all is_space (ly_end ly)" "comment_ok (ly_comment ly)"
    using assms(1) by (simp_all add: layout_ok_def)
  have k: "k \<noteq> []" "\<not> is_space (hd k)" "\<not> is_space (last k)" "hd k \<noteq> CHR ''#''" "CHR ''='' \<notin> set k" "hd k \<noteq> CHR 0xEF"
    using assms(3) hd_in_set [of k] last_in_set [of k] by (auto simp: key_ok_def list_all_iff)
  have line: "line_of ly k v = ly_before ly @ ?p" by (simp add: line_of_def)
  have p: "lstrip (line_of ly k v) = ?p" "?p \<noteq> []" "hd ?p \<noteq> CHR ''#''"
    unfolding line using k lstrip_append [OF ly(1), of ?p] by simp_all
  have "hd (line_of ly k v) \<noteq> CHR 0xEF"
    unfolding line using ly(1) k(1,6) is_space_facts by (cases "ly_before ly") auto
  then have bom: "take 3 (line_of ly k v) \<noteq> [CHR 0xEF, CHR 0xBB, CHR 0xBF]"
    by (cases "line_of ly k v") auto
  have sp: "CHR ''='' \<notin> set (ly_after ly)" "CHR ''#'' \<notin> set (ly_gap ly @ show_int v @ ly_end ly)"
    using space_no [OF ly(2)] space_no [OF ly(3)] space_no [OF ly(4)] show_int_no [of v] by simp_all
  have key: "takeWhile (\<lambda>x. x \<noteq> CHR ''='') ?p = k @ ly_after ly" "dropWhile (\<lambda>x. x \<noteq> CHR ''='') ?p = CHR ''='' # ?r"
    using k(5) sp(1) split_first [of "CHR ''=''" "k @ ly_after ly" ?r] by simp_all
  have "takeWhile (\<lambda>x. x \<noteq> CHR ''#'') ?r = ly_gap ly @ show_int v @ ly_end ly"
    using before_comment [OF ly(5) sp(2)] by simp
  moreover have "lstrip (ly_gap ly @ show_int v @ ly_end ly) = show_int v @ ly_end ly"
    using show_int_not_empty show_int_char [of "hd (show_int v)" v] by (intro lstrip_append [OF ly(3)]) auto
  moreover have "rstrip (show_int v @ ly_end ly) = show_int v"
    using show_int_not_empty show_int_char [of "last (show_int v)" v] by (intro rstrip_append [OF ly(4)]) auto
  ultimately have val: "rstrip (lstrip (takeWhile (\<lambda>x. x \<noteq> CHR ''#'') ?r)) = show_int v" by simp
  have rk: "rstrip (k @ ly_after ly) = k" using rstrip_append [OF ly(2) k(1,3)] .
  obtain rc c' where s: "put_key t v c = (rc, c')" by (cases "put_key t v c")
  have eq: "CHR ''='' \<in> set ?p" by simp
  show ?thesis
    using p(2,3) k(1) eq
    by (simp add: process_line_def Let_def bom p(1) key rk val assms(2) cfg_setter_show [OF assms(4,5)] s del: set_append)
qed

section \<open>A whole file\<close>

text \<open>A line of a file is an entry, or a remark: white space, perhaps with a comment.\<close>

datatype cfg_line = Entry cfg_layout string int | Remark string string

fun text_of :: "cfg_line \<Rightarrow> string" where
  "text_of (Entry ly k v) = line_of ly k v"
| "text_of (Remark w cm) = w @ cm"

fun line_ok :: "cfg_line \<Rightarrow> bool" where
  "line_ok (Entry ly k v) \<longleftrightarrow> layout_ok ly \<and> k \<in> set (map fst g_config_table) \<and> INT32_MIN \<le> v \<and> v \<le> INT32_MAX \<and>
     length (line_of ly k v) \<le> DB_CONFIG_LINE_MAX"
| "line_ok (Remark w cm) \<longleftrightarrow> list_all is_space w \<and> LF \<notin> set w \<and> comment_ok cm \<and> length (w @ cm) \<le> DB_CONFIG_LINE_MAX"

fun line_put :: "cfg_line \<Rightarrow> cfg_state \<Rightarrow> cfg_state" where
  "line_put (Entry ly k v) c = (case find_entry g_config_table k of None \<Rightarrow> c | Some t \<Rightarrow> snd (put_key t v c))"
| "line_put (Remark w cm) c = c"

lemma chomp_append: "y \<noteq> [] \<Longrightarrow> chomp a (x @ y) = x @ chomp a y"
  by (simp add: chomp_def butlast_append)

lemma chomp_tail:
  assumes "list_all is_space w" "comment_ok cm"
  obtains w' cm' where "chomp CR (w @ cm) = w' @ cm'" "list_all is_space w'" "comment_ok cm'" "set w' \<subseteq> set w"
proof (cases "cm = []")
  case True
  have "set (butlast w) \<subseteq> set w" by (auto dest: in_set_butlastD)
  moreover have "list_all is_space (butlast w)" using assms(1) by (auto simp: list_all_iff dest: in_set_butlastD)
  ultimately show ?thesis using that [of "chomp CR w" "[]"] assms True by (simp add: chomp_def comment_ok_def plain_def)
next
  case False
  then obtain cs where cm: "cm = CHR ''#'' # cs" using assms(2) by (cases cm) (simp_all add: comment_ok_def)
  have "comment_ok (chomp CR cm)"
    using assms(2) unfolding cm by (auto simp: chomp_def comment_ok_def plain_def CR_def dest: in_set_butlastD)
  then show ?thesis using that [of w "chomp CR cm"] assms(1) chomp_append [OF False, of CR w] by simp
qed

lemma chomp_entry:
  assumes "layout_ok ly"
  obtains ly' where "chomp CR (line_of ly k v) = line_of ly' k v" "layout_ok ly'"
proof (cases "ly_end ly @ ly_comment ly = []")
  case True
  have "last (line_of ly k v) = last (show_int v)" using True show_int_not_empty by (simp add: line_of_def)
  moreover have "last (show_int v) \<noteq> CR" using show_int_char [of "last (show_int v)" v] show_int_not_empty by simp
  ultimately show ?thesis using that [of ly] assms by (simp add: chomp_def)
next
  case False
  obtain e cm where e: "chomp CR (ly_end ly @ ly_comment ly) = e @ cm" "list_all is_space e" "comment_ok cm" "set e \<subseteq> set (ly_end ly)"
    using chomp_tail [of "ly_end ly" "ly_comment ly"] assms by (auto simp: layout_ok_def)
  let ?x = "ly_before ly @ k @ ly_after ly @ ''='' @ ly_gap ly @ show_int v"
  have "line_of ly k v = ?x @ ly_end ly @ ly_comment ly" by (simp add: line_of_def)
  then have "chomp CR (line_of ly k v) = ?x @ e @ cm" using chomp_append [OF False, of CR ?x] e(1) by metis
  then have "chomp CR (line_of ly k v) = line_of (ly\<lparr>ly_end := e, ly_comment := cm\<rparr>) k v" by (simp add: line_of_def)
  moreover have "layout_ok (ly\<lparr>ly_end := e, ly_comment := cm\<rparr>)" using assms e(2-4) by (auto simp: layout_ok_def)
  ultimately show ?thesis using that by blast
qed

lemma process_remark:
  assumes "list_all is_space w" "comment_ok cm"
  shows "process_line (w @ cm) n c = (0, [], c)"
proof -
  define l where "l = w @ cm"
  have "hd (w @ cm) \<noteq> CHR 0xEF \<or> w @ cm = []"
    using assms is_space_facts by (cases w; cases cm) (auto simp: comment_ok_def)
  then have bom: "take 3 l \<noteq> [CHR 0xEF, CHR 0xBB, CHR 0xBF]" unfolding l_def by (cases "w @ cm") auto
  have "lstrip l = cm"
  proof (cases cm)
    case Nil
    then show ?thesis using assms(1) by (simp add: l_def lstrip_def list_all_iff)
  next
    case (Cons a cs)
    then show ?thesis using assms lstrip_append [of w cm] is_space_facts by (auto simp: l_def comment_ok_def)
  qed
  then show ?thesis using assms(2) unfolding l_def [symmetric] by (auto simp: process_line_def Let_def bom comment_ok_def)
qed

lemma line_plain: "line_ok l \<Longrightarrow> plain (text_of l)"
proof (cases l)
  case (Entry ly k v)
  assume a: "line_ok l"
  have "key_ok k" using table_keys_ok a Entry by (auto simp: list_all_iff)
  then have "LF \<notin> set k" "NUL \<notin> set k" by (auto simp: key_ok_def list_all_iff)
  then show ?thesis
    using a Entry show_int_no [of v] space_no [of "ly_before ly"] space_no [of "ly_after ly"] space_no [of "ly_gap ly"]
      space_no [of "ly_end ly"]
    by (auto simp: line_of_def plain_def layout_ok_def comment_ok_def LF_def NUL_def)
next
  case (Remark w cm)
  assume "line_ok l"
  then show ?thesis using Remark space_no [of w] by (simp add: plain_def comment_ok_def)
qed

lemma find_entry_key: "k \<in> set (map fst es) \<Longrightarrow> \<exists>t. find_entry es k = Some t"
  by (induction es k rule: find_entry.induct) auto

lemma line_effect_put:
  assumes "line_ok l"
  shows "cl_state (line_effect (text_of l) g) = line_put l (cl_state g)"
proof (cases l)
  case (Entry ly k v)
  have kt: "k \<in> set (map fst g_config_table)" using assms Entry by simp
  obtain t where t: "find_entry g_config_table k = Some t" using find_entry_key [OF kt] by blast
  have k: "key_ok k" using table_keys_ok kt by (simp only: list_all_iff)
  obtain ly' where ly: "chomp CR (line_of ly k v) = line_of ly' k v" "layout_ok ly'"
    using chomp_entry [of ly k v] assms Entry by auto
  have v: "INT32_MIN \<le> v" "v \<le> INT32_MAX" "length (line_of ly k v) \<le> DB_CONFIG_LINE_MAX" using assms Entry by simp_all
  show ?thesis
    using process_entry [OF ly(2) t k v(1,2)] v(3) by (simp add: line_effect_state Entry ly(1) t)
next
  case (Remark w cm)
  have "list_all is_space w" "comment_ok cm" using assms Remark by simp_all
  then obtain w' cm' where "chomp CR (w @ cm) = w' @ cm'" "list_all is_space w'" "comment_ok cm'"
    by (rule chomp_tail)
  then show ?thesis using assms by (simp add: line_effect_state Remark process_remark)
qed

lemma file_put:
  "list_all line_ok ls \<Longrightarrow> cl_state (fold line_effect (map text_of ls) g) = fold line_put ls (cl_state g)"
  by (induction ls arbitrary: g) (simp_all add: line_effect_put)


text \<open>A file with a comment, a blank line with a carriage return, and two entries in different layouts.\<close>

definition demo_file :: "cfg_line list" where
  "demo_file =
     [Remark '' '' ''# wheels'', Entry \<lparr>ly_before = '''', ly_after = '' '', ly_gap = '' '', ly_end = [CR], ly_comment = ''''\<rparr> ''wheel_d_um'' 56000,
      Remark [CR] '''',
      Entry \<lparr>ly_before = '' '', ly_after = '''', ly_gap = '''', ly_end = '' '', ly_comment = ''# on''\<rparr> ''use_gyro_plus1'' 2]"


end
