(* ===== verification/Spec2Isabelle.thy ===== *)
theory Spec2Isabelle
  imports Hub_Protocol Ehcill Db_Drive_Laws Legoport_Pwm Lump_Service Legosensor_Service
    Legoport_Handoff Legoport_Chardev Db_Config
begin

text \<open>
  A verification library for the firmware of the SPIKE Prime hub: its drive base controller, its port and
  motor drivers and its Bluetooth protocol stack.

  \<^bold>\<open>The program.\<close> The hub runs NuttX. The drive base daemon (src/apps/drivebase) reads two motor
  encoders through the lego sensor topics, estimates position and speed, follows planned trajectories with
  two PID controllers (distance and heading) and commands the motors through ioctls on the same topics. The
  lower halves of these topics (src/boards/spike-prime-hub/src) talk to the six ports: a protocol engine
  (LUMP) over UART, and one H-bridge per port. The Bluetooth side (src/bluetooth) exchanges HCI packets with
  the controller over UART (H4 framing, eHCILL power handshake) and carries a message protocol in COBS-coded
  frames (src/protocol/c).

  \<^bold>\<open>Theories.\<close>
  \<^item> Prelude: wrap-around at C widths, truncating division, clamps, runs of a machine, and the locales that
    several components share (invariant systems, held outputs).
  \<^item> Spike\_Codec (spike\_codec.c), Hub\_Protocol (hub\_protocol.c, daemon\_transport.c): frames, the stream
    receiver with two priorities, records and messages. Round trips, preemption, buffer bounds, independence
    of segmentation.
  \<^item> H4 (h4.c), Ehcill (ehcill.c): packet reassembly and the sleep handshake. Delivery of well-formed
    streams, no byte lost or duplicated across any number of handshakes.
  \<^item> Lump\_Queue (lump\_data\_queue.h): the ring of DATA frames with its session counter, refined to a bounded
    list.
  \<^item> Db\_Angle, Db\_Trajectory, Db\_Settings, Db\_Control, Db\_Observer (drivebase\_angle.c, \_trajectory.c,
    \_settings.c, \_control.c, \_observer.c): the numeric core of the drive base.
  \<^item> Db\_Motor, Db\_Servo, Db\_Aggregate, Db\_Drivebase (drivebase\_motor.c, \_servo.c, \_aggregate.c,
    \_drivebase.c): encoder access, one wheel, one axis, the whole robot. Db\_Drive\_Laws states the laws of
    the robot across histories.
  \<^item> Legoport\_Pwm (stm32\_legoport\_pwm.c): the H-bridges with the pins and compare registers they drive.
  \<^item> Lump\_Frames, Lump\_Engine (stm32\_legoport\_lump.c): the wire format, the parser, the synchronisation,
    the DATA loop with keepalives and watchdog, the sessions of a port's thread and the calls other drivers
    make. The UART is a tape of byte reads and return codes; what the engine does to its surroundings
    (bytes, rate changes, supply rail, callbacks, pauses) is a list of outputs. Lump\_Laws turns one port
    into a step relation in which the thread and the calls of clients interleave, and proves its invariant
    by rule induction; Lump\_Announce shows that every announced device is understood completely;
    Lump\_Service states what clients can rely on: callback order, detection of silence, termination, line
    rate, supply rail, pauses.
  \<^item> Legosensor, Legosensor\_Laws, Legosensor\_Service (legosensor\_uorb.c): the seven sensor topics in front
    of the ports. Legosensor holds the binding of a port to a topic, the write claim, the latest snapshot,
    the sampling path and every ioctl with its guards. Legosensor\_Laws makes the topics and the six ports
    one machine, hub\_run, whose steps are deliveries of a port's engine and calls of its clients, with the
    invariant hub\_ok. Legosensor\_Service shows what a client of a topic gets: a binding names a live
    session, writes need the claim of the current one, a snapshot belongs to the binding it is read under.
  \<^item> Legoport\_Dcm, Legoport\_Detect, Legoport\_Handoff (stm32\_legoport.c): what is plugged into a port.
    Legoport\_Dcm holds the state machine that drives and samples the identification pins, one definition
    per state, the debounce, the handoff of a UART device to the engine, the worker and the interface;
    levels, clock and callback answers are arguments, and every pin access is recorded. Legoport\_Detect
    runs it symbolically: a step takes at most 3 rounds of its loop, a scan at most 11 ticks, so that 21
    scans (231 ticks, 462 ms) confirm any device. Legoport\_Handoff interleaves the detection, the callback
    and any number of clients in a step relation and proves by rule induction what holds between them.
  \<^item> Legoport\_Chardev (stm32\_legoport\_chardev.c): the device files in front of detection, engine and
    H-bridge, and the life of a session.
  \<^item> Db\_Config (drivebase\_config.c): the configuration file, from the bytes to the setters of Db\_Settings.
    No file brings a tunable out of its range, and what a file says, in any of the accepted layouts, is what
    the setters are called with.
  \<^item> This theory composes components: servo\_request\_reaches\_bridge follows a command of the drive base
    through the motor topic to the registers of the H-bridge, topics\_follow\_ports follows the engine of a
    port to the topic it is bound to, and empty\_socket\_stays\_powered says which side of a socket carries
    power when nothing is synchronised.

  \<^bold>\<open>Correspondence.\<close> A C struct is a record with the same field names (prefixed where two structs share
  one), an enum or a set of codes is a datatype or named constants, a function is a definition of the same
  name. A function that mutates its argument returns the new value; out-parameters are components of the
  result; the order of the arguments is kept with the mutated object last. Static variables are explicit
  records. Return codes are integers as in C, with named errno constants. A check for a NULL pointer is
  modelled where a caller can pass one, as an option, and otherwise left out because the model has no
  null records.

  Integers are unbounded where the code cannot leave the C width on the inputs it accepts, and are wrapped
  explicitly (wrap\_s, wrap\_u, or a word) where it can: signed overflow, which C leaves
  undefined, is read as two's complement wrap-around, what the arithmetic instructions of the target do.
  Division is C's truncating division.

  What the environment decides is an argument: the outcome of an open, read, ioctl or write, the clock, the
  content of a sensor message, the IMU heading. The theorems quantify over all such outcomes. Locks are not
  modelled: every definition is one critical section of the code, and interleaving is the order of the
  steps in a history.

  \<^bold>\<open>Loops and bounds.\<close> Loops are structural recursion over the bytes or slots they visit, or a function
  with a proved measure; bisections carry the number of steps of the code. The planner's corridor property
  needs v * v at most 9000000 * a, the range in which the 64-bit products of the code do not overflow; the
  default limits satisfy it with a wide margin.

  \<^bold>\<open>Not modelled.\<close>
  Command-line front ends and bench programs (src/apps: linetrace, sensor, port and the drivebase commands),
  which parse arguments and print; the threads, message queue and character device around the drive base
  (drivebase\_daemon.c, \_rt.c, stm32\_drivebase\_chardev.c); its battery and IMU input
  (drivebase\_battery.c, \_imu.c, \_imu\_cal.c), which enter the model as arguments;
  the callback glue to the vendored host stack, and register-level initialisation.
\<close>

section \<open>An axis from power-up to the motor driver\<close>

text \<open>
  The state of an axis and of the settings after power-up: settings operations, the initialisation of the
  controller, and then any interleaving of commands, control ticks and settings operations.
\<close>

definition axis_history ::
    "settings_op list \<Rightarrow> int \<Rightarrow> int \<Rightarrow> db_aggregate_control_s \<Rightarrow> ag_op list \<Rightarrow>
     db_aggregate_control_s \<times> db_settings" where
  "axis_history sops axis tick_ms ctl0 ops =
     fold ag_step ops (db_aggregate_control_init axis tick_ms ctl0 (settings_run sops init_settings))"

lemma axis_history_ok:
  assumes "axis_history sops axis tick_ms ctl0 ops = (ctl, st)"
  shows "ag_ok ctl" and "settings_ok st"
proof -
  obtain c s where i: "db_aggregate_control_init axis tick_ms ctl0 (settings_run sops init_settings) = (c, s)"
    by (cases "db_aggregate_control_init axis tick_ms ctl0 (settings_run sops init_settings)")
  have "ag_ok c" using init_ok [of axis tick_ms ctl0 "settings_run sops init_settings"] i by simp
  moreover have "settings_ok s"
    using i reach_ok [of sops] by (auto simp: db_aggregate_control_init_def Let_def settings_ok_def)
  ultimately show "ag_ok ctl" "settings_ok st"
    using ag_run_ok [of c s ops] assms i by (simp_all add: axis_history_def)
qed

text \<open>
  Fact. An axis controller is safe across every history: whatever settings operations, commands and control
  ticks were executed since power-up, in any order, all tunables are in range, the trajectory clock is
  paused only while a trajectory is active, the duty of the next tick stays within 100 percent, and the
  actuation is either closed-loop or passive with zero duty.
\<close>

theorem axis_history_safe:
  "let (ctl, st) = axis_history sops axis tick_ms ctl0 ops;
       out = fst (db_aggregate_control_update st tick ctl) in
   tunables_ok (tunables st) \<and> (if traj_paused ctl then trajectory_active ctl else True) \<and>
   \<bar>ao_duty out\<bar> \<le> 10000 \<and>
   (ao_actuation out = DRIVEBASE_ON_COMPLETION_HOLD \<or>
    passive_code (ao_actuation out) \<and> ao_duty out = 0)"
proof (cases "axis_history sops axis tick_ms ctl0 ops")
  case (Pair ctl st)
  then show ?thesis
    using axis_history_ok [OF Pair] update_output_range [of ctl st tick]
    by (simp add: ag_ok_def settings_ok_def)
qed

lemma clamp_duty_id: "\<bar>d\<bar> \<le> 10000 \<Longrightarrow> clamp_duty d = d"
  by (auto simp: clamp_duty_def)

text \<open>
  Fact. What an axis outputs after any history reaches the motor driver unchanged: a closed-loop output is
  commanded with exactly its duty and the mounting sign of the side, never clamped, and a passive output
  becomes a coast or a brake without any duty; a tick issues exactly one command.
\<close>

theorem wheel_command_bounded:
  assumes "g_initialised g" "axis_history sops axis tick_ms ctl0 ops = (ctl, st)"
  shows "let out = fst (db_aggregate_control_update st tick ctl);
             cmds = fst (snd (db_servo_apply ioc (ao_duty out) (ao_actuation out) s g)) in
     cmds = (if ao_actuation out = DRIVEBASE_ON_COMPLETION_COAST then [Motor_Coast (sv_side s)]
             else if ao_actuation out = DRIVEBASE_ON_COMPLETION_BRAKE then [Motor_Brake (sv_side s)]
             else [Set_Pwm (sv_side s) (ao_duty out * db_side_sign g (sv_side s))]) \<and>
     \<bar>ao_duty out\<bar> \<le> 10000"
proof -
  let ?out = "fst (db_aggregate_control_update st tick ctl)"
  note r = update_output_range [OF axis_history_ok [OF assms(2)], of tick]
  obtain rc g' where "drivebase_motor_set_duty ioc (sv_side s) (ao_duty ?out) g =
      (rc, [Set_Pwm (sv_side s) (ao_duty ?out * db_side_sign g (sv_side s))], g')"
    using set_duty_cases [OF assms(1), of ioc "sv_side s" "ao_duty ?out"] r(1) by fastforce
  then show ?thesis
    using r assms(1)
    by (auto simp: Let_def db_servo_apply_def clamp_duty_id drivebase_motor_coast_def drivebase_motor_brake_def
        drivebase_motor_is_initialised_def completion_defs passive_code_def split: prod.splits)
qed

theorem wheel_command_bounded_witness:
  "let (ctl, st) = axis_history [] DB_AXIS_DISTANCE 2 demo_axis [];
       out = fst (db_aggregate_control_update st (2000, 0, 0, 2) ctl) in
   fst (snd (db_servo_apply 0 (ao_duty out) (ao_actuation out) demo_servo demo_motors)) = [Motor_Coast DB_SIDE_LEFT]"
proof -
  obtain ctl st where h: "axis_history [] DB_AXIS_DISTANCE 2 demo_axis [] = (ctl, st)" by fastforce
  then have "ao_actuation (fst (db_aggregate_control_update st (2000, 0, 0, 2) ctl)) = DRIVEBASE_ON_COMPLETION_COAST"
    by (auto simp: axis_history_def db_aggregate_control_init_def Let_def db_aggregate_control_update_def
        db_pid_init_def db_pid_reset_def)
  then show ?thesis
    using wheel_command_bounded [OF _ h, of demo_motors "(2000, 0, 0, 2)" 0 demo_servo] h
    by (simp add: demo_motors_def demo_servo_def Let_def)
qed

section \<open>From the drive base to the H-bridge\<close>

text \<open>
  The ioctl that carries out a command of the drive base: the left wheel is the device sensor\_motor\_l, the
  right wheel sensor\_motor\_r.
\<close>

fun side_class :: "db_side_e \<Rightarrow> legosensor_class_e" where
  "side_class DB_SIDE_LEFT = LEGOSENSOR_CLASS_MOTOR_L"
| "side_class DB_SIDE_RIGHT = LEGOSENSOR_CLASS_MOTOR_R"

fun motor_ioctl :: "motor_cmd \<Rightarrow> db_side_e \<times> legosensor_cmd" where
  "motor_ioctl (Set_Pwm side d) = (side, LEGOSENSOR_SET_PWM (U_Ok \<lparr>pa_num_channels = 1, pa_channels = [d, 0, 0, 0]\<rparr>))"
| "motor_ioctl (Motor_Coast side) =
     (side, if side = DB_SIDE_LEFT then LEGOSENSOR_MOTOR_L_COAST else LEGOSENSOR_MOTOR_R_COAST)"
| "motor_ioctl (Motor_Brake side) =
     (side, if side = DB_SIDE_LEFT then LEGOSENSOR_MOTOR_L_BRAKE else LEGOSENSOR_MOTOR_R_BRAKE)"

definition perform :: "int \<Rightarrow> int \<Rightarrow> (db_side_e \<Rightarrow> filep) \<Rightarrow> motor_cmd \<Rightarrow> hub \<Rightarrow> hub" where
  "perform clk lk fds cmd s =
     (case motor_ioctl cmd of (side, k) \<Rightarrow> snd (snd (legosensor_control clk lk (side_class side) (fds side) k s)))"

lemma side_motor [simp]: "is_motor (side_class side)"
  by (cases side) (simp_all add: is_motor_def)

text \<open>What each command does to the bridge, once the claim is current.\<close>

lemma perform_cmd:
  assumes "legosensor_check_write_claim (hub_class s (side_class side)) (fds side) = (OK, int p)"
  shows "\<bar>d\<bar> \<le> 10000 \<Longrightarrow> hub_pwm (perform clk lk fds (Set_Pwm side d) s) = final (hub_pwm s) (snd (stm32_legoport_pwm_set_duty lk (int p) d (hub_pwm s)))"
    "hub_pwm (perform clk lk fds (Motor_Coast side) s) = final (hub_pwm s) (snd (stm32_legoport_pwm_coast lk (int p) (hub_pwm s)))"
    "hub_pwm (perform clk lk fds (Motor_Brake side) s) = final (hub_pwm s) (snd (stm32_legoport_pwm_brake lk (int p) (hub_pwm s)))"
proof -
  note c = assms
  show "hub_pwm (perform clk lk fds (Set_Pwm side d) s) = final (hub_pwm s) (snd (stm32_legoport_pwm_set_duty lk (int p) d (hub_pwm s)))"
    if "\<bar>d\<bar> \<le> 10000"
    using that c by (simp add: perform_def legosensor_control_def from_user_def set_pwm_def with_claim_def OK_def drive_bridge_def split_beta)
  show "hub_pwm (perform clk lk fds (Motor_Coast side) s) = final (hub_pwm s) (snd (stm32_legoport_pwm_coast lk (int p) (hub_pwm s)))"
    "hub_pwm (perform clk lk fds (Motor_Brake side) s) = final (hub_pwm s) (snd (stm32_legoport_pwm_brake lk (int p) (hub_pwm s)))"
    using c by (cases side; simp add: perform_def legosensor_control_def motor_passive_def with_claim_def OK_def drive_bridge_def split_beta)+
qed

definition bridge_ready :: "pwm_system \<Rightarrow> nat \<Rightarrow> bool" where
  "bridge_ready b p \<longleftrightarrow> pwm_reach b \<and> p < 6 \<and> pw_initialized (g_devs b ! p) \<and> \<not> pw_pinned (g_devs b ! p)"

lemma bridge_passive:
  assumes "bridge_ready b p" "0 \<le> lk"
  shows "pw_state (g_devs (final b (snd (stm32_legoport_pwm_coast lk (int p) b))) ! p) = LEGOPORT_PWM_STATE_COAST"
    "pw_state (g_devs (final b (snd (stm32_legoport_pwm_brake lk (int p) b))) ! p) = LEGOPORT_PWM_STATE_BRAKE"
proof -
  have l: "length (g_devs b) = 6" using assms(1) reach_sys_ok by (auto simp: bridge_ready_def sys_ok_def)
  have n: "hbridge_apply_coast p b \<noteq> []" "hbridge_apply_brake p b \<noteq> []"
    by (simp_all add: hbridge_apply_coast_def hbridge_apply_brake_def)
  have "snd (stm32_legoport_pwm_coast lk (int p) b) = hbridge_apply_coast p b" "snd (stm32_legoport_pwm_brake lk (int p) b) = hbridge_apply_brake p b"
    using assms by (auto simp: bridge_ready_def stm32_legoport_pwm_coast_def stm32_legoport_pwm_brake_def with_port_def pwm_consts)
  then show "pw_state (g_devs (final b (snd (stm32_legoport_pwm_coast lk (int p) b))) ! p) = LEGOPORT_PWM_STATE_COAST"
    "pw_state (g_devs (final b (snd (stm32_legoport_pwm_brake lk (int p) b))) ! p) = LEGOPORT_PWM_STATE_BRAKE"
    using own_final [of p b] assms(1) l n by (auto simp: final_def view_def bridge_ready_def)
qed

lemma bridge_duty:
  assumes "bridge_ready b p" "0 \<le> lk" "\<bar>d\<bar> \<le> 10000"
  shows "pw_duty (g_devs (final b (snd (stm32_legoport_pwm_set_duty lk (int p) d b))) ! p) = d"
  using bridge_duty_effect [of b p lk d] assms by (auto simp: bridge_ready_def Let_def split: prod.splits)

text \<open>
  C8. What the servo of a wheel asks for is what the motor of that wheel gets: while the drive base holds the
  claim of the wheel's topic, every request, however large, ends in the H-bridge of the port bound to the
  topic as the duty clamped to full scale with the mounting sign, as a coast or as a brake, and no other
  port is touched.
\<close>

theorem servo_request_reaches_bridge:
  assumes "g_initialised g" "legosensor_check_write_claim (hub_class s (side_class (sv_side sv))) (fds (sv_side sv)) = (OK, int p)"
    "bridge_ready (hub_pwm s) p" "0 \<le> lk"
  shows "let (rc, cmds, sv', g') = db_servo_apply ioc duty actuation sv g; t = hub_pwm (fold (perform clk lk fds) cmds s) in
    list_all (\<lambda>j. j = p \<or> view j t = view j (hub_pwm s)) [0..<6] \<and>
    (if actuation = DRIVEBASE_ON_COMPLETION_COAST \<or> actuation = DRIVEBASE_ON_COMPLETION_COAST_SMART
     then pw_state (g_devs t ! p) = LEGOPORT_PWM_STATE_COAST
     else if actuation = DRIVEBASE_ON_COMPLETION_BRAKE \<or> actuation = DRIVEBASE_ON_COMPLETION_BRAKE_SMART
     then pw_state (g_devs t ! p) = LEGOPORT_PWM_STATE_BRAKE
     else pw_duty (g_devs t ! p) = clamp_duty duty * db_side_sign g (sv_side sv))"
proof -
  let ?c = "clamp_duty duty" and ?s = "sv_side sv"
  have c: "\<bar>?c\<bar> \<le> 10000" by (auto simp: clamp_duty_def abs_le_iff)
  then have sc: "\<bar>?c * db_side_sign g ?s\<bar> \<le> 10000" by (auto simp: db_side_sign_def abs_mult)
  have m: "snd (db_servo_apply ioc duty actuation sv g) =
      ([if actuation = DRIVEBASE_ON_COMPLETION_COAST \<or> actuation = DRIVEBASE_ON_COMPLETION_COAST_SMART then Motor_Coast ?s
        else if actuation = DRIVEBASE_ON_COMPLETION_BRAKE \<or> actuation = DRIVEBASE_ON_COMPLETION_BRAKE_SMART then Motor_Brake ?s
        else Set_Pwm ?s (?c * db_side_sign g ?s)], snd (snd (db_servo_apply ioc duty actuation sv g)))"
  proof -
    obtain d where "drivebase_motor_set_duty ioc ?s ?c g = (if ioc < 0 then ioc else 0, [Set_Pwm ?s d],
        if ioc < 0 then drivebase_motor_request_reclaim ?s g else g)" "d = ?c * db_side_sign g ?s"
      using set_duty_cases [OF assms(1), of ioc ?s ?c] c by auto
    then show ?thesis
      using assms(1) by (simp add: db_servo_apply_def drivebase_motor_is_initialised_def drivebase_motor_coast_def
          drivebase_motor_brake_def Let_def)
  qed
  have v: "view j (final (hub_pwm s) (snd (pwm_user op (hub_pwm s)))) = view j (hub_pwm s)"
    if "case op of User_Duty lk q d \<Rightarrow> q = int p | User_Coast lk q \<Rightarrow> q = int p | User_Brake lk q \<Rightarrow> q = int p | User_Close lk q \<Rightarrow> q = int p"
      "j < 6" "j \<noteq> p" for op j
    using user_view [OF refl that] .
  have others: "list_all (\<lambda>j. j = p \<or> view j (final (hub_pwm s) (snd (pwm_user op (hub_pwm s)))) = view j (hub_pwm s)) [0..<6]"
    if "case op of User_Duty lk q d \<Rightarrow> q = int p | User_Coast lk q \<Rightarrow> q = int p | User_Brake lk q \<Rightarrow> q = int p | User_Close lk q \<Rightarrow> q = int p" for op
    unfolding list_all_iff using v [OF that] by fastforce
  note o = others [of "User_Duty lk (int p) (?c * db_side_sign g ?s)"] others [of "User_Coast lk (int p)"] others [of "User_Brake lk (int p)"]
  obtain rc cmds sv' g' where e: "db_servo_apply ioc duty actuation sv g = (rc, cmds, sv', g')" by (metis prod_cases4)
  show ?thesis
    using m o perform_cmd [where fds = fds and side = ?s and s = s and clk = clk and lk = lk, OF assms(2)] sc bridge_passive [OF assms(3,4)]
      bridge_duty [OF assms(3,4) sc]
    unfolding e by (simp add: Let_def split del: if_split split: if_split_asm)
qed

theorem servo_request_reaches_bridge_witness:
  "let cmds = fst (snd (db_servo_apply 0 25000 DRIVEBASE_ON_COMPLETION_HOLD (demo_servo\<lparr>sv_side := DB_SIDE_RIGHT\<rparr>) demo_motors));
       t = hub_pwm (fold (perform 0 0 (\<lambda>_. 7)) cmds claimed_hub) in
   pw_duty (g_devs t ! 2) = 10000 \<and> view 3 t = view 3 demo_pwm"
proof -
  have c: "legosensor_check_write_claim (hub_class claimed_hub (side_class (sv_side (demo_servo\<lparr>sv_side := DB_SIDE_RIGHT\<rparr>)))) 7 = (OK, int 2)"
    by (simp add: legosensor_check_write_claim_def claimed_class)
  have "pw_initialized (g_devs demo_pwm ! 2)" "\<not> pw_pinned (g_devs demo_pwm ! 2)" by code_simp+
  then have b: "bridge_ready (hub_pwm claimed_hub) 2" using demo_pwm_reach by (simp add: bridge_ready_def claimed_class)
  have g: "g_initialised demo_motors" by (simp add: demo_motors_def)
  let ?t = "hub_pwm (fold (perform 0 0 (\<lambda>_. 7)) (fst (snd (db_servo_apply 0 25000 DRIVEBASE_ON_COMPLETION_HOLD
      (demo_servo\<lparr>sv_side := DB_SIDE_RIGHT\<rparr>) demo_motors))) claimed_hub)"
  have "list_all (\<lambda>j. j = 2 \<or> view j ?t = view j demo_pwm) [0..<6] \<and> pw_duty (g_devs ?t ! 2) = 10000"
    using servo_request_reaches_bridge [OF g c b, of 0 0 25000 DRIVEBASE_ON_COMPLETION_HOLD 0]
    by (simp add: Let_def split_beta completion_defs clamp_duty_def db_side_sign_def claimed_class)
  moreover have "3 \<in> set [0..<6]" by simp
  ultimately show ?thesis unfolding list_all_iff Let_def by fastforce
qed

section \<open>From the ports to the topics\<close>

text \<open>The engines a list stands for have been reached by their ports.\<close>

definition reached_engines :: "lump_engine_s list \<Rightarrow> bool" where
  "reached_engines g \<longleftrightarrow> length g = 6 \<and> (\<forall>p < 6. \<exists>tr ph. lump_run p all_cb tr (ph, g ! p))"

lemma reached_ok: "reached_engines g \<Longrightarrow> engines_ok g"
proof -
  assume r: "reached_engines g"
  have "LUMP_TYPE_ID_MIN \<le> di_type_id (le_info e)" if e: "e \<in> set g" "lump_synced e" for e
  proof -
    obtain p where p: "p < 6" "e = g ! p" using r e(1) by (auto simp: reached_engines_def in_set_conv_nth)
    then obtain tr ph where l: "lump_run p all_cb tr (ph, e)" using r by (auto simp: reached_engines_def)
    show ?thesis using run_phase_ok [OF l] e(2) by (cases ph) (auto simp: synced_bit engine_ok_def flags_ok_def)
  qed
  then show "engines_ok g" using r by (auto simp: engines_ok_def reached_engines_def list_all_iff)
qed

definition hub_event_ok :: "hub_ev \<Rightarrow> bool" where
  "hub_event_ok ev \<longleftrightarrow> (case ev of Ev_Sync ts1 ts2 p i \<Rightarrow> p < 6 | Ev_Data ts0 now ts p m d \<Rightarrow> p < 6 | Ev_Error ts p m \<Rightarrow> p < 6
     | Ev_Engines g \<Rightarrow> reached_engines g | _ \<Rightarrow> True)"


text \<open>The callbacks of one port as events.\<close>

fun ev_of :: "nat \<Rightarrow> lump_out \<Rightarrow> hub_ev list" where
  "ev_of p (Cb_Sync i) = [Ev_Sync 0 0 p i]"
| "ev_of p (Cb_Data m d) = [Ev_Data 0 0 0 p m d]"
| "ev_of p (Cb_Error m) = [Ev_Error 0 p m]"
| "ev_of p _ = []"

lemma ev_of_cb: "concat (map (cb_of q) (concat (map (ev_of p) tr))) = (if q = p then filter is_cb tr else [])"
proof (induction tr)
  case (Cons a tr)
  then show ?case by (cases a) auto
qed simp

lemma ev_of_ok: "p < 6 \<Longrightarrow> list_all hub_event_ok (concat (map (ev_of p) tr))"
proof (induction tr)
  case (Cons a tr)
  then show ?case by (cases a) (auto simp: hub_event_ok_def)
qed simp


section \<open>The supply rail of an empty socket\<close>

text \<open>What the outputs of a port's engine do to the H-bridges.\<close>

fun bridge_out :: "nat \<Rightarrow> lump_out \<Rightarrow> pwm_system \<Rightarrow> pwm_system" where
  "bridge_out p (Pwm_Pin d) b = final b (snd (stm32_legoport_pwm_pin_supply 0 (int p) d b))"
| "bridge_out p Pwm_Unpin b = final b (snd (stm32_legoport_pwm_unpin 0 (int p) b))"
| "bridge_out p _ b = b"

lemma bridge_out_reach: "pwm_reach b \<Longrightarrow> pwm_reach (bridge_out p a b)"
proof (cases a)
  case (Pwm_Pin d)
  assume b: "pwm_reach b"
  obtain rc tr where r: "stm32_legoport_pwm_pin_supply 0 (int p) d b = (rc, tr)" by (metis prod.exhaust)
  show ?thesis using pwm_reach.step [OF b, of rc tr] pwm_step.step_pin [of b 0 "int p" d] r by (simp add: Pwm_Pin)
next
  case Pwm_Unpin
  assume b: "pwm_reach b"
  obtain rc tr where r: "stm32_legoport_pwm_unpin 0 (int p) b = (rc, tr)" by (metis prod.exhaust)
  show ?thesis using pwm_reach.step [OF b, of rc tr] pwm_step.step_unpin [of b 0 "int p"] r by (simp add: Pwm_Unpin)
qed auto


lemma pin_device:
  assumes "pwm_reach b" "p < 6" "pw_initialized (g_devs b ! p)" "d \<noteq> 0"
  shows "pw_pinned (g_devs (bridge_out p (Pwm_Pin d) b) ! p)" "pw_initialized (g_devs (bridge_out p (Pwm_Pin d) b) ! p)"
proof -
  let ?d = "if d > 0 then LEGOPORT_PWM_DUTY_MAX else LEGOPORT_PWM_DUTY_MIN"
  let ?tr = "hbridge_set_duty_internal p ?d b"
  have ok: "length (g_devs b) = 6" "port_ok (view p b)" using reach_sys_ok [OF assms(1)] assms(2) by (simp_all add: sys_ok_def)
  have "\<bar>?d\<bar> \<le> 10000" by (simp add: pwm_consts)
  note v = set_duty_views [OF assms(2) ok this]
  have "length (g_devs (last ?tr)) = 6"
    using set_duty_local [OF assms(2), of b ?d] last_in_set [OF v(3)] ok(1) by (simp add: local_run_def list_all_iff)
  moreover have "pw_initialized (g_devs (last ?tr) ! p)"
    using v(2) assms(3) by (auto simp: view_def split: if_splits)
  moreover have "bridge_out p (Pwm_Pin d) b = set_pinned p True (last ?tr)"
    using assms(2-4) v(3) by (simp add: stm32_legoport_pwm_pin_supply_def with_port_def pwm_consts Let_def final_def)
  ultimately show "pw_pinned (g_devs (bridge_out p (Pwm_Pin d) b) ! p)" "pw_initialized (g_devs (bridge_out p (Pwm_Pin d) b) ! p)"
    using assms(2) by (simp_all add: set_pinned_def)
qed

lemma unpin_device:
  assumes "pwm_reach b" "p < 6" "pw_initialized (g_devs b ! p)"
  shows "pw_initialized (g_devs (bridge_out p Pwm_Unpin b) ! p)"
proof -
  let ?s = "set_pinned p False b"
  have l: "length (g_devs ?s) = 6" using reach_sys_ok [OF assms(1)] by (simp add: sys_ok_def set_pinned_def)
  have "hbridge_apply_coast p ?s \<noteq> []" by (simp add: hbridge_apply_coast_def)
  then have "bridge_out p Pwm_Unpin b = last (hbridge_apply_coast p ?s)"
    using assms by (simp add: stm32_legoport_pwm_unpin_def with_port_def pwm_consts Let_def final_def)
  then show ?thesis using own_final(1) [OF assms(2) l] assms(2,3) l by (simp add: view_def set_pinned_def)
qed

lemma bridge_rail:
  "p < 6 \<Longrightarrow> pwm_reach b \<Longrightarrow> pw_initialized (g_devs b ! p) \<Longrightarrow> (r \<noteq> 0 \<longrightarrow> pw_pinned (g_devs b ! p)) \<Longrightarrow>
   pwm_reach (fold (bridge_out p) tr b) \<and> (rail tr r \<noteq> 0 \<longrightarrow> pw_pinned (g_devs (fold (bridge_out p) tr b) ! p))"
proof (induction tr arbitrary: b r)
  case (Cons a tr)
  have "pw_initialized (g_devs (bridge_out p a b) ! p) \<and> (rail_next r a \<noteq> 0 \<longrightarrow> pw_pinned (g_devs (bridge_out p a b) ! p))"
  proof (cases a)
    case (Pwm_Pin d)
    show ?thesis
    proof (cases "d = 0")
      case True
      then show ?thesis using Cons.prems by (simp add: Pwm_Pin stm32_legoport_pwm_pin_supply_def final_def)
    next
      case False
      then show ?thesis using pin_device [OF Cons.prems(2,1,3)] by (simp add: Pwm_Pin)
    qed
  next
    case Pwm_Unpin
    then show ?thesis using unpin_device [OF Cons.prems(2,1,3)] by simp
  qed (use Cons.prems in simp_all)
  then show ?case
    using Cons.IH [OF Cons.prems(1) bridge_out_reach [OF Cons.prems(2), of p a], where r = "rail_next r a"] by (simp add: rail_def)
qed (simp add: rail_def)

lemma users_keep:
  "i < 6 \<Longrightarrow> pw_pinned (g_devs b ! i) \<Longrightarrow> view i (fold (\<lambda>op u. final u (snd (pwm_user op u))) ops b) = view i b"
proof (induction ops arbitrary: b)
  case (Cons o' os)
  have v: "view i (final b (snd (pwm_user o' b))) = view i b"
    using final_view user_keeps_pinned [OF Cons.prems] by blast
  then have "pw_pinned (g_devs (final b (snd (pwm_user o' b))) ! i)" using Cons.prems(2) by (simp add: view_def)
  then show ?case using Cons.IH [OF Cons.prems(1)] v by simp
qed simp

text \<open>
  C34. The socket of an unplugged sensor stays powered: when a device that asked for a supply rail is gone and its
  session has ended, the H-bridge of the empty socket is still driven at full duty, and no duty, coast, brake
  or close call from userspace switches it off.
\<close>

theorem empty_socket_stays_powered:
  assumes "pwm_reach b" "p < 6" "pw_initialized (g_devs b ! p)" "lump_run p c tr (Looping v, e)"
    "lump_step (Looping v, e) out (Waiting, e')" "rail tr 0 \<noteq> 0"
  shows "let t = fold (\<lambda>op u. final u (snd (pwm_user op u))) ops (fold (bridge_out p) (tr @ out) b) in
    lump_run p c (tr @ out) (Waiting, e') \<and> \<not> lump_synced e' \<and>
    pw_state (g_devs t ! p) = LEGOPORT_PWM_STATE_PWM \<and> \<bar>pw_duty (g_devs t ! p)\<bar> = LEGOPORT_PWM_DUTY_MAX"
proof -
  let ?b = "fold (bridge_out p) (tr @ out) b"
  have r: "lump_run p c (tr @ out) (Waiting, e')" by (rule lump_run.step [OF assms(4,5)])
  have "rail (tr @ out) 0 \<noteq> 0" using end_keeps_rail [OF assms(5)] assms(6) by (simp add: rail_append)
  then have b: "pwm_reach ?b" "pw_pinned (g_devs ?b ! p)"
    using bridge_rail [OF assms(2,1,3), of 0 "tr @ out"] by auto
  have "port_ok (view p ?b)" using reach_sys_ok [OF b(1)] assms(2) by (simp add: sys_ok_def)
  then have "pw_state (g_devs ?b ! p) = LEGOPORT_PWM_STATE_PWM \<and> \<bar>pw_duty (g_devs ?b ! p)\<bar> = LEGOPORT_PWM_DUTY_MAX"
    using b(2) by (simp add: port_ok_def view_def)
  moreover have "\<not> lump_synced e'" using run_phase_ok [OF r] by (simp add: synced_bit)
  ultimately show ?thesis using users_keep [OF assms(2) b(2), of ops] r by (simp add: Let_def view_def)
qed

theorem empty_socket_stays_powered_witness:
  "\<exists>tr e. lump_run 0 all_cb tr (Waiting, e) \<and> \<not> lump_synced e \<and>
     pw_state (g_devs (final (fold (bridge_out 0) tr demo_pwm)
       (snd (stm32_legoport_pwm_coast 0 0 (fold (bridge_out 0) tr demo_pwm)))) ! 0) = LEGOPORT_PWM_STATE_PWM"
proof -
  obtain tr v e where r: "lump_run 0 all_cb tr (Looping v, e)" "rail tr 0 = - 1" using color_run by blast
  let ?e1 = "e\<lparr>wdog_stall := True\<rparr>"
  obtain e' io' where s: "session_end (- ETIMEDOUT) ?e1 quiet_io = (e', io')" by (metis prod.exhaust)
  have st: "lump_step (Looping v, e) (io_out io') (Waiting, e')"
    by (rule lump_step.ended [where io = quiet_io and env = "\<lparr>lv_stall = True, lv_now = 0, lv_wake = False, lv_stall_late = False\<rparr>", OF _ _ s])
      (simp_all add: fresh_io_def quiet_io_def data_iter_def)
  have i: "pw_initialized (g_devs demo_pwm ! 0)" by code_simp
  have n: "rail tr 0 \<noteq> 0" using r(2) by simp
  show ?thesis
    using empty_socket_stays_powered [OF demo_pwm_reach _ i r(1) st n, of "[User_Coast 0 0]"]
    by (intro exI [of _ "tr @ io_out io'"] exI [of _ e']) (simp add: Let_def)
qed

end
